(* ===== verification/Prelude.thy ===== *)
theory Prelude
  imports Complex_Main "HOL-Library.Word" "HOL-Library.Multiset"
begin

section \<open>Shared types, list operations and proof collections\<close>

text \<open>
  Types and helpers used by every other theory: identifiers, bytes, formatted messages,
  the \<open>f32\<close> values the layout stores, and the \<open>Vec\<close> operations of the Rust standard
  library that the daemon uses (\<open>insert\<close>, \<open>remove\<close>, \<open>swap\<close>, indexed update,
  \<open>iter().position\<close>). A \<open>Vec\<close> operation that panics out of range in Rust is total
  here; every caller in the development checks the index first, as the code does.
\<close>

named_theorems layout_simps \<open>unfolding of the layout accessors\<close>
named_theorems session_defs \<open>definitions of the session-manager operations\<close>
named_theorems handler_defs \<open>definitions of the request handlers\<close>

subsection \<open>Identifiers, bytes, messages\<close>

text \<open>
  A \<open>Uuid\<close> is a 128-bit token that the program only generates, compares, prints and
  parses; it is a natural number here. \<open>PaneId(Uuid)\<close> is the same token. A path is the
  character string that names it.
\<close>

type_synonym uuid = nat
type_synonym pane_id = uuid
type_synonym path = string
type_synonym byte = "8 word"

text \<open>
  A formatted message (\<open>format!\<close>) keeps its format string and its arguments, so two
  messages are equal exactly when they print the same pieces.
\<close>

datatype msg = Msg string "fmt_arg list"
  and fmt_arg = ANat nat | AUuid uuid | AStr string | AMsg msg

text \<open>\<open>ForgettyError\<close>, with the five variants of the code.\<close>

datatype forgetty_error = Vt msg | Pty msg | Renderer msg | Config msg | Io msg

text \<open>\<open>Display\<close> of a \<open>ForgettyError\<close> (the \<open>#[error(...)]\<close> attributes).\<close>

fun show_error :: "forgetty_error \<Rightarrow> msg" where
  "show_error (Vt m) = Msg ''VT error: {0}'' [AMsg m]"
| "show_error (Pty m) = Msg ''PTY error: {0}'' [AMsg m]"
| "show_error (Renderer m) = Msg ''Renderer error: {0}'' [AMsg m]"
| "show_error (Config m) = Msg ''Config error: {0}'' [AMsg m]"
| "show_error (Io m) = Msg ''I/O error: {0}'' [AMsg m]"

text \<open>
  \<open>str::trim\<close> for the ASCII white space (tab to carriage return, space); the other
  Unicode white space is not modelled, strings being byte strings.
\<close>

definition is_whitespace :: "char \<Rightarrow> bool" where
  "is_whitespace c \<longleftrightarrow> (let n = (of_char c :: nat) in n = 32 \<or> 9 \<le> n \<and> n \<le> 13)"

definition rust_trim :: "string \<Rightarrow> string" where
  "rust_trim s = rev (dropWhile is_whitespace (rev (dropWhile is_whitespace s)))"

subsection \<open>Floating-point ratios\<close>

text \<open>
  A split ratio is an \<open>f32\<close>. The program copies it, compares it in \<open>clamp\<close> and never
  computes with it; finite values are rationals and the three special values are kept.
  Rounding to 24 bits of mantissa is not modelled.
\<close>

datatype f32 = Finite rat | PosInf | NegInf | NaN

text \<open>\<open>f32::clamp(lo, hi)\<close>: the comparison with NaN fails on both sides.\<close>

fun f32_clamp :: "rat \<Rightarrow> rat \<Rightarrow> f32 \<Rightarrow> f32" where
  "f32_clamp lo hi (Finite r) = (if r < lo then Finite lo else if r > hi then Finite hi else Finite r)"
| "f32_clamp lo hi PosInf = Finite hi"
| "f32_clamp lo hi NegInf = Finite lo"
| "f32_clamp lo hi NaN = NaN"

lemma f32_clamp_range:
  "r \<noteq> NaN \<Longrightarrow> lo \<le> hi \<Longrightarrow> \<exists>q. f32_clamp lo hi r = Finite q \<and> lo \<le> q \<and> q \<le> hi"
  by (cases r) auto

subsection \<open>Vec operations\<close>

definition modify_at :: "nat \<Rightarrow> ('a \<Rightarrow> 'a) \<Rightarrow> 'a list \<Rightarrow> 'a list" where
  "modify_at i f xs = (if i < length xs then xs[i := f (xs ! i)] else xs)"

definition vec_insert :: "nat \<Rightarrow> 'a \<Rightarrow> 'a list \<Rightarrow> 'a list" where
  "vec_insert i x xs = take i xs @ x # drop i xs"

definition vec_remove :: "nat \<Rightarrow> 'a list \<Rightarrow> 'a list" where
  "vec_remove i xs = take i xs @ drop (Suc i) xs"

definition vec_swap :: "nat \<Rightarrow> nat \<Rightarrow> 'a list \<Rightarrow> 'a list" where
  "vec_swap i j xs = (xs[i := xs ! j])[j := xs ! i]"

fun position :: "('a \<Rightarrow> bool) \<Rightarrow> 'a list \<Rightarrow> nat option" where
  "position P [] = None"
| "position P (x # xs) = (if P x then Some 0 else map_option Suc (position P xs))"

text \<open>\<open>slice.get(i)\<close>.\<close>

definition vec_get :: "'a list \<Rightarrow> nat \<Rightarrow> 'a option" where
  "vec_get xs i = (if i < length xs then Some (xs ! i) else None)"

lemma length_modify_at [simp]: "length (modify_at i f xs) = length xs"
  by (simp add: modify_at_def)

lemma length_vec_insert [simp]: "length (vec_insert i x xs) = Suc (length xs)"
  by (simp add: vec_insert_def)

lemma length_vec_remove [simp]: "i < length xs \<Longrightarrow> length (vec_remove i xs) = length xs - 1"
  by (simp add: vec_remove_def)

lemma length_vec_swap [simp]: "length (vec_swap i j xs) = length xs"
  by (simp add: vec_swap_def)

lemma modify_at_nth: "j < length xs \<Longrightarrow> modify_at i f xs ! j = (if i = j then f (xs ! j) else xs ! j)"
  by (simp add: modify_at_def)

text \<open>
  The indexed operations by a split of the list at the index: with this form every
  statement about sets, distinctness or concatenations of the result is one about
  \<open>A @ x # B\<close>.
\<close>

lemma modify_at_append [simp]: "modify_at (length A) f (A @ x # B) = A @ f x # B"
  by (simp add: modify_at_def)

lemma vec_remove_append [simp]: "vec_remove (length A) (A @ x # B) = A @ B"
  by (simp add: vec_remove_def)

lemma vec_insert_append [simp]: "vec_insert (length A) x (A @ B) = A @ x # B"
  by (simp add: vec_insert_def)

lemma nth_split:
  assumes "i < length xs"
  obtains A x B where "xs = A @ x # B" "length A = i" "xs ! i = x"
proof
  show "xs = take i xs @ xs ! i # drop (Suc i) xs"
    using assms by (rule id_take_nth_drop)
qed (use assms in auto)

lemma insert_split:
  assumes "i \<le> length xs"
  obtains A B where "xs = A @ B" "length A = i"
proof
  show "xs = take i xs @ drop i xs" by simp
qed (use assms in simp)

lemma position_Some_iff:
  "position P xs = Some i \<longleftrightarrow> i < length xs \<and> P (xs ! i) \<and> (\<forall>j<i. \<not> P (xs ! j))"
proof (induction xs arbitrary: i)
  case (Cons x xs)
  then show ?case
    by (cases i) (auto simp: less_Suc_eq_0_disj nth_Cons split: nat.splits)
qed simp

lemma position_None_iff: "position P xs = None \<longleftrightarrow> (\<forall>x\<in>set xs. \<not> P x)"
  by (induction xs) auto

lemma mset_vec_swap:
  assumes "i < length xs" "j < length xs"
  shows "mset (vec_swap i j xs) = mset xs"
  using assms by (simp add: vec_swap_def mset_swap)

lemma vec_swap_nth:
  assumes "i < length xs" "j < length xs" "k < length xs"
  shows "vec_swap i j xs ! k = xs ! (if k = i then j else if k = j then i else k)"
  using assms by (simp add: vec_swap_def nth_list_update)

lemma mset_vec_insert [simp]: "mset (vec_insert i x xs) = add_mset x (mset xs)"
proof -
  have "mset xs = mset (take i xs) + mset (drop i xs)"
    by (metis append_take_drop_id mset_append)
  then show ?thesis by (simp add: vec_insert_def)
qed

lemma mset_vec_remove: "i < length xs \<Longrightarrow> add_mset (xs ! i) (mset (vec_remove i xs)) = mset xs"
  by (auto elim!: nth_split)

lemma mset_concat_map:
  "mset xs = mset ys \<Longrightarrow> mset (concat (map g xs)) = mset (concat (map g ys))"
  by (simp add: mset_concat multiset.map_comp flip: sum_mset_sum_list)

text \<open>Replacing the middle of a duplicate-free list.\<close>

lemma distinct_replace_middle:
  assumes "distinct (a @ x @ c)" "distinct y" "set y \<subseteq> set x \<union> N" "N \<inter> set a = {}" "N \<inter> set c = {}"
  shows "distinct (a @ y @ c)"
  using assms unfolding distinct_append set_append by blast

lemma distinct_insert_middle:
  assumes "distinct (a @ c)" "distinct y" "set y \<inter> set (a @ c) = {}"
  shows "distinct (a @ y @ c)"
  using assms unfolding distinct_append set_append by blast

lemma distinct_remove_middle: "distinct (a @ x @ c) \<Longrightarrow> distinct (a @ c)"
  unfolding distinct_append set_append by blast

text \<open>The last \<open>n\<close> elements of a list.\<close>

definition suffix_of :: "nat \<Rightarrow> 'a list \<Rightarrow> 'a list" where
  "suffix_of n xs = drop (length xs - n) xs"

lemma length_suffix_of [simp]: "length (suffix_of n xs) = min n (length xs)"
  by (simp add: suffix_of_def)

lemma suffix_of_short [simp]: "length xs \<le> n \<Longrightarrow> suffix_of n xs = xs"
  by (simp add: suffix_of_def)

lemma suffix_of_0 [simp]: "suffix_of 0 xs = []"
  by (simp add: suffix_of_def)

lemma suffix_of_append_suffix [simp]:
  "suffix_of n (suffix_of n xs @ ys) = suffix_of n (xs @ ys)"
proof (cases "length xs \<le> n")
  case False
  let ?k = "length xs - n"
  from False have "length (suffix_of n xs @ ys) - n = length ys" by simp
  moreover have "length (xs @ ys) - n = length ys + ?k" using False by simp
  moreover have "suffix_of n xs @ ys = drop ?k (xs @ ys)" using False by (simp add: suffix_of_def)
  ultimately show ?thesis
    by (metis suffix_of_def drop_drop)
qed simp

lemma suffix_of_decomp: "\<exists>pre. xs = pre @ suffix_of n xs"
  unfolding suffix_of_def by (metis append_take_drop_id)

text \<open>Removing a key from a \<open>HashMap\<close>.\<close>

definition map_remove :: "'k \<Rightarrow> ('k \<rightharpoonup> 'v) \<Rightarrow> ('k \<rightharpoonup> 'v)" where
  "map_remove k m = m(k := None)"

lemma dom_map_remove [simp]: "dom (map_remove k m) = dom m - {k}"
  by (auto simp: map_remove_def)

lemma map_remove_apply [simp]: "map_remove k m j = (if j = k then None else m j)"
  by (simp add: map_remove_def)

text \<open>\<open>Vec::retain(|&p| p != x)\<close> is \<open>removeAll x\<close>.\<close>

lemma distinct_removeAll_set: "distinct xs \<Longrightarrow> distinct (removeAll x xs)"
  by (rule distinct_removeAll)

subsection \<open>Labelled transition systems\<close>

text \<open>Finite runs of a labelled step relation, the labels in order.\<close>

inductive steps :: "('s \<Rightarrow> 'l \<Rightarrow> 's \<Rightarrow> bool) \<Rightarrow> 's \<Rightarrow> 'l list \<Rightarrow> 's \<Rightarrow> bool" for R where
  steps_refl: "steps R s [] s"
| steps_step: "R s l s' \<Longrightarrow> steps R s' ls s'' \<Longrightarrow> steps R s (l # ls) s''"

inductive_cases steps_NilE [elim!]: "steps R s [] s'"
inductive_cases steps_ConsE: "steps R s (l # ls) s'"
inductive_simps steps_Nil_iff [simp]: "steps R s [] s'"
inductive_simps steps_Cons_iff: "steps R s (l # ls) s'"

text \<open>
  The interface between a component that proves its steps safe and a user that reasons
  about runs: an invariant up to a set of exceptions, each step adding those of its label.
\<close>

locale invariant_system =
  fixes step :: "'s \<Rightarrow> 'l \<Rightarrow> 's \<Rightarrow> bool"
    and inv_upto :: "'d set \<Rightarrow> 's \<Rightarrow> bool"
    and adds :: "'l \<Rightarrow> 'd set"
  assumes step_inv: "inv_upto D s \<Longrightarrow> step s l s' \<Longrightarrow> inv_upto (D \<union> adds l) s'"
begin

lemma run_inv:
  "steps step s ls s' \<Longrightarrow> inv_upto D s \<Longrightarrow> inv_upto (D \<union> (\<Union>l \<in> set ls. adds l)) s'"
proof (induction arbitrary: D rule: steps.induct)
  case (steps_step s l s' ls s'')
  from steps_step.IH[OF step_inv[OF steps_step.prems steps_step.hyps(1)]]
  show ?case by (simp add: Un_assoc)
qed simp

lemma run_inv_clean:
  assumes "steps step s ls s'" "inv_upto {} s" "\<And>l. l \<in> set ls \<Longrightarrow> adds l = {}"
  shows "inv_upto {} s'"
  using run_inv[OF assms(1,2)] assms(3) by simp

end

end
