(* ===== verification/Layout.thy ===== *)
theory Layout
  imports Prelude
begin

section \<open>The layout: workspaces, tabs, pane trees\<close>

text \<open>
  \<open>crates/forgetty-session/src/layout.rs\<close> and the pane-tree type of
  \<open>workspace.rs\<close>, with the recursive helpers at the end of \<open>manager.rs\<close> and
  of \<open>handlers.rs\<close> that walk, search and rewrite a pane tree.
\<close>

subsection \<open>Types\<close>

datatype pane_tree =
  Leaf (leaf_pane: pane_id)
| Split (direction: string) (ratio: f32) (first_child: pane_tree) (second_child: pane_tree)

record session_tab =
  tab_id :: uuid
  tab_title :: string
  tab_tree :: pane_tree
  active_pane_id :: "pane_id option"

record session_workspace =
  ws_id :: uuid
  ws_name :: string
  ws_tabs :: "session_tab list"
  ws_active_tab :: nat
  ws_color :: "string option"

record session_layout =
  workspaces :: "session_workspace list"
  active_workspace :: nat

text \<open>\<open>SessionLayout::new_default\<close>; the workspace id is the next generated UUID.\<close>

definition new_default_layout :: "uuid \<Rightarrow> session_layout" where
  "new_default_layout u =
     \<lparr>workspaces = [\<lparr>ws_id = u, ws_name = ''Default'', ws_tabs = [], ws_active_tab = 0,
                    ws_color = None\<rparr>],
      active_workspace = 0\<rparr>"

subsection \<open>Tree operations\<close>

text \<open>\<open>replace_leaf_with_ratio\<close>: the flag and the tree as mutated.\<close>

fun replace_leaf_with_ratio ::
  "pane_tree \<Rightarrow> pane_id \<Rightarrow> pane_id \<Rightarrow> string \<Rightarrow> f32 \<Rightarrow> bool \<times> pane_tree" where
  "replace_leaf_with_ratio (Leaf p) target new_pane dir r =
     (if p = target then (True, Split dir r (Leaf target) (Leaf new_pane))
      else (False, Leaf p))"
| "replace_leaf_with_ratio (Split d q fst_t snd_t) target new_pane dir r =
     (case replace_leaf_with_ratio fst_t target new_pane dir r of
        (True, fst_t') \<Rightarrow> (True, Split d q fst_t' snd_t)
      | (False, fst_t') \<Rightarrow>
          (case replace_leaf_with_ratio snd_t target new_pane dir r of
             (b, snd_t') \<Rightarrow> (b, Split d q fst_t' snd_t')))"

text \<open>\<open>replace_leaf\<close> splits in the middle.\<close>

definition replace_leaf :: "pane_tree \<Rightarrow> pane_id \<Rightarrow> pane_id \<Rightarrow> string \<Rightarrow> bool \<times> pane_tree" where
  "replace_leaf t target new_pane dir =
     replace_leaf_with_ratio t target new_pane dir (Finite (1/2))"

fun leftmost_leaf_id :: "pane_tree \<Rightarrow> pane_id option" where
  "leftmost_leaf_id (Leaf p) = Some p"
| "leftmost_leaf_id (Split _ _ a _) = leftmost_leaf_id a"

fun update_ratio_for_pane :: "pane_tree \<Rightarrow> pane_id \<Rightarrow> f32 \<Rightarrow> bool \<times> pane_tree" where
  "update_ratio_for_pane (Leaf p) target r = (False, Leaf p)"
| "update_ratio_for_pane (Split d q a b) target r =
     (if leftmost_leaf_id a = Some target then (True, Split d r a b)
      else (case update_ratio_for_pane a target r of
              (True, a') \<Rightarrow> (True, Split d q a' b)
            | (False, a') \<Rightarrow>
                (case update_ratio_for_pane b target r of
                   (c, b') \<Rightarrow> (c, Split d q a' b'))))"

fun pane_tree_contains_leaf :: "pane_tree \<Rightarrow> pane_id \<Rightarrow> bool" where
  "pane_tree_contains_leaf (Leaf p) target = (p = target)"
| "pane_tree_contains_leaf (Split _ _ a b) target =
     (pane_tree_contains_leaf a target \<or> pane_tree_contains_leaf b target)"

text \<open>\<open>collect_pane_ids(tree, out)\<close> pushes onto the vector it is given.\<close>

fun collect_pane_ids :: "pane_tree \<Rightarrow> pane_id list \<Rightarrow> pane_id list" where
  "collect_pane_ids (Leaf p) out = out @ [p]"
| "collect_pane_ids (Split _ _ a b) out = collect_pane_ids b (collect_pane_ids a out)"

subsection \<open>Specification: the leaves, the shape\<close>

fun leaves :: "pane_tree \<Rightarrow> pane_id list" where
  "leaves (Leaf p) = [p]"
| "leaves (Split _ _ a b) = leaves a @ leaves b"

definition ws_leaves :: "session_workspace \<Rightarrow> pane_id list" where
  "ws_leaves ws = concat (map (\<lambda>t. leaves (tab_tree t)) (ws_tabs ws))"

definition layout_leaves :: "session_layout \<Rightarrow> pane_id list" where
  "layout_leaves l = concat (map ws_leaves (workspaces l))"

definition layout_tab_ids :: "session_layout \<Rightarrow> uuid list" where
  "layout_tab_ids l = concat (map (\<lambda>ws. map tab_id (ws_tabs ws)) (workspaces l))"

definition layout_ws_ids :: "session_layout \<Rightarrow> uuid list" where
  "layout_ws_ids l = map ws_id (workspaces l)"

lemmas layout_spec_defs = ws_leaves_def layout_leaves_def layout_tab_ids_def layout_ws_ids_def

subsection \<open>The tree operations against their specification\<close>

lemma leaves_nonempty [simp]: "leaves t \<noteq> []"
  by (induction t) auto

lemma collect_pane_ids_leaves [simp]: "collect_pane_ids t out = out @ leaves t"
  by (induction t arbitrary: out) auto

lemma contains_leaf_iff [simp]: "pane_tree_contains_leaf t p \<longleftrightarrow> p \<in> set (leaves t)"
  by (induction t) auto

lemma leftmost_leaf_hd [simp]: "leftmost_leaf_id t = Some (hd (leaves t))"
  by (induction t) auto

lemma replace_leaf_flag [simp]:
  "fst (replace_leaf_with_ratio t p n d r) \<longleftrightarrow> p \<in> set (leaves t)"
  by (induction t) (auto split: prod.splits bool.splits)

lemma replace_leaf_miss:
  "p \<notin> set (leaves t) \<Longrightarrow> replace_leaf_with_ratio t p n d r = (False, t)"
  by (induction t) (auto split: prod.splits bool.splits)

text \<open>Only the first occurrence of the target is split, and the new leaf follows it.\<close>

lemma replace_leaf_leaves:
  assumes "p \<in> set (leaves t)"
  shows "\<exists>A B. leaves t = A @ p # B \<and> p \<notin> set A \<and>
           leaves (snd (replace_leaf_with_ratio t p n d r)) = A @ p # n # B"
  using assms
proof (induction t)
  case (Leaf q)
  then show ?case by (intro exI[of _ "[]"]) simp
next
  case (Split dir q a b)
  show ?case
  proof (cases "p \<in> set (leaves a)")
    case True
    with Split.IH(1) obtain A B where
      AB: "leaves a = A @ p # B" "p \<notin> set A"
          "leaves (snd (replace_leaf_with_ratio a p n d r)) = A @ p # n # B" by blast
    from True obtain a' where "replace_leaf_with_ratio a p n d r = (True, a')"
      by (metis prod.collapse replace_leaf_flag)
    with AB show ?thesis
      by - (rule exI[where x = A], rule exI[where x = "B @ leaves b"], simp)
  next
    case False
    with Split.prems have "p \<in> set (leaves b)" by simp
    with Split.IH(2) obtain A B where
      AB: "leaves b = A @ p # B" "p \<notin> set A"
          "leaves (snd (replace_leaf_with_ratio b p n d r)) = A @ p # n # B" by blast
    from False AB show ?thesis
      by - (rule exI[where x = "leaves a @ A"], rule exI[where x = B],
         auto simp: replace_leaf_miss split: prod.splits)
  qed
qed

lemma replace_leaf_mset:
  assumes "p \<in> set (leaves t)"
  shows "mset (leaves (snd (replace_leaf_with_ratio t p n d r))) = add_mset n (mset (leaves t))"
  using replace_leaf_leaves[OF assms, of n d r] by auto

text \<open>Updating a ratio never changes the shape of the tree or its leaves.\<close>

fun same_shape :: "pane_tree \<Rightarrow> pane_tree \<Rightarrow> bool" where
  "same_shape (Leaf p) (Leaf q) = (p = q)"
| "same_shape (Split d _ a b) (Split d' _ a' b') = (d = d' \<and> same_shape a a' \<and> same_shape b b')"
| "same_shape _ _ = False"

lemma same_shape_refl [simp]: "same_shape t t"
  by (induction t) auto

lemma same_shape_leaves: "same_shape t u \<Longrightarrow> leaves u = leaves t"
  by (induction t u rule: same_shape.induct) auto

lemma update_ratio_same_shape: "same_shape t (snd (update_ratio_for_pane t p r))"
proof (induction t)
  case (Split d q a b)
  then show ?case by (auto split: prod.splits bool.splits)
qed simp

lemma update_ratio_leaves [simp]: "leaves (snd (update_ratio_for_pane t p r)) = leaves t"
  by (rule same_shape_leaves) (rule update_ratio_same_shape)

lemma update_ratio_miss:
  "\<not> fst (update_ratio_for_pane t p r) \<Longrightarrow> snd (update_ratio_for_pane t p r) = t"
  by (induction t) (auto split: prod.splits bool.splits if_splits)

lemma update_ratio_flag_leaf:
  "fst (update_ratio_for_pane t p r) \<Longrightarrow> p \<in> set (leaves t)"
  by (induction t) (auto split: prod.splits bool.splits if_splits simp: hd_in_set)

end
