(* ===== verification/SavedState.thy ===== *)
theory SavedState
  imports Layout
begin

section \<open>The persisted form of a session\<close>

text \<open>
  \<open>crates/forgetty-workspace/src/workspace.rs\<close> (\<open>WorkspaceState\<close> and the types below it)
  and the converter of \<open>crates/forgetty-session/src/workspace.rs\<close>. These are the
  values that the session files hold; their JSON syntax is the business of \<open>serde_json\<close>.
\<close>

datatype pane_tree_state =
  SLeaf (leaf_cwd: path) (leaf_saved_id: "uuid option")
| SSplit (s_direction: string) (s_ratio: f32) (s_first: pane_tree_state) (s_second: pane_tree_state)

record tab_state =
  st_title :: string
  st_tree :: pane_tree_state
  st_pane_id :: "uuid option"
  st_active_pane_id :: "uuid option"

record saved_workspace =
  sw_id :: uuid
  sw_name :: string
  sw_root_paths :: "path list"
  sw_tabs :: "tab_state list"
  sw_active_tab :: nat
  sw_color :: "string option"

record workspace_state =
  ss_version :: nat
  ss_workspaces :: "saved_workspace list"
  ss_active_workspace :: nat
  ss_window_width :: "int option"
  ss_window_height :: "int option"
  ss_pinned :: bool

text \<open>\<open>WorkspaceState::new\<close> and \<open>Workspace::new\<close>.\<close>

definition workspace_state_new :: workspace_state where
  "workspace_state_new =
     \<lparr>ss_version = 1, ss_workspaces = [], ss_active_workspace = 0,
      ss_window_width = None, ss_window_height = None, ss_pinned = False\<rparr>"

definition saved_workspace_new :: "uuid \<Rightarrow> string \<Rightarrow> path \<Rightarrow> saved_workspace" where
  "saved_workspace_new u name root_path =
     \<lparr>sw_id = u, sw_name = name, sw_root_paths = [root_path],
      sw_tabs = [\<lparr>st_title = ''Shell'', st_tree = SLeaf root_path None, st_pane_id = None,
                  st_active_pane_id = None\<rparr>],
      sw_active_tab = 0, sw_color = None\<rparr>"

subsection \<open>The layout as the widget-tree walker records it\<close>

record tab_layout_entry =
  te_title :: string
  te_tree :: pane_tree

record workspace_layout_entry =
  we_id :: uuid
  we_name :: string
  we_tabs :: "tab_layout_entry list"
  we_active_tab :: nat

record workspace_layout =
  wl_workspaces :: "workspace_layout_entry list"
  wl_active_workspace :: nat
  wl_window_width :: "int option"
  wl_window_height :: "int option"

text \<open>\<open>build_pane_tree_state\<close> and \<open>build_workspace_state\<close>.\<close>

fun build_pane_tree_state :: "pane_tree \<Rightarrow> (pane_id \<Rightarrow> path) \<Rightarrow> pane_tree_state" where
  "build_pane_tree_state (Leaf p) get_cwd = SLeaf (get_cwd p) (Some p)"
| "build_pane_tree_state (Split d r a b) get_cwd =
     SSplit d r (build_pane_tree_state a get_cwd) (build_pane_tree_state b get_cwd)"

definition build_workspace_state :: "workspace_layout \<Rightarrow> (pane_id \<Rightarrow> path) \<Rightarrow> workspace_state" where
  "build_workspace_state wl get_cwd =
     \<lparr>ss_version = 1,
      ss_workspaces =
        map (\<lambda>we. \<lparr>sw_id = we_id we, sw_name = we_name we, sw_root_paths = [],
                   sw_tabs = map (\<lambda>te. \<lparr>st_title = te_title te,
                                        st_tree = build_pane_tree_state (te_tree te) get_cwd,
                                        st_pane_id = None, st_active_pane_id = None\<rparr>)
                                (we_tabs we),
                   sw_active_tab = we_active_tab we, sw_color = None\<rparr>)
            (wl_workspaces wl),
      ss_active_workspace = wl_active_workspace wl,
      ss_window_width = wl_window_width wl, ss_window_height = wl_window_height wl,
      ss_pinned = False\<rparr>"

subsection \<open>Leaves of a saved tree\<close>

fun saved_leaves :: "pane_tree_state \<Rightarrow> (path \<times> uuid option) list" where
  "saved_leaves (SLeaf c p) = [(c, p)]"
| "saved_leaves (SSplit _ _ a b) = saved_leaves a @ saved_leaves b"

definition saved_ids :: "pane_tree_state \<Rightarrow> uuid list" where
  "saved_ids t = List.map_filter snd (saved_leaves t)"

lemma saved_ids_simps [simp]:
  "saved_ids (SLeaf c None) = []"
  "saved_ids (SLeaf c (Some p)) = [p]"
  "saved_ids (SSplit d r a b) = saved_ids a @ saved_ids b"
  by (simp_all add: saved_ids_def map_filter_def)

lemma saved_leaves_nonempty [simp]: "saved_leaves t \<noteq> []"
  by (induction t) auto

lemma build_pane_tree_state_leaves [simp]:
  "saved_leaves (build_pane_tree_state t f) = map (\<lambda>p. (f p, Some p)) (leaves t)"
  by (induction t) auto

lemma build_pane_tree_state_ids [simp]: "saved_ids (build_pane_tree_state t f) = leaves t"
  by (induction t) auto

text \<open>The skeleton of a tree: directions and ratios, without the leaves' contents.\<close>

datatype skeleton = Tip | Fork string f32 skeleton skeleton

fun live_skeleton :: "pane_tree \<Rightarrow> skeleton" where
  "live_skeleton (Leaf _) = Tip"
| "live_skeleton (Split d r a b) = Fork d r (live_skeleton a) (live_skeleton b)"

fun saved_skeleton :: "pane_tree_state \<Rightarrow> skeleton" where
  "saved_skeleton (SLeaf _ _) = Tip"
| "saved_skeleton (SSplit d r a b) = Fork d r (saved_skeleton a) (saved_skeleton b)"

lemma build_pane_tree_state_skeleton [simp]:
  "saved_skeleton (build_pane_tree_state t f) = live_skeleton t"
  by (induction t) auto

end
