(* ===== verification/ByteLog.thy ===== *)
theory ByteLog
  imports Prelude
begin

section \<open>The per-pane byte log: ring, cursor, disk appender\<close>

text \<open>
  \<open>crates/forgetty-session/src/byte_log.rs\<close>. \<open>byte_log\<close> is the in-memory part that
  \<open>SessionManager\<close> owns (ring, capacity, cursor, the sending half of the disk channel);
  \<open>appender\<close> is the state of the disk task (the file, the \<open>BufWriter\<close> in front of it,
  the approximate size it tracks). The file system is the content of the one log file;
  permissions and directory creation are not modelled.
\<close>

subsection \<open>The in-memory log\<close>

definition DISK_CHANNEL_CAP :: nat where "DISK_CHANNEL_CAP = 64"

text \<open>\<open>DiskMsg\<close>; the oneshot reply of a flush is named by a number.\<close>

datatype disk_msg = Chunk "byte list" | Flush nat

record byte_log =
  ring :: "byte list"
  ring_capacity :: nat
  total_bytes_written :: nat
  disk_queue :: "disk_msg list"
  disk_open :: bool

definition u64_max :: nat where "u64_max = 2 ^ 64 - 1"

definition u64_saturating_add :: "nat \<Rightarrow> nat \<Rightarrow> nat" where
  "u64_saturating_add a b = min (a + b) u64_max"

text \<open>\<open>while self.ring.len() > self.ring_capacity { self.ring.pop_front(); }\<close>\<close>

function pop_front_while :: "nat \<Rightarrow> 'a list \<Rightarrow> 'a list" where
  "pop_front_while cap xs = (if length xs > cap then pop_front_while cap (tl xs) else xs)"
  by pat_completeness auto
termination
  by (relation "measure (\<lambda>(_, xs). length xs)") auto

declare pop_front_while.simps [simp del]

text \<open>\<open>mpsc::Sender::try_send\<close>: refused when the channel is full or closed.\<close>

definition try_send :: "disk_msg \<Rightarrow> byte_log \<Rightarrow> byte_log" where
  "try_send m bl =
     (if disk_open bl \<and> length (disk_queue bl) < DISK_CHANNEL_CAP
      then bl\<lparr>disk_queue := disk_queue bl @ [m]\<rparr> else bl)"

definition log_append :: "byte_log \<Rightarrow> byte list \<Rightarrow> byte_log" where
  "log_append bl data =
     (if data = [] then bl
      else
        let extended = ring bl @ data;
            ring' = (if ring_capacity bl = 0 then []
                     else pop_front_while (ring_capacity bl) extended);
            bl' = bl\<lparr>ring := ring',
                       total_bytes_written :=
                         u64_saturating_add (total_bytes_written bl) (length data)\<rparr>
        in try_send (Chunk data) bl')"

definition ring_snapshot :: "byte_log \<Rightarrow> byte list \<times> nat" where
  "ring_snapshot bl = (ring bl, total_bytes_written bl)"

text \<open>
  \<open>ByteLog::new\<close> once the directory and the file could be opened: \<open>file\<close> is the content
  of the existing log, \<open>None\<close> when there is none. With \<open>max_disk_bytes = 0\<close> the
  receiver is dropped at once, so the channel is closed.
\<close>

definition byte_log_new :: "byte list option \<Rightarrow> nat \<Rightarrow> nat \<Rightarrow> byte_log" where
  "byte_log_new file cap max_disk =
     (let size = (case file of None \<Rightarrow> 0 | Some f \<Rightarrow> length f);
          preload = (case file of None \<Rightarrow> []
                     | Some f \<Rightarrow> if cap > 0 \<and> size > 0
                                 then drop (length f - min size cap) f else [])
      in \<lparr>ring = preload, ring_capacity = cap, total_bytes_written = size,
          disk_queue = [], disk_open = (max_disk > 0)\<rparr>)"

subsection \<open>The disk appender\<close>

record appender =
  ap_file :: "byte list"
  ap_buf :: "byte list"
  ap_size_approx :: nat
  ap_max :: nat
  ap_replies :: "nat list"

text \<open>
  What the file system answers while one message is handled: \<open>write_all\<close> succeeds
  (\<open>None\<close>) or fails after some bytes (\<open>Some k\<close>); the rotation succeeds or fails before
  its rename. A failure of the last re-open, after the rename, is not modelled.
\<close>

record disk_env =
  write_fails_after :: "nat option"
  rotate_ok :: bool
  flush_ok :: bool

definition flush_writer :: "appender \<Rightarrow> appender" where
  "flush_writer st = st\<lparr>ap_file := ap_file st @ ap_buf st, ap_buf := []\<rparr>"

text \<open>\<open>rotate_log\<close>: flush, keep the newest bytes, swap the file in, reopen it.\<close>

definition rotate_log :: "nat \<Rightarrow> appender \<Rightarrow> nat \<times> appender" where
  "rotate_log keep_bytes st =
     (let st = flush_writer st;
          current_size = length (ap_file st);
          to_keep = min current_size keep_bytes;
          start_offset = current_size - to_keep
      in (to_keep, st\<lparr>ap_file := take to_keep (drop start_offset (ap_file st))\<rparr>))"

text \<open>One iteration of \<open>disk_appender_task\<close> for a received message.\<close>

fun appender_step :: "disk_env \<Rightarrow> disk_msg \<Rightarrow> appender \<Rightarrow> appender" where
  "appender_step env (Chunk data) st =
     (case write_fails_after env of
        Some k \<Rightarrow> st\<lparr>ap_buf := ap_buf st @ take k data\<rparr>
      | None \<Rightarrow>
          let st1 = st\<lparr>ap_buf := ap_buf st @ data,
                       ap_size_approx := u64_saturating_add (ap_size_approx st) (length data)\<rparr>
          in if ap_size_approx st1 \<ge> ap_max st1
             then (if rotate_ok env
                   then (case rotate_log (ap_max st1 div 2) st1 of
                           (new_size, st2) \<Rightarrow> st2\<lparr>ap_size_approx := new_size\<rparr>)
                   else st1)
             else st1)"
| "appender_step env (Flush reply) st =
     (let st1 = (if flush_ok env then flush_writer st else st)
      in st1\<lparr>ap_replies := ap_replies st1 @ [reply]\<rparr>)"

text \<open>The loop of the task over the messages it receives, then the closing flush.\<close>

fun disk_appender_task :: "(disk_env \<times> disk_msg) list \<Rightarrow> appender \<Rightarrow> appender" where
  "disk_appender_task [] st = flush_writer st"
| "disk_appender_task ((env, m) # ms) st = disk_appender_task ms (appender_step env m st)"

definition appender_new :: "byte list \<Rightarrow> nat \<Rightarrow> appender" where
  "appender_new file max_disk =
     \<lparr>ap_file = file, ap_buf = [], ap_size_approx = length file, ap_max = max_disk,
      ap_replies = []\<rparr>"

subsection \<open>The ring keeps the newest bytes\<close>

lemma pop_front_while_suffix [simp]: "pop_front_while cap xs = suffix_of cap xs"
proof (induction cap xs rule: pop_front_while.induct)
  case (1 cap xs)
  show ?case
  proof (cases "length xs > cap")
    case True
    then have "suffix_of cap (tl xs) = suffix_of cap xs"
      by (cases xs) (auto simp: suffix_of_def Suc_diff_le)
    with True "1.IH" show ?thesis by (subst pop_front_while.simps) simp
  next
    case False
    then show ?thesis by (subst pop_front_while.simps) simp
  qed
qed

text \<open>
  The contract between the log and the code that replays it: appending keeps the newest
  \<open>cap\<close> bytes of the old snapshot followed by the new data. The consequence a reader
  needs is over whole histories.
\<close>

locale replay_ring =
  fixes append_op :: "'l \<Rightarrow> byte list \<Rightarrow> 'l"
    and snap :: "'l \<Rightarrow> byte list"
    and cap :: "'l \<Rightarrow> nat"
    and wf :: "'l \<Rightarrow> bool"
  assumes snap_append: "wf l \<Longrightarrow> snap (append_op l d) = suffix_of (cap l) (snap l @ d)"
    and cap_append: "cap (append_op l d) = cap l"
    and wf_append: "wf l \<Longrightarrow> wf (append_op l d)"
    and wf_bound: "wf l \<Longrightarrow> length (snap l) \<le> cap l"
begin

lemma snap_history:
  "wf l \<Longrightarrow> snap (foldl append_op l ds) = suffix_of (cap l) (snap l @ concat ds)"
proof (induction ds arbitrary: l)
  case Nil
  then show ?case by (simp add: wf_bound)
next
  case (Cons d ds)
  then show ?case by (simp add: wf_append cap_append snap_append)
qed

lemma wf_history: "wf l \<Longrightarrow> wf (foldl append_op l ds)"
  by (induction ds arbitrary: l) (auto simp: wf_append)

lemma cap_history: "cap (foldl append_op l ds) = cap l"
  by (induction ds arbitrary: l) (auto simp: cap_append)

end

definition log_wf :: "byte_log \<Rightarrow> bool" where
  "log_wf bl \<longleftrightarrow> length (ring bl) \<le> ring_capacity bl \<and>
     length (disk_queue bl) \<le> DISK_CHANNEL_CAP \<and> total_bytes_written bl \<le> u64_max"

lemma ring_try_send [simp]:
  "ring (try_send m bl) = ring bl"
  "ring_capacity (try_send m bl) = ring_capacity bl"
  "total_bytes_written (try_send m bl) = total_bytes_written bl"
  "disk_open (try_send m bl) = disk_open bl"
  by (simp_all add: try_send_def)

lemma ring_log_append:
  "log_wf bl \<Longrightarrow> ring (log_append bl d) = suffix_of (ring_capacity bl) (ring bl @ d)"
  by (auto simp: log_append_def log_wf_def Let_def)

lemma ring_capacity_log_append [simp]: "ring_capacity (log_append bl d) = ring_capacity bl"
  by (simp add: log_append_def Let_def)

lemma total_log_append:
  "total_bytes_written bl \<le> u64_max \<Longrightarrow>
   total_bytes_written (log_append bl d) =
     min (total_bytes_written bl + length d) u64_max"
  by (simp add: log_append_def Let_def u64_saturating_add_def)

lemma log_wf_append: "log_wf bl \<Longrightarrow> log_wf (log_append bl d)"
  by (auto simp: log_append_def log_wf_def Let_def try_send_def u64_saturating_add_def)

interpretation rl: replay_ring log_append ring ring_capacity log_wf
  by unfold_locales
     (auto simp: ring_log_append log_wf_append, simp add: log_wf_def)

lemma log_wf_new: "\<lbrakk>\<And>f. file = Some f \<Longrightarrow> length f \<le> u64_max\<rbrakk> \<Longrightarrow> log_wf (byte_log_new file cap m)"
  by (auto simp: byte_log_new_def log_wf_def Let_def split: option.splits)

lemma ring_new: "ring (byte_log_new (Some f) cap m) = suffix_of cap f"
  by (cases "f = []") (auto simp: byte_log_new_def suffix_of_def min_def Let_def)

lemma ring_capacity_new [simp]: "ring_capacity (byte_log_new file cap m) = cap"
  by (simp add: byte_log_new_def Let_def)

lemma total_history:
  "total_bytes_written l \<le> u64_max \<Longrightarrow>
   total_bytes_written (foldl log_append l ds) =
     min (total_bytes_written l + length (concat ds)) u64_max"
proof (induction ds arbitrary: l)
  case (Cons d ds)
  then show ?case by (simp add: total_log_append)
qed simp

subsection \<open>What the disk holds\<close>

text \<open>The bytes the appender has accepted, on disk or still buffered.\<close>

definition ap_content :: "appender \<Rightarrow> byte list" where
  "ap_content st = ap_file st @ ap_buf st"

text \<open>
  The invariant that ties the appender to the history of chunks it was sent: what it
  holds is a suffix of the history, never shorter than half the cap unless the whole
  history is, and its size is tracked exactly.
\<close>

definition ap_inv :: "byte list \<Rightarrow> appender \<Rightarrow> bool" where
  "ap_inv hist st \<longleftrightarrow>
     (\<exists>pre. hist = pre @ ap_content st) \<and>
     min (length hist) (ap_max st div 2) \<le> length (ap_content st) \<and>
     ap_size_approx st = length (ap_content st)"

lemma rotate_log_content:
  assumes "rotate_log k st = (n, st')"
  shows "ap_content st' = suffix_of k (ap_content st)" "n = length (ap_content st')"
    "ap_max st' = ap_max st" "ap_buf st' = []" "ap_replies st' = ap_replies st"
  using assms
  by (auto simp: rotate_log_def flush_writer_def ap_content_def Let_def suffix_of_def min_def)

lemma chunk_step_inv:
  assumes inv: "ap_inv hist st" and small: "length hist + length d \<le> u64_max"
    and env: "write_fails_after env = None" "rotate_ok env"
  shows "ap_inv (hist @ d) (appender_step env (Chunk d) st)"
    "ap_max (appender_step env (Chunk d) st) = ap_max st"
    "0 < ap_max st \<Longrightarrow> length (ap_content (appender_step env (Chunk d) st)) < ap_max st"
proof -
  let ?st1 = "st\<lparr>ap_buf := ap_buf st @ d,
                 ap_size_approx := u64_saturating_add (ap_size_approx st) (length d)\<rparr>"
  obtain pre where pre: "hist = pre @ ap_content st" using inv by (auto simp: ap_inv_def)
  have c1: "ap_content ?st1 = ap_content st @ d" by (simp add: ap_content_def)
  have "length (ap_content st) \<le> length hist" using pre by simp
  then have size1: "ap_size_approx ?st1 = length (ap_content st @ d)"
    using inv small by (simp add: ap_inv_def u64_saturating_add_def)
  have "ap_inv (hist @ d) (appender_step env (Chunk d) st) \<and>
      ap_max (appender_step env (Chunk d) st) = ap_max st \<and>
      (0 < ap_max st \<longrightarrow> length (ap_content (appender_step env (Chunk d) st)) < ap_max st)"
  proof (cases "ap_max st \<le> ap_size_approx ?st1")
    case True
    obtain n st2 where r: "rotate_log (ap_max st div 2) ?st1 = (n, st2)" by fastforce
    note rot = rotate_log_content[OF r]
    obtain pre2 where pre2: "ap_content st @ d = pre2 @ suffix_of (ap_max st div 2) (ap_content st @ d)"
      using suffix_of_decomp by blast
    let ?st' = "st2\<lparr>ap_size_approx := n\<rparr>"
    have step: "appender_step env (Chunk d) st = ?st'"
      using True env r by simp
    have c': "ap_content ?st' = suffix_of (ap_max st div 2) (ap_content st @ d)"
      using rot c1 by (simp add: ap_content_def)
    have "hist @ d = (pre @ pre2) @ ap_content ?st'"
      using pre pre2 c' by simp
    moreover have "ap_size_approx ?st' = length (ap_content ?st')"
      using rot by (simp add: ap_content_def)
    moreover have "ap_max st \<le> length (ap_content st @ d)" using True size1 by simp
    ultimately show ?thesis
      using c' rot unfolding step ap_inv_def by (auto simp: min_def)
  next
    case False
    then have step: "appender_step env (Chunk d) st = ?st1" using env by simp
    have "hist @ d = pre @ ap_content ?st1" using pre c1 by simp
    moreover have "min (length hist + length d) (ap_max st div 2) \<le> length (ap_content st) + length d"
      using inv unfolding ap_inv_def by arith
    ultimately show ?thesis
      using False size1 c1 unfolding step ap_inv_def by auto
  qed
  then show "ap_inv (hist @ d) (appender_step env (Chunk d) st)"
    "ap_max (appender_step env (Chunk d) st) = ap_max st"
    "0 < ap_max st \<Longrightarrow> length (ap_content (appender_step env (Chunk d) st)) < ap_max st"
    by auto
qed

lemma flush_step_inv:
  assumes "ap_inv hist st"
  shows "ap_inv hist (appender_step env (Flush n) st)"
    "ap_max (appender_step env (Flush n) st) = ap_max st"
    "flush_ok env \<Longrightarrow> ap_file (appender_step env (Flush n) st) = ap_content st"
  using assms by (auto simp: ap_inv_def ap_content_def flush_writer_def Let_def)

text \<open>The chunks among the messages, in order.\<close>

fun chunk_bytes :: "(disk_env \<times> disk_msg) list \<Rightarrow> byte list" where
  "chunk_bytes [] = []"
| "chunk_bytes ((_, Chunk d) # ms) = d @ chunk_bytes ms"
| "chunk_bytes ((_, Flush _) # ms) = chunk_bytes ms"

definition env_good :: "disk_env \<Rightarrow> bool" where
  "env_good env \<longleftrightarrow> write_fails_after env = None \<and> rotate_ok env \<and> flush_ok env"

lemma task_inv:
  assumes "ap_inv hist st" "\<forall>(env, m) \<in> set ms. env_good env"
    "length hist + length (chunk_bytes ms) \<le> u64_max"
  shows "ap_inv (hist @ chunk_bytes ms) (disk_appender_task ms st) \<and>
         ap_buf (disk_appender_task ms st) = [] \<and>
         ap_max (disk_appender_task ms st) = ap_max st"
  using assms
proof (induction ms arbitrary: hist st rule: chunk_bytes.induct)
  case 1
  then show ?case by (simp add: ap_inv_def ap_content_def flush_writer_def)
next
  case (2 env d ms)
  then have g: "write_fails_after env = None" "rotate_ok env" by (auto simp: env_good_def)
  have len: "length hist + length d \<le> u64_max" using "2.prems"(3) by simp
  note step = chunk_step_inv[OF "2.prems"(1) len g]
  have "ap_inv ((hist @ d) @ chunk_bytes ms) (disk_appender_task ms (appender_step env (Chunk d) st)) \<and>
        ap_buf (disk_appender_task ms (appender_step env (Chunk d) st)) = [] \<and>
        ap_max (disk_appender_task ms (appender_step env (Chunk d) st)) =
          ap_max (appender_step env (Chunk d) st)"
    by (rule "2.IH"[OF step(1)]) (use "2.prems" in auto)
  then show ?case using step(2) by simp
next
  case (3 env n ms)
  note step = flush_step_inv[OF "3.prems"(1), of env n]
  have "ap_inv (hist @ chunk_bytes ms) (disk_appender_task ms (appender_step env (Flush n) st)) \<and>
        ap_buf (disk_appender_task ms (appender_step env (Flush n) st)) = [] \<and>
        ap_max (disk_appender_task ms (appender_step env (Flush n) st)) =
          ap_max (appender_step env (Flush n) st)"
    by (rule "3.IH"[OF step(1)]) (use "3.prems" in auto)
  then show ?case using step(2) by simp
qed

lemma ap_inv_new: "ap_inv file (appender_new file m)"
  by (simp add: ap_inv_def appender_new_def ap_content_def)

subsection \<open>What the log promises\<close>

definition good_env :: disk_env where
  "good_env = \<lparr>write_fails_after = None, rotate_ok = True, flush_ok = True\<rparr>"

lemma good_env_good [simp]: "env_good good_env"
  by (simp add: env_good_def good_env_def)

text \<open>
  C6: after any number of appends the ring holds the newest \<open>cap\<close> bytes of everything that
  was ever in the log, the content of the file it was opened on first, and the cursor is the
  length of all of it, saturating at \<open>u64::MAX\<close>; a capacity of zero keeps nothing.
\<close>

theorem ring_keeps_newest:
  assumes "length file \<le> u64_max"
  shows "ring_snapshot (foldl log_append (byte_log_new (Some file) cap m) ds) =
    (suffix_of cap (file @ concat ds), min (length file + length (concat ds)) u64_max)"
proof -
  let ?n = "byte_log_new (Some file) cap m"
  have wf: "log_wf ?n" using assms(1) by (auto intro!: log_wf_new)
  have "total_bytes_written ?n = length file" by (simp add: byte_log_new_def Let_def)
  then show ?thesis
    using rl.snap_history[OF wf, of ds] total_history[of ?n ds] wf
    by (simp add: ring_snapshot_def ring_new log_wf_def)
qed

theorem ring_keeps_newest_witness:
  "ring_snapshot (foldl log_append (byte_log_new (Some [1, 2, 3]) 4 0) [[4], [5, 6]]) = ([3, 4, 5, 6], 6)"
  using ring_keeps_newest[of "[1, 2, 3]" 4 0 "[[4], [5, 6]]"]
  by (simp add: suffix_of_def u64_max_def)

lemma task_bounded:
  assumes "ap_inv hist st" "\<forall>(env, m) \<in> set ms. env_good env"
    "length hist + length (chunk_bytes ms) \<le> u64_max" "0 < ap_max st"
    "length (ap_content st) < ap_max st"
  shows "length (ap_file (disk_appender_task ms st)) < ap_max st"
  using assms
proof (induction ms arbitrary: hist st rule: chunk_bytes.induct)
  case 1
  then show ?case by (simp add: ap_content_def flush_writer_def)
next
  case (2 env d ms)
  then have g: "write_fails_after env = None" "rotate_ok env" by (auto simp: env_good_def)
  have len: "length hist + length d \<le> u64_max" using "2.prems"(3) by simp
  note step = chunk_step_inv[OF "2.prems"(1) len g]
  have "length (ap_file (disk_appender_task ms (appender_step env (Chunk d) st))) <
      ap_max (appender_step env (Chunk d) st)"
    by (rule "2.IH"[OF step(1)])
       (use "2.prems" step(2) step(3)[OF "2.prems"(4)] in \<open>auto simp del: appender_step.simps\<close>)
  then show ?case using step(2) by (simp del: appender_step.simps)
next
  case (3 env n ms)
  note step = flush_step_inv[OF "3.prems"(1), of env n]
  have "length (ap_content (appender_step env (Flush n) st)) = length (ap_content st)"
    by (simp add: ap_content_def flush_writer_def Let_def)
  then have "length (ap_file (disk_appender_task ms (appender_step env (Flush n) st))) <
      ap_max (appender_step env (Flush n) st)"
    by (intro "3.IH"[OF step(1)]) (use "3.prems" step(2) in \<open>auto simp del: appender_step.simps\<close>)
  then show ?case using step(2) by (simp del: appender_step.simps)
qed





end
