(* ===== verification/SessionState.thy ===== *)
theory SessionState
  imports SavedState ByteLog
begin

section \<open>The session manager's state and the world it runs in\<close>

text \<open>
  \<open>SessionManagerInner\<close> (\<open>crates/forgetty-session/src/manager.rs\<close>), \<open>PaneState\<close>,
  \<open>PtyBridge\<close> and the session events, as records. The mutex makes every public method
  one atomic transition of this state, so an operation is a function from the state to a
  result and a new state.

  What the operating system and the \<open>uuid\<close> and \<open>portable_pty\<close> crates answer is the
  record \<open>world\<close>: functions and counters that the operations read. What the program does
  to the outside is the log \<open>os_log\<close>; what it sends on the broadcast channel is the log
  \<open>events\<close>, in the order of the sends.
\<close>

type_synonym u16 = "16 word"

record pty_size =
  sz_rows :: u16
  sz_cols :: u16
  sz_pixel_width :: u16
  sz_pixel_height :: u16

text \<open>The size of every pane the daemon creates on its own.\<close>

definition default_size :: pty_size where
  "default_size = \<lparr>sz_rows = 24, sz_cols = 80, sz_pixel_width = 0, sz_pixel_height = 0\<rparr>"

record world =
  w_fresh :: "nat \<Rightarrow> uuid"                 \<comment> \<open>the n-th generated \<open>Uuid::new_v4()\<close>\<close>
  w_next_id :: nat
  w_spawn :: "nat \<Rightarrow> pty_size \<Rightarrow> path option \<Rightarrow> string list option \<Rightarrow> bool \<Rightarrow>
              forgetty_error + nat"          \<comment> \<open>the n-th \<open>PtyProcess::spawn\<close>: a handle\<close>
  w_reader_fails :: "nat \<Rightarrow> msg option"     \<comment> \<open>the reader thread of the n-th spawn\<close>
  w_next_spawn :: nat
  w_home :: "path option"                   \<comment> \<open>\<open>$HOME\<close>\<close>
  w_pid :: "nat \<Rightarrow> nat option"              \<comment> \<open>the child pid of a handle\<close>
  w_alive :: "nat \<Rightarrow> bool"
  w_proc_cwd :: "nat \<Rightarrow> path option"        \<comment> \<open>\<open>readlink /proc/pid/cwd\<close>\<close>
  w_vintr :: "nat \<Rightarrow> byte option"
  w_fg_pgrp :: "nat \<Rightarrow> int option"
  w_comm :: "int \<Rightarrow> string option"          \<comment> \<open>the content of \<open>/proc/pgid/comm\<close>\<close>
  w_my_pid :: int
  w_write_fails :: "nat \<Rightarrow> byte list \<Rightarrow> forgetty_error option"
  w_resize_fails :: "nat \<Rightarrow> pty_size \<Rightarrow> forgetty_error option"
  w_log_file :: "uuid \<Rightarrow> byte list option"  \<comment> \<open>a pane's log file on disk\<close>
  w_log_opens :: "uuid \<Rightarrow> bool"

datatype os_action =
  SpawnPty nat pty_size "path option" "string list option" bool
| KillPty nat
| DropPty nat
| WritePty nat "byte list"
| ResizePty nat pty_size
| SigintGroup int
| UnlinkLog uuid

text \<open>\<open>SessionEvent\<close>, constructor by constructor.\<close>

datatype session_event =
  PtyOutput pane_id "byte list"
| PaneCreated pane_id
| PaneClosed pane_id
| TabCreated nat uuid pane_id
| TabClosed nat uuid
| PaneSplit uuid pane_id pane_id string
| TabMoved nat uuid nat
| ActiveTabChanged nat nat
| ActiveWorkspaceChanged nat
| WorkspaceCreated nat uuid string
| WorkspaceRenamed nat uuid string
| WorkspaceDeleted nat uuid
| WorkspaceColorChanged nat uuid "string option"
| WorkspacesReordered nat nat uuid uuid
| ActivePaneChanged nat uuid "pane_id option"

text \<open>\<open>PtyBridge\<close>: the process handle, and whether the output receiver is still there.\<close>

record pty_bridge =
  pb_pty :: nat
  pb_rx :: bool

record pane_state =
  ps_id :: pane_id
  ps_bridge :: pty_bridge
  ps_cwd :: path
  ps_title :: string
  ps_rows :: u16
  ps_cols :: u16

record pane_info =
  pi_id :: pane_id
  pi_pid :: "nat option"
  pi_rows :: u16
  pi_cols :: u16
  pi_cwd :: path
  pi_title :: string

record duplicated_tab =
  dt_tab_id :: uuid
  dt_pane_id :: pane_id

record session =
  panes :: "pane_id \<rightharpoonup> pane_state"
  pane_order :: "pane_id list"
  events :: "session_event list"
  layout :: session_layout
  pinned :: bool
  byte_logs :: "pane_id \<rightharpoonup> byte_log"
  byte_log_ring_kb :: nat
  byte_log_max_mb :: nat
  drain_tasks :: "pane_id list"
  world :: world
  os_log :: "os_action list"

subsection \<open>Primitive effects\<close>

definition send_event :: "session_event \<Rightarrow> session \<Rightarrow> session" where
  "send_event e s = s\<lparr>events := events s @ [e]\<rparr>"

definition os_do :: "os_action \<Rightarrow> session \<Rightarrow> session" where
  "os_do a s = s\<lparr>os_log := os_log s @ [a]\<rparr>"

text \<open>\<open>Uuid::new_v4()\<close> and \<open>PaneId::new()\<close>.\<close>

definition new_uuid :: "session \<Rightarrow> uuid \<times> session" where
  "new_uuid s =
     (w_fresh (world s) (w_next_id (world s)),
      s\<lparr>world := (world s)\<lparr>w_next_id := Suc (w_next_id (world s))\<rparr>\<rparr>)"

definition home_dir_fallback :: "session \<Rightarrow> path" where
  "home_dir_fallback s = (case w_home (world s) of Some h \<Rightarrow> h | None \<Rightarrow> ''/'')"

text \<open>The command and login-shell resolution at the head of \<open>PtyBridge::spawn\<close>.\<close>

definition effective_command ::
  "string list option \<Rightarrow> string option \<Rightarrow> bool \<Rightarrow> string list option \<times> bool" where
  "effective_command command shell login_shell =
     (case command of
        Some cmd \<Rightarrow> (Some cmd, False)
      | None \<Rightarrow> (case shell of
                   Some sh \<Rightarrow> (Some [sh], True)
                 | None \<Rightarrow> (None, login_shell)))"

text \<open>\<open>PtyBridge::spawn\<close>; a failed reader thread drops the process again.\<close>

definition pty_bridge_spawn ::
  "pty_size \<Rightarrow> path option \<Rightarrow> string list option \<Rightarrow> string option \<Rightarrow> bool \<Rightarrow> session \<Rightarrow>
   (msg + pty_bridge) \<times> session" where
  "pty_bridge_spawn sz cwd command shell login_shell s =
     (let w = world s;
          n = w_next_spawn w;
          (cmd, login) = effective_command command shell login_shell;
          s1 = s\<lparr>world := w\<lparr>w_next_spawn := Suc n\<rparr>\<rparr>
      in case w_spawn w n sz cwd cmd login of
           Inl e \<Rightarrow> (Inl (Msg ''spawn PTY: {e}'' [AMsg (show_error e)]), s1)
         | Inr h \<Rightarrow>
             (let s2 = os_do (SpawnPty h sz cwd cmd login) s1
              in case w_reader_fails w n of
                   Some e \<Rightarrow> (Inl (Msg ''failed to spawn PTY reader thread: {e}'' [AMsg e]),
                              os_do (DropPty h) s2)
                 | None \<Rightarrow> (Inr \<lparr>pb_pty = h, pb_rx = True\<rparr>, s2)))"

text \<open>\<open>HashMap::insert\<close> on the pane registry drops a value it replaces.\<close>

definition insert_pane :: "pane_id \<Rightarrow> pane_state \<Rightarrow> session \<Rightarrow> session" where
  "insert_pane p st s =
     (let s1 = s\<lparr>panes := (panes s)(p \<mapsto> st)\<rparr>
      in case panes s p of
           Some old \<Rightarrow> os_do (DropPty (pb_pty (ps_bridge old))) s1
         | None \<Rightarrow> s1)"

definition push_order :: "pane_id \<Rightarrow> session \<Rightarrow> session" where
  "push_order p s = s\<lparr>pane_order := pane_order s @ [p]\<rparr>"

definition new_pane_state :: "pane_id \<Rightarrow> pty_bridge \<Rightarrow> path \<Rightarrow> pty_size \<Rightarrow> pane_state" where
  "new_pane_state p b cwd sz =
     \<lparr>ps_id = p, ps_bridge = b, ps_cwd = cwd, ps_title = [], ps_rows = sz_rows sz,
      ps_cols = sz_cols sz\<rparr>"

definition new_tab_record :: "uuid \<Rightarrow> pane_id \<Rightarrow> session_tab" where
  "new_tab_record tid p =
     \<lparr>tab_id = tid, tab_title = [], tab_tree = Leaf p, active_pane_id = None\<rparr>"

text \<open>\<open>layout.workspaces[i].tabs.push(tab)\<close> and its kin.\<close>

definition modify_ws :: "nat \<Rightarrow> (session_workspace \<Rightarrow> session_workspace) \<Rightarrow> session \<Rightarrow> session" where
  "modify_ws i f s =
     s\<lparr>layout := (layout s)\<lparr>workspaces := modify_at i f (workspaces (layout s))\<rparr>\<rparr>"

definition push_tab :: "session_tab \<Rightarrow> session_workspace \<Rightarrow> session_workspace" where
  "push_tab t ws = ws\<lparr>ws_tabs := ws_tabs ws @ [t]\<rparr>"

definition ws_count :: "session \<Rightarrow> nat" where
  "ws_count s = length (workspaces (layout s))"

definition pty_err :: "string \<Rightarrow> fmt_arg list \<Rightarrow> forgetty_error" where
  "pty_err f args = Pty (Msg f args)"

subsection \<open>The byte logs of the panes\<close>

definition usize_saturating_mul :: "nat \<Rightarrow> nat \<Rightarrow> nat" where
  "usize_saturating_mul a b = min (a * b) u64_max"

definition create_byte_log_for :: "pane_id \<Rightarrow> session \<Rightarrow> session" where
  "create_byte_log_for p s =
     (let ring_bytes = usize_saturating_mul (byte_log_ring_kb s) 1024;
          max_bytes = usize_saturating_mul (byte_log_max_mb s) (1024 * 1024)
      in if w_log_opens (world s) p
         then s\<lparr>byte_logs := (byte_logs s)
                  (p \<mapsto> byte_log_new (w_log_file (world s) p) ring_bytes max_bytes)\<rparr>
         else s)"

definition take_pane_output_rx :: "pane_id \<Rightarrow> session \<Rightarrow> bool \<times> session" where
  "take_pane_output_rx p s =
     (case panes s p of
        None \<Rightarrow> (False, s)
      | Some st \<Rightarrow>
          (pb_rx (ps_bridge st),
           s\<lparr>panes := (panes s)(p \<mapsto> st\<lparr>ps_bridge := (ps_bridge st)\<lparr>pb_rx := False\<rparr>\<rparr>)\<rparr>))"

text \<open>\<open>spawn_drain_task\<close>: the task itself is \<open>drain_task\<close> in the theory of the operations.\<close>

definition spawn_drain_task :: "pane_id \<Rightarrow> session \<Rightarrow> session" where
  "spawn_drain_task p s =
     (case take_pane_output_rx p (create_byte_log_for p s) of
        (True, s') \<Rightarrow> s'\<lparr>drain_tasks := drain_tasks s' @ [p]\<rparr>
      | (False, s') \<Rightarrow> s')"

text \<open>\<open>SessionManager::new()\<close> in a given world.\<close>

definition session_new :: "world \<Rightarrow> session" where
  "session_new w =
     \<lparr>panes = Map.empty, pane_order = [], events = [],
      layout = new_default_layout (w_fresh w (w_next_id w)),
      pinned = False, byte_logs = Map.empty, byte_log_ring_kb = 1024, byte_log_max_mb = 10,
      drain_tasks = [], world = w\<lparr>w_next_id := Suc (w_next_id w)\<rparr>, os_log = []\<rparr>"

end
