(* ===== verification/SessionOps.thy ===== *)
theory SessionOps
  imports SessionState
begin

section \<open>The operations of the session manager\<close>

text \<open>
  The public methods of \<open>SessionManager\<close> (\<open>manager.rs\<close>), in the order of the file. Each
  takes the session last and returns its result with the new session; a fallible one
  returns \<open>Inl\<close> of the error. Statements after the lock is released (the drain-task
  spawns) are part of the operation.
\<close>

type_synonym 'a outcome = "(forgetty_error + 'a) \<times> session"

definition set_byte_log_config :: "nat \<Rightarrow> nat \<Rightarrow> session \<Rightarrow> session" where
  "set_byte_log_config ring_kb max_mb s =
     s\<lparr>byte_log_ring_kb := ring_kb, byte_log_max_mb := max_mb\<rparr>"

definition out_of_bounds :: "string \<Rightarrow> nat \<Rightarrow> session \<Rightarrow> forgetty_error" where
  "out_of_bounds prefix idx s =
     pty_err (prefix @ ''workspace index {idx} out of bounds (len={})'')
       [ANat idx, ANat (ws_count s)]"

subsection \<open>Pane lifecycle\<close>

definition create_pane ::
  "pty_size \<Rightarrow> path option \<Rightarrow> string list option \<Rightarrow> string option \<Rightarrow> bool \<Rightarrow> session \<Rightarrow>
   pane_id outcome" where
  "create_pane sz cwd command shell login_shell s0 =
     (case new_uuid s0 of (p, s1) \<Rightarrow>
      (case pty_bridge_spawn sz cwd command shell login_shell s1 of
         (Inl e, s2) \<Rightarrow> (Inl (Pty e), s2)
       | (Inr b, s2) \<Rightarrow>
           (let initial_cwd = (case cwd of Some c \<Rightarrow> c | None \<Rightarrow> home_dir_fallback s2);
                s3 = push_order p (insert_pane p (new_pane_state p b initial_cwd sz) s2)
            in case new_uuid s3 of (tid, s4) \<Rightarrow>
                 let s5 = modify_ws 0 (push_tab (new_tab_record tid p)) s4;
                     s6 = send_event (PaneCreated p) s5
                 in (Inr p, spawn_drain_task p s6))))"

text \<open>\<open>update_split_ratios\<close>: every tab of every workspace is searched for every update.\<close>

definition update_tab_ratio :: "pane_id \<Rightarrow> f32 \<Rightarrow> session_tab \<Rightarrow> session_tab" where
  "update_tab_ratio p r t = t\<lparr>tab_tree := snd (update_ratio_for_pane (tab_tree t) p r)\<rparr>"

fun update_split_ratios :: "(pane_id \<times> f32) list \<Rightarrow> session \<Rightarrow> session" where
  "update_split_ratios [] s = s"
| "update_split_ratios ((p, r) # us) s =
     (let clamped = f32_clamp (5 / 100) (95 / 100) r
      in update_split_ratios us
           (s\<lparr>layout := (layout s)\<lparr>workspaces :=
                map (\<lambda>ws. ws\<lparr>ws_tabs := map (update_tab_ratio p clamped) (ws_tabs ws)\<rparr>)
                    (workspaces (layout s))\<rparr>\<rparr>))"

definition set_pane_cwd :: "pane_id \<Rightarrow> path \<Rightarrow> session \<Rightarrow> session" where
  "set_pane_cwd p cwd s =
     (case panes s p of
        None \<Rightarrow> s
      | Some st \<Rightarrow> s\<lparr>panes := (panes s)(p \<mapsto> st\<lparr>ps_cwd := cwd\<rparr>)\<rparr>)"

definition set_pinned :: "bool \<Rightarrow> session \<Rightarrow> session" where
  "set_pinned b s = s\<lparr>pinned := b\<rparr>"

definition is_pinned :: "session \<Rightarrow> bool" where
  "is_pinned s = pinned s"

subsection \<open>Workspaces\<close>

definition create_workspace :: "string \<Rightarrow> session \<Rightarrow> (uuid \<times> nat) \<times> session" where
  "create_workspace name s =
     (case new_uuid s of (u, s1) \<Rightarrow>
        let ws = \<lparr>ws_id = u, ws_name = name, ws_tabs = [], ws_active_tab = 0, ws_color = None\<rparr>;
            s2 = s1\<lparr>layout := (layout s1)\<lparr>workspaces := workspaces (layout s1) @ [ws]\<rparr>\<rparr>;
            idx = ws_count s2 - 1
        in ((u, idx), send_event (WorkspaceCreated idx u name) s2))"

definition rename_workspace :: "nat \<Rightarrow> string \<Rightarrow> session \<Rightarrow> unit outcome" where
  "rename_workspace i new_name s =
     (if i \<ge> ws_count s then (Inl (out_of_bounds [] i s), s)
      else let ws = workspaces (layout s) ! i
           in if ws_name ws = new_name then (Inr (), s)
              else (Inr (), send_event (WorkspaceRenamed i (ws_id ws) new_name)
                              (modify_ws i (\<lambda>ws. ws\<lparr>ws_name := new_name\<rparr>) s)))"

definition set_workspace_color :: "nat \<Rightarrow> string option \<Rightarrow> session \<Rightarrow> unit outcome" where
  "set_workspace_color i color s =
     (if i \<ge> ws_count s then (Inl (out_of_bounds [] i s), s)
      else let ws = workspaces (layout s) ! i
           in if ws_color ws = color then (Inr (), s)
              else (Inr (), send_event (WorkspaceColorChanged i (ws_id ws) color)
                              (modify_ws i (\<lambda>ws. ws\<lparr>ws_color := color\<rparr>) s)))"

definition move_workspace :: "nat \<Rightarrow> nat \<Rightarrow> session \<Rightarrow> unit outcome" where
  "move_workspace from_idx to_idx s =
     (let len = ws_count s; wss = workspaces (layout s); act = active_workspace (layout s)
      in if from_idx \<ge> len
         then (Inl (pty_err ''move_workspace: from_idx {from_idx} out of bounds (len={len})''
                      [ANat from_idx, ANat len]), s)
         else if to_idx \<ge> len
         then (Inl (pty_err ''move_workspace: to_idx {to_idx} out of bounds (len={len})''
                      [ANat to_idx, ANat len]), s)
         else if from_idx = to_idx then (Inr (), s)
         else let act' = (if act = from_idx then to_idx
                          else if act = to_idx then from_idx else act);
                  s1 = s\<lparr>layout := \<lparr>workspaces = vec_swap from_idx to_idx wss,
                                    active_workspace = act'\<rparr>\<rparr>
              in (Inr (), send_event (WorkspacesReordered from_idx to_idx
                            (ws_id (wss ! from_idx)) (ws_id (wss ! to_idx))) s1))"

text \<open>
  The body of the kill loop of \<open>delete_workspace\<close>. The log file is unlinked whether or
  not the pane was registered, and \<open>PaneClosed\<close> is sent in either case.
\<close>

definition unlink_log :: "pane_id \<Rightarrow> session \<Rightarrow> session" where
  "unlink_log p s =
     os_do (UnlinkLog p) (s\<lparr>world := (world s)\<lparr>w_log_file := (w_log_file (world s))(p := None)\<rparr>\<rparr>)"

definition delete_pane_of_workspace :: "pane_id \<Rightarrow> session \<Rightarrow> session" where
  "delete_pane_of_workspace p s =
     (let s1 = s\<lparr>pane_order := removeAll p (pane_order s),
                 byte_logs := map_remove p (byte_logs s)\<rparr>;
          s2 = (case panes s1 p of
                  None \<Rightarrow> s1
                | Some st \<Rightarrow> os_do (KillPty (pb_pty (ps_bridge st)))
                               (s1\<lparr>panes := map_remove p (panes s1)\<rparr>))
      in send_event (PaneClosed p) (unlink_log p s2))"

fun collect_tabs_pane_ids :: "session_tab list \<Rightarrow> pane_id list \<Rightarrow> pane_id list" where
  "collect_tabs_pane_ids [] out = out"
| "collect_tabs_pane_ids (t # ts) out =
     collect_tabs_pane_ids ts (collect_pane_ids (tab_tree t) out)"

definition delete_workspace :: "nat \<Rightarrow> session \<Rightarrow> unit outcome" where
  "delete_workspace i s =
     (if i \<ge> ws_count s then (Inl (out_of_bounds [] i s), s)
      else if ws_count s \<le> 1
      then (Inl (pty_err ''delete_workspace: cannot delete last remaining workspace'' []), s)
      else
        let ws = workspaces (layout s) ! i;
            pane_ids = collect_tabs_pane_ids (ws_tabs ws) [];
            s1 = fold delete_pane_of_workspace pane_ids s;
            wss = vec_remove i (workspaces (layout s1));
            new_len = length wss;
            act = active_workspace (layout s1);
            act' = (if act > i then act - 1
                    else if act \<ge> new_len \<and> new_len > 0 then new_len - 1 else act);
            s2 = s1\<lparr>layout := \<lparr>workspaces = wss, active_workspace = act'\<rparr>\<rparr>
        in (Inr (), send_event (WorkspaceDeleted i (ws_id ws)) s2))"

subsection \<open>Duplicating a workspace\<close>

text \<open>
  The method takes the lock twice: phase 1 reads the source, phase 2 spawns without the
  lock, phase 3 commits. Each phase is a definition of its own, so a statement about
  another operation running in between can be made over them.
\<close>

definition dup_snapshot :: "nat \<Rightarrow> string option \<Rightarrow> session \<Rightarrow>
    forgetty_error + string \<times> nat \<times> path option list" where
  "dup_snapshot src new_name s =
     (if src \<ge> ws_count s then Inl (out_of_bounds ''duplicate_workspace: '' src s)
      else let source = workspaces (layout s) ! src;
               name = (case new_name of Some n \<Rightarrow> n | None \<Rightarrow> ws_name source @ '' (copy)'');
               cwds = map (\<lambda>t. Option.bind (leftmost_leaf_id (tab_tree t))
                                (\<lambda>p. map_option ps_cwd (panes s p))) (ws_tabs source)
           in Inr (name, src + 1, cwds))"

type_synonym spawned_pane = "pane_id \<times> pty_bridge \<times> path"

definition dup_rollback :: "spawned_pane list \<Rightarrow> session \<Rightarrow> session" where
  "dup_rollback spawned s = fold (\<lambda>(_, b, _). os_do (KillPty (pb_pty b))) spawned s"

fun dup_spawn :: "pty_size \<Rightarrow> nat \<Rightarrow> path option list \<Rightarrow> spawned_pane list \<Rightarrow> session \<Rightarrow>
    spawned_pane list outcome" where
  "dup_spawn sz n_total [] spawned s = (Inr spawned, s)"
| "dup_spawn sz n_total (cwd # cwds) spawned s =
     (case new_uuid s of (p, s1) \<Rightarrow>
      (case pty_bridge_spawn sz cwd None None True s1 of
         (Inr b, s2) \<Rightarrow>
           dup_spawn sz n_total cwds
             (spawned @ [(p, b, case cwd of Some c \<Rightarrow> c | None \<Rightarrow> home_dir_fallback s2)]) s2
       | (Inl e, s2) \<Rightarrow>
           (Inl (pty_err ''duplicate_workspace: PTY spawn failed on tab {} of {}: {e}''
                  [ANat (length spawned + 1), ANat n_total, AMsg e]),
            dup_rollback spawned s2)))"

text \<open>The insertion loop of phase 3, with the tabs it makes.\<close>

fun dup_insert_panes ::
  "pty_size \<Rightarrow> spawned_pane list \<Rightarrow> session \<Rightarrow> session_tab list \<times> duplicated_tab list \<times> session" where
  "dup_insert_panes sz [] s = ([], [], s)"
| "dup_insert_panes sz ((p, b, cwd) # rest) s =
     (case new_uuid (push_order p (insert_pane p (new_pane_state p b cwd sz) s)) of (tid, s1) \<Rightarrow>
        (case dup_insert_panes sz rest s1 of (tabs, dts, s2) \<Rightarrow>
           (new_tab_record tid p # tabs, \<lparr>dt_tab_id = tid, dt_pane_id = p\<rparr> # dts, s2)))"

definition dup_announce :: "nat \<Rightarrow> duplicated_tab \<Rightarrow> session \<Rightarrow> session" where
  "dup_announce idx dt s =
     send_event (TabCreated idx (dt_tab_id dt) (dt_pane_id dt))
       (send_event (PaneCreated (dt_pane_id dt)) s)"

definition dup_commit :: "string \<Rightarrow> nat \<Rightarrow> uuid \<Rightarrow> pty_size \<Rightarrow> spawned_pane list \<Rightarrow> session \<Rightarrow>
    (nat \<times> duplicated_tab list) \<times> session" where
  "dup_commit name insert_at u sz spawned s =
     (let clamped_insert = min insert_at (ws_count s)
      in case dup_insert_panes sz spawned s of (tabs, dts, s1) \<Rightarrow>
        let ws = \<lparr>ws_id = u, ws_name = name, ws_tabs = tabs, ws_active_tab = 0,
                  ws_color = None\<rparr>;
            act = active_workspace (layout s1);
            s2 = s1\<lparr>layout :=
                      \<lparr>workspaces = vec_insert clamped_insert ws (workspaces (layout s1)),
                       active_workspace = (if act \<ge> clamped_insert then act + 1 else act)\<rparr>\<rparr>;
            s3 = send_event (WorkspaceCreated clamped_insert u name) s2
        in ((clamped_insert, dts), fold (dup_announce clamped_insert) dts s3))"

definition duplicate_workspace :: "nat \<Rightarrow> string option \<Rightarrow> pty_size \<Rightarrow> session \<Rightarrow>
    (uuid \<times> nat \<times> duplicated_tab list) outcome" where
  "duplicate_workspace src new_name sz s =
     (case dup_snapshot src new_name s of
        Inl e \<Rightarrow> (Inl e, s)
      | Inr (name, insert_at, cwds) \<Rightarrow>
          (case dup_spawn sz (length cwds) cwds [] s of
             (Inl e, s1) \<Rightarrow> (Inl e, s1)
           | (Inr spawned, s1) \<Rightarrow>
               (case new_uuid s1 of (u, s2) \<Rightarrow>
                (case dup_commit name insert_at u sz spawned s2 of ((idx, dts), s3) \<Rightarrow>
                   (Inr (u, idx, dts),
                    fold (\<lambda>dt. spawn_drain_task (dt_pane_id dt)) dts s3)))))"

subsection \<open>Tabs\<close>

definition create_tab_with_pane_id ::
  "nat \<Rightarrow> path option \<Rightarrow> pty_size \<Rightarrow> string list option \<Rightarrow> pane_id \<Rightarrow> session \<Rightarrow>
   (pane_id \<times> uuid) outcome" where
  "create_tab_with_pane_id i cwd sz command p s =
     (if i \<ge> ws_count s then (Inl (out_of_bounds [] i s), s)
      else case pty_bridge_spawn sz cwd command None True s of
             (Inl e, s1) \<Rightarrow> (Inl (Pty e), s1)
           | (Inr b, s1) \<Rightarrow>
               let initial_cwd = (case cwd of Some c \<Rightarrow> c | None \<Rightarrow> home_dir_fallback s1);
                   s2 = push_order p (insert_pane p (new_pane_state p b initial_cwd sz) s1)
               in case new_uuid s2 of (tid, s3) \<Rightarrow>
                    let s4 = modify_ws i (push_tab (new_tab_record tid p)) s3;
                        s5 = send_event (TabCreated i tid p) (send_event (PaneCreated p) s4)
                    in (Inr (p, tid), spawn_drain_task p s5))"

definition create_tab ::
  "nat \<Rightarrow> path option \<Rightarrow> pty_size \<Rightarrow> string list option \<Rightarrow> session \<Rightarrow>
   (pane_id \<times> uuid) outcome" where
  "create_tab i cwd sz command s =
     (case new_uuid s of (p, s1) \<Rightarrow> create_tab_with_pane_id i cwd sz command p s1)"

text \<open>
  The labelled loop of the split operations: the first tab, in workspace order, whose tree
  contains the target is rewritten.
\<close>

fun split_in_tabs ::
  "pane_id \<Rightarrow> pane_id \<Rightarrow> string \<Rightarrow> f32 \<Rightarrow> session_tab list \<Rightarrow> uuid option \<times> session_tab list" where
  "split_in_tabs target n dir r [] = (None, [])"
| "split_in_tabs target n dir r (t # ts) =
     (case replace_leaf_with_ratio (tab_tree t) target n dir r of
        (True, tree) \<Rightarrow> (Some (tab_id t), t\<lparr>tab_tree := tree\<rparr> # ts)
      | (False, tree) \<Rightarrow>
          (case split_in_tabs target n dir r ts of
             (found, ts') \<Rightarrow> (found, t\<lparr>tab_tree := tree\<rparr> # ts')))"

fun split_in_workspaces ::
  "pane_id \<Rightarrow> pane_id \<Rightarrow> string \<Rightarrow> f32 \<Rightarrow> session_workspace list \<Rightarrow>
   uuid option \<times> session_workspace list" where
  "split_in_workspaces target n dir r [] = (None, [])"
| "split_in_workspaces target n dir r (ws # wss) =
     (case split_in_tabs target n dir r (ws_tabs ws) of
        (Some tid, ts) \<Rightarrow> (Some tid, ws\<lparr>ws_tabs := ts\<rparr> # wss)
      | (None, ts) \<Rightarrow>
          (case split_in_workspaces target n dir r wss of
             (found, wss') \<Rightarrow> (found, ws\<lparr>ws_tabs := ts\<rparr> # wss')))"

text \<open>
  What the two split methods share, from the spawn on; \<open>fn\<close> is the name that starts the
  error message.
\<close>

definition split_pane_body ::
  "string \<Rightarrow> pane_id \<Rightarrow> string \<Rightarrow> f32 \<Rightarrow> pty_size \<Rightarrow> path option \<Rightarrow> pane_id \<Rightarrow> session \<Rightarrow>
   pane_id outcome" where
  "split_pane_body fn p dir r sz cwd n s =
     (case pty_bridge_spawn sz cwd None None True s of
        (Inl e, s1) \<Rightarrow> (Inl (Pty e), s1)
      | (Inr b, s1) \<Rightarrow>
          let initial_cwd = (case cwd of Some c \<Rightarrow> c | None \<Rightarrow> home_dir_fallback s1);
              s2 = push_order n (insert_pane n (new_pane_state n b initial_cwd sz) s1)
          in case split_in_workspaces p n dir r (workspaces (layout s2)) of
               (None, wss) \<Rightarrow>
                 (Inl (pty_err (fn @ '': pane {pane_id} not found in any tab tree'') [AUuid p]),
                  os_do (DropPty (pb_pty b))
                    (s2\<lparr>layout := (layout s2)\<lparr>workspaces := wss\<rparr>,
                        panes := map_remove n (panes s2),
                        pane_order := removeAll n (pane_order s2)\<rparr>))
             | (Some tid, wss) \<Rightarrow>
                 let s3 = s2\<lparr>layout := (layout s2)\<lparr>workspaces := wss\<rparr>\<rparr>;
                     s4 = send_event (PaneSplit tid p n dir) (send_event (PaneCreated n) s3)
                 in (Inr n, spawn_drain_task n s4))"

definition split_pane ::
  "pane_id \<Rightarrow> string \<Rightarrow> pty_size \<Rightarrow> path option \<Rightarrow> session \<Rightarrow> pane_id outcome" where
  "split_pane p dir sz cwd s =
     (if panes s p = None
      then (Inl (pty_err ''split_pane: pane {pane_id} not found'' [AUuid p]), s)
      else case new_uuid s of (n, s1) \<Rightarrow>
             split_pane_body ''split_pane'' p dir (Finite (1/2)) sz cwd n s1)"

definition split_pane_with_ratio_and_pane_id ::
  "pane_id \<Rightarrow> string \<Rightarrow> f32 \<Rightarrow> pty_size \<Rightarrow> path option \<Rightarrow> pane_id \<Rightarrow> session \<Rightarrow>
   pane_id outcome" where
  "split_pane_with_ratio_and_pane_id p dir r sz cwd n s =
     (if panes s p = None
      then (Inl (pty_err ''split_pane_with_ratio: pane {pane_id} not found'' [AUuid p]), s)
      else split_pane_body ''split_pane_with_ratio'' p dir r sz cwd n s)"

definition split_pane_with_ratio ::
  "pane_id \<Rightarrow> string \<Rightarrow> f32 \<Rightarrow> pty_size \<Rightarrow> path option \<Rightarrow> session \<Rightarrow> pane_id outcome" where
  "split_pane_with_ratio p dir r sz cwd s =
     (case new_uuid s of (n, s1) \<Rightarrow> split_pane_with_ratio_and_pane_id p dir r sz cwd n s1)"

subsection \<open>Closing\<close>

text \<open>The search that \<open>close_tab\<close> and \<open>move_tab\<close> start with.\<close>

fun find_tab :: "uuid \<Rightarrow> session_workspace list \<Rightarrow> (nat \<times> nat) option" where
  "find_tab tid [] = None"
| "find_tab tid (ws # wss) =
     (case position (\<lambda>t. tab_id t = tid) (ws_tabs ws) of
        Some j \<Rightarrow> Some (0, j)
      | None \<Rightarrow> map_option (\<lambda>(i, j). (Suc i, j)) (find_tab tid wss))"

definition clamp_active_tab :: "session_workspace \<Rightarrow> session_workspace" where
  "clamp_active_tab ws =
     (if ws_active_tab ws \<ge> length (ws_tabs ws) \<and> ws_tabs ws \<noteq> []
      then ws\<lparr>ws_active_tab := length (ws_tabs ws) - 1\<rparr> else ws)"

definition close_pane_of_tab :: "pane_id \<Rightarrow> session \<Rightarrow> session" where
  "close_pane_of_tab p s =
     (let s1 = s\<lparr>pane_order := removeAll p (pane_order s),
                 byte_logs := map_remove p (byte_logs s)\<rparr>
      in case panes s1 p of
           None \<Rightarrow> s1
         | Some st \<Rightarrow> send_event (PaneClosed p)
                        (os_do (KillPty (pb_pty (ps_bridge st)))
                          (s1\<lparr>panes := map_remove p (panes s1)\<rparr>)))"

definition auto_seed_default_tab :: "nat \<Rightarrow> pty_size \<Rightarrow> session \<Rightarrow> (pane_id \<times> uuid) outcome" where
  "auto_seed_default_tab i sz s =
     (if i \<ge> ws_count s then (Inl (out_of_bounds ''auto_seed_default_tab: '' i s), s)
      else case pty_bridge_spawn sz None None None True s of
             (Inl e, s1) \<Rightarrow> (Inl (Pty e), s1)
           | (Inr b, s1) \<Rightarrow>
               (case new_uuid s1 of (p, s2) \<Rightarrow>
                  let s3 = push_order p
                             (insert_pane p (new_pane_state p b (home_dir_fallback s2) sz) s2)
                  in case new_uuid s3 of (tid, s4) \<Rightarrow>
                       let s5 = modify_ws i (\<lambda>ws. (push_tab (new_tab_record tid p) ws)
                                                     \<lparr>ws_active_tab := 0\<rparr>) s4
                       in (Inr (p, tid),
                           send_event (TabCreated i tid p) (send_event (PaneCreated p) s5))))"

text \<open>
  The tail of \<open>close_tab\<close> and \<open>close_pane\<close>: seed the emptied workspace; a failure is only
  logged, and the drain task starts after the lock is released.
\<close>

definition seed_and_drain :: "nat \<Rightarrow> session \<Rightarrow> session" where
  "seed_and_drain i s =
     (case auto_seed_default_tab i default_size s of
        (Inr (p, _), s1) \<Rightarrow> spawn_drain_task p s1
      | (Inl _, s1) \<Rightarrow> s1)"

definition close_tab :: "uuid \<Rightarrow> session \<Rightarrow> unit outcome" where
  "close_tab tid s =
     (case find_tab tid (workspaces (layout s)) of
        None \<Rightarrow> (Inl (pty_err ''close_tab: tab {tab_id} not found'' [AUuid tid]), s)
      | Some (i, j) \<Rightarrow>
          let tab = ws_tabs (workspaces (layout s) ! i) ! j;
              pane_ids = collect_pane_ids (tab_tree tab) [];
              s1 = modify_ws i (\<lambda>ws. ws\<lparr>ws_tabs := vec_remove j (ws_tabs ws)\<rparr>) s;
              s2 = modify_ws i clamp_active_tab s1;
              s3 = fold close_pane_of_tab pane_ids s2;
              s4 = send_event (TabClosed i tid) s3
          in if ws_tabs (workspaces (layout s4) ! i) = [] \<and> ws_count s4 > 1
             then (Inr (), seed_and_drain i s4)
             else (Inr (), s4))"

text \<open>
  \<open>close_pane\<close> removes tabs whose whole tree is the pane's leaf, in the first workspace
  that has one. A leaf below a split is left in place.
\<close>

fun remove_leaf_tabs ::
  "pane_id \<Rightarrow> nat \<Rightarrow> session_workspace list \<Rightarrow> nat option \<times> session_workspace list" where
  "remove_leaf_tabs p i [] = (None, [])"
| "remove_leaf_tabs p i (ws # wss) =
     (let tabs = [t \<leftarrow> ws_tabs ws. tab_tree t \<noteq> Leaf p]
      in if length (ws_tabs ws) \<noteq> length tabs
         then (if tabs = [] then Some i else None,
               clamp_active_tab (ws\<lparr>ws_tabs := tabs\<rparr>) # wss)
         else (case remove_leaf_tabs p (Suc i) wss of
                 (emptied, wss') \<Rightarrow> (emptied, ws\<lparr>ws_tabs := tabs\<rparr> # wss')))"

definition close_pane :: "pane_id \<Rightarrow> session \<Rightarrow> unit outcome" where
  "close_pane p s =
     (case panes s p of
        None \<Rightarrow> (Inr (), s)
      | Some st \<Rightarrow>
          (case remove_leaf_tabs p 0 (workspaces (layout s)) of (emptied, wss) \<Rightarrow>
             let s1 = s\<lparr>panes := map_remove p (panes s),
                        byte_logs := map_remove p (byte_logs s),
                        pane_order := removeAll p (pane_order s),
                        layout := (layout s)\<lparr>workspaces := wss\<rparr>\<rparr>;
                 s2 = send_event (PaneClosed p) (os_do (KillPty (pb_pty (ps_bridge st))) s1)
             in case emptied of
                  Some i \<Rightarrow> if ws_count s2 > 1 then (Inr (), seed_and_drain i s2) else (Inr (), s2)
                | None \<Rightarrow> (Inr (), s2)))"

subsection \<open>Order and focus\<close>

text \<open>The reordering inside one workspace of \<open>move_tab\<close>.\<close>

definition move_tab_in_ws :: "nat \<Rightarrow> nat \<Rightarrow> session_workspace \<Rightarrow> session_workspace" where
  "move_tab_in_ws current target ws =
     (let active_tab_id = map_option tab_id (vec_get (ws_tabs ws) (ws_active_tab ws));
          tab = ws_tabs ws ! current;
          tabs = vec_insert target tab (vec_remove current (ws_tabs ws));
          ws' = ws\<lparr>ws_tabs := tabs\<rparr>
      in case active_tab_id of
           None \<Rightarrow> ws'
         | Some a \<Rightarrow> (case position (\<lambda>t. tab_id t = a) tabs of
                         Some k \<Rightarrow> ws'\<lparr>ws_active_tab := k\<rparr>
                       | None \<Rightarrow> ws'))"

definition move_tab :: "uuid \<Rightarrow> nat \<Rightarrow> session \<Rightarrow> unit outcome" where
  "move_tab tid new_index s =
     (case find_tab tid (workspaces (layout s)) of
        None \<Rightarrow> (Inl (pty_err ''move_tab: tab {tab_id} not found'' [AUuid tid]), s)
      | Some (i, current) \<Rightarrow>
          let target = min new_index (length (ws_tabs (workspaces (layout s) ! i)) - 1)
          in if current = target then (Inr (), s)
             else (Inr (), send_event (TabMoved i tid target)
                             (modify_ws i (move_tab_in_ws current target) s)))"

definition set_active_tab :: "nat \<Rightarrow> nat \<Rightarrow> session \<Rightarrow> unit outcome" where
  "set_active_tab i j s =
     (if i \<ge> ws_count s then (Inl (out_of_bounds ''set_active_tab: '' i s), s)
      else let n = length (ws_tabs (workspaces (layout s) ! i))
           in if j \<ge> n
              then (Inl (pty_err ''set_active_tab: tab index {tab_idx} out of bounds (len={})''
                           [ANat j, ANat n]), s)
              else (Inr (), send_event (ActiveTabChanged i j)
                              (modify_ws i (\<lambda>ws. ws\<lparr>ws_active_tab := j\<rparr>) s)))"

definition set_active_workspace :: "nat \<Rightarrow> session \<Rightarrow> unit outcome" where
  "set_active_workspace i s =
     (if i \<ge> ws_count s then (Inl (out_of_bounds ''set_active_workspace: '' i s), s)
      else if active_workspace (layout s) = i then (Inr (), s)
      else (Inr (), send_event (ActiveWorkspaceChanged i)
                      (s\<lparr>layout := (layout s)\<lparr>active_workspace := i\<rparr>\<rparr>)))"

definition set_active_pane :: "nat \<Rightarrow> uuid \<Rightarrow> pane_id option \<Rightarrow> session \<Rightarrow> unit outcome" where
  "set_active_pane i tid p s =
     (if i \<ge> ws_count s then (Inl (out_of_bounds ''set_active_pane: '' i s), s)
      else let tabs = ws_tabs (workspaces (layout s) ! i)
           in case position (\<lambda>t. tab_id t = tid) tabs of
                None \<Rightarrow>
                  (Inl (pty_err ''set_active_pane: tab {tab_id} not found in workspace {workspace_idx}''
                          [AUuid tid, ANat i]), s)
              | Some j \<Rightarrow>
                  let tab = tabs ! j
                  in if (case p of None \<Rightarrow> False
                         | Some pid \<Rightarrow> \<not> pane_tree_contains_leaf (tab_tree tab) pid)
                     then (Inl (pty_err
                             (''set_active_pane: pane {pid} is not a leaf in tab {tab_id}'' @
                              CHR 0x27 # ''s pane_tree'')
                             [AUuid (the p), AUuid tid]), s)
                     else if active_pane_id tab = p then (Inr (), s)
                     else (Inr (), send_event (ActivePaneChanged i tid p)
                            (modify_ws i (\<lambda>ws. ws\<lparr>ws_tabs :=
                               modify_at j (\<lambda>t. t\<lparr>active_pane_id := p\<rparr>) (ws_tabs ws)\<rparr>) s)))"

subsection \<open>Input, output, metadata\<close>

definition intr_byte :: "pane_id \<Rightarrow> session \<Rightarrow> byte option" where
  "intr_byte p s =
     (case panes s p of None \<Rightarrow> None | Some st \<Rightarrow> w_vintr (world s) (pb_pty (ps_bridge st)))"

definition pane_not_found :: "pane_id \<Rightarrow> forgetty_error" where
  "pane_not_found p = pty_err ''pane {id} not found'' [AUuid p]"

definition write_pty :: "pane_id \<Rightarrow> byte list \<Rightarrow> session \<Rightarrow> unit outcome" where
  "write_pty p data s =
     (case panes s p of
        None \<Rightarrow> (Inl (pane_not_found p), s)
      | Some st \<Rightarrow>
          let h = pb_pty (ps_bridge st)
          in case w_write_fails (world s) h data of
               Some e \<Rightarrow> (Inl e, s)
             | None \<Rightarrow> (Inr (), os_do (WritePty h data) s))"

definition resize_pane :: "pane_id \<Rightarrow> pty_size \<Rightarrow> session \<Rightarrow> unit outcome" where
  "resize_pane p sz s =
     (case panes s p of
        None \<Rightarrow> (Inl (pane_not_found p), s)
      | Some st \<Rightarrow>
          let h = pb_pty (ps_bridge st)
          in case w_resize_fails (world s) h sz of
               Some e \<Rightarrow> (Inl e, s)
             | None \<Rightarrow>
                 (Inr (), os_do (ResizePty h sz)
                    (s\<lparr>panes := (panes s)
                         (p \<mapsto> st\<lparr>ps_rows := sz_rows sz, ps_cols := sz_cols sz\<rparr>)\<rparr>)))"

text \<open>The cached directory of a pane, read again from \<open>/proc\<close> when that can be done.\<close>

definition refresh_cwd :: "world \<Rightarrow> pane_state \<Rightarrow> pane_state" where
  "refresh_cwd w st =
     (case w_pid w (pb_pty (ps_bridge st)) of
        None \<Rightarrow> st
      | Some pid \<Rightarrow> (case w_proc_cwd w pid of None \<Rightarrow> st | Some c \<Rightarrow> st\<lparr>ps_cwd := c\<rparr>))"

text \<open>\<open>process_pane_bytes\<close>: the value is \<open>DrainResult.pty_exited\<close>.\<close>

definition process_pane_bytes :: "pane_id \<Rightarrow> byte list \<Rightarrow> session \<Rightarrow> bool outcome" where
  "process_pane_bytes p bytes s =
     (case panes s p of
        None \<Rightarrow> (Inl (pane_not_found p), s)
      | Some st \<Rightarrow>
          let pty_exited = (\<not> w_alive (world s) (pb_pty (ps_bridge st)));
              s1 = s\<lparr>panes := (panes s)(p \<mapsto> refresh_cwd (world s) st)\<rparr>;
              s2 = (case byte_logs s1 p of
                      None \<Rightarrow> s1
                    | Some l \<Rightarrow> s1\<lparr>byte_logs := (byte_logs s1)(p \<mapsto> log_append l bytes)\<rparr>)
          in (Inr pty_exited, send_event (PtyOutput p bytes) s2))"

definition get_ring_snapshot :: "pane_id \<Rightarrow> session \<Rightarrow> (byte list \<times> nat) option" where
  "get_ring_snapshot p s = map_option ring_snapshot (byte_logs s p)"

definition close_pane_byte_log :: "pane_id \<Rightarrow> session \<Rightarrow> session" where
  "close_pane_byte_log p s = s\<lparr>byte_logs := map_remove p (byte_logs s)\<rparr>"

text \<open>
  One turn of the drain task of a pane: a received chunk, or \<open>None\<close> when the reader
  thread is gone. The flag says whether the task has ended.
\<close>

fun drain_turn :: "pane_id \<Rightarrow> byte list option \<Rightarrow> session \<Rightarrow> bool \<times> session" where
  "drain_turn p (Some bytes) s =
     (case process_pane_bytes p bytes s of
        (Inr True, s1) \<Rightarrow> (True, snd (close_pane p s1))
      | (_, s1) \<Rightarrow> (False, s1))"
| "drain_turn p None s = (True, snd (close_pane p s))"

text \<open>The loop of the task, run without interruption on the chunks it receives.\<close>

fun drain_task :: "pane_id \<Rightarrow> byte list list \<Rightarrow> session \<Rightarrow> session" where
  "drain_task p [] s = snd (drain_turn p None s)"
| "drain_task p (c # cs) s =
     (case drain_turn p (Some c) s of
        (True, s1) \<Rightarrow> s1
      | (False, s1) \<Rightarrow> drain_task p cs s1)"

definition pane_info_of :: "pane_id \<Rightarrow> session \<Rightarrow> pane_info option" where
  "pane_info_of p s =
     map_option (\<lambda>st. \<lparr>pi_id = ps_id st, pi_pid = w_pid (world s) (pb_pty (ps_bridge st)),
                       pi_rows = ps_rows st, pi_cols = ps_cols st, pi_cwd = ps_cwd st,
                       pi_title = ps_title st\<rparr>) (panes s p)"

definition list_panes :: "session \<Rightarrow> pane_id list" where
  "list_panes s = pane_order s"

text \<open>A receiver of the broadcast channel is the position of the next event it will see.\<close>

definition subscribe_output :: "session \<Rightarrow> nat" where
  "subscribe_output s = length (events s)"

definition subscribe_with_snapshot :: "pane_id \<Rightarrow> session \<Rightarrow> nat \<times> byte list \<times> nat" where
  "subscribe_with_snapshot p s =
     (let rx = length (events s)
      in case byte_logs s p of
           Some l \<Rightarrow> (case ring_snapshot l of (replay, hwm) \<Rightarrow> (rx, replay, hwm))
         | None \<Rightarrow> (rx, [], 0))"

subsection \<open>Snapshots for persistence\<close>

definition pane_cwd_or_home :: "session \<Rightarrow> pane_id \<Rightarrow> path" where
  "pane_cwd_or_home s p =
     (case panes s p of Some st \<Rightarrow> ps_cwd st | None \<Rightarrow> home_dir_fallback s)"

definition snapshot_workspace :: "workspace_layout \<Rightarrow> session \<Rightarrow> workspace_state" where
  "snapshot_workspace wl s = build_workspace_state wl (pane_cwd_or_home s)"

definition refresh_pane_cwds :: "session \<Rightarrow> session" where
  "refresh_pane_cwds s = s\<lparr>panes := map_option (refresh_cwd (world s)) \<circ> panes s\<rparr>"

fun convert_pane_tree_layout :: "pane_tree \<Rightarrow> session \<Rightarrow> pane_tree_state" where
  "convert_pane_tree_layout (Leaf p) s = SLeaf (pane_cwd_or_home s p) (Some p)"
| "convert_pane_tree_layout (Split d r a b) s =
     SSplit d r (convert_pane_tree_layout a s) (convert_pane_tree_layout b s)"

definition snapshot_tab :: "session \<Rightarrow> session_tab \<Rightarrow> tab_state" where
  "snapshot_tab s t =
     \<lparr>st_title = tab_title t, st_tree = convert_pane_tree_layout (tab_tree t) s,
      st_pane_id = None, st_active_pane_id = active_pane_id t\<rparr>"

definition snapshot_ws :: "session \<Rightarrow> session_workspace \<Rightarrow> saved_workspace" where
  "snapshot_ws s ws =
     \<lparr>sw_id = ws_id ws, sw_name = ws_name ws, sw_root_paths = [],
      sw_tabs = map (snapshot_tab s) (ws_tabs ws), sw_active_tab = ws_active_tab ws,
      sw_color = ws_color ws\<rparr>"

definition snapshot_to_workspace_state :: "session \<Rightarrow> workspace_state \<times> session" where
  "snapshot_to_workspace_state s0 =
     (let s = refresh_pane_cwds s0
      in (\<lparr>ss_version = 1, ss_workspaces = map (snapshot_ws s) (workspaces (layout s)),
           ss_active_workspace = active_workspace (layout s), ss_window_width = None,
           ss_window_height = None, ss_pinned = pinned s\<rparr>, s))"

subsection \<open>Signals and shutdown\<close>

definition is_signal_forwarder_comm :: "string \<Rightarrow> bool" where
  "is_signal_forwarder_comm comm \<longleftrightarrow>
     comm \<in> {''ssh'', ''mosh-client'', ''telnet'', ''rsh''}"

definition pgid_is_signal_forwarder :: "int \<Rightarrow> session \<Rightarrow> bool" where
  "pgid_is_signal_forwarder pgid s =
     (case w_comm (world s) pgid of
        Some c \<Rightarrow> is_signal_forwarder_comm (rust_trim c) | None \<Rightarrow> False)"

definition send_sigint :: "pane_id \<Rightarrow> session \<Rightarrow> session" where
  "send_sigint p s =
     (case panes s p of
        None \<Rightarrow> s
      | Some st \<Rightarrow>
          (case w_fg_pgrp (world s) (pb_pty (ps_bridge st)) of
             None \<Rightarrow> s
           | Some pgid \<Rightarrow>
               if pgid > 0 \<and> pgid \<noteq> w_my_pid (world s) \<and> \<not> pgid_is_signal_forwarder pgid s
               then os_do (SigintGroup pgid) s else s))"

text \<open>
  \<open>kill_all\<close> does nothing when the lock is taken; \<open>order\<close> is the order in which the hash
  map is iterated.
\<close>

fun kill_all :: "bool \<Rightarrow> pane_id list \<Rightarrow> session \<Rightarrow> session" where
  "kill_all contended order s =
     (if contended then s
      else fold (\<lambda>p s. case panes s p of
                        None \<Rightarrow> s | Some st \<Rightarrow> os_do (KillPty (pb_pty (ps_bridge st))) s) order s)"

end
