(* ===== verification/SessionInv.thy ===== *)
theory SessionInv
  imports SessionOps
begin

section \<open>The invariant of the session\<close>

text \<open>
  What ties the pane registry, the creation order, the layout tree, the byte logs and the
  supply of identifiers together. \<open>sinv X D\<close> is the invariant up to a set \<open>X\<close> of panes
  that are registered and not (or no longer) in the layout, and a set \<open>D\<close> of leaves
  that have no registered pane; \<open>sinv {} {}\<close> is what a quiet session satisfies. The
  operations are proved over their primitive effects, each of which moves a pane in or out
  of \<open>X\<close> or \<open>D\<close>.
\<close>

subsection \<open>The layout alone\<close>

definition ws_ok :: "session_workspace \<Rightarrow> bool" where
  "ws_ok ws \<longleftrightarrow>
     ws_active_tab ws < max 1 (length (ws_tabs ws)) \<and>
     (\<forall>t \<in> set (ws_tabs ws). \<forall>p. active_pane_id t = Some p \<longrightarrow> p \<in> set (leaves (tab_tree t)))"

definition layout_ok :: "session_layout \<Rightarrow> bool" where
  "layout_ok l \<longleftrightarrow>
     active_workspace l < length (workspaces l) \<and> (\<forall>ws \<in> set (workspaces l). ws_ok ws) \<and>
     distinct (layout_leaves l) \<and> distinct (layout_tab_ids l) \<and> distinct (layout_ws_ids l)"

definition layout_ids :: "session_layout \<Rightarrow> uuid set" where
  "layout_ids l = set (layout_leaves l) \<union> set (layout_tab_ids l) \<union> set (layout_ws_ids l)"

definition modify_layout_ws ::
  "nat \<Rightarrow> (session_workspace \<Rightarrow> session_workspace) \<Rightarrow> session_layout \<Rightarrow> session_layout" where
  "modify_layout_ws i f l = l\<lparr>workspaces := modify_at i f (workspaces l)\<rparr>"

lemma layout_modify_ws [simp]: "layout (modify_ws i f s) = modify_layout_ws i f (layout s)"
  by (simp add: modify_ws_def modify_layout_ws_def)

lemma ws_tab_ids_simp: "layout_tab_ids l = concat (map (map tab_id \<circ> ws_tabs) (workspaces l))"
  by (simp add: layout_tab_ids_def comp_def)

text \<open>
  Replacing one workspace by one with new leaves \<open>N\<close> and new tab ids \<open>M\<close>. The rule covers
  every operation that stays inside a workspace.
\<close>

lemma layout_ok_modify:
  assumes ok: "layout_ok l" and i: "i < length (workspaces l)"
    and ws: "ws = workspaces l ! i" and ok': "ws_ok (f ws)" and id: "ws_id (f ws) = ws_id ws"
    and dl: "distinct (ws_leaves (f ws))"
    and sl: "set (ws_leaves (f ws)) \<subseteq> set (ws_leaves ws) \<union> N" "N \<inter> set (layout_leaves l) = {}"
    and dt: "distinct (map tab_id (ws_tabs (f ws)))"
    and st: "tab_id ` set (ws_tabs (f ws)) \<subseteq> tab_id ` set (ws_tabs ws) \<union> M"
            "M \<inter> set (layout_tab_ids l) = {}"
  shows "layout_ok (modify_layout_ws i f l)"
proof -
  obtain A B where split: "workspaces l = A @ ws # B" "length A = i"
    using i ws by (metis nth_split)
  have leaves: "distinct (concat (map ws_leaves A) @ ws_leaves ws @ concat (map ws_leaves B))"
    using ok split by (simp add: layout_ok_def layout_leaves_def)
  have tabs: "distinct (concat (map (map tab_id \<circ> ws_tabs) A) @ map tab_id (ws_tabs ws) @
                        concat (map (map tab_id \<circ> ws_tabs) B))"
    using ok split by (simp add: layout_ok_def ws_tab_ids_simp)
  have N: "N \<inter> set (concat (map ws_leaves A)) = {}" "N \<inter> set (concat (map ws_leaves B)) = {}"
    using sl(2) unfolding layout_leaves_def split(1) by simp_all blast+
  have M: "M \<inter> set (concat (map (map tab_id \<circ> ws_tabs) A)) = {}"
    "M \<inter> set (concat (map (map tab_id \<circ> ws_tabs) B)) = {}"
    using st(2) unfolding ws_tab_ids_simp split(1) by simp_all blast+
  have split': "workspaces (modify_layout_ws i f l) = A @ f ws # B"
    using split by (auto simp: modify_layout_ws_def)
  have "distinct (layout_leaves (modify_layout_ws i f l))"
    using distinct_replace_middle[OF leaves dl sl(1) N] unfolding layout_leaves_def split' by simp
  moreover have "distinct (layout_tab_ids (modify_layout_ws i f l))"
    using distinct_replace_middle[OF tabs dt _ M] st(1) unfolding ws_tab_ids_simp split' by simp
  moreover have "layout_ws_ids (modify_layout_ws i f l) = layout_ws_ids l"
    using id by (simp add: layout_ws_ids_def split' split)
  moreover have "\<forall>w \<in> set (workspaces (modify_layout_ws i f l)). ws_ok w"
    using ok ok' split unfolding split' by (auto simp: layout_ok_def)
  ultimately show ?thesis
    using ok by (simp add: layout_ok_def modify_layout_ws_def)
qed

lemma layout_leaves_modify:
  assumes "layout_ok l" "i < length (workspaces l)" "ws = workspaces l ! i"
    "set (ws_leaves (f ws)) \<inter> set (layout_leaves l) \<subseteq> set (ws_leaves ws)"
  shows "set (layout_leaves (modify_layout_ws i f l)) =
         (set (layout_leaves l) - set (ws_leaves ws)) \<union> set (ws_leaves (f ws))"
proof -
  obtain A B where split: "workspaces l = A @ ws # B" "length A = i"
    using assms(2,3) by (metis nth_split)
  have "distinct (concat (map ws_leaves A) @ ws_leaves ws @ concat (map ws_leaves B))"
    using assms(1) split by (simp add: layout_ok_def layout_leaves_def)
  moreover have "workspaces (modify_layout_ws i f l) = A @ f ws # B"
    using split by (auto simp: modify_layout_ws_def)
  ultimately show ?thesis
    using split by (auto simp: layout_leaves_def)
qed

lemma layout_tab_ids_modify:
  assumes "i < length (workspaces l)" "ws = workspaces l ! i"
  shows "set (layout_tab_ids (modify_layout_ws i f l)) \<subseteq>
         set (layout_tab_ids l) \<union> tab_id ` set (ws_tabs (f ws))"
proof -
  obtain A B where split: "workspaces l = A @ ws # B" "length A = i"
    using assms by (metis nth_split)
  moreover have "workspaces (modify_layout_ws i f l) = A @ f ws # B"
    using split by (auto simp: modify_layout_ws_def)
  ultimately show ?thesis by (auto simp: ws_tab_ids_simp)
qed

lemma ws_leaves_subset:
  "i < length (workspaces l) \<Longrightarrow> set (ws_leaves (workspaces l ! i)) \<subseteq> set (layout_leaves l)"
  by (auto simp: layout_leaves_def intro!: bexI[OF _ nth_mem])

lemma ws_tab_ids_subset:
  "i < length (workspaces l) \<Longrightarrow>
   tab_id ` set (ws_tabs (workspaces l ! i)) \<subseteq> set (layout_tab_ids l)"
  by (auto simp: layout_tab_ids_def intro!: bexI[OF _ nth_mem])

lemma layout_ok_ws:
  assumes "layout_ok l" "i < length (workspaces l)"
  shows "ws_ok (workspaces l ! i)" "distinct (ws_leaves (workspaces l ! i))"
    "distinct (map tab_id (ws_tabs (workspaces l ! i)))"
proof -
  obtain A ws B where split: "workspaces l = A @ ws # B" "workspaces l ! i = ws"
    using assms(2) by (metis nth_split)
  then show "ws_ok (workspaces l ! i)" "distinct (ws_leaves (workspaces l ! i))"
    "distinct (map tab_id (ws_tabs (workspaces l ! i)))"
    using assms(1) by (auto simp: layout_ok_def layout_leaves_def ws_tab_ids_simp)
qed

text \<open>Changes that keep every workspace's leaves and ids.\<close>

lemma layout_ok_same:
  assumes "layout_ok l" "map ws_leaves (workspaces l') = map ws_leaves (workspaces l)"
    "map (map tab_id \<circ> ws_tabs) (workspaces l') = map (map tab_id \<circ> ws_tabs) (workspaces l)"
    "map ws_id (workspaces l') = map ws_id (workspaces l)"
    "\<forall>ws \<in> set (workspaces l'). ws_ok ws" "active_workspace l' < length (workspaces l')"
  shows "layout_ok l'" "layout_leaves l' = layout_leaves l" "layout_ids l' = layout_ids l"
  using assms by (simp_all add: layout_ok_def layout_leaves_def ws_tab_ids_simp layout_ws_ids_def
      layout_ids_def)

subsection \<open>The session\<close>

definition supply_ok :: "uuid set \<Rightarrow> session \<Rightarrow> bool" where
  "supply_ok X s \<longleftrightarrow>
     inj (w_fresh (world s)) \<and>
     (\<forall>n \<ge> w_next_id (world s). w_fresh (world s) n \<notin> layout_ids (layout s) \<union> X)"

definition logs_ok :: "session \<Rightarrow> bool" where
  "logs_ok s \<longleftrightarrow>
     (\<forall>p l. byte_logs s p = Some l \<longrightarrow> log_wf l) \<and>
     (\<forall>p f. w_log_file (world s) p = Some f \<longrightarrow> length f \<le> u64_max)"

definition sinv :: "pane_id set \<Rightarrow> pane_id set \<Rightarrow> session \<Rightarrow> bool" where
  "sinv X D s \<longleftrightarrow>
     layout_ok (layout s) \<and> distinct (pane_order s) \<and> set (pane_order s) = dom (panes s) \<and>
     (\<forall>p st. panes s p = Some st \<longrightarrow> ps_id st = p) \<and>
     dom (panes s) \<subseteq> set (layout_leaves (layout s)) \<union> X \<and>
     set (layout_leaves (layout s)) \<subseteq> dom (panes s) \<union> D \<and>
     dom (byte_logs s) \<subseteq> dom (panes s) \<and> logs_ok s \<and> supply_ok X s"

lemma inv_cong:
  assumes "panes s' = panes s" "pane_order s' = pane_order s" "layout s' = layout s"
    "byte_logs s' = byte_logs s" "w_fresh (world s') = w_fresh (world s)"
    "w_next_id (world s') = w_next_id (world s)" "w_log_file (world s') = w_log_file (world s)"
  shows "sinv X D s' = sinv X D s"
  using assms by (simp add: sinv_def logs_ok_def supply_ok_def)

lemma invD:
  assumes "sinv X D s"
  shows "layout_ok (layout s)" "distinct (pane_order s)" "set (pane_order s) = dom (panes s)"
    "panes s p = Some st \<Longrightarrow> ps_id st = p"
    "dom (panes s) \<subseteq> set (layout_leaves (layout s)) \<union> X"
    "set (layout_leaves (layout s)) \<subseteq> dom (panes s) \<union> D"
    "dom (byte_logs s) \<subseteq> dom (panes s)" "logs_ok s" "supply_ok X s"
  using assms by (auto simp: sinv_def)

lemma inv_weaken:
  assumes "sinv X D s" "Y \<subseteq> X" "dom (panes s) \<subseteq> set (layout_leaves (layout s)) \<union> Y" "D \<subseteq> E"
  shows "sinv Y E s"
  using assms unfolding sinv_def supply_ok_def by blast

lemma inv_more_dead: "sinv X D s \<Longrightarrow> D \<subseteq> E \<Longrightarrow> sinv X E s"
  unfolding sinv_def by blast

subsection \<open>Primitive effects\<close>

lemma send_event_fields [simp]:
  "panes (send_event e s) = panes s" "pane_order (send_event e s) = pane_order s"
  "layout (send_event e s) = layout s" "byte_logs (send_event e s) = byte_logs s"
  "world (send_event e s) = world s" "events (send_event e s) = events s @ [e]"
  "os_log (send_event e s) = os_log s" "pinned (send_event e s) = pinned s"
  "drain_tasks (send_event e s) = drain_tasks s"
  by (simp_all add: send_event_def)

lemma os_do_fields [simp]:
  "panes (os_do a s) = panes s" "pane_order (os_do a s) = pane_order s"
  "layout (os_do a s) = layout s" "byte_logs (os_do a s) = byte_logs s"
  "world (os_do a s) = world s" "events (os_do a s) = events s"
  "os_log (os_do a s) = os_log s @ [a]" "pinned (os_do a s) = pinned s"
  "drain_tasks (os_do a s) = drain_tasks s"
  by (simp_all add: os_do_def)

lemma inv_send_event [simp]: "sinv X D (send_event e s) = sinv X D s"
  by (rule inv_cong) simp_all

lemma inv_os_do [simp]: "sinv X D (os_do a s) = sinv X D s"
  by (rule inv_cong) simp_all

lemma new_uuid_fields:
  assumes "new_uuid s = (u, s')"
  shows "panes s' = panes s" "pane_order s' = pane_order s" "layout s' = layout s"
    "byte_logs s' = byte_logs s" "events s' = events s" "os_log s' = os_log s"
    "pinned s' = pinned s" "drain_tasks s' = drain_tasks s" "w_home (world s') = w_home (world s)"
    "u = w_fresh (world s) (w_next_id (world s))"
  using assms by (auto simp: new_uuid_def)

lemma inv_new_uuid:
  assumes "sinv X D s" "new_uuid s = (u, s')"
  shows "sinv (insert u X) D s'" "u \<notin> layout_ids (layout s)" "u \<notin> X" "u \<notin> dom (panes s)"
proof -
  have u: "u = w_fresh (world s) (w_next_id (world s))"
    and s': "s' = s\<lparr>world := (world s)\<lparr>w_next_id := Suc (w_next_id (world s))\<rparr>\<rparr>"
    using assms(2) by (auto simp: new_uuid_def)
  have sup: "supply_ok X s" using assms(1) by (rule invD)
  then show fresh: "u \<notin> layout_ids (layout s)" "u \<notin> X" by (auto simp: supply_ok_def u)
  with invD(5)[OF assms(1)] show "u \<notin> dom (panes s)" by (auto simp: layout_ids_def)
  have "supply_ok (insert u X) s'"
    using sup unfolding supply_ok_def s' u by (auto dest: injD)
  then show "sinv (insert u X) D s'"
    using assms(1) unfolding sinv_def s' logs_ok_def by auto
qed

lemma spawn_fields:
  assumes "pty_bridge_spawn sz cwd cmd sh login s = (r, s')"
  shows "panes s' = panes s" "pane_order s' = pane_order s" "layout s' = layout s"
    "byte_logs s' = byte_logs s" "events s' = events s" "pinned s' = pinned s"
    "drain_tasks s' = drain_tasks s" "w_home (world s') = w_home (world s)"
    "w_fresh (world s') = w_fresh (world s)" "w_next_id (world s') = w_next_id (world s)"
    "w_log_file (world s') = w_log_file (world s)"
  using assms by (auto simp: pty_bridge_spawn_def Let_def split: prod.splits sum.splits option.splits)

lemma inv_spawn:
  "pty_bridge_spawn sz cwd cmd sh login s = (r, s') \<Longrightarrow> sinv X D s' = sinv X D s"
  by (rule inv_cong) (simp_all add: spawn_fields)

lemma new_pane_state_id [simp]: "ps_id (new_pane_state p b c sz) = p"
  by (simp add: new_pane_state_def)

lemma register_fields [simp]:
  "layout (push_order p (insert_pane p st s)) = layout s"
  "byte_logs (push_order p (insert_pane p st s)) = byte_logs s"
  "panes (push_order p (insert_pane p st s)) = (panes s)(p \<mapsto> st)"
  "pane_order (push_order p (insert_pane p st s)) = pane_order s @ [p]"
  "world (push_order p (insert_pane p st s)) = world s"
  "events (push_order p (insert_pane p st s)) = events s"
  "pinned (push_order p (insert_pane p st s)) = pinned s"
  by (simp_all add: push_order_def insert_pane_def Let_def split: option.splits)

lemma inv_register:
  assumes "sinv X D s" "p \<in> X" "p \<notin> dom (panes s)" "ps_id st = p"
  shows "sinv X D (push_order p (insert_pane p st s))"
  using assms unfolding sinv_def supply_ok_def logs_ok_def by auto

lemma modify_ws_fields [simp]:
  "panes (modify_ws i f s) = panes s" "pane_order (modify_ws i f s) = pane_order s"
  "byte_logs (modify_ws i f s) = byte_logs s" "world (modify_ws i f s) = world s"
  "events (modify_ws i f s) = events s" "os_log (modify_ws i f s) = os_log s"
  "pinned (modify_ws i f s) = pinned s" "drain_tasks (modify_ws i f s) = drain_tasks s"
  "ws_count (modify_ws i f s) = ws_count s"
  by (simp_all add: modify_ws_def ws_count_def)

text \<open>A registered pane that is not in the layout becomes the only leaf of a new tab.\<close>

lemma inv_add_tab:
  assumes i: "sinv X D s" "i < ws_count s" and p: "p \<in> X" "p \<in> dom (panes s)"
    and fresh: "p \<notin> set (layout_leaves (layout s))" "tid \<notin> set (layout_tab_ids (layout s))"
               "tid \<in> X"
    and f: "ws_tabs (f ws) = ws_tabs ws @ [new_tab_record tid p]" "ws_id (f ws) = ws_id ws"
           "ws_active_tab (f ws) \<le> ws_active_tab ws"
    and ws: "ws = workspaces (layout s) ! i"
    and Y: "Y \<subseteq> X" "dom (panes s) \<subseteq> insert p (set (layout_leaves (layout s)) \<union> Y)"
  shows "sinv Y D (modify_ws i f s)"
proof -
  let ?l = "layout s" and ?l' = "modify_layout_ws i f (layout s)"
  note ok = invD(1)[OF i(1)]
  have len: "i < length (workspaces ?l)" using i(2) by (simp add: ws_count_def)
  have wl: "ws_leaves (f ws) = ws_leaves ws @ [p]"
    by (simp add: ws_leaves_def f new_tab_record_def)
  have in_l: "set (ws_leaves ws) \<subseteq> set (layout_leaves ?l)"
    using ws_leaves_subset[OF len] ws by simp
  have in_t: "tab_id ` set (ws_tabs ws) \<subseteq> set (layout_tab_ids ?l)"
    using ws_tab_ids_subset[OF len] ws by simp
  note wsok = layout_ok_ws[OF ok len, folded ws]
  have lok: "layout_ok ?l'"
  proof (rule layout_ok_modify[OF ok len ws, where N = "{p}" and M = "{tid}"])
    show "ws_ok (f ws)" using wsok(1) f by (auto simp: ws_ok_def new_tab_record_def)
    show "distinct (ws_leaves (f ws))" using wsok(2) wl in_l fresh by auto
    show "distinct (map tab_id (ws_tabs (f ws)))"
      using wsok(3) in_t fresh by (auto simp: f new_tab_record_def)
  qed (use wl fresh f in \<open>auto simp: new_tab_record_def\<close>)
  have lv: "set (layout_leaves ?l') = insert p (set (layout_leaves ?l))"
    by (subst layout_leaves_modify[OF ok len ws]) (use wl in_l fresh in auto)
  have "layout_ids ?l' \<subseteq> layout_ids ?l \<union> {p, tid}"
  proof -
    have "set (layout_tab_ids ?l') \<subseteq> set (layout_tab_ids ?l) \<union> {tid}"
      using layout_tab_ids_modify[OF len ws, of f] in_t by (auto simp: f new_tab_record_def)
    moreover have "layout_ws_ids ?l' = layout_ws_ids ?l"
      using len f(2) ws by (auto simp: layout_ws_ids_def modify_layout_ws_def modify_at_def map_update
          list_update_same_conv)
    ultimately show ?thesis using lv by (auto simp: layout_ids_def)
  qed
  then have "supply_ok Y (modify_ws i f s)"
    using invD(9)[OF i(1)] p(1) fresh(3) Y(1) by (auto simp: supply_ok_def)
  then show ?thesis
    using i(1) lok lv p(2) Y(2) unfolding sinv_def by (auto simp: logs_ok_def)
qed

end
