(* ===== verification/SessionSafe.thy ===== *)
theory SessionSafe
  imports SessionInv
begin

section \<open>Every operation of the manager keeps the invariant\<close>

text \<open>
  One preservation lemma per operation of \<open>manager.rs\<close>. The dead-leaf set \<open>D\<close> is a
  parameter of each lemma: an operation that keeps \<open>sinv {} D\<close> for every \<open>D\<close> leaves no
  pane of the layout without a process that had one before.
\<close>

subsection \<open>Spawning the drain task\<close>

lemma create_byte_log_fields [simp]:
  "panes (create_byte_log_for p s) = panes s"
  "pane_order (create_byte_log_for p s) = pane_order s"
  "layout (create_byte_log_for p s) = layout s" "world (create_byte_log_for p s) = world s"
  "events (create_byte_log_for p s) = events s" "os_log (create_byte_log_for p s) = os_log s"
  "pinned (create_byte_log_for p s) = pinned s"
  by (simp_all add: create_byte_log_for_def Let_def)

lemma inv_create_byte_log:
  "sinv X D s \<Longrightarrow> p \<in> dom (panes s) \<Longrightarrow> sinv X D (create_byte_log_for p s)"
  unfolding sinv_def logs_ok_def supply_ok_def
  by (auto simp: create_byte_log_for_def Let_def intro!: log_wf_new split: if_splits)

lemma spawn_drain_fields [simp]:
  "dom (panes (spawn_drain_task p s)) = dom (panes s)"
  "pane_order (spawn_drain_task p s) = pane_order s"
  "layout (spawn_drain_task p s) = layout s" "world (spawn_drain_task p s) = world s"
  "events (spawn_drain_task p s) = events s" "os_log (spawn_drain_task p s) = os_log s"
  "pinned (spawn_drain_task p s) = pinned s"
  by (auto simp: spawn_drain_task_def take_pane_output_rx_def split: option.splits bool.splits prod.splits)

lemma inv_spawn_drain:
  assumes "sinv X D s" "p \<in> dom (panes s)"
  shows "sinv X D (spawn_drain_task p s)"
proof -
  have "sinv X D (create_byte_log_for p s)" using assms by (rule inv_create_byte_log)
  then show ?thesis
    unfolding spawn_drain_task_def take_pane_output_rx_def
    by (auto simp: sinv_def supply_ok_def logs_ok_def split: option.splits bool.splits)
qed

subsection \<open>Creating panes and tabs\<close>

lemma inv_create_tab_with_pane_id:
  assumes "sinv X D s" "p \<in> X" "p \<notin> dom (panes s)" "p \<notin> set (layout_leaves (layout s))"
    "dom (panes s) \<subseteq> set (layout_leaves (layout s)) \<union> Y" "Y \<subseteq> X"
    "create_tab_with_pane_id i cwd sz cmd p s = (r, s')"
  shows "sinv Y D s'"
proof (cases "i \<ge> ws_count s")
  case True
  then show ?thesis using assms by (auto simp: create_tab_with_pane_id_def intro: inv_weaken)
next
  case False
  obtain rb s1 where sp: "pty_bridge_spawn sz cwd cmd None True s = (rb, s1)" by fastforce
  note f1 = spawn_fields[OF sp]
  show ?thesis
  proof (cases rb)
    case (Inl e)
    have "sinv Y D s1"
      by (rule inv_weaken[of X D]) (use assms f1 in \<open>auto simp: inv_spawn[OF sp]\<close>)
    then show ?thesis
      using assms(7) False sp Inl by (simp add: create_tab_with_pane_id_def)
  next
    case (Inr b)
    define s2 where "s2 = push_order p (insert_pane p (new_pane_state p b
      (case cwd of Some c \<Rightarrow> c | None \<Rightarrow> home_dir_fallback s1) sz) s1)"
    obtain tid s3 where nu: "new_uuid s2 = (tid, s3)" by fastforce
    note f3 = new_uuid_fields[OF nu]
    have i2: "sinv X D s2"
      unfolding s2_def by (rule inv_register) (use assms f1 in \<open>auto simp: inv_spawn[OF sp]\<close>)
    note i3 = inv_new_uuid[OF i2 nu]
    have "sinv Y D (modify_ws i (push_tab (new_tab_record tid p)) s3)"
      by (rule inv_add_tab[OF i3(1) _ _ _ _ _ _ _ _ _ refl])
         (use assms False i3 f1 f3 in \<open>auto simp: s2_def push_tab_def ws_count_def layout_ids_def\<close>)
    moreover have "p \<in> dom (panes s3)" using f3 by (simp add: s2_def)
    ultimately show ?thesis
      using assms(7) False sp Inr nu
      by (auto simp: create_tab_with_pane_id_def s2_def Let_def intro!: inv_spawn_drain)
  qed
qed

lemma inv_create_tab:
  assumes "sinv {} D s" "create_tab i cwd sz cmd s = (r, s')"
  shows "sinv {} D s'"
proof -
  obtain p s1 where nu: "new_uuid s = (p, s1)" by fastforce
  note f = new_uuid_fields[OF nu] and i1 = inv_new_uuid[OF assms(1) nu]
  show ?thesis
    by (rule inv_create_tab_with_pane_id[OF i1(1), where p = p and Y = "{}"])
       (use assms nu f i1 invD(5)[OF assms(1)] in \<open>auto simp: create_tab_def layout_ids_def\<close>)
qed

lemma inv_create_pane:
  assumes "sinv {} D s" "create_pane sz cwd cmd sh login s = (r, s')"
  shows "sinv {} D s'"
proof -
  obtain p s1 where nu: "new_uuid s = (p, s1)" by fastforce
  note f1 = new_uuid_fields[OF nu] and i1 = inv_new_uuid[OF assms(1) nu]
  obtain rb s2 where sp: "pty_bridge_spawn sz cwd cmd sh login s1 = (rb, s2)" by fastforce
  note f2 = spawn_fields[OF sp]
  have i2: "sinv (insert p {}) D s2" using i1(1) by (simp add: inv_spawn[OF sp])
  have sub: "dom (panes s) \<subseteq> set (layout_leaves (layout s))" using invD(5)[OF assms(1)] by simp
  show ?thesis
  proof (cases rb)
    case (Inl e)
    have "sinv {} D s2"
      by (rule inv_weaken[OF i2]) (use sub f1 f2 in auto)
    then show ?thesis using assms(2) nu sp Inl by (simp add: create_pane_def)
  next
    case (Inr b)
    define s3 where "s3 = push_order p (insert_pane p (new_pane_state p b
      (case cwd of Some c \<Rightarrow> c | None \<Rightarrow> home_dir_fallback s2) sz) s2)"
    obtain tid s4 where nu2: "new_uuid s3 = (tid, s4)" by fastforce
    note f4 = new_uuid_fields[OF nu2]
    have i3: "sinv (insert p {}) D s3"
      unfolding s3_def by (rule inv_register[OF i2]) (use i1 f1 f2 in auto)
    note i4 = inv_new_uuid[OF i3 nu2]
    have "0 < ws_count s4" using invD(1)[OF i4(1)] by (auto simp: layout_ok_def ws_count_def)
    then have "sinv {} D (modify_ws 0 (push_tab (new_tab_record tid p)) s4)"
      by (intro inv_add_tab[OF i4(1) _ _ _ _ _ _ _ _ _ refl])
         (use i1 i4 f1 f2 f4 sub in \<open>auto simp: s3_def push_tab_def layout_ids_def\<close>)
    moreover have "p \<in> dom (panes s4)" using f4 by (simp add: s3_def)
    ultimately show ?thesis
      using assms(2) nu sp Inr nu2
      by (auto simp: create_pane_def s3_def Let_def intro!: inv_spawn_drain)
  qed
qed

lemma inv_auto_seed:
  assumes "sinv {} D s" "auto_seed_default_tab i sz s = (r, s')"
  shows "sinv {} D s' \<and> (\<forall>p t. r = Inr (p, t) \<longrightarrow> p \<in> dom (panes s'))"
proof (cases "i \<ge> ws_count s")
  case True
  then show ?thesis using assms by (auto simp: auto_seed_default_tab_def)
next
  case False
  obtain rb s1 where sp: "pty_bridge_spawn sz None None None True s = (rb, s1)" by fastforce
  note f1 = spawn_fields[OF sp]
  have i1: "sinv {} D s1" using assms(1) by (simp add: inv_spawn[OF sp])
  show ?thesis
  proof (cases rb)
    case (Inl e)
    then show ?thesis using assms(2) False sp i1 by (auto simp: auto_seed_default_tab_def)
  next
    case (Inr b)
    obtain p s2 where nu: "new_uuid s1 = (p, s2)" by fastforce
    note f2 = new_uuid_fields[OF nu] and i2 = inv_new_uuid[OF i1 nu]
    define s3 where
      "s3 = push_order p (insert_pane p (new_pane_state p b (home_dir_fallback s2) sz) s2)"
    obtain tid s4 where nu2: "new_uuid s3 = (tid, s4)" by fastforce
    note f4 = new_uuid_fields[OF nu2]
    have i3: "sinv (insert p {}) D s3"
      unfolding s3_def by (rule inv_register[OF i2(1)]) (use i2 f2 in auto)
    note i4 = inv_new_uuid[OF i3 nu2]
    have sub: "dom (panes s1) \<subseteq> set (layout_leaves (layout s1))" using invD(5)[OF i1] by simp
    have "sinv {} D (modify_ws i (\<lambda>ws. (push_tab (new_tab_record tid p) ws)\<lparr>ws_active_tab := 0\<rparr>) s4)"
      by (rule inv_add_tab[OF i4(1) _ _ _ _ _ _ _ _ _ refl])
         (use False i2 i4 f1 f2 f4 sub in \<open>auto simp: s3_def push_tab_def layout_ids_def ws_count_def\<close>)
    moreover have "p \<in> dom (panes s4)" using f4 by (simp add: s3_def)
    ultimately show ?thesis
      using assms(2) False sp Inr nu nu2
      by (auto simp: auto_seed_default_tab_def s3_def Let_def)
  qed
qed

lemma inv_seed_and_drain:
  assumes "sinv {} D s"
  shows "sinv {} D (seed_and_drain i s)"
proof -
  obtain r s1 where a: "auto_seed_default_tab i default_size s = (r, s1)" by fastforce
  show ?thesis
    using inv_auto_seed[OF assms a] a
    by (auto simp: seed_and_drain_def split: sum.splits intro: inv_spawn_drain)
qed

subsection \<open>Splitting a pane\<close>

lemma split_in_tabs_None:
  "split_in_tabs p n d r ts = (None, ts') \<Longrightarrow>
   ts' = ts \<and> (\<forall>t \<in> set ts. p \<notin> set (leaves (tab_tree t)))"
proof (induction ts arbitrary: ts')
  case (Cons t ts)
  have "p \<notin> set (leaves (tab_tree t))"
  proof
    assume "p \<in> set (leaves (tab_tree t))"
    then obtain tr where "replace_leaf_with_ratio (tab_tree t) p n d r = (True, tr)"
      by (metis prod.collapse replace_leaf_flag)
    with Cons.prems show False by simp
  qed
  with Cons show ?case by (auto split: prod.splits simp: replace_leaf_miss)
qed simp

lemma split_in_tabs_Some:
  "split_in_tabs p n d r ts = (Some tid, ts') \<Longrightarrow>
   \<exists>A t B. ts = A @ t # B \<and> p \<in> set (leaves (tab_tree t)) \<and> tid = tab_id t \<and>
     ts' = A @ t\<lparr>tab_tree := snd (replace_leaf_with_ratio (tab_tree t) p n d r)\<rparr> # B \<and>
     (\<forall>u \<in> set A. p \<notin> set (leaves (tab_tree u)))"
proof (induction ts arbitrary: ts')
  case (Cons t ts)
  show ?case
  proof (cases "p \<in> set (leaves (tab_tree t))")
    case True
    then obtain tr where "replace_leaf_with_ratio (tab_tree t) p n d r = (True, tr)"
      by (metis prod.collapse replace_leaf_flag)
    with Cons.prems True show ?thesis by (intro exI[of _ "[]"]) auto
  next
    case False
    then have miss: "replace_leaf_with_ratio (tab_tree t) p n d r = (False, tab_tree t)"
      by (rule replace_leaf_miss)
    with Cons.prems obtain ts1 where ts1: "split_in_tabs p n d r ts = (Some tid, ts1)" "ts' = t # ts1"
      by (auto split: prod.splits)
    with Cons.IH obtain A u B where
      "ts = A @ u # B" "p \<in> set (leaves (tab_tree u))" "tid = tab_id u"
      "ts1 = A @ u\<lparr>tab_tree := snd (replace_leaf_with_ratio (tab_tree u) p n d r)\<rparr> # B"
      "\<forall>u \<in> set A. p \<notin> set (leaves (tab_tree u))" by blast
    with ts1(2) False show ?thesis by (intro exI[of _ "t # A"]) auto
  qed
qed simp

lemma split_in_workspaces_None:
  "split_in_workspaces p n d r wss = (None, wss') \<Longrightarrow>
   wss' = wss \<and> p \<notin> set (concat (map ws_leaves wss))"
proof (induction wss arbitrary: wss')
  case (Cons ws wss)
  then obtain ts wss1 where
    "split_in_tabs p n d r (ws_tabs ws) = (None, ts)" "split_in_workspaces p n d r wss = (None, wss1)"
    "wss' = ws\<lparr>ws_tabs := ts\<rparr> # wss1"
    by (auto split: prod.splits option.splits)
  with Cons.IH show ?case
    by (auto simp: ws_leaves_def dest!: split_in_tabs_None)
qed simp

lemma split_in_workspaces_Some:
  "split_in_workspaces p n d r wss = (Some tid, wss') \<Longrightarrow>
   \<exists>i ts. i < length wss \<and> split_in_tabs p n d r (ws_tabs (wss ! i)) = (Some tid, ts) \<and>
     wss' = modify_at i (\<lambda>ws. ws\<lparr>ws_tabs := ts\<rparr>) wss"
proof (induction wss arbitrary: wss')
  case (Cons ws wss)
  show ?case
  proof (cases "split_in_tabs p n d r (ws_tabs ws)")
    case (Pair found ts)
    show ?thesis
    proof (cases found)
      case None
      with Pair have "ws\<lparr>ws_tabs := ts\<rparr> = ws" by (auto dest: split_in_tabs_None)
      with Cons.prems Pair None obtain wss1 where
        w: "split_in_workspaces p n d r wss = (Some tid, wss1)" "wss' = ws # wss1"
        by (auto split: prod.splits)
      with Cons.IH obtain i us where
        "i < length wss" "split_in_tabs p n d r (ws_tabs (wss ! i)) = (Some tid, us)"
        "wss1 = modify_at i (\<lambda>ws. ws\<lparr>ws_tabs := us\<rparr>) wss" by blast
      with w(2) show ?thesis by (intro exI[of _ "Suc i"] exI[of _ us]) (auto simp: modify_at_def)
    next
      case (Some _)
      with Cons.prems Pair show ?thesis by (intro exI[of _ 0] exI[of _ ts]) (auto simp: modify_at_def)
    qed
  qed
qed simp

text \<open>
  The layout after a split: the new leaf is the only change to the set of leaves, and all
  tab and workspace ids stay.
\<close>

lemma split_layout:
  assumes ok: "layout_ok l" and n: "n \<notin> set (layout_leaves l)"
    and sp: "split_in_workspaces p n d r (workspaces l) = (Some tid, wss)"
  shows "layout_ok (l\<lparr>workspaces := wss\<rparr>)"
    "set (layout_leaves (l\<lparr>workspaces := wss\<rparr>)) = insert n (set (layout_leaves l))"
    "layout_ids (l\<lparr>workspaces := wss\<rparr>) \<subseteq> insert n (layout_ids l)"
    "p \<in> set (layout_leaves l)" "tid \<in> set (layout_tab_ids l)"
proof -
  obtain i ts where i: "i < length (workspaces l)"
    and st: "split_in_tabs p n d r (ws_tabs (workspaces l ! i)) = (Some tid, ts)"
    and wss: "wss = modify_at i (\<lambda>ws. ws\<lparr>ws_tabs := ts\<rparr>) (workspaces l)"
    using split_in_workspaces_Some[OF sp] by blast
  define ws where "ws = workspaces l ! i"
  define f where "f = (\<lambda>ws. ws\<lparr>ws_tabs := ts\<rparr> :: session_workspace)"
  obtain A t B where t: "ws_tabs ws = A @ t # B" "p \<in> set (leaves (tab_tree t))" "tid = tab_id t"
      "ts = A @ t\<lparr>tab_tree := snd (replace_leaf_with_ratio (tab_tree t) p n d r)\<rparr> # B"
    using split_in_tabs_Some[OF st] unfolding ws_def by blast
  obtain C E where CE: "leaves (tab_tree t) = C @ p # E"
      "leaves (snd (replace_leaf_with_ratio (tab_tree t) p n d r)) = C @ p # n # E"
    using replace_leaf_leaves[OF t(2)] by blast
  have l': "l\<lparr>workspaces := wss\<rparr> = modify_layout_ws i f l"
    by (simp add: modify_layout_ws_def wss f_def)
  note wsok = layout_ok_ws[OF ok i, folded ws_def]
  have sub: "set (ws_leaves ws) \<subseteq> set (layout_leaves l)"
    using ws_leaves_subset[OF i] by (simp add: ws_def)
  then have n': "n \<notin> set (ws_leaves ws)" using n by blast
  have fl: "set (ws_leaves (f ws)) = insert n (set (ws_leaves ws))"
    by (auto simp: ws_leaves_def f_def t CE)
  have ids: "map tab_id (ws_tabs (f ws)) = map tab_id (ws_tabs ws)" by (simp add: f_def t)
  show "layout_ok (l\<lparr>workspaces := wss\<rparr>)"
    unfolding l'
  proof (rule layout_ok_modify[OF ok i ws_def, where N = "{n}" and M = "{}"])
    show "ws_ok (f ws)"
      using wsok(1) by (auto simp: ws_ok_def f_def t CE)
    show "distinct (ws_leaves (f ws))"
      using wsok(2) n' by (auto simp: ws_leaves_def f_def t CE)
    show "distinct (map tab_id (ws_tabs (f ws)))" using wsok(3) ids by simp
    show "tab_id ` set (ws_tabs (f ws)) \<subseteq> tab_id ` set (ws_tabs ws) \<union> {}"
      using ids by (metis list.set_map sup_ge1)
  qed (use fl n in \<open>auto simp: f_def\<close>)
  show lv: "set (layout_leaves (l\<lparr>workspaces := wss\<rparr>)) = insert n (set (layout_leaves l))"
    unfolding l' by (subst layout_leaves_modify[OF ok i ws_def]) (use fl n sub in auto)
  have "set (layout_tab_ids (modify_layout_ws i f l)) \<subseteq> set (layout_tab_ids l)"
    using layout_tab_ids_modify[OF i ws_def, of f] ws_tab_ids_subset[OF i, folded ws_def] ids
    by (metis (no_types, lifting) Un_absorb2 list.set_map)
  moreover have "layout_ws_ids (modify_layout_ws i f l) = layout_ws_ids l"
    using i by (simp add: layout_ws_ids_def modify_layout_ws_def modify_at_def f_def map_update
        list_update_same_conv)
  ultimately show "layout_ids (l\<lparr>workspaces := wss\<rparr>) \<subseteq> insert n (layout_ids l)"
    using lv unfolding layout_ids_def l' by auto
  show "p \<in> set (layout_leaves l)" using sub t(1,2) by (auto simp: ws_leaves_def)
  show "tid \<in> set (layout_tab_ids l)"
    using ws_tab_ids_subset[OF i, folded ws_def] t(1,3) by auto
qed

lemma inv_split_body:
  assumes "sinv X D s" "n \<in> X" "n \<notin> dom (panes s)" "n \<notin> set (layout_leaves (layout s))"
    "dom (panes s) \<subseteq> set (layout_leaves (layout s)) \<union> Y" "Y \<subseteq> X"
    "split_pane_body fn p d r sz cwd n s = (res, s')"
  shows "sinv Y D s'"
proof -
  obtain rb s1 where sp: "pty_bridge_spawn sz cwd None None True s = (rb, s1)" by fastforce
  note f1 = spawn_fields[OF sp]
  show ?thesis
  proof (cases rb)
    case (Inl e)
    have "sinv Y D s1"
      by (rule inv_weaken[of X D]) (use assms f1 in \<open>auto simp: inv_spawn[OF sp]\<close>)
    then show ?thesis using assms(7) sp Inl by (simp add: split_pane_body_def)
  next
    case (Inr b)
    define s2 where "s2 = push_order n (insert_pane n (new_pane_state n b
      (case cwd of Some c \<Rightarrow> c | None \<Rightarrow> home_dir_fallback s1) sz) s1)"
    have i2: "sinv X D s2"
      unfolding s2_def by (rule inv_register) (use assms f1 in \<open>auto simp: inv_spawn[OF sp]\<close>)
    obtain found wss where w: "split_in_workspaces p n d r (workspaces (layout s2)) = (found, wss)"
      by fastforce
    have body: "split_pane_body fn p d r sz cwd n s =
       (case (found, wss) of
          (None, wss) \<Rightarrow> (Inl (pty_err (fn @ '': pane {pane_id} not found in any tab tree'') [AUuid p]),
             os_do (DropPty (pb_pty b))
               (s2\<lparr>layout := (layout s2)\<lparr>workspaces := wss\<rparr>,
                   panes := map_remove n (panes s2),
                   pane_order := removeAll n (pane_order s2)\<rparr>))
        | (Some tid, wss) \<Rightarrow> (Inr n, spawn_drain_task n (send_event (PaneSplit tid p n d)
             (send_event (PaneCreated n) (s2\<lparr>layout := (layout s2)\<lparr>workspaces := wss\<rparr>\<rparr>)))))"
      unfolding split_pane_body_def sp Inr prod.case sum.case Let_def s2_def[symmetric] w
      by (simp split: option.split)
    have dp: "dom (panes s2) = insert n (dom (panes s))" using f1 by (simp add: s2_def)
    have ly: "layout s2 = layout s" using f1 by (simp add: s2_def)
    show ?thesis
    proof (cases found)
      case None
      have "wss = workspaces (layout s2)" using split_in_workspaces_None w None by blast
      then have l: "layout s2\<lparr>workspaces := wss\<rparr> = layout s2" by simp
      have "sinv Y D (s2\<lparr>layout := layout s2, panes := map_remove n (panes s2),
                          pane_order := removeAll n (pane_order s2)\<rparr>)"
        using i2 assms(3,4,5,6) dp ly invD(7)[OF assms(1)] f1
        unfolding sinv_def supply_ok_def logs_ok_def
        by (auto simp: s2_def distinct_removeAll)
      then show ?thesis using assms(7) body None l by auto
    next
      case (Some tid)
      note sl = split_layout[OF invD(1)[OF i2] _ w[unfolded Some]]
      have "sinv Y D (s2\<lparr>layout := (layout s2)\<lparr>workspaces := wss\<rparr>\<rparr>)"
        using i2 sl assms(2,3,4,5,6) dp ly
        unfolding sinv_def supply_ok_def logs_ok_def by auto
      moreover have "n \<in> dom (panes s2)" using dp by simp
      ultimately show ?thesis using assms(7) body Some by (auto intro!: inv_spawn_drain)
    qed
  qed
qed

lemma inv_split_pane:
  assumes "sinv {} D s" "split_pane p d sz cwd s = (res, s')"
  shows "sinv {} D s'"
proof (cases "panes s p")
  case None
  then show ?thesis using assms by (simp add: split_pane_def)
next
  case (Some st)
  obtain n s1 where nu: "new_uuid s = (n, s1)" by fastforce
  note f = new_uuid_fields[OF nu] and i1 = inv_new_uuid[OF assms(1) nu]
  show ?thesis
    by (rule inv_split_body[OF i1(1), where n = n and Y = "{}"])
       (use assms(2) Some nu f i1 invD(5)[OF assms(1)] in \<open>auto simp: split_pane_def layout_ids_def\<close>)
qed

lemma inv_split_with_pane_id:
  assumes "sinv X D s" "n \<in> X" "n \<notin> dom (panes s)" "n \<notin> set (layout_leaves (layout s))"
    "dom (panes s) \<subseteq> set (layout_leaves (layout s)) \<union> Y" "Y \<subseteq> X"
    "split_pane_with_ratio_and_pane_id p d r sz cwd n s = (res, s')"
  shows "sinv Y D s'"
proof (cases "panes s p")
  case None
  then show ?thesis
    using assms by (auto simp: split_pane_with_ratio_and_pane_id_def intro: inv_weaken)
next
  case (Some st)
  show ?thesis
    by (rule inv_split_body[OF assms(1-6)])
       (use assms(7) Some in \<open>simp add: split_pane_with_ratio_and_pane_id_def\<close>)
qed

lemma inv_split_with_ratio:
  assumes "sinv {} D s" "split_pane_with_ratio p d r sz cwd s = (res, s')"
  shows "sinv {} D s'"
proof -
  obtain n s1 where nu: "new_uuid s = (n, s1)" by fastforce
  note f = new_uuid_fields[OF nu] and i1 = inv_new_uuid[OF assms(1) nu]
  show ?thesis
    by (rule inv_split_with_pane_id[OF i1(1), where n = n and Y = "{}"])
       (use assms(2) nu f i1 invD(5)[OF assms(1)] in \<open>auto simp: split_pane_with_ratio_def layout_ids_def\<close>)
qed

end
