(* ===== verification/SessionClose.thy ===== *)
theory SessionClose
  imports SessionSafe
begin

section \<open>Preservation: focus, order, input and output, closing, duplicating\<close>

subsection \<open>Operations that keep every leaf and id\<close>

text \<open>The rule for an update of the layout that keeps the leaves and ids of each workspace.\<close>

lemma inv_same_layout:
  assumes "sinv X D s" "map ws_leaves (workspaces l') = map ws_leaves (workspaces (layout s))"
    "map (map tab_id \<circ> ws_tabs) (workspaces l') =
     map (map tab_id \<circ> ws_tabs) (workspaces (layout s))"
    "map ws_id (workspaces l') = map ws_id (workspaces (layout s))"
    "\<forall>ws \<in> set (workspaces l'). ws_ok ws" "active_workspace l' < length (workspaces l')"
  shows "sinv X D (s\<lparr>layout := l'\<rparr>)"
  using layout_ok_same[OF invD(1)[OF assms(1)] assms(2-6)] assms(1)
  unfolding sinv_def supply_ok_def logs_ok_def by simp

lemma inv_modify_same:
  assumes "sinv X D s" "\<And>ws. i < ws_count s \<Longrightarrow> ws = workspaces (layout s) ! i \<Longrightarrow>
     ws_leaves (f ws) = ws_leaves ws \<and> map tab_id (ws_tabs (f ws)) = map tab_id (ws_tabs ws) \<and>
     ws_id (f ws) = ws_id ws \<and> ws_ok (f ws)"
  shows "sinv X D (modify_ws i f s)"
proof (cases "i < ws_count s")
  case True
  then have i: "i < length (workspaces (layout s))" by (simp add: ws_count_def)
  note f = assms(2)[OF True refl] and ok = invD(1)[OF assms(1)]
  have "sinv X D (s\<lparr>layout := modify_layout_ws i f (layout s)\<rparr>)"
  proof (rule inv_same_layout[OF assms(1)])
    show "\<forall>ws \<in> set (workspaces (modify_layout_ws i f (layout s))). ws_ok ws"
      using ok f i set_update_subset_insert[of "workspaces (layout s)" i]
      by (auto simp: modify_layout_ws_def modify_at_def layout_ok_def)
  qed (use f i ok in \<open>simp_all add: modify_layout_ws_def modify_at_def map_update
        list_update_same_conv layout_ok_def\<close>)
  then show ?thesis by (simp add: modify_ws_def modify_layout_ws_def)
next
  case False
  then have "modify_ws i f s = s" by (simp add: modify_ws_def modify_at_def ws_count_def)
  with assms(1) show ?thesis by simp
qed

lemma ws_ok_nth: "sinv X D s \<Longrightarrow> i < ws_count s \<Longrightarrow> ws_ok (workspaces (layout s) ! i)"
  using layout_ok_ws(1) invD(1) by (metis ws_count_def)

lemma ws_leaves_map_tree:
  "(\<And>t. leaves (tab_tree (f t)) = leaves (tab_tree t)) \<Longrightarrow>
   ws_leaves (ws\<lparr>ws_tabs := map f (ws_tabs ws)\<rparr>) = ws_leaves ws"
  by (simp add: ws_leaves_def comp_def)

lemma inv_update_split_ratios:
  "sinv X D s \<Longrightarrow> sinv X D (update_split_ratios us s)"
proof (induction us s rule: update_split_ratios.induct)
  case (2 p r us s)
  define f where "f = (\<lambda>ws. ws\<lparr>ws_tabs :=
     map (update_tab_ratio p (f32_clamp (5/100) (95/100) r)) (ws_tabs ws)\<rparr> :: session_workspace)"
  have keep: "ws_leaves (f ws) = ws_leaves ws" "map tab_id (ws_tabs (f ws)) = map tab_id (ws_tabs ws)"
    "ws_id (f ws) = ws_id ws" "ws_ok (f ws) = ws_ok ws" for ws
    unfolding f_def by (simp_all add: ws_leaves_map_tree update_tab_ratio_def comp_def ws_ok_def)
  have "sinv X D (s\<lparr>layout := (layout s)\<lparr>workspaces := map f (workspaces (layout s))\<rparr>\<rparr>)"
    by (rule inv_same_layout[OF "2.prems"])
       (use keep invD(1)[OF "2.prems"] in \<open>auto simp: comp_def layout_ok_def\<close>)
  then show ?case
    using "2.IH"[OF refl] by (simp add: f_def Let_def)
qed simp

lemma inv_panes_update:
  assumes "sinv X D s" "panes s p = Some st" "ps_id st' = ps_id st"
  shows "sinv X D (s\<lparr>panes := (panes s)(p \<mapsto> st')\<rparr>)"
  using assms unfolding sinv_def supply_ok_def logs_ok_def by (auto simp: domIff)

lemma inv_set_pane_cwd: "sinv X D s \<Longrightarrow> sinv X D (set_pane_cwd p c s)"
  by (auto simp: set_pane_cwd_def split: option.splits intro: inv_panes_update)

lemma inv_set_pinned: "sinv X D (set_pinned b s) = sinv X D s"
  unfolding set_pinned_def by (rule inv_cong) simp_all

lemma inv_set_byte_log_config: "sinv X D (set_byte_log_config k m s) = sinv X D s"
  unfolding set_byte_log_config_def by (rule inv_cong) simp_all

lemma inv_rename_workspace:
  assumes "sinv X D s" "rename_workspace i name s = (r, s')"
  shows "sinv X D s'"
proof -
  have "sinv X D (modify_ws i (\<lambda>ws. ws\<lparr>ws_name := name\<rparr>) s)"
    by (rule inv_modify_same[OF assms(1)])
       (use ws_ok_nth[OF assms(1)] in \<open>auto simp: ws_leaves_def ws_ok_def\<close>)
  then show ?thesis using assms by (auto simp: rename_workspace_def Let_def split: if_splits)
qed

lemma inv_set_workspace_color:
  assumes "sinv X D s" "set_workspace_color i c s = (r, s')"
  shows "sinv X D s'"
proof -
  have "sinv X D (modify_ws i (\<lambda>ws. ws\<lparr>ws_color := c\<rparr>) s)"
    by (rule inv_modify_same[OF assms(1)])
       (use ws_ok_nth[OF assms(1)] in \<open>auto simp: ws_leaves_def ws_ok_def\<close>)
  then show ?thesis using assms by (auto simp: set_workspace_color_def Let_def split: if_splits)
qed

lemma inv_set_active_tab:
  assumes "sinv X D s" "set_active_tab i j s = (r, s')"
  shows "sinv X D s'"
proof (cases "i < ws_count s \<and> j < length (ws_tabs (workspaces (layout s) ! i))")
  case True
  then have "sinv X D (modify_ws i (\<lambda>ws. ws\<lparr>ws_active_tab := j\<rparr>) s)"
    by (intro inv_modify_same[OF assms(1)])
       (use ws_ok_nth[OF assms(1)] in \<open>auto simp: ws_leaves_def ws_ok_def\<close>)
  with True show ?thesis using assms by (auto simp: set_active_tab_def Let_def)
next
  case False
  then show ?thesis using assms by (auto simp: set_active_tab_def Let_def split: if_splits)
qed

lemma inv_set_active_workspace:
  assumes "sinv X D s" "set_active_workspace i s = (r, s')"
  shows "sinv X D s'"
proof (cases "i < ws_count s")
  case True
  then have "sinv X D (s\<lparr>layout := (layout s)\<lparr>active_workspace := i\<rparr>\<rparr>)"
    by (intro inv_same_layout[OF assms(1)])
       (use invD(1)[OF assms(1)] in \<open>auto simp: layout_ok_def ws_count_def\<close>)
  with True show ?thesis using assms by (auto simp: set_active_workspace_def split: if_splits)
next
  case False
  then show ?thesis using assms by (auto simp: set_active_workspace_def)
qed

lemma inv_set_active_pane:
  assumes "sinv X D s" "set_active_pane i tid p s = (r, s')"
  shows "sinv X D s'"
proof (cases "s' = s")
  case False
  define ws where "ws = workspaces (layout s) ! i"
  from False assms(2) obtain j where i: "i < ws_count s"
    and j: "position (\<lambda>t. tab_id t = tid) (ws_tabs ws) = Some j"
    and leaf: "\<forall>q. p = Some q \<longrightarrow> q \<in> set (leaves (tab_tree (ws_tabs ws ! j)))"
    and s': "s' = send_event (ActivePaneChanged i tid p)
       (modify_ws i (\<lambda>ws. ws\<lparr>ws_tabs := modify_at j (\<lambda>t. t\<lparr>active_pane_id := p\<rparr>) (ws_tabs ws)\<rparr>) s)"
    by (auto simp: set_active_pane_def Let_def ws_def split: if_splits option.splits)
  from j obtain A t B where AB: "ws_tabs ws = A @ t # B" "length A = j" "ws_tabs ws ! j = t"
    by (auto simp: position_Some_iff elim: nth_split)
  have "sinv X D (modify_ws i
      (\<lambda>ws. ws\<lparr>ws_tabs := modify_at j (\<lambda>t. t\<lparr>active_pane_id := p\<rparr>) (ws_tabs ws)\<rparr>) s)"
    by (rule inv_modify_same[OF assms(1)])
       (use ws_ok_nth[OF assms(1) i] AB leaf in \<open>auto simp: ws_leaves_def ws_ok_def ws_def[symmetric]\<close>)
  then show ?thesis by (simp add: s')
qed (use assms in simp)

text \<open>Swapping two workspaces permutes the leaves and ids.\<close>

lemma inv_permuted_layout:
  assumes "sinv X D s" "mset (workspaces l') = mset (workspaces (layout s))"
    "active_workspace l' < length (workspaces l')"
  shows "sinv X D (s\<lparr>layout := l'\<rparr>)"
proof -
  have m: "mset (concat (map g (workspaces l'))) = mset (concat (map g (workspaces (layout s))))"
    for g :: "session_workspace \<Rightarrow> nat list"
    using assms(2) by (rule mset_concat_map)
  have st: "set (workspaces l') = set (workspaces (layout s))"
    using assms(2) by (metis set_mset_mset)
  have "distinct (layout_leaves l') = distinct (layout_leaves (layout s))"
    "set (layout_leaves l') = set (layout_leaves (layout s))"
    "distinct (layout_tab_ids l') = distinct (layout_tab_ids (layout s))"
    "set (layout_tab_ids l') = set (layout_tab_ids (layout s))"
    using m[of ws_leaves] m[of "map tab_id \<circ> ws_tabs"]
    by (metis mset_eq_imp_distinct_iff mset_eq_setD layout_leaves_def ws_tab_ids_simp)+
  moreover have "mset (layout_ws_ids l') = mset (layout_ws_ids (layout s))"
    using assms(2) by (simp add: layout_ws_ids_def)
  then have "distinct (layout_ws_ids l') = distinct (layout_ws_ids (layout s))"
    "set (layout_ws_ids l') = set (layout_ws_ids (layout s))"
    by (metis mset_eq_imp_distinct_iff mset_eq_setD)+
  ultimately show ?thesis
    using assms(1,3) st unfolding sinv_def supply_ok_def logs_ok_def layout_ok_def layout_ids_def
    by simp
qed

lemma inv_move_workspace:
  assumes "sinv X D s" "move_workspace i j s = (r, s')"
  shows "sinv X D s'"
proof (cases "i < ws_count s \<and> j < ws_count s \<and> i \<noteq> j")
  case True
  define act where "act = active_workspace (layout s)"
  define l' where "l' = \<lparr>workspaces = vec_swap i j (workspaces (layout s)), active_workspace =
     (if act = i then j else if act = j then i else act)\<rparr>"
  have "sinv X D (s\<lparr>layout := l'\<rparr>)"
    by (rule inv_permuted_layout[OF assms(1)])
       (use True invD(1)[OF assms(1)] in
         \<open>auto simp: l'_def act_def layout_ok_def ws_count_def mset_vec_swap\<close>)
  with True show ?thesis
    using assms(2) by (auto simp: move_workspace_def l'_def act_def Let_def)
next
  case False
  then show ?thesis using assms by (auto simp: move_workspace_def Let_def split: if_splits)
qed

subsection \<open>Shrinking or permuting one workspace\<close>

lemma inv_modify_shrink:
  assumes i: "sinv X D s" "i < ws_count s" and ws: "ws = workspaces (layout s) ! i"
    and f: "ws_ok (f ws)" "ws_id (f ws) = ws_id ws" "distinct (ws_leaves (f ws))"
      "set (ws_leaves (f ws)) \<subseteq> set (ws_leaves ws)" "distinct (map tab_id (ws_tabs (f ws)))"
      "tab_id ` set (ws_tabs (f ws)) \<subseteq> tab_id ` set (ws_tabs ws)"
  shows "sinv (X \<union> (set (ws_leaves ws) - set (ws_leaves (f ws)))) D (modify_ws i f s)"
    "set (layout_leaves (layout (modify_ws i f s))) =
       set (layout_leaves (layout s)) - (set (ws_leaves ws) - set (ws_leaves (f ws)))"
proof -
  let ?l = "layout s" and ?l' = "modify_layout_ws i f (layout s)"
  note ok = invD(1)[OF i(1)]
  have len: "i < length (workspaces ?l)" using i(2) by (simp add: ws_count_def)
  note wsok = layout_ok_ws[OF ok len, folded ws]
  have sub: "set (ws_leaves ws) \<subseteq> set (layout_leaves ?l)"
    using ws_leaves_subset[OF len] ws by simp
  have lok: "layout_ok ?l'"
    by (rule layout_ok_modify[OF ok len ws, where f = f and N = "{}" and M = "{}"]) (use f in auto)
  have lv: "set (layout_leaves ?l') =
      set (layout_leaves ?l) - (set (ws_leaves ws) - set (ws_leaves (f ws)))"
    by (subst layout_leaves_modify[OF ok len ws]) (use f(4) sub in auto)
  then show "set (layout_leaves (layout (modify_ws i f s))) =
       set (layout_leaves (layout s)) - (set (ws_leaves ws) - set (ws_leaves (f ws)))" by simp
  have "set (layout_tab_ids ?l') \<subseteq> set (layout_tab_ids ?l)"
    using layout_tab_ids_modify[OF len ws, of f] ws_tab_ids_subset[OF len] f(6) ws by blast
  moreover have "layout_ws_ids ?l' = layout_ws_ids ?l"
    using len f(2) ws by (simp add: layout_ws_ids_def modify_layout_ws_def modify_at_def map_update
        list_update_same_conv)
  ultimately have "layout_ids ?l' \<subseteq> layout_ids ?l"
    using lv by (auto simp: layout_ids_def)
  moreover have "set (ws_leaves ws) \<subseteq> layout_ids ?l" using sub by (auto simp: layout_ids_def)
  ultimately have "supply_ok (X \<union> (set (ws_leaves ws) - set (ws_leaves (f ws)))) (modify_ws i f s)"
    using invD(9)[OF i(1)] by (auto simp: supply_ok_def)
  then show "sinv (X \<union> (set (ws_leaves ws) - set (ws_leaves (f ws)))) D (modify_ws i f s)"
    using i(1) lok lv unfolding sinv_def by (auto simp: logs_ok_def)
qed

lemma find_tab_Some:
  "find_tab tid wss = Some (i, j) \<Longrightarrow>
   i < length wss \<and> j < length (ws_tabs (wss ! i)) \<and> tab_id (ws_tabs (wss ! i) ! j) = tid"
  by (induction wss arbitrary: i) (auto simp: position_Some_iff split: option.splits)

lemma find_tab_None:
  "find_tab tid wss = None \<longleftrightarrow> (\<forall>ws \<in> set wss. \<forall>t \<in> set (ws_tabs ws). tab_id t \<noteq> tid)"
proof (induction wss)
  case (Cons ws wss)
  show ?case
  proof (cases "position (\<lambda>t. tab_id t = tid) (ws_tabs ws)")
    case None
    then have "\<forall>t \<in> set (ws_tabs ws). tab_id t \<noteq> tid" by (simp add: position_None_iff)
    with Cons None show ?thesis by simp
  next
    case (Some k)
    moreover from this have "ws_tabs ws ! k \<in> set (ws_tabs ws)" "tab_id (ws_tabs ws ! k) = tid"
      by (simp_all add: position_Some_iff)
    ultimately show ?thesis by auto
  qed
qed simp

text \<open>What \<open>move_tab\<close> does to one workspace: the active tab is the same tab as before.\<close>

lemma move_tab_in_ws_props:
  assumes ok: "ws_ok ws" and d: "distinct (map tab_id (ws_tabs ws))"
    and c: "c < length (ws_tabs ws)" and t: "t < length (ws_tabs ws)"
  shows "mset (ws_tabs (move_tab_in_ws c t ws)) = mset (ws_tabs ws)"
    "ws_id (move_tab_in_ws c t ws) = ws_id ws" "ws_ok (move_tab_in_ws c t ws)"
    "ws_tabs (move_tab_in_ws c t ws) = vec_insert t (ws_tabs ws ! c) (vec_remove c (ws_tabs ws))"
    "ws_tabs (move_tab_in_ws c t ws) ! ws_active_tab (move_tab_in_ws c t ws) =
     ws_tabs ws ! ws_active_tab ws"
proof -
  define ts where "ts = vec_insert t (ws_tabs ws ! c) (vec_remove c (ws_tabs ws))"
  have m: "mset ts = mset (ws_tabs ws)"
    using mset_vec_remove[OF c] by (simp add: ts_def)
  then have st: "set ts = set (ws_tabs ws)" by (metis set_mset_mset)
  have act: "ws_active_tab ws < length (ws_tabs ws)"
    using ok c by (cases "ws_tabs ws") (auto simp: ws_ok_def)
  define a where "a = ws_tabs ws ! ws_active_tab ws"
  have "a \<in> set ts" using act st by (simp add: a_def)
  then have "position (\<lambda>t. tab_id t = tab_id a) ts \<noteq> None" by (auto simp: position_None_iff)
  then obtain k where k: "position (\<lambda>t. tab_id t = tab_id a) ts = Some k" by blast
  then have kl: "k < length ts" "tab_id (ts ! k) = tab_id a" by (auto simp: position_Some_iff)
  have "ts ! k \<in> set (ws_tabs ws)" using kl st by (metis nth_mem)
  then have ka: "ts ! k = a"
    using kl(2) d act by (metis a_def distinct_map inj_onD nth_mem)
  have eq: "move_tab_in_ws c t ws = ws\<lparr>ws_tabs := ts, ws_active_tab := k\<rparr>"
    using act k by (simp add: move_tab_in_ws_def vec_get_def ts_def a_def Let_def)
  show "mset (ws_tabs (move_tab_in_ws c t ws)) = mset (ws_tabs ws)"
    "ws_id (move_tab_in_ws c t ws) = ws_id ws"
    "ws_tabs (move_tab_in_ws c t ws) = vec_insert t (ws_tabs ws ! c) (vec_remove c (ws_tabs ws))"
    "ws_tabs (move_tab_in_ws c t ws) ! ws_active_tab (move_tab_in_ws c t ws) =
     ws_tabs ws ! ws_active_tab ws"
    unfolding eq using m ka by (simp_all add: ts_def a_def)
  show "ws_ok (move_tab_in_ws c t ws)"
    using ok kl(1) st by (auto simp: eq ws_ok_def)
qed

lemma ws_leaves_mset:
  "mset (ws_tabs ws') = mset (ws_tabs ws) \<Longrightarrow> mset (ws_leaves ws') = mset (ws_leaves ws)"
  unfolding ws_leaves_def by (rule mset_concat_map)

lemma inv_move_tab:
  assumes "sinv X D s" "move_tab tid k s = (r, s')"
  shows "sinv X D s'"
proof (cases "s' = s")
  case False
  from False assms(2) obtain i c where ic: "find_tab tid (workspaces (layout s)) = Some (i, c)"
    and s': "s' = send_event (TabMoved i tid (min k (length (ws_tabs (workspaces (layout s) ! i)) - 1)))
       (modify_ws i (move_tab_in_ws c (min k (length (ws_tabs (workspaces (layout s) ! i)) - 1))) s)"
    by (auto simp: move_tab_def Let_def split: option.splits if_splits)
  define ws where "ws = workspaces (layout s) ! i"
  define t where "t = min k (length (ws_tabs ws) - 1)"
  have i: "i < ws_count s" and c: "c < length (ws_tabs ws)"
    using find_tab_Some[OF ic] by (auto simp: ws_count_def ws_def)
  then have t: "t < length (ws_tabs ws)" by (auto simp: t_def)
  note wsok = layout_ok_ws[OF invD(1)[OF assms(1)], of i, folded ws_def]
  have ok: "ws_ok ws" "distinct (ws_leaves ws)" "distinct (map tab_id (ws_tabs ws))"
    using wsok i by (auto simp: ws_count_def)
  note mv = move_tab_in_ws_props[OF ok(1,3) c t]
  have ml: "mset (ws_leaves (move_tab_in_ws c t ws)) = mset (ws_leaves ws)"
    using mv(1) by (rule ws_leaves_mset)
  have "sinv (X \<union> (set (ws_leaves ws) - set (ws_leaves (move_tab_in_ws c t ws)))) D
      (modify_ws i (move_tab_in_ws c t) s)"
  proof (rule inv_modify_shrink(1)[OF assms(1) i ws_def, where f = "move_tab_in_ws c t"])
    show "ws_ok (move_tab_in_ws c t ws)" "ws_id (move_tab_in_ws c t ws) = ws_id ws"
      by (rule mv(3), rule mv(2))
    show "distinct (ws_leaves (move_tab_in_ws c t ws))"
      using ml ok(2) by (metis mset_eq_imp_distinct_iff)
    show "set (ws_leaves (move_tab_in_ws c t ws)) \<subseteq> set (ws_leaves ws)"
      using ml by (metis mset_eq_setD order.refl)
    show "distinct (map tab_id (ws_tabs (move_tab_in_ws c t ws)))"
      using mv(1) ok(3) by (metis mset_eq_imp_distinct_iff mset_map)
    show "tab_id ` set (ws_tabs (move_tab_in_ws c t ws)) \<subseteq> tab_id ` set (ws_tabs ws)"
      using mv(1) by (metis mset_eq_setD order.refl)
  qed
  moreover have "set (ws_leaves (move_tab_in_ws c t ws)) = set (ws_leaves ws)"
    using ml by (metis mset_eq_setD)
  ultimately show ?thesis by (simp add: s' t_def ws_def)
qed (use assms in simp)

subsection \<open>Input and output\<close>

lemma inv_write_pty: "sinv X D s \<Longrightarrow> write_pty p d s = (r, s') \<Longrightarrow> sinv X D s'"
  by (auto simp: write_pty_def Let_def split: option.splits)

lemma inv_resize_pane: "sinv X D s \<Longrightarrow> resize_pane p sz s = (r, s') \<Longrightarrow> sinv X D s'"
  by (auto simp: resize_pane_def Let_def split: option.splits intro!: inv_panes_update)

lemma refresh_cwd_id [simp]: "ps_id (refresh_cwd w st) = ps_id st"
  by (simp add: refresh_cwd_def split: option.splits)

lemma inv_byte_log_update:
  assumes "sinv X D s" "byte_logs s p = Some l" "log_wf l'"
  shows "sinv X D (s\<lparr>byte_logs := (byte_logs s)(p \<mapsto> l')\<rparr>)"
  using assms unfolding sinv_def supply_ok_def logs_ok_def by (auto simp: domIff)

lemma inv_process_pane_bytes:
  assumes "sinv X D s" "process_pane_bytes p bs s = (r, s')"
  shows "sinv X D s'"
proof (cases "panes s p")
  case (Some st)
  define s1 where "s1 = s\<lparr>panes := (panes s)(p \<mapsto> refresh_cwd (world s) st)\<rparr>"
  have i1: "sinv X D s1"
    unfolding s1_def by (rule inv_panes_update[OF assms(1) Some]) simp
  have wf: "byte_logs s1 p = Some l \<Longrightarrow> log_wf (log_append l bs)" for l
    using invD(8)[OF i1] by (auto simp: logs_ok_def intro: log_wf_append)
  have "s' = send_event (PtyOutput p bs) (case byte_logs s1 p of None \<Rightarrow> s1
      | Some l \<Rightarrow> s1\<lparr>byte_logs := (byte_logs s1)(p \<mapsto> log_append l bs)\<rparr>)"
    using assms(2) Some unfolding process_pane_bytes_def s1_def Let_def by simp
  then show ?thesis
    using i1 wf by (auto split: option.splits intro: inv_byte_log_update)
qed (use assms in \<open>auto simp: process_pane_bytes_def\<close>)

lemma inv_close_pane_byte_log: "sinv X D s \<Longrightarrow> sinv X D (close_pane_byte_log p s)"
  unfolding close_pane_byte_log_def sinv_def supply_ok_def logs_ok_def by auto

lemma inv_refresh_pane_cwds: "sinv X D s \<Longrightarrow> sinv X D (refresh_pane_cwds s)"
  unfolding refresh_pane_cwds_def sinv_def supply_ok_def logs_ok_def
  by (auto simp: dom_map_option_comp)

lemma inv_send_sigint: "sinv X D s \<Longrightarrow> sinv X D (send_sigint p s)"
  by (auto simp: send_sigint_def split: option.splits)

lemma inv_kill_all: "sinv X D s \<Longrightarrow> sinv X D (kill_all c ps s)"
proof -
  have "sinv X D s \<Longrightarrow> sinv X D (fold (\<lambda>p s. case panes s p of
      None \<Rightarrow> s | Some st \<Rightarrow> os_do (KillPty (pb_pty (ps_bridge st))) s) ps s)"
    by (induction ps arbitrary: s) (auto split: option.splits)
  then show "sinv X D s \<Longrightarrow> sinv X D (kill_all c ps s)" by simp
qed

subsection \<open>Closing a tab\<close>

lemma close_pane_of_tab_fields [simp]:
  "layout (close_pane_of_tab p s) = layout s" "world (close_pane_of_tab p s) = world s"
  "dom (panes (close_pane_of_tab p s)) = dom (panes s) - {p}"
  by (auto simp: close_pane_of_tab_def Let_def split: option.splits)

lemma inv_close_pane_of_tab:
  assumes "sinv X D s" "p \<notin> set (layout_leaves (layout s))"
  shows "sinv X D (close_pane_of_tab p s)"
  using assms unfolding sinv_def supply_ok_def logs_ok_def
  by (auto simp: close_pane_of_tab_def Let_def distinct_removeAll split: option.splits)

lemma inv_close_panes_of_tab:
  assumes "sinv X D s" "set ps \<inter> set (layout_leaves (layout s)) = {}"
  shows "sinv X D (fold close_pane_of_tab ps s) \<and>
         layout (fold close_pane_of_tab ps s) = layout s \<and>
         world (fold close_pane_of_tab ps s) = world s \<and>
         dom (panes (fold close_pane_of_tab ps s)) = dom (panes s) - set ps"
  using assms
proof (induction ps arbitrary: s)
  case (Cons p ps)
  have "sinv X D (close_pane_of_tab p s)"
    using Cons.prems by (intro inv_close_pane_of_tab) auto
  then show ?case using Cons.IH[of "close_pane_of_tab p s"] Cons.prems by auto
qed simp

definition remove_tab_at :: "nat \<Rightarrow> session_workspace \<Rightarrow> session_workspace" where
  "remove_tab_at j ws = clamp_active_tab (ws\<lparr>ws_tabs := vec_remove j (ws_tabs ws)\<rparr>)"

lemma clamp_active_tab_fields [simp]:
  "ws_tabs (clamp_active_tab ws) = ws_tabs ws" "ws_id (clamp_active_tab ws) = ws_id ws"
  "ws_name (clamp_active_tab ws) = ws_name ws" "ws_color (clamp_active_tab ws) = ws_color ws"
  "ws_leaves (clamp_active_tab ws) = ws_leaves ws"
  by (simp_all add: clamp_active_tab_def ws_leaves_def)

lemma remove_tab_at_props:
  assumes ok: "ws_ok ws" "distinct (ws_leaves ws)" and j: "j < length (ws_tabs ws)"
  shows "ws_ok (remove_tab_at j ws)" "ws_id (remove_tab_at j ws) = ws_id ws"
    "ws_tabs (remove_tab_at j ws) = vec_remove j (ws_tabs ws)"
    "distinct (ws_leaves (remove_tab_at j ws))"
    "set (ws_leaves (remove_tab_at j ws)) =
       set (ws_leaves ws) - set (leaves (tab_tree (ws_tabs ws ! j)))"
    "set (leaves (tab_tree (ws_tabs ws ! j))) \<subseteq> set (ws_leaves ws)"
proof -
  obtain A t B where AB: "ws_tabs ws = A @ t # B" "length A = j" "ws_tabs ws ! j = t"
    using nth_split[OF j] by metis
  have rm: "vec_remove j (ws_tabs ws) = A @ B" "vec_remove j (A @ t # B) = A @ B"
    "(A @ t # B) ! j = t" using AB by auto
  show "ws_id (remove_tab_at j ws) = ws_id ws"
    "ws_tabs (remove_tab_at j ws) = vec_remove j (ws_tabs ws)"
    by (simp_all add: remove_tab_at_def)
  show "ws_ok (remove_tab_at j ws)"
    using ok(1) AB(2) by (auto simp: ws_ok_def remove_tab_at_def clamp_active_tab_def rm AB(1,3))
  show "distinct (ws_leaves (remove_tab_at j ws))"
    "set (leaves (tab_tree (ws_tabs ws ! j))) \<subseteq> set (ws_leaves ws)"
    using ok(2) by (auto simp: ws_leaves_def remove_tab_at_def rm AB(1,3))
  show "set (ws_leaves (remove_tab_at j ws)) =
       set (ws_leaves ws) - set (leaves (tab_tree (ws_tabs ws ! j)))"
    using ok(2) by (auto simp: ws_leaves_def remove_tab_at_def rm AB(1,3))
qed

lemma modify_ws_comp: "modify_ws i g (modify_ws i f s) = modify_ws i (g \<circ> f) s"
  by (simp add: modify_ws_def modify_at_def)

text \<open>The state of \<open>close_tab\<close> when the search succeeds.\<close>

lemma close_tab_found:
  assumes "find_tab tid (workspaces (layout s)) = Some (i, j)"
  defines "t \<equiv> ws_tabs (workspaces (layout s) ! i) ! j"
  defines "s4 \<equiv> send_event (TabClosed i tid)
     (fold close_pane_of_tab (leaves (tab_tree t)) (modify_ws i (remove_tab_at j) s))"
  shows "close_tab tid s = (Inr (),
     if ws_tabs (workspaces (layout s4) ! i) = [] \<and> ws_count s4 > 1 then seed_and_drain i s4 else s4)"
proof -
  have rt: "remove_tab_at j = clamp_active_tab \<circ> (\<lambda>ws. ws\<lparr>ws_tabs := vec_remove j (ws_tabs ws)\<rparr>)"
    by (auto simp: remove_tab_at_def)
  show ?thesis
    using assms(1) by (simp add: close_tab_def Let_def t_def s4_def modify_ws_comp rt)
qed

lemma inv_close_tab_closed:
  assumes "sinv {} D s" "find_tab tid (workspaces (layout s)) = Some (i, j)"
  defines "t \<equiv> ws_tabs (workspaces (layout s) ! i) ! j"
  defines "s4 \<equiv> send_event (TabClosed i tid)
     (fold close_pane_of_tab (leaves (tab_tree t)) (modify_ws i (remove_tab_at j) s))"
  shows "sinv {} D s4"
    "set (layout_leaves (layout s4)) = set (layout_leaves (layout s)) - set (leaves (tab_tree t))"
    "dom (panes s4) = dom (panes s) - set (leaves (tab_tree t))"
proof -
  define ws where "ws = workspaces (layout s) ! i"
  have i: "i < length (workspaces (layout s))" and j: "j < length (ws_tabs ws)"
    using find_tab_Some[OF assms(2)] by (auto simp: ws_def)
  have i': "i < ws_count s" using i by (simp add: ws_count_def)
  note wsok = layout_ok_ws[OF invD(1)[OF assms(1)] i, folded ws_def]
  note rm = remove_tab_at_props[OF wsok(1,2) j]
  have t: "t = ws_tabs ws ! j" by (simp add: t_def ws_def)
  let ?s1 = "modify_ws i (remove_tab_at j) s"
  have dd: "set (ws_leaves ws) - set (ws_leaves (remove_tab_at j ws)) = set (leaves (tab_tree t))"
    using rm(5,6) t by auto
  have tabs: "distinct (map tab_id (ws_tabs (remove_tab_at j ws)))"
    "tab_id ` set (ws_tabs (remove_tab_at j ws)) \<subseteq> tab_id ` set (ws_tabs ws)"
    using wsok(3) unfolding rm(3) by - (rule nth_split[OF j], auto)+
  note sh = inv_modify_shrink[OF assms(1) i' ws_def, where f = "remove_tab_at j", unfolded dd, OF rm(1,2,4)]
  have s1: "sinv (set (leaves (tab_tree t))) D ?s1"
    "set (layout_leaves (layout ?s1)) = set (layout_leaves (layout s)) - set (leaves (tab_tree t))"
    using sh[OF _ tabs] rm(5) by auto
  have cl: "sinv (set (leaves (tab_tree t))) D s4 \<and> layout s4 = layout ?s1 \<and>
      dom (panes s4) = dom (panes s) - set (leaves (tab_tree t))"
    using inv_close_panes_of_tab[OF s1(1), of "leaves (tab_tree t)"] s1(2)
    by (auto simp: s4_def)
  then show fin: "set (layout_leaves (layout s4)) = set (layout_leaves (layout s)) - set (leaves (tab_tree t))"
    "dom (panes s4) = dom (panes s) - set (leaves (tab_tree t))"
    using s1(2) by auto
  have "dom (panes s4) \<subseteq> set (layout_leaves (layout s4)) \<union> {}"
    using fin invD(5)[OF assms(1)] by blast
  then show "sinv {} D s4"
    using cl inv_weaken[of "set (leaves (tab_tree t))" D s4 "{}" D] by simp
qed

lemma inv_close_tab:
  assumes "sinv {} D s" "close_tab tid s = (r, s')"
  shows "sinv {} D s'"
proof (cases "find_tab tid (workspaces (layout s))")
  case None
  then show ?thesis using assms by (simp add: close_tab_def)
next
  case (Some ij)
  then obtain i j where f: "find_tab tid (workspaces (layout s)) = Some (i, j)" by (cases ij) auto
  show ?thesis
    using inv_close_tab_closed(1)[OF assms(1) f] assms(2) close_tab_found[OF f]
    by (auto intro: inv_seed_and_drain split: if_splits)
qed

end
