(* ===== verification/SessionBulk.thy ===== *)
theory SessionBulk
  imports SessionClose
begin

section \<open>Preservation: closing a pane, deleting and duplicating a workspace\<close>

subsection \<open>Closing a pane\<close>

definition drop_leaf_tabs :: "pane_id \<Rightarrow> session_workspace \<Rightarrow> session_workspace" where
  "drop_leaf_tabs p ws = clamp_active_tab (ws\<lparr>ws_tabs := [t \<leftarrow> ws_tabs ws. tab_tree t \<noteq> Leaf p]\<rparr>)"

definition has_leaf_tab :: "pane_id \<Rightarrow> session_workspace \<Rightarrow> bool" where
  "has_leaf_tab p ws \<longleftrightarrow> (\<exists>t \<in> set (ws_tabs ws). tab_tree t = Leaf p)"

lemma remove_leaf_tabs_spec:
  "remove_leaf_tabs p k wss =
     (case position (has_leaf_tab p) wss of
        None \<Rightarrow> (None, wss)
      | Some i \<Rightarrow> (if ws_tabs (drop_leaf_tabs p (wss ! i)) = [] then Some (k + i) else None,
                  modify_at i (drop_leaf_tabs p) wss))"
proof (induction wss arbitrary: k)
  case (Cons ws wss)
  let ?tabs = "[t \<leftarrow> ws_tabs ws. tab_tree t \<noteq> Leaf p]"
  have len: "length (ws_tabs ws) \<noteq> length ?tabs \<longleftrightarrow> has_leaf_tab p ws"
    unfolding has_leaf_tab_def by (metis (mono_tags, lifting) filter_False filter_True
      length_filter_less less_irrefl)
  show ?case
  proof (cases "has_leaf_tab p ws")
    case True
    then show ?thesis
      using len by (simp add: drop_leaf_tabs_def modify_at_def Let_def)
  next
    case False
    then have "?tabs = ws_tabs ws" by (auto simp: has_leaf_tab_def intro: filter_True)
    with False len show ?thesis
      by (auto simp: Cons.IH modify_at_def Let_def split: option.splits)
  qed
qed simp

lemma drop_leaf_tabs_props:
  assumes ok: "ws_ok ws" "distinct (ws_leaves ws)" "distinct (map tab_id (ws_tabs ws))"
    and h: "has_leaf_tab p ws"
  shows "ws_ok (drop_leaf_tabs p ws)" "ws_id (drop_leaf_tabs p ws) = ws_id ws"
    "distinct (ws_leaves (drop_leaf_tabs p ws))"
    "set (ws_leaves (drop_leaf_tabs p ws)) = set (ws_leaves ws) - {p}"
    "p \<in> set (ws_leaves ws)"
    "distinct (map tab_id (ws_tabs (drop_leaf_tabs p ws)))"
    "tab_id ` set (ws_tabs (drop_leaf_tabs p ws)) \<subseteq> tab_id ` set (ws_tabs ws)"
    "\<exists>A t B. ws_tabs ws = A @ t # B \<and> tab_tree t = Leaf p \<and> ws_tabs (drop_leaf_tabs p ws) = A @ B"
proof -
  obtain A t B where AB: "ws_tabs ws = A @ t # B" "tab_tree t = Leaf p"
    using h unfolding has_leaf_tab_def by (metis split_list)
  have no: "\<forall>u \<in> set A \<union> set B. p \<notin> set (leaves (tab_tree u))"
    using ok(2) by (auto simp: ws_leaves_def AB)
  then have "[u \<leftarrow> A. tab_tree u \<noteq> Leaf p] = A" "[u \<leftarrow> B. tab_tree u \<noteq> Leaf p] = B"
    by (force intro!: filter_True)+
  then have f: "[u \<leftarrow> ws_tabs ws. tab_tree u \<noteq> Leaf p] = A @ B" using AB by simp
  then have tabs: "ws_tabs (drop_leaf_tabs p ws) = A @ B" by (simp add: drop_leaf_tabs_def)
  show "ws_id (drop_leaf_tabs p ws) = ws_id ws" by (simp add: drop_leaf_tabs_def)
  show "\<exists>A t B. ws_tabs ws = A @ t # B \<and> tab_tree t = Leaf p \<and> ws_tabs (drop_leaf_tabs p ws) = A @ B"
    using AB tabs by blast
  show "ws_ok (drop_leaf_tabs p ws)"
    using ok(1) f by (auto simp: ws_ok_def drop_leaf_tabs_def clamp_active_tab_def AB)
  show "distinct (ws_leaves (drop_leaf_tabs p ws))" "p \<in> set (ws_leaves ws)"
    "distinct (map tab_id (ws_tabs (drop_leaf_tabs p ws)))"
    "tab_id ` set (ws_tabs (drop_leaf_tabs p ws)) \<subseteq> tab_id ` set (ws_tabs ws)"
    using ok(2,3) by (auto simp: ws_leaves_def tabs AB)
  show "set (ws_leaves (drop_leaf_tabs p ws)) = set (ws_leaves ws) - {p}"
    using no by (auto simp: ws_leaves_def tabs AB)
qed

definition unregister :: "pane_id \<Rightarrow> session \<Rightarrow> session" where
  "unregister p s = s\<lparr>panes := map_remove p (panes s), byte_logs := map_remove p (byte_logs s),
                     pane_order := removeAll p (pane_order s)\<rparr>"

lemma unregister_fields [simp]:
  "layout (unregister p s) = layout s" "world (unregister p s) = world s"
  "panes (unregister p s) = map_remove p (panes s)"
  "byte_logs (unregister p s) = map_remove p (byte_logs s)"
  "pane_order (unregister p s) = removeAll p (pane_order s)"
  "events (unregister p s) = events s" "os_log (unregister p s) = os_log s"
  "ws_count (unregister p s) = ws_count s"
  by (simp_all add: unregister_def ws_count_def)

lemma inv_unregister:
  assumes "sinv X D s"
  shows "sinv X (insert p D) (unregister p s)"
  using assms unfolding sinv_def supply_ok_def logs_ok_def
  by (auto simp: distinct_removeAll)

text \<open>\<open>close_pane\<close> in one piece: the layout change, the registry change, the seeding.\<close>

definition close_pane_layout :: "pane_id \<Rightarrow> session \<Rightarrow> session" where
  "close_pane_layout p s =
     (case position (has_leaf_tab p) (workspaces (layout s)) of
        None \<Rightarrow> s | Some i \<Rightarrow> modify_ws i (drop_leaf_tabs p) s)"

lemma close_pane_registered:
  assumes "panes s p = Some st"
  defines "s2 \<equiv> send_event (PaneClosed p) (os_do (KillPty (pb_pty (ps_bridge st)))
                  (unregister p (close_pane_layout p s)))"
  shows "close_pane p s = (Inr (),
     case position (has_leaf_tab p) (workspaces (layout s)) of
       None \<Rightarrow> s2
     | Some i \<Rightarrow> if ws_tabs (drop_leaf_tabs p (workspaces (layout s) ! i)) = [] \<and> ws_count s2 > 1
                then seed_and_drain i s2 else s2)"
proof -
  obtain e wss where r: "remove_leaf_tabs p 0 (workspaces (layout s)) = (e, wss)" by fastforce
  have s1: "s\<lparr>panes := map_remove p (panes s), byte_logs := map_remove p (byte_logs s),
        pane_order := removeAll p (pane_order s), layout := (layout s)\<lparr>workspaces := wss\<rparr>\<rparr> =
      unregister p (close_pane_layout p s)"
    using r by (auto simp: remove_leaf_tabs_spec unregister_def close_pane_layout_def modify_ws_def
        split: option.splits)
  have "close_pane p s = (Inr (), case e of
      Some i \<Rightarrow> if ws_count s2 > 1 then seed_and_drain i s2 else s2 | None \<Rightarrow> s2)"
    using assms(1) unfolding close_pane_def
    by (simp add: r s1 s2_def Let_def split: option.split)
  then show ?thesis using r by (auto simp: remove_leaf_tabs_spec split: option.splits if_splits)
qed

lemma close_pane_layout_inv:
  assumes "sinv {} D s"
  shows "sinv {} (insert p D) (unregister p (close_pane_layout p s))"
    "position (has_leaf_tab p) (workspaces (layout s)) \<noteq> None \<Longrightarrow>
       sinv {} D (unregister p (close_pane_layout p s)) \<and>
       set (layout_leaves (layout (close_pane_layout p s))) = set (layout_leaves (layout s)) - {p}"
    "panes (close_pane_layout p s) = panes s"
proof -
  show "panes (close_pane_layout p s) = panes s"
    by (simp add: close_pane_layout_def split: option.splits)
  have found: "sinv {} D (unregister p (close_pane_layout p s)) \<and>
       set (layout_leaves (layout (close_pane_layout p s))) = set (layout_leaves (layout s)) - {p}"
    if pos: "position (has_leaf_tab p) (workspaces (layout s)) = Some i" for i
  proof -
    define ws where "ws = workspaces (layout s) ! i"
    have i: "i < length (workspaces (layout s))" and h: "has_leaf_tab p ws"
      using pos by (auto simp: position_Some_iff ws_def)
    have i': "i < ws_count s" using i by (simp add: ws_count_def)
    note wsok = layout_ok_ws[OF invD(1)[OF assms] i, folded ws_def]
    note dr = drop_leaf_tabs_props[OF wsok h]
    have dd: "set (ws_leaves ws) - set (ws_leaves (drop_leaf_tabs p ws)) = {p}"
      using dr(4,5) by auto
    have sub: "set (ws_leaves (drop_leaf_tabs p ws)) \<subseteq> set (ws_leaves ws)" using dr(4) by auto
    note sh = inv_modify_shrink[OF assms i' ws_def, where f = "drop_leaf_tabs p", unfolded dd,
        OF dr(1,2,3) sub dr(6,7)]
    have l: "close_pane_layout p s = modify_ws i (drop_leaf_tabs p) s"
      using pos by (simp add: close_pane_layout_def)
    have 1: "sinv {p} (insert p D) (unregister p (close_pane_layout p s))"
      using inv_unregister[OF sh(1)] by (simp add: l)
    have "dom (panes (unregister p (close_pane_layout p s))) \<subseteq>
          set (layout_leaves (layout (unregister p (close_pane_layout p s)))) \<union> {}"
      using sh(2) invD(5)[OF assms] unfolding l by auto
    then have 2: "sinv {} (insert p D) (unregister p (close_pane_layout p s))"
      using inv_weaken[OF 1] by blast
    moreover have "p \<notin> set (layout_leaves (layout (unregister p (close_pane_layout p s))))"
      using sh(2) by (simp add: l)
    ultimately have "sinv {} D (unregister p (close_pane_layout p s))"
      unfolding sinv_def by blast
    then show ?thesis using sh(2) by (simp add: l)
  qed
  then show "position (has_leaf_tab p) (workspaces (layout s)) \<noteq> None \<Longrightarrow>
       sinv {} D (unregister p (close_pane_layout p s)) \<and>
       set (layout_leaves (layout (close_pane_layout p s))) = set (layout_leaves (layout s)) - {p}"
    by auto
  show "sinv {} (insert p D) (unregister p (close_pane_layout p s))"
  proof (cases "position (has_leaf_tab p) (workspaces (layout s))")
    case None
    then show ?thesis using inv_unregister[OF assms] by (simp add: close_pane_layout_def)
  next
    case (Some i)
    then show ?thesis using found[OF Some] by (auto intro: inv_more_dead)
  qed
qed

lemma inv_close_pane:
  assumes "sinv {} D s" "close_pane p s = (r, s')"
  shows "sinv {} (insert p D) s'"
    "position (has_leaf_tab p) (workspaces (layout s)) \<noteq> None \<Longrightarrow> sinv {} D s'"
proof -
  note cl = close_pane_layout_inv[OF assms(1), of p]
  have "sinv {} E s'" if "sinv {} E (unregister p (close_pane_layout p s))"
    "sinv {} E s" for E
  proof (cases "panes s p")
    case None
    then show ?thesis using that assms by (simp add: close_pane_def)
  next
    case (Some st)
    show ?thesis
      using that assms(2) close_pane_registered[OF Some]
      by (auto intro!: inv_seed_and_drain split: option.splits if_splits)
  qed
  then show "sinv {} (insert p D) s'"
    "position (has_leaf_tab p) (workspaces (layout s)) \<noteq> None \<Longrightarrow> sinv {} D s'"
    using cl(1,2) assms(1) inv_more_dead[OF assms(1), of "insert p D"] by auto
qed

subsection \<open>Inserting and removing a workspace\<close>

lemma inv_insert_ws:
  assumes i: "sinv X D s" "k \<le> ws_count s" and w: "ws_ok ws"
    and l: "distinct (ws_leaves ws)" "set (ws_leaves ws) \<inter> set (layout_leaves (layout s)) = {}"
      "set (ws_leaves ws) \<subseteq> X" "set (ws_leaves ws) \<subseteq> dom (panes s) \<union> D"
    and t: "distinct (map tab_id (ws_tabs ws))"
      "tab_id ` set (ws_tabs ws) \<inter> set (layout_tab_ids (layout s)) = {}"
      "tab_id ` set (ws_tabs ws) \<subseteq> X"
    and u: "ws_id ws \<notin> set (layout_ws_ids (layout s))" "ws_id ws \<in> X"
    and a: "act < Suc (ws_count s)"
    and Y: "Y \<subseteq> X" "dom (panes s) \<subseteq> set (layout_leaves (layout s)) \<union> set (ws_leaves ws) \<union> Y"
  shows "sinv Y D (s\<lparr>layout := \<lparr>workspaces = vec_insert k ws (workspaces (layout s)),
                                active_workspace = act\<rparr>\<rparr>)"
proof -
  obtain A B where AB: "workspaces (layout s) = A @ B" "length A = k"
    using i(2) insert_split unfolding ws_count_def by metis
  define l' where "l' = \<lparr>workspaces = vec_insert k ws (workspaces (layout s)), active_workspace = act\<rparr>"
  have w': "workspaces l' = A @ ws # B" using AB by (auto simp: l'_def)
  note ok = invD(1)[OF i(1)]
  have "distinct (layout_leaves l')" "distinct (layout_tab_ids l')"
    using distinct_insert_middle[of "concat (map ws_leaves A)" "concat (map ws_leaves B)" "ws_leaves ws"]
      distinct_insert_middle[of "concat (map (map tab_id \<circ> ws_tabs) A)"
        "concat (map (map tab_id \<circ> ws_tabs) B)" "map tab_id (ws_tabs ws)"]
      ok l(1,2) t(1,2)
    by (simp_all add: layout_ok_def layout_leaves_def ws_tab_ids_simp w' AB(1))
  moreover have "distinct (layout_ws_ids l')" "\<forall>w \<in> set (workspaces l'). ws_ok w"
    "active_workspace l' < length (workspaces l')"
    using ok u(1) w a by (auto simp: layout_ok_def layout_ws_ids_def w' AB(1) ws_count_def)
      (simp add: l'_def)
  ultimately have "layout_ok l'" by (simp add: layout_ok_def)
  moreover have lv: "set (layout_leaves l') = set (layout_leaves (layout s)) \<union> set (ws_leaves ws)"
    by (auto simp: layout_leaves_def w' AB)
  moreover have "layout_ids l' \<subseteq> layout_ids (layout s) \<union> X"
    using l(3) t(3) u(2) lv
    by (auto simp: layout_ids_def layout_leaves_def ws_tab_ids_simp layout_ws_ids_def w' AB)
  ultimately have "sinv Y D (s\<lparr>layout := l'\<rparr>)"
    using i(1) l(4) Y unfolding sinv_def supply_ok_def logs_ok_def by auto
  then show ?thesis by (simp add: l'_def)
qed

lemma inv_create_workspace:
  assumes "sinv {} D s" "create_workspace name s = (r, s')"
  shows "sinv {} D s'"
proof -
  obtain u s1 where nu: "new_uuid s = (u, s1)" by fastforce
  note f = new_uuid_fields[OF nu] and i1 = inv_new_uuid[OF assms(1) nu]
  define ws where
    "ws = \<lparr>ws_id = u, ws_name = name, ws_tabs = [], ws_active_tab = 0, ws_color = None\<rparr>"
  have "sinv {} D (s1\<lparr>layout := \<lparr>workspaces = vec_insert (ws_count s1) ws (workspaces (layout s1)),
          active_workspace = active_workspace (layout s1)\<rparr>\<rparr>)"
    by (rule inv_insert_ws[OF i1(1)])
       (use i1 f invD(1,5)[OF assms(1)] in
         \<open>auto simp: ws_def ws_ok_def ws_leaves_def layout_ids_def layout_ok_def ws_count_def\<close>)
  moreover have "s1\<lparr>layout := \<lparr>workspaces = vec_insert (ws_count s1) ws (workspaces (layout s1)),
          active_workspace = active_workspace (layout s1)\<rparr>\<rparr> =
      s1\<lparr>layout := (layout s1)\<lparr>workspaces := workspaces (layout s1) @ [ws]\<rparr>\<rparr>"
    by (simp add: vec_insert_def ws_count_def)
  ultimately show ?thesis
    using assms(2) nu by (auto simp: create_workspace_def Let_def ws_def)
qed

subsection \<open>Deleting a workspace\<close>

lemma collect_tabs_pane_ids_leaves [simp]:
  "collect_tabs_pane_ids ts out = out @ concat (map (\<lambda>t. leaves (tab_tree t)) ts)"
  by (induction ts arbitrary: out) auto

lemma delete_pane_fields [simp]:
  "layout (delete_pane_of_workspace p s) = layout s"
  "dom (panes (delete_pane_of_workspace p s)) = dom (panes s) - {p}"
  by (auto simp: delete_pane_of_workspace_def unlink_log_def Let_def split: option.splits)

lemma inv_delete_pane:
  assumes "sinv X D s"
  shows "sinv X (insert p D) (delete_pane_of_workspace p s)"
  using assms unfolding sinv_def supply_ok_def logs_ok_def
  by (auto simp: delete_pane_of_workspace_def unlink_log_def Let_def distinct_removeAll
      split: option.splits)

lemma inv_delete_panes:
  assumes "sinv X D s"
  shows "sinv X (D \<union> set ps) (fold delete_pane_of_workspace ps s) \<and>
         layout (fold delete_pane_of_workspace ps s) = layout s \<and>
         dom (panes (fold delete_pane_of_workspace ps s)) = dom (panes s) - set ps"
  using assms
proof (induction ps arbitrary: s D)
  case (Cons p ps)
  show ?case
    using Cons.IH[OF inv_delete_pane[OF Cons.prems, of p]] by auto
qed simp

text \<open>The new value of \<open>active_workspace\<close> after the removal of workspace \<open>i\<close>.\<close>

definition active_after_delete :: "nat \<Rightarrow> nat \<Rightarrow> nat \<Rightarrow> nat" where
  "active_after_delete i new_len act =
     (if act > i then act - 1 else if act \<ge> new_len \<and> new_len > 0 then new_len - 1 else act)"

lemma delete_workspace_ok:
  assumes "i < ws_count s" "1 < ws_count s"
  defines "ws \<equiv> workspaces (layout s) ! i"
  defines "s1 \<equiv> fold delete_pane_of_workspace (ws_leaves ws) s"
  shows "layout s1 = layout s" and
    "delete_workspace i s = (Inr (), send_event (WorkspaceDeleted i (ws_id ws))
       (s1\<lparr>layout := \<lparr>workspaces = vec_remove i (workspaces (layout s)),
                      active_workspace = active_after_delete i (ws_count s - 1)
                                           (active_workspace (layout s))\<rparr>\<rparr>))"
proof -
  have "layout (fold delete_pane_of_workspace ps s) = layout s" for ps
    by (induction ps arbitrary: s) auto
  then show l: "layout s1 = layout s" by (simp add: s1_def)
  show "delete_workspace i s = (Inr (), send_event (WorkspaceDeleted i (ws_id ws))
       (s1\<lparr>layout := \<lparr>workspaces = vec_remove i (workspaces (layout s)),
                      active_workspace = active_after_delete i (ws_count s - 1)
                                           (active_workspace (layout s))\<rparr>\<rparr>))"
    using assms(1,2) l
    by (simp add: delete_workspace_def Let_def ws_def s1_def ws_leaves_def active_after_delete_def
        ws_count_def)
qed

lemma inv_delete_workspace:
  assumes "sinv {} D s" "delete_workspace i s = (r, s')"
  shows "sinv {} D s'"
proof (cases "i < ws_count s \<and> 1 < ws_count s")
  case False
  then have "s' = s" using assms(2) by (auto simp: delete_workspace_def not_less split: if_splits)
  with assms show ?thesis by simp
next
  case True
  define ws where "ws = workspaces (layout s) ! i"
  define s1 where "s1 = fold delete_pane_of_workspace (ws_leaves ws) s"
  define l' where "l' = \<lparr>workspaces = vec_remove i (workspaces (layout s)),
     active_workspace = active_after_delete i (ws_count s - 1) (active_workspace (layout s))\<rparr>"
  note ok = invD(1)[OF assms(1)]
  have i: "i < length (workspaces (layout s))" using True by (simp add: ws_count_def)
  obtain A B where AB: "workspaces (layout s) = A @ ws # B" "length A = i"
    using i ws_def by (metis nth_split)
  have w': "workspaces l' = A @ B" using AB by (auto simp: l'_def)
  have s1: "sinv {} (D \<union> set (ws_leaves ws)) s1" "layout s1 = layout s"
    "dom (panes s1) = dom (panes s) - set (ws_leaves ws)"
    using inv_delete_panes[OF assms(1)] by (auto simp: s1_def)
  have "active_workspace l' < length (workspaces l')"
    using ok True AB by (auto simp: l'_def active_after_delete_def layout_ok_def ws_count_def)
  moreover have "distinct (layout_leaves l')" "distinct (layout_tab_ids l')"
    using ok distinct_remove_middle[of "concat (map ws_leaves A)" "ws_leaves ws" "concat (map ws_leaves B)"]
      distinct_remove_middle[of "concat (map (map tab_id \<circ> ws_tabs) A)" "map tab_id (ws_tabs ws)"
        "concat (map (map tab_id \<circ> ws_tabs) B)"]
    by (simp_all add: layout_ok_def layout_leaves_def ws_tab_ids_simp w' AB(1))
  moreover have "distinct (layout_ws_ids l')" "\<forall>w \<in> set (workspaces l'). ws_ok w"
    using ok by (auto simp: layout_ok_def layout_ws_ids_def w' AB(1))
  ultimately have "layout_ok l'" by (simp add: layout_ok_def)
  moreover have lv: "set (layout_leaves l') = set (layout_leaves (layout s)) - set (ws_leaves ws)"
    using ok AB by (auto simp: layout_ok_def layout_leaves_def w')
  moreover have "layout_ids l' \<subseteq> layout_ids (layout s)"
    by (auto simp: layout_ids_def layout_leaves_def ws_tab_ids_simp layout_ws_ids_def w' AB)
  moreover have "dom (panes s1) \<subseteq> set (layout_leaves l')" "set (layout_leaves l') \<subseteq> dom (panes s1) \<union> D"
    using lv s1(3) invD(5,6)[OF assms(1)] by auto
  ultimately have "sinv {} D (s1\<lparr>layout := l'\<rparr>)"
    using s1(1,2) unfolding sinv_def supply_ok_def logs_ok_def by auto
  then show ?thesis
    using assms(2) delete_workspace_ok(2)[of i s] True by (auto simp: l'_def s1_def ws_def)
qed

subsection \<open>Duplicating a workspace\<close>

lemma dup_rollback_fields [simp]:
  "panes (dup_rollback sp s) = panes s" "pane_order (dup_rollback sp s) = pane_order s"
  "layout (dup_rollback sp s) = layout s" "byte_logs (dup_rollback sp s) = byte_logs s"
  "world (dup_rollback sp s) = world s" "events (dup_rollback sp s) = events s"
  "pinned (dup_rollback sp s) = pinned s" "drain_tasks (dup_rollback sp s) = drain_tasks s"
  "os_log (dup_rollback sp s) = os_log s @ map (\<lambda>(_, b, _). KillPty (pb_pty b)) sp"
  unfolding dup_rollback_def by (induction sp arbitrary: s) (auto split: prod.splits)

text \<open>
  Phase 2 touches no session state besides the supply; the panes it spawned have distinct
  new ids, all in \<open>X'\<close>.
\<close>

definition fresh_panes :: "pane_id set \<Rightarrow> session \<Rightarrow> spawned_pane list \<Rightarrow> bool" where
  "fresh_panes X s sp \<longleftrightarrow>
     fst ` set sp \<subseteq> X \<and> distinct (map fst sp) \<and> fst ` set sp \<inter> dom (panes s) = {} \<and>
     fst ` set sp \<inter> set (layout_leaves (layout s)) = {}"

lemma dup_spawn_inv:
  assumes "sinv X D s" "fresh_panes X s sp" "dup_spawn sz n cwds sp s = (r, s')"
  shows "\<exists>X'. X \<subseteq> X' \<and> sinv X' D s' \<and> panes s' = panes s \<and> layout s' = layout s \<and>
     (\<forall>sp'. r = Inr sp' \<longrightarrow> fresh_panes X' s' sp' \<and> length sp' = length sp + length cwds)"
  using assms
proof (induction cwds arbitrary: X sp s)
  case Nil
  then show ?case by (auto intro!: exI[of _ X])
next
  case (Cons cwd cwds)
  obtain p s1 where nu: "new_uuid s = (p, s1)" by fastforce
  obtain rb s2 where sp: "pty_bridge_spawn sz cwd None None True s1 = (rb, s2)" by fastforce
  note f1 = new_uuid_fields[OF nu] and i1 = inv_new_uuid[OF Cons.prems(1) nu] and f2 = spawn_fields[OF sp]
  have i2: "sinv (insert p X) D s2" using i1(1) by (simp add: inv_spawn[OF sp])
  show ?case
  proof (cases rb)
    case (Inl e)
    have "sinv (insert p X) D (dup_rollback sp' s2)" for sp'
      using i2 by (subst inv_cong[of _ s2]) simp_all
    with Cons.prems(3) nu sp Inl f1 f2 show ?thesis
      by (intro exI[of _ "insert p X"]) auto
  next
    case (Inr b)
    let ?sp = "sp @ [(p, b, case cwd of Some c \<Rightarrow> c | None \<Rightarrow> home_dir_fallback s2)]"
    have "fresh_panes (insert p X) s2 ?sp"
      using Cons.prems(2) i1 f1 f2 by (auto simp: fresh_panes_def layout_ids_def)
    moreover have "dup_spawn sz n cwds ?sp s2 = (r, s')"
      using Cons.prems(3) nu sp Inr by simp
    ultimately obtain X' where "insert p X \<subseteq> X'" "sinv X' D s'" "panes s' = panes s2"
      "layout s' = layout s2"
      "\<forall>sp'. r = Inr sp' \<longrightarrow> fresh_panes X' s' sp' \<and> length sp' = length ?sp + length cwds"
      using Cons.IH[OF i2] by blast
    with f1 f2 show ?thesis by (intro exI[of _ X']) auto
  qed
qed

lemma dup_insert_panes_inv:
  assumes "sinv X D s" "fresh_panes X s sp" "dup_insert_panes sz sp s = (tabs, dts, s')"
  shows "\<exists>X'. X \<subseteq> X' \<and> sinv X' D s' \<and> layout s' = layout s \<and> events s' = events s \<and>
     dom (panes s') = dom (panes s) \<union> fst ` set sp \<and>
     map tab_tree tabs = map (Leaf \<circ> fst) sp \<and> map dt_pane_id dts = map fst sp \<and>
     map dt_tab_id dts = map tab_id tabs \<and> distinct (map tab_id tabs) \<and>
     tab_id ` set tabs \<subseteq> X' - X \<and> tab_id ` set tabs \<inter> set (layout_tab_ids (layout s)) = {} \<and>
     (\<forall>t \<in> set tabs. active_pane_id t = None)"
  using assms
proof (induction sp arbitrary: X s tabs dts)
  case Nil
  then show ?case by (auto intro!: exI[of _ X])
next
  case (Cons a sp)
  obtain p b cwd where a: "a = (p, b, cwd)" by (cases a) auto
  define s0 where "s0 = push_order p (insert_pane p (new_pane_state p b cwd sz) s)"
  obtain tid s1 where nu: "new_uuid s0 = (tid, s1)" by fastforce
  obtain tabs1 dts1 where r: "dup_insert_panes sz sp s1 = (tabs1, dts1, s')"
      "tabs = new_tab_record tid p # tabs1" "dts = \<lparr>dt_tab_id = tid, dt_pane_id = p\<rparr> # dts1"
    using Cons.prems(3) nu a s0_def by (auto split: prod.splits)
  have i0: "sinv X D s0"
    unfolding s0_def by (rule inv_register[OF Cons.prems(1)])
      (use Cons.prems(2) a in \<open>auto simp: fresh_panes_def\<close>)
  note f1 = new_uuid_fields[OF nu] and i1 = inv_new_uuid[OF i0 nu]
  have p1: "panes s1 = (panes s)(p \<mapsto> new_pane_state p b cwd sz)" "layout s1 = layout s"
    "events s1 = events s"
    using f1 by (simp_all add: s0_def)
  have "fresh_panes (insert tid X) s1 sp"
    using Cons.prems(2) p1 unfolding fresh_panes_def a by auto
  then obtain X' where X': "insert tid X \<subseteq> X'" "sinv X' D s'" "layout s' = layout s1"
    "events s' = events s1"
    "dom (panes s') = dom (panes s1) \<union> fst ` set sp"
    "map tab_tree tabs1 = map (Leaf \<circ> fst) sp" "map dt_pane_id dts1 = map fst sp"
    "map dt_tab_id dts1 = map tab_id tabs1" "distinct (map tab_id tabs1)"
    "tab_id ` set tabs1 \<subseteq> X' - insert tid X"
    "tab_id ` set tabs1 \<inter> set (layout_tab_ids (layout s1)) = {}"
    "\<forall>t \<in> set tabs1. active_pane_id t = None"
    using Cons.IH[OF i1(1) _ r(1)] by metis
  have tid: "tid \<notin> set (layout_tab_ids (layout s))" "tid \<notin> X"
    using i1(2,3) by (auto simp: layout_ids_def s0_def)
  show ?case
  proof (intro exI[of _ X'] conjI)
    show "distinct (map tab_id tabs)" using X'(9,10) r(2) by (auto simp: new_tab_record_def)
    show "tab_id ` set tabs \<subseteq> X' - X" using X'(1,10) r(2) tid by (auto simp: new_tab_record_def)
    show "tab_id ` set tabs \<inter> set (layout_tab_ids (layout s)) = {}"
      using X'(11) r(2) tid p1 by (auto simp: new_tab_record_def)
    show "dom (panes s') = dom (panes s) \<union> fst ` set (a # sp)" using X'(5) p1 a by auto
  qed (use X' r p1 a in \<open>auto simp: new_tab_record_def\<close>)
qed

lemma dup_announce_fields [simp]:
  "panes (dup_announce k dt s) = panes s" "layout (dup_announce k dt s) = layout s"
  "sinv X D (dup_announce k dt s) = sinv X D s"
  by (simp_all add: dup_announce_def)

lemma fold_announce [simp]:
  "panes (fold (dup_announce k) dts s) = panes s" "layout (fold (dup_announce k) dts s) = layout s"
  "sinv X D (fold (dup_announce k) dts s) = sinv X D s"
  by (induction dts arbitrary: s) simp_all

lemma concat_leaf_trees: "map tab_tree tabs = map (Leaf \<circ> fst) sp \<Longrightarrow>
    concat (map (\<lambda>t. leaves (tab_tree t)) tabs) = map fst sp"
  by (induction sp arbitrary: tabs) (auto simp: Cons_eq_map_conv)

lemma dup_commit_inv:
  assumes i: "sinv X D s" "fresh_panes X s sp" and u: "u \<in> X" "u \<notin> layout_ids (layout s)"
    and d: "dom (panes s) \<subseteq> set (layout_leaves (layout s))"
    and c: "dup_commit name k u sz sp s = ((idx, dts), s')"
  shows "sinv {} D s' \<and> dt_pane_id ` set dts \<subseteq> dom (panes s')"
proof -
  obtain tabs dts' s1 where ins: "dup_insert_panes sz sp s = (tabs, dts', s1)"
    by (metis prod_cases3)
  obtain X' where X': "X \<subseteq> X'" "sinv X' D s1" "layout s1 = layout s"
    "dom (panes s1) = dom (panes s) \<union> fst ` set sp"
    "map tab_tree tabs = map (Leaf \<circ> fst) sp" "map dt_pane_id dts' = map fst sp"
    "distinct (map tab_id tabs)"
    "tab_id ` set tabs \<subseteq> X' - X" "tab_id ` set tabs \<inter> set (layout_tab_ids (layout s)) = {}"
    "\<forall>t \<in> set tabs. active_pane_id t = None"
    using dup_insert_panes_inv[OF i ins] by metis
  define k' where "k' = min k (ws_count s)"
  define act where "act = active_workspace (layout s)"
  define ws where
    "ws = \<lparr>ws_id = u, ws_name = name, ws_tabs = tabs, ws_active_tab = 0, ws_color = None\<rparr>"
  define s2 where "s2 = s1\<lparr>layout := \<lparr>workspaces = vec_insert k' ws (workspaces (layout s1)),
     active_workspace = (if act \<ge> k' then act + 1 else act)\<rparr>\<rparr>"
  have wl: "ws_leaves ws = map fst sp"
    using concat_leaf_trees[OF X'(5)] by (simp add: ws_leaves_def ws_def)
  have "sinv {} D s2"
    unfolding s2_def
  proof (rule inv_insert_ws[OF X'(2)])
    show "k' \<le> ws_count s1" using X'(3) by (simp add: k'_def ws_count_def)
    show "ws_ok ws" using X'(10) by (auto simp: ws_ok_def ws_def)
    show "(if act \<ge> k' then act + 1 else act) < Suc (ws_count s1)"
      using invD(1)[OF i(1)] X'(3) by (auto simp: act_def layout_ok_def ws_count_def)
    show "ws_id ws \<notin> set (layout_ws_ids (layout s1))"
      using u(2) X'(3) by (auto simp: ws_def layout_ids_def)
    show "tab_id ` set (ws_tabs ws) \<subseteq> X'" using X'(8) by (auto simp: ws_def)
    show "dom (panes s1) \<subseteq> set (layout_leaves (layout s1)) \<union> set (ws_leaves ws) \<union> {}"
      using d X'(3,4) wl by auto
  qed (use i(2) u(1) X' wl in \<open>auto simp: fresh_panes_def ws_def\<close>)
  moreover have "s' = fold (dup_announce k') dts' (send_event (WorkspaceCreated k' u name) s2)"
    "dts = dts'"
    using c ins X'(3) by (auto simp: dup_commit_def Let_def s2_def ws_def k'_def act_def)
  moreover have "dt_pane_id ` set dts' \<subseteq> dom (panes s2)"
    using X'(4,6) by (metis Un_upper2 list.set_map s2_def session.select_convs(1) session.surjective
        session.update_convs(4))
  ultimately show ?thesis by simp
qed

lemma inv_fold_spawn_drain:
  "sinv X D s \<Longrightarrow> dt_pane_id ` set dts \<subseteq> dom (panes s) \<Longrightarrow>
   sinv X D (fold (\<lambda>dt. spawn_drain_task (dt_pane_id dt)) dts s)"
proof (induction dts arbitrary: s)
  case (Cons dt dts)
  have "sinv X D (spawn_drain_task (dt_pane_id dt) s)"
    using Cons.prems by (intro inv_spawn_drain) auto
  moreover have "dt_pane_id ` set dts \<subseteq> dom (panes (spawn_drain_task (dt_pane_id dt) s))"
    using Cons.prems(2) unfolding spawn_drain_fields(1) by simp
  ultimately show ?case using Cons.IH by simp
qed simp

lemma inv_duplicate_workspace:
  assumes "sinv {} D s" "duplicate_workspace src name sz s = (r, s')"
  shows "sinv {} D s'"
proof (cases "dup_snapshot src name s")
  case (Inl e)
  then show ?thesis using assms by (simp add: duplicate_workspace_def)
next
  case (Inr snap)
  obtain nm k cwds where snap: "snap = (nm, k, cwds)" by (cases snap) auto
  obtain r1 s1 where sp: "dup_spawn sz (length cwds) cwds [] s = (r1, s1)" by fastforce
  have fp: "fresh_panes {} s []" by (simp add: fresh_panes_def)
  obtain X' where X': "sinv X' D s1" "panes s1 = panes s" "layout s1 = layout s"
    "\<And>sp'. r1 = Inr sp' \<Longrightarrow> fresh_panes X' s1 sp'"
    using dup_spawn_inv[OF assms(1) fp sp] by blast
  have sub: "dom (panes s1) \<subseteq> set (layout_leaves (layout s1))"
    using invD(5)[OF assms(1)] X' by simp
  show ?thesis
  proof (cases r1)
    case (Inl e)
    then have "s' = s1" using assms(2) Inr snap sp by (simp add: duplicate_workspace_def)
    then show ?thesis using inv_weaken[OF X'(1), of "{}" D] sub by simp
  next
    case (Inr sp')
    obtain u s2 where nu: "new_uuid s1 = (u, s2)" by fastforce
    note f2 = new_uuid_fields[OF nu] and i2 = inv_new_uuid[OF X'(1) nu]
    obtain idx dts s3 where c: "dup_commit nm k u sz sp' s2 = ((idx, dts), s3)"
      by (metis prod.collapse)
    have "fresh_panes (insert u X') s2 sp'"
      using X'(4)[OF Inr] f2 by (auto simp: fresh_panes_def)
    then have s3: "sinv {} D s3 \<and> dt_pane_id ` set dts \<subseteq> dom (panes s3)"
      using dup_commit_inv[OF i2(1) _ _ _ _ c] i2(2) f2 sub by auto
    have "s' = fold (\<lambda>dt. spawn_drain_task (dt_pane_id dt)) dts s3"
      using assms(2) \<open>dup_snapshot src name s = Inr snap\<close> snap sp Inr nu c
      by (simp add: duplicate_workspace_def)
    with s3 show ?thesis by (auto intro: inv_fold_spawn_drain)
  qed
qed

end
