(* ===== verification/SessionMachine.thy ===== *)
theory SessionMachine
  imports SessionBulk
begin

section \<open>The session as a state machine\<close>

text \<open>
  Every public method that changes the session, as a label; the drain tasks, which run
  between them; and the outside world, which may change at any time everything the
  session reads from it except the identifiers still to be generated.
\<close>

datatype session_op =
  OCreatePane pty_size "path option" "string list option" "string option" bool
| OUpdateSplitRatios "(pane_id \<times> f32) list"
| OSetPaneCwd pane_id path
| OSetPinned bool
| OSetByteLogConfig nat nat
| OCreateWorkspace string
| ORenameWorkspace nat string
| OSetWorkspaceColor nat "string option"
| OMoveWorkspace nat nat
| ODeleteWorkspace nat
| ODuplicateWorkspace nat "string option" pty_size
| OCreateTab nat "path option" pty_size "string list option"
| OCreateTabWithPaneId nat "path option" pty_size "string list option" pane_id
| OSplitPane pane_id string pty_size "path option"
| OSplitPaneWithRatio pane_id string f32 pty_size "path option"
| OSplitPaneWithRatioAndPaneId pane_id string f32 pty_size "path option" pane_id
| OCloseTab uuid
| OMoveTab uuid nat
| OSetActiveTab nat nat
| OSetActiveWorkspace nat
| OSetActivePane nat uuid "pane_id option"
| OClosePane pane_id
| OWritePty pane_id "byte list"
| OResizePane pane_id pty_size
| OClosePaneByteLog pane_id
| OSnapshot
| OSendSigint pane_id
| OKillAll bool "pane_id list"

fun exec_op :: "session_op \<Rightarrow> session \<Rightarrow> session" where
  "exec_op (OCreatePane sz cwd cmd sh login) s = snd (create_pane sz cwd cmd sh login s)"
| "exec_op (OUpdateSplitRatios us) s = update_split_ratios us s"
| "exec_op (OSetPaneCwd p c) s = set_pane_cwd p c s"
| "exec_op (OSetPinned b) s = set_pinned b s"
| "exec_op (OSetByteLogConfig k m) s = set_byte_log_config k m s"
| "exec_op (OCreateWorkspace n) s = snd (create_workspace n s)"
| "exec_op (ORenameWorkspace i n) s = snd (rename_workspace i n s)"
| "exec_op (OSetWorkspaceColor i c) s = snd (set_workspace_color i c s)"
| "exec_op (OMoveWorkspace i j) s = snd (move_workspace i j s)"
| "exec_op (ODeleteWorkspace i) s = snd (delete_workspace i s)"
| "exec_op (ODuplicateWorkspace i n sz) s = snd (duplicate_workspace i n sz s)"
| "exec_op (OCreateTab i c sz cmd) s = snd (create_tab i c sz cmd s)"
| "exec_op (OCreateTabWithPaneId i c sz cmd p) s = snd (create_tab_with_pane_id i c sz cmd p s)"
| "exec_op (OSplitPane p d sz c) s = snd (split_pane p d sz c s)"
| "exec_op (OSplitPaneWithRatio p d r sz c) s = snd (split_pane_with_ratio p d r sz c s)"
| "exec_op (OSplitPaneWithRatioAndPaneId p d r sz c n) s =
     snd (split_pane_with_ratio_and_pane_id p d r sz c n s)"
| "exec_op (OCloseTab t) s = snd (close_tab t s)"
| "exec_op (OMoveTab t k) s = snd (move_tab t k s)"
| "exec_op (OSetActiveTab i j) s = snd (set_active_tab i j s)"
| "exec_op (OSetActiveWorkspace i) s = snd (set_active_workspace i s)"
| "exec_op (OSetActivePane i t p) s = snd (set_active_pane i t p s)"
| "exec_op (OClosePane p) s = snd (close_pane p s)"
| "exec_op (OWritePty p d) s = snd (write_pty p d s)"
| "exec_op (OResizePane p sz) s = snd (resize_pane p sz s)"
| "exec_op (OClosePaneByteLog p) s = close_pane_byte_log p s"
| "exec_op OSnapshot s = snd (snapshot_to_workspace_state s)"
| "exec_op (OSendSigint p) s = send_sigint p s"
| "exec_op (OKillAll c ps) s = kill_all c ps s"

text \<open>
  A pane id handed in from outside (the restore path) must be unused: not in the layout,
  not registered, and not one the generator will still produce.
\<close>

definition unused_id :: "uuid \<Rightarrow> session \<Rightarrow> bool" where
  "unused_id u s \<longleftrightarrow>
     u \<notin> layout_ids (layout s) \<and> u \<notin> dom (panes s) \<and>
     (\<forall>n \<ge> w_next_id (world s). w_fresh (world s) n \<noteq> u)"

fun op_enabled :: "session_op \<Rightarrow> session \<Rightarrow> bool" where
  "op_enabled (OCreateTabWithPaneId i c sz cmd p) s = unused_id p s"
| "op_enabled (OSplitPaneWithRatioAndPaneId p d r sz c n) s = unused_id n s"
| "op_enabled _ s = True"

text \<open>A turn of a running drain task; a task that ended is no longer running.\<close>

definition drain_step :: "pane_id \<Rightarrow> byte list option \<Rightarrow> session \<Rightarrow> session" where
  "drain_step p c s =
     (case drain_turn p c s of
        (True, s1) \<Rightarrow> s1\<lparr>drain_tasks := remove1 p (drain_tasks s1)\<rparr>
      | (False, s1) \<Rightarrow> s1)"

definition world_change :: "world \<Rightarrow> world \<Rightarrow> bool" where
  "world_change w w' \<longleftrightarrow>
     w_fresh w' = w_fresh w \<and> w_next_id w' = w_next_id w \<and> w_next_spawn w' = w_next_spawn w \<and>
     (\<forall>p f. w_log_file w' p = Some f \<longrightarrow> length f \<le> u64_max)"

datatype session_label = LOp session_op | LDrain pane_id "byte list option" | LWorld

inductive session_step :: "session \<Rightarrow> session_label \<Rightarrow> session \<Rightarrow> bool" where
  step_op: "op_enabled op s \<Longrightarrow> session_step s (LOp op) (exec_op op s)"
| step_drain: "p \<in> set (drain_tasks s) \<Longrightarrow> session_step s (LDrain p c) (drain_step p c s)"
| step_world: "world_change (world s) w' \<Longrightarrow> session_step s LWorld (s\<lparr>world := w'\<rparr>)"

inductive_cases session_step_opE: "session_step s (LOp op) s'"
inductive_cases session_step_drainE: "session_step s (LDrain p c) s'"
inductive_cases session_step_worldE: "session_step s LWorld s'"

text \<open>The leaves that a step may leave without a process: those of a closed pane.\<close>

fun op_closes :: "session_op \<Rightarrow> pane_id set" where
  "op_closes (OClosePane p) = {p}"
| "op_closes _ = {}"

fun label_closes :: "session_label \<Rightarrow> pane_id set" where
  "label_closes (LOp op) = op_closes op"
| "label_closes (LDrain p c) = {p}"
| "label_closes LWorld = {}"

lemma inv_unused:
  assumes "sinv {} D s" "unused_id p s"
  shows "sinv {p} D s" "p \<notin> dom (panes s)" "p \<notin> set (layout_leaves (layout s))"
    "dom (panes s) \<subseteq> set (layout_leaves (layout s)) \<union> {}"
  using assms unfolding sinv_def supply_ok_def unused_id_def layout_ids_def by auto

lemma inv_exec_op:
  assumes "sinv {} D s" "op_enabled op s"
  shows "sinv {} (D \<union> op_closes op) (exec_op op s)"
proof (cases op)
  case (OCreateTabWithPaneId i c sz cmd p)
  with assms have u: "unused_id p s" by simp
  show ?thesis
    using inv_create_tab_with_pane_id[OF inv_unused(1)[OF assms(1) u] _ inv_unused(2-4)[OF assms(1) u]]
      OCreateTabWithPaneId by (metis empty_subsetI exec_op.simps(13) insertI1 inv_more_dead
      prod.collapse sup_ge1)
next
  case (OSplitPaneWithRatioAndPaneId p d r sz c n)
  with assms have u: "unused_id n s" by simp
  show ?thesis
    using inv_split_with_pane_id[OF inv_unused(1)[OF assms(1) u] _ inv_unused(2-4)[OF assms(1) u]]
      OSplitPaneWithRatioAndPaneId by (metis empty_subsetI exec_op.simps(16) insertI1 inv_more_dead
      prod.collapse sup_ge1)
qed (use assms(1) in \<open>auto simp: snapshot_to_workspace_state_def Let_def inv_set_pinned
      inv_set_byte_log_config
    intro: inv_create_pane inv_update_split_ratios inv_set_pane_cwd
      inv_create_workspace inv_rename_workspace inv_set_workspace_color inv_move_workspace
      inv_delete_workspace inv_duplicate_workspace inv_create_tab inv_split_pane inv_split_with_ratio
      inv_close_tab inv_move_tab inv_set_active_tab inv_set_active_workspace inv_set_active_pane
      inv_close_pane(1) inv_write_pty inv_resize_pane inv_close_pane_byte_log inv_refresh_pane_cwds
      inv_send_sigint inv_kill_all prod.collapse[symmetric] simp del: kill_all.simps\<close>)

lemma inv_drain_turn:
  assumes "sinv {} D s" "drain_turn p c s = (b, s')"
  shows "sinv {} (insert p D) s'"
proof (cases c)
  case None
  then show ?thesis using assms inv_close_pane(1)[OF assms(1) prod.collapse[symmetric]] by auto
next
  case (Some bytes)
  obtain r s1 where pr: "process_pane_bytes p bytes s = (r, s1)" by fastforce
  have i1: "sinv {} D s1" using assms(1) pr by (rule inv_process_pane_bytes)
  have "s' = s1 \<or> s' = snd (close_pane p s1)"
    using assms(2) Some pr by (auto split: sum.splits bool.splits)
  then show ?thesis
    using inv_close_pane(1)[OF i1 prod.collapse[symmetric]] inv_more_dead[OF i1, of "insert p D"] by auto
qed

lemma inv_drain_step:
  assumes "sinv {} D s"
  shows "sinv {} (insert p D) (drain_step p c s)"
proof -
  obtain b s1 where d: "drain_turn p c s = (b, s1)" by fastforce
  have "sinv {} (insert p D) (s1\<lparr>drain_tasks := t\<rparr>) = sinv {} (insert p D) s1" for t
    by (rule inv_cong) simp_all
  then show ?thesis
    using inv_drain_turn[OF assms d] d by (auto simp: drain_step_def split: bool.splits)
qed

lemma inv_world_change:
  "sinv {} D s \<Longrightarrow> world_change (world s) w' \<Longrightarrow> sinv {} D (s\<lparr>world := w'\<rparr>)"
  unfolding sinv_def supply_ok_def logs_ok_def world_change_def by auto

lemma inv_session_step:
  assumes "sinv {} D s" "session_step s l s'"
  shows "sinv {} (D \<union> label_closes l) s'"
  using assms(2,1)
proof cases
  case (step_op op)
  then show ?thesis using inv_exec_op assms(1) by simp
next
  case (step_drain p c)
  then show ?thesis using inv_drain_step assms(1) by simp
next
  case (step_world w')
  then show ?thesis using inv_world_change assms(1) by simp
qed

interpretation sm: invariant_system session_step "sinv {}" label_closes
  by unfold_locales (rule inv_session_step)

definition world_ok :: "world \<Rightarrow> bool" where
  "world_ok w \<longleftrightarrow> inj (w_fresh w) \<and> (\<forall>p f. w_log_file w p = Some f \<longrightarrow> length f \<le> u64_max)"

lemma inv_session_new: "world_ok w \<Longrightarrow> sinv {} {} (session_new w)"
  by (auto simp: sinv_def session_new_def world_ok_def layout_ok_def new_default_layout_def ws_ok_def
      layout_spec_defs supply_ok_def logs_ok_def layout_ids_def dest: injD)

end
