(* ===== verification/Persistence.thy ===== *)
theory Persistence
  imports SavedState "HOL-Library.AList"
begin

section \<open>Session files, buckets, trash, migration, log pruning\<close>

text \<open>
  \<open>crates/forgetty-workspace/src/persistence.rs\<close>. The data directory is an association list
  from structured paths to contents; its order is the order in which \<open>read_dir\<close> lists a
  directory. A file whose name is not one the program writes is an \<open>OtherFile\<close>. A path
  \<open>{uuid}.json\<close> is its bucket and its id: the printing and parsing of ids in file names is
  the \<open>uuid\<close> crate's, and only names in canonical form are modelled. Directories are not
  entries of their own; permissions are not modelled. Every system call can fail: \<open>fs_fails\<close>
  says which ones do, and \<open>fs_torn\<close> what a failed write leaves behind. JSON text and its
  printer and parser (\<open>serde_json\<close>) are the parameter \<open>codec\<close>.
\<close>

datatype bucket = Sessions | Active | Trash

datatype fpath =
  SessionJson bucket uuid      \<comment> \<open>\<open>sessions/\<close>, \<open>sessions/active/\<close>, \<open>sessions/trash/\<close>\<close>
| DefaultJson                  \<comment> \<open>\<open>sessions/default.json\<close>\<close>
| TmpOf fpath                  \<comment> \<open>\<open>with_extension("json.tmp")\<close>\<close>
| LogFile uuid                 \<comment> \<open>\<open>logs/{uuid}.log\<close>\<close>
| LogTmp uuid                  \<comment> \<open>\<open>logs/{uuid}.log.tmp\<close>\<close>
| VtSnapshot uuid              \<comment> \<open>\<open>sessions/snapshots/{uuid}.json\<close>\<close>
| MigrationMarker              \<comment> \<open>\<open>.migration_p018\<close>\<close>
| OtherFile string

datatype fs_call = FMkdir | FWrite | FRename | FCopy | FRemove | FRead | FReadDir | FStat

record fs =
  fs_files :: "(fpath \<times> string) list"
  fs_mtime :: "fpath \<Rightarrow> nat"
  fs_now :: nat
  fs_fails :: "fs_call \<Rightarrow> fpath \<Rightarrow> bool"
  fs_torn :: "fpath \<Rightarrow> string"

record codec =
  to_json :: "workspace_state \<Rightarrow> msg + string"
  from_json :: "string \<Rightarrow> msg + workspace_state"
  probe_pinned :: "string \<Rightarrow> msg + bool"   \<comment> \<open>parsing as \<open>OrphanProbe\<close>\<close>

type_synonym 'a io = "(msg + 'a) \<times> fs"

subsection \<open>System calls\<close>

definition fs_get :: "fs \<Rightarrow> fpath \<Rightarrow> string option" where
  "fs_get w p = map_of (fs_files w) p"

definition path_exists :: "fpath \<Rightarrow> fs \<Rightarrow> bool" where
  "path_exists p w \<longleftrightarrow> fs_get w p \<noteq> None"

definition sys_err :: "string \<Rightarrow> msg" where
  "sys_err what = Msg what []"

definition put_file :: "fpath \<Rightarrow> string \<Rightarrow> fs \<Rightarrow> fs" where
  "put_file p c w = w\<lparr>fs_files := AList.update p c (fs_files w),
                     fs_mtime := (fs_mtime w)(p := fs_now w)\<rparr>"

definition del_file :: "fpath \<Rightarrow> fs \<Rightarrow> fs" where
  "del_file p w = w\<lparr>fs_files := AList.delete p (fs_files w)\<rparr>"

definition fs_mkdir_for :: "fpath \<Rightarrow> fs \<Rightarrow> unit io" where
  "fs_mkdir_for p w = (if fs_fails w FMkdir p then Inl (sys_err ''mkdir'') else Inr (), w)"

definition fs_write :: "fpath \<Rightarrow> string \<Rightarrow> fs \<Rightarrow> unit io" where
  "fs_write p c w =
     (if fs_fails w FWrite p then (Inl (sys_err ''write''), put_file p (fs_torn w p) w)
      else (Inr (), put_file p c w))"

definition fs_rename :: "fpath \<Rightarrow> fpath \<Rightarrow> fs \<Rightarrow> unit io" where
  "fs_rename src dest w =
     (case fs_get w src of
        None \<Rightarrow> (Inl (sys_err ''rename''), w)
      | Some c \<Rightarrow>
          if fs_fails w FRename src then (Inl (sys_err ''rename''), w)
          else (Inr (), (del_file src (put_file dest c w))
                  \<lparr>fs_mtime := (fs_mtime w)(dest := fs_mtime w src)\<rparr>))"

definition fs_copy :: "fpath \<Rightarrow> fpath \<Rightarrow> fs \<Rightarrow> unit io" where
  "fs_copy src dest w =
     (case fs_get w src of
        None \<Rightarrow> (Inl (sys_err ''copy''), w)
      | Some c \<Rightarrow> if fs_fails w FCopy src then (Inl (sys_err ''copy''), w)
                  else (Inr (), put_file dest c w))"

definition fs_remove :: "fpath \<Rightarrow> fs \<Rightarrow> unit io" where
  "fs_remove p w =
     (if fs_get w p = None \<or> fs_fails w FRemove p then (Inl (sys_err ''remove''), w)
      else (Inr (), del_file p w))"

definition fs_read :: "fpath \<Rightarrow> fs \<Rightarrow> msg + string" where
  "fs_read p w =
     (case fs_get w p of
        None \<Rightarrow> Inl (sys_err ''read'')
      | Some c \<Rightarrow> if fs_fails w FRead p then Inl (sys_err ''read'') else Inr c)"

text \<open>Sequencing: the \<open>?\<close> operator.\<close>

definition io_bind :: "'a io \<Rightarrow> ('a \<Rightarrow> fs \<Rightarrow> 'b io) \<Rightarrow> 'b io" where
  "io_bind m f = (case m of (Inl e, w) \<Rightarrow> (Inl e, w) | (Inr x, w) \<Rightarrow> f x w)"

subsection \<open>Saving and loading\<close>

definition save_to_path :: "codec \<Rightarrow> fpath \<Rightarrow> workspace_state \<Rightarrow> fs \<Rightarrow> unit io" where
  "save_to_path cd p st w =
     io_bind (fs_mkdir_for p w) (\<lambda>_ w1.
       case to_json cd st of
         Inl e \<Rightarrow> (Inl e, w1)
       | Inr json \<Rightarrow>
           io_bind (fs_write (TmpOf p) json w1) (\<lambda>_ w2.
             case fs_rename (TmpOf p) p w2 of
               (Inr _, w3) \<Rightarrow> (Inr (), w3)
             | (Inl _, w3) \<Rightarrow> fs_write p json w3))"

definition load_from_path :: "codec \<Rightarrow> fpath \<Rightarrow> fs \<Rightarrow> msg + workspace_state option" where
  "load_from_path cd p w =
     (if \<not> path_exists p w then Inr None
      else case fs_read p w of
             Inl e \<Rightarrow> Inl e
           | Inr c \<Rightarrow> (case from_json cd c of Inr st \<Rightarrow> Inr (Some st) | Inl _ \<Rightarrow> Inr None))"

definition save_session :: "codec \<Rightarrow> workspace_state \<Rightarrow> fs \<Rightarrow> unit io" where
  "save_session cd st w = save_to_path cd DefaultJson st w"

definition load_session :: "codec \<Rightarrow> fs \<Rightarrow> msg + workspace_state option" where
  "load_session cd w = load_from_path cd DefaultJson w"

definition save_session_for :: "codec \<Rightarrow> uuid \<Rightarrow> workspace_state \<Rightarrow> fs \<Rightarrow> unit io" where
  "save_session_for cd u st w = save_to_path cd (SessionJson Sessions u) st w"

definition load_session_for :: "codec \<Rightarrow> uuid \<Rightarrow> fs \<Rightarrow> msg + workspace_state option" where
  "load_session_for cd u w = load_from_path cd (SessionJson Sessions u) w"

text \<open>The ids of the canonical session files of a directory, in listing order.\<close>

fun bucket_id :: "bucket \<Rightarrow> fpath \<Rightarrow> uuid option" where
  "bucket_id b (SessionJson b' u) = (if b' = b then Some u else None)"
| "bucket_id b _ = None"

definition bucket_ids :: "bucket \<Rightarrow> fs \<Rightarrow> uuid list" where
  "bucket_ids b w = List.map_filter (\<lambda>(p, c). bucket_id b p) (fs_files w)"

definition list_sessions :: "fs \<Rightarrow> uuid list" where
  "list_sessions w = (if fs_fails w FReadDir (SessionJson Sessions 0) then [] else bucket_ids Sessions w)"

definition move_to_active :: "codec \<Rightarrow> uuid \<Rightarrow> workspace_state \<Rightarrow> fs \<Rightarrow> unit io" where
  "move_to_active cd u st w = save_to_path cd (SessionJson Active u) st w"

subsection \<open>Moving between the buckets\<close>

definition copy_then_remove :: "fpath \<Rightarrow> fpath \<Rightarrow> fs \<Rightarrow> unit io" where
  "copy_then_remove src dest w = io_bind (fs_copy src dest w) (\<lambda>_. fs_remove src)"

definition rename_with_fallback :: "fpath \<Rightarrow> fpath \<Rightarrow> fs \<Rightarrow> unit io" where
  "rename_with_fallback src dest w =
     io_bind (fs_mkdir_for dest w) (\<lambda>_ w1.
       case fs_rename src dest w1 of
         (Inr _, w2) \<Rightarrow> (Inr (), w2)
       | (Inl _, w2) \<Rightarrow> copy_then_remove src dest w2)"

definition move_active_to_sessions :: "uuid \<Rightarrow> fs \<Rightarrow> unit io" where
  "move_active_to_sessions u w =
     (let src = SessionJson Active u
      in if \<not> path_exists src w then (Inr (), w)
         else rename_with_fallback src (SessionJson Sessions u) w)"

definition move_active_to_trash :: "uuid \<Rightarrow> fs \<Rightarrow> unit io" where
  "move_active_to_trash u w =
     (let src = SessionJson Active u
      in if \<not> path_exists src w then (Inr (), w)
         else rename_with_fallback src (SessionJson Trash u) w)"

definition remove_if_exists :: "fpath \<Rightarrow> fs \<Rightarrow> unit io" where
  "remove_if_exists p w = (if path_exists p w then fs_remove p w else (Inr (), w))"

definition delete_active_for :: "uuid \<Rightarrow> fs \<Rightarrow> unit io" where
  "delete_active_for u w = remove_if_exists (SessionJson Active u) w"

definition restore_from_trash_to_active :: "uuid \<Rightarrow> fs \<Rightarrow> unit io" where
  "restore_from_trash_to_active u w =
     (let src = SessionJson Trash u
      in if \<not> path_exists src w then (Inl (Msg ''trash file not found: {}'' [AUuid u]), w)
         else rename_with_fallback src (SessionJson Active u) w)"

definition pinned_aware_exit_move :: "uuid \<Rightarrow> bool \<Rightarrow> fs \<Rightarrow> fs" where
  "pinned_aware_exit_move u pinned w =
     (if pinned then snd (move_active_to_sessions u w) else snd (move_active_to_trash u w))"

definition read_pinned_field :: "codec \<Rightarrow> fpath \<Rightarrow> fs \<Rightarrow> msg + bool" where
  "read_pinned_field cd p w =
     (case fs_read p w of Inl e \<Rightarrow> Inl e | Inr c \<Rightarrow> probe_pinned cd c)"

definition recover_orphans_in_active :: "codec \<Rightarrow> fs \<Rightarrow> (uuid \<times> bool) list" where
  "recover_orphans_in_active cd w =
     (if fs_fails w FReadDir (SessionJson Active 0) then []
      else List.map_filter (\<lambda>u. case read_pinned_field cd (SessionJson Active u) w of
                                  Inr b \<Rightarrow> Some (u, b) | Inl _ \<Rightarrow> None)
             (bucket_ids Active w))"

subsection \<open>The one-shot migration\<close>

definition write_marker :: "fs \<Rightarrow> unit io" where
  "write_marker w =
     io_bind (fs_mkdir_for MigrationMarker w) (\<lambda>_. fs_write MigrationMarker (''p018-v1'' @ [CHR 0x0A]))"

text \<open>The body of the loop for one top-level session file.\<close>

definition migrate_one :: "codec \<Rightarrow> uuid \<Rightarrow> fs \<Rightarrow> fs" where
  "migrate_one cd u w =
     (let path = SessionJson Sessions u; dest = SessionJson Trash u
      in if fs_fails w FStat path then w
         else case read_pinned_field cd path w of
           Inl _ \<Rightarrow> w
         | Inr True \<Rightarrow> w
         | Inr False \<Rightarrow>
             if path_exists dest w then snd (fs_remove path w)
             else (case fs_rename path dest w of
                     (Inr _, w1) \<Rightarrow> w1
                   | (Inl _, w1) \<Rightarrow> snd (copy_then_remove path dest w1)))"

text \<open>
  \<open>sessions/\<close> always exists once the two subdirectories have been made, so the branch for a
  missing directory is the failing \<open>read_dir\<close> that reports \<open>NotFound\<close>; any other failure
  is returned.
\<close>

definition run_migration_p018 :: "codec \<Rightarrow> fs \<Rightarrow> unit io" where
  "run_migration_p018 cd w =
     (if path_exists MigrationMarker w then (Inr (), w)
      else io_bind (fs_mkdir_for (SessionJson Active 0) w) (\<lambda>_ w1.
           io_bind (fs_mkdir_for (SessionJson Trash 0) w1) (\<lambda>_ w2.
             if fs_fails w2 FReadDir (SessionJson Sessions 0) then (Inl (sys_err ''read_dir''), w2)
             else write_marker (fold (migrate_one cd) (bucket_ids Sessions w2) w2))))"

subsection \<open>The trash\<close>

definition rename_or_copy :: "fpath \<Rightarrow> fpath \<Rightarrow> fs \<Rightarrow> unit io" where
  "rename_or_copy src dest w =
     (case fs_rename src dest w of
        (Inr _, w1) \<Rightarrow> (Inr (), w1)
      | (Inl _, w1) \<Rightarrow> copy_then_remove src dest w1)"

definition trash_session_for :: "uuid \<Rightarrow> fs \<Rightarrow> unit io" where
  "trash_session_for u w =
     (let src = SessionJson Sessions u; dest = SessionJson Trash u
      in if \<not> path_exists src w then (Inr (), w)
         else io_bind (fs_mkdir_for dest w) (\<lambda>_. rename_or_copy src dest))"

definition restore_from_trash :: "uuid \<Rightarrow> fs \<Rightarrow> unit io" where
  "restore_from_trash u w =
     (let src = SessionJson Trash u; dest = SessionJson Sessions u
      in if \<not> path_exists src w then (Inl (Msg ''trash file not found: {}'' [AUuid u]), w)
         else io_bind (fs_mkdir_for dest w) (\<lambda>_. rename_or_copy src dest))"

definition delete_session_for :: "uuid \<Rightarrow> fs \<Rightarrow> unit io" where
  "delete_session_for u w = remove_if_exists (SessionJson Sessions u) w"

definition list_trashed_sessions :: "fs \<Rightarrow> uuid list" where
  "list_trashed_sessions w =
     (if fs_fails w FReadDir (SessionJson Trash 0) then [] else bucket_ids Trash w)"

record trashed_info =
  ti_session_id :: uuid
  ti_workspace_names :: "string list"
  ti_tab_count :: nat
  ti_closed_at :: nat

definition trashed_info_of :: "codec \<Rightarrow> fs \<Rightarrow> uuid \<Rightarrow> trashed_info option" where
  "trashed_info_of cd w u =
     (let p = SessionJson Trash u
      in if fs_fails w FStat p then None
         else let (names, n) = (case load_from_path cd p w of
                 Inr (Some st) \<Rightarrow> (map sw_name (ss_workspaces st),
                                   sum_list (map (\<lambda>ws. length (sw_tabs ws)) (ss_workspaces st)))
               | _ \<Rightarrow> ([''Unknown''], 0))
              in Some \<lparr>ti_session_id = u, ti_workspace_names = names, ti_tab_count = n,
                       ti_closed_at = fs_mtime w p\<rparr>)"

text \<open>The stable sort by \<open>Reverse(closed_at)\<close>.\<close>

definition list_trashed_sessions_with_info :: "codec \<Rightarrow> fs \<Rightarrow> trashed_info list" where
  "list_trashed_sessions_with_info cd w =
     sort_key (\<lambda>i. - int (ti_closed_at i))
       (List.map_filter (trashed_info_of cd w) (list_trashed_sessions w))"

text \<open>
  Every entry of the trash directory is looked at, whatever its name: session files and
  their temporaries. Times are seconds; \<open>now - days\<close> does not underflow in practice.
\<close>

fun in_trash :: "fpath \<Rightarrow> bool" where
  "in_trash (SessionJson Trash u) = True"
| "in_trash (TmpOf p) = in_trash p"
| "in_trash _ = False"

definition purge_one :: "nat \<Rightarrow> fpath \<Rightarrow> fs \<Rightarrow> fs" where
  "purge_one cutoff p w =
     (if fs_fails w FStat p then w
      else if fs_mtime w p < cutoff then snd (fs_remove p w) else w)"

definition purge_old_trash :: "nat \<Rightarrow> fs \<Rightarrow> fs" where
  "purge_old_trash max_days w =
     (if max_days = 0 \<or> fs_fails w FReadDir (SessionJson Trash 0) then w
      else let cutoff = fs_now w - max_days * 86400
           in fold (purge_one cutoff) (filter in_trash (map fst (fs_files w))) w)"

definition delete_vt_snapshot :: "uuid \<Rightarrow> fs \<Rightarrow> fs" where
  "delete_vt_snapshot u w = snd (remove_if_exists (VtSnapshot u) w)"

subsection \<open>Byte logs and their owners\<close>

fun collect_pane_ids_from_tree :: "pane_tree_state \<Rightarrow> uuid set \<Rightarrow> uuid set" where
  "collect_pane_ids_from_tree (SLeaf c p) out = (case p of Some u \<Rightarrow> insert u out | None \<Rightarrow> out)"
| "collect_pane_ids_from_tree (SSplit d r a b) out =
     collect_pane_ids_from_tree b (collect_pane_ids_from_tree a out)"

definition collect_tab_pane_ids :: "tab_state \<Rightarrow> uuid set \<Rightarrow> uuid set" where
  "collect_tab_pane_ids t out =
     collect_pane_ids_from_tree (st_tree t)
       (case st_pane_id t of Some u \<Rightarrow> insert u out | None \<Rightarrow> out)"

definition collect_state_pane_ids :: "workspace_state \<Rightarrow> uuid set \<Rightarrow> uuid set" where
  "collect_state_pane_ids st out =
     fold (\<lambda>ws. fold collect_tab_pane_ids (sw_tabs ws)) (ss_workspaces st) out"

definition collect_from_file :: "codec \<Rightarrow> fs \<Rightarrow> fpath \<Rightarrow> uuid set \<Rightarrow> uuid set" where
  "collect_from_file cd w p out =
     (case load_from_path cd p w of Inr (Some st) \<Rightarrow> collect_state_pane_ids st out | _ \<Rightarrow> out)"

definition all_persisted_pane_ids :: "codec \<Rightarrow> fs \<Rightarrow> uuid set" where
  "all_persisted_pane_ids cd w =
     fold (collect_from_file cd w) (map (SessionJson Trash) (list_trashed_sessions w))
       (fold (collect_from_file cd w) (map (SessionJson Sessions) (list_sessions w)) {})"

fun log_owner :: "fpath \<Rightarrow> uuid option" where
  "log_owner (LogFile u) = Some u"
| "log_owner (LogTmp u) = Some u"
| "log_owner _ = None"

definition prune_one :: "uuid set \<Rightarrow> fpath \<Rightarrow> fs \<Rightarrow> fs" where
  "prune_one live p w =
     (case log_owner p of
        None \<Rightarrow> w
      | Some u \<Rightarrow> if u \<in> live then w else snd (fs_remove p w))"

definition prune_orphan_logs :: "uuid set \<Rightarrow> fs \<Rightarrow> fs" where
  "prune_orphan_logs live w =
     (if fs_fails w FReadDir (LogFile 0) then w
      else fold (prune_one live) (map fst (fs_files w)) w)"

subsection \<open>The file map under the system calls\<close>

lemma fs_get_put [simp]: "fs_get (put_file p c w) q = (if q = p then Some c else fs_get w q)"
  by (simp add: fs_get_def put_file_def update_conv')

lemma fs_get_del [simp]: "fs_get (del_file p w) q = (if q = p then None else fs_get w q)"
  by (simp add: fs_get_def del_file_def delete_conv')

lemma fs_get_mtime [simp]: "fs_get (w\<lparr>fs_mtime := m\<rparr>) q = fs_get w q"
  by (simp add: fs_get_def)

lemma fs_fails_keep [simp]:
  "fs_fails (put_file p c w) = fs_fails w" "fs_fails (del_file p w) = fs_fails w"
  by (simp_all add: put_file_def del_file_def)

definition healthy :: "fs \<Rightarrow> bool" where
  "healthy w \<longleftrightarrow> (\<forall>call p. \<not> fs_fails w call p)"

lemma healthy_keep [simp]:
  "healthy (put_file p c w) = healthy w" "healthy (del_file p w) = healthy w"
  "healthy (w\<lparr>fs_mtime := m\<rparr>) = healthy w"
  by (simp_all add: healthy_def)

lemma healthyD [simp]: "healthy w \<Longrightarrow> \<not> fs_fails w call p"
  by (simp add: healthy_def)

lemma healthy_calls:
  assumes "healthy w"
  shows "fs_mkdir_for p w = (Inr (), w)" "fs_write p c w = (Inr (), put_file p c w)"
    "fs_get w p \<noteq> None \<Longrightarrow> fs_remove p w = (Inr (), del_file p w)"
    "fs_get w p = Some c \<Longrightarrow> fs_read p w = Inr c"
    "fs_get w p = Some c \<Longrightarrow> fs_rename p q w = (Inr (), (del_file p (put_file q c w))
        \<lparr>fs_mtime := (fs_mtime w)(q := fs_mtime w p)\<rparr>)"
  using assms by (auto simp: fs_mkdir_for_def fs_write_def fs_remove_def fs_read_def fs_rename_def
      split: option.splits)

lemma bucket_id_Some: "bucket_id b p = Some u \<longleftrightarrow> p = SessionJson b u"
  by (cases p) auto

lemma in_map_filter: "u \<in> set (List.map_filter f xs) \<longleftrightarrow> (\<exists>x \<in> set xs. f x = Some u)"
  by (force simp: map_filter_def)

lemma bucket_ids_iff: "u \<in> set (bucket_ids b w) \<longleftrightarrow> fs_get w (SessionJson b u) \<noteq> None"
proof -
  have "u \<in> set (bucket_ids b w) \<longleftrightarrow> (\<exists>c. (SessionJson b u, c) \<in> set (fs_files w))"
    by (force simp: bucket_ids_def in_map_filter bucket_id_Some)
  also have "\<dots> \<longleftrightarrow> SessionJson b u \<in> fst ` set (fs_files w)" by force
  finally show ?thesis by (simp add: fs_get_def map_of_eq_None_iff)
qed

subsection \<open>The contract of a store of sessions\<close>

text \<open>
  What the daemon relies on: reading back gives the last value written under that key, and
  a write leaves the other keys alone.
\<close>

locale session_store =
  fixes save :: "'k \<Rightarrow> 'v \<Rightarrow> 's \<Rightarrow> 's"
    and load :: "'k \<Rightarrow> 's \<Rightarrow> 'v option"
    and good :: "'s \<Rightarrow> bool"
    and storable :: "'v \<Rightarrow> bool"
  assumes load_save: "good s \<Longrightarrow> storable v \<Longrightarrow> load k (save k v s) = Some v"
    and load_save_other: "good s \<Longrightarrow> storable v \<Longrightarrow> j \<noteq> k \<Longrightarrow> load j (save k v s) = load j s"
    and good_save: "good s \<Longrightarrow> storable v \<Longrightarrow> good (save k v s)"
begin

lemma last_save_wins:
  "good s \<Longrightarrow> \<forall>(k, v) \<in> set kvs. storable v \<Longrightarrow>
   load j (fold (\<lambda>(k, v). save k v) kvs s) =
     (case map_of (rev kvs) j of Some v \<Rightarrow> Some v | None \<Rightarrow> load j s)"
proof (induction kvs arbitrary: s)
  case (Cons kv kvs)
  obtain k v where kv: "kv = (k, v)" by fastforce
  with Cons.prems have v: "storable v" by simp
  have "load j (fold (\<lambda>(k, v). save k v) kvs (save k v s)) =
      (case map_of (rev kvs) j of Some v \<Rightarrow> Some v | None \<Rightarrow> load j (save k v s))"
    by (rule Cons.IH) (use Cons.prems good_save v in auto)
  then show ?case
    using Cons.prems(1) v load_save load_save_other
    by (cases "j = k") (auto simp: kv map_add_def split: option.splits)
qed simp

end

text \<open>
  What is used of \<open>serde_json\<close>: printing a state and parsing it back gives the state, and
  the probe reads its flag. (States whose ratios are not finite numbers do not round-trip;
  the condition is therefore on the state.)
\<close>

definition storable_state :: "codec \<Rightarrow> workspace_state \<Rightarrow> bool" where
  "storable_state cd st \<longleftrightarrow>
     (case to_json cd st of Inl _ \<Rightarrow> False
      | Inr j \<Rightarrow> from_json cd j = Inr st \<and> probe_pinned cd j = Inr (ss_pinned st))"

definition save_json :: "codec \<Rightarrow> bucket \<times> uuid \<Rightarrow> workspace_state \<Rightarrow> fs \<Rightarrow> fs" where
  "save_json cd k st w = snd (save_to_path cd (SessionJson (fst k) (snd k)) st w)"

definition load_json :: "codec \<Rightarrow> bucket \<times> uuid \<Rightarrow> fs \<Rightarrow> workspace_state option" where
  "load_json cd k w =
     (case load_from_path cd (SessionJson (fst k) (snd k)) w of Inr r \<Rightarrow> r | Inl _ \<Rightarrow> None)"

lemma save_to_path_healthy:
  assumes "healthy w" "to_json cd st = Inr j"
  shows "fst (save_to_path cd p st w) = Inr ()" "healthy (snd (save_to_path cd p st w))"
    "fs_get (snd (save_to_path cd p st w)) q =
       (if q = TmpOf p then None else if q = p then Some j else fs_get w q)"
proof -
  have neq: "p \<noteq> TmpOf p" by (induction p) auto
  have run: "save_to_path cd p st w = (Inr (), (del_file (TmpOf p) (put_file p j (put_file (TmpOf p) j w)))
      \<lparr>fs_mtime := (fs_mtime (put_file (TmpOf p) j w))
         (p := fs_mtime (put_file (TmpOf p) j w) (TmpOf p))\<rparr>)"
    using assms by (simp add: save_to_path_def io_bind_def healthy_calls)
  show "fst (save_to_path cd p st w) = Inr ()" "healthy (snd (save_to_path cd p st w))"
    "fs_get (snd (save_to_path cd p st w)) q =
       (if q = TmpOf p then None else if q = p then Some j else fs_get w q)"
    using assms neq by (auto simp: run)
qed

interpretation store: session_store "save_json cd" "load_json cd" healthy "storable_state cd" for cd
proof
  fix w st and k j :: "bucket \<times> uuid"
  assume w: "healthy w" and st: "storable_state cd st"
  then obtain t where t: "to_json cd st = Inr t" "from_json cd t = Inr st"
    by (auto simp: storable_state_def split: sum.splits)
  note sv = save_to_path_healthy[OF w t(1)]
  show "healthy (save_json cd k st w)" using sv(2) by (simp add: save_json_def)
  show "load_json cd k (save_json cd k st w) = Some st"
    using sv(2,3) t(2) by (simp add: load_json_def save_json_def load_from_path_def path_exists_def
        healthy_calls)
  assume "j \<noteq> k"
  then have g: "fs_get (save_json cd k st w) (SessionJson (fst j) (snd j)) =
      fs_get w (SessionJson (fst j) (snd j))"
    using sv(3) by (auto simp: save_json_def prod_eq_iff)
  have h: "healthy (save_json cd k st w)" using sv(2) by (simp add: save_json_def)
  show "load_json cd j (save_json cd k st w) = load_json cd j w"
    using g h w by (simp add: load_json_def load_from_path_def path_exists_def fs_read_def split: option.split)
qed

subsection \<open>What the session files promise\<close>

text \<open>
  C9: reading back a session file gives the state of the last save under that bucket and
  id, whatever other session files were written before, between or after; a file never
  written keeps what it had.
\<close>

theorem last_saved_state_loads:
  assumes "healthy w" "\<forall>(k, st) \<in> set saves. storable_state cd st"
  shows "load_json cd j (fold (\<lambda>(k, st). save_json cd k st) saves w) =
    (case map_of (rev saves) j of Some st \<Rightarrow> Some st | None \<Rightarrow> load_json cd j w)"
  using assms by (rule store.last_save_wins)

definition demo_fs :: fs where
  "demo_fs = \<lparr>fs_files = [], fs_mtime = (\<lambda>p. 0), fs_now = 1000, fs_fails = (\<lambda>c p. False),
              fs_torn = (\<lambda>p. [])\<rparr>"

text \<open>A codec that knows two documents: a pinned empty state and an unpinned one.\<close>

definition demo_state :: "bool \<Rightarrow> workspace_state" where
  "demo_state b = workspace_state_new\<lparr>ss_pinned := b\<rparr>"

definition demo_codec :: codec where
  "demo_codec =
     \<lparr>to_json = (\<lambda>st. Inr (if ss_pinned st then ''P'' else ''U'')),
      from_json = (\<lambda>c. if c = ''P'' then Inr (demo_state True)
                       else if c = ''U'' then Inr (demo_state False) else Inl (Msg ''bad'' [])),
      probe_pinned = (\<lambda>c. if c = ''P'' then Inr True else if c = ''U'' then Inr False
                          else Inl (Msg ''bad'' []))\<rparr>"

lemma demo_healthy [simp]: "healthy demo_fs"
  by (simp add: healthy_def demo_fs_def)

lemma demo_fs_get [simp]: "fs_get demo_fs p = None"
  by (simp add: fs_get_def demo_fs_def)

lemma demo_storable [simp]: "storable_state demo_codec (demo_state b)"
  by (cases b) (simp_all add: storable_state_def demo_codec_def demo_state_def)

theorem last_saved_state_loads_witness:
  "load_json demo_codec (Active, 7) (fold (\<lambda>(k, st). save_json demo_codec k st)
     [((Active, 7), demo_state True), ((Trash, 7), demo_state True), ((Active, 7), demo_state False)]
     demo_fs) = Some (demo_state False)"
  using last_saved_state_loads[of demo_fs "[((Active, 7), demo_state True), ((Trash, 7), demo_state True),
      ((Active, 7), demo_state False)]" demo_codec "(Active, 7)"]
  by simp



lemma rename_healthy:
  assumes "healthy w" "fs_get w src = Some c" "src \<noteq> dest"
  shows "fst (rename_with_fallback src dest w) = Inr ()"
    "healthy (snd (rename_with_fallback src dest w))"
    "fs_get (snd (rename_with_fallback src dest w)) q =
       (if q = src then None else if q = dest then Some c else fs_get w q)"
proof -
  have run: "rename_with_fallback src dest w = (Inr (), (del_file src (put_file dest c w))
      \<lparr>fs_mtime := (fs_mtime w)(dest := fs_mtime w src)\<rparr>)"
    using assms by (simp add: rename_with_fallback_def io_bind_def healthy_calls)
  show "fst (rename_with_fallback src dest w) = Inr ()"
    "healthy (snd (rename_with_fallback src dest w))"
    "fs_get (snd (rename_with_fallback src dest w)) q =
       (if q = src then None else if q = dest then Some c else fs_get w q)"
    using assms by (auto simp: run)
qed

text \<open>
  C11: on a clean exit the live file of the session ends in exactly one bucket, \<open>sessions/\<close>
  when pinned and \<open>trash/\<close> when not, with the same content, and no other file changes; an
  undo of the unpinned case puts the directory back as it was, but for the trash entry that
  the exit had replaced.
\<close>

theorem exit_move_then_undo:
  fixes pinned :: bool
  assumes h: "healthy w" and c: "fs_get w (SessionJson Active u) = Some c"
  defines "w' \<equiv> pinned_aware_exit_move u pinned w"
  shows "fs_get w' q = (if q = SessionJson Active u then None
      else if q = SessionJson (if pinned then Sessions else Trash) u then Some c else fs_get w q) \<and>
    (\<not> pinned \<longrightarrow> fst (restore_from_trash_to_active u w') = Inr () \<and>
       fs_get (snd (restore_from_trash_to_active u w')) q =
         (if q = SessionJson Trash u then None else fs_get w q))"
proof -
  let ?b = "if pinned then Sessions else Trash"
  have "w' = snd (rename_with_fallback (SessionJson Active u) (SessionJson ?b u) w)"
    using c by (simp add: w'_def pinned_aware_exit_move_def move_active_to_sessions_def
        move_active_to_trash_def path_exists_def Let_def)
  then have w': "healthy w'" "\<And>q. fs_get w' q = (if q = SessionJson Active u then None
      else if q = SessionJson ?b u then Some c else fs_get w q)"
    using rename_healthy[OF h c, of "SessionJson ?b u"] by auto
  have undo: "\<not> pinned \<Longrightarrow> fst (restore_from_trash_to_active u w') = Inr () \<and>
       fs_get (snd (restore_from_trash_to_active u w')) q =
         (if q = SessionJson Trash u then None else fs_get w q)"
    using rename_healthy[OF w'(1), of "SessionJson Trash u" c "SessionJson Active u"] w'(2) c
    by (simp add: restore_from_trash_to_active_def path_exists_def Let_def)
  then show ?thesis using w'(2) by blast
qed

theorem exit_move_then_undo_witness:
  "fs_get (pinned_aware_exit_move 7 True (put_file (SessionJson Active 7) ''P'' demo_fs))
     (SessionJson Sessions 7) = Some ''P''"
  using exit_move_then_undo[of "put_file (SessionJson Active 7) ''P'' demo_fs" 7 "''P''",
      where q = "SessionJson Sessions 7" and pinned = True]
  by simp

lemma migrate_one_healthy:
  assumes h: "healthy w"
  shows "healthy (migrate_one cd u w)" and
    "fs_get (migrate_one cd u w) q =
       (case fs_get w (SessionJson Sessions u) of
          Some c \<Rightarrow> if probe_pinned cd c = Inr False
                    then (if q = SessionJson Sessions u then None
                          else if q = SessionJson Trash u \<and> fs_get w q = None then Some c
                          else fs_get w q)
                    else fs_get w q
        | None \<Rightarrow> fs_get w q)"
proof -
  let ?p = "SessionJson Sessions u" and ?d = "SessionJson Trash u"
  have "healthy (migrate_one cd u w) \<and> fs_get (migrate_one cd u w) q =
       (case fs_get w ?p of
          Some c \<Rightarrow> if probe_pinned cd c = Inr False
                    then (if q = ?p then None else if q = ?d \<and> fs_get w q = None then Some c
                          else fs_get w q)
                    else fs_get w q
        | None \<Rightarrow> fs_get w q)"
  proof (cases "fs_get w ?p")
    case None
    then show ?thesis using h by (simp add: migrate_one_def read_pinned_field_def fs_read_def Let_def)
  next
    case (Some c)
    then have r: "read_pinned_field cd ?p w = probe_pinned cd c"
      using h by (simp add: read_pinned_field_def healthy_calls)
    show ?thesis
    proof (cases "probe_pinned cd c = Inr False")
      case True
      then show ?thesis
        using Some r h by (cases "fs_get w ?d")
          (auto simp: migrate_one_def path_exists_def healthy_calls Let_def)
    next
      case False
      then have "migrate_one cd u w = w"
        using r h by (auto simp: migrate_one_def Let_def split: sum.split bool.split)
      then show ?thesis using Some False h by simp
    qed
  qed
  then show "healthy (migrate_one cd u w)" and
    "fs_get (migrate_one cd u w) q =
       (case fs_get w (SessionJson Sessions u) of
          Some c \<Rightarrow> if probe_pinned cd c = Inr False
                    then (if q = SessionJson Sessions u then None
                          else if q = SessionJson Trash u \<and> fs_get w q = None then Some c
                          else fs_get w q)
                    else fs_get w q
        | None \<Rightarrow> fs_get w q)" by auto
qed

text \<open>The effect of the migration on one file, as a function of the old directory.\<close>

definition must_migrate :: "codec \<Rightarrow> fs \<Rightarrow> uuid \<Rightarrow> bool" where
  "must_migrate cd w u \<longleftrightarrow>
     (\<exists>c. fs_get w (SessionJson Sessions u) = Some c \<and> probe_pinned cd c = Inr False)"

fun migrated :: "codec \<Rightarrow> fs \<Rightarrow> fpath \<Rightarrow> string option" where
  "migrated cd w (SessionJson Sessions u) =
     (if must_migrate cd w u then None else fs_get w (SessionJson Sessions u))"
| "migrated cd w (SessionJson Trash u) =
     (case fs_get w (SessionJson Trash u) of
        Some c \<Rightarrow> Some c
      | None \<Rightarrow> if must_migrate cd w u then fs_get w (SessionJson Sessions u) else None)"
| "migrated cd w p = fs_get w p"

lemma migrate_other:
  assumes "healthy w" "q \<noteq> SessionJson Sessions u" "q \<noteq> SessionJson Trash u"
  shows "fs_get (migrate_one cd u w) q = fs_get w q"
  using assms by (auto simp: migrate_one_healthy split: option.splits)

lemma fold_migrate:
  assumes "healthy w"
  shows "healthy (fold (migrate_one cd) us w) \<and>
    (\<forall>v. v \<in> set us \<longrightarrow> \<not> must_migrate cd (fold (migrate_one cd) us w) v) \<and>
    (\<forall>q. fs_get (fold (migrate_one cd) us w) q =
       (case q of
          SessionJson Sessions v \<Rightarrow> if v \<in> set us then migrated cd w q else fs_get w q
        | SessionJson Trash v \<Rightarrow> if v \<in> set us then migrated cd w q else fs_get w q
        | _ \<Rightarrow> fs_get w q))"
  using assms
proof (induction us rule: rev_induct)
  case Nil
  then show ?case by (auto split: fpath.splits bucket.splits)
next
  case (snoc u us)
  define w1 where "w1 = fold (migrate_one cd) us w"
  have IH: "healthy w1" "\<And>v. v \<in> set us \<Longrightarrow> \<not> must_migrate cd w1 v"
    "\<And>q. fs_get w1 q = (case q of
          SessionJson Sessions v \<Rightarrow> if v \<in> set us then migrated cd w q else fs_get w q
        | SessionJson Trash v \<Rightarrow> if v \<in> set us then migrated cd w q else fs_get w q
        | _ \<Rightarrow> fs_get w q)"
    using snoc unfolding w1_def by auto
  have w2: "fold (migrate_one cd) (us @ [u]) w = migrate_one cd u w1" by (simp add: w1_def)
  note m = migrate_one_healthy[OF IH(1)]
  have S: "fs_get (migrate_one cd u w1) (SessionJson Sessions v) =
      (if v = u \<and> must_migrate cd w1 u then None else fs_get w1 (SessionJson Sessions v))" for v
    by (auto simp: m must_migrate_def split: option.splits)
  have T: "fs_get (migrate_one cd u w1) (SessionJson Trash v) =
      (if v = u \<and> must_migrate cd w1 u \<and> fs_get w1 (SessionJson Trash u) = None
       then fs_get w1 (SessionJson Sessions u) else fs_get w1 (SessionJson Trash v))" for v
    by (auto simp: m must_migrate_def split: option.splits)
  have mm: "must_migrate cd w1 u \<longleftrightarrow> u \<notin> set us \<and> must_migrate cd w u"
  proof (cases "u \<in> set us")
    case False
    then have "fs_get w1 (SessionJson Sessions u) = fs_get w (SessionJson Sessions u)"
      using IH(3)[of "SessionJson Sessions u"] by simp
    with False show ?thesis by (simp add: must_migrate_def)
  qed (use IH(2) in simp)
  have none: "\<not> must_migrate cd (migrate_one cd u w1) v" if "v \<in> set (us @ [u])" for v
    using that IH(2)[of v] S[of v] by (auto simp: must_migrate_def split: if_splits)
  show ?case
    unfolding w2
  proof (intro conjI allI impI)
    show "healthy (migrate_one cd u w1)" using m(1) .
    show "\<not> must_migrate cd (migrate_one cd u w1) v" if "v \<in> set (us @ [u])" for v
      using none[OF that] .
    fix q
    show "fs_get (migrate_one cd u w1) q = (case q of
          SessionJson Sessions v \<Rightarrow> if v \<in> set (us @ [u]) then migrated cd w q else fs_get w q
        | SessionJson Trash v \<Rightarrow> if v \<in> set (us @ [u]) then migrated cd w q else fs_get w q
        | _ \<Rightarrow> fs_get w q)"
    proof (cases q)
      case (SessionJson b v)
      then show ?thesis
        using S[of v] T[of v] IH(3)[of q] IH(3)[of "SessionJson Sessions u"] mm
          migrate_other[OF IH(1), of q u cd]
        by (cases b) (auto split: option.splits)
    qed (use IH(3)[of q] migrate_other[OF IH(1), of q u cd] in auto)
  qed
qed

text \<open>
  The migration moves every readable unpinned session file to the trash (where a copy
  already there wins), leaves pinned and unreadable ones and every other file alone, writes
  its marker, and a second run does nothing.
\<close>

theorem migration_effect:
  assumes h: "healthy w" and m: "fs_get w MigrationMarker = None"
  shows "fst (run_migration_p018 cd w) = Inr () \<and>
    (\<forall>q. fs_get (snd (run_migration_p018 cd w)) q =
       (if q = MigrationMarker then Some (''p018-v1'' @ [CHR 0x0A]) else migrated cd w q)) \<and>
    run_migration_p018 cd (snd (run_migration_p018 cd w)) = (Inr (), snd (run_migration_p018 cd w))"
proof -
  define w1 where "w1 = fold (migrate_one cd) (bucket_ids Sessions w) w"
  have w1: "healthy w1" "\<And>q. fs_get w1 q = migrated cd w q"
  proof -
    note f = fold_migrate[OF h, of cd "bucket_ids Sessions w", folded w1_def]
    show "healthy w1" using f by blast
    fix q
    have no: "\<not> must_migrate cd w v" if "v \<notin> set (bucket_ids Sessions w)" for v
      using that by (simp add: bucket_ids_iff must_migrate_def)
    have "fs_get w1 q = (case q of
          SessionJson Sessions v \<Rightarrow> if v \<in> set (bucket_ids Sessions w) then migrated cd w q else fs_get w q
        | SessionJson Trash v \<Rightarrow> if v \<in> set (bucket_ids Sessions w) then migrated cd w q else fs_get w q
        | _ \<Rightarrow> fs_get w q)"
      using f by blast
    then show "fs_get w1 q = migrated cd w q"
      using no by (cases q) (auto split: bucket.splits option.splits)
  qed
  have "run_migration_p018 cd w = write_marker w1"
    using h m by (simp add: run_migration_p018_def path_exists_def io_bind_def healthy_calls w1_def)
  also have "\<dots> = (Inr (), put_file MigrationMarker (''p018-v1'' @ [CHR 0x0A]) w1)"
    using w1(1) by (simp add: write_marker_def io_bind_def healthy_calls)
  finally show ?thesis
    using w1(2) by (simp add: run_migration_p018_def path_exists_def)
qed

theorem migration_effect_witness:
  "fs_get (snd (run_migration_p018 demo_codec (put_file (SessionJson Sessions 7) ''U'' demo_fs)))
     (SessionJson Trash 7) = Some ''U''"
  using migration_effect[of "put_file (SessionJson Sessions 7) ''U'' demo_fs" demo_codec]
  by (simp add: must_migrate_def demo_codec_def)

subsection \<open>Pruning the logs\<close>

lemma prune_one_healthy:
  assumes "healthy w"
  shows "healthy (prune_one live p w)" "fs_get (prune_one live p w) q =
    (if q = p \<and> (\<exists>u. log_owner p = Some u \<and> u \<notin> live) then None else fs_get w q)"
  using assms by (auto simp: prune_one_def fs_remove_def split: option.split)

lemma fold_prune:
  "healthy w \<Longrightarrow> fs_get (fold (prune_one live) ps w) q =
     (if q \<in> set ps \<and> (\<exists>u. log_owner q = Some u \<and> u \<notin> live) then None else fs_get w q)"
proof (induction ps arbitrary: w)
  case (Cons p ps)
  then show ?case using Cons.IH[OF prune_one_healthy(1)[OF Cons.prems]]
    by (auto simp: prune_one_healthy(2)[OF Cons.prems])
qed simp

text \<open>
  Pruning deletes exactly the byte logs (and rotation temporaries) of panes outside the
  given set; every other file, of whatever kind, stays.
\<close>

theorem prune_exactly_orphans:
  assumes "healthy w"
  shows "fs_get (prune_orphan_logs live w) q =
    (case log_owner q of Some u \<Rightarrow> if u \<in> live then fs_get w q else None | None \<Rightarrow> fs_get w q)"
proof -
  have "q \<in> set (map fst (fs_files w)) \<longleftrightarrow> fs_get w q \<noteq> None"
    by (simp add: fs_get_def map_of_eq_None_iff)
  then show ?thesis
    using fold_prune[OF assms, of live "map fst (fs_files w)" q] assms
    by (auto simp: prune_orphan_logs_def split: option.splits)
qed

theorem prune_exactly_orphans_witness:
  "fs_get (prune_orphan_logs {3} (put_file (LogFile 4) ''x'' demo_fs)) (LogFile 4) = None"
  using prune_exactly_orphans[of "put_file (LogFile 4) ''x'' demo_fs" "{3}" "LogFile 4"]
  by simp

text \<open>The pane ids a saved state names.\<close>

definition state_pane_ids :: "workspace_state \<Rightarrow> uuid set" where
  "state_pane_ids st = {u. \<exists>ws \<in> set (ss_workspaces st). \<exists>t \<in> set (sw_tabs ws).
     st_pane_id t = Some u \<or> u \<in> set (saved_ids (st_tree t))}"

lemma collect_tree_ids: "collect_pane_ids_from_tree t out = out \<union> set (saved_ids t)"
proof (induction t arbitrary: out)
  case (SLeaf c p)
  then show ?case by (cases p) auto
qed auto

lemma collect_state_ids: "collect_state_pane_ids st out = out \<union> state_pane_ids st"
proof -
  have tabs: "fold collect_tab_pane_ids ts out =
      out \<union> {u. \<exists>t \<in> set ts. st_pane_id t = Some u \<or> u \<in> set (saved_ids (st_tree t))}" for ts out
    by (induction ts arbitrary: out)
       (auto simp: collect_tab_pane_ids_def collect_tree_ids split: option.splits)
  have "fold (\<lambda>ws. fold collect_tab_pane_ids (sw_tabs ws)) wss out = out \<union>
      {u. \<exists>ws \<in> set wss. \<exists>t \<in> set (sw_tabs ws). st_pane_id t = Some u \<or> u \<in> set (saved_ids (st_tree t))}"
    for wss
    by (induction wss arbitrary: out) (auto simp: tabs)
  then show ?thesis by (simp add: collect_state_pane_ids_def state_pane_ids_def)
qed

lemma collect_files_ids:
  "fold (collect_from_file cd w) ps out =
     out \<union> (\<Union>p \<in> set ps. case load_from_path cd p w of Inr (Some st) \<Rightarrow> state_pane_ids st | _ \<Rightarrow> {})"
  by (induction ps arbitrary: out)
     (auto simp: collect_from_file_def collect_state_ids split: sum.splits option.splits)

lemma all_persisted_iff:
  assumes "healthy w"
  shows "u \<in> all_persisted_pane_ids cd w \<longleftrightarrow>
    (\<exists>b sid st. b \<in> {Sessions, Trash} \<and> load_json cd (b, sid) w = Some st \<and> u \<in> state_pane_ids st)"
proof -
  have miss: "load_from_path cd (SessionJson b sid) w = Inr None" if "sid \<notin> set (bucket_ids b w)" for b sid
    using that by (simp add: bucket_ids_iff load_from_path_def path_exists_def)
  have A: "u \<in> (case load_from_path cd (SessionJson b sid) w of Inr (Some st) \<Rightarrow> state_pane_ids st | _ \<Rightarrow> {}) \<longleftrightarrow>
      (\<exists>st. load_json cd (b, sid) w = Some st \<and> u \<in> state_pane_ids st)" for b sid
    by (simp add: load_json_def split: sum.split option.split)
  have B: "load_json cd (b, sid) w = Some st \<Longrightarrow> sid \<in> set (bucket_ids b w)" for b sid st
    using miss[of sid b] by (cases "sid \<in> set (bucket_ids b w)") (simp_all add: load_json_def)
  have 1: "u \<in> (\<Union>p \<in> set (map (SessionJson b) (bucket_ids b w)).
      case load_from_path cd p w of Inr (Some st) \<Rightarrow> state_pane_ids st | _ \<Rightarrow> {}) \<longleftrightarrow>
     (\<exists>sid st. load_json cd (b, sid) w = Some st \<and> u \<in> state_pane_ids st)" for b
    unfolding set_map UN_iff bex_simps A using B by blast
  show ?thesis
    using assms 1[of Sessions] 1[of Trash]
    by (auto simp: all_persisted_pane_ids_def collect_files_ids list_sessions_def
        list_trashed_sessions_def)
qed

text \<open>
  The set of log owners the daemon assembles at start-up leaves out the live bucket:
  the log of a pane that is recorded only in a session under \<open>sessions/active/\<close>, as those
  of every other running daemon are, is deleted by the prune of a daemon that does not own
  the pane itself.
\<close>

theorem prune_deletes_live_sibling_log:
  assumes h: "healthy w" and own: "p \<notin> own"
    and saved: "\<forall>b sid st. load_json cd (b, sid) w = Some st \<and> p \<in> state_pane_ids st \<longrightarrow> b = Active"
  shows "fs_get (prune_orphan_logs (own \<union> all_persisted_pane_ids cd w) w) (LogFile p) = None"
proof -
  have "p \<notin> all_persisted_pane_ids cd w"
    using saved all_persisted_iff[OF h, of p cd] by blast
  moreover have "fs_get (prune_orphan_logs live w) (LogFile p) =
      (if p \<in> live then fs_get w (LogFile p) else None)" for live
    using fold_prune[OF h, of live "map fst (fs_files w)" "LogFile p"] h
    by (auto simp: prune_orphan_logs_def fs_get_def map_of_eq_None_iff)
  ultimately show ?thesis using own by simp
qed

text \<open>A sibling daemon with one pane, 42, saved under \<open>sessions/active/\<close>, and its log.\<close>

definition sibling_codec :: codec where
  "sibling_codec = demo_codec\<lparr>from_json := (\<lambda>c. Inr (demo_state True\<lparr>ss_workspaces :=
     [\<lparr>sw_id = 1, sw_name = [], sw_root_paths = [], sw_tabs =
        [\<lparr>st_title = [], st_tree = SLeaf ''/'' (Some 42), st_pane_id = None, st_active_pane_id = None\<rparr>],
       sw_active_tab = 0, sw_color = None\<rparr>]\<rparr>))\<rparr>"

definition sibling_fs :: fs where
  "sibling_fs = put_file (LogFile 42) ''scrollback'' (put_file (SessionJson Active 9) ''P'' demo_fs)"

theorem prune_deletes_live_sibling_log_witness:
  "fs_get sibling_fs (LogFile 42) = Some ''scrollback'' \<and>
   fs_get (prune_orphan_logs ({5} \<union> all_persisted_pane_ids sibling_codec sibling_fs) sibling_fs)
     (LogFile 42) = None"
proof
  show "fs_get sibling_fs (LogFile 42) = Some ''scrollback''" by (simp add: sibling_fs_def)
  show "fs_get (prune_orphan_logs ({5} \<union> all_persisted_pane_ids sibling_codec sibling_fs) sibling_fs)
     (LogFile 42) = None"
  proof (rule prune_deletes_live_sibling_log)
    show "\<forall>b sid st. load_json sibling_codec (b, sid) sibling_fs = Some st \<and> 42 \<in> state_pane_ids st \<longrightarrow>
        b = Active"
      by (auto simp: load_json_def load_from_path_def path_exists_def sibling_fs_def split: if_splits)
  qed (simp_all add: sibling_fs_def)
qed

end
