(* ===== verification/Protocol.thy ===== *)
theory Protocol
  imports SessionState "HOL-Library.Log_Nat"
begin

section \<open>JSON values and JSON-RPC messages\<close>

text \<open>
  \<open>crates/forgetty-socket/src/protocol.rs\<close>, and the part of \<open>serde_json::Value\<close> the handlers
  read. A number is what \<open>serde_json\<close> keeps: an unsigned or negative 64-bit integer, or a
  finite double, given by its exact value. An object is an association list; the printer and
  the parser of JSON text are parameters (\<open>libs\<close>), as are the \<open>uuid\<close> and \<open>base64\<close> crates.
\<close>

datatype number = PosInt nat | NegInt int | Float rat

datatype json =
  JNull
| JBool bool
| JNum number
| JStr string
| JArr "json list"
| JObj "(string \<times> json) list"

fun json_get :: "json \<Rightarrow> string \<Rightarrow> json option" where
  "json_get (JObj kvs) k = map_of kvs k"
| "json_get _ _ = None"

fun as_str :: "json \<Rightarrow> string option" where
  "as_str (JStr s) = Some s" | "as_str _ = None"

fun as_u64 :: "json \<Rightarrow> nat option" where
  "as_u64 (JNum (PosInt n)) = Some n" | "as_u64 _ = None"

fun as_bool :: "json \<Rightarrow> bool option" where
  "as_bool (JBool b) = Some b" | "as_bool _ = None"

fun as_array :: "json \<Rightarrow> json list option" where
  "as_array (JArr xs) = Some xs" | "as_array _ = None"

text \<open>\<open>params.get(k).and_then(f)\<close>.\<close>

definition param :: "(json \<Rightarrow> 'a option) \<Rightarrow> json \<Rightarrow> string \<Rightarrow> 'a option" where
  "param f params k = Option.bind (json_get params k) f"

subsection \<open>Numbers as floating point values\<close>

text \<open>
  \<open>as_f64\<close> and the cast \<open>as f32\<close>: rounding to the nearest value of the format, ties to even,
  with gradual underflow, and to an infinity above the largest finite value. \<open>prec\<close> is the
  number of significant bits and \<open>emin\<close>, \<open>emax\<close> the exponent range. A negative zero is not
  told from zero.
\<close>

definition exponent_of :: "rat \<Rightarrow> int" where
  "exponent_of x =
     (case quotient_of x of (a, b) \<Rightarrow>
        let k = int (floorlog 2 (nat a)) - int (floorlog 2 (nat b))
        in if 2 powi k \<le> x then k else k - 1)"

definition round_half_even :: "rat \<Rightarrow> int" where
  "round_half_even x =
     (let f = \<lfloor>x\<rfloor>; d = x - of_int f
      in if d < 1/2 then f else if d > 1/2 then f + 1 else if even f then f else f + 1)"

definition ieee_round :: "nat \<Rightarrow> int \<Rightarrow> int \<Rightarrow> rat \<Rightarrow> rat option" where
  "ieee_round prec emin emax x =
     (if x = 0 then Some 0
      else let e = max emin (exponent_of \<bar>x\<bar>);
               q = 2 powi (e - (int prec - 1));
               r = of_int (round_half_even (x / q)) * q
           in if \<bar>r\<bar> \<ge> 2 powi (emax + 1) then None else Some r)"

definition f64_of_rat :: "rat \<Rightarrow> rat" where
  "f64_of_rat x = (case ieee_round 53 (-1022) 1023 x of Some r \<Rightarrow> r | None \<Rightarrow> 0)"

fun as_f64 :: "json \<Rightarrow> rat option" where
  "as_f64 (JNum (PosInt n)) = Some (f64_of_rat (of_nat n))"
| "as_f64 (JNum (NegInt i)) = Some (f64_of_rat (of_int i))"
| "as_f64 (JNum (Float x)) = Some x"
| "as_f64 _ = None"

definition f32_of_f64 :: "rat \<Rightarrow> f32" where
  "f32_of_f64 x =
     (case ieee_round 24 (-126) 127 x of
        Some r \<Rightarrow> Finite r
      | None \<Rightarrow> if x > 0 then PosInf else NegInf)"

subsection \<open>Requests and responses\<close>

definition PARSE_ERROR :: int where "PARSE_ERROR = -32700"
definition INVALID_REQUEST :: int where "INVALID_REQUEST = -32600"
definition METHOD_NOT_FOUND :: int where "METHOD_NOT_FOUND = -32601"
definition INVALID_PARAMS :: int where "INVALID_PARAMS = -32602"
definition INTERNAL_ERROR :: int where "INTERNAL_ERROR = -32603"

lemmas error_codes = PARSE_ERROR_def INVALID_REQUEST_def METHOD_NOT_FOUND_def INVALID_PARAMS_def
  INTERNAL_ERROR_def

record request =
  rq_jsonrpc :: string
  rq_method :: string
  rq_params :: json
  rq_id :: "json option"

record rpc_error =
  re_code :: int
  re_message :: msg
  re_data :: "json option"

record response =
  rp_jsonrpc :: string
  rp_result :: "json option"
  rp_error :: "rpc_error option"
  rp_id :: "json option"

definition success :: "json option \<Rightarrow> json \<Rightarrow> response" where
  "success i r = \<lparr>rp_jsonrpc = ''2.0'', rp_result = Some r, rp_error = None, rp_id = i\<rparr>"

definition error :: "json option \<Rightarrow> int \<Rightarrow> msg \<Rightarrow> response" where
  "error i c m =
     \<lparr>rp_jsonrpc = ''2.0'', rp_result = None,
      rp_error = Some \<lparr>re_code = c, re_message = m, re_data = None\<rparr>, rp_id = i\<rparr>"

text \<open>What the handlers use of the libraries and of the file system.\<close>

record libs =
  parse_request :: "string \<Rightarrow> msg + request"      \<comment> \<open>\<open>serde_json::from_str::<Request>\<close>\<close>
  parse_value :: "string \<Rightarrow> json option"          \<comment> \<open>\<open>serde_json::from_str::<Value>\<close>\<close>
  print_value :: "json \<Rightarrow> string"
  uuid_parse :: "string \<Rightarrow> uuid option"
  uuid_str :: "uuid \<Rightarrow> string"
  b64_decode :: "string \<Rightarrow> byte list option"
  b64_encode :: "byte list \<Rightarrow> string"
  is_dir :: "path \<Rightarrow> bool"
  host_name :: string
  qr_png :: "string \<Rightarrow> msg + byte list"

definition parse :: "libs \<Rightarrow> string \<Rightarrow> response + request" where
  "parse L input =
     (case parse_request L input of
        Inl e \<Rightarrow> Inl (error None PARSE_ERROR (Msg ''Parse error: {e}'' [AMsg e]))
      | Inr r \<Rightarrow>
          if rq_jsonrpc r \<noteq> ''2.0''
          then Inl (error (rq_id r) INVALID_REQUEST
                 (Msg ''Invalid JSON-RPC version, expected \"2.0\"'' []))
          else if rq_method r = []
          then Inl (error (rq_id r) INVALID_REQUEST (Msg ''Method must not be empty'' []))
          else Inr r)"

text \<open>A response is either a result or an error, and says which request it answers.\<close>

definition well_formed_response :: "response \<Rightarrow> bool" where
  "well_formed_response r \<longleftrightarrow>
     rp_jsonrpc r = ''2.0'' \<and> (rp_result r = None) \<noteq> (rp_error r = None)"

lemma response_simps [simp]:
  "rp_error (success i r) = None" "rp_result (success i r) = Some r" "rp_id (success i r) = i"
  "rp_error (error i c m) = Some \<lparr>re_code = c, re_message = m, re_data = None\<rparr>"
  "rp_result (error i c m) = None" "rp_id (error i c m) = i"
  "well_formed_response (success i r)" "well_formed_response (error i c m)"
  by (simp_all add: success_def error_def well_formed_response_def)

definition ok_json :: json where
  "ok_json = JObj [(''ok'', JBool True)]"

definition error_code :: "response \<Rightarrow> int option" where
  "error_code r = map_option re_code (rp_error r)"

lemma error_code_simps [simp]:
  "error_code (success i r) = None" "error_code (error i c m) = Some c"
  by (simp_all add: error_code_def)

end
