(* ===== verification/Sync.thy ===== *)
theory Sync
  imports Persistence Protocol
begin

section \<open>Paired devices\<close>

text \<open>
  \<open>crates/forgetty-sync\<close>: the registry of authorised devices with its file
  (\<open>registry.rs\<close>), the pairing decision (\<open>pairing.rs\<close>), the pairing window and the choice of
  a handler by ALPN (\<open>endpoint.rs\<close>). The iroh transport itself is not under the repository:
  a connection is the record of what the peer does, and the result says what was sent and
  how the connection was closed. Time is a number of seconds since the epoch, given to the
  functions that read the clock.
\<close>

subsection \<open>Time stamps\<close>

definition is_leap :: "nat \<Rightarrow> bool" where
  "is_leap y \<longleftrightarrow> (y mod 4 = 0 \<and> y mod 100 \<noteq> 0) \<or> y mod 400 = 0"

definition months_of :: "nat \<Rightarrow> nat list" where
  "months_of y =
     (if is_leap y then [31, 29, 31, 30, 31, 30, 31, 31, 30, 31, 30, 31]
      else [31, 28, 31, 30, 31, 30, 31, 31, 30, 31, 30, 31])"

definition year_days :: "nat \<Rightarrow> nat" where
  "year_days y = (if is_leap y then 366 else 365)"

text \<open>The two loops of \<open>days_to_ymd\<close>.\<close>

function year_loop :: "nat \<Rightarrow> nat \<Rightarrow> nat \<times> nat" where
  "year_loop days y =
     (let dy = year_days y in if days < dy then (days, y) else year_loop (days - dy) (y + 1))"
  by auto
termination
  by (relation "measure fst") (auto simp: year_days_def split: if_splits)

declare year_loop.simps [simp del]

fun month_loop :: "nat \<Rightarrow> nat \<Rightarrow> nat list \<Rightarrow> nat \<times> nat" where
  "month_loop days m [] = (days, m)"
| "month_loop days m (dm # rest) =
     (if days < dm then (days, m) else month_loop (days - dm) (m + 1) rest)"

text \<open>A calendar date, ordered as the calendar orders it.\<close>

datatype civil_date = Civil (cd_year: nat) (cd_month: nat) (cd_day: nat)

instantiation civil_date :: linorder
begin

definition less_civil_date :: "civil_date \<Rightarrow> civil_date \<Rightarrow> bool" where
  "less_civil_date a b \<longleftrightarrow>
     cd_year a < cd_year b \<or>
     cd_year a = cd_year b \<and> (cd_month a < cd_month b \<or>
       cd_month a = cd_month b \<and> cd_day a < cd_day b)"

definition less_eq_civil_date :: "civil_date \<Rightarrow> civil_date \<Rightarrow> bool" where
  "less_eq_civil_date a b \<longleftrightarrow> a = b \<or> a < b"

instance
proof
  fix a b c :: civil_date
  show "a < b \<longleftrightarrow> a \<le> b \<and> \<not> b \<le> a"
    by (auto simp: less_civil_date_def less_eq_civil_date_def)
  show "a \<le> a" by (simp add: less_eq_civil_date_def)
  show "a \<le> b \<Longrightarrow> b \<le> c \<Longrightarrow> a \<le> c" "a \<le> b \<Longrightarrow> b \<le> a \<Longrightarrow> a = b"
    by (auto simp: less_civil_date_def less_eq_civil_date_def)
  show "a \<le> b \<or> b \<le> a"
    by (cases a; cases b) (auto simp: less_civil_date_def less_eq_civil_date_def)
qed

end

definition days_to_ymd :: "nat \<Rightarrow> civil_date" where
  "days_to_ymd days =
     (case year_loop days 1970 of (d, y) \<Rightarrow>
        case month_loop d 1 (months_of y) of (d', m) \<Rightarrow> Civil y m (d' + 1))"

fun dec_digits :: "nat \<Rightarrow> string" where
  "dec_digits n = (if n < 10 then [char_of (48 + n)]
                   else dec_digits (n div 10) @ [char_of (48 + n mod 10)])"

declare dec_digits.simps [simp del]

definition zero_pad :: "nat \<Rightarrow> nat \<Rightarrow> string" where
  "zero_pad w n = (let s = dec_digits n in replicate (w - length s) (CHR ''0'') @ s)"

definition iso8601 :: "nat \<Rightarrow> string" where
  "iso8601 secs =
     (let s = secs mod 86400
      in case days_to_ymd (secs div 86400) of Civil y m d \<Rightarrow>
           zero_pad 4 y @ ''-'' @ zero_pad 2 m @ ''-'' @ zero_pad 2 d @ ''T'' @
           zero_pad 2 (s div 3600) @ '':'' @ zero_pad 2 (s mod 3600 div 60) @ '':'' @
           zero_pad 2 (s mod 60) @ ''Z'')"

subsection \<open>The registry\<close>

record device_entry =
  de_device_id :: string
  de_name :: string
  de_paired_at :: string
  de_last_seen :: "string option"

record device_registry =
  dr_path :: fpath
  dr_devices :: "device_entry list"

record device_codec =
  devices_to_json :: "device_entry list \<Rightarrow> msg + string"
  devices_from_json :: "string \<Rightarrow> msg + device_entry list"

definition registry_path :: fpath where
  "registry_path = OtherFile ''authorized_devices.json''"

definition registry_load :: "device_codec \<Rightarrow> fs \<Rightarrow> device_registry io" where
  "registry_load dc w =
     (let p = registry_path;
          w1 = (if path_exists (TmpOf p) w then snd (fs_remove (TmpOf p) w) else w)
      in if path_exists p w1
         then (case fs_read p w1 of
                 Inl e \<Rightarrow> (Inl e, w1)
               | Inr data \<Rightarrow>
                   (case devices_from_json dc data of
                      Inl e \<Rightarrow> (Inl e, w1)
                    | Inr ds \<Rightarrow> (Inr \<lparr>dr_path = p, dr_devices = ds\<rparr>, w1)))
         else (Inr \<lparr>dr_path = p, dr_devices = []\<rparr>, w1))"

definition is_authorized :: "device_registry \<Rightarrow> string \<Rightarrow> bool" where
  "is_authorized r i \<longleftrightarrow> (\<exists>d \<in> set (dr_devices r). de_device_id d = i)"

definition registry_save :: "device_codec \<Rightarrow> device_registry \<Rightarrow> fs \<Rightarrow> unit io" where
  "registry_save dc r w =
     (let tmp = TmpOf (dr_path r)
      in io_bind (fs_mkdir_for (dr_path r) w) (\<lambda>_ w1.
           case devices_to_json dc (dr_devices r) of
             Inl e \<Rightarrow> (Inl e, w1)
           | Inr json \<Rightarrow> io_bind (fs_write tmp json w1) (\<lambda>_ w2. fs_rename tmp (dr_path r) w2)))"

definition registry_add :: "device_codec \<Rightarrow> device_entry \<Rightarrow> device_registry \<Rightarrow> fs \<Rightarrow>
    (msg + unit) \<times> device_registry \<times> fs" where
  "registry_add dc e r w =
     (let r1 = r\<lparr>dr_devices := dr_devices r @ [e]\<rparr>
      in case registry_save dc r1 w of (res, w1) \<Rightarrow> (res, r1, w1))"

definition registry_remove :: "device_codec \<Rightarrow> string \<Rightarrow> device_registry \<Rightarrow> fs \<Rightarrow>
    (msg + bool) \<times> device_registry \<times> fs" where
  "registry_remove dc i r w =
     (let r1 = r\<lparr>dr_devices := [d \<leftarrow> dr_devices r. de_device_id d \<noteq> i]\<rparr>;
          removed = length (dr_devices r1) < length (dr_devices r)
      in if removed
         then (case registry_save dc r1 w of
                 (Inl e, w1) \<Rightarrow> (Inl e, r1, w1)
               | (Inr _, w1) \<Rightarrow> (Inr True, r1, w1))
         else (Inr False, r1, w))"

definition registry_list :: "device_registry \<Rightarrow> device_entry list" where
  "registry_list r = dr_devices r"

text \<open>The first entry with the id gets the time; the file is written in any case.\<close>

fun set_last_seen :: "string \<Rightarrow> string \<Rightarrow> device_entry list \<Rightarrow> device_entry list" where
  "set_last_seen i t [] = []"
| "set_last_seen i t (d # ds) =
     (if de_device_id d = i then d\<lparr>de_last_seen := Some t\<rparr> # ds else d # set_last_seen i t ds)"

definition update_last_seen :: "device_codec \<Rightarrow> nat \<Rightarrow> string \<Rightarrow> device_registry \<Rightarrow> fs \<Rightarrow>
    (msg + unit) \<times> device_registry \<times> fs" where
  "update_last_seen dc now i r w =
     (let r1 = r\<lparr>dr_devices := set_last_seen i (iso8601 now) (dr_devices r)\<rparr>
      in case registry_save dc r1 w of (res, w1) \<Rightarrow> (res, r1, w1))"

subsection \<open>The endpoint\<close>

datatype sync_event =
  DevicePaired device_entry
| DeviceRevoked string
| DeviceConnected string
| DeviceDisconnected string

text \<open>
  \<open>SyncEndpoint\<close>: the registry, the pairing flag, the sleeping tasks that will clear it (by
  the second at which they wake), the registered ALPNs and the events sent.
\<close>

record sync =
  sy_registry :: device_registry
  sy_allow_pairing :: bool
  sy_timers :: "nat list"
  sy_extra_alpns :: "string list"
  sy_events :: "sync_event list"
  sy_node_id :: string

definition FORGETTY_PAIRING_ALPN :: string where
  "FORGETTY_PAIRING_ALPN = ''forgetty/pair/1''"

definition emit_sync :: "sync_event \<Rightarrow> sync \<Rightarrow> sync" where
  "emit_sync e y = y\<lparr>sy_events := sy_events y @ [e]\<rparr>"

definition enable_pairing :: "nat \<Rightarrow> nat \<Rightarrow> sync \<Rightarrow> sync" where
  "enable_pairing now secs y =
     y\<lparr>sy_allow_pairing := True, sy_timers := sy_timers y @ [now + secs]\<rparr>"

text \<open>The clock reaches \<open>now\<close>: every task that has slept long enough clears the flag.\<close>

definition timers_fire :: "nat \<Rightarrow> sync \<Rightarrow> sync" where
  "timers_fire now y =
     (if \<exists>t \<in> set (sy_timers y). t \<le> now
      then y\<lparr>sy_allow_pairing := False, sy_timers := [t \<leftarrow> sy_timers y. now < t]\<rparr>
      else y)"

subsection \<open>Pairing\<close>

text \<open>
  What the peer does: its id, whether it accepts a stream and takes what is written to it,
  and the bytes it sends before it closes the stream, if that is done within the five seconds.
\<close>

record peer =
  pc_id :: string
  pc_accepts :: bool
  pc_takes :: bool
  pc_reply :: "byte list option"

datatype wire_msg = Greeting string | NotAuthorized

record conn_result =
  cr_sent :: "wire_msg list"
  cr_close :: "nat \<times> string"

fun cont_byte :: "nat \<Rightarrow> bool" where
  "cont_byte b \<longleftrightarrow> 128 \<le> b \<and> b < 192"

text \<open>\<open>String::from_utf8\<close>; a string is kept as its UTF-8 bytes.\<close>

fun utf8_valid :: "nat list \<Rightarrow> bool" where
  "utf8_valid [] \<longleftrightarrow> True"
| "utf8_valid (a # rest) \<longleftrightarrow>
     (if a < 128 then utf8_valid rest
      else case rest of
        [] \<Rightarrow> False
      | b # rest1 \<Rightarrow>
          if 194 \<le> a \<and> a < 224 then cont_byte b \<and> utf8_valid rest1
          else case rest1 of
            [] \<Rightarrow> False
          | c # rest2 \<Rightarrow>
              if 224 \<le> a \<and> a < 240
              then (if a = 224 then 160 \<le> b \<and> b < 192
                    else if a = 237 then 128 \<le> b \<and> b < 160 else cont_byte b) \<and>
                   cont_byte c \<and> utf8_valid rest2
              else case rest2 of
                [] \<Rightarrow> False
              | d # rest3 \<Rightarrow>
                  240 \<le> a \<and> a < 245 \<and>
                  (if a = 240 then 144 \<le> b \<and> b < 192
                   else if a = 244 then 128 \<le> b \<and> b < 144 else cont_byte b) \<and>
                  cont_byte c \<and> cont_byte d \<and> utf8_valid rest3)"

definition from_utf8 :: "byte list \<Rightarrow> string option" where
  "from_utf8 bs =
     (if utf8_valid (map unat bs) then Some (map (\<lambda>b. char_of (unat b)) bs) else None)"

text \<open>The byte loop of \<open>read_line_from_recv\<close>; \<open>buf\<close> is what it has collected.\<close>

fun read_line_loop :: "byte list \<Rightarrow> byte list \<Rightarrow> byte list" where
  "read_line_loop buf [] = buf"
| "read_line_loop buf (b # bs) =
     (if b = 10 then buf
      else let buf' = buf @ [b]
           in if length buf' > 4096 then buf' else read_line_loop buf' bs)"

definition read_line_from_recv :: "byte list \<Rightarrow> string option" where
  "read_line_from_recv bs =
     (let buf = read_line_loop [] bs in if buf = [] then None else from_utf8 buf)"

definition read_client_name :: "libs \<Rightarrow> peer \<Rightarrow> string option \<times> wire_msg list" where
  "read_client_name L c =
     (if \<not> pc_accepts c then (None, [])
      else if \<not> pc_takes c then (None, [])
      else (case Option.bind (pc_reply c) read_line_from_recv of
              None \<Rightarrow> None
            | Some line \<Rightarrow>
                param as_str (case parse_value L line of Some v \<Rightarrow> v | None \<Rightarrow> JNull) ''name'',
            [Greeting (host_name L)]))"

definition reject_connection :: "peer \<Rightarrow> wire_msg list" where
  "reject_connection c = (if pc_accepts c \<and> pc_takes c then [NotAuthorized] else [])"

definition handle_connection ::
  "libs \<Rightarrow> device_codec \<Rightarrow> nat \<Rightarrow> bool \<Rightarrow> peer \<Rightarrow> sync \<Rightarrow> fs \<Rightarrow> conn_result \<times> sync \<times> fs" where
  "handle_connection L dc now allow_pairing c y w =
     (let i = pc_id c
      in if is_authorized (sy_registry y) i
         then (case update_last_seen dc now i (sy_registry y) w of (_, r1, w1) \<Rightarrow>
                 (\<lparr>cr_sent = [], cr_close = (0, ''connected-ok'')\<rparr>,
                  emit_sync (DeviceConnected i) (y\<lparr>sy_registry := r1\<rparr>), w1))
         else if allow_pairing
         then (case read_client_name L c of (reply, sent) \<Rightarrow>
                 let name = (case reply of Some n \<Rightarrow> n | None \<Rightarrow> ''device-'' @ dec_digits now);
                     entry = \<lparr>de_device_id = i, de_name = name, de_paired_at = iso8601 now,
                              de_last_seen = None\<rparr>
                 in case registry_add dc entry (sy_registry y) w of (_, r1, w1) \<Rightarrow>
                      (\<lparr>cr_sent = sent, cr_close = (0, ''paired-ok'')\<rparr>,
                       emit_sync (DevicePaired entry) (y\<lparr>sy_registry := r1\<rparr>), w1))
         else (\<lparr>cr_sent = reject_connection c, cr_close = (1, ''not-authorized'')\<rparr>, y, w))"

text \<open>
  One turn of the accept loop, for a connection whose handshake succeeds: the pairing flag is
  read when the connection arrives. A registered handler gets the connection and the
  registry; what it does is the business of its own theory.
\<close>

datatype accepted = Paired conn_result | Handled string | Unknown conn_result

definition accept_one ::
  "libs \<Rightarrow> device_codec \<Rightarrow> nat \<Rightarrow> string \<Rightarrow> peer \<Rightarrow> sync \<Rightarrow> fs \<Rightarrow> accepted \<times> sync \<times> fs" where
  "accept_one L dc now alpn c y w =
     (if alpn = FORGETTY_PAIRING_ALPN
      then (case handle_connection L dc now (sy_allow_pairing y) c y w of
              (res, y1, w1) \<Rightarrow> (Paired res, y1, w1))
      else if alpn \<in> set (sy_extra_alpns y) then (Handled alpn, y, w)
      else (Unknown \<lparr>cr_sent = [], cr_close = (1, ''unknown-alpn'')\<rparr>, y, w))"

text \<open>Revoking, as the RPC does it.\<close>

definition revoke_device :: "device_codec \<Rightarrow> string \<Rightarrow> sync \<Rightarrow> fs \<Rightarrow> (msg + bool) \<times> sync \<times> fs" where
  "revoke_device dc i y w =
     (case registry_remove dc i (sy_registry y) w of (res, r1, w1) \<Rightarrow>
        let y1 = y\<lparr>sy_registry := r1\<rparr>
        in (res, if res = Inr True then emit_sync (DeviceRevoked i) y1 else y1, w1))"

end
