(* ===== verification/SyncProps.thy ===== *)
theory SyncProps
  imports Sync
begin

section \<open>Properties of pairing and the device registry\<close>

subsection \<open>The calendar\<close>

text \<open>What a date means: the number of days since 1970-01-01.\<close>

definition valid_date :: "civil_date \<Rightarrow> bool" where
  "valid_date c \<longleftrightarrow> 1970 \<le> cd_year c \<and> 1 \<le> cd_month c \<and> cd_month c \<le> 12 \<and>
     1 \<le> cd_day c \<and> cd_day c \<le> months_of (cd_year c) ! (cd_month c - 1)"

definition year_start :: "nat \<Rightarrow> nat" where
  "year_start y = sum_list (map year_days [1970..<y])"

definition month_start :: "nat \<Rightarrow> nat \<Rightarrow> nat" where
  "month_start y m = sum_list (take (m - 1) (months_of y))"

definition day_number :: "civil_date \<Rightarrow> nat" where
  "day_number c = year_start (cd_year c) + month_start (cd_year c) (cd_month c) + (cd_day c - 1)"

lemma length_months_of [simp]: "length (months_of y) = 12"
  by (simp add: months_of_def)

lemma sum_months_of [simp]: "sum_list (months_of y) = year_days y"
  by (simp add: months_of_def year_days_def)

lemma year_loop_result:
  assumes "year_loop days y = (d, y')"
  shows "y \<le> y' \<and> d < year_days y' \<and> sum_list (map year_days [y..<y']) + d = days"
  using assms
proof (induction days y arbitrary: d y' rule: year_loop.induct)
  case (1 days y)
  show ?case
  proof (cases "days < year_days y")
    case True
    then show ?thesis using "1.prems" by (simp add: year_loop.simps)
  next
    case False
    then have "year_loop (days - year_days y) (y + 1) = (d, y')"
      using "1.prems" by (subst (asm) year_loop.simps) simp
    with "1.IH" False have ih: "y + 1 \<le> y'" "d < year_days y'"
      "sum_list (map year_days [y + 1..<y']) + d = days - year_days y" by auto
    then have "[y..<y'] = y # [y + 1..<y']" by (simp add: upt_conv_Cons)
    with ih False show ?thesis by simp
  qed
qed

lemma month_loop_result:
  assumes "d < sum_list ms" "month_loop d m ms = (d', m')"
  shows "m \<le> m' \<and> m' < m + length ms \<and> d' < ms ! (m' - m) \<and> sum_list (take (m' - m) ms) + d' = d"
  using assms
proof (induction ms arbitrary: d m)
  case (Cons dm ms)
  show ?case
  proof (cases "d < dm")
    case True then show ?thesis using Cons.prems by simp
  next
    case False
    then have *: "Suc m \<le> m'" "m' < Suc m + length ms" "d' < ms ! (m' - Suc m)"
      "sum_list (take (m' - Suc m) ms) + d' = d - dm"
      using Cons.IH [of "d - dm" "Suc m"] Cons.prems by auto
    then have "m' - m = Suc (m' - Suc m)" by simp
    with * False show ?thesis by simp
  qed
qed simp

lemma sum_take_Suc:
  "k < length xs \<Longrightarrow> sum_list (take (Suc k) xs) = sum_list (take k xs) + (xs ! k :: nat)"
  by (simp add: take_Suc_conv_app_nth)

lemma sum_take_mono: "i \<le> j \<Longrightarrow> sum_list (take i xs) \<le> (sum_list (take j xs) :: nat)"
  by (metis le_add1 le_add_diff_inverse sum_list.append take_add)

lemma month_end:
  assumes "1 \<le> m" "m \<le> 12"
  shows "month_start y m + months_of y ! (m - 1) = sum_list (take m (months_of y))"
  using assms sum_take_Suc [of "m - 1" "months_of y"] by (simp add: month_start_def)

lemma day_in_year:
  assumes "valid_date c"
  shows "month_start (cd_year c) (cd_month c) + (cd_day c - 1) < year_days (cd_year c)"
proof -
  have "sum_list (take (cd_month c) (months_of (cd_year c))) \<le> year_days (cd_year c)"
    using sum_take_mono [of "cd_month c" 12 "months_of (cd_year c)"] assms
    by (simp add: valid_date_def)
  moreover have "cd_day c - 1 < months_of (cd_year c) ! (cd_month c - 1)"
    using assms by (auto simp: valid_date_def)
  ultimately show ?thesis
    using month_end [of "cd_month c" "cd_year c"] assms by (simp add: valid_date_def)
qed

lemma year_start_Suc: "1970 \<le> y \<Longrightarrow> year_start (Suc y) = year_start y + year_days y"
  by (simp add: year_start_def)

lemma year_start_mono: "y \<le> y' \<Longrightarrow> year_start y \<le> year_start y'"
proof (induction y' rule: dec_induct)
  case (step n)
  have "year_start n \<le> year_start (Suc n)" by (auto simp: year_start_def)
  with step show ?case by simp
qed simp

lemma day_number_less:
  assumes "valid_date a" "valid_date b" "a < b"
  shows "day_number a < day_number b"
proof (cases "cd_year a < cd_year b")
  case True
  then have "year_start (Suc (cd_year a)) \<le> year_start (cd_year b)"
    by (intro year_start_mono) simp
  then show ?thesis
    using day_in_year [OF assms(1)] assms(1) by (simp add: day_number_def year_start_Suc valid_date_def)
next
  case False
  with assms(3) have y: "cd_year a = cd_year b" by (auto simp: less_civil_date_def)
  show ?thesis
  proof (cases "cd_month a < cd_month b")
    case True
    then have "sum_list (take (cd_month a) (months_of (cd_year b))) \<le> month_start (cd_year b) (cd_month b)"
      unfolding month_start_def by (intro sum_take_mono) simp
    moreover have "cd_day a - 1 < months_of (cd_year b) ! (cd_month a - 1)"
      using assms(1) y by (auto simp: valid_date_def)
    ultimately show ?thesis
      using month_end [of "cd_month a" "cd_year b"] assms(1) y
      by (simp add: day_number_def valid_date_def)
  next
    case False
    with assms y show ?thesis by (auto simp: day_number_def less_civil_date_def valid_date_def)
  qed
qed

lemma days_to_ymd_sound: "valid_date (days_to_ymd n) \<and> day_number (days_to_ymd n) = n"
proof -
  obtain d y where yl: "year_loop n 1970 = (d, y)" by fastforce
  obtain d' m where ml: "month_loop d 1 (months_of y) = (d', m)" by fastforce
  note Y = year_loop_result [OF yl]
  then have "d < sum_list (months_of y)" by simp
  from month_loop_result [OF this ml] Y yl ml show ?thesis
    by (auto simp: days_to_ymd_def valid_date_def day_number_def year_start_def month_start_def)
qed

lemma day_number_inj: "valid_date a \<Longrightarrow> valid_date b \<Longrightarrow> day_number a = day_number b \<Longrightarrow> a = b"
  by (metis day_number_less less_irrefl linorder_neqE)



subsection \<open>The registry and its file\<close>

text \<open>What is used of \<open>serde_json\<close>: a list of devices that was printed parses back.\<close>

definition device_storable :: "device_codec \<Rightarrow> device_entry list \<Rightarrow> bool" where
  "device_storable dc ds \<longleftrightarrow>
     (case devices_to_json dc ds of Inl _ \<Rightarrow> False | Inr j \<Rightarrow> devices_from_json dc j = Inr ds)"

definition registry_of :: "device_entry list \<Rightarrow> device_registry" where
  "registry_of ds = \<lparr>dr_path = registry_path, dr_devices = ds\<rparr>"

definition save_devices :: "device_codec \<Rightarrow> unit \<Rightarrow> device_entry list \<Rightarrow> fs \<Rightarrow> fs" where
  "save_devices dc k ds w = snd (registry_save dc (registry_of ds) w)"

definition load_devices :: "device_codec \<Rightarrow> unit \<Rightarrow> fs \<Rightarrow> device_entry list option" where
  "load_devices dc k w =
     (case fst (registry_load dc w) of Inr r \<Rightarrow> Some (dr_devices r) | Inl _ \<Rightarrow> None)"

lemma registry_path_simps [simp]: "TmpOf registry_path \<noteq> registry_path" "registry_path \<noteq> TmpOf registry_path"
  by (simp_all add: registry_path_def)

lemma registry_load_found:
  assumes "healthy w" "fs_get w (TmpOf registry_path) = None" "fs_get w registry_path = Some j"
    "devices_from_json dc j = Inr ds"
  shows "fst (registry_load dc w) = Inr (registry_of ds)"
  using assms by (simp add: registry_load_def path_exists_def healthy_calls registry_of_def Let_def)

lemma registry_save_healthy:
  assumes "healthy w" "device_storable dc ds"
  shows "fst (registry_save dc (registry_of ds) w) = Inr ()"
    "healthy (snd (registry_save dc (registry_of ds) w))"
    "fst (registry_load dc (snd (registry_save dc (registry_of ds) w))) = Inr (registry_of ds)"
proof -
  obtain j where j: "devices_to_json dc ds = Inr j" "devices_from_json dc j = Inr ds"
    using assms(2) by (auto simp: device_storable_def split: sum.splits)
  have run: "registry_save dc (registry_of ds) w =
      (Inr (), (del_file (TmpOf registry_path) (put_file registry_path j (put_file (TmpOf registry_path) j w)))
      \<lparr>fs_mtime := (fs_mtime (put_file (TmpOf registry_path) j w))
         (registry_path := fs_mtime (put_file (TmpOf registry_path) j w) (TmpOf registry_path))\<rparr>)"
    using assms(1) j by (simp add: registry_save_def registry_of_def io_bind_def healthy_calls Let_def)
  show "fst (registry_save dc (registry_of ds) w) = Inr ()"
    "healthy (snd (registry_save dc (registry_of ds) w))"
    using assms(1) by (simp_all add: run)
  show "fst (registry_load dc (snd (registry_save dc (registry_of ds) w))) = Inr (registry_of ds)"
    by (rule registry_load_found) (use assms(1) j in \<open>simp_all add: run\<close>)
qed

interpretation registry_store: session_store "save_devices dc" "load_devices dc" healthy
  "device_storable dc" for dc
  by unfold_locales
    (simp_all add: save_devices_def load_devices_def registry_save_healthy registry_of_def [symmetric],
     simp_all add: registry_of_def)

datatype registry_op = RAdd device_entry | RRemove string | RSeen nat string

fun run_registry_op :: "device_codec \<Rightarrow> registry_op \<Rightarrow> device_registry \<Rightarrow> fs \<Rightarrow> device_registry \<times> fs" where
  "run_registry_op dc (RAdd e) r w = snd (registry_add dc e r w)"
| "run_registry_op dc (RRemove i) r w = snd (registry_remove dc i r w)"
| "run_registry_op dc (RSeen now i) r w = snd (update_last_seen dc now i r w)"

text \<open>The registry in memory is what the next start would load.\<close>

definition registry_synced :: "device_codec \<Rightarrow> device_registry \<Rightarrow> fs \<Rightarrow> bool" where
  "registry_synced dc r w \<longleftrightarrow> dr_path r = registry_path \<and> fst (registry_load dc w) = Inr r"

lemma registry_eta: "dr_path r = registry_path \<Longrightarrow> r = registry_of (dr_devices r)"
  by (cases r) (simp add: registry_of_def)

lemma saved_registry_synced:
  assumes "healthy w" "dr_path r = registry_path" "device_storable dc (dr_devices r)"
  shows "registry_synced dc r (snd (registry_save dc r w)) \<and> healthy (snd (registry_save dc r w))"
  using registry_save_healthy [OF assms(1,3)] registry_eta [OF assms(2)] assms(2)
  by (metis registry_synced_def)

lemma remove_nothing:
  "\<not> length [d \<leftarrow> dr_devices r. de_device_id d \<noteq> i] < length (dr_devices r) \<Longrightarrow>
     r\<lparr>dr_devices := [d \<leftarrow> dr_devices r. de_device_id d \<noteq> i]\<rparr> = r"
  using length_filter_less [of _ "dr_devices r" "\<lambda>d. de_device_id d \<noteq> i"]
  by (cases r) (auto simp: filter_id_conv)

text \<open>
  On a disk that works, after every add, removal and time stamp of a device the file
  holds exactly the registry that is in memory, so the next start of the daemon loads it; a
  removal that finds nothing changes neither the registry nor the disk.
\<close>

theorem registry_survives_restart:
  assumes "healthy w" "registry_synced dc r w"
    and "run_registry_op dc op r w = (r', w')" "device_storable dc (dr_devices r')"
  shows "registry_synced dc r' w' \<and> healthy w' \<and>
         (\<forall>i. op = RRemove i \<and> \<not> is_authorized r i \<longrightarrow> r' = r \<and> w' = w)"
proof -
  have path: "dr_path r = registry_path" using assms(2) by (simp add: registry_synced_def)
  have saved: "registry_synced dc r' w' \<and> healthy w'"
    if "w' = snd (registry_save dc r' w)" "dr_path r' = registry_path"
    using saved_registry_synced [OF assms(1) that(2) assms(4)] that(1) by simp
  show ?thesis
  proof (cases op)
    case (RAdd e)
    then have "w' = snd (registry_save dc r' w)" "dr_path r' = registry_path"
      using assms(3) path by (auto simp: registry_add_def Let_def split: prod.splits)
    then show ?thesis using saved RAdd by simp
  next
    case (RSeen now i)
    then have "w' = snd (registry_save dc r' w)" "dr_path r' = registry_path"
      using assms(3) path by (auto simp: update_last_seen_def Let_def split: prod.splits)
    then show ?thesis using saved RSeen by simp
  next
    case (RRemove i)
    let ?r = "r\<lparr>dr_devices := [d \<leftarrow> dr_devices r. de_device_id d \<noteq> i]\<rparr>"
    show ?thesis
    proof (cases "length (dr_devices ?r) < length (dr_devices r)")
      case True
      then have "r' = ?r" "w' = snd (registry_save dc r' w)"
        using assms(3) RRemove by (auto simp: registry_remove_def Let_def split: prod.splits sum.splits)
      then have "registry_synced dc r' w' \<and> healthy w'" using saved path by simp
      moreover have "is_authorized r i"
      proof (rule ccontr)
        assume "\<not> is_authorized r i"
        then have "[d \<leftarrow> dr_devices r. de_device_id d \<noteq> i] = dr_devices r"
          by (auto simp: is_authorized_def filter_id_conv)
        with True show False by simp
      qed
      ultimately show ?thesis using RRemove by simp
    next
      case False
      then have "r' = ?r" "w' = w"
        using assms(3) RRemove by (auto simp: registry_remove_def Let_def)
      with remove_nothing [of i r] False have "r' = r" by simp
      with \<open>w' = w\<close> assms(1,2) show ?thesis by simp
    qed
  qed
qed

definition phone :: device_entry where
  "phone = \<lparr>de_device_id = ''n1'', de_name = ''phone'', de_paired_at = ''t'', de_last_seen = None\<rparr>"

text \<open>A codec that knows the empty list and the list of that one device.\<close>

definition demo_devices :: device_codec where
  "demo_devices =
     \<lparr>devices_to_json = (\<lambda>ds. Inr (if ds = [] then ''[]'' else ''[phone]'')),
      devices_from_json = (\<lambda>t. Inr (if t = ''[]'' then [] else [phone]))\<rparr>"

theorem registry_survives_restart_witness:
  "fst (registry_load demo_devices
          (snd (run_registry_op demo_devices (RAdd phone) (registry_of []) demo_fs))) =
     Inr (registry_of [phone])"
proof -
  have synced: "registry_synced demo_devices (registry_of []) demo_fs"
    by (simp add: registry_synced_def registry_load_def path_exists_def registry_of_def)
  have r: "fst (run_registry_op demo_devices (RAdd phone) (registry_of []) demo_fs) = registry_of [phone]"
    by (simp add: registry_add_def registry_of_def Let_def split: prod.split)
  have storable: "device_storable demo_devices (dr_devices (registry_of [phone]))"
    by (simp add: device_storable_def demo_devices_def registry_of_def)
  show ?thesis
    using registry_survives_restart [OF demo_healthy synced prod.collapse [symmetric], of "RAdd phone"]
      storable r by (simp add: registry_synced_def)
qed

subsection \<open>Who is authorised\<close>

lemma is_authorized_append [simp]:
  "is_authorized (r\<lparr>dr_devices := dr_devices r @ [e]\<rparr>) i \<longleftrightarrow> is_authorized r i \<or> de_device_id e = i"
  by (auto simp: is_authorized_def)

lemma ids_set_last_seen [simp]: "map de_device_id (set_last_seen i t ds) = map de_device_id ds"
  by (induction ds) auto

lemma is_authorized_seen [simp]:
  "is_authorized (r\<lparr>dr_devices := set_last_seen k t (dr_devices r)\<rparr>) i \<longleftrightarrow> is_authorized r i"
proof -
  have "de_device_id ` set (set_last_seen k t ds) = de_device_id ` set ds" for ds
    by (metis ids_set_last_seen set_map)
  then have "i \<in> de_device_id ` set (set_last_seen k t (dr_devices r)) \<longleftrightarrow>
      i \<in> de_device_id ` set (dr_devices r)" by simp
  then show ?thesis by (auto simp: is_authorized_def image_iff)
qed

lemma is_authorized_iff: "is_authorized r i \<longleftrightarrow> i \<in> set (map de_device_id (dr_devices r))"
  by (auto simp: is_authorized_def)

lemma registry_after_remove:
  assumes "registry_remove dc i r w = (res, r', w')"
  shows "r' = r\<lparr>dr_devices := [d \<leftarrow> dr_devices r. de_device_id d \<noteq> i]\<rparr>"
  using assms by (auto simp: registry_remove_def Let_def split: if_splits prod.splits sum.splits)


definition demo_libs :: libs where
  "demo_libs =
     \<lparr>parse_request = (\<lambda>s. Inl (Msg ''unparsable'' [])), parse_value = (\<lambda>s. None),
      print_value = (\<lambda>v. []), uuid_parse = (\<lambda>s. None), uuid_str = (\<lambda>u. dec_digits u),
      b64_decode = (\<lambda>s. None), b64_encode = (\<lambda>b. []), is_dir = (\<lambda>p. False),
      host_name = ''host'', qr_png = (\<lambda>s. Inr [])\<rparr>"

definition visitor :: peer where
  "visitor = \<lparr>pc_id = ''n1'', pc_accepts = True, pc_takes = True, pc_reply = None\<rparr>"

definition demo_sync :: sync where
  "demo_sync =
     \<lparr>sy_registry = registry_of [phone], sy_allow_pairing = False, sy_timers = [],
      sy_extra_alpns = [''forgetty/stream/1''], sy_events = [], sy_node_id = ''node''\<rparr>"


datatype sync_op =
  SEnable nat nat
| STick nat
| SConnect nat string peer
| SRevoke string

fun run_sync_op :: "libs \<Rightarrow> device_codec \<Rightarrow> sync_op \<Rightarrow> sync \<times> fs \<Rightarrow> sync \<times> fs" where
  "run_sync_op L dc (SEnable now secs) (y, w) = (enable_pairing now secs y, w)"
| "run_sync_op L dc (STick now) (y, w) = (timers_fire now y, w)"
| "run_sync_op L dc (SConnect now alpn c) (y, w) = snd (accept_one L dc now alpn c y w)"
| "run_sync_op L dc (SRevoke i) (y, w) = snd (revoke_device dc i y w)"

lemma new_device_step:
  assumes "is_authorized (sy_registry (fst (run_sync_op L dc op yw))) i"
    "\<not> is_authorized (sy_registry (fst yw)) i"
  shows "\<exists>now c. op = SConnect now FORGETTY_PAIRING_ALPN c \<and> pc_id c = i \<and>
           sy_allow_pairing (fst yw)"
proof (cases op)
  case (SEnable now secs)
  with assms show ?thesis by (cases yw) (simp add: enable_pairing_def)
next
  case (STick now)
  with assms show ?thesis by (cases yw) (simp add: timers_fire_def split: if_splits)
next
  case (SRevoke k)
  obtain y w where yw: "yw = (y, w)" by fastforce
  with assms SRevoke registry_after_remove [of dc k "sy_registry y" w] show ?thesis
    by (auto simp: revoke_device_def emit_sync_def is_authorized_def Let_def split: prod.splits if_splits)
next
  case (SConnect now alpn c)
  obtain y w where yw: "yw = (y, w)" by fastforce
  from assms SConnect yw have a: "alpn = FORGETTY_PAIRING_ALPN"
    by (auto simp: accept_one_def split: if_splits prod.splits)
  have known: "is_authorized (sy_registry (fst (snd (handle_connection L dc now p c y w)))) i \<Longrightarrow>
      \<not> is_authorized (sy_registry y) i \<Longrightarrow> p \<and> pc_id c = i" for p
    by (auto simp: handle_connection_def update_last_seen_def registry_add_def emit_sync_def Let_def
        split: prod.splits if_splits)
  show ?thesis
    using assms SConnect yw a known [of "sy_allow_pairing y"]
    by (auto simp: accept_one_def split: prod.splits)
qed

text \<open>
  C15: a device gets onto the list only by its own connection on the pairing protocol, at a
  moment at which pairing is allowed; no other operation, no connection of another device and
  no connection outside a pairing window adds it, in any history.
\<close>

theorem devices_enter_by_pairing:
  assumes "fold (run_sync_op L dc) ops (y, w) = (y', w')"
    and "is_authorized (sy_registry y') i" "\<not> is_authorized (sy_registry y) i"
  shows "\<exists>before now c after.
           ops = before @ SConnect now FORGETTY_PAIRING_ALPN c # after \<and> pc_id c = i \<and>
           sy_allow_pairing (fst (fold (run_sync_op L dc) before (y, w)))"
  using assms
proof (induction ops arbitrary: y' w' rule: rev_induct)
  case Nil
  then show ?case by simp
next
  case (snoc op ops)
  let ?yw = "fold (run_sync_op L dc) ops (y, w)"
  have step: "run_sync_op L dc op ?yw = (y', w')" using snoc.prems(1) by simp
  show ?case
  proof (cases "is_authorized (sy_registry (fst ?yw)) i")
    case True
    with snoc.IH [of "fst ?yw" "snd ?yw"] snoc.prems(3) obtain before now c after where
      "ops = before @ SConnect now FORGETTY_PAIRING_ALPN c # after" "pc_id c = i"
      "sy_allow_pairing (fst (fold (run_sync_op L dc) before (y, w)))" by auto
    then show ?thesis by (intro exI [of _ before] exI [of _ now] exI [of _ c] exI [of _ "after @ [op]"]) simp
  next
    case False
    then obtain now c where "op = SConnect now FORGETTY_PAIRING_ALPN c" "pc_id c = i"
        "sy_allow_pairing (fst ?yw)"
      using new_device_step [of L dc op ?yw i] step snoc.prems(2) by auto
    then show ?thesis by (intro exI [of _ ops] exI [of _ now] exI [of _ c] exI [of _ "[]"]) simp
  qed
qed

definition empty_sync :: sync where
  "empty_sync = demo_sync\<lparr>sy_registry := registry_of []\<rparr>"

theorem devices_enter_by_pairing_witness:
  "\<exists>before now c after.
     [SEnable 0 60, SConnect 1 FORGETTY_PAIRING_ALPN visitor] =
       before @ SConnect now FORGETTY_PAIRING_ALPN c # after \<and> pc_id c = ''n1'' \<and>
     sy_allow_pairing (fst (fold (run_sync_op demo_libs demo_devices) before (empty_sync, demo_fs)))"
proof -
  let ?ops = "[SEnable 0 60, SConnect 1 FORGETTY_PAIRING_ALPN visitor]"
  have "is_authorized (sy_registry (fst (fold (run_sync_op demo_libs demo_devices) ?ops
          (empty_sync, demo_fs)))) ''n1''"
    by (simp add: enable_pairing_def accept_one_def handle_connection_def empty_sync_def demo_sync_def
        registry_of_def is_authorized_iff registry_add_def emit_sync_def visitor_def Let_def
        split: prod.split)
  moreover have "\<not> is_authorized (sy_registry empty_sync) ''n1''"
    by (simp add: empty_sync_def registry_of_def is_authorized_def)
  ultimately show ?thesis
    by (rule devices_enter_by_pairing [OF prod.collapse [symmetric]])
qed

text \<open>
  Opening a pairing window keeps pairing on until the earliest deadline among all windows
  ever opened and not yet over. A single window therefore lasts exactly the seconds that were
  asked for; a second window, opened while a first is running, is cut off when the first one
  ends, however long it was asked to last.
\<close>

theorem pairing_window_ends_with_earliest_timer:
  "sy_allow_pairing (timers_fire now (enable_pairing t secs y)) \<longleftrightarrow>
     now < t + secs \<and> (\<forall>deadline \<in> set (sy_timers y). now < deadline)"
  by (auto simp: timers_fire_def enable_pairing_def simp flip: linorder_not_le)

theorem pairing_window_ends_with_earliest_timer_witness:
  "\<not> sy_allow_pairing (timers_fire 60 (enable_pairing 50 120 (enable_pairing 0 60 empty_sync)))"
  using pairing_window_ends_with_earliest_timer [of 60 50 120 "enable_pairing 0 60 empty_sync"]
  by (simp add: enable_pairing_def)

end
