(* ===== verification/Handlers.thy ===== *)
theory Handlers
  imports SessionMachine SyncProps
begin

section \<open>The request handlers\<close>

text \<open>
  \<open>crates/forgetty-socket/src/handlers.rs\<close>, handler by handler, and \<open>dispatch\<close>. A handler
  that reads the session more than once takes the lock each time; here it runs to its end
  without another operation in between. Log output is left out.
\<close>

subsection \<open>Answers and parameters\<close>

definition ok_response :: "request \<Rightarrow> response" where
  "ok_response rq = success (rq_id rq) ok_json"

definition invalid :: "request \<Rightarrow> string \<Rightarrow> fmt_arg list \<Rightarrow> response" where
  "invalid rq f args = error (rq_id rq) INVALID_PARAMS (Msg f args)"

definition internal :: "request \<Rightarrow> string \<Rightarrow> forgetty_error \<Rightarrow> response" where
  "internal rq f e = error (rq_id rq) INTERNAL_ERROR (Msg f [AMsg (show_error e)])"

text \<open>The common ending: \<open>{ "ok": true }\<close>, or the error of the session manager.\<close>

definition reply_unit :: "request \<Rightarrow> string \<Rightarrow> unit outcome \<Rightarrow> response \<times> session" where
  "reply_unit rq f x =
     (case x of (Inr _, s) \<Rightarrow> (ok_response rq, s) | (Inl e, s) \<Rightarrow> (internal rq f e, s))"

definition str_param :: "request \<Rightarrow> string \<Rightarrow> string option" where
  "str_param rq k = param as_str (rq_params rq) k"

definition u64_param :: "request \<Rightarrow> string \<Rightarrow> nat option" where
  "u64_param rq k = param as_u64 (rq_params rq) k"

text \<open>A required UUID: absent, or no string; not a UUID; the UUID.\<close>

definition uuid_param :: "libs \<Rightarrow> request \<Rightarrow> string \<Rightarrow> string \<Rightarrow> response + uuid" where
  "uuid_param L rq k bad =
     (case str_param rq k of
        None \<Rightarrow> Inl (invalid rq (''missing param: '' @ k) [])
      | Some raw \<Rightarrow>
          (case uuid_parse L raw of
             None \<Rightarrow> Inl (invalid rq bad [AStr raw])
           | Some u \<Rightarrow> Inr u))"

definition index_param :: "request \<Rightarrow> string \<Rightarrow> string \<Rightarrow> response + nat" where
  "index_param rq k missing =
     (case u64_param rq k of None \<Rightarrow> Inl (invalid rq missing []) | Some n \<Rightarrow> Inr n)"

definition require_pane_id :: "libs \<Rightarrow> request \<Rightarrow> session \<Rightarrow> response + pane_id" where
  "require_pane_id L rq s =
     (case str_param rq ''pane_id'' of
        None \<Rightarrow> Inl (invalid rq ''missing param: pane_id'' [])
      | Some raw \<Rightarrow>
          (case uuid_parse L raw of
             None \<Rightarrow> Inl (invalid rq ''invalid UUID: {raw}'' [AStr raw])
           | Some u \<Rightarrow>
               if pane_info_of u s = None
               then Inl (invalid rq ''pane not found: {raw}'' [AStr raw])
               else Inr u))"

definition jnat :: "nat \<Rightarrow> json" where
  "jnat n = JNum (PosInt n)"

definition juuid :: "libs \<Rightarrow> uuid \<Rightarrow> json" where
  "juuid L u = JStr (uuid_str L u)"

fun jopt :: "('a \<Rightarrow> json) \<Rightarrow> 'a option \<Rightarrow> json" where
  "jopt f None = JNull" | "jopt f (Some x) = f x"

text \<open>\<open>unwrap_or(DEFAULT_ROWS as u64) as u16\<close>: the cast keeps the low sixteen bits.\<close>

definition DEFAULT_ROWS :: nat where "DEFAULT_ROWS = 24"
definition DEFAULT_COLS :: nat where "DEFAULT_COLS = 80"

definition size_param :: "request \<Rightarrow> pty_size" where
  "size_param rq =
     \<lparr>sz_rows = of_nat (case u64_param rq ''rows'' of Some n \<Rightarrow> n | None \<Rightarrow> DEFAULT_ROWS),
      sz_cols = of_nat (case u64_param rq ''cols'' of Some n \<Rightarrow> n | None \<Rightarrow> DEFAULT_COLS),
      sz_pixel_width = 0, sz_pixel_height = 0\<rparr>"

definition cwd_param :: "libs \<Rightarrow> request \<Rightarrow> path option" where
  "cwd_param L rq =
     (case str_param rq ''cwd'' of
        Some c \<Rightarrow> if c \<noteq> [] \<and> is_dir L c then Some c else None
      | None \<Rightarrow> None)"

subsection \<open>Queries\<close>

definition pane_json :: "libs \<Rightarrow> pane_info \<Rightarrow> json" where
  "pane_json L i =
     JObj [(''pane_id'', juuid L (pi_id i)), (''pid'', jopt jnat (pi_pid i)),
           (''rows'', jnat (unat (pi_rows i))), (''cols'', jnat (unat (pi_cols i))),
           (''cwd'', JStr (pi_cwd i)), (''title'', JStr (pi_title i))]"

definition handle_list_tabs :: "libs \<Rightarrow> request \<Rightarrow> session \<Rightarrow> response" where
  "handle_list_tabs L rq s =
     success (rq_id rq)
       (JObj [(''tabs'', JArr (List.map_filter (\<lambda>p. map_option (pane_json L) (pane_info_of p s))
                                  (list_panes s)))])"

text \<open>The derived \<open>Serialize\<close> of the layout types; a ratio that is not finite prints as null.\<close>

fun ratio_json :: "f32 \<Rightarrow> json" where
  "ratio_json (Finite r) = JNum (Float r)"
| "ratio_json _ = JNull"

fun tree_json :: "libs \<Rightarrow> pane_tree \<Rightarrow> json" where
  "tree_json L (Leaf p) = JObj [(''Leaf'', JObj [(''pane_id'', juuid L p)])]"
| "tree_json L (Split d r a b) =
     JObj [(''Split'', JObj [(''direction'', JStr d), (''ratio'', ratio_json r),
                             (''first'', tree_json L a), (''second'', tree_json L b)])]"

definition tab_json :: "libs \<Rightarrow> session_tab \<Rightarrow> json" where
  "tab_json L t =
     JObj [(''id'', juuid L (tab_id t)), (''title'', JStr (tab_title t)),
           (''pane_tree'', tree_json L (tab_tree t)),
           (''active_pane_id'', jopt (juuid L) (active_pane_id t))]"

definition workspace_json :: "libs \<Rightarrow> session_workspace \<Rightarrow> json" where
  "workspace_json L ws =
     JObj [(''id'', juuid L (ws_id ws)), (''name'', JStr (ws_name ws)),
           (''tabs'', JArr (map (tab_json L) (ws_tabs ws))),
           (''active_tab'', jnat (ws_active_tab ws)), (''color'', jopt JStr (ws_color ws))]"

definition layout_json :: "libs \<Rightarrow> session_layout \<Rightarrow> json" where
  "layout_json L l =
     JObj [(''workspaces'', JArr (map (workspace_json L) (workspaces l))),
           (''active_workspace'', jnat (active_workspace l))]"

definition handle_get_layout :: "libs \<Rightarrow> request \<Rightarrow> session \<Rightarrow> response" where
  "handle_get_layout L rq s = success (rq_id rq) (layout_json L (layout s))"

definition handle_get_pane_info :: "libs \<Rightarrow> request \<Rightarrow> session \<Rightarrow> response" where
  "handle_get_pane_info L rq s =
     (case require_pane_id L rq s of
        Inl e \<Rightarrow> e
      | Inr p \<Rightarrow>
          (case pane_info_of p s of
             None \<Rightarrow> invalid rq ''pane not found: {id}'' [AUuid p]
           | Some i \<Rightarrow> success (rq_id rq)
               (JObj [(''pane_id'', juuid L (pi_id i)), (''rows'', jnat (unat (pi_rows i))),
                      (''cols'', jnat (unat (pi_cols i))), (''title'', JStr (pi_title i)),
                      (''cwd'', JStr (pi_cwd i)), (''pid'', jopt jnat (pi_pid i))])))"

definition handle_get_pinned :: "request \<Rightarrow> session \<Rightarrow> response" where
  "handle_get_pinned rq s = success (rq_id rq) (JObj [(''pinned'', JBool (is_pinned s))])"

definition handle_notify :: "libs \<Rightarrow> request \<Rightarrow> session \<Rightarrow> response" where
  "handle_notify L rq s =
     (case require_pane_id L rq s of Inl e \<Rightarrow> e | Inr p \<Rightarrow> ok_response rq)"

subsection \<open>Tabs\<close>

definition command_param :: "request \<Rightarrow> string list option" where
  "command_param rq =
     (case param as_array (rq_params rq) ''command'' of
        None \<Rightarrow> None
      | Some xs \<Rightarrow> let cmd = List.map_filter as_str xs in if cmd = [] then None else Some cmd)"

definition handle_new_tab :: "libs \<Rightarrow> request \<Rightarrow> session \<Rightarrow> response \<times> session" where
  "handle_new_tab L rq s =
     (let i = (case u64_param rq ''workspace_idx'' of Some n \<Rightarrow> n | None \<Rightarrow> 0)
      in case create_tab i (cwd_param L rq) (size_param rq) (command_param rq) s of
           (Inr (p, tid), s1) \<Rightarrow>
             (success (rq_id rq) (JObj [(''tab_id'', juuid L tid), (''pane_id'', juuid L p)]), s1)
         | (Inl e, s1) \<Rightarrow> (internal rq ''failed to create tab: {e}'' e, s1))"

text \<open>The layout walks.\<close>

fun tree_contains_pane :: "pane_tree \<Rightarrow> pane_id \<Rightarrow> bool" where
  "tree_contains_pane (Leaf i) p \<longleftrightarrow> i = p"
| "tree_contains_pane (Split d r a b) p \<longleftrightarrow> tree_contains_pane a p \<or> tree_contains_pane b p"

definition tab_contains_pane :: "session_tab \<Rightarrow> pane_id \<Rightarrow> bool" where
  "tab_contains_pane t p = tree_contains_pane (tab_tree t) p"

fun collect_all_pane_ids :: "pane_tree \<Rightarrow> pane_id list \<Rightarrow> pane_id list" where
  "collect_all_pane_ids (Leaf p) out = out @ [p]"
| "collect_all_pane_ids (Split d r a b) out = collect_all_pane_ids b (collect_all_pane_ids a out)"

fun find_tab_record :: "session_workspace list \<Rightarrow> pane_id \<Rightarrow> session_tab option" where
  "find_tab_record [] p = None"
| "find_tab_record (ws # wss) p =
     (case find (\<lambda>t. tab_contains_pane t p) (ws_tabs ws) of
        Some t \<Rightarrow> Some t | None \<Rightarrow> find_tab_record wss p)"

definition find_tab_for_pane :: "session_layout \<Rightarrow> pane_id \<Rightarrow> uuid option" where
  "find_tab_for_pane l p = map_option tab_id (find_tab_record (workspaces l) p)"

definition handle_close_tab :: "libs \<Rightarrow> request \<Rightarrow> session \<Rightarrow> response \<times> session" where
  "handle_close_tab L rq s =
     (case str_param rq ''tab_id'' of
        Some raw \<Rightarrow>
          (case uuid_parse L raw of
             None \<Rightarrow> (invalid rq ''invalid UUID: {tab_id_str}'' [AStr raw], s)
           | Some u \<Rightarrow> reply_unit rq ''failed to close tab: {e}'' (close_tab u s))
      | None \<Rightarrow>
          (case str_param rq ''pane_id'' of
             None \<Rightarrow> (invalid rq ''missing param: tab_id or pane_id'' [], s)
           | Some raw \<Rightarrow>
               (case uuid_parse L raw of
                  None \<Rightarrow> (invalid rq ''invalid UUID: {pane_id_str}'' [AStr raw], s)
                | Some p \<Rightarrow>
                    if pane_info_of p s = None
                    then (invalid rq ''pane not found: {pane_id_str}'' [AStr raw], s)
                    else (case find_tab_for_pane (layout s) p of
                            Some tid \<Rightarrow> reply_unit rq ''failed to close tab: {e}'' (close_tab tid s)
                          | None \<Rightarrow> reply_unit rq ''failed to close pane: {e}'' (close_pane p s)))))"

definition handle_focus_tab :: "libs \<Rightarrow> request \<Rightarrow> session \<Rightarrow> response \<times> session" where
  "handle_focus_tab L rq s =
     (case uuid_param L rq ''tab_id'' ''invalid UUID: {tab_id_str}'' of
        Inl e \<Rightarrow> (e, s)
      | Inr tid \<Rightarrow>
          (case find_tab tid (workspaces (layout s)) of
             None \<Rightarrow> (invalid rq ''tab not found: {tab_id_str}'' [AStr (the (str_param rq ''tab_id''))], s)
           | Some (i, j) \<Rightarrow> reply_unit rq ''set_active_tab failed: {e}'' (set_active_tab i j s)))"

definition handle_move_tab :: "libs \<Rightarrow> request \<Rightarrow> session \<Rightarrow> response \<times> session" where
  "handle_move_tab L rq s =
     (case uuid_param L rq ''tab_id'' ''invalid UUID: {tab_id_str}'' of
        Inl e \<Rightarrow> (e, s)
      | Inr tid \<Rightarrow>
          (case index_param rq ''new_index'' ''missing param: new_index'' of
             Inl e \<Rightarrow> (e, s)
           | Inr n \<Rightarrow> reply_unit rq ''move_tab failed: {e}'' (move_tab tid n s)))"

subsection \<open>Panes\<close>

definition handle_close_pane :: "libs \<Rightarrow> request \<Rightarrow> session \<Rightarrow> response \<times> session" where
  "handle_close_pane L rq s =
     (case require_pane_id L rq s of
        Inl e \<Rightarrow> (e, s)
      | Inr p \<Rightarrow>
          (case find_tab_record (workspaces (layout s)) p of
             None \<Rightarrow> reply_unit rq ''close_pane (legacy fallback) failed: {e}'' (close_pane p s)
           | Some t \<Rightarrow>
               if length (collect_all_pane_ids (tab_tree t) []) \<le> 1
               then reply_unit rq ''close_pane (via close_tab) failed: {e}'' (close_tab (tab_id t) s)
               else reply_unit rq ''close_pane (split leaf) failed: {e}'' (close_pane p s)))"

definition handle_split_pane :: "libs \<Rightarrow> request \<Rightarrow> session \<Rightarrow> response \<times> session" where
  "handle_split_pane L rq s =
     (case require_pane_id L rq s of
        Inl e \<Rightarrow> (e, s)
      | Inr p \<Rightarrow>
          (case str_param rq ''direction'' of
             None \<Rightarrow> (invalid rq ''missing param: direction'' [], s)
           | Some dir \<Rightarrow>
               if dir \<noteq> ''horizontal'' \<and> dir \<noteq> ''vertical''
               then (invalid rq (''direction must be '' @ CHR 0x27 # ''horizontal'' @ CHR 0x27 # '' or '' @
                              CHR 0x27 # ''vertical'' @ [CHR 0x27]) [], s)
               else
                 let cwd = (case cwd_param L rq of
                              Some c \<Rightarrow> Some c
                            | None \<Rightarrow> map_option pi_cwd (pane_info_of p s))
                 in case split_pane p dir (size_param rq) cwd s of
                      (Inr n, s1) \<Rightarrow> (success (rq_id rq) (JObj [(''pane_id'', juuid L n)]), s1)
                    | (Inl e, s1) \<Rightarrow> (internal rq ''split_pane failed: {e}'' e, s1)))"

definition handle_send_input :: "libs \<Rightarrow> request \<Rightarrow> session \<Rightarrow> response \<times> session" where
  "handle_send_input L rq s =
     (case require_pane_id L rq s of
        Inl e \<Rightarrow> (e, s)
      | Inr p \<Rightarrow>
          (case str_param rq ''data'' of
             None \<Rightarrow> (invalid rq ''missing param: data'' [], s)
           | Some d \<Rightarrow>
               (case b64_decode L d of
                  None \<Rightarrow> (invalid rq ''invalid base64 in data field'' [], s)
                | Some bytes \<Rightarrow> reply_unit rq ''failed to write PTY: {e}'' (write_pty p bytes s))))"

definition handle_resize_pane :: "libs \<Rightarrow> request \<Rightarrow> session \<Rightarrow> response \<times> session" where
  "handle_resize_pane L rq s =
     (case require_pane_id L rq s of
        Inl e \<Rightarrow> (e, s)
      | Inr p \<Rightarrow>
          (case index_param rq ''rows'' ''missing param: rows'' of
             Inl e \<Rightarrow> (e, s)
           | Inr r \<Rightarrow>
               (case index_param rq ''cols'' ''missing param: cols'' of
                  Inl e \<Rightarrow> (e, s)
                | Inr c \<Rightarrow>
                    reply_unit rq ''failed to resize pane: {e}''
                      (resize_pane p \<lparr>sz_rows = of_nat r, sz_cols = of_nat c, sz_pixel_width = 0,
                                     sz_pixel_height = 0\<rparr> s))))"

definition handle_send_sigint :: "libs \<Rightarrow> request \<Rightarrow> session \<Rightarrow> response \<times> session" where
  "handle_send_sigint L rq s =
     (case require_pane_id L rq s of
        Inl e \<Rightarrow> (e, s)
      | Inr p \<Rightarrow>
          let b = (case intr_byte p s of Some b \<Rightarrow> b | None \<Rightarrow> 0x03)
          in case write_pty p [b] s of
               (Inr _, s1) \<Rightarrow> (ok_response rq, send_sigint p s1)
             | (Inl e, s1) \<Rightarrow> (internal rq ''failed to send SIGINT: {e}'' e, s1))"

text \<open>Entries that lack a UUID or a number are skipped.\<close>

definition ratio_entry :: "libs \<Rightarrow> json \<Rightarrow> (pane_id \<times> f32) option" where
  "ratio_entry L e =
     (case param as_str e ''pane_id'' of
        None \<Rightarrow> None
      | Some raw \<Rightarrow>
          (case uuid_parse L raw of
             None \<Rightarrow> None
           | Some p \<Rightarrow>
               (case param as_f64 e ''ratio'' of
                  None \<Rightarrow> None
                | Some r \<Rightarrow> Some (p, f32_of_f64 r))))"

definition handle_update_split_ratios :: "libs \<Rightarrow> request \<Rightarrow> session \<Rightarrow> response \<times> session" where
  "handle_update_split_ratios L rq s =
     (case param as_array (rq_params rq) ''ratios'' of
        None \<Rightarrow> (invalid rq ''missing param: ratios (array of {pane_id, ratio})'' [], s)
      | Some es \<Rightarrow>
          (ok_response rq, update_split_ratios (List.map_filter (ratio_entry L) es) s))"

text \<open>\<open>pane_id\<close> may be absent or null, which clears the focus, or a UUID string.\<close>

definition opt_pane_param :: "libs \<Rightarrow> request \<Rightarrow> response + pane_id option" where
  "opt_pane_param L rq =
     (case json_get (rq_params rq) ''pane_id'' of
        None \<Rightarrow> Inr None
      | Some JNull \<Rightarrow> Inr None
      | Some (JStr raw) \<Rightarrow>
          (case uuid_parse L raw of
             Some u \<Rightarrow> Inr (Some u)
           | None \<Rightarrow> Inl (invalid rq ''invalid pane_id UUID: {s}'' [AStr raw]))
      | Some other \<Rightarrow>
          Inl (invalid rq ''invalid pane_id type: expected string or null, got {other}''
                 [AStr (print_value L other)]))"

definition handle_set_active_pane :: "libs \<Rightarrow> request \<Rightarrow> session \<Rightarrow> response \<times> session" where
  "handle_set_active_pane L rq s =
     (case index_param rq ''workspace_idx'' ''missing param: workspace_idx (u64)'' of
        Inl e \<Rightarrow> (e, s)
      | Inr i \<Rightarrow>
          (case uuid_param L rq ''tab_id'' ''invalid tab_id UUID: {tab_id_str}'' of
             Inl e \<Rightarrow> (e, s)
           | Inr tid \<Rightarrow>
               (case opt_pane_param L rq of
                  Inl e \<Rightarrow> (e, s)
                | Inr p \<Rightarrow> reply_unit rq ''set_active_pane failed: {e}'' (set_active_pane i tid p s))))"

subsection \<open>Workspaces\<close>

definition handle_set_active_workspace :: "request \<Rightarrow> session \<Rightarrow> response \<times> session" where
  "handle_set_active_workspace rq s =
     (case index_param rq ''workspace_idx'' ''missing param: workspace_idx'' of
        Inl e \<Rightarrow> (e, s)
      | Inr i \<Rightarrow>
          (case set_active_workspace i s of
             (Inr _, s1) \<Rightarrow> (ok_response rq, s1)
           | (Inl e, s1) \<Rightarrow>
               (invalid rq ''set_active_workspace failed: {e}'' [AMsg (show_error e)], s1)))"

definition handle_create_workspace :: "libs \<Rightarrow> request \<Rightarrow> session \<Rightarrow> response \<times> session" where
  "handle_create_workspace L rq s =
     (let name = (case str_param rq ''name'' of Some n \<Rightarrow> n | None \<Rightarrow> ''Workspace'')
      in case create_workspace name s of ((u, i), s1) \<Rightarrow>
         (case create_tab i None default_size None s1 of
            (Inr (p, tid), s2) \<Rightarrow>
              (success (rq_id rq)
                 (JObj [(''workspace_id'', juuid L u), (''workspace_idx'', jnat i),
                        (''pane_id'', juuid L p), (''tab_id'', juuid L tid)]), s2)
          | (Inl e, s2) \<Rightarrow> (internal rq ''create_workspace: create_tab failed: {e}'' e, s2)))"

definition handle_rename_workspace :: "request \<Rightarrow> session \<Rightarrow> response \<times> session" where
  "handle_rename_workspace rq s =
     (case index_param rq ''workspace_idx'' ''missing param: workspace_idx (u64)'' of
        Inl e \<Rightarrow> (e, s)
      | Inr i \<Rightarrow>
          (case str_param rq ''name'' of
             None \<Rightarrow> (invalid rq ''missing param: name'' [], s)
           | Some n \<Rightarrow> reply_unit rq ''rename_workspace failed: {e}'' (rename_workspace i n s)))"

definition handle_delete_workspace :: "request \<Rightarrow> session \<Rightarrow> response \<times> session" where
  "handle_delete_workspace rq s =
     (case index_param rq ''workspace_idx'' ''missing param: workspace_idx (u64)'' of
        Inl e \<Rightarrow> (e, s)
      | Inr i \<Rightarrow> reply_unit rq ''delete_workspace failed: {e}'' (delete_workspace i s))"

definition duplicated_json :: "libs \<Rightarrow> duplicated_tab \<Rightarrow> json" where
  "duplicated_json L dt =
     JObj [(''tab_id'', juuid L (dt_tab_id dt)), (''pane_id'', juuid L (dt_pane_id dt))]"

definition handle_duplicate_workspace :: "libs \<Rightarrow> request \<Rightarrow> session \<Rightarrow> response \<times> session" where
  "handle_duplicate_workspace L rq s =
     (case index_param rq ''source_workspace_idx'' ''missing param: source_workspace_idx (u64)'' of
        Inl e \<Rightarrow> (e, s)
      | Inr src \<Rightarrow>
          (case duplicate_workspace src (str_param rq ''new_name'') default_size s of
             (Inr (u, i, dts), s1) \<Rightarrow>
               (success (rq_id rq)
                  (JObj [(''workspace_id'', juuid L u), (''workspace_idx'', jnat i),
                         (''tabs'', JArr (map (duplicated_json L) dts))]), s1)
           | (Inl e, s1) \<Rightarrow> (internal rq ''duplicate_workspace failed: {e}'' e, s1)))"

definition handle_set_workspace_color :: "request \<Rightarrow> session \<Rightarrow> response \<times> session" where
  "handle_set_workspace_color rq s =
     (case index_param rq ''workspace_idx'' ''missing param: workspace_idx (u64)'' of
        Inl e \<Rightarrow> (e, s)
      | Inr i \<Rightarrow> reply_unit rq ''set_workspace_color failed: {e}''
                   (set_workspace_color i (str_param rq ''color'') s))"

definition handle_move_workspace :: "request \<Rightarrow> session \<Rightarrow> response \<times> session" where
  "handle_move_workspace rq s =
     (case index_param rq ''from_idx'' ''missing param: from_idx (u64)'' of
        Inl e \<Rightarrow> (e, s)
      | Inr a \<Rightarrow>
          (case index_param rq ''to_idx'' ''missing param: to_idx (u64)'' of
             Inl e \<Rightarrow> (e, s)
           | Inr b \<Rightarrow> reply_unit rq ''move_workspace failed: {e}'' (move_workspace a b s)))"

subsection \<open>Pinning and paired devices\<close>

text \<open>The state behind a connection, and what is fixed while the daemon runs.\<close>

record daemon =
  d_session :: session
  d_fs :: fs
  d_sync :: "sync option"

record config =
  c_libs :: libs
  c_codec :: codec
  c_devices :: device_codec
  c_session_id :: "uuid option"
  c_now :: nat

definition handle_set_pinned :: "config \<Rightarrow> request \<Rightarrow> daemon \<Rightarrow> response \<times> daemon" where
  "handle_set_pinned c rq d =
     (case param as_bool (rq_params rq) ''pinned'' of
        None \<Rightarrow> (invalid rq ''missing param: pinned (bool)'' [], d)
      | Some b \<Rightarrow>
          let s1 = set_pinned b (d_session d)
          in case c_session_id c of
               None \<Rightarrow> (ok_response rq, d\<lparr>d_session := s1\<rparr>)
             | Some sid \<Rightarrow>
                 (case snapshot_to_workspace_state s1 of (st, s2) \<Rightarrow>
                    (case move_to_active (c_codec c) sid st (d_fs d) of
                       (Inr _, w) \<Rightarrow> (ok_response rq, d\<lparr>d_session := s2, d_fs := w\<rparr>)
                     | (Inl e, w) \<Rightarrow>
                         (error (rq_id rq) INTERNAL_ERROR
                            (Msg ''failed to persist pinned state: {e}'' [AMsg e]),
                          d\<lparr>d_session := s2, d_fs := w\<rparr>))))"

definition sync_unavailable :: "request \<Rightarrow> response" where
  "sync_unavailable rq =
     error (rq_id rq) METHOD_NOT_FOUND
       (Msg ''sync endpoint not available (daemon started without --allow-pairing?)'' [])"

definition device_json :: "device_entry \<Rightarrow> json" where
  "device_json e =
     JObj [(''device_id'', JStr (de_device_id e)), (''name'', JStr (de_name e)),
           (''paired_at'', JStr (de_paired_at e)), (''last_seen'', jopt JStr (de_last_seen e))]"

definition handle_list_devices :: "request \<Rightarrow> sync option \<Rightarrow> response" where
  "handle_list_devices rq se =
     (case se of
        None \<Rightarrow> sync_unavailable rq
      | Some y \<Rightarrow> success (rq_id rq)
          (JObj [(''devices'', JArr (map device_json (registry_list (sy_registry y))))]))"

definition handle_revoke_device :: "config \<Rightarrow> request \<Rightarrow> daemon \<Rightarrow> response \<times> daemon" where
  "handle_revoke_device c rq d =
     (case d_sync d of
        None \<Rightarrow> (sync_unavailable rq, d)
      | Some y \<Rightarrow>
          (case str_param rq ''device_id'' of
             None \<Rightarrow> (invalid rq ''missing param: device_id'' [], d)
           | Some i \<Rightarrow>
               (case revoke_device (c_devices c) i y (d_fs d) of
                  (Inr found, y1, w) \<Rightarrow>
                    (success (rq_id rq) (JObj [(''ok'', JBool found)]),
                     d\<lparr>d_sync := Some y1, d_fs := w\<rparr>)
                | (Inl e, y1, w) \<Rightarrow>
                    (error (rq_id rq) INTERNAL_ERROR (Msg ''failed to revoke device: {e}'' [AMsg e]),
                     d\<lparr>d_sync := Some y1, d_fs := w\<rparr>))))"

definition handle_enable_pairing :: "config \<Rightarrow> request \<Rightarrow> daemon \<Rightarrow> response \<times> daemon" where
  "handle_enable_pairing c rq d =
     (case d_sync d of
        None \<Rightarrow> (sync_unavailable rq, d)
      | Some y \<Rightarrow>
          let secs = (case u64_param rq ''secs'' of Some n \<Rightarrow> n | None \<Rightarrow> 120)
          in (success (rq_id rq) (JObj [(''ok'', JBool True), (''secs'', jnat secs)]),
              d\<lparr>d_sync := Some (enable_pairing (c_now c) secs y)\<rparr>))"

definition handle_get_pairing_info :: "libs \<Rightarrow> request \<Rightarrow> sync option \<Rightarrow> response" where
  "handle_get_pairing_info L rq se =
     (case se of
        None \<Rightarrow> sync_unavailable rq
      | Some y \<Rightarrow>
          (case qr_png L (sy_node_id y) of
             Inl e \<Rightarrow> error (rq_id rq) INTERNAL_ERROR (Msg ''QR PNG generation failed: {e}'' [AMsg e])
           | Inr png \<Rightarrow> success (rq_id rq)
               (JObj [(''node_id'', JStr (sy_node_id y)), (''machine'', JStr (host_name L)),
                      (''qr_png_base64'', JStr (b64_encode L png))])))"

subsection \<open>Dispatch\<close>

definition on_session :: "(session \<Rightarrow> response \<times> session) \<Rightarrow> daemon \<Rightarrow> response \<times> daemon" where
  "on_session h d = (case h (d_session d) of (r, s) \<Rightarrow> (r, d\<lparr>d_session := s\<rparr>))"

definition dispatch :: "config \<Rightarrow> request \<Rightarrow> daemon \<Rightarrow> response \<times> daemon" where
  "dispatch c rq d =
     (let L = c_libs c; m = rq_method rq; s = d_session d
      in if m = ''list_tabs'' then (handle_list_tabs L rq s, d)
      else if m = ''get_layout'' then (handle_get_layout L rq s, d)
      else if m = ''new_tab'' then on_session (handle_new_tab L rq) d
      else if m = ''close_tab'' then on_session (handle_close_tab L rq) d
      else if m = ''focus_tab'' then on_session (handle_focus_tab L rq) d
      else if m = ''set_active_workspace'' then on_session (handle_set_active_workspace rq) d
      else if m = ''split_pane'' then on_session (handle_split_pane L rq) d
      else if m = ''move_tab'' then on_session (handle_move_tab L rq) d
      else if m = ''send_input'' then on_session (handle_send_input L rq) d
      else if m = ''get_pane_info'' then (handle_get_pane_info L rq s, d)
      else if m = ''resize_pane'' then on_session (handle_resize_pane L rq) d
      else if m = ''send_sigint'' then on_session (handle_send_sigint L rq) d
      else if m = ''notify'' then (handle_notify L rq s, d)
      else if m = ''close_pane'' then on_session (handle_close_pane L rq) d
      else if m = ''create_workspace'' then on_session (handle_create_workspace L rq) d
      else if m = ''rename_workspace'' then on_session (handle_rename_workspace rq) d
      else if m = ''delete_workspace'' then on_session (handle_delete_workspace rq) d
      else if m = ''duplicate_workspace'' then on_session (handle_duplicate_workspace L rq) d
      else if m = ''set_workspace_color'' then on_session (handle_set_workspace_color rq) d
      else if m = ''move_workspace'' then on_session (handle_move_workspace rq) d
      else if m = ''set_active_pane'' then on_session (handle_set_active_pane L rq) d
      else if m = ''update_split_ratios'' then on_session (handle_update_split_ratios L rq) d
      else if m = ''set_pinned'' then handle_set_pinned c rq d
      else if m = ''get_pinned'' then (handle_get_pinned rq s, d)
      else if m = ''list_devices'' then (handle_list_devices rq (d_sync d), d)
      else if m = ''revoke_device'' then handle_revoke_device c rq d
      else if m = ''get_pairing_info'' then (handle_get_pairing_info L rq (d_sync d), d)
      else if m = ''enable_pairing'' then handle_enable_pairing c rq d
      else (error (rq_id rq) METHOD_NOT_FOUND (Msg ''Unknown method: {}'' [AStr m]), d))"

end
