(* ===== verification/SessionFrame.thy ===== *)
theory SessionFrame
  imports SessionMachine
begin

section \<open>What a step can do to the event stream and to a pane's log\<close>

text \<open>
  \<open>ext E s s'\<close>: the step from \<open>s\<close> to \<open>s'\<close> only appends events, none of them output, and
  only drops logs, except those of panes in \<open>E\<close> (the ones it creates). The relation is
  transitive, so it follows the operations through their primitive effects.
\<close>

fun output_of :: "pane_id \<Rightarrow> session_event \<Rightarrow> byte list" where
  "output_of p (PtyOutput q d) = (if q = p then d else [])"
| "output_of p _ = []"

text \<open>The bytes a subscriber of pane \<open>p\<close> sees in a stretch of the event stream.\<close>

definition outputs :: "pane_id \<Rightarrow> session_event list \<Rightarrow> byte list" where
  "outputs p es = concat (map (output_of p) es)"

lemma outputs_simps [simp]:
  "outputs p [] = []" "outputs p (es @ fs) = outputs p es @ outputs p fs"
  "outputs p (e # es) = output_of p e @ outputs p es"
  by (simp_all add: outputs_def)

definition is_output :: "session_event \<Rightarrow> bool" where
  "is_output e \<longleftrightarrow> (\<exists>p d. e = PtyOutput p d)"

lemma is_output_simps [simp]:
  "is_output (PtyOutput p d)" "\<not> is_output (PaneCreated p)" "\<not> is_output (PaneClosed p)"
  "\<not> is_output (TabCreated i t p)" "\<not> is_output (TabClosed i t)" "\<not> is_output (PaneSplit t p n dir)"
  "\<not> is_output (TabMoved i t j)" "\<not> is_output (ActiveTabChanged i j)"
  "\<not> is_output (ActiveWorkspaceChanged i)" "\<not> is_output (WorkspaceCreated i t nm)"
  "\<not> is_output (WorkspaceRenamed i t nm)" "\<not> is_output (WorkspaceDeleted i t)"
  "\<not> is_output (WorkspaceColorChanged i t c)" "\<not> is_output (WorkspacesReordered i j t u)"
  "\<not> is_output (ActivePaneChanged i t q)"
  by (auto simp: is_output_def)

lemma outputs_quiet: "\<forall>e \<in> set es. \<not> is_output e \<Longrightarrow> outputs p es = []"
proof (induction es)
  case (Cons e es)
  then have "output_of p e = []" by (cases e) auto
  with Cons show ?case by simp
qed simp

definition ext :: "pane_id set \<Rightarrow> session \<Rightarrow> session \<Rightarrow> bool" where
  "ext E s s' \<longleftrightarrow>
     w_fresh (world s') = w_fresh (world s) \<and> w_next_id (world s) \<le> w_next_id (world s') \<and>
     (\<exists>new. events s' = events s @ new \<and> (\<forall>e \<in> set new. \<not> is_output e)) \<and>
     (\<forall>p. p \<notin> E \<longrightarrow> byte_logs s' p = None \<or> byte_logs s' p = byte_logs s p)"

definition future_ids :: "session \<Rightarrow> uuid set" where
  "future_ids s = w_fresh (world s) ` {w_next_id (world s)..}"

lemma ext_refl [simp]: "ext E s s"
  by (simp add: ext_def)

lemma ext_trans: "ext E s t \<Longrightarrow> ext E t u \<Longrightarrow> ext E s u"
  unfolding ext_def by (fastforce intro: order_trans)

lemma ext_future: "ext E s s' \<Longrightarrow> future_ids s' \<subseteq> future_ids s"
  unfolding ext_def future_ids_def by (auto intro: order_trans)

text \<open>A state that differs from an extension in nothing that \<open>ext\<close> looks at.\<close>

lemma ext_cong:
  assumes "events s' = events t" "byte_logs s' = byte_logs t" "w_fresh (world s') = w_fresh (world t)"
    "w_next_id (world s') = w_next_id (world t)"
  shows "ext E s s' = ext E s t"
  using assms by (simp add: ext_def)

lemma ext_send_event: "ext E s t \<Longrightarrow> \<not> is_output e \<Longrightarrow> ext E s (send_event e t)"
  unfolding ext_def by auto

lemma ext_os_do [simp]: "ext E s (os_do a t) = ext E s t"
  by (rule ext_cong) simp_all

lemma ext_modify_ws [simp]: "ext E s (modify_ws i f t) = ext E s t"
  by (rule ext_cong) simp_all

lemma ext_layout [simp]: "ext E s (t\<lparr>layout := l\<rparr>) = ext E s t"
  by (rule ext_cong) simp_all

lemma ext_panes [simp]: "ext E s (t\<lparr>panes := m\<rparr>) = ext E s t"
  by (rule ext_cong) simp_all

lemma ext_order [simp]: "ext E s (t\<lparr>pane_order := ps\<rparr>) = ext E s t"
  by (rule ext_cong) simp_all

lemma ext_drain_tasks [simp]: "ext E s (t\<lparr>drain_tasks := ps\<rparr>) = ext E s t"
  by (rule ext_cong) simp_all

lemma ext_pinned [simp]: "ext E s (t\<lparr>pinned := b\<rparr>) = ext E s t"
  by (rule ext_cong) simp_all

lemma ext_config [simp]:
  "ext E s (t\<lparr>byte_log_ring_kb := k, byte_log_max_mb := m\<rparr>) = ext E s t"
  by (rule ext_cong) simp_all

lemma ext_register [simp]: "ext E s (push_order p (insert_pane p st t)) = ext E s t"
  by (rule ext_cong) simp_all

lemma ext_remove_log: "ext E s t \<Longrightarrow> ext E s (t\<lparr>byte_logs := map_remove p (byte_logs t)\<rparr>)"
  unfolding ext_def by auto

lemma ext_new_uuid:
  assumes "ext E s t" "new_uuid t = (u, t')"
  shows "ext E s t'" "u \<in> future_ids s"
  using assms unfolding ext_def new_uuid_def future_ids_def by auto

lemma ext_spawn: "pty_bridge_spawn sz c cmd sh l t = (r, t') \<Longrightarrow> ext E s t' = ext E s t"
  by (rule ext_cong) (simp_all add: spawn_fields)

lemma ext_spawn_drain:
  assumes "ext E s t" "p \<in> E"
  shows "ext E s (spawn_drain_task p t)"
proof -
  have "ext E s (create_byte_log_for p t)"
    using assms unfolding ext_def by (auto simp: create_byte_log_for_def Let_def)
  then show ?thesis
    by (auto simp: spawn_drain_task_def take_pane_output_rx_def split: option.splits bool.splits)
qed

subsection \<open>The operations\<close>

lemma ext_auto_seed:
  assumes "ext E s t" "auto_seed_default_tab i sz t = (r, t')"
  shows "ext E s t' \<and> (\<forall>p tid. r = Inr (p, tid) \<longrightarrow> p \<in> future_ids s)"
proof (cases "i \<ge> ws_count t")
  case False
  obtain rb t1 where sp: "pty_bridge_spawn sz None None None True t = (rb, t1)" by fastforce
  have e1: "ext E s t1" using assms(1) by (simp add: ext_spawn[OF sp])
  show ?thesis
  proof (cases rb)
    case (Inr b)
    obtain p t2 where nu: "new_uuid t1 = (p, t2)" by fastforce
    obtain tid t4 where nu2: "new_uuid (push_order p
        (insert_pane p (new_pane_state p b (home_dir_fallback t2) sz) t2)) = (tid, t4)" by fastforce
    have e4: "ext E s t4" "p \<in> future_ids s"
      using ext_new_uuid[OF e1 nu] ext_new_uuid(1)[OF _ nu2] by auto
    with assms(2) False sp Inr nu nu2 show ?thesis
      by (auto simp: auto_seed_default_tab_def Let_def intro!: ext_send_event)
  qed (use assms(2) e1 False sp in \<open>auto simp: auto_seed_default_tab_def\<close>)
qed (use assms in \<open>auto simp: auto_seed_default_tab_def\<close>)

lemma ext_seed_and_drain:
  assumes "ext E s t" "future_ids s \<subseteq> E"
  shows "ext E s (seed_and_drain i t)"
proof -
  obtain r t1 where a: "auto_seed_default_tab i default_size t = (r, t1)" by fastforce
  show ?thesis
    using ext_auto_seed[OF assms(1) a] assms(2) a
    by (auto simp: seed_and_drain_def intro!: ext_spawn_drain split: sum.splits)
qed

lemma ext_create_tab_with_pane_id:
  assumes "ext E s t" "p \<in> E"
  shows "ext E s (snd (create_tab_with_pane_id i c sz cmd p t))"
proof -
  obtain rb t1 where sp: "pty_bridge_spawn sz c cmd None True t = (rb, t1)" by fastforce
  have e1: "ext E s t1" using assms(1) by (simp add: ext_spawn[OF sp])
  show ?thesis
  proof (cases rb)
    case (Inr b)
    obtain tid t3 where nu: "new_uuid (push_order p (insert_pane p (new_pane_state p b
        (case c of Some c \<Rightarrow> c | None \<Rightarrow> home_dir_fallback t1) sz) t1)) = (tid, t3)" by fastforce
    have "ext E s t3" using ext_new_uuid(1)[OF _ nu] e1 by simp
    with assms sp Inr nu show ?thesis
      by (auto simp: create_tab_with_pane_id_def Let_def intro!: ext_spawn_drain ext_send_event)
  qed (use assms e1 sp in \<open>auto simp: create_tab_with_pane_id_def\<close>)
qed

lemma ext_create_tab:
  assumes "future_ids s \<subseteq> E"
  shows "ext E s (snd (create_tab i c sz cmd s))"
proof -
  obtain p s1 where nu: "new_uuid s = (p, s1)" by fastforce
  show ?thesis
    using ext_create_tab_with_pane_id[OF ext_new_uuid(1)[OF ext_refl nu]] ext_new_uuid(2)[OF ext_refl nu]
      assms nu by (auto simp: create_tab_def)
qed

lemma ext_create_pane:
  assumes "future_ids s \<subseteq> E"
  shows "ext E s (snd (create_pane sz c cmd sh login s))"
proof -
  obtain p s1 where nu: "new_uuid s = (p, s1)" by fastforce
  obtain rb s2 where sp: "pty_bridge_spawn sz c cmd sh login s1 = (rb, s2)" by fastforce
  have p: "p \<in> E" using ext_new_uuid(2)[OF ext_refl nu] assms by blast
  have e2: "ext E s s2" using ext_new_uuid(1)[OF ext_refl nu] by (simp add: ext_spawn[OF sp])
  show ?thesis
  proof (cases rb)
    case (Inr b)
    obtain tid s4 where nu2: "new_uuid (push_order p (insert_pane p (new_pane_state p b
        (case c of Some c \<Rightarrow> c | None \<Rightarrow> home_dir_fallback s2) sz) s2)) = (tid, s4)" by fastforce
    have "ext E s s4" using ext_new_uuid(1)[OF _ nu2] e2 by simp
    with p nu sp Inr nu2 show ?thesis
      by (auto simp: create_pane_def Let_def intro!: ext_spawn_drain ext_send_event)
  qed (use nu e2 sp in \<open>auto simp: create_pane_def\<close>)
qed

lemma ext_split_body:
  assumes "ext E s t" "n \<in> E"
  shows "ext E s (snd (split_pane_body fn p d r sz c n t))"
proof -
  obtain rb t1 where sp: "pty_bridge_spawn sz c None None True t = (rb, t1)" by fastforce
  have e1: "ext E s t1" using assms(1) by (simp add: ext_spawn[OF sp])
  show ?thesis
  proof (cases rb)
    case (Inr b)
    define t2 where "t2 = push_order n (insert_pane n (new_pane_state n b
        (case c of Some c \<Rightarrow> c | None \<Rightarrow> home_dir_fallback t1) sz) t1)"
    have e2: "ext E s t2" using e1 by (simp add: t2_def)
    obtain found wss where w: "split_in_workspaces p n d r (workspaces (layout t2)) = (found, wss)"
      by fastforce
    show ?thesis
      unfolding split_pane_body_def sp Inr prod.case sum.case Let_def t2_def[symmetric] w
      using e2 assms(2) by (auto intro!: ext_spawn_drain ext_send_event split: option.split)
  qed (use e1 sp in \<open>auto simp: split_pane_body_def\<close>)
qed

lemma ext_split_pane:
  assumes "future_ids s \<subseteq> E"
  shows "ext E s (snd (split_pane p d sz c s))"
proof -
  obtain n s1 where nu: "new_uuid s = (n, s1)" by fastforce
  show ?thesis
    using ext_split_body[OF ext_new_uuid(1)[OF ext_refl nu]] ext_new_uuid(2)[OF ext_refl nu] assms nu
    by (auto simp: split_pane_def)
qed

lemma ext_split_with_pane_id:
  "ext E s t \<Longrightarrow> n \<in> E \<Longrightarrow> ext E s (snd (split_pane_with_ratio_and_pane_id p d r sz c n t))"
  by (auto simp: split_pane_with_ratio_and_pane_id_def intro: ext_split_body)

lemma ext_split_with_ratio:
  assumes "future_ids s \<subseteq> E"
  shows "ext E s (snd (split_pane_with_ratio p d r sz c s))"
proof -
  obtain n s1 where nu: "new_uuid s = (n, s1)" by fastforce
  show ?thesis
    using ext_split_with_pane_id[OF ext_new_uuid(1)[OF ext_refl nu]] ext_new_uuid(2)[OF ext_refl nu]
      assms nu by (auto simp: split_pane_with_ratio_def)
qed

lemma ext_close_pane_of_tab: "ext E s t \<Longrightarrow> ext E s (close_pane_of_tab p t)"
  unfolding ext_def close_pane_of_tab_def by (auto simp: Let_def split: option.splits)

lemma ext_fold: "(\<And>x t. ext E s t \<Longrightarrow> ext E s (f x t)) \<Longrightarrow> ext E s t \<Longrightarrow> ext E s (fold f xs t)"
  by (induction xs arbitrary: t) auto

lemma ext_close_tab:
  assumes "future_ids s \<subseteq> E"
  shows "ext E s (snd (close_tab tid s))"
proof (cases "find_tab tid (workspaces (layout s))")
  case (Some ij)
  then obtain i j where f: "find_tab tid (workspaces (layout s)) = Some (i, j)" by (cases ij) auto
  have "ext E s (send_event (TabClosed i tid) (fold close_pane_of_tab ps (modify_ws i g s)))" for ps g
    by (auto intro!: ext_send_event ext_fold ext_close_pane_of_tab)
  then show ?thesis
    unfolding close_tab_found[OF f] using assms by (auto intro!: ext_seed_and_drain)
qed (simp add: close_tab_def)

lemma ext_close_pane:
  assumes "ext E s t" "future_ids s \<subseteq> E"
  shows "ext E s (snd (close_pane p t))"
proof (cases "panes t p")
  case (Some st)
  have "ext E s (unregister p (close_pane_layout p t))"
    using assms(1) unfolding ext_def close_pane_layout_def by (auto split: option.splits)
  then show ?thesis
    unfolding close_pane_registered[OF Some] using assms(2)
    by (auto intro!: ext_seed_and_drain ext_send_event split: option.split)
qed (use assms in \<open>simp add: close_pane_def\<close>)

lemma ext_delete_pane: "ext E s t \<Longrightarrow> ext E s (delete_pane_of_workspace p t)"
  unfolding ext_def delete_pane_of_workspace_def unlink_log_def
  by (auto simp: Let_def split: option.splits)

lemma ext_delete_workspace: "ext E s (snd (delete_workspace i s))"
  by (auto simp: delete_workspace_def Let_def intro!: ext_send_event ext_fold ext_delete_pane)

lemma ext_create_workspace: "ext E s (snd (create_workspace n s))"
proof -
  obtain u s1 where nu: "new_uuid s = (u, s1)" by fastforce
  show ?thesis
    using ext_new_uuid(1)[OF ext_refl nu] nu
    by (auto simp: create_workspace_def Let_def intro!: ext_send_event)
qed

lemma ext_dup_spawn:
  assumes "ext E s t" "dup_spawn sz n cwds sp t = (r, t')" "fst ` set sp \<subseteq> future_ids s"
  shows "ext E s t' \<and> (\<forall>sp'. r = Inr sp' \<longrightarrow> fst ` set sp' \<subseteq> future_ids s)"
  using assms
proof (induction cwds arbitrary: sp t)
  case (Cons c cwds)
  obtain p t1 where nu: "new_uuid t = (p, t1)" by fastforce
  obtain rb t2 where sw: "pty_bridge_spawn sz c None None True t1 = (rb, t2)" by fastforce
  have e2: "ext E s t2" and p: "p \<in> future_ids s"
    using ext_new_uuid[OF Cons.prems(1) nu] by (auto simp: ext_spawn[OF sw])
  have rb: "ext E s (dup_rollback sp' t2)" for sp'
    using e2 by (subst ext_cong[of _ t2]) simp_all
  show ?case
  proof (cases rb)
    case (Inl e)
    with Cons.prems nu sw rb show ?thesis by auto
  next
    case (Inr b)
    let ?sp = "sp @ [(p, b, case c of Some c \<Rightarrow> c | None \<Rightarrow> home_dir_fallback t2)]"
    have "dup_spawn sz n cwds ?sp t2 = (r, t')" "fst ` set ?sp \<subseteq> future_ids s"
      using Cons.prems nu sw Inr p by auto
    then show ?thesis by (rule Cons.IH[OF e2])
  qed
qed auto

lemma ext_dup_insert:
  assumes "ext E s t" "dup_insert_panes sz sp t = (tabs, dts, t')"
  shows "ext E s t' \<and> dt_pane_id ` set dts = fst ` set sp"
  using assms
proof (induction sp arbitrary: t tabs dts)
  case (Cons a sp)
  obtain p b c where a: "a = (p, b, c)" by (cases a) auto
  obtain tid t1 where nu: "new_uuid (push_order p (insert_pane p (new_pane_state p b c sz) t)) = (tid, t1)"
    by fastforce
  obtain tabs1 dts1 where r: "dup_insert_panes sz sp t1 = (tabs1, dts1, t')"
      "dts = \<lparr>dt_tab_id = tid, dt_pane_id = p\<rparr> # dts1"
    using Cons.prems(2) nu a by (auto split: prod.splits)
  have "ext E s t1" using ext_new_uuid(1)[OF _ nu] Cons.prems(1) by simp
  from Cons.IH[OF this r(1)] show ?case using r(2) a by simp
qed auto

lemma ext_duplicate_workspace:
  assumes "future_ids s \<subseteq> E"
  shows "ext E s (snd (duplicate_workspace src name sz s))"
proof (cases "dup_snapshot src name s")
  case (Inr snap)
  obtain nm k cwds where snap: "snap = (nm, k, cwds)" by (cases snap) auto
  obtain r1 s1 where sp: "dup_spawn sz (length cwds) cwds [] s = (r1, s1)" by fastforce
  have d: "ext E s s1" "\<And>sp'. r1 = Inr sp' \<Longrightarrow> fst ` set sp' \<subseteq> future_ids s"
    using ext_dup_spawn[OF ext_refl sp] by auto
  show ?thesis
  proof (cases r1)
    case (Inr sp')
    obtain u s2 where nu: "new_uuid s1 = (u, s2)" by fastforce
    obtain tabs dts s3 where ins: "dup_insert_panes sz sp' s2 = (tabs, dts, s3)" by (metis prod_cases3)
    have e: "ext E s s3" "dt_pane_id ` set dts \<subseteq> E"
      using ext_dup_insert[OF ext_new_uuid(1)[OF d(1) nu] ins] d(2)[OF Inr] assms by auto
    have dr: "ext E s (fold (\<lambda>dt. spawn_drain_task (dt_pane_id dt)) ds t)"
      if "ext E s t" "dt_pane_id ` set ds \<subseteq> E" for ds t
      using that by (induction ds arbitrary: t) (auto intro!: ext_spawn_drain)
    have an: "ext E s (fold (dup_announce k') ds t)" if "ext E s t" for ds k' t
      using that by (auto intro!: ext_fold ext_send_event simp: dup_announce_def)
    show ?thesis
      using e \<open>dup_snapshot src name s = Inr snap\<close> snap sp Inr nu ins
      by (auto simp: duplicate_workspace_def dup_commit_def Let_def intro!: dr an ext_send_event)
  qed (use d Inr snap sp in \<open>simp add: duplicate_workspace_def\<close>)
qed (simp add: duplicate_workspace_def)

lemma ext_update_split_ratios: "ext E s t \<Longrightarrow> ext E s (update_split_ratios us t)"
  by (induction us t rule: update_split_ratios.induct) (simp_all add: Let_def)

text \<open>The panes an operation may give a log: new ones, and the one whose id it is given.\<close>

fun op_given :: "session_op \<Rightarrow> pane_id set" where
  "op_given (OCreateTabWithPaneId i c sz cmd p) = {p}"
| "op_given (OSplitPaneWithRatioAndPaneId p d r sz c n) = {n}"
| "op_given _ = {}"

lemma ext_exec_op: "ext (future_ids s \<union> op_given op) s (exec_op op s)"
proof (cases op)
  case (OKillAll c ps)
  have "ext E s (fold (\<lambda>p s. case panes s p of
      None \<Rightarrow> s | Some st \<Rightarrow> os_do (KillPty (pb_pty (ps_bridge st))) s) ps s)" for E
    by (auto intro!: ext_fold split: option.splits)
  with OKillAll show ?thesis by simp
qed (auto simp: Let_def set_pane_cwd_def set_pinned_def set_byte_log_config_def rename_workspace_def
      set_workspace_color_def move_workspace_def move_tab_def set_active_tab_def
      set_active_workspace_def set_active_pane_def write_pty_def resize_pane_def
      close_pane_byte_log_def snapshot_to_workspace_state_def refresh_pane_cwds_def send_sigint_def
    intro!: ext_create_pane ext_update_split_ratios ext_create_workspace ext_delete_workspace
      ext_duplicate_workspace ext_create_tab ext_create_tab_with_pane_id ext_split_pane
      ext_split_with_ratio ext_split_with_pane_id ext_close_tab ext_close_pane ext_send_event
      ext_remove_log
    split: option.splits simp flip: fun_upd_apply)

subsection \<open>The stream of one pane\<close>

text \<open>
  Between two states in which pane \<open>p\<close> has a log: the new log is the old one with chunks
  appended, and those chunks are exactly the output events of \<open>p\<close> sent in between.
\<close>

definition streams :: "pane_id \<Rightarrow> session \<Rightarrow> session \<Rightarrow> bool" where
  "streams p s s' \<longleftrightarrow>
     (\<exists>new. events s' = events s @ new \<and>
       (\<forall>l l'. byte_logs s p = Some l \<longrightarrow> byte_logs s' p = Some l' \<longrightarrow>
          (\<exists>ds. l' = foldl log_append l ds \<and> concat ds = outputs p new)))"

lemma streams_refl [simp]: "streams p s s"
  by (auto simp: streams_def intro!: exI[of _ "[]"])

lemma streams_trans:
  assumes "streams p s t" "streams p t u" "p \<in> dom (byte_logs t)"
  shows "streams p s u"
proof -
  obtain m where m: "byte_logs t p = Some m" using assms(3) by blast
  obtain new1 new2 where n: "events t = events s @ new1" "events u = events t @ new2"
    and s1: "\<And>l. byte_logs s p = Some l \<Longrightarrow> \<exists>ds. m = foldl log_append l ds \<and> concat ds = outputs p new1"
    and s2: "\<And>l'. byte_logs u p = Some l' \<Longrightarrow> \<exists>ds. l' = foldl log_append m ds \<and> concat ds = outputs p new2"
    using assms(1,2) m unfolding streams_def by metis
  show ?thesis
    unfolding streams_def
  proof (intro exI[of _ "new1 @ new2"] conjI allI impI)
    show "events u = events s @ new1 @ new2" using n by simp
  next
    fix l l' assume "byte_logs s p = Some l" "byte_logs u p = Some l'"
    then obtain d1 d2 where "m = foldl log_append l d1" "concat d1 = outputs p new1"
      "l' = foldl log_append m d2" "concat d2 = outputs p new2"
      using s1 s2 by blast
    then show "\<exists>ds. l' = foldl log_append l ds \<and> concat ds = outputs p (new1 @ new2)"
      by (intro exI[of _ "d1 @ d2"]) simp
  qed
qed

lemma ext_streams:
  assumes "ext E s s'" "p \<notin> E"
  shows "streams p s s'"
proof -
  obtain new where new: "events s' = events s @ new" "\<forall>e \<in> set new. \<not> is_output e"
    using assms(1) by (auto simp: ext_def)
  have same: "byte_logs s' p = Some l' \<Longrightarrow> byte_logs s p = Some l \<Longrightarrow> l' = l" for l l'
    using assms by (auto simp: ext_def)
  show ?thesis
    unfolding streams_def using new same
    by (auto simp: outputs_quiet intro!: exI[of _ new] exI[of _ "[]"])
qed

lemma registered_not_future:
  "sinv {} D s \<Longrightarrow> p \<in> dom (panes s) \<Longrightarrow> p \<notin> future_ids s"
  unfolding sinv_def supply_ok_def future_ids_def layout_ids_def by auto

lemma process_pane_bytes_result:
  assumes "process_pane_bytes q bs s = (r, s1)"
  shows "streams p s s1" "future_ids s1 = future_ids s" "dom (panes s1) = dom (panes s)"
    "dom (byte_logs s1) = dom (byte_logs s)"
proof -
  show "future_ids s1 = future_ids s" "dom (panes s1) = dom (panes s)"
    "dom (byte_logs s1) = dom (byte_logs s)"
    using assms by (auto simp: process_pane_bytes_def Let_def future_ids_def split: option.splits if_splits)
  show "streams p s s1"
  proof (cases "panes s q")
    case (Some st)
    have ev: "events s1 = events s @ [PtyOutput q bs]"
      using assms Some by (auto simp: process_pane_bytes_def Let_def split: option.splits)
    have lg: "byte_logs s1 p = (if p = q then map_option (\<lambda>l. log_append l bs) (byte_logs s p)
                               else byte_logs s p)"
      using assms Some by (auto simp: process_pane_bytes_def Let_def split: option.splits)
    show ?thesis
      unfolding streams_def
    proof (intro exI[of _ "[PtyOutput q bs]"] conjI allI impI ev)
      fix l l' assume "byte_logs s p = Some l" "byte_logs s1 p = Some l'"
      with lg show "\<exists>ds. l' = foldl log_append l ds \<and> concat ds = outputs p [PtyOutput q bs]"
        by (cases "p = q") (auto intro: exI[of _ "[bs]"] exI[of _ "[]"])
    qed
  qed (use assms in \<open>auto simp: process_pane_bytes_def\<close>)
qed

lemma drain_step_streams:
  assumes "sinv {} D s" "p \<in> dom (panes s)" "p \<in> dom (byte_logs s)"
  shows "streams p s (drain_step q c s)"
proof -
  have end_task: "streams p s (t\<lparr>drain_tasks := x\<rparr>) = streams p s t" for t x
    by (simp add: streams_def)
  have closing: "streams p t (snd (close_pane q t))" if "future_ids t = future_ids s" for t
    using ext_streams[OF ext_close_pane[OF ext_refl order.refl]] registered_not_future[OF assms(1,2)] that
    by simp
  show ?thesis
  proof (cases c)
    case None
    then show ?thesis using closing[of s] by (simp add: drain_step_def end_task)
  next
    case (Some bs)
    obtain r s1 where pr: "process_pane_bytes q bs s = (r, s1)" by fastforce
    note pp = process_pane_bytes_result[OF pr]
    have "p \<in> dom (byte_logs s1)" using pp(4) assms(3) by simp
    then have "streams p s (snd (close_pane q s1))"
      using streams_trans[OF pp(1) closing[OF pp(2)]] by blast
    with pp(1) Some pr show ?thesis
      by (auto simp: drain_step_def end_task split: sum.split bool.split)
  qed
qed

lemma session_step_streams:
  assumes i: "sinv {} D s" and st: "session_step s lab s'" and p: "p \<in> dom (byte_logs s)"
  shows "streams p s s'"
proof -
  have reg: "p \<in> dom (panes s)" using invD(7)[OF i] p by blast
  show ?thesis
    using st
  proof cases
    case (step_op op)
    have "p \<notin> op_given op"
      using step_op(3) reg by (cases op) (auto simp: unused_id_def)
    then show ?thesis
      using ext_streams[OF ext_exec_op] registered_not_future[OF i reg] step_op by blast
  next
    case (step_drain q c)
    then show ?thesis using drain_step_streams[OF i reg p] by simp
  next
    case (step_world w')
    then show ?thesis by (auto simp: streams_def intro!: exI[of _ "[]"])
  qed
qed

text \<open>A run during which pane \<open>p\<close> keeps its log.\<close>

definition step_keeping :: "pane_id \<Rightarrow> session \<Rightarrow> session_label \<Rightarrow> session \<Rightarrow> bool" where
  "step_keeping p s lab s' \<longleftrightarrow> session_step s lab s' \<and> p \<in> dom (byte_logs s')"

interpretation sk: invariant_system "step_keeping p" "sinv {}" label_closes for p
  by unfold_locales (auto simp: step_keeping_def intro: inv_session_step)

lemma run_streams:
  "steps (step_keeping p) s ls s' \<Longrightarrow> sinv {} D s \<Longrightarrow> p \<in> dom (byte_logs s) \<Longrightarrow>
   streams p s s' \<and> p \<in> dom (byte_logs s')"
proof (induction arbitrary: D rule: steps.induct)
  case (steps_step s lab s' ls s'')
  have st: "session_step s lab s'" "p \<in> dom (byte_logs s')"
    using steps_step.hyps(1) by (auto simp: step_keeping_def)
  note one = session_step_streams[OF steps_step.prems(1) st(1) steps_step.prems(2)]
  show ?case
    using steps_step.IH[OF inv_session_step[OF steps_step.prems(1) st(1)] st(2)]
      streams_trans[OF one] st(2) by blast
qed simp

end
