(* ===== verification/SessionProps.thy ===== *)
theory SessionProps
  imports SessionFrame
begin

section \<open>What the session manager promises\<close>

text \<open>
  The properties of \<open>manager.rs\<close>, each from the preservation and frame lemmas of the
  theories before. \<open>demo_world\<close> is the concrete outside world of the witnesses: spawns
  succeed, ids count up from 100.
\<close>

definition demo_world :: world where
  "demo_world =
     \<lparr>w_fresh = (\<lambda>n. n + 100), w_next_id = 0, w_spawn = (\<lambda>n sz cwd cmd login. Inr n),
      w_reader_fails = (\<lambda>n. None), w_next_spawn = 0, w_home = Some ''/home/u'',
      w_pid = (\<lambda>h. Some (h + 1000)), w_alive = (\<lambda>h. True), w_proc_cwd = (\<lambda>p. None),
      w_vintr = (\<lambda>h. Some 3), w_fg_pgrp = (\<lambda>h. Some 2000), w_comm = (\<lambda>p. Some ''vim''),
      w_my_pid = 1, w_write_fails = (\<lambda>h d. None), w_resize_fails = (\<lambda>h sz. None),
      w_log_file = (\<lambda>p. None), w_log_opens = (\<lambda>p. True)\<rparr>"

lemma demo_world_sel [simp]:
  "w_fresh demo_world n = n + 100" "w_next_id demo_world = 0"
  "w_spawn demo_world n sz cwd cmd login = Inr n" "w_reader_fails demo_world n = None"
  "w_next_spawn demo_world = 0" "w_home demo_world = Some ''/home/u''"
  "w_alive demo_world h" "w_log_file demo_world p = None" "w_log_opens demo_world p"
  "w_fg_pgrp demo_world h = Some 2000" "w_comm demo_world g = Some ''vim''" "w_my_pid demo_world = 1"
  "w_pid demo_world h = Some (h + 1000)" "w_proc_cwd demo_world q = None"
  by (simp_all add: demo_world_def)

text \<open>A session with a second workspace and one tab in the first.\<close>

definition demo_session :: session where
  "demo_session =
     \<lparr>panes = [102 \<mapsto> \<lparr>ps_id = 102, ps_bridge = \<lparr>pb_pty = 0, pb_rx = False\<rparr>,
                       ps_cwd = ''/home/u'', ps_title = [], ps_rows = 24, ps_cols = 80\<rparr>],
      pane_order = [102],
      events = [WorkspaceCreated 1 101 ''work'', PaneCreated 102, TabCreated 0 103 102],
      layout = \<lparr>workspaces =
         [\<lparr>ws_id = 100, ws_name = ''Default'', ws_tabs = [\<lparr>tab_id = 103, tab_title = [],
             tab_tree = Leaf 102, active_pane_id = None\<rparr>], ws_active_tab = 0, ws_color = None\<rparr>,
          \<lparr>ws_id = 101, ws_name = ''work'', ws_tabs = [], ws_active_tab = 0, ws_color = None\<rparr>],
         active_workspace = 0\<rparr>,
      pinned = False, byte_logs = [102 \<mapsto> byte_log_new None 1048576 10485760],
      byte_log_ring_kb = 1024, byte_log_max_mb = 10,
      drain_tasks = [102], world = demo_world\<lparr>w_next_id := 4, w_next_spawn := 1\<rparr>,
      os_log = [SpawnPty 0 default_size None None True]\<rparr>"

lemma demo_world_ok: "world_ok demo_world"
  by (auto simp: world_ok_def demo_world_def inj_on_def)

lemma demo_world_inj: "inj (w_fresh demo_world)"
  using demo_world_ok by (simp add: world_ok_def)

lemma demo_inv: "sinv {} {} demo_session"
  by (auto simp: demo_session_def sinv_def layout_ok_def ws_ok_def layout_spec_defs supply_ok_def
      logs_ok_def layout_ids_def demo_world_inj intro!: log_wf_new)

lemma demo_step: "op_enabled op s \<Longrightarrow> steps session_step s [LOp op] (exec_op op s)"
  by (rule steps.steps_step, rule session_step.step_op, assumption, rule steps.steps_refl)

lemma demo_start:
  "session_new demo_world =
     \<lparr>panes = Map.empty, pane_order = [], events = [],
      layout = \<lparr>workspaces = [\<lparr>ws_id = 100, ws_name = ''Default'', ws_tabs = [], ws_active_tab = 0,
                                ws_color = None\<rparr>], active_workspace = 0\<rparr>,
      pinned = False, byte_logs = Map.empty, byte_log_ring_kb = 1024, byte_log_max_mb = 10,
      drain_tasks = [], world = demo_world\<lparr>w_next_id := 1\<rparr>, os_log = []\<rparr>"
  by (simp add: session_new_def new_default_layout_def)

lemma demo_session_eval:
  "drain_tasks demo_session = [102]"
  "byte_logs demo_session = [102 \<mapsto> byte_log_new None 1048576 10485760]"
  "panes demo_session = [102 \<mapsto> \<lparr>ps_id = 102, ps_bridge = \<lparr>pb_pty = 0, pb_rx = False\<rparr>,
     ps_cwd = ''/home/u'', ps_title = [], ps_rows = 24, ps_cols = 80\<rparr>]"
  "layout demo_session = \<lparr>workspaces =
     [\<lparr>ws_id = 100, ws_name = ''Default'', ws_tabs = [\<lparr>tab_id = 103, tab_title = [],
         tab_tree = Leaf 102, active_pane_id = None\<rparr>], ws_active_tab = 0, ws_color = None\<rparr>,
      \<lparr>ws_id = 101, ws_name = ''work'', ws_tabs = [], ws_active_tab = 0, ws_color = None\<rparr>],
     active_workspace = 0\<rparr>"
  "world demo_session = demo_world\<lparr>w_next_id := 4, w_next_spawn := 1\<rparr>"
  by (simp_all add: demo_session_def)

subsection \<open>The invariant along every run\<close>



subsection \<open>Subscribing: no byte lost, none delivered twice\<close>

lemma replay_history:
  assumes i: "sinv {} D s" and l: "byte_logs s p = Some l" and r: "steps (step_keeping p) s ls s'"
    and sub: "subscribe_with_snapshot p s = (rx, replay, hwm)"
  shows "\<exists>l'. byte_logs s' p = Some l' \<and> take rx (events s') = events s \<and>
    ring l' = suffix_of (ring_capacity l') (replay @ outputs p (drop rx (events s'))) \<and>
    total_bytes_written l' = min (hwm + length (outputs p (drop rx (events s')))) u64_max"
proof -
  have st: "streams p s s'" "p \<in> dom (byte_logs s')"
    using run_streams[OF r i] l by blast+
  then obtain l' where l': "byte_logs s' p = Some l'" by blast
  obtain new ds where new: "events s' = events s @ new" "l' = foldl log_append l ds"
      "concat ds = outputs p new"
    using st(1) l l' unfolding streams_def by blast
  have wf: "log_wf l" using invD(8)[OF i] l by (simp add: logs_ok_def)
  then have u: "total_bytes_written l \<le> u64_max" by (simp add: log_wf_def)
  have "rx = length (events s)" "replay = ring l" "hwm = total_bytes_written l"
    using sub l by (simp_all add: subscribe_with_snapshot_def ring_snapshot_def Let_def)
  then show ?thesis
    using l' new rl.snap_history[OF wf, of ds] rl.cap_history[of l ds] total_history[OF u, of ds]
    by simp
qed

text \<open>
  C2: a client that subscribes with a snapshot and concatenates the replay with the data of
  the output events its receiver then delivers has, whatever else happens in between while
  the pane keeps its log, exactly the byte history of the pane: the ring holds the newest
  bytes of that concatenation, and the cursor has advanced by its length (saturating).
\<close>

theorem subscribe_replay_exact:
  assumes i: "sinv {} D s" and l: "byte_logs s p = Some l" and r: "steps (step_keeping p) s ls s'"
    and sub: "subscribe_with_snapshot p s = (rx, replay, hwm)"
  shows "\<exists>l'. byte_logs s' p = Some l' \<and> take rx (events s') = events s \<and>
    ring l' = suffix_of (ring_capacity l') (replay @ outputs p (drop rx (events s'))) \<and>
    total_bytes_written l' = min (hwm + length (outputs p (drop rx (events s')))) u64_max"
  by (rule replay_history[OF assms])

lemma demo_drain: "steps (step_keeping 102) demo_session [LDrain 102 (Some [7, 8])]
    (drain_step 102 (Some [7, 8]) demo_session)"
proof (rule steps.steps_step)
  have "session_step demo_session (LDrain 102 (Some [7, 8])) (drain_step 102 (Some [7, 8]) demo_session)"
    by (rule session_step.step_drain) (simp add: demo_session_eval)
  moreover have "102 \<in> dom (byte_logs (drain_step 102 (Some [7, 8]) demo_session))"
    by (simp add: drain_step_def process_pane_bytes_def demo_session_eval)
  ultimately show "step_keeping 102 demo_session (LDrain 102 (Some [7, 8]))
      (drain_step 102 (Some [7, 8]) demo_session)"
    by (simp add: step_keeping_def)
qed (rule steps.steps_refl)

lemma demo_subscribe: "subscribe_with_snapshot 102 demo_session = (length (events demo_session), [], 0)"
  by (simp add: subscribe_with_snapshot_def ring_snapshot_def demo_session_eval byte_log_new_def)

theorem subscribe_replay_exact_witness:
  "\<exists>l'. byte_logs (drain_step 102 (Some [7, 8]) demo_session) 102 = Some l' \<and>
     take (length (events demo_session)) (events (drain_step 102 (Some [7, 8]) demo_session)) =
       events demo_session"
proof -
  have "byte_logs demo_session 102 = Some (byte_log_new None 1048576 10485760)"
    by (simp add: demo_session_eval)
  from subscribe_replay_exact[OF demo_inv this demo_drain demo_subscribe] show ?thesis by blast
qed

subsection \<open>A failed operation changes nothing a client can see\<close>

definition session_view :: "session \<Rightarrow> (pane_id \<rightharpoonup> pane_state) \<times> pane_id list \<times> session_layout \<times>
    (pane_id \<rightharpoonup> byte_log) \<times> session_event list \<times> bool" where
  "session_view s = (panes s, pane_order s, layout s, byte_logs s, events s, pinned s)"

fun error_of :: "(forgetty_error + 'a) \<times> session \<Rightarrow> forgetty_error option" where
  "error_of (Inl e, s) = Some e"
| "error_of (Inr _, s) = None"

text \<open>The error an operation returns; the operations without a result never fail.\<close>

fun op_error :: "session_op \<Rightarrow> session \<Rightarrow> forgetty_error option" where
  "op_error (OCreatePane sz cwd cmd sh login) s = error_of (create_pane sz cwd cmd sh login s)"
| "op_error (ORenameWorkspace i n) s = error_of (rename_workspace i n s)"
| "op_error (OSetWorkspaceColor i c) s = error_of (set_workspace_color i c s)"
| "op_error (OMoveWorkspace i j) s = error_of (move_workspace i j s)"
| "op_error (ODeleteWorkspace i) s = error_of (delete_workspace i s)"
| "op_error (ODuplicateWorkspace i n sz) s = error_of (duplicate_workspace i n sz s)"
| "op_error (OCreateTab i c sz cmd) s = error_of (create_tab i c sz cmd s)"
| "op_error (OCreateTabWithPaneId i c sz cmd p) s = error_of (create_tab_with_pane_id i c sz cmd p s)"
| "op_error (OSplitPane p d sz c) s = error_of (split_pane p d sz c s)"
| "op_error (OSplitPaneWithRatio p d r sz c) s = error_of (split_pane_with_ratio p d r sz c s)"
| "op_error (OSplitPaneWithRatioAndPaneId p d r sz c n) s =
     error_of (split_pane_with_ratio_and_pane_id p d r sz c n s)"
| "op_error (OCloseTab t) s = error_of (close_tab t s)"
| "op_error (OMoveTab t k) s = error_of (move_tab t k s)"
| "op_error (OSetActiveTab i j) s = error_of (set_active_tab i j s)"
| "op_error (OSetActiveWorkspace i) s = error_of (set_active_workspace i s)"
| "op_error (OSetActivePane i t p) s = error_of (set_active_pane i t p s)"
| "op_error (OClosePane p) s = error_of (close_pane p s)"
| "op_error (OWritePty p d) s = error_of (write_pty p d s)"
| "op_error (OResizePane p sz) s = error_of (resize_pane p sz s)"
| "op_error _ s = None"

lemma error_of_Some: "error_of x = Some e \<longleftrightarrow> fst x = Inl e"
  by (cases x, cases "fst x") auto

lemma view_os_do [simp]: "session_view (os_do a s) = session_view s"
  by (simp add: session_view_def)

lemma view_new_uuid: "new_uuid s = (u, s') \<Longrightarrow> session_view s' = session_view s"
  by (simp add: session_view_def new_uuid_fields)

lemma view_spawn: "pty_bridge_spawn sz c cmd sh l s = (r, s') \<Longrightarrow> session_view s' = session_view s"
  by (simp add: session_view_def spawn_fields)

lemma view_dup_rollback [simp]: "session_view (dup_rollback sp s) = session_view s"
  by (simp add: session_view_def)

lemma view_dup_spawn: "dup_spawn sz n cwds sp s = (r, s') \<Longrightarrow> session_view s' = session_view s"
proof (induction cwds arbitrary: sp s)
  case (Cons c cwds)
  obtain p s1 where nu: "new_uuid s = (p, s1)" by fastforce
  obtain rb s2 where sw: "pty_bridge_spawn sz c None None True s1 = (rb, s2)" by fastforce
  have "session_view s2 = session_view s" using view_new_uuid[OF nu] view_spawn[OF sw] by simp
  then show ?case using Cons nu sw by (cases rb) auto
qed simp

lemma view_create_tab_err:
  assumes "fst (create_tab_with_pane_id i c sz cmd p s) = Inl e"
  shows "session_view (snd (create_tab_with_pane_id i c sz cmd p s)) = session_view s"
proof -
  obtain rb s1 where sp: "pty_bridge_spawn sz c cmd None True s = (rb, s1)" by fastforce
  show ?thesis
    using assms sp view_spawn[OF sp]
    by (cases rb) (auto simp: create_tab_with_pane_id_def Let_def split: if_splits prod.splits)
qed

lemma view_split_body_err:
  assumes "n \<notin> dom (panes s)" "n \<notin> set (pane_order s)"
    "fst (split_pane_body fn p d r sz c n s) = Inl e"
  shows "session_view (snd (split_pane_body fn p d r sz c n s)) = session_view s"
proof -
  obtain rb s1 where sp: "pty_bridge_spawn sz c None None True s = (rb, s1)" by fastforce
  note f1 = spawn_fields[OF sp]
  show ?thesis
  proof (cases rb)
    case (Inl e)
    then show ?thesis using sp view_spawn[OF sp] by (simp add: split_pane_body_def)
  next
    case (Inr b)
    define s2 where "s2 = push_order n (insert_pane n (new_pane_state n b
      (case c of Some c \<Rightarrow> c | None \<Rightarrow> home_dir_fallback s1) sz) s1)"
    obtain found wss where w: "split_in_workspaces p n d r (workspaces (layout s2)) = (found, wss)"
      by fastforce
    have none: "found = None"
      using assms(3) unfolding split_pane_body_def sp Inr prod.case sum.case Let_def s2_def[symmetric] w
      by (simp split: option.splits)
    then have "wss = workspaces (layout s2)" using split_in_workspaces_None w by blast
    moreover have "map_remove n (panes s2) = panes s"
      using assms(1) f1 by (auto simp: s2_def map_remove_def domIff)
    ultimately have "session_view (s2\<lparr>layout := (layout s2)\<lparr>workspaces := wss\<rparr>,
        panes := map_remove n (panes s2), pane_order := removeAll n (pane_order s2)\<rparr>) = session_view s"
      using assms(2) f1 by (simp add: session_view_def s2_def)
    then show ?thesis
      unfolding split_pane_body_def sp Inr prod.case sum.case Let_def s2_def[symmetric] w none
      by simp
  qed
qed

lemma view_op_error:
  assumes "sinv {} D s" "op_enabled op s" "op_error op s = Some e"
  shows "session_view (exec_op op s) = session_view s"
proof -
  have split: "session_view (snd (split_pane_body fn p d r sz c n t)) = session_view s"
    if "fst (split_pane_body fn p d r sz c n t) = Inl e" "panes t = panes s"
      "pane_order t = pane_order s" "n \<notin> dom (panes s)" "session_view t = session_view s"
    for fn p d r sz c n t
    using view_split_body_err[of n t] that invD(3)[OF assms(1)] by simp
  obtain u s1 where nu: "new_uuid s = (u, s1)" by fastforce
  note f = new_uuid_fields[OF nu] view_new_uuid[OF nu] inv_new_uuid(4)[OF assms(1) nu]
  show ?thesis
  proof (cases op)
    case (OCreatePane sz c cmd sh l)
    obtain rb s2 where sp: "pty_bridge_spawn sz c cmd sh l s1 = (rb, s2)" by fastforce
    show ?thesis
      using assms(3) OCreatePane nu sp view_spawn[OF sp] f
      by (cases rb) (auto simp: create_pane_def Let_def error_of_Some split: prod.splits)
  next
    case (ODuplicateWorkspace i n sz)
    then show ?thesis
      using assms(3) by (auto simp: duplicate_workspace_def error_of_Some dest: view_dup_spawn
          split: sum.splits prod.splits)
  next
    case (OCreateTab i c sz cmd)
    then show ?thesis
      using assms(3) view_create_tab_err[of i c sz cmd u s1 e] nu f
      by (simp add: create_tab_def error_of_Some)
  next
    case (OCreateTabWithPaneId i c sz cmd p)
    then show ?thesis using assms(3) view_create_tab_err[of i c sz cmd p s e] by (simp add: error_of_Some)
  next
    case (OSplitPane p d sz c)
    then show ?thesis
      using assms(3) split nu f by (auto simp: split_pane_def error_of_Some split: if_splits)
  next
    case (OSplitPaneWithRatio p d r sz c)
    then show ?thesis
      using assms(3) split nu f
      by (auto simp: split_pane_with_ratio_def split_pane_with_ratio_and_pane_id_def error_of_Some
          split: if_splits)
  next
    case (OSplitPaneWithRatioAndPaneId p d r sz c n)
    then show ?thesis
      using assms(2,3) split[of _ _ _ _ _ _ n s]
      by (auto simp: split_pane_with_ratio_and_pane_id_def error_of_Some unused_id_def split: if_splits)
  qed (use assms(3) in \<open>auto simp: error_of_Some rename_workspace_def set_workspace_color_def
      move_workspace_def delete_workspace_def close_tab_def move_tab_def set_active_tab_def
      set_active_workspace_def set_active_pane_def close_pane_def write_pty_def resize_pane_def Let_def
      split: if_splits option.splits prod.splits\<close>)
qed

text \<open>
  C4: an operation that returns an error leaves the registry, the creation order, the layout,
  the byte logs, the event stream and the pinned flag as they were: out-of-range indices,
  unknown tabs and panes, refused deletions, failed spawns (also half-way through a
  duplication) and failed writes and resizes are all without visible effect.
\<close>

theorem failed_op_changes_nothing:
  assumes "sinv {} D s" "op_enabled op s" "op_error op s = Some e"
  shows "session_view (exec_op op s) = session_view s"
  by (rule view_op_error[OF assms])

theorem failed_op_changes_nothing_witness:
  "session_view (exec_op (OCloseTab 999) demo_session) = session_view demo_session"
  by (rule failed_op_changes_nothing[OF demo_inv])
     (simp_all add: close_tab_def demo_session_eval)

subsection \<open>Deleting a workspace\<close>

lemma delete_panes_effect:
  "events (fold delete_pane_of_workspace ps s) = events s @ map PaneClosed ps"
  "p \<notin> set ps \<Longrightarrow> panes (fold delete_pane_of_workspace ps s) p = panes s p"
  "p \<notin> set ps \<Longrightarrow> byte_logs (fold delete_pane_of_workspace ps s) p = byte_logs s p"
  "p \<in> set ps \<Longrightarrow> w_log_file (world (fold delete_pane_of_workspace ps s)) p = None"
proof -
  have one: "events (delete_pane_of_workspace p s) = events s @ [PaneClosed p]"
    "q \<noteq> p \<Longrightarrow> panes (delete_pane_of_workspace p s) q = panes s q"
    "q \<noteq> p \<Longrightarrow> byte_logs (delete_pane_of_workspace p s) q = byte_logs s q"
    "w_log_file (world (delete_pane_of_workspace p s)) = (w_log_file (world s))(p := None)" for p q s
    by (auto simp: delete_pane_of_workspace_def unlink_log_def Let_def split: option.splits)
  show "events (fold delete_pane_of_workspace ps s) = events s @ map PaneClosed ps"
    by (induction ps arbitrary: s) (simp_all add: one)
  show "p \<notin> set ps \<Longrightarrow> panes (fold delete_pane_of_workspace ps s) p = panes s p"
    by (induction ps arbitrary: s) (simp_all add: one)
  show "p \<notin> set ps \<Longrightarrow> byte_logs (fold delete_pane_of_workspace ps s) p = byte_logs s p"
    by (induction ps arbitrary: s) (simp_all add: one)
  have "w_log_file (world (fold delete_pane_of_workspace ps s)) p =
      (if p \<in> set ps then None else w_log_file (world s) p)" for s
    by (induction ps arbitrary: s) (simp_all add: one)
  then show "p \<in> set ps \<Longrightarrow> w_log_file (world (fold delete_pane_of_workspace ps s)) p = None"
    by simp
qed

text \<open>
  A successful \<open>delete_workspace\<close> sends one \<open>PaneClosed\<close> per leaf of the workspace, in
  tree order, and then \<open>WorkspaceDeleted\<close>; it unregisters exactly those panes, leaves every
  other pane and log alone and no log file of a deleted pane on disk; the workspace that was
  active stays the active one, and when it is the deleted one its successor (or the new last
  one) becomes active.
\<close>

theorem delete_workspace_effect:
  assumes i: "sinv {} D s" and ok: "delete_workspace i s = (Inr (), s')"
  defines "ws \<equiv> workspaces (layout s) ! i"
  shows "events s' = events s @ map PaneClosed (ws_leaves ws) @ [WorkspaceDeleted i (ws_id ws)] \<and>
    workspaces (layout s') = vec_remove i (workspaces (layout s)) \<and>
    dom (panes s') = dom (panes s) - set (ws_leaves ws) \<and>
    (\<forall>p. p \<notin> set (ws_leaves ws) \<longrightarrow> panes s' p = panes s p \<and> byte_logs s' p = byte_logs s p) \<and>
    (\<forall>p \<in> set (ws_leaves ws). w_log_file (world s') p = None) \<and>
    (if active_workspace (layout s) = i
     then active_workspace (layout s') = min i (ws_count s - 2)
     else workspaces (layout s') ! active_workspace (layout s') =
          workspaces (layout s) ! active_workspace (layout s))"
proof -
  have g: "i < ws_count s" "1 < ws_count s"
    using ok by (auto simp: delete_workspace_def not_less split: if_splits)
  define s1 where "s1 = fold delete_pane_of_workspace (ws_leaves ws) s"
  define act where "act = active_workspace (layout s)"
  have s': "s' = send_event (WorkspaceDeleted i (ws_id ws))
       (s1\<lparr>layout := \<lparr>workspaces = vec_remove i (workspaces (layout s)),
                      active_workspace = active_after_delete i (ws_count s - 1) act\<rparr>\<rparr>)"
    using ok delete_workspace_ok(2)[OF g] by (simp add: s1_def ws_def act_def)
  have act: "act < ws_count s" using invD(1)[OF i] by (simp add: act_def layout_ok_def ws_count_def)
  obtain A x B where AB: "workspaces (layout s) = A @ x # B" "length A = i"
    using nth_split g(1) unfolding ws_count_def by metis
  have eq: "act = i \<Longrightarrow> active_after_delete i (ws_count s - 1) act = min i (ws_count s - 2)"
    using g by (auto simp: active_after_delete_def)
  have ne: "act \<noteq> i \<Longrightarrow> vec_remove i (workspaces (layout s)) ! active_after_delete i (ws_count s - 1) act =
            workspaces (layout s) ! act"
    using g act AB by (auto simp: active_after_delete_def ws_count_def nth_append nth_Cons')
  show ?thesis
    using eq ne delete_panes_effect[where s = s] inv_delete_panes[OF i, of "ws_leaves ws"]
    by (auto simp: s' s1_def act_def)
qed

theorem delete_workspace_effect_witness:
  "events (snd (delete_workspace 0 demo_session)) =
     events demo_session @ [PaneClosed 102, WorkspaceDeleted 0 100]"
proof -
  have "delete_workspace 0 demo_session = (Inr (), snd (delete_workspace 0 demo_session))"
    by (simp add: delete_workspace_def ws_count_def demo_session_eval Let_def)
  from delete_workspace_effect[OF demo_inv this] show ?thesis
    by (simp add: demo_session_eval ws_leaves_def)
qed

subsection \<open>Duplicating a workspace\<close>

text \<open>The processes a stretch of the effect log starts and ends.\<close>

fun spawned :: "os_action list \<Rightarrow> nat multiset" where
  "spawned [] = {#}"
| "spawned (SpawnPty h sz c cmd l # as) = add_mset h (spawned as)"
| "spawned (_ # as) = spawned as"

fun ended :: "os_action list \<Rightarrow> nat multiset" where
  "ended [] = {#}"
| "ended (KillPty h # as) = add_mset h (ended as)"
| "ended (DropPty h # as) = add_mset h (ended as)"
| "ended (_ # as) = ended as"

lemma spawned_append [simp]: "spawned (as @ bs) = spawned as + spawned bs"
  by (induction as rule: spawned.induct) auto

lemma ended_append [simp]: "ended (as @ bs) = ended as + ended bs"
  by (induction as rule: ended.induct) auto

lemma rollback_log:
  "spawned (map (\<lambda>(_, b, _). KillPty (pb_pty b)) sp) = {#}"
  "ended (map (\<lambda>(_, b, _). KillPty (pb_pty b)) sp) = mset (map (\<lambda>(_, b, _). pb_pty b) sp)"
  by (induction sp) (auto split: prod.splits)

lemma spawn_log:
  assumes "pty_bridge_spawn sz c cmd sh l s = (r, s')"
  shows "\<exists>as. os_log s' = os_log s @ as \<and>
     spawned as = ended as + (case r of Inr b \<Rightarrow> {#pb_pty b#} | Inl _ \<Rightarrow> {#})"
  using assms by (auto simp: pty_bridge_spawn_def Let_def split: prod.splits sum.splits option.splits)

lemma dup_spawn_log:
  "dup_spawn sz n cwds sp s = (Inl e, s') \<Longrightarrow>
   \<exists>as. os_log s' = os_log s @ as \<and>
     spawned as + mset (map (\<lambda>(_, b, _). pb_pty b) sp) = ended as"
proof (induction cwds arbitrary: sp s)
  case (Cons c cwds)
  obtain p s1 where nu: "new_uuid s = (p, s1)" by fastforce
  obtain rb s2 where sw: "pty_bridge_spawn sz c None None True s1 = (rb, s2)" by fastforce
  obtain as where as: "os_log s2 = os_log s @ as"
      "spawned as = ended as + (case rb of Inr b \<Rightarrow> {#pb_pty b#} | Inl _ \<Rightarrow> {#})"
    using spawn_log[OF sw] new_uuid_fields[OF nu] by auto
  show ?case
  proof (cases rb)
    case (Inl e')
    then show ?thesis
      using Cons.prems nu sw as by (auto simp: rollback_log)
  next
    case (Inr b)
    let ?sp = "sp @ [(p, b, case c of Some c \<Rightarrow> c | None \<Rightarrow> home_dir_fallback s2)]"
    have "dup_spawn sz n cwds ?sp s2 = (Inl e, s')" using Cons.prems nu sw Inr by simp
    then obtain bs where "os_log s' = os_log s2 @ bs"
      "spawned bs + mset (map (\<lambda>(_, b, _). pb_pty b) ?sp) = ended bs"
      using Cons.IH by blast
    with as Inr show ?thesis by (auto simp: ac_simps)
  qed
qed simp

text \<open>
  A duplication that fails half-way ends every process it had started: the processes
  spawned during the call are, with multiplicity, the processes killed or dropped during it.
\<close>

theorem duplicate_failure_ends_processes:
  assumes "duplicate_workspace src name sz s = (Inl e, s')"
  shows "\<exists>as. os_log s' = os_log s @ as \<and> spawned as = ended as"
proof (cases "dup_snapshot src name s")
  case (Inl e')
  then show ?thesis using assms by (auto simp: duplicate_workspace_def)
next
  case (Inr snap)
  obtain nm k cwds where snap: "snap = (nm, k, cwds)" by (cases snap) auto
  have "dup_spawn sz (length cwds) cwds [] s = (Inl e, s')"
    using assms Inr snap by (auto simp: duplicate_workspace_def split: sum.splits prod.splits)
  from dup_spawn_log[OF this] show ?thesis by simp
qed

text \<open>A world whose second spawn and later ones fail.\<close>

definition flaky_session :: session where
  "flaky_session = demo_session\<lparr>
     layout := (layout demo_session)\<lparr>workspaces := [\<lparr>ws_id = 100, ws_name = ''Default'',
        ws_tabs = [new_tab_record 103 102, new_tab_record 105 104], ws_active_tab = 0,
        ws_color = None\<rparr>]\<rparr>,
     world := (world demo_session)\<lparr>w_spawn := (\<lambda>n sz cwd cmd login.
        if n < 2 then Inr n else Inl (Pty (Msg ''no pty'' [])))\<rparr>\<rparr>"

theorem duplicate_failure_ends_processes_witness:
  "os_log (snd (duplicate_workspace 0 None default_size flaky_session)) =
     os_log flaky_session @ [SpawnPty 1 default_size (Some ''/home/u'') None True, KillPty 1] \<and>
   (\<exists>as. os_log (snd (duplicate_workspace 0 None default_size flaky_session)) =
      os_log flaky_session @ as \<and> spawned as = ended as)"
proof -
  define e where "e = pty_err ''duplicate_workspace: PTY spawn failed on tab {} of {}: {e}''
     [ANat 2, ANat 2, AMsg (Msg ''spawn PTY: {e}'' [AMsg (Msg ''PTY error: {0}'' [AMsg (Msg ''no pty'' [])])])]"
  have run: "fst (duplicate_workspace 0 None default_size flaky_session) = Inl e"
    "os_log (snd (duplicate_workspace 0 None default_size flaky_session)) =
       os_log flaky_session @ [SpawnPty 1 default_size (Some ''/home/u'') None True, KillPty 1]"
    by (simp_all add: duplicate_workspace_def dup_snapshot_def flaky_session_def demo_session_def
        ws_count_def new_tab_record_def new_uuid_def pty_bridge_spawn_def effective_command_def Let_def
        os_do_def dup_rollback_def e_def pty_err_def)
  then have "duplicate_workspace 0 None default_size flaky_session =
      (Inl e, snd (duplicate_workspace 0 None default_size flaky_session))"
    by (simp add: prod_eq_iff)
  from duplicate_failure_ends_processes[OF this] run(2) show ?thesis by blast
qed

lemma dup_spawn_length:
  "dup_spawn sz n cwds sp s = (Inr sp', s') \<Longrightarrow> length sp' = length sp + length cwds"
proof (induction cwds arbitrary: sp s)
  case (Cons c cwds)
  then show ?case by (fastforce split: prod.splits sum.splits)
qed simp

lemma dup_insert_frame:
  "dup_insert_panes sz sp s = (tabs, dts, s') \<Longrightarrow>
   layout s' = layout s \<and> events s' = events s \<and> map tab_tree tabs = map (Leaf \<circ> dt_pane_id) dts \<and>
   map tab_id tabs = map dt_tab_id dts \<and> map dt_pane_id dts = map fst sp"
proof (induction sp arbitrary: s tabs dts)
  case (Cons a sp)
  obtain p b c where a: "a = (p, b, c)" by (cases a) auto
  show ?case
    using Cons.prems Cons.IH a
    by (fastforce simp: new_tab_record_def dest: new_uuid_fields split: prod.splits)
qed simp

lemma fold_announce_events:
  "events (fold (dup_announce k) dts s) =
     events s @ concat (map (\<lambda>dt. [PaneCreated (dt_pane_id dt), TabCreated k (dt_tab_id dt) (dt_pane_id dt)]) dts)"
  by (induction dts arbitrary: s) (simp_all add: dup_announce_def)

lemma fold_drain_fields [simp]:
  "layout (fold (\<lambda>dt. spawn_drain_task (dt_pane_id dt)) dts s) = layout s"
  "events (fold (\<lambda>dt. spawn_drain_task (dt_pane_id dt)) dts s) = events s"
  by (induction dts arbitrary: s) simp_all

text \<open>
  A successful duplication inserts one workspace right after the source, with the new
  name (the given one, or the source's with " (copy)"), one single-leaf tab per tab of the
  source and no colour; no other workspace changes and the active workspace stays the same
  one; the events are \<open>WorkspaceCreated\<close>, then \<open>PaneCreated\<close> and \<open>TabCreated\<close> for each
  tab in order.
\<close>

theorem duplicate_workspace_effect:
  assumes ok: "duplicate_workspace src name sz s = (Inr (u, idx, dts), s')"
  defines "source \<equiv> workspaces (layout s) ! src"
  shows "idx = src + 1 \<and> length dts = length (ws_tabs source) \<and>
    (\<exists>ws. workspaces (layout s') = vec_insert idx ws (workspaces (layout s)) \<and> ws_id ws = u \<and>
       ws_name ws = (case name of Some n \<Rightarrow> n | None \<Rightarrow> ws_name source @ '' (copy)'') \<and>
       map tab_tree (ws_tabs ws) = map (Leaf \<circ> dt_pane_id) dts \<and>
       map tab_id (ws_tabs ws) = map dt_tab_id dts \<and> ws_active_tab ws = 0 \<and> ws_color ws = None) \<and>
    active_workspace (layout s') =
      (if active_workspace (layout s) > src then active_workspace (layout s) + 1
       else active_workspace (layout s)) \<and>
    events s' = events s @ WorkspaceCreated idx u (case name of Some n \<Rightarrow> n
        | None \<Rightarrow> ws_name source @ '' (copy)'') #
      concat (map (\<lambda>dt. [PaneCreated (dt_pane_id dt), TabCreated idx (dt_tab_id dt) (dt_pane_id dt)]) dts)"
proof -
  define nm where "nm = (case name of Some n \<Rightarrow> n | None \<Rightarrow> ws_name source @ '' (copy)'')"
  obtain k cwds where snap: "dup_snapshot src name s = Inr (nm, k, cwds)" "k = src + 1"
      "length cwds = length (ws_tabs source)" "src < ws_count s"
    using ok unfolding nm_def source_def by (cases "dup_snapshot src name s")
      (auto simp: duplicate_workspace_def dup_snapshot_def Let_def split: if_splits)
  obtain sp s1 where sp: "dup_spawn sz (length cwds) cwds [] s = (Inr sp, s1)"
    using ok snap by (auto simp: duplicate_workspace_def split: sum.splits prod.splits)
  obtain u' s2 where nu: "new_uuid s1 = (u', s2)" by fastforce
  obtain tabs dts' s3 where ins: "dup_insert_panes sz sp s2 = (tabs, dts', s3)" by (metis prod_cases3)
  have l2: "layout s2 = layout s" "events s2 = events s"
    using new_uuid_fields[OF nu] view_dup_spawn[OF sp] by (simp_all add: session_view_def)
  note fr = dup_insert_frame[OF ins]
  have len: "length dts' = length (ws_tabs source)"
    using fr dup_spawn_length[OF sp] snap(3) by (metis add_0 length_map list.size(3))
  have cl: "min k (ws_count s2) = src + 1" using snap(2,4) l2 by (simp add: ws_count_def)
  have "u' = u" "idx = src + 1" "dts = dts'" and lay: "layout s' = \<lparr>workspaces =
        vec_insert (src + 1) \<lparr>ws_id = u', ws_name = nm, ws_tabs = tabs, ws_active_tab = 0,
          ws_color = None\<rparr> (workspaces (layout s)),
        active_workspace = (if active_workspace (layout s) \<ge> src + 1
          then active_workspace (layout s) + 1 else active_workspace (layout s))\<rparr>"
    and ev: "events s' = events (fold (dup_announce (src + 1)) dts'
        (send_event (WorkspaceCreated (src + 1) u' nm) s2))"
    using ok snap(1) sp nu ins fr l2 cl
    by (auto simp: duplicate_workspace_def dup_commit_def Let_def fold_announce_events)
  then show ?thesis
    using fr len l2 by (auto simp: fold_announce_events nm_def)
qed

theorem duplicate_workspace_effect_witness:
  "\<exists>s'. duplicate_workspace 0 None default_size demo_session =
        (Inr (105, 1, [\<lparr>dt_tab_id = 106, dt_pane_id = 104\<rparr>]), s') \<and>
     events s' = events demo_session @ [WorkspaceCreated 1 105 ''Default (copy)'', PaneCreated 104,
       TabCreated 1 106 104]"
proof -
  have "fst (duplicate_workspace 0 None default_size demo_session) =
      Inr (105, 1, [\<lparr>dt_tab_id = 106, dt_pane_id = 104\<rparr>])"
    by (simp add: duplicate_workspace_def dup_snapshot_def demo_session_def ws_count_def new_uuid_def
        pty_bridge_spawn_def effective_command_def Let_def os_do_def dup_commit_def new_tab_record_def
        insert_pane_def push_order_def)
  then have run: "duplicate_workspace 0 None default_size demo_session =
      (Inr (105, 1, [\<lparr>dt_tab_id = 106, dt_pane_id = 104\<rparr>]),
       snd (duplicate_workspace 0 None default_size demo_session))"
    by (simp add: prod_eq_iff)
  from duplicate_workspace_effect[OF run] run show ?thesis by (auto simp: demo_session_eval)
qed

subsection \<open>Closing tabs and panes\<close>

lemma close_panes_effect:
  "events (fold close_pane_of_tab ps s) =
     events s @ map PaneClosed (filter (\<lambda>p. p \<in> dom (panes s)) ps)"
  if "distinct ps"
  using that
proof (induction ps arbitrary: s)
  case (Cons p ps)
  have one: "events (close_pane_of_tab p s) =
      events s @ (if p \<in> dom (panes s) then [PaneClosed p] else [])"
    by (auto simp: close_pane_of_tab_def Let_def split: option.splits)
  have "filter (\<lambda>q. q \<in> dom (panes s) - {p}) ps = filter (\<lambda>q. q \<in> dom (panes s)) ps"
    using Cons.prems by (auto intro!: filter_cong)
  then show ?case using Cons by (simp add: one)
qed simp

lemma seed_and_drain_effect:
  assumes "i < ws_count s"
  shows "(\<exists>p tid b. ws_tabs (workspaces (layout (seed_and_drain i s)) ! i) =
            ws_tabs (workspaces (layout s) ! i) @ [new_tab_record tid p] \<and>
            events (seed_and_drain i s) = events s @ [PaneCreated p, TabCreated i tid p]) \<or>
         (layout (seed_and_drain i s) = layout s \<and> events (seed_and_drain i s) = events s \<and>
          (\<exists>e t. auto_seed_default_tab i default_size s = (Inl e, t)))"
proof -
  obtain rb s1 where sp: "pty_bridge_spawn default_size None None None True s = (rb, s1)" by fastforce
  note f1 = spawn_fields[OF sp]
  show ?thesis
  proof (cases rb)
    case (Inl e)
    then show ?thesis
      using assms sp f1 by (simp add: seed_and_drain_def auto_seed_default_tab_def)
  next
    case (Inr b)
    obtain p s2 where nu: "new_uuid s1 = (p, s2)" by fastforce
    obtain tid s4 where nu2: "new_uuid (push_order p (insert_pane p (new_pane_state p b
        (home_dir_fallback s2) default_size) s2)) = (tid, s4)" by fastforce
    note f2 = new_uuid_fields[OF nu] and f4 = new_uuid_fields[OF nu2]
    have "ws_tabs (workspaces (layout (seed_and_drain i s)) ! i) =
          ws_tabs (workspaces (layout s) ! i) @ [new_tab_record tid p]"
      using assms sp Inr nu nu2 f1 f2 f4
      by (simp add: seed_and_drain_def auto_seed_default_tab_def Let_def modify_layout_ws_def
          modify_at_def push_tab_def ws_count_def)
    moreover have "events (seed_and_drain i s) = events s @ [PaneCreated p, TabCreated i tid p]"
      using assms sp Inr nu nu2 f1 f2 f4
      by (simp add: seed_and_drain_def auto_seed_default_tab_def Let_def)
    ultimately show ?thesis by blast
  qed
qed



lemma close_split_pane_frame:
  assumes i: "sinv {} D s" and p: "p \<in> dom (panes s)"
    and split: "\<forall>ws \<in> set (workspaces (layout s)). \<not> has_leaf_tab p ws"
    and ok: "close_pane p s = (r, s')"
  shows "layout s' = layout s \<and> p \<in> set (layout_leaves (layout s')) \<and> p \<notin> dom (panes s') \<and>
    events s' = events s @ [PaneClosed p]"
proof -
  obtain st where st: "panes s p = Some st" using p by blast
  have "position (has_leaf_tab p) (workspaces (layout s)) = None"
    using split by (simp add: position_None_iff)
  then have "s' = send_event (PaneClosed p) (os_do (KillPty (pb_pty (ps_bridge st))) (unregister p s))"
    using ok close_pane_registered[OF st] by (simp add: close_pane_layout_def)
  moreover have "p \<in> set (layout_leaves (layout s))" using invD(5)[OF i] p by auto
  ultimately show ?thesis by simp
qed

text \<open>
  Closing one pane of a split tab kills its process and unregisters it, and does not
  touch the layout: the leaf stays in the tree with no pane behind it, and no sibling is
  promoted.
\<close>

theorem close_split_pane_keeps_dead_leaf:
  assumes i: "sinv {} D s" and p: "p \<in> dom (panes s)"
    and split: "\<forall>ws \<in> set (workspaces (layout s)). \<not> has_leaf_tab p ws"
    and ok: "close_pane p s = (r, s')"
  shows "layout s' = layout s \<and> p \<in> set (layout_leaves (layout s')) \<and> p \<notin> dom (panes s') \<and>
    events s' = events s @ [PaneClosed p]"
  by (rule close_split_pane_frame[OF assms])

definition split_session :: session where
  "split_session = exec_op (OSplitPane 102 ''horizontal'' default_size None) demo_session"

lemma split_session_layout:
  "workspaces (layout split_session) =
     [\<lparr>ws_id = 100, ws_name = ''Default'', ws_tabs = [\<lparr>tab_id = 103, tab_title = [],
         tab_tree = Split ''horizontal'' (Finite (1/2)) (Leaf 102) (Leaf 104), active_pane_id = None\<rparr>],
         ws_active_tab = 0, ws_color = None\<rparr>,
      \<lparr>ws_id = 101, ws_name = ''work'', ws_tabs = [], ws_active_tab = 0, ws_color = None\<rparr>]"
  "102 \<in> dom (panes split_session)"
  by (simp_all add: split_session_def split_pane_def split_pane_body_def demo_session_def new_uuid_def
      pty_bridge_spawn_def effective_command_def Let_def os_do_def insert_pane_def push_order_def)

lemma split_session_inv: "sinv {} {} split_session"
  using inv_exec_op[OF demo_inv, of "OSplitPane 102 ''horizontal'' default_size None"]
  by (simp add: split_session_def)

theorem close_split_pane_keeps_dead_leaf_witness:
  "102 \<in> set (layout_leaves (layout (snd (close_pane 102 split_session)))) \<and>
   102 \<notin> dom (panes (snd (close_pane 102 split_session)))"
proof -
  have "\<forall>ws \<in> set (workspaces (layout split_session)). \<not> has_leaf_tab 102 ws"
    by (simp add: split_session_layout(1) has_leaf_tab_def)
  from close_split_pane_keeps_dead_leaf[OF split_session_inv split_session_layout(2) this
      prod.collapse[symmetric]]
  show ?thesis by blast
qed

subsection \<open>Order, focus, splits, ratios\<close>

text \<open>
  A successful \<open>move_workspace\<close> exchanges two workspaces and nothing else, the active
  workspace is the same one as before, and moving back restores the layout.
\<close>

theorem move_workspace_follows:
  assumes i: "sinv {} D s" and ok: "move_workspace a b s = (Inr (), s')"
  shows "workspaces (layout s') = vec_swap a b (workspaces (layout s)) \<and>
    workspaces (layout s') ! active_workspace (layout s') =
      workspaces (layout s) ! active_workspace (layout s) \<and>
    layout (snd (move_workspace b a s')) = layout s"
proof (cases "a = b")
  case True
  then have "s' = s" "a < ws_count s"
    using ok by (auto simp: move_workspace_def Let_def split: if_splits)
  then show ?thesis using True by (simp add: move_workspace_def vec_swap_def ws_count_def)
next
  case False
  then have g: "a < ws_count s" "b < ws_count s"
    using ok by (auto simp: move_workspace_def Let_def split: if_splits)
  define act where "act = active_workspace (layout s)"
  have l': "layout s' = \<lparr>workspaces = vec_swap a b (workspaces (layout s)),
      active_workspace = (if act = a then b else if act = b then a else act)\<rparr>"
    using ok g False by (auto simp: move_workspace_def Let_def act_def)
  have "act < ws_count s" using invD(1)[OF i] by (simp add: act_def layout_ok_def ws_count_def)
  then have "vec_swap a b (workspaces (layout s)) ! (if act = a then b else if act = b then a else act) =
      workspaces (layout s) ! act"
    using g by (auto simp: vec_swap_nth ws_count_def)
  moreover have "vec_swap b a (vec_swap a b (workspaces (layout s))) = workspaces (layout s)"
    using g by (auto simp: list_eq_iff_nth_eq vec_swap_nth ws_count_def)
  moreover have "ws_count s' = ws_count s" by (simp add: ws_count_def l')
  ultimately show ?thesis
    using g False by (auto simp: l' act_def move_workspace_def Let_def)
qed

theorem move_workspace_follows_witness:
  "workspaces (layout (snd (move_workspace 0 1 demo_session))) =
     vec_swap 0 1 (workspaces (layout demo_session)) \<and>
   active_workspace (layout (snd (move_workspace 0 1 demo_session))) = 1"
proof -
  have a: "move_workspace 0 1 demo_session = (Inr (), snd (move_workspace 0 1 demo_session))"
    "active_workspace (layout (snd (move_workspace 0 1 demo_session))) = 1"
    by (simp_all add: move_workspace_def ws_count_def demo_session_eval Let_def)
  from move_workspace_follows[OF demo_inv a(1)] a(2) show ?thesis by simp
qed

text \<open>
  Moving a tab puts it at the wanted index (clamped to the last) of its workspace, keeps
  the others in order, and the tab that was active is still the active one, wherever it is
  now; the active tab of every other workspace is untouched.
\<close>

theorem move_tab_follows:
  assumes i: "sinv {} D s" and f: "find_tab tid (workspaces (layout s)) = Some (k, c)"
    and ok: "move_tab tid n s = (r, s')"
  defines "ws \<equiv> workspaces (layout s) ! k" and "ws' \<equiv> workspaces (layout s') ! k"
  defines "target \<equiv> min n (length (ws_tabs ws) - 1)"
  shows "r = Inr () \<and> ws_tabs ws' = vec_insert target (ws_tabs ws ! c) (vec_remove c (ws_tabs ws)) \<and>
    ws_tabs ws' ! ws_active_tab ws' = ws_tabs ws ! ws_active_tab ws \<and>
    tab_id (ws_tabs ws' ! target) = tid \<and>
    (\<forall>m < ws_count s. m \<noteq> k \<longrightarrow> workspaces (layout s') ! m = workspaces (layout s) ! m)"
proof -
  have kc: "k < length (workspaces (layout s))" "c < length (ws_tabs ws)" "tab_id (ws_tabs ws ! c) = tid"
    using find_tab_Some[OF f] by (auto simp: ws_def)
  note ok0 = layout_ok_ws[OF invD(1)[OF i] kc(1), folded ws_def]
  have t: "target < length (ws_tabs ws)" using kc(2) by (auto simp: target_def)
  note mv = move_tab_in_ws_props[OF ok0(1,3) kc(2) t]
  have at: "vec_insert target x (vec_remove c (ws_tabs ws)) ! target = x" for x
    using t kc(2) by (simp add: vec_insert_def nth_append)
  show ?thesis
  proof (cases "c = target")
    case True
    then have s': "s' = s" "r = Inr ()"
      using ok f by (auto simp: move_tab_def Let_def target_def ws_def)
    have "vec_insert c (ws_tabs ws ! c) (vec_remove c (ws_tabs ws)) = ws_tabs ws"
      using kc(2) by (simp add: vec_insert_def vec_remove_def flip: id_take_nth_drop)
    then show ?thesis using True s' kc by (simp add: ws_def ws'_def)
  next
    case False
    then have s': "s' = send_event (TabMoved k tid target) (modify_ws k (move_tab_in_ws c target) s)"
      "r = Inr ()"
      using ok f by (auto simp: move_tab_def Let_def target_def ws_def)
    have "ws' = move_tab_in_ws c target ws"
      using kc(1) by (simp add: ws'_def ws_def s' modify_layout_ws_def modify_at_nth)
    then show ?thesis
      using mv at s' kc by (auto simp: modify_layout_ws_def modify_at_nth ws_count_def)
  qed
qed

theorem move_tab_follows_witness:
  "tab_id (ws_tabs (workspaces (layout (snd (move_tab 103 5 demo_session))) ! 0) ! 0) = 103"
proof -
  have "find_tab 103 (workspaces (layout demo_session)) = Some (0, 0)"
    by (simp add: demo_session_eval)
  from move_tab_follows[OF demo_inv this prod.collapse[symmetric], of 5]
  show ?thesis by (simp add: demo_session_eval vec_insert_def)
qed

text \<open>
  Splitting pane \<open>p\<close> inserts the new pane right after \<open>p\<close> in the leaf order of one tab,
  registers it, keeps every other leaf where it was, and announces it with \<open>PaneCreated\<close>
  followed by \<open>PaneSplit\<close> for that tab.
\<close>

theorem split_pane_effect:
  assumes i: "sinv {} D s" and ok: "split_pane p dir sz cwd s = (Inr n, s')"
  shows "set (layout_leaves (layout s')) = insert n (set (layout_leaves (layout s))) \<and>
    n \<notin> set (layout_leaves (layout s)) \<and> n \<in> dom (panes s') \<and>
    (\<exists>k A t B tree C E. k < ws_count s \<and> ws_tabs (workspaces (layout s) ! k) = A @ t # B \<and>
       ws_tabs (workspaces (layout s') ! k) = A @ t\<lparr>tab_tree := tree\<rparr> # B \<and>
       tree = snd (replace_leaf_with_ratio (tab_tree t) p n dir (Finite (1/2))) \<and>
       leaves (tab_tree t) = C @ p # E \<and> leaves tree = C @ p # n # E \<and>
       events s' = events s @ [PaneCreated n, PaneSplit (tab_id t) p n dir])"
proof -
  obtain st where st: "panes s p = Some st"
    using ok by (cases "panes s p") (auto simp: split_pane_def)
  obtain m s1 where nu: "new_uuid s = (m, s1)" by fastforce
  note f1 = new_uuid_fields[OF nu] and i1 = inv_new_uuid[OF i nu]
  have body: "split_pane_body ''split_pane'' p dir (Finite (1/2)) sz cwd m s1 = (Inr n, s')"
    using ok st nu by (simp add: split_pane_def)
  obtain rb s2 where sp: "pty_bridge_spawn sz cwd None None True s1 = (rb, s2)" by fastforce
  note f2 = spawn_fields[OF sp]
  obtain b where b: "rb = Inr b" using body sp by (cases rb) (auto simp: split_pane_body_def)
  define s3 where "s3 = push_order m (insert_pane m (new_pane_state m b
      (case cwd of Some c \<Rightarrow> c | None \<Rightarrow> home_dir_fallback s2) sz) s2)"
  have l3: "layout s3 = layout s" "events s3 = events s" using f1 f2 by (simp_all add: s3_def)
  obtain found wss where w: "split_in_workspaces p m dir (Finite (1/2)) (workspaces (layout s3)) = (found, wss)"
    by fastforce
  obtain tid where tid: "found = Some tid" and n: "m = n"
    and s': "s' = spawn_drain_task n (send_event (PaneSplit tid p n dir) (send_event (PaneCreated n)
        (s3\<lparr>layout := (layout s3)\<lparr>workspaces := wss\<rparr>\<rparr>)))"
    using body unfolding split_pane_body_def sp b prod.case sum.case Let_def s3_def[symmetric] w
    by (auto split: option.splits)
  have fresh: "n \<notin> set (layout_leaves (layout s))" using i1(2) n by (auto simp: layout_ids_def)
  have w': "split_in_workspaces p n dir (Finite (1/2)) (workspaces (layout s)) = (Some tid, wss)"
    using w tid n l3 by simp
  note sl = split_layout[OF invD(1)[OF i] fresh w']
  obtain k ts where k: "k < length (workspaces (layout s))"
    "split_in_tabs p n dir (Finite (1/2)) (ws_tabs (workspaces (layout s) ! k)) = (Some tid, ts)"
    "wss = modify_at k (\<lambda>ws. ws\<lparr>ws_tabs := ts\<rparr>) (workspaces (layout s))"
    using split_in_workspaces_Some[OF w'] by blast
  obtain A t B where t: "ws_tabs (workspaces (layout s) ! k) = A @ t # B" "tid = tab_id t"
      "p \<in> set (leaves (tab_tree t))"
      "ts = A @ t\<lparr>tab_tree := snd (replace_leaf_with_ratio (tab_tree t) p n dir (Finite (1/2)))\<rparr> # B"
    using split_in_tabs_Some[OF k(2)] by blast
  obtain C E where CE: "leaves (tab_tree t) = C @ p # E"
      "leaves (snd (replace_leaf_with_ratio (tab_tree t) p n dir (Finite (1/2)))) = C @ p # n # E"
    using replace_leaf_leaves[OF t(3)] by blast
  have lay: "layout s' = (layout s)\<lparr>workspaces := wss\<rparr>" using s' l3 by simp
  have "n \<in> dom (panes s')"
    unfolding s' spawn_drain_fields(1) by (simp add: s3_def n)
  moreover have "ws_tabs (workspaces (layout s') ! k) = ts"
    using lay k by (simp add: modify_at_nth)
  moreover have "events s' = events s @ [PaneCreated n, PaneSplit (tab_id t) p n dir]"
    using s' l3 t(2) by simp
  ultimately show ?thesis
    using sl(2) lay fresh k(1) t CE unfolding ws_count_def by (auto simp: layout_leaves_def) blast+
qed

theorem split_pane_effect_witness:
  "set (layout_leaves (layout (snd (split_pane 102 ''vertical'' default_size None demo_session)))) = {102, 104}"
proof -
  have "fst (split_pane 102 ''vertical'' default_size None demo_session) = Inr 104"
    by (simp add: split_pane_def split_pane_body_def demo_session_def new_uuid_def
      pty_bridge_spawn_def effective_command_def Let_def os_do_def insert_pane_def push_order_def)
  then have "split_pane 102 ''vertical'' default_size None demo_session =
     (Inr 104, snd (split_pane 102 ''vertical'' default_size None demo_session))"
    by (simp add: prod_eq_iff)
  from split_pane_effect[OF demo_inv this] show ?thesis
    by (auto simp: demo_session_eval layout_spec_defs)
qed

lemma position_modify_at:
  "(\<And>x. P (f x) = P x) \<Longrightarrow> position P (modify_at j f xs) = position P xs"
proof (induction xs arbitrary: j)
  case (Cons x xs)
  have m: "modify_at (Suc k) f (x # xs) = x # modify_at k f xs" "modify_at 0 f (x # xs) = f x # xs" for k
    by (simp_all add: modify_at_def)
  show ?case using Cons by (cases j) (simp_all add: m)
qed (simp add: modify_at_def)

text \<open>
  Selecting the workspace, the focused pane, the name or the colour that is already set
  is a no-op: the second of two equal calls changes no state and sends no event.
\<close>

theorem repeated_selection_is_silent:
  "exec_op (OSetActiveWorkspace i) (exec_op (OSetActiveWorkspace i) s) = exec_op (OSetActiveWorkspace i) s \<and>
   exec_op (ORenameWorkspace i n) (exec_op (ORenameWorkspace i n) s) = exec_op (ORenameWorkspace i n) s \<and>
   exec_op (OSetWorkspaceColor i c) (exec_op (OSetWorkspaceColor i c) s) =
     exec_op (OSetWorkspaceColor i c) s \<and>
   exec_op (OSetActivePane i t p) (exec_op (OSetActivePane i t p) s) = exec_op (OSetActivePane i t p) s"
proof (intro conjI)
  show "exec_op (OSetActiveWorkspace i) (exec_op (OSetActiveWorkspace i) s) = exec_op (OSetActiveWorkspace i) s"
    by (simp add: set_active_workspace_def ws_count_def)
  show "exec_op (ORenameWorkspace i n) (exec_op (ORenameWorkspace i n) s) = exec_op (ORenameWorkspace i n) s"
    by (simp add: rename_workspace_def ws_count_def Let_def modify_layout_ws_def modify_at_nth)
  show "exec_op (OSetWorkspaceColor i c) (exec_op (OSetWorkspaceColor i c) s) =
     exec_op (OSetWorkspaceColor i c) s"
    by (simp add: set_workspace_color_def ws_count_def Let_def modify_layout_ws_def modify_at_nth)
  let ?pos = "position (\<lambda>u. tab_id u = t)"
  define s1 where "s1 = exec_op (OSetActivePane i t p) s"
  show "exec_op (OSetActivePane i t p) (exec_op (OSetActivePane i t p) s) = exec_op (OSetActivePane i t p) s"
  proof (cases "s1 = s")
    case True
    then show ?thesis by (simp add: s1_def)
  next
    case False
    define ts where "ts = ws_tabs (workspaces (layout s) ! i)"
    from False obtain j where i: "i < ws_count s" and j: "?pos ts = Some j"
      and s1: "s1 = send_event (ActivePaneChanged i t p) (modify_ws i
         (\<lambda>ws. ws\<lparr>ws_tabs := modify_at j (\<lambda>u. u\<lparr>active_pane_id := p\<rparr>) (ws_tabs ws)\<rparr>) s)"
      by (auto simp: s1_def set_active_pane_def Let_def ts_def split: if_splits option.splits)
    have tabs: "ws_tabs (workspaces (layout s1) ! i) = modify_at j (\<lambda>u. u\<lparr>active_pane_id := p\<rparr>) ts"
      using i by (simp add: s1 ts_def ws_count_def modify_layout_ws_def modify_at_nth)
    have pos: "?pos (modify_at j (\<lambda>u. u\<lparr>active_pane_id := p\<rparr>) ts) = Some j"
      using j by (simp add: position_modify_at)
    have act: "active_pane_id (modify_at j (\<lambda>u. u\<lparr>active_pane_id := p\<rparr>) ts ! j) = p"
      using j by (simp add: position_Some_iff modify_at_nth)
    have "snd (set_active_pane i t p s1) = s1"
      using pos act by (auto simp: set_active_pane_def Let_def tabs split: option.split)
    then show ?thesis by (simp add: s1_def)
  qed
qed

fun ratios :: "pane_tree \<Rightarrow> f32 list" where
  "ratios (Leaf p) = []"
| "ratios (Split d r a b) = r # ratios a @ ratios b"

fun clamped_ratio :: "f32 \<Rightarrow> bool" where
  "clamped_ratio (Finite q) = (5 / 100 \<le> q \<and> q \<le> 95 / 100)"
| "clamped_ratio NaN = True"
| "clamped_ratio _ = False"

definition ratio_change :: "pane_tree \<Rightarrow> pane_tree \<Rightarrow> bool" where
  "ratio_change t t' \<longleftrightarrow> same_shape t t' \<and> set (ratios t') \<subseteq> set (ratios t) \<union> Collect clamped_ratio"

lemma same_shape_trans: "same_shape t u \<Longrightarrow> same_shape u v \<Longrightarrow> same_shape t v"
proof (induction t u arbitrary: v rule: same_shape.induct)
  case (2 d r a b d' r' a' b')
  then show ?case by (cases v) auto
qed auto

lemma ratio_change_trans: "ratio_change t u \<Longrightarrow> ratio_change u v \<Longrightarrow> ratio_change t v"
  unfolding ratio_change_def using same_shape_trans by blast

lemma update_ratio_ratios:
  "set (ratios (snd (update_ratio_for_pane t p r))) \<subseteq> insert r (set (ratios t))"
  by (induction t) (auto split: prod.splits bool.splits if_splits)

lemma clamped_ratio_clamp: "clamped_ratio (f32_clamp (5 / 100) (95 / 100) r)"
  by (cases r) auto

text \<open>
  Pushing measured ratios changes only ratios, never a tree's shape, a direction or a
  leaf, in any tab of any workspace; every ratio afterwards is one that was there before or
  lies between 0.05 and 0.95 (or is NaN, which the clamp lets through).
\<close>

theorem update_split_ratios_bounded:
  "list_all2 (\<lambda>ws ws'. ws_id ws = ws_id ws' \<and> list_all2 (\<lambda>t t'. tab_id t = tab_id t' \<and>
       ratio_change (tab_tree t) (tab_tree t')) (ws_tabs ws) (ws_tabs ws'))
     (workspaces (layout s)) (workspaces (layout (update_split_ratios us s)))"
proof (induction us s rule: update_split_ratios.induct)
  case (1 s)
  show ?case by (simp add: list_all2_same ratio_change_def)
next
  case (2 p r us s)
  define f where "f = update_tab_ratio p (f32_clamp (5 / 100) (95 / 100) r)"
  define s1 where "s1 = s\<lparr>layout := (layout s)\<lparr>workspaces :=
     map (\<lambda>ws. ws\<lparr>ws_tabs := map f (ws_tabs ws)\<rparr>) (workspaces (layout s))\<rparr>\<rparr>"
  have one: "tab_id (f t) = tab_id t" "ratio_change (tab_tree t) (tab_tree (f t))" for t
    using update_ratio_ratios[of "tab_tree t" p] clamped_ratio_clamp
    by (fastforce simp: f_def update_tab_ratio_def ratio_change_def update_ratio_same_shape)+
  have IH: "list_all2 (\<lambda>ws ws'. ws_id ws = ws_id ws' \<and> list_all2 (\<lambda>t t'. tab_id t = tab_id t' \<and>
       ratio_change (tab_tree t) (tab_tree t')) (ws_tabs ws) (ws_tabs ws'))
     (workspaces (layout s1)) (workspaces (layout (update_split_ratios us s1)))"
    using "2.IH"[OF refl] by (simp add: s1_def f_def)
  have "update_split_ratios ((p, r) # us) s = update_split_ratios us s1"
    by (simp add: s1_def f_def Let_def)
  with IH one show ?case
    by (fastforce simp: s1_def list_all2_conv_all_nth intro: ratio_change_trans)
qed

text \<open>
  The Ctrl+C path signals at most one process group: the foreground group of that
  pane's terminal, only if it is a real group that is not the daemon's own, and never one
  whose leader is ssh, mosh-client, telnet or rsh; nothing else changes.
\<close>

theorem send_sigint_guarded:
  "send_sigint p s = s \<or>
   (\<exists>st g. panes s p = Some st \<and> w_fg_pgrp (world s) (pb_pty (ps_bridge st)) = Some g \<and>
      0 < g \<and> g \<noteq> w_my_pid (world s) \<and>
      (case w_comm (world s) g of None \<Rightarrow> True
       | Some c \<Rightarrow> rust_trim c \<notin> {''ssh'', ''mosh-client'', ''telnet'', ''rsh''}) \<and>
      send_sigint p s = s\<lparr>os_log := os_log s @ [SigintGroup g]\<rparr>)"
  by (auto simp: send_sigint_def os_do_def pgid_is_signal_forwarder_def is_signal_forwarder_comm_def
      split: option.split)

end
