(* ===== verification/HandlerProps.thy ===== *)
theory HandlerProps
  imports Handlers SessionProps
begin

section \<open>Properties of the request handlers\<close>

lemmas handler_op_defs =
  handle_new_tab_def handle_close_tab_def handle_focus_tab_def handle_set_active_workspace_def
  handle_split_pane_def handle_move_tab_def handle_send_input_def handle_resize_pane_def
  handle_send_sigint_def handle_close_pane_def handle_create_workspace_def
  handle_rename_workspace_def handle_delete_workspace_def handle_duplicate_workspace_def
  handle_set_workspace_color_def handle_move_workspace_def handle_set_active_pane_def
  handle_update_split_ratios_def

lemmas query_defs =
  handle_list_tabs_def handle_get_layout_def handle_get_pane_info_def handle_notify_def
  handle_get_pinned_def handle_list_devices_def handle_get_pairing_info_def

lemmas device_op_defs =
  handle_set_pinned_def handle_revoke_device_def handle_enable_pairing_def

subsection \<open>A request is a short run of the session machine\<close>

text \<open>Which operations a method may perform.\<close>

fun method_op :: "string \<Rightarrow> session_op \<Rightarrow> bool" where
  "method_op m (OCreateTab _ _ _ _) = (m \<in> {''new_tab'', ''create_workspace''})"
| "method_op m (OCreateWorkspace _) = (m = ''create_workspace'')"
| "method_op m (OCloseTab _) = (m \<in> {''close_tab'', ''close_pane''})"
| "method_op m (OClosePane _) = (m \<in> {''close_tab'', ''close_pane''})"
| "method_op m (OSetActiveTab _ _) = (m = ''focus_tab'')"
| "method_op m (OSetActiveWorkspace _) = (m = ''set_active_workspace'')"
| "method_op m (OSplitPane _ _ _ _) = (m = ''split_pane'')"
| "method_op m (OMoveTab _ _) = (m = ''move_tab'')"
| "method_op m (OWritePty _ _) = (m \<in> {''send_input'', ''send_sigint''})"
| "method_op m (OResizePane _ _) = (m = ''resize_pane'')"
| "method_op m (OSendSigint _) = (m = ''send_sigint'')"
| "method_op m (ORenameWorkspace _ _) = (m = ''rename_workspace'')"
| "method_op m (ODeleteWorkspace _) = (m = ''delete_workspace'')"
| "method_op m (ODuplicateWorkspace _ _ _) = (m = ''duplicate_workspace'')"
| "method_op m (OSetWorkspaceColor _ _) = (m = ''set_workspace_color'')"
| "method_op m (OMoveWorkspace _ _) = (m = ''move_workspace'')"
| "method_op m (OSetActivePane _ _ _) = (m = ''set_active_pane'')"
| "method_op m (OUpdateSplitRatios _) = (m = ''update_split_ratios'')"
| "method_op m (OSetPinned _) = (m = ''set_pinned'')"
| "method_op m OSnapshot = (m = ''set_pinned'')"
| "method_op m _ = False"

definition performs :: "string \<Rightarrow> session \<Rightarrow> session \<Rightarrow> bool" where
  "performs m s s' \<longleftrightarrow>
     (\<exists>ops. length ops \<le> 2 \<and> (\<forall>op \<in> set ops. method_op m op) \<and> s' = fold exec_op ops s)"

lemma performs_none [simp]: "performs m s s"
  unfolding performs_def by (rule exI [of _ "[]"]) simp

lemma performs_one: "method_op m op \<Longrightarrow> s' = exec_op op s \<Longrightarrow> performs m s s'"
  unfolding performs_def by (rule exI [of _ "[op]"]) simp

lemma performs_two:
  "method_op m op1 \<Longrightarrow> method_op m op2 \<Longrightarrow> s' = exec_op op2 (exec_op op1 s) \<Longrightarrow> performs m s s'"
  unfolding performs_def by (rule exI [of _ "[op1, op2]"]) simp

lemma reply_unit_simps [simp]:
  "snd (reply_unit rq f x) = snd x"
  "fst (reply_unit rq f x) =
     (case fst x of Inr _ \<Rightarrow> ok_response rq | Inl e \<Rightarrow> internal rq f e)"
  by (auto simp: reply_unit_def split: prod.splits sum.splits)

text \<open>The same, from the equation an operation's case analysis leaves.\<close>

lemma performs_eq:
  "method_op m (OCreateTab i c sz cmd) \<Longrightarrow> create_tab i c sz cmd s = (r1, s') \<Longrightarrow> performs m s s'"
  "method_op m (OSplitPane p dir sz c) \<Longrightarrow> split_pane p dir sz c s = (r2, s') \<Longrightarrow> performs m s s'"
  "method_op m (ODuplicateWorkspace i n sz) \<Longrightarrow> duplicate_workspace i n sz s = (r3, s') \<Longrightarrow>
     performs m s s'"
  "method_op m (OSetActiveWorkspace i) \<Longrightarrow> set_active_workspace i s = (r4, s') \<Longrightarrow> performs m s s'"
  "method_op m (OWritePty p b) \<Longrightarrow> write_pty p b s = (r4, s') \<Longrightarrow> performs m s s'"
  by (erule performs_one; simp)+

lemma performs_eq2:
  "method_op m (OWritePty p b) \<Longrightarrow> method_op m (OSendSigint q) \<Longrightarrow>
     write_pty p b s = (r1, s1) \<Longrightarrow> performs m s (send_sigint q s1)"
  "method_op m (OCreateWorkspace n) \<Longrightarrow> method_op m (OCreateTab i c sz cmd) \<Longrightarrow>
     create_workspace n s = (r2, s1) \<Longrightarrow> create_tab i c sz cmd s1 = (r3, s2) \<Longrightarrow> performs m s s2"
  by (rule performs_two [of m "OWritePty p b" "OSendSigint q"]; simp)
     (rule performs_two [of m "OCreateWorkspace n" "OCreateTab i c sz cmd"]; simp)

lemma performs_exec:
  "method_op m (OCloseTab t) \<Longrightarrow> performs m s (snd (close_tab t s))"
  "method_op m (OClosePane p) \<Longrightarrow> performs m s (snd (close_pane p s))"
  "method_op m (OSetActiveTab i j) \<Longrightarrow> performs m s (snd (set_active_tab i j s))"
  "method_op m (OMoveTab t j) \<Longrightarrow> performs m s (snd (move_tab t j s))"
  "method_op m (OWritePty p b) \<Longrightarrow> performs m s (snd (write_pty p b s))"
  "method_op m (OResizePane p sz) \<Longrightarrow> performs m s (snd (resize_pane p sz s))"
  "method_op m (ORenameWorkspace i n) \<Longrightarrow> performs m s (snd (rename_workspace i n s))"
  "method_op m (ODeleteWorkspace i) \<Longrightarrow> performs m s (snd (delete_workspace i s))"
  "method_op m (OSetWorkspaceColor i cl) \<Longrightarrow> performs m s (snd (set_workspace_color i cl s))"
  "method_op m (OMoveWorkspace i j) \<Longrightarrow> performs m s (snd (move_workspace i j s))"
  "method_op m (OSetActivePane i t pp) \<Longrightarrow> performs m s (snd (set_active_pane i t pp s))"
  "method_op m (OUpdateSplitRatios us) \<Longrightarrow> performs m s (update_split_ratios us s)"
  by (erule performs_one; simp)+

lemma performs_handler:
  "performs ''new_tab'' s (snd (handle_new_tab L rq s))"
  "performs ''close_tab'' s (snd (handle_close_tab L rq s))"
  "performs ''focus_tab'' s (snd (handle_focus_tab L rq s))"
  "performs ''set_active_workspace'' s (snd (handle_set_active_workspace rq s))"
  "performs ''split_pane'' s (snd (handle_split_pane L rq s))"
  "performs ''move_tab'' s (snd (handle_move_tab L rq s))"
  "performs ''send_input'' s (snd (handle_send_input L rq s))"
  "performs ''resize_pane'' s (snd (handle_resize_pane L rq s))"
  "performs ''send_sigint'' s (snd (handle_send_sigint L rq s))"
  "performs ''close_pane'' s (snd (handle_close_pane L rq s))"
  "performs ''create_workspace'' s (snd (handle_create_workspace L rq s))"
  "performs ''rename_workspace'' s (snd (handle_rename_workspace rq s))"
  "performs ''delete_workspace'' s (snd (handle_delete_workspace rq s))"
  "performs ''duplicate_workspace'' s (snd (handle_duplicate_workspace L rq s))"
  "performs ''set_workspace_color'' s (snd (handle_set_workspace_color rq s))"
  "performs ''move_workspace'' s (snd (handle_move_workspace rq s))"
  "performs ''set_active_pane'' s (snd (handle_set_active_pane L rq s))"
  "performs ''update_split_ratios'' s (snd (handle_update_split_ratios L rq s))"
  unfolding handler_op_defs Let_def
  by (split sum.split option.split prod.split if_split |
      intro conjI impI allI |
      simp only: snd_conv reply_unit_simps performs_none |
      (rule performs_exec; simp; fail) |
      (erule performs_eq [rotated]; simp; fail) |
      (erule performs_eq2(1) [rotated 2]; simp; fail) |
      (erule performs_eq2(2) [rotated 2]; simp; fail))+

lemma performs_set_pinned:
  "performs ''set_pinned'' (d_session d) (d_session (snd (handle_set_pinned c rq d)))"
proof (cases "param as_bool (rq_params rq) ''pinned''")
  case None
  then show ?thesis by (simp add: handle_set_pinned_def)
next
  case (Some b)
  show ?thesis
  proof (cases "c_session_id c")
    case None
    with Some show ?thesis
      by (auto simp: handle_set_pinned_def intro: performs_one [of _ "OSetPinned b"])
  next
    case (Some sid)
    have "d_session (snd (handle_set_pinned c rq d)) =
        snd (snapshot_to_workspace_state (set_pinned b (d_session d)))"
      using Some \<open>param as_bool (rq_params rq) ''pinned'' = Some b\<close>
      by (auto simp: handle_set_pinned_def Let_def split: prod.split sum.split)
    then show ?thesis by (auto intro: performs_two [of _ "OSetPinned b" OSnapshot])
  qed
qed

lemma session_of_device_handlers:
  "d_session (snd (handle_revoke_device c rq d)) = d_session d"
  "d_session (snd (handle_enable_pairing c rq d)) = d_session d"
  by (auto simp: handle_revoke_device_def handle_enable_pairing_def Let_def
      split: option.split prod.split sum.split)

lemma on_session_simps [simp]:
  "fst (on_session h d) = fst (h (d_session d))"
  "d_session (snd (on_session h d)) = snd (h (d_session d))"
  "d_fs (snd (on_session h d)) = d_fs d" "d_sync (snd (on_session h d)) = d_sync d"
  by (simp_all add: on_session_def split: prod.split)

lemma on_session_id: "snd (h (d_session d)) = d_session d \<Longrightarrow> snd (on_session h d) = d"
  by (auto simp: on_session_def split: prod.split)

lemma performs_if:
  "performs k s (d_session (snd a)) \<Longrightarrow> performs m s (d_session (snd b)) \<Longrightarrow>
     performs m s (d_session (snd (if m = k then a else b)))"
  by simp

lemma performs_dispatch: "performs (rq_method rq) (d_session d) (d_session (snd (dispatch c rq d)))"
  unfolding dispatch_def Let_def
  by (intro performs_if)
     (simp_all only: on_session_simps snd_conv performs_none performs_handler performs_set_pinned
        session_of_device_handlers)

lemma performs_steps:
  assumes "performs m s s'"
  shows "\<exists>ops. length ops \<le> 2 \<and> (\<forall>op \<in> set ops. method_op m op) \<and>
           steps session_step s (map LOp ops) s' \<and> s' = fold exec_op ops s"
proof -
  obtain ops where ops: "length ops \<le> 2" "\<forall>op \<in> set ops. method_op m op" "s' = fold exec_op ops s"
    using assms by (auto simp: performs_def)
  have enabled: "method_op m op \<Longrightarrow> op_enabled op t" for op t by (cases op) auto
  have "\<forall>op \<in> set ops. method_op m op \<Longrightarrow> steps session_step t (map LOp ops) (fold exec_op ops t)" for t ops
    by (induction ops arbitrary: t) (auto intro!: steps_refl steps_step step_op enabled)
  with ops show ?thesis by blast
qed



subsection \<open>Answers and errors\<close>

text \<open>
  What every handler keeps to: the answer is well formed and carries the id of the request,
  a parameter error leaves the state alone, and an internal error of a handler on the session
  comes from one operation that failed.
\<close>

definition answered :: "request \<Rightarrow> 's \<Rightarrow> response \<times> 's \<Rightarrow> bool" where
  "answered rq s x \<longleftrightarrow>
     well_formed_response (fst x) \<and> rp_id (fst x) = rq_id rq \<and>
     (error_code (fst x) = None \<or> error_code (fst x) = Some INTERNAL_ERROR \<or>
      error_code (fst x) = Some INVALID_PARAMS \<and> snd x = s)"

definition failed_op :: "session \<Rightarrow> response \<times> session \<Rightarrow> bool" where
  "failed_op s x \<longleftrightarrow> (error_code (fst x) = Some INTERNAL_ERROR \<longrightarrow>
     (\<exists>op e. op_enabled op s \<and> op_error op s = Some e \<and> snd x = exec_op op s))"

definition fair :: "request \<Rightarrow> session \<Rightarrow> response \<times> session \<Rightarrow> bool" where
  "fair rq s x \<longleftrightarrow> answered rq s x \<and> failed_op s x"

lemma codes_distinct [simp]:
  "INVALID_PARAMS \<noteq> INTERNAL_ERROR" "INTERNAL_ERROR \<noteq> INVALID_PARAMS"
  "METHOD_NOT_FOUND \<noteq> INTERNAL_ERROR" "INTERNAL_ERROR \<noteq> METHOD_NOT_FOUND"
  "METHOD_NOT_FOUND \<noteq> INVALID_PARAMS" "INVALID_PARAMS \<noteq> METHOD_NOT_FOUND"
  by (simp_all add: error_codes)

lemma answer_simps [simp]:
  "error_code (ok_response rq) = None" "error_code (invalid rq f a) = Some INVALID_PARAMS"
  "error_code (internal rq f e) = Some INTERNAL_ERROR"
  "error_code (sync_unavailable rq) = Some METHOD_NOT_FOUND"
  "rp_id (ok_response rq) = rq_id rq" "rp_id (invalid rq f a) = rq_id rq"
  "rp_id (internal rq f e) = rq_id rq" "rp_id (sync_unavailable rq) = rq_id rq"
  "well_formed_response (ok_response rq)" "well_formed_response (invalid rq f a)"
  "well_formed_response (internal rq f e)" "well_formed_response (sync_unavailable rq)"
  by (simp_all add: ok_response_def invalid_def internal_def sync_unavailable_def)

lemma answered_simps [simp]:
  "answered rq s (success (rq_id rq) j, s')" "answered rq s (ok_response rq, s')"
  "answered rq s (invalid rq f a, s)" "answered rq s (internal rq f e, s')"
  "answered rq s (error (rq_id rq) INTERNAL_ERROR m, s')"
  by (simp_all add: answered_def)

lemma fair_simps [simp]:
  "fair rq s (success (rq_id rq) j, s')" "fair rq s (ok_response rq, s')"
  "fair rq s (invalid rq f a, s)"
  by (simp_all add: fair_def failed_op_def)

lemma fair_internal:
  "op_enabled op s \<Longrightarrow> op_error op s = Some e' \<Longrightarrow> s' = exec_op op s \<Longrightarrow> fair rq s (internal rq f e, s')"
  unfolding fair_def failed_op_def by auto

lemma param_errors:
  "uuid_param L rq k bad = Inl r \<Longrightarrow> fair rq s (r, s)"
  "index_param rq k missing = Inl r \<Longrightarrow> fair rq s (r, s)"
  "require_pane_id L rq s1 = Inl r \<Longrightarrow> fair rq s (r, s)"
  "opt_pane_param L rq = Inl r \<Longrightarrow> fair rq s (r, s)"
  by (auto simp: uuid_param_def index_param_def require_pane_id_def opt_pane_param_def
      split: option.splits json.splits if_splits)

lemma fair_reply_unit:
  assumes "op_enabled op s" "x = (r, exec_op op s)" "\<And>e. r = Inl e \<Longrightarrow> op_error op s = Some e"
  shows "fair rq s (reply_unit rq f x)"
  using assms by (cases r) (auto simp: reply_unit_def intro: fair_internal)

lemma error_of_pair: "f = (r, s') \<Longrightarrow> r = Inl e \<Longrightarrow> error_of f = Some e"
  by simp

lemma fair_unit_ops:
  "fair rq s (reply_unit rq f (close_tab t s))" "fair rq s (reply_unit rq f (close_pane p s))"
  "fair rq s (reply_unit rq f (set_active_tab i j s))" "fair rq s (reply_unit rq f (move_tab t j s))"
  "fair rq s (reply_unit rq f (write_pty p b s))" "fair rq s (reply_unit rq f (resize_pane p sz s))"
  "fair rq s (reply_unit rq f (rename_workspace i n s))"
  "fair rq s (reply_unit rq f (delete_workspace i s))"
  "fair rq s (reply_unit rq f (set_workspace_color i c s))"
  "fair rq s (reply_unit rq f (move_workspace i j s))"
  "fair rq s (reply_unit rq f (set_active_pane i t q s))"
  by (rule fair_reply_unit [of "OCloseTab t"] fair_reply_unit [of "OClosePane p"]
      fair_reply_unit [of "OSetActiveTab i j"] fair_reply_unit [of "OMoveTab t j"]
      fair_reply_unit [of "OWritePty p b"] fair_reply_unit [of "OResizePane p sz"]
      fair_reply_unit [of "ORenameWorkspace i n"] fair_reply_unit [of "ODeleteWorkspace i"]
      fair_reply_unit [of "OSetWorkspaceColor i c"] fair_reply_unit [of "OMoveWorkspace i j"]
      fair_reply_unit [of "OSetActivePane i t q"]; simp add: error_of_Some prod_eq_iff; fail)+

text \<open>The operations that answer with more than \<open>ok\<close>.\<close>

lemma fair_failures:
  "create_tab i c sz cmd s = (Inl e, s') \<Longrightarrow> fair rq s (internal rq f e, s')"
  "split_pane p dir sz c s = (Inl e, s') \<Longrightarrow> fair rq s (internal rq f e, s')"
  "duplicate_workspace i n sz s = (Inl e, s') \<Longrightarrow> fair rq s (internal rq f e, s')"
  "write_pty p b s = (Inl e, s') \<Longrightarrow> fair rq s (internal rq f e, s')"
  by (rule fair_internal [of "OCreateTab i c sz cmd"] fair_internal [of "OSplitPane p dir sz c"]
      fair_internal [of "ODuplicateWorkspace i n sz"] fair_internal [of "OWritePty p b"]; simp; fail)+

lemma set_active_workspace_err: "set_active_workspace i s = (Inl e, s') \<Longrightarrow> s' = s"
  by (auto simp: set_active_workspace_def split: if_splits)

lemma fair_handlers:
  "fair rq s (handle_new_tab L rq s)" "fair rq s (handle_close_tab L rq s)"
  "fair rq s (handle_focus_tab L rq s)" "fair rq s (handle_set_active_workspace rq s)"
  "fair rq s (handle_split_pane L rq s)" "fair rq s (handle_move_tab L rq s)"
  "fair rq s (handle_send_input L rq s)" "fair rq s (handle_resize_pane L rq s)"
  "fair rq s (handle_send_sigint L rq s)" "fair rq s (handle_close_pane L rq s)"
  "fair rq s (handle_rename_workspace rq s)" "fair rq s (handle_delete_workspace rq s)"
  "fair rq s (handle_duplicate_workspace L rq s)" "fair rq s (handle_set_workspace_color rq s)"
  "fair rq s (handle_move_workspace rq s)" "fair rq s (handle_set_active_pane L rq s)"
  "fair rq s (handle_update_split_ratios L rq s)"
  unfolding handler_op_defs Let_def
  by (split sum.split option.split prod.split if_split |
      intro conjI impI allI |
      simp only: fair_simps fair_unit_ops |
      (erule param_errors; fail) | (erule fair_failures; fail) |
      (drule set_active_workspace_err, simp only: fair_simps))+

lemma answered_create_workspace: "answered rq s (handle_create_workspace L rq s)"
  by (auto simp: handle_create_workspace_def Let_def split: prod.split sum.split)

lemma answered_set_pinned: "answered rq d (handle_set_pinned c rq d)"
  by (auto simp: handle_set_pinned_def Let_def split: option.split prod.split sum.split)

lemma answered_queries:
  "answered rq d (handle_list_tabs L rq s, d)" "answered rq d (handle_get_layout L rq s, d)"
  "answered rq d (handle_get_pane_info L rq s, d)" "answered rq d (handle_notify L rq s, d)"
  "answered rq d (handle_get_pinned rq s, d)"
  by (auto simp: query_defs require_pane_id_def split: option.split sum.split option.splits if_splits)

lemma answered_on_session: "answered rq (d_session d) (h (d_session d)) \<Longrightarrow> answered rq d (on_session h d)"
  by (auto simp: answered_def on_session_id)

definition device_methods :: "string list" where
  "device_methods = [''list_devices'', ''revoke_device'', ''get_pairing_info'', ''enable_pairing'']"

definition session_methods :: "string list" where
  "session_methods =
     [''list_tabs'', ''get_layout'', ''new_tab'', ''close_tab'', ''focus_tab'',
      ''set_active_workspace'', ''split_pane'', ''move_tab'', ''send_input'', ''get_pane_info'',
      ''resize_pane'', ''send_sigint'', ''notify'', ''close_pane'', ''create_workspace'',
      ''rename_workspace'', ''delete_workspace'', ''duplicate_workspace'', ''set_workspace_color'',
      ''move_workspace'', ''set_active_pane'', ''update_split_ratios'', ''set_pinned'', ''get_pinned'']"

text \<open>The full contract of an answer, with the cases in which a method is not there.\<close>

definition contract :: "request \<Rightarrow> daemon \<Rightarrow> string \<Rightarrow> response \<times> daemon \<Rightarrow> bool" where
  "contract rq d m x \<longleftrightarrow>
     well_formed_response (fst x) \<and> rp_id (fst x) = rq_id rq \<and>
     error_code (fst x) \<in> {None, Some INTERNAL_ERROR, Some INVALID_PARAMS, Some METHOD_NOT_FOUND} \<and>
     (error_code (fst x) \<in> {Some INVALID_PARAMS, Some METHOD_NOT_FOUND} \<longrightarrow> snd x = d) \<and>
     (error_code (fst x) = Some METHOD_NOT_FOUND \<longleftrightarrow>
        m \<notin> set session_methods \<and> (m \<in> set device_methods \<longrightarrow> d_sync d = None))"

lemma contract_if:
  "(m = k \<Longrightarrow> contract rq d m a) \<Longrightarrow> (m \<noteq> k \<Longrightarrow> contract rq d m b) \<Longrightarrow>
     contract rq d m (if m = k then a else b)"
  by simp

lemma contract_session:
  "answered rq d x \<Longrightarrow> m \<in> set session_methods \<Longrightarrow> contract rq d m x"
  by (auto simp: answered_def contract_def)

lemma device_not_session: "m \<in> set device_methods \<Longrightarrow> m \<notin> set session_methods"
  by (auto simp: device_methods_def session_methods_def)

lemma contract_device:
  assumes "m \<in> set device_methods"
  shows "contract rq d m (handle_list_devices rq (d_sync d), d)"
    "contract rq d m (handle_revoke_device c rq d)"
    "contract rq d m (handle_get_pairing_info L rq (d_sync d), d)"
    "contract rq d m (handle_enable_pairing c rq d)"
  using device_not_session [OF assms] assms
  by (auto simp: contract_def handle_list_devices_def handle_revoke_device_def
      handle_get_pairing_info_def handle_enable_pairing_def Let_def
      split: option.split prod.split sum.split)

lemma contract_unknown:
  "m \<notin> set session_methods \<Longrightarrow> m \<notin> set device_methods \<Longrightarrow>
     contract rq d m (error (rq_id rq) METHOD_NOT_FOUND msg, d)"
  by (simp add: contract_def)

lemma fair_answered: "fair rq s x \<Longrightarrow> answered rq s x"
  by (simp add: fair_def)

lemma contract_on_session:
  "answered rq (d_session d) (h (d_session d)) \<Longrightarrow> m \<in> set session_methods \<Longrightarrow>
     contract rq d m (on_session h d)"
  by (rule contract_session [OF answered_on_session])

lemmas method_sets = session_methods_def device_methods_def list.set insert_iff empty_iff simp_thms

lemma dispatch_contract: "contract rq d (rq_method rq) (dispatch c rq d)"
  unfolding dispatch_def Let_def
  by (intro contract_if)
     ((rule contract_on_session,
         (rule answered_create_workspace | (rule fair_answered, rule fair_handlers)),
         simp only: method_sets; fail) |
      (rule contract_session, (rule answered_queries answered_set_pinned),
         simp only: method_sets; fail) |
      (rule contract_device, simp only: method_sets; fail) |
      (rule contract_unknown; simp only: method_sets; fail))+

text \<open>
  C17: every request gets one well-formed answer with its own id: a result, a parameter
  error, an internal error, or "method not found"; the last exactly for a name that is no
  method and for a device method when the daemon runs without the sync endpoint. A request
  refused for its parameters or its method changes nothing at all, in the session, in the
  files or in the device registry.
\<close>

theorem every_request_is_answered:
  "well_formed_response (fst (dispatch c rq d)) \<and> rp_id (fst (dispatch c rq d)) = rq_id rq \<and>
   error_code (fst (dispatch c rq d)) \<in>
     {None, Some INTERNAL_ERROR, Some INVALID_PARAMS, Some METHOD_NOT_FOUND} \<and>
   (error_code (fst (dispatch c rq d)) \<in> {Some INVALID_PARAMS, Some METHOD_NOT_FOUND} \<longrightarrow>
      snd (dispatch c rq d) = d) \<and>
   (error_code (fst (dispatch c rq d)) = Some METHOD_NOT_FOUND \<longleftrightarrow>
      rq_method rq \<notin> set session_methods \<and>
      (rq_method rq \<in> set device_methods \<longrightarrow> d_sync d = None))"
  using dispatch_contract [of rq d c] unfolding contract_def .

theorem every_request_is_answered_witness:
  "snd (dispatch
      \<lparr>c_libs = demo_libs, c_codec = demo_codec, c_devices = demo_devices, c_session_id = None, c_now = 0\<rparr>
      \<lparr>rq_jsonrpc = ''2.0'', rq_method = ''explode'', rq_params = JNull, rq_id = None\<rparr>
      \<lparr>d_session = demo_session, d_fs = demo_fs, d_sync = None\<rparr>) =
   \<lparr>d_session = demo_session, d_fs = demo_fs, d_sync = None\<rparr>"
  using every_request_is_answered
    [of "\<lparr>c_libs = demo_libs, c_codec = demo_codec, c_devices = demo_devices, c_session_id = None,
          c_now = 0\<rparr>"
        "\<lparr>rq_jsonrpc = ''2.0'', rq_method = ''explode'', rq_params = JNull, rq_id = None\<rparr>"
        "\<lparr>d_session = demo_session, d_fs = demo_fs, d_sync = None\<rparr>"]
  by (simp add: session_methods_def device_methods_def)

subsection \<open>Internal errors\<close>

definition excused :: "string set" where
  "excused = {''create_workspace'', ''set_pinned'', ''revoke_device''}"

definition internal_keeps :: "daemon \<Rightarrow> string \<Rightarrow> response \<times> daemon \<Rightarrow> bool" where
  "internal_keeps d m x \<longleftrightarrow>
     (error_code (fst x) = Some INTERNAL_ERROR \<and> m \<notin> excused \<longrightarrow>
        d_fs (snd x) = d_fs d \<and> d_sync (snd x) = d_sync d \<and>
        (d_session (snd x) = d_session d \<or>
         (\<exists>op e. op_enabled op (d_session d) \<and> op_error op (d_session d) = Some e \<and>
            d_session (snd x) = exec_op op (d_session d))))"

lemma keeps_if:
  "internal_keeps d k a \<Longrightarrow> internal_keeps d m b \<Longrightarrow> internal_keeps d m (if m = k then a else b)"
  by simp

lemma keeps_same [simp]: "internal_keeps d m (r, d)"
  by (simp add: internal_keeps_def)

lemma keeps_session: "fair rq (d_session d) (h (d_session d)) \<Longrightarrow> internal_keeps d m (on_session h d)"
  by (auto simp: fair_def failed_op_def internal_keeps_def)

lemma keeps_excused: "m \<in> excused \<Longrightarrow> internal_keeps d m x"
  by (simp add: internal_keeps_def)

lemma keeps_enable_pairing: "internal_keeps d m (handle_enable_pairing c rq d)"
  by (simp add: internal_keeps_def handle_enable_pairing_def Let_def split: option.split)

lemma excused_simps:
  "''create_workspace'' \<in> excused" "''set_pinned'' \<in> excused" "''revoke_device'' \<in> excused"
  by (simp_all add: excused_def)

lemma dispatch_keeps: "internal_keeps d (rq_method rq) (dispatch c rq d)"
  unfolding dispatch_def Let_def
  by (intro keeps_if)
     (rule keeps_same keeps_enable_pairing keeps_excused [OF excused_simps(1)]
        keeps_excused [OF excused_simps(2)] keeps_excused [OF excused_simps(3)] |
      (rule keeps_session, rule fair_handlers))+

text \<open>
  An internal error leaves registry, order, layout, byte logs, event stream and pinned
  flag of the session as they were, and the files and the devices too, for every method but
  three, whose partial effects the code keeps: creating a workspace, pinning and revoking.
\<close>

theorem internal_error_changes_nothing:
  assumes "sinv {} D (d_session d)"
    and "error_code (fst (dispatch c rq d)) = Some INTERNAL_ERROR" "rq_method rq \<notin> excused"
  shows "session_view (d_session (snd (dispatch c rq d))) = session_view (d_session d) \<and>
         d_fs (snd (dispatch c rq d)) = d_fs d \<and> d_sync (snd (dispatch c rq d)) = d_sync d"
  using dispatch_keeps [of d rq c] assms(2,3) view_op_error [OF assms(1)]
  unfolding internal_keeps_def by metis

definition demo_config :: config where
  "demo_config = \<lparr>c_libs = demo_libs\<lparr>uuid_parse := (\<lambda>s. Some (length s))\<rparr>, c_codec = demo_codec,
     c_devices = demo_devices, c_session_id = None, c_now = 0\<rparr>"

definition demo_daemon :: daemon where
  "demo_daemon = \<lparr>d_session = demo_session, d_fs = demo_fs, d_sync = None\<rparr>"

definition rpc :: "string \<Rightarrow> (string \<times> json) list \<Rightarrow> request" where
  "rpc m kvs = \<lparr>rq_jsonrpc = ''2.0'', rq_method = m, rq_params = JObj kvs, rq_id = None\<rparr>"

theorem internal_error_changes_nothing_witness:
  "session_view (d_session (snd (dispatch demo_config (rpc ''close_tab'' [(''tab_id'', JStr ''x'')])
     demo_daemon))) = session_view demo_session"
proof -
  let ?rq = "rpc ''close_tab'' [(''tab_id'', JStr ''x'')]"
  have "error_code (fst (dispatch demo_config ?rq demo_daemon)) = Some INTERNAL_ERROR"
    by (simp add: dispatch_def rpc_def on_session_def handle_close_tab_def str_param_def param_def
        demo_config_def demo_daemon_def reply_unit_def close_tab_def demo_session_eval)
  moreover have "sinv {} {} (d_session demo_daemon)" "d_session demo_daemon = demo_session"
    using demo_inv by (simp_all add: demo_daemon_def)
  moreover have "rq_method ?rq \<notin> excused" by (simp add: rpc_def excused_def)
  ultimately show ?thesis
    using internal_error_changes_nothing [of "{}" demo_daemon demo_config ?rq] by simp
qed

subsection \<open>Closing the panes of a split one by one\<close>

definition all_tabs :: "session_layout \<Rightarrow> session_tab list" where
  "all_tabs l = concat (map ws_tabs (workspaces l))"

lemma layout_leaves_tabs: "layout_leaves l = concat (map (\<lambda>t. leaves (tab_tree t)) (all_tabs l))"
proof -
  have "concat (map ws_leaves wss) = concat (map (\<lambda>t. leaves (tab_tree t)) (concat (map ws_tabs wss)))" for wss
    by (induction wss) (simp_all add: ws_leaves_def comp_def)
  then show ?thesis by (simp add: layout_leaves_def all_tabs_def)
qed

lemma distinct_concat_share:
  "distinct (concat (map f ts)) \<Longrightarrow> t \<in> set ts \<Longrightarrow> u \<in> set ts \<Longrightarrow> x \<in> set (f t) \<Longrightarrow>
     x \<in> set (f u) \<Longrightarrow> t = u"
  by (induction ts) auto

lemma tab_of_leaf_unique:
  assumes "sinv {} D s" "t \<in> set (all_tabs (layout s))" "u \<in> set (all_tabs (layout s))"
    "p \<in> set (leaves (tab_tree t))" "p \<in> set (leaves (tab_tree u))"
  shows "t = u"
proof (rule distinct_concat_share [OF _ assms(2-5)])
  show "distinct (concat (map (\<lambda>t. leaves (tab_tree t)) (all_tabs (layout s))))"
    using invD(1) [OF assms(1)] by (simp add: layout_ok_def layout_leaves_tabs)
qed

lemma tree_contains_iff [simp]: "tree_contains_pane t p \<longleftrightarrow> p \<in> set (leaves t)"
  by (induction t) auto

lemma collect_all_leaves [simp]: "collect_all_pane_ids t out = out @ leaves t"
  by (induction t arbitrary: out) auto

lemma find_tab_record_Some:
  "find_tab_record wss p = Some t \<Longrightarrow> t \<in> set (concat (map ws_tabs wss)) \<and> p \<in> set (leaves (tab_tree t))"
  by (induction wss) (auto simp: find_Some_iff tab_contains_pane_def split: option.splits)

lemma find_tab_record_None:
  "find_tab_record wss p = None \<Longrightarrow> t \<in> set (concat (map ws_tabs wss)) \<Longrightarrow> p \<notin> set (leaves (tab_tree t))"
  by (induction wss) (auto simp: find_None_iff tab_contains_pane_def split: option.splits)

text \<open>The request that closes pane \<open>p\<close>.\<close>

definition close_pane_rpc :: "libs \<Rightarrow> pane_id \<Rightarrow> session \<Rightarrow> session" where
  "close_pane_rpc L p s =
     snd (handle_close_pane L (rpc ''close_pane'' [(''pane_id'', JStr (uuid_str L p))]) s)"

lemma close_pane_rpc_split:
  assumes i: "sinv {} D s" and t: "t \<in> set (all_tabs (layout s))" "tab_tree t = Split dir r a b"
    and p: "p \<in> set (leaves (tab_tree t))" and id: "uuid_parse L (uuid_str L p) = Some p"
  shows "layout (close_pane_rpc L p s) = layout s"
    "dom (panes (close_pane_rpc L p s)) = dom (panes s) - {p}"
    "\<exists>D'. sinv {} D' (close_pane_rpc L p s)"
proof -
  have req: "require_pane_id L (rpc ''close_pane'' [(''pane_id'', JStr (uuid_str L p))]) s =
      (if p \<in> dom (panes s) then Inr p
       else Inl (invalid (rpc ''close_pane'' [(''pane_id'', JStr (uuid_str L p))])
                  ''pane not found: {raw}'' [AStr (uuid_str L p)]))"
    using id by (auto simp: require_pane_id_def str_param_def param_def rpc_def pane_info_of_def)
  have two: "Suc 0 < length (leaves (tab_tree t))"
    using t(2) by (simp add: less_eq_Suc_le) (metis One_nat_def add_mono leaves_nonempty
        length_greater_0_conv Suc_leI one_add_one numeral_2_eq_2)
  obtain u where u: "find_tab_record (workspaces (layout s)) p = Some u"
    using find_tab_record_None [of "workspaces (layout s)" p t] t(1) p
    by (cases "find_tab_record (workspaces (layout s)) p") (auto simp: all_tabs_def)
  have "u = t"
    using find_tab_record_Some [OF u] tab_of_leaf_unique [OF i _ t(1) _ p]
    by (simp add: all_tabs_def)
  then have close: "close_pane_rpc L p s = (if p \<in> dom (panes s) then snd (close_pane p s) else s)"
    using req u two by (simp add: close_pane_rpc_def handle_close_pane_def)
  have noleaf: "\<forall>ws \<in> set (workspaces (layout s)). \<not> has_leaf_tab p ws"
  proof (intro ballI notI)
    fix ws assume "ws \<in> set (workspaces (layout s))" "has_leaf_tab p ws"
    then obtain v where "v \<in> set (all_tabs (layout s))" "tab_tree v = Leaf p"
      by (auto simp: has_leaf_tab_def all_tabs_def)
    with tab_of_leaf_unique [OF i _ t(1) _ p, of v] t(2) show False by simp
  qed
  show "layout (close_pane_rpc L p s) = layout s"
    using close_split_pane_frame [OF i _ noleaf prod.collapse [symmetric]] close by simp
  show "dom (panes (close_pane_rpc L p s)) = dom (panes s) - {p}"
  proof (cases "p \<in> dom (panes s)")
    case True
    then obtain st where "panes s p = Some st" by blast
    moreover have "position (has_leaf_tab p) (workspaces (layout s)) = None"
      using noleaf by (simp add: position_None_iff)
    ultimately show ?thesis using close True
      by (simp add: close_pane_registered close_pane_layout_def)
  qed (simp add: close)
  show "\<exists>D'. sinv {} D' (close_pane_rpc L p s)"
    using close i inv_close_pane(1) [OF i prod.collapse [symmetric]] by auto
qed

text \<open>
  Closing the panes of a split tab one by one, with a request each and in any order,
  ends their processes and never removes the tab: the layout is the same at the end, with a
  tab in which nothing runs any more.
\<close>

theorem split_closed_pane_by_pane_leaves_tab:
  assumes "sinv {} D s" "t \<in> set (all_tabs (layout s))" "tab_tree t = Split dir r a b"
    and "\<forall>p. uuid_parse L (uuid_str L p) = Some p" "set ps = set (leaves (tab_tree t))"
  shows "layout (fold (close_pane_rpc L) ps s) = layout s \<and>
         set (leaves (tab_tree t)) \<inter> dom (panes (fold (close_pane_rpc L) ps s)) = {}"
proof -
  have "layout (fold (close_pane_rpc L) ps s) = layout s \<and>
        dom (panes (fold (close_pane_rpc L) ps s)) = dom (panes s) - set ps"
    if "set ps \<subseteq> set (leaves (tab_tree t))" using that assms(1-4)
  proof (induction ps arbitrary: s D)
    case (Cons p ps)
    note c = close_pane_rpc_split [OF Cons.prems(2-4) _ Cons.prems(5) [rule_format], of p]
    with Cons.prems(1) obtain D' where "sinv {} D' (close_pane_rpc L p s)" by auto
    with Cons.IH [of D' "close_pane_rpc L p s"] Cons.prems c show ?case by auto
  qed simp
  with assms(5) show ?thesis by auto
qed

definition unary_libs :: libs where
  "unary_libs = demo_libs\<lparr>uuid_parse := (\<lambda>s. Some (length s)), uuid_str := (\<lambda>u. replicate u (CHR ''x''))\<rparr>"

theorem split_closed_pane_by_pane_leaves_tab_witness:
  "layout (fold (close_pane_rpc unary_libs) [104, 102] split_session) = layout split_session \<and>
   102 \<notin> dom (panes (fold (close_pane_rpc unary_libs) [104, 102] split_session))"
proof -
  let ?t = "\<lparr>tab_id = 103, tab_title = [],
         tab_tree = Split ''horizontal'' (Finite (1/2)) (Leaf 102) (Leaf 104), active_pane_id = None\<rparr>"
  have "?t \<in> set (all_tabs (layout split_session))"
    by (simp add: all_tabs_def split_session_layout(1))
  moreover have "\<forall>p. uuid_parse unary_libs (uuid_str unary_libs p) = Some p"
    by (simp add: unary_libs_def)
  moreover have "set [104, 102 :: nat] = set (leaves (tab_tree ?t))" by auto
  ultimately show ?thesis
    using split_closed_pane_by_pane_leaves_tab [OF split_session_inv, of ?t _ _ _ _ unary_libs "[104, 102]"]
    by auto
qed

end
