(* ===== verification/Framing.thy ===== *)
theory Framing
  imports Prelude
begin

unbundle bit_operations_syntax

section \<open>Length-prefixed frames\<close>

text \<open>
  The binary frame codec of the streaming socket, \<open>crates/forgetty-socket/src/framing.rs\<close>:
  a big-endian 32-bit length and the payload. The reading half of a connection is the list
  of bytes that will still arrive before it closes; the writing half is a \<open>sink\<close> that
  records what was written and, when the peer goes away, after how many further bytes.
\<close>

type_synonym u32 = "32 word"

datatype io_kind = InvalidInput | InvalidData | UnexpectedEof | BrokenPipe

datatype io_error = IoError io_kind msg

record sink =
  sink_out :: "byte list"
  sink_room :: "nat option"     \<comment> \<open>bytes the peer still takes; \<open>None\<close>: no limit\<close>

definition MAX_FRAME_SIZE :: nat where
  "MAX_FRAME_SIZE = 4 * 1024 * 1024"

subsection \<open>The standard library calls\<close>

text \<open>\<open>u32::to_be_bytes\<close> and \<open>u32::from_be_bytes\<close>.\<close>

definition to_be_bytes :: "u32 \<Rightarrow> byte list" where
  "to_be_bytes w = [ucast (drop_bit 24 w), ucast (drop_bit 16 w), ucast (drop_bit 8 w), ucast w]"

fun from_be_bytes :: "byte list \<Rightarrow> u32" where
  "from_be_bytes [a, b, c, d] =
     push_bit 24 (ucast a) OR push_bit 16 (ucast b) OR push_bit 8 (ucast c) OR ucast d"
| "from_be_bytes _ = 0"

text \<open>\<open>write_all\<close>: a peer that goes away in the middle has taken a part of the data.\<close>

definition write_all :: "byte list \<Rightarrow> sink \<Rightarrow> (io_error + unit) \<times> sink" where
  "write_all data w =
     (case sink_room w of
        None \<Rightarrow> (Inr (), w\<lparr>sink_out := sink_out w @ data\<rparr>)
      | Some n \<Rightarrow>
          if length data \<le> n
          then (Inr (), w\<lparr>sink_out := sink_out w @ data, sink_room := Some (n - length data)\<rparr>)
          else (Inl (IoError BrokenPipe (Msg ''write failed'' [])),
                w\<lparr>sink_out := sink_out w @ take n data, sink_room := Some 0\<rparr>))"

definition read_exact :: "nat \<Rightarrow> byte list \<Rightarrow> (io_error + byte list) \<times> byte list" where
  "read_exact n r =
     (if length r < n then (Inl (IoError UnexpectedEof (Msg ''early eof'' [])), [])
      else (Inr (take n r), drop n r))"

subsection \<open>The codec\<close>

definition write_frame :: "byte list \<Rightarrow> sink \<Rightarrow> (io_error + unit) \<times> sink" where
  "write_frame payload w =
     (if length payload > MAX_FRAME_SIZE
      then (Inl (IoError InvalidInput (Msg ''frame payload {} exceeds MAX_FRAME_SIZE {}''
                   [ANat (length payload), ANat MAX_FRAME_SIZE])), w)
      else let len = (of_nat (length payload) :: u32)
           in case write_all (to_be_bytes len) w of
                (Inl e, w1) \<Rightarrow> (Inl e, w1)
              | (Inr _, w1) \<Rightarrow> write_all payload w1)"

text \<open>\<open>read_frame\<close> fills a buffer it is given; the result is the outcome, the buffer and what
  is left to read.\<close>

definition read_frame :: "byte list \<Rightarrow> byte list \<Rightarrow> (io_error + unit) \<times> byte list \<times> byte list" where
  "read_frame buf r =
     (case read_exact 4 r of
        (Inl e, r1) \<Rightarrow> (Inl e, buf, r1)
      | (Inr len_buf, r1) \<Rightarrow>
          let len = unat (from_be_bytes len_buf)
          in if len > MAX_FRAME_SIZE
             then (Inl (IoError InvalidData
                     (Msg ''frame length {len} exceeds MAX_FRAME_SIZE {MAX_FRAME_SIZE}''
                       [ANat len, ANat MAX_FRAME_SIZE])), buf, r1)
             else if len = 0 then (Inr (), [], r1)
             else (case read_exact len r1 of
                     (Inl e, r2) \<Rightarrow> (Inl e, replicate len 0, r2)
                   | (Inr payload, r2) \<Rightarrow> (Inr (), payload, r2)))"

lemma read_frame_shorter:
  "read_frame buf r = (Inr (), buf', r') \<Longrightarrow> length r' < length r"
  by (auto simp: read_frame_def read_exact_def Let_def split: if_splits)

text \<open>The loop every streaming client runs: frames until the first error.\<close>

function read_frames :: "byte list \<Rightarrow> byte list list \<times> io_error" where
  "read_frames r =
     (case read_frame [] r of
        (Inl e, _, _) \<Rightarrow> ([], e)
      | (Inr _, payload, r') \<Rightarrow>
          (case read_frames r' of (ps, e) \<Rightarrow> (payload # ps, e)))"
  by auto
termination
  by (relation "measure length") (auto dest!: sym [of _ "read_frame _ _"] intro: read_frame_shorter)

declare read_frames.simps [simp del]

text \<open>Writing a batch of payloads, stopping at the first error.\<close>

fun write_frames :: "byte list list \<Rightarrow> sink \<Rightarrow> (io_error + unit) \<times> sink" where
  "write_frames [] w = (Inr (), w)"
| "write_frames (p # ps) w =
     (case write_frame p w of
        (Inl e, w1) \<Rightarrow> (Inl e, w1)
      | (Inr _, w1) \<Rightarrow> write_frames ps w1)"

section \<open>Round trips\<close>

lemma length_to_be_bytes [simp]: "length (to_be_bytes w) = 4"
  by (simp add: to_be_bytes_def)

lemma from_to_be_bytes [simp]: "from_be_bytes (to_be_bytes w) = w"
  unfolding to_be_bytes_def from_be_bytes.simps
proof (rule bit_word_eqI)
  fix n assume "n < LENGTH(32)"
  then consider "n < 8" | "8 \<le> n" "n < 16" | "16 \<le> n" "n < 24" | "24 \<le> n" "n < 32"
    by fastforce
  then show "bit (push_bit 24 (ucast (ucast (drop_bit 24 w) :: byte)) OR
                  push_bit 16 (ucast (ucast (drop_bit 16 w) :: byte)) OR
                  push_bit 8 (ucast (ucast (drop_bit 8 w) :: byte)) OR
                  (ucast (ucast w :: byte) :: u32)) n = bit w n"
    by cases (auto simp: bit_or_iff bit_push_bit_iff bit_ucast_iff bit_drop_bit_eq)
qed

text \<open>The bytes of one frame.\<close>

definition frame_bytes :: "byte list \<Rightarrow> byte list" where
  "frame_bytes p = to_be_bytes (of_nat (length p)) @ p"

lemma unat_frame_length:
  "length p \<le> MAX_FRAME_SIZE \<Longrightarrow> unat (of_nat (length p) :: u32) = length p"
  by (simp add: unat_of_nat MAX_FRAME_SIZE_def)

lemma read_frame_bytes:
  assumes "length p \<le> MAX_FRAME_SIZE"
  shows "read_frame buf (frame_bytes p @ rest) = (Inr (), p, rest)"
  using assms by (simp add: read_frame_def frame_bytes_def read_exact_def unat_frame_length Let_def)

lemma read_frames_frame [simp]:
  assumes "length p \<le> MAX_FRAME_SIZE"
  shows "read_frames (frame_bytes p @ rest) =
           (p # fst (read_frames rest), snd (read_frames rest))"
  using assms by (subst read_frames.simps) (simp add: read_frame_bytes split: prod.splits)

definition stream_bytes :: "byte list list \<Rightarrow> byte list" where
  "stream_bytes ps = concat (map frame_bytes ps)"

lemma stream_bytes_simps [simp]:
  "stream_bytes [] = []"
  "stream_bytes (p # ps) = frame_bytes p @ stream_bytes ps"
  by (simp_all add: stream_bytes_def)

lemma read_frames_stream:
  assumes "\<forall>p \<in> set ps. length p \<le> MAX_FRAME_SIZE"
  shows "read_frames (stream_bytes ps @ rest) =
           (ps @ fst (read_frames rest), snd (read_frames rest))"
  using assms by (induction ps) simp_all

lemma read_frames_short:
  "length r < 4 \<Longrightarrow>
     read_frames r = ([], IoError UnexpectedEof (Msg ''early eof'' []))"
  by (subst read_frames.simps) (simp add: read_frame_def read_exact_def)

text \<open>A frame that breaks off is an error, not a shorter payload.\<close>

lemma read_frames_cut:
  assumes "length p \<le> MAX_FRAME_SIZE" "k < length (frame_bytes p)"
  shows "read_frames (take k (frame_bytes p)) = ([], IoError UnexpectedEof (Msg ''early eof'' []))"
proof (cases "k < 4")
  case False
  then have "take k (frame_bytes p) =
               to_be_bytes (of_nat (length p)) @ take (k - 4) p" "k - 4 < length p"
    using assms by (auto simp: frame_bytes_def)
  then show ?thesis
    using assms
    by (subst read_frames.simps)
       (auto simp: read_frame_def read_exact_def unat_frame_length Let_def)
qed (simp add: read_frames_short)

lemma read_frames_prefix:
  assumes "\<forall>p \<in> set ps. length p \<le> MAX_FRAME_SIZE" "k \<le> length (stream_bytes ps)"
  shows "\<exists>m. read_frames (take k (stream_bytes ps)) =
              (take m ps, IoError UnexpectedEof (Msg ''early eof'' [])) \<and>
            length (stream_bytes (take m ps)) \<le> k \<and>
            (m < length ps \<longrightarrow> k < length (stream_bytes (take (Suc m) ps)))"
  using assms
proof (induction ps arbitrary: k)
  case Nil
  then show ?case by (simp add: read_frames_short)
next
  case (Cons p ps)
  show ?case
  proof (cases "k < length (frame_bytes p)")
    case True
    then show ?thesis using Cons.prems read_frames_cut [of p k]
      by (intro exI [of _ 0]) simp
  next
    case False
    then have le: "k - length (frame_bytes p) \<le> length (stream_bytes ps)"
      using Cons.prems by simp
    from False have split: "take k (stream_bytes (p # ps)) =
        frame_bytes p @ take (k - length (frame_bytes p)) (stream_bytes ps)" by simp
    obtain m where m: "read_frames (take (k - length (frame_bytes p)) (stream_bytes ps)) =
              (take m ps, IoError UnexpectedEof (Msg ''early eof'' []))"
        "length (stream_bytes (take m ps)) \<le> k - length (frame_bytes p)"
        "m < length ps \<longrightarrow>
           k - length (frame_bytes p) < length (stream_bytes (take (Suc m) ps))"
      using Cons.IH [OF _ le] Cons.prems by auto
    show ?thesis
      by (rule exI [of _ "Suc m"]) (use m False Cons.prems split in auto)
  qed
qed

subsection \<open>What the writer puts on the wire\<close>

lemma write_frame_ok:
  assumes "length p \<le> MAX_FRAME_SIZE" "sink_room w = None"
  shows "write_frame p w = (Inr (), w\<lparr>sink_out := sink_out w @ frame_bytes p\<rparr>)"
  using assms by (simp add: write_frame_def write_all_def frame_bytes_def Let_def)

lemma write_frame_oversize:
  "length p > MAX_FRAME_SIZE \<Longrightarrow> snd (write_frame p w) = w \<and>
     (\<exists>m. fst (write_frame p w) = Inl (IoError InvalidInput m))"
  by (simp add: write_frame_def)

text \<open>Whatever the peer took is a prefix of the frame.\<close>

lemma write_frame_room:
  assumes "length p \<le> MAX_FRAME_SIZE" "sink_room w = Some n"
  shows "sink_out (snd (write_frame p w)) = sink_out w @ take n (frame_bytes p) \<and>
         sink_room (snd (write_frame p w)) = Some (n - length (frame_bytes p)) \<and>
         (fst (write_frame p w) = Inr () \<longleftrightarrow> length (frame_bytes p) \<le> n)"
  using assms by (auto simp: write_frame_def write_all_def frame_bytes_def Let_def)

lemma write_frames_unlimited:
  assumes "\<forall>p \<in> set ps. length p \<le> MAX_FRAME_SIZE" "sink_room w = None"
  shows "write_frames ps w = (Inr (), w\<lparr>sink_out := sink_out w @ stream_bytes ps\<rparr>)"
  using assms by (induction ps arbitrary: w) (simp_all add: write_frame_ok)

lemma write_frames_room:
  assumes "\<forall>p \<in> set ps. length p \<le> MAX_FRAME_SIZE" "sink_room w = Some n"
  shows "sink_out (snd (write_frames ps w)) = sink_out w @ take n (stream_bytes ps)"
  using assms
proof (induction ps arbitrary: w n)
  case (Cons p ps)
  note room = write_frame_room [of p w n]
  show ?case
  proof (cases "write_frame p w")
    case (Pair r w1)
    then show ?thesis using Cons room by (cases r) auto
  qed
qed simp

section \<open>Properties\<close>

text \<open>
  C12: a client that reads frames until the connection ends gets payloads exactly as they were
  written. If the peer takes everything, it gets the whole batch; if the connection breaks
  after any number of bytes, it gets the longest batch of leading payloads whose frames were
  taken completely, never a shortened or merged one, and then an end-of-file error.
\<close>

theorem frames_arrive_whole:
  assumes "\<forall>p \<in> set ps. length p \<le> MAX_FRAME_SIZE" "sink_out w = []"
  shows "(sink_room w = None \<longrightarrow>
            fst (write_frames ps w) = Inr () \<and>
            read_frames (sink_out (snd (write_frames ps w))) =
              (ps, IoError UnexpectedEof (Msg ''early eof'' []))) \<and>
         (\<forall>n. sink_room w = Some n \<longrightarrow>
            (\<exists>m. read_frames (sink_out (snd (write_frames ps w))) =
                   (take m ps, IoError UnexpectedEof (Msg ''early eof'' [])) \<and>
                 length (stream_bytes (take m ps)) \<le> n \<and>
                 (m < length ps \<longrightarrow> n < length (stream_bytes (take (Suc m) ps)))))"
proof (intro conjI impI allI)
  assume "sink_room w = None"
  then show "fst (write_frames ps w) = Inr ()"
    and "read_frames (sink_out (snd (write_frames ps w))) =
           (ps, IoError UnexpectedEof (Msg ''early eof'' []))"
    using write_frames_unlimited [of ps w] read_frames_stream [of ps "[]"] assms
    by (simp_all add: read_frames_short)
next
  fix n assume n: "sink_room w = Some n"
  define k where "k = min n (length (stream_bytes ps))"
  have "take n (stream_bytes ps) = take k (stream_bytes ps)" by (simp add: k_def min_def)
  then have out: "sink_out (snd (write_frames ps w)) = take k (stream_bytes ps)"
    using write_frames_room [OF assms(1) n] assms(2) by simp
  obtain m where "read_frames (take k (stream_bytes ps)) =
              (take m ps, IoError UnexpectedEof (Msg ''early eof'' []))"
      "length (stream_bytes (take m ps)) \<le> k"
      "m < length ps \<longrightarrow> k < length (stream_bytes (take (Suc m) ps))"
    using read_frames_prefix [OF assms(1), of k] by (auto simp: k_def)
  moreover have "length (stream_bytes (take (Suc m) ps)) \<le> length (stream_bytes ps)"
    by (metis append_take_drop_id concat_append le_add1 length_append map_append stream_bytes_def)
  ultimately show "\<exists>m. read_frames (sink_out (snd (write_frames ps w))) =
                   (take m ps, IoError UnexpectedEof (Msg ''early eof'' [])) \<and>
                 length (stream_bytes (take m ps)) \<le> n \<and>
                 (m < length ps \<longrightarrow> n < length (stream_bytes (take (Suc m) ps)))"
    by (intro exI [of _ m]) (auto simp: out k_def)
qed

theorem frames_arrive_whole_witness:
  "\<exists>m. read_frames (sink_out (snd (write_frames [[1, 2], [3]] \<lparr>sink_out = [], sink_room = Some 9\<rparr>))) =
         (take m [[1, 2], [3]], IoError UnexpectedEof (Msg ''early eof'' [])) \<and>
       length (stream_bytes (take m [[1, 2], [3 :: byte]])) \<le> 9 \<and>
       (m < length [[1, 2], [3 :: byte]] \<longrightarrow> 9 < length (stream_bytes (take (Suc m) [[1, 2], [3 :: byte]])))"
  using frames_arrive_whole [of "[[1, 2], [3]]" "\<lparr>sink_out = [], sink_room = Some 9\<rparr>"]
  by (simp add: MAX_FRAME_SIZE_def)

text \<open>
  A payload above 4 MiB is refused with \<open>InvalidInput\<close> before a byte is written, so the
  stream stays in step; a length prefix above 4 MiB is refused with \<open>InvalidData\<close> after the
  four prefix bytes, before the buffer is resized; every other prefix is accepted, up to the
  largest payload exactly.
\<close>

theorem oversize_frames_refused:
  shows "(length p > MAX_FRAME_SIZE \<longrightarrow>
            snd (write_frame p w) = w \<and> (\<exists>m. fst (write_frame p w) = Inl (IoError InvalidInput m))) \<and>
         (unat len > MAX_FRAME_SIZE \<longrightarrow>
            (\<exists>m. read_frame buf (to_be_bytes len @ r) = (Inl (IoError InvalidData m), buf, r))) \<and>
         (unat len \<le> MAX_FRAME_SIZE \<and> unat len \<le> length r \<longrightarrow>
            read_frame buf (to_be_bytes len @ r) = (Inr (), take (unat len) r, drop (unat len) r))"
  using write_frame_oversize [of p w]
  by (auto simp: read_frame_def read_exact_def Let_def)

theorem oversize_frames_refused_witness:
  "(\<exists>m. read_frame [7] (to_be_bytes 0x00400001 @ [1, 2]) =
          (Inl (IoError InvalidData m), [7], [1, 2])) \<and>
   read_frame [7] (to_be_bytes 2 @ [1, 2, 3]) = (Inr (), [1, 2], [3])"
  using oversize_frames_refused [of "[]" undefined "0x00400001" "[7]" "[1, 2]"]
    oversize_frames_refused [of "[]" undefined 2 "[7]" "[1, 2, 3]"]
  by (simp add: MAX_FRAME_SIZE_def)

end
