(* ===== verification/Server.thy ===== *)
theory Server
  imports Handlers Framing
begin

section \<open>The socket server\<close>

text \<open>
  \<open>crates/forgetty-socket/src/server.rs\<close>: what a connection does with each line, the two
  streaming modes, the shutdown requests and the count of open connections. A streaming loop
  waits for two things at once, the next event and something from the client; each turn is
  given which of them happens. That the channel is closed does not happen: the daemon ends by
  \<open>exit\<close>.
\<close>

subsection \<open>Receivers of the broadcast channel\<close>

text \<open>
  The channel is \<open>tokio\<close>'s: \<open>recv\<close>, a parameter, gives what a receiver at a position finds in
  the events sent so far, and its next position.
\<close>

definition BROADCAST_CAPACITY :: nat where
  "BROADCAST_CAPACITY = 1024"

datatype received = Event session_event | Lagged nat | Waiting

type_synonym channel = "nat \<Rightarrow> session_event list \<Rightarrow> received \<times> nat"

text \<open>
  What its documentation promises: every event once, in order; a receiver that is more than the
  capacity behind is told and goes on with the oldest event still kept; an event is there as
  soon as it is sent.
\<close>

definition channel_ok :: "channel \<Rightarrow> bool" where
  "channel_ok recv \<longleftrightarrow> (\<forall>pos evs. pos \<le> length evs \<longrightarrow>
     (case recv pos evs of
        (Event e, pos') \<Rightarrow> pos < length evs \<and> e = evs ! pos \<and> pos' = pos + 1
      | (Lagged n, pos') \<Rightarrow>
          pos + BROADCAST_CAPACITY < length evs \<and> 0 < n \<and> pos' = pos + n \<and> pos' \<le> length evs \<and>
          length evs \<le> pos' + BROADCAST_CAPACITY
      | (Waiting, pos') \<Rightarrow> pos = length evs \<and> pos' = pos))"

subsection \<open>The output stream of a pane\<close>

record output_stream =
  os_pane :: pane_id
  os_rx :: nat
  os_sink :: sink
  os_open :: bool

text \<open>After the acknowledgement: the replay as one frame, when there is any.\<close>

definition open_output :: "pane_id \<Rightarrow> nat \<Rightarrow> byte list \<Rightarrow> sink \<Rightarrow> output_stream" where
  "open_output p rx replay w =
     (if replay = [] then \<lparr>os_pane = p, os_rx = rx, os_sink = w, os_open = True\<rparr>
      else case write_frame replay w of
             (Inr _, w1) \<Rightarrow> \<lparr>os_pane = p, os_rx = rx, os_sink = w1, os_open = True\<rparr>
           | (Inl _, w1) \<Rightarrow> \<lparr>os_pane = p, os_rx = rx, os_sink = w1, os_open = False\<rparr>)"

text \<open>One turn of the live loop on a received event.\<close>

fun output_event :: "session_event \<Rightarrow> output_stream \<Rightarrow> output_stream" where
  "output_event (PtyOutput q data) o1 =
     (if q \<noteq> os_pane o1 \<or> data = [] then o1
      else case write_frame data (os_sink o1) of
             (Inr _, w) \<Rightarrow> o1\<lparr>os_sink := w\<rparr>
           | (Inl _, w) \<Rightarrow> o1\<lparr>os_sink := w, os_open := False\<rparr>)"
| "output_event (PaneClosed q) o1 = (if q = os_pane o1 then o1\<lparr>os_open := False\<rparr> else o1)"
| "output_event _ o1 = o1"

datatype arm = ArmRecv | ArmRead

definition output_turn :: "channel \<Rightarrow> arm \<Rightarrow> session_event list \<Rightarrow> output_stream \<Rightarrow> output_stream" where
  "output_turn recv a evs o1 =
     (if \<not> os_open o1 then o1
      else case a of
             ArmRead \<Rightarrow> o1\<lparr>os_open := False\<rparr>
           | ArmRecv \<Rightarrow>
               (case recv (os_rx o1) evs of
                  (Event e, pos) \<Rightarrow> output_event e (o1\<lparr>os_rx := pos\<rparr>)
                | (Lagged n, pos) \<Rightarrow> o1\<lparr>os_rx := pos\<rparr>
                | (Waiting, pos) \<Rightarrow> o1))"

subsection \<open>The layout stream\<close>

definition notification :: "string \<Rightarrow> (string \<times> json) list \<Rightarrow> json" where
  "notification m kvs =
     JObj [(''jsonrpc'', JStr ''2.0''), (''method'', JStr m), (''params'', JObj kvs)]"

fun layout_notification :: "libs \<Rightarrow> session_event \<Rightarrow> json option" where
  "layout_notification L (TabCreated i t p) = Some (notification ''tab_created''
     [(''workspace_idx'', jnat i), (''tab_id'', juuid L t), (''pane_id'', juuid L p)])"
| "layout_notification L (TabClosed i t) = Some (notification ''tab_closed''
     [(''workspace_idx'', jnat i), (''tab_id'', juuid L t)])"
| "layout_notification L (PaneSplit t p n d) = Some (notification ''pane_split''
     [(''tab_id'', juuid L t), (''parent_pane_id'', juuid L p), (''new_pane_id'', juuid L n),
      (''direction'', JStr d)])"
| "layout_notification L (TabMoved i t k) = Some (notification ''tab_moved''
     [(''workspace_idx'', jnat i), (''tab_id'', juuid L t), (''new_index'', jnat k)])"
| "layout_notification L (ActiveTabChanged i j) = Some (notification ''active_tab_changed''
     [(''workspace_idx'', jnat i), (''tab_idx'', jnat j)])"
| "layout_notification L (ActiveWorkspaceChanged i) =
     Some (notification ''active_workspace_changed'' [(''workspace_idx'', jnat i)])"
| "layout_notification L (WorkspaceCreated i u n) = Some (notification ''workspace_created''
     [(''workspace_idx'', jnat i), (''workspace_id'', juuid L u), (''name'', JStr n)])"
| "layout_notification L (WorkspaceRenamed i u n) = Some (notification ''workspace_renamed''
     [(''workspace_idx'', jnat i), (''workspace_id'', juuid L u), (''name'', JStr n)])"
| "layout_notification L (WorkspaceDeleted i u) = Some (notification ''workspace_deleted''
     [(''workspace_idx'', jnat i), (''workspace_id'', juuid L u)])"
| "layout_notification L (WorkspaceColorChanged i u c) = Some (notification ''workspace_color_changed''
     [(''workspace_idx'', jnat i), (''workspace_id'', juuid L u), (''color'', jopt JStr c)])"
| "layout_notification L (WorkspacesReordered i j u v) = Some (notification ''workspaces_reordered''
     [(''from_idx'', jnat i), (''to_idx'', jnat j), (''from_workspace_id'', juuid L u),
      (''to_workspace_id'', juuid L v)])"
| "layout_notification L (ActivePaneChanged i t p) = Some (notification ''active_pane_changed''
     [(''workspace_idx'', jnat i), (''tab_id'', juuid L t), (''pane_id'', jopt (juuid L) p)])"
| "layout_notification L (PtyOutput p data) = None"
| "layout_notification L (PaneCreated p) = None"
| "layout_notification L (PaneClosed p) = None"

text \<open>The lines written so far, and how many more the peer takes.\<close>

record layout_stream =
  ls_rx :: nat
  ls_sent :: "json list"
  ls_room :: "nat option"
  ls_open :: bool

definition open_layout :: "nat \<Rightarrow> nat option \<Rightarrow> layout_stream" where
  "open_layout rx room = \<lparr>ls_rx = rx, ls_sent = [], ls_room = room, ls_open = True\<rparr>"

definition send_line :: "json \<Rightarrow> layout_stream \<Rightarrow> layout_stream" where
  "send_line j o1 =
     (case ls_room o1 of
        None \<Rightarrow> o1\<lparr>ls_sent := ls_sent o1 @ [j]\<rparr>
      | Some 0 \<Rightarrow> o1\<lparr>ls_open := False\<rparr>
      | Some (Suc n) \<Rightarrow> o1\<lparr>ls_sent := ls_sent o1 @ [j], ls_room := Some n\<rparr>)"

definition layout_turn :: "libs \<Rightarrow> channel \<Rightarrow> arm \<Rightarrow> session_event list \<Rightarrow> layout_stream \<Rightarrow> layout_stream" where
  "layout_turn L recv a evs o1 =
     (if \<not> ls_open o1 then o1
      else case a of
             ArmRead \<Rightarrow> o1\<lparr>ls_open := False\<rparr>
           | ArmRecv \<Rightarrow>
               (case recv (ls_rx o1) evs of
                  (Event e, pos) \<Rightarrow>
                    (case layout_notification L e of
                       Some j \<Rightarrow> send_line j (o1\<lparr>ls_rx := pos\<rparr>)
                     | None \<Rightarrow> o1\<lparr>ls_rx := pos\<rparr>)
                | (Lagged n, pos) \<Rightarrow> o1\<lparr>ls_rx := pos\<rparr>
                | (Waiting, pos) \<Rightarrow> o1))"

subsection \<open>One line of a control connection\<close>

datatype line_result =
  Skipped
| Replied response daemon
| Finished response                          \<comment> \<open>answered, and the connection ends\<close>
| StreamOutput response pane_id nat "byte list"
| StreamLayout response nat
| Exited response daemon                     \<comment> \<open>answered, and the process ends\<close>

definition subscribe_output_line :: "libs \<Rightarrow> request \<Rightarrow> session \<Rightarrow> line_result" where
  "subscribe_output_line L rq s =
     (case str_param rq ''pane_id'' of
        None \<Rightarrow> Finished (invalid rq ''missing param: pane_id'' [])
      | Some raw \<Rightarrow>
          (case uuid_parse L raw of
             None \<Rightarrow> Finished (invalid rq ''invalid UUID: {pane_id_str}'' [AStr raw])
           | Some p \<Rightarrow>
               if pane_info_of p s = None
               then Finished (invalid rq ''pane not found: {pane_id_str}'' [AStr raw])
               else (case subscribe_with_snapshot p s of
                       (rx, replay, hwm) \<Rightarrow> StreamOutput (ok_response rq) p rx replay)))"

text \<open>
  The three requests that end the daemon and keep the session: refresh the live file, then
  move it by the pinned flag. Waiting for the byte logs to be flushed has no effect on this
  state; a failed refresh is only logged.
\<close>

definition shutdown_exit :: "config \<Rightarrow> daemon \<Rightarrow> daemon" where
  "shutdown_exit c d =
     (case c_session_id c of
        None \<Rightarrow> d
      | Some sid \<Rightarrow>
          (case snapshot_to_workspace_state (d_session d) of (st, s1) \<Rightarrow>
             let w1 = snd (move_to_active (c_codec c) sid st (d_fs d))
             in d\<lparr>d_session := s1, d_fs := pinned_aware_exit_move sid (is_pinned s1) w1\<rparr>))"

definition handle_line :: "config \<Rightarrow> nat \<Rightarrow> string \<Rightarrow> daemon \<Rightarrow> line_result" where
  "handle_line c conn_count line_buf d =
     (let line = rust_trim line_buf
      in if line = [] then Skipped
         else case parse (c_libs c) line of
                Inl err \<Rightarrow> Replied err d
              | Inr rq \<Rightarrow>
                  let m = rq_method rq
                  in if m = ''subscribe_output'' then subscribe_output_line (c_libs c) rq (d_session d)
                     else if m = ''subscribe_layout''
                     then StreamLayout (ok_response rq) (subscribe_output (d_session d))
                     else if m = ''shutdown_save'' \<or> m = ''shutdown_clean'' \<or> m = ''disconnect''
                     then Exited (ok_response rq) (shutdown_exit c d)
                     else if m = ''shutdown'' then Exited (ok_response rq) d
                     else if m = ''is_attached''
                     then Replied (success (rq_id rq)
                            (JObj [(''attached'', JBool (conn_count > 1))])) d
                     else (case dispatch c rq d of (r, d1) \<Rightarrow> Replied r d1))"

text \<open>The loop over the lines of a connection that is alone while it is served.\<close>

datatype conn_end = AtEof | AtFinish | InOutput pane_id nat "byte list" | InLayout nat | AtExit

fun serve_lines :: "config \<Rightarrow> nat \<Rightarrow> string list \<Rightarrow> daemon \<Rightarrow> response list \<times> conn_end \<times> daemon" where
  "serve_lines c n [] d = ([], AtEof, d)"
| "serve_lines c n (l # ls) d =
     (case handle_line c n l d of
        Skipped \<Rightarrow> serve_lines c n ls d
      | Replied r d1 \<Rightarrow>
          (case serve_lines c n ls d1 of (rs, e, d2) \<Rightarrow> (r # rs, e, d2))
      | Finished r \<Rightarrow> ([r], AtFinish, d)
      | StreamOutput r p rx replay \<Rightarrow> ([r], InOutput p rx replay, d)
      | StreamLayout r rx \<Rightarrow> ([r], InLayout rx, d)
      | Exited r d1 \<Rightarrow> ([r], AtExit, d1))"

subsection \<open>The count of open connections\<close>

text \<open>
  \<open>ConnGuard\<close>: the accept loop counts a connection in before its task runs, and the task
  counts it out when it ends, however it ends.
\<close>

datatype conn_event = Accepted nat | Ended nat

record conns =
  cn_counter :: nat
  cn_live :: "nat list"

fun conn_step :: "conn_event \<Rightarrow> conns \<Rightarrow> conns" where
  "conn_step (Accepted i) k = k\<lparr>cn_counter := cn_counter k + 1, cn_live := cn_live k @ [i]\<rparr>"
| "conn_step (Ended i) k =
     (if i \<in> set (cn_live k)
      then k\<lparr>cn_counter := cn_counter k - 1, cn_live := remove1 i (cn_live k)\<rparr> else k)"

text \<open>The server without a session behind it: every line goes to one handler.\<close>

fun serve_plain :: "libs \<Rightarrow> (request \<Rightarrow> response) \<Rightarrow> string list \<Rightarrow> response list" where
  "serve_plain L h [] = []"
| "serve_plain L h (l # ls) =
     (let line = rust_trim l
      in if line = [] then serve_plain L h ls
         else (case parse L line of Inr rq \<Rightarrow> h rq | Inl err \<Rightarrow> err) # serve_plain L h ls)"

end
