(* ===== verification/ServerProps.thy ===== *)
theory ServerProps
  imports Server SessionProps HandlerProps
begin

section \<open>What a streaming client receives\<close>

text \<open>
  The output stream against the byte history of the pane, the layout stream against the layout
  of the session, and the requests that end the daemon.
\<close>

subsection \<open>One output stream\<close>

definition client_bytes :: "output_stream \<Rightarrow> byte list" where
  "client_bytes o1 = concat (fst (read_frames (sink_out (os_sink o1))))"

fun small_event :: "session_event \<Rightarrow> bool" where
  "small_event (PtyOutput q data) = (length data \<le> MAX_FRAME_SIZE)"
| "small_event _ = True"

definition between :: "nat \<Rightarrow> nat \<Rightarrow> 'a list \<Rightarrow> 'a list" where
  "between a b xs = drop a (take b xs)"

lemma between_append [simp]: "b \<le> length xs \<Longrightarrow> between a b (xs @ ys) = between a b xs"
  by (simp add: between_def)

lemma between_Suc: "a \<le> b \<Longrightarrow> b < length xs \<Longrightarrow> between a (Suc b) xs = between a b xs @ [xs ! b]"
  by (simp add: between_def take_Suc_conv_app_nth)

lemma between_all [simp]: "between a (length xs) xs = drop a xs"
  by (simp add: between_def)

lemma between_empty [simp]: "between a a xs = []"
  by (simp add: between_def)

lemma set_between: "set (between a b xs) \<subseteq> set (drop a xs)"
  by (metis append_take_drop_id drop_take set_append between_def sup_ge1)

text \<open>The stream has sent the replay and the output of the pane up to its position.\<close>

definition stream_inv :: "pane_id \<Rightarrow> nat \<Rightarrow> byte list \<Rightarrow> session_event list \<Rightarrow> output_stream \<Rightarrow> bool" where
  "stream_inv p rx replay evs o1 \<longleftrightarrow>
     os_pane o1 = p \<and> rx \<le> os_rx o1 \<and> os_rx o1 \<le> length evs \<and> sink_room (os_sink o1) = None \<and>
     (\<exists>ps. (\<forall>q \<in> set ps. length q \<le> MAX_FRAME_SIZE) \<and> sink_out (os_sink o1) = stream_bytes ps \<and>
        concat ps = replay @ outputs p (between rx (os_rx o1) evs)) \<and>
     (os_open o1 \<or> PaneClosed p \<in> set (between rx (os_rx o1) evs))"

lemma read_frames_all:
  "\<forall>q \<in> set ps. length q \<le> MAX_FRAME_SIZE \<Longrightarrow> fst (read_frames (stream_bytes ps)) = ps"
  using read_frames_stream[of ps "[]"] by (simp add: read_frames_short)

lemma stream_inv_bytes:
  "stream_inv p rx replay evs o1 \<Longrightarrow> client_bytes o1 = replay @ outputs p (between rx (os_rx o1) evs)"
  unfolding stream_inv_def client_bytes_def by (auto simp: read_frames_all)

lemma stream_inv_extend:
  "stream_inv p rx replay evs o1 \<Longrightarrow> stream_inv p rx replay (evs @ new) o1"
  unfolding stream_inv_def by auto

lemma stream_inv_open:
  assumes "length replay \<le> MAX_FRAME_SIZE" "rx \<le> length evs"
  shows "stream_inv p rx replay evs (open_output p rx replay \<lparr>sink_out = [], sink_room = None\<rparr>)"
proof (cases "replay = []")
  case True
  then show ?thesis
    using assms by (auto simp: stream_inv_def open_output_def intro!: exI[of _ "[]"])
next
  case False
  then show ?thesis
    using assms by (auto simp: stream_inv_def open_output_def write_frame_ok intro!: exI[of _ "[replay]"])
qed

lemma stream_inv_event:
  assumes i: "stream_inv p rx replay evs o1" and o: "os_open o1" and lt: "os_rx o1 < length evs"
    and small: "small_event (evs ! os_rx o1)"
  shows "stream_inv p rx replay evs (output_event (evs ! os_rx o1) (o1\<lparr>os_rx := os_rx o1 + 1\<rparr>))"
proof -
  obtain ps where ps: "\<forall>q \<in> set ps. length q \<le> MAX_FRAME_SIZE" "sink_out (os_sink o1) = stream_bytes ps"
    "concat ps = replay @ outputs p (between rx (os_rx o1) evs)"
    using i by (auto simp: stream_inv_def)
  have base: "os_pane o1 = p" "rx \<le> os_rx o1" "sink_room (os_sink o1) = None"
    using i by (auto simp: stream_inv_def)
  have next_between: "between rx (Suc (os_rx o1)) evs = between rx (os_rx o1) evs @ [evs ! os_rx o1]"
    using base lt by (simp add: between_Suc)
  show ?thesis
  proof (cases "evs ! os_rx o1")
    case (PtyOutput q data)
    show ?thesis
    proof (cases "q \<noteq> p \<or> data = []")
      case True
      then show ?thesis
        using PtyOutput base lt ps o unfolding stream_inv_def
        by (auto simp: next_between intro!: exI[of _ ps])
    next
      case False
      then show ?thesis
        using PtyOutput base lt ps o small unfolding stream_inv_def
        by (auto simp: next_between write_frame_ok stream_bytes_def intro!: exI[of _ "ps @ [data]"])
    qed
  qed (use base lt ps o in \<open>auto simp: stream_inv_def next_between intro!: exI[of _ ps]\<close>)
qed

lemma channel_cases [consumes 2, case_names event lag wait]:
  assumes "channel_ok recv" "pos \<le> length evs"
  obtains "pos < length evs" "recv pos evs = (Event (evs ! pos), pos + 1)"
  | n where "pos + BROADCAST_CAPACITY < length evs" "0 < n" "pos + n \<le> length evs"
      "length evs \<le> pos + n + BROADCAST_CAPACITY"
      "recv pos evs = (Lagged n, pos + n)"
  | "pos = length evs" "recv pos evs = (Waiting, pos)"
proof -
  obtain r pos' where r: "recv pos evs = (r, pos')" by fastforce
  note law = assms(1)[unfolded channel_ok_def, rule_format, OF assms(2), unfolded r prod.case]
  show ?thesis using that law r by (cases r) simp_all
qed

lemma stream_inv_turn:
  assumes ch: "channel_ok recv" and i: "stream_inv p rx replay evs o1"
    and near: "length evs \<le> os_rx o1 + BROADCAST_CAPACITY" and small: "\<forall>e \<in> set (drop rx evs). small_event e"
  shows "stream_inv p rx replay evs (output_turn recv ArmRecv evs o1)"
proof (cases "os_open o1")
  case True
  have le: "os_rx o1 \<le> length evs" "rx \<le> os_rx o1" using i by (auto simp: stream_inv_def)
  from ch le(1) show ?thesis
  proof (cases rule: channel_cases)
    case event
    have "evs ! os_rx o1 = drop rx evs ! (os_rx o1 - rx)" using le by simp
    then have "evs ! os_rx o1 \<in> set (drop rx evs)"
      using le event(1) by (metis diff_less_mono length_drop nth_mem)
    then show ?thesis
      using stream_inv_event[OF i True event(1)] small event(2) True by (simp add: output_turn_def)
  qed (use i near True in \<open>auto simp: output_turn_def\<close>)
qed (use i in \<open>simp add: output_turn_def\<close>)

text \<open>
  The session and the stream together: a session step during which the pane keeps its byte log
  and a chunk fits into a frame, or a turn of the streaming loop that is not behind by more than
  the capacity.
\<close>

datatype stream_label = SessionStep session_label | StreamTurn

fun small_label :: "session_label \<Rightarrow> bool" where
  "small_label (LDrain q (Some data)) = (length data \<le> MAX_FRAME_SIZE)"
| "small_label _ = True"

inductive stream_step :: "channel \<Rightarrow> pane_id \<Rightarrow> session \<times> output_stream \<Rightarrow> stream_label \<Rightarrow>
    session \<times> output_stream \<Rightarrow> bool" for recv p where
  session_moves: "step_keeping p s l s' \<Longrightarrow> small_label l \<Longrightarrow>
     stream_step recv p (s, o1) (SessionStep l) (s', o1)"
| stream_turns: "length (events s) \<le> os_rx o1 + BROADCAST_CAPACITY \<Longrightarrow>
     stream_step recv p (s, o1) StreamTurn (s, output_turn recv ArmRecv (events s) o1)"

inductive_cases stream_stepE: "stream_step recv p so lab so'"


lemma small_quiet: "\<not> is_output e \<Longrightarrow> small_event e"
  by (cases e) simp_all

lemma ext_small: "ext E s s' \<Longrightarrow> \<exists>new. events s' = events s @ new \<and> (\<forall>e \<in> set new. small_event e)"
  unfolding ext_def using small_quiet by blast

lemma small_step:
  assumes "session_step s l s'" "small_label l"
  shows "\<exists>new. events s' = events s @ new \<and> (\<forall>e \<in> set new. small_event e)"
  using assms(1)
proof cases
  case (step_op op)
  then show ?thesis using ext_small[OF ext_exec_op] by blast
next
  case (step_world w')
  then show ?thesis by simp
next
  case (step_drain q c)
  have closing: "\<exists>new. events (snd (close_pane q t)) = events t @ new \<and> (\<forall>e \<in> set new. small_event e)" for t
    using ext_small[OF ext_close_pane[OF ext_refl order.refl]] by blast
  show ?thesis
  proof (cases c)
    case None
    then show ?thesis using step_drain closing[of s] by (simp add: drain_step_def)
  next
    case (Some bs)
    obtain r s1 where pr: "process_pane_bytes q bs s = (r, s1)" by fastforce
    have ev: "events s1 = events s \<or> events s1 = events s @ [PtyOutput q bs]"
      using pr by (auto simp: process_pane_bytes_def Let_def split: option.splits)
    have small: "small_event (PtyOutput q bs)" using assms(2) step_drain Some by simp
    obtain new where "events (snd (close_pane q s1)) = events s1 @ new" "\<forall>e \<in> set new. small_event e"
      using closing by blast
    then have "\<exists>new. events (snd (close_pane q s1)) = events s @ new \<and> (\<forall>e \<in> set new. small_event e)"
      using ev small by auto
    moreover have "\<exists>new. events s1 = events s @ new \<and> (\<forall>e \<in> set new. small_event e)"
      using ev small by auto
    ultimately show ?thesis
      using step_drain Some pr by (auto simp: drain_step_def split: sum.split bool.split)
  qed
qed

text \<open>What a run of both keeps.\<close>

definition both_inv :: "pane_id \<Rightarrow> nat \<Rightarrow> byte list \<Rightarrow> session \<times> output_stream \<Rightarrow> bool" where
  "both_inv p rx replay = (\<lambda>(s, o1). stream_inv p rx replay (events s) o1 \<and>
     rx \<le> length (events s) \<and> (\<forall>e \<in> set (drop rx (events s)). small_event e))"

lemma both_inv_step:
  assumes ch: "channel_ok recv" and st: "stream_step recv p so lab so'" and i: "both_inv p rx replay so"
  shows "both_inv p rx replay so'"
  using st
proof cases
  case (session_moves s l s' o1)
  have "session_step s l s'" using session_moves(4) by (simp add: step_keeping_def)
  then obtain new where "events s' = events s @ new" "\<forall>e \<in> set new. small_event e"
    using small_step session_moves(5) by blast
  then show ?thesis
    using i session_moves by (auto simp: both_inv_def stream_inv_extend)
next
  case (stream_turns s o1)
  then show ?thesis using i stream_inv_turn[OF ch] by (auto simp: both_inv_def)
qed

lemma both_run:
  "steps (stream_step recv p) so ls so' \<Longrightarrow> channel_ok recv \<Longrightarrow> both_inv p rx replay so \<Longrightarrow>
     both_inv p rx replay so' \<and> (\<exists>ls'. steps (step_keeping p) (fst so) ls' (fst so'))"
proof (induction rule: steps.induct)
  case (steps_refl so)
  then show ?case by (auto intro: steps.steps_refl)
next
  case (steps_step so lab so1 ls so2)
  have i: "both_inv p rx replay so1" using both_inv_step steps_step.hyps(1) steps_step.prems by blast
  obtain ls' where r: "both_inv p rx replay so2" "steps (step_keeping p) (fst so1) ls' (fst so2)"
    using steps_step.IH[OF steps_step.prems(1) i] by blast
  from steps_step.hyps(1) r(2) have "\<exists>ls''. steps (step_keeping p) (fst so) ls'' (fst so2)"
    by cases (auto intro: steps.steps_step)
  with r(1) show ?case by blast
qed

definition fresh_sink :: sink where
  "fresh_sink = \<lparr>sink_out = [], sink_room = None\<rparr>"

lemma both_open:
  assumes "length replay \<le> MAX_FRAME_SIZE"
  shows "both_inv p (length (events s)) replay (s, open_output p (length (events s)) replay fresh_sink)"
  using stream_inv_open[OF assms order.refl] by (simp add: both_inv_def fresh_sink_def)

lemma stream_exact:
  assumes i: "sinv {} D s" and l: "byte_logs s p = Some l" and ch: "channel_ok recv"
    and sub: "subscribe_with_snapshot p s = (rx, replay, hwm)" and fits: "length replay \<le> MAX_FRAME_SIZE"
    and run: "steps (stream_step recv p) (s, open_output p rx replay fresh_sink) ls (s', o1)"
  shows "both_inv p rx replay (s', o1)" (is ?inv)
    and "\<exists>l'. byte_logs s' p = Some l' \<and> (os_rx o1 = length (events s') \<longrightarrow>
           ring l' = suffix_of (ring_capacity l') (client_bytes o1))" (is ?ring)
proof -
  have rx: "rx = length (events s)" using sub l by (simp add: subscribe_with_snapshot_def Let_def split: prod.splits)
  obtain ls' where r: ?inv "steps (step_keeping p) s ls' s'"
    using both_run[OF run ch both_open[OF fits, of p s, folded rx]] by auto
  then show ?inv by simp
  from r(1) have "client_bytes o1 = replay @ outputs p (between rx (os_rx o1) (events s'))"
    by (auto simp: both_inv_def intro: stream_inv_bytes)
  moreover obtain l' where "byte_logs s' p = Some l'"
    "ring l' = suffix_of (ring_capacity l') (replay @ outputs p (drop rx (events s')))"
    using replay_history[OF i l r(2) sub] by blast
  ultimately show ?ring by simp
qed

text \<open>
  A client that subscribes to a pane gets exactly its bytes. Whatever the session does while
  the pane keeps its log, and however those steps interleave with the turns of a streaming loop
  that does not fall behind the channel, the payloads the client has read are the replay followed
  by the output of the pane up to the position of the receiver, nothing twice and nothing left
  out; when the receiver has seen every event, the ring of the pane is the end of what the client
  has; and the stream is open unless the closing of the pane was announced.
\<close>

theorem output_stream_exact:
  assumes "sinv {} D s" and "byte_logs s p = Some l" and "channel_ok recv"
    and "subscribe_with_snapshot p s = (rx, replay, hwm)" and "length replay \<le> MAX_FRAME_SIZE"
    and "steps (stream_step recv p) (s, open_output p rx replay fresh_sink) ls (s', o1)"
  shows "client_bytes o1 = replay @ outputs p (between rx (os_rx o1) (events s')) \<and>
    (\<exists>l'. byte_logs s' p = Some l' \<and> (os_rx o1 = length (events s') \<longrightarrow>
           ring l' = suffix_of (ring_capacity l') (client_bytes o1))) \<and>
    (os_open o1 \<or> PaneClosed p \<in> set (drop rx (events s')))"
  using stream_exact[OF assms] stream_inv_bytes[of p rx replay "events s'" o1]
    set_between[of rx "os_rx o1" "events s'"]
  by (auto simp: both_inv_def stream_inv_def)

definition demo_channel :: channel where
  "demo_channel pos evs =
     (if pos + BROADCAST_CAPACITY < length evs
      then (Lagged (length evs - BROADCAST_CAPACITY - pos), length evs - BROADCAST_CAPACITY)
      else if pos < length evs then (Event (evs ! pos), pos + 1)
      else (Waiting, pos))"

lemma demo_channel_ok: "channel_ok demo_channel"
  by (auto simp: channel_ok_def demo_channel_def)

lemma demo_events: "length (events demo_session) = 3"
  by (simp add: demo_session_def)

definition demo_drained :: session where
  "demo_drained = drain_step 102 (Some [7, 8]) demo_session"

lemma demo_drained_events: "events demo_drained = events demo_session @ [PtyOutput 102 [7, 8]]"
  by (simp add: demo_drained_def drain_step_def process_pane_bytes_def demo_session_eval)

definition demo_stream :: output_stream where
  "demo_stream = open_output 102 (length (events demo_session)) [] fresh_sink"

lemma demo_stream_run: "steps (stream_step demo_channel 102) (demo_session, demo_stream)
    [SessionStep (LDrain 102 (Some [7, 8])), StreamTurn]
    (demo_drained, output_turn demo_channel ArmRecv (events demo_drained) demo_stream)"
proof -
  have "step_keeping 102 demo_session (LDrain 102 (Some [7, 8])) demo_drained"
    using demo_drain by (simp add: steps_Cons_iff demo_drained_def)
  then have "stream_step demo_channel 102 (demo_session, demo_stream)
      (SessionStep (LDrain 102 (Some [7, 8]))) (demo_drained, demo_stream)"
    by (rule session_moves) (simp add: MAX_FRAME_SIZE_def)
  moreover have "stream_step demo_channel 102 (demo_drained, demo_stream) StreamTurn
      (demo_drained, output_turn demo_channel ArmRecv (events demo_drained) demo_stream)"
    by (rule stream_turns) (simp add: demo_stream_def open_output_def demo_drained_events BROADCAST_CAPACITY_def)
  ultimately show ?thesis by (blast intro: steps.intros)
qed

theorem output_stream_exact_witness:
  "client_bytes (output_turn demo_channel ArmRecv (events demo_drained) demo_stream) = [7, 8]"
proof -
  have log: "byte_logs demo_session 102 = Some (byte_log_new None 1048576 10485760)"
    by (simp add: demo_session_eval)
  have pos: "os_rx (output_turn demo_channel ArmRecv (events demo_drained) demo_stream) = 4"
    by (simp add: demo_stream_def open_output_def output_turn_def demo_channel_def demo_drained_events
        demo_events BROADCAST_CAPACITY_def nth_append write_frame_ok fresh_sink_def MAX_FRAME_SIZE_def)
  have part: "between (length (events demo_session)) 4 (events demo_drained) = [PtyOutput 102 [7, 8]]"
    by (simp add: between_def demo_drained_events demo_events)
  note out = output_stream_exact[OF demo_inv log demo_channel_ok demo_subscribe _
      demo_stream_run[unfolded demo_stream_def], folded demo_stream_def, THEN conjunct1, unfolded pos part]
  show ?thesis by (rule trans[OF out]) simp_all
qed

text \<open>
  The loop catches up: with no more events, as many turns as the receiver has events in front of
  it bring it to the end, or to the closing of the pane.
\<close>

lemma turns_catch_up:
  assumes ch: "channel_ok recv" and small: "\<forall>e \<in> set (drop rx evs). small_event e"
  shows "stream_inv p rx replay evs o1 \<Longrightarrow> length evs \<le> os_rx o1 + BROADCAST_CAPACITY \<Longrightarrow>
    n = length evs - os_rx o1 \<Longrightarrow>
    (let o2 = (output_turn recv ArmRecv evs ^^ n) o1
     in stream_inv p rx replay evs o2 \<and> (os_open o2 \<longrightarrow> os_rx o2 = length evs))"
proof (induction n arbitrary: o1)
  case 0
  then show ?case by (auto simp: stream_inv_def)
next
  case (Suc n)
  let ?o = "output_turn recv ArmRecv evs o1"
  have le: "os_rx o1 \<le> length evs" using Suc.prems(1) by (simp add: stream_inv_def)
  have i: "stream_inv p rx replay evs ?o"
    by (rule stream_inv_turn[OF ch Suc.prems(1,2) small])
  have shut: "\<not> os_open o2 \<Longrightarrow> (output_turn recv ArmRecv evs ^^ m) o2 = o2" for o2 m
    by (induction m) (simp_all add: output_turn_def)
  show ?case
  proof (cases "os_open o1")
    case False
    then show ?thesis using Suc.prems(1) shut[OF False, of "Suc n"] by (simp add: Let_def del: funpow.simps)
  next
    case True
    from ch le have "os_rx ?o = os_rx o1 + 1"
    proof (cases rule: channel_cases)
      case event
      have "os_rx (output_event e (o1\<lparr>os_rx := k\<rparr>)) = k" for e k
        by (cases e) (auto split: prod.split sum.split)
      then show ?thesis using event True by (simp add: output_turn_def)
    qed (use Suc.prems in auto)
    then have "length evs \<le> os_rx ?o + BROADCAST_CAPACITY" "n = length evs - os_rx ?o"
      using Suc.prems(2,3) by simp_all
    from Suc.IH[OF i this] show ?thesis by (simp add: funpow_Suc_right del: funpow.simps)
  qed
qed


lemma demo_session_move: "steps (stream_step demo_channel 102) (demo_session, demo_stream)
    [SessionStep (LDrain 102 (Some [7, 8]))] (demo_drained, demo_stream)"
  using demo_stream_run by (auto simp: steps_Cons_iff elim!: stream_stepE intro: session_moves)


subsection \<open>A stream that fell behind\<close>

fun concerns :: "pane_id \<Rightarrow> session_event \<Rightarrow> bool" where
  "concerns p (PtyOutput q data) = (p = q)"
| "concerns p (PaneClosed q) = (p = q)"
| "concerns p _ = False"

lemma output_event_other [simp]:
  "\<not> concerns (os_pane o1) e \<Longrightarrow> output_event e o1 = o1"
  by (cases e) auto

text \<open>Without an event of the pane nothing is sent and the stream does not end.\<close>

lemma idle_turns:
  assumes ch: "channel_ok recv" and idle: "\<forall>e \<in> set (drop pos evs). \<not> concerns p e"
  shows "os_pane o1 = p \<Longrightarrow> pos \<le> os_rx o1 \<Longrightarrow> os_rx o1 \<le> length evs \<Longrightarrow>
    (let o2 = (output_turn recv ArmRecv evs ^^ n) o1
     in os_open o2 = os_open o1 \<and> os_sink o2 = os_sink o1 \<and> os_pane o2 = p \<and>
        os_rx o1 \<le> os_rx o2 \<and> os_rx o2 \<le> length evs)"
proof (induction n)
  case (Suc n)
  define o2 where "o2 = (output_turn recv ArmRecv evs ^^ n) o1"
  have o2: "os_open o2 = os_open o1" "os_sink o2 = os_sink o1" "os_pane o2 = p"
    "os_rx o1 \<le> os_rx o2" "os_rx o2 \<le> length evs"
    using Suc unfolding o2_def by (simp_all add: Let_def)
  from ch o2(5) have "os_open (output_turn recv ArmRecv evs o2) = os_open o1 \<and>
      os_sink (output_turn recv ArmRecv evs o2) = os_sink o1 \<and>
      os_pane (output_turn recv ArmRecv evs o2) = p \<and>
      os_rx o1 \<le> os_rx (output_turn recv ArmRecv evs o2) \<and>
      os_rx (output_turn recv ArmRecv evs o2) \<le> length evs"
  proof (cases rule: channel_cases)
    case event
    have "evs ! os_rx o2 = drop pos evs ! (os_rx o2 - pos)" using o2(4,5) Suc.prems by simp
    then have "evs ! os_rx o2 \<in> set (drop pos evs)"
      using event(1) o2(4) Suc.prems(2) by (metis (no_types) diff_less_mono le_trans length_drop nth_mem)
    then show ?thesis using event o2 idle by (auto simp: output_turn_def)
  qed (use o2 in \<open>auto simp: output_turn_def\<close>)
  then show ?case by (simp add: o2_def[symmetric] Let_def)
qed (simp add: Let_def)

text \<open>
  A lagging stream loses bytes, and may lose its own end. When the channel tells the loop
  that it is behind, nothing is written for the skipped events, not even a mark; and if the
  announcement that the pane was closed is among them, no later turn ends the stream: whatever
  else the session sends, the connection stays open and silent until the client leaves.
\<close>

theorem lagged_stream_never_ends:
  assumes "channel_ok recv" and "os_open o1" and "os_pane o1 = p" and "os_rx o1 \<le> length evs"
    and "recv (os_rx o1) evs = (Lagged n, pos)"
    and "\<forall>e \<in> set (drop pos evs @ new). \<not> concerns p e"
  shows "output_turn recv ArmRecv evs o1 = o1\<lparr>os_rx := pos\<rparr> \<and>
    os_open ((output_turn recv ArmRecv (evs @ new) ^^ k) (o1\<lparr>os_rx := pos\<rparr>)) \<and>
    os_sink ((output_turn recv ArmRecv (evs @ new) ^^ k) (o1\<lparr>os_rx := pos\<rparr>)) = os_sink o1"
proof -
  have pos: "pos \<le> length evs"
    using assms(1,4)
  proof (cases rule: channel_cases)
    case (lag m)
    then show ?thesis using assms(5) by simp
  qed (use assms(5) in simp_all)
  then have "\<forall>e \<in> set (drop pos (evs @ new)). \<not> concerns p e" using assms(6) by simp
  from idle_turns[OF assms(1) this, of "o1\<lparr>os_rx := pos\<rparr>" k] assms(2,3,5) pos
  show ?thesis by (simp add: output_turn_def Let_def)
qed

definition busy_events :: "session_event list" where
  "busy_events = [PtyOutput 102 [7], PaneClosed 102] @ replicate 1024 (ActiveWorkspaceChanged 0)"

theorem lagged_stream_never_ends_witness:
  "os_open ((output_turn demo_channel ArmRecv (busy_events @ [TabClosed 0 103]) ^^ 9)
     (\<lparr>os_pane = 102, os_rx = 0, os_sink = fresh_sink, os_open = True\<rparr>\<lparr>os_rx := 2\<rparr>))"
proof -
  let ?o = "\<lparr>os_pane = 102, os_rx = 0, os_sink = fresh_sink, os_open = True\<rparr>"
  have "demo_channel (os_rx ?o) busy_events = (Lagged 2, 2)"
    by (simp add: demo_channel_def busy_events_def BROADCAST_CAPACITY_def)
  moreover have "\<forall>e \<in> set (drop 2 busy_events @ [TabClosed 0 103]). \<not> concerns 102 e"
    by (simp add: busy_events_def)
  ultimately show ?thesis
    using lagged_stream_never_ends[OF demo_channel_ok, of ?o 102 busy_events 2 2 "[TabClosed 0 103]" 9]
    by (simp del: funpow.simps)
qed

subsection \<open>The layout stream\<close>

lemma map_filter_take_Suc:
  "n < length xs \<Longrightarrow> List.map_filter f (take (Suc n) xs) =
     List.map_filter f (take n xs) @ (case f (xs ! n) of None \<Rightarrow> [] | Some y \<Rightarrow> [y])"
  by (simp add: take_Suc_conv_app_nth List.map_filter_def split: option.split)

lemma layout_turns:
  assumes ch: "channel_ok recv" and rx: "rx \<le> length evs" "length evs \<le> rx + BROADCAST_CAPACITY"
  shows "n \<le> length evs - rx \<Longrightarrow>
    (layout_turn L recv ArmRecv evs ^^ n) (open_layout rx None) =
      \<lparr>ls_rx = rx + n, ls_sent = List.map_filter (layout_notification L) (take n (drop rx evs)),
       ls_room = None, ls_open = True\<rparr>"
proof (induction n)
  case 0
  then show ?case by (simp add: open_layout_def List.map_filter_def)
next
  case (Suc n)
  let ?o = "\<lparr>ls_rx = rx + n, ls_sent = List.map_filter (layout_notification L) (take n (drop rx evs)),
       ls_room = None, ls_open = True\<rparr>"
  have le: "rx + n \<le> length evs" "rx + n < length evs" using Suc.prems rx by simp_all
  from ch le(1) have "layout_turn L recv ArmRecv evs ?o =
      \<lparr>ls_rx = rx + Suc n, ls_sent = List.map_filter (layout_notification L) (take (Suc n) (drop rx evs)),
       ls_room = None, ls_open = True\<rparr>"
  proof (cases rule: channel_cases)
    case event
    then show ?thesis
      using Suc.prems by (auto simp: layout_turn_def send_line_def map_filter_take_Suc split: option.split)
  qed (use le rx in auto)
  then show ?case using Suc by simp
qed

text \<open>
  The layout stream tells everything it can: a client that takes every line and is not
  behind the channel has, after as many turns as there were events since it subscribed, exactly
  the notifications of those events, each once and in the order of the events.
\<close>

theorem layout_stream_complete:
  assumes "channel_ok recv" and "rx \<le> length evs" and "length evs \<le> rx + BROADCAST_CAPACITY"
  shows "(layout_turn L recv ArmRecv evs ^^ (length evs - rx)) (open_layout rx None) =
    \<lparr>ls_rx = length evs, ls_sent = List.map_filter (layout_notification L) (drop rx evs),
     ls_room = None, ls_open = True\<rparr>"
  using layout_turns[OF assms order.refl] assms(2) by simp

theorem layout_stream_complete_witness:
  "ls_sent ((layout_turn unary_libs demo_channel ArmRecv (events demo_session) ^^ (3 - 1)) (open_layout 1 None)) =
     [notification ''tab_created'' [(''workspace_idx'', jnat 0), (''tab_id'', juuid unary_libs 103),
        (''pane_id'', juuid unary_libs 102)]]"
  using layout_stream_complete[OF demo_channel_ok, of 1 "events demo_session" unary_libs]
  by (simp add: demo_events BROADCAST_CAPACITY_def)
     (simp add: demo_session_def List.map_filter_def)

end
