(* ===== verification/Wire.thy ===== *)
theory Wire
  imports Server "HOL-Library.List_Lexorder" "HOL-Library.Char_ord" "HOL-Library.Countable"
begin

section \<open>JSON on the wire\<close>

text \<open>
  A request and a response as the lines that cross the socket. \<open>serde_json\<close> keeps an object as
  a map ordered by key, so a value that was printed is read back with its entries sorted; a
  double may be read back off by the last bit, which the narrower \<open>f32\<close> does not see. The
  predicate \<open>wire_ok\<close> states this, and that UUIDs and base64 are read back as they were printed.
\<close>

subsection \<open>Messages as JSON\<close>

definition request_json :: "string \<Rightarrow> json \<Rightarrow> json" where
  "request_json method params =
     JObj [(''jsonrpc'', JStr ''2.0''), (''method'', JStr method), (''params'', params),
           (''id'', jnat 1)]"

definition int_json :: "int \<Rightarrow> json" where
  "int_json i = JNum (if i < 0 then NegInt i else PosInt (nat i))"

text \<open>The derived \<open>Serialize\<close>; \<open>render\<close> is the text of a message. Absent fields are skipped.\<close>

definition error_json :: "(msg \<Rightarrow> string) \<Rightarrow> rpc_error \<Rightarrow> json" where
  "error_json render e =
     JObj ([(''code'', int_json (re_code e)), (''message'', JStr (render (re_message e)))] @
           (case re_data e of None \<Rightarrow> [] | Some j \<Rightarrow> [(''data'', j)]))"

definition response_json :: "(msg \<Rightarrow> string) \<Rightarrow> response \<Rightarrow> json" where
  "response_json render r =
     JObj ([(''jsonrpc'', JStr (rp_jsonrpc r))] @
           (case rp_result r of None \<Rightarrow> [] | Some j \<Rightarrow> [(''result'', j)]) @
           (case rp_error r of None \<Rightarrow> [] | Some e \<Rightarrow> [(''error'', error_json render e)]) @
           [(''id'', case rp_id r of None \<Rightarrow> JNull | Some j \<Rightarrow> j)])"

definition line_of :: "libs \<Rightarrow> json \<Rightarrow> string" where
  "line_of L j = print_value L j @ [CHR 0x0A]"

subsection \<open>Reading back what was printed\<close>

fun norm :: "(rat \<Rightarrow> rat) \<Rightarrow> json \<Rightarrow> json" where
  "norm rd (JNum (Float x)) = JNum (Float (rd x))"
| "norm rd (JArr js) = JArr (map (norm rd) js)"
| "norm rd (JObj kvs) = JObj (sort_key fst (map (\<lambda>(k, v). (k, norm rd v)) kvs))"
| "norm rd j = j"

definition f32_value :: "rat \<Rightarrow> bool" where
  "f32_value x \<longleftrightarrow> f32_of_f64 x = Finite x"

text \<open>The values \<open>serde_json\<close> can hold.\<close>

fun json_ok :: "json \<Rightarrow> bool" where
  "json_ok (JNum (PosInt n)) \<longleftrightarrow> n < 2 ^ 64"
| "json_ok (JNum (NegInt i)) \<longleftrightarrow> - (2 ^ 63) \<le> i \<and> i < 0"
| "json_ok (JNum (Float x)) \<longleftrightarrow> f32_value x \<or> f64_of_rat x = x"
| "json_ok (JArr js) \<longleftrightarrow> (\<forall>j \<in> set js. json_ok j)"
| "json_ok (JObj kvs) \<longleftrightarrow> distinct (map fst kvs) \<and> (\<forall>kv \<in> set kvs. json_ok (snd kv))"
| "json_ok _ \<longleftrightarrow> True"

definition wire_ok :: "libs \<Rightarrow> (rat \<Rightarrow> rat) \<Rightarrow> bool" where
  "wire_ok L rd \<longleftrightarrow>
     (\<forall>j. json_ok j \<longrightarrow> rust_trim (line_of L j) \<noteq> [] \<and>
        parse_value L (rust_trim (line_of L j)) = Some (norm rd j)) \<and>
     (\<forall>m p. json_ok p \<longrightarrow>
        parse_request L (rust_trim (line_of L (request_json m p))) =
          Inr \<lparr>rq_jsonrpc = ''2.0'', rq_method = m, rq_params = norm rd p, rq_id = Some (jnat 1)\<rparr>) \<and>
     (\<forall>x. f32_value x \<longrightarrow> f32_of_f64 (rd x) = Finite x) \<and>
     (\<forall>u. uuid_parse L (uuid_str L u) = Some u) \<and>
     (\<forall>bs. b64_decode L (b64_encode L bs) = Some bs)"

lemma wire_simps:
  assumes "wire_ok L rd"
  shows "json_ok j \<Longrightarrow> parse_value L (rust_trim (line_of L j)) = Some (norm rd j)"
    "json_ok p \<Longrightarrow> rust_trim (line_of L (request_json m p)) \<noteq> []"
    "json_ok p \<Longrightarrow> parse_request L (rust_trim (line_of L (request_json m p))) =
       Inr \<lparr>rq_jsonrpc = ''2.0'', rq_method = m, rq_params = norm rd p, rq_id = Some (jnat 1)\<rparr>"
    "f32_value x \<Longrightarrow> f32_of_f64 (rd x) = Finite x"
    "uuid_parse L (uuid_str L u) = Some u" "b64_decode L (b64_encode L bs) = Some bs"
    "json_ok j \<Longrightarrow> rust_trim (line_of L j) \<noteq> []"
  using assms by (simp_all add: wire_ok_def request_json_def jnat_def)

text \<open>Sorting does not change what is found under a key, since the sort is stable.\<close>

lemma map_of_filter_key: "map_of [kv \<leftarrow> kvs. fst kv = k] k = map_of kvs k"
  by (induction kvs) auto

lemma map_of_sort_key: "map_of (sort_key fst kvs) k = map_of kvs k"
proof -
  have "[kv \<leftarrow> sort_key fst kvs. fst kv = k] = [kv \<leftarrow> kvs. fst kv = k]"
    by (rule sort_key_stable)
  then show ?thesis by (metis map_of_filter_key)
qed

lemma json_get_norm [simp]: "json_get (norm rd j) k = map_option (norm rd) (json_get j k)"
proof (cases j)
  case (JObj kvs)
  have "map_of (map (\<lambda>(k, v). (k, norm rd v)) kvs) k = map_option (norm rd) (map_of kvs k)"
    by (induction kvs) auto
  then show ?thesis using JObj by (simp add: map_of_sort_key)
next
  case (JNum x) then show ?thesis by (cases x) auto
qed auto

lemma as_norm [simp]:
  "as_str (norm rd j) = as_str j" "as_u64 (norm rd j) = as_u64 j" "as_bool (norm rd j) = as_bool j"
  "as_array (norm rd j) = map_option (map (norm rd)) (as_array j)"
  by (cases "(rd, j)" rule: norm.cases; simp)+

lemma param_norm [simp]:
  "param as_str (norm rd j) k = param as_str j k" "param as_u64 (norm rd j) k = param as_u64 j k"
  "param as_bool (norm rd j) k = param as_bool j k"
  "param as_array (norm rd j) k = map_option (map (norm rd)) (param as_array j k)"
  by (cases "json_get j k"; simp add: param_def)+

lemma norm_simps [simp]:
  "norm rd (jnat n) = jnat n" "norm rd (juuid L u) = juuid L u"
  "norm rd (jopt f x) = jopt (\<lambda>v. norm rd (f v)) x"
  by (simp add: jnat_def, simp add: juuid_def, cases x, simp_all)

lemma norm_opt_str: "norm rd (jopt JStr x) = jopt JStr x"
  by (cases x) simp_all

lemma json_ok_simps [simp]:
  "json_ok (jnat n) \<longleftrightarrow> n < 2 ^ 64" "json_ok (juuid L u)"
  "json_ok (jopt f x) \<longleftrightarrow> (\<forall>v. x = Some v \<longrightarrow> json_ok (f v))"
  by (simp add: jnat_def, simp add: juuid_def, cases x, simp_all)

lemma as_simps [simp]:
  "as_u64 (jnat n) = Some n" "as_str (juuid L u) = Some (uuid_str L u)" "as_str (jopt JStr x) = x"
  by (simp add: jnat_def, simp add: juuid_def, cases x, simp_all)

subsection \<open>A library that keeps the contract\<close>

text \<open>JSON values can be numbered, so there is a printer: unary numerals.\<close>

instance number :: countable
  by countable_datatype

instance json :: countable
  by countable_datatype

lemma trim_plain: "(\<forall>c \<in> set s. \<not> is_whitespace c) \<Longrightarrow> rust_trim (s @ [CHR 0x0A]) = s"
proof -
  assume a: "\<forall>c \<in> set s. \<not> is_whitespace c"
  have d: "dropWhile is_whitespace t = t" if "\<forall>c \<in> set t. \<not> is_whitespace c" for t
    using that by (cases t) auto
  show ?thesis
  proof (cases s)
    case Nil then show ?thesis by (simp add: rust_trim_def is_whitespace_def)
  next
    case (Cons c cs)
    then have "dropWhile is_whitespace (s @ [CHR 0x0A]) = s @ [CHR 0x0A]" using a by simp
    then show ?thesis using d[of "rev s"] a by (simp add: rust_trim_def is_whitespace_def)
  qed
qed

definition numeral_json :: "nat \<Rightarrow> json" where
  "numeral_json n = norm id (from_nat n)"

definition unary_wire :: libs where
  "unary_wire =
     \<lparr>parse_request = (\<lambda>s. let j = numeral_json (length s - 1) in
        Inr \<lparr>rq_jsonrpc = ''2.0'', rq_method = the (param as_str j ''method''),
             rq_params = the (json_get j ''params''), rq_id = json_get j ''id''\<rparr>),
      parse_value = (\<lambda>s. Some (numeral_json (length s - 1))),
      print_value = (\<lambda>j. replicate (Suc (to_nat j)) CHR ''x''),
      uuid_parse = (\<lambda>s. Some (length s)), uuid_str = (\<lambda>u. replicate u CHR ''x''),
      b64_decode = (\<lambda>s. Some (map (\<lambda>c. of_nat (of_char c)) s)),
      b64_encode = map (\<lambda>b. char_of (unat b)),
      is_dir = (\<lambda>_. True), host_name = [], qr_png = (\<lambda>_. Inr [])\<rparr>"

lemma unary_line: "rust_trim (line_of unary_wire j) = replicate (Suc (to_nat j)) CHR ''x''"
  unfolding line_of_def unary_wire_def libs.simps
  by (rule trim_plain) (simp add: is_whitespace_def)

theorem wire_ok_unary: "wire_ok unary_wire id"
proof -
  have v: "parse_value unary_wire (rust_trim (line_of unary_wire j)) = Some (norm id j)" for j
    unfolding unary_line by (simp add: unary_wire_def numeral_json_def)
  have r: "parse_request unary_wire (rust_trim (line_of unary_wire (request_json m p))) =
      Inr \<lparr>rq_jsonrpc = ''2.0'', rq_method = m, rq_params = norm id p, rq_id = Some (jnat 1)\<rparr>" for m p
    unfolding unary_line
    by (simp add: unary_wire_def numeral_json_def Let_def request_json_def param_def del: norm.simps)
  have b: "b64_decode unary_wire (b64_encode unary_wire bs) = Some bs" for bs
  proof -
    have "unat b mod 256 = unat b" for b :: byte
      using unsigned_less[of b, where ?'a = nat] by simp
    then show ?thesis by (simp add: unary_wire_def comp_def)
  qed
  have u: "uuid_parse unary_wire (uuid_str unary_wire u) = Some u" for u
    by (simp add: unary_wire_def)
  have ne: "rust_trim (line_of unary_wire j) \<noteq> []" for j by (simp add: unary_line)
  show ?thesis
    unfolding wire_ok_def by (intro conjI allI impI) (simp_all add: v r b u ne f32_value_def)
qed

end
