(* ===== verification/Client.thy ===== *)
theory Client
  imports Wire
begin

section \<open>The window's client of the daemon\<close>

text \<open>
  \<open>crates/forgetty-gtk/src/daemon_client.rs\<close>. Every call opens a connection, writes one line and
  reads one line: the other end is a \<open>peer\<close>, which takes a line and gives a line, or fails
  (nobody listens, no answer within the time limit), and has a state of its own. An empty line
  is the end of the file. The texts of the errors are shortened.
\<close>

type_synonym 'd peer = "string \<Rightarrow> 'd \<Rightarrow> (msg + string) \<times> 'd"
type_synonym ('a, 'd) call = "'d \<Rightarrow> (msg + 'a) \<times> 'd"

subsection \<open>What the client keeps of an answer\<close>

datatype pane_tree_node =
  NodeLeaf pane_id
| NodeSplit string f32 pane_tree_node pane_tree_node

record tab_info =
  ti_tab_id :: uuid
  ti_title :: string
  ti_pane_tree :: pane_tree_node
  ti_active_pane_id :: "uuid option"

record workspace_info =
  wi_id :: uuid
  wi_name :: string
  wi_active_tab :: nat
  wi_tabs :: "tab_info list"
  wi_color :: "string option"

record layout_info =
  li_active_workspace :: nat
  li_workspaces :: "workspace_info list"

record listed_pane =
  lp_pane_id :: pane_id
  lp_rows :: u16
  lp_cols :: u16
  lp_cwd :: string
  lp_title :: string

record device_info =
  di_device_id :: string
  di_name :: string
  di_paired_at :: string
  di_last_seen :: "string option"

record pairing_info =
  pn_node_id :: string
  pn_machine :: string
  pn_qr_png_base64 :: string

subsection \<open>One request, one response\<close>

fun sum_bind :: "'e + 'a \<Rightarrow> ('a \<Rightarrow> 'e + 'b) \<Rightarrow> 'e + 'b" where
  "sum_bind (Inl e) f = Inl e"
| "sum_bind (Inr x) f = f x"

fun sum_map :: "('b \<Rightarrow> 'e + 'a) \<Rightarrow> 'b list \<Rightarrow> 'e + 'a list" where
  "sum_map f [] = Inr []"
| "sum_map f (x # xs) = sum_bind (f x) (\<lambda>y. sum_bind (sum_map f xs) (\<lambda>ys. Inr (y # ys)))"

definition dc_rpc :: "libs \<Rightarrow> 'd peer \<Rightarrow> string \<Rightarrow> json \<Rightarrow> (json, 'd) call" where
  "dc_rpc L P method params d =
     (case P (line_of L (request_json method params)) d of
        (Inl e, d1) \<Rightarrow> (Inl e, d1)
      | (Inr response_line, d1) \<Rightarrow>
          (case parse_value L (rust_trim response_line) of
             None \<Rightarrow> (Inl (Msg ''parse response: {e}'' []), d1)
           | Some response \<Rightarrow>
               (case json_get response ''error'' of
                  Some err \<Rightarrow> (Inl (Msg ''RPC error: {err}'' [AStr (print_value L err)]), d1)
                | None \<Rightarrow> (Inr (case json_get response ''result'' of Some r \<Rightarrow> r | None \<Rightarrow> JNull), d1))))"

text \<open>The answer is read by a function of the result, or not at all.\<close>

definition call_with :: "libs \<Rightarrow> 'd peer \<Rightarrow> string \<Rightarrow> json \<Rightarrow> (json \<Rightarrow> msg + 'a) \<Rightarrow> ('a, 'd) call" where
  "call_with L P method params read d =
     (case dc_rpc L P method params d of (r, d1) \<Rightarrow> (sum_bind r read, d1))"

definition ignore :: "json \<Rightarrow> msg + unit" where
  "ignore j = Inr ()"

text \<open>\<open>get(k).and_then(as_str).ok_or_else(..)\<close>, then \<open>Uuid::parse_str\<close>.\<close>

definition uuid_at :: "libs \<Rightarrow> string \<Rightarrow> json \<Rightarrow> string \<Rightarrow> msg + uuid" where
  "uuid_at L fn j k =
     (case param as_str j k of
        None \<Rightarrow> Inl (Msg (fn @ '': missing '' @ k) [])
      | Some s \<Rightarrow> (case uuid_parse L s of
                     None \<Rightarrow> Inl (Msg (fn @ '': invalid '' @ k @ '' UUID: {e}'') [AStr s])
                   | Some u \<Rightarrow> Inr u))"

definition array_at :: "string \<Rightarrow> json \<Rightarrow> string \<Rightarrow> msg + json list" where
  "array_at fn j k =
     (case param as_array j k of None \<Rightarrow> Inl (Msg (fn @ '': missing '' @ k) []) | Some js \<Rightarrow> Inr js)"

definition nat_at :: "string \<Rightarrow> json \<Rightarrow> string \<Rightarrow> msg + nat" where
  "nat_at fn j k =
     (case param as_u64 j k of None \<Rightarrow> Inl (Msg (fn @ '': missing '' @ k) []) | Some n \<Rightarrow> Inr n)"

definition str_or_empty :: "json \<Rightarrow> string \<Rightarrow> string" where
  "str_or_empty j k = (case param as_str j k of Some s \<Rightarrow> s | None \<Rightarrow> [])"

definition nat_or :: "nat \<Rightarrow> json \<Rightarrow> string \<Rightarrow> nat" where
  "nat_or d j k = (case param as_u64 j k of Some n \<Rightarrow> n | None \<Rightarrow> d)"

subsection \<open>Tabs and panes\<close>

definition read_listed_pane :: "libs \<Rightarrow> json \<Rightarrow> msg + listed_pane" where
  "read_listed_pane L tab =
     sum_bind (uuid_at L ''list_tabs'' tab ''pane_id'') (\<lambda>p. Inr
       \<lparr>lp_pane_id = p, lp_rows = of_nat (nat_or 24 tab ''rows''), lp_cols = of_nat (nat_or 80 tab ''cols''),
        lp_cwd = str_or_empty tab ''cwd'', lp_title = str_or_empty tab ''title''\<rparr>)"

definition dc_list_tabs :: "libs \<Rightarrow> 'd peer \<Rightarrow> (listed_pane list, 'd) call" where
  "dc_list_tabs L P = call_with L P ''list_tabs'' (JObj [])
     (\<lambda>r. sum_bind (array_at ''list_tabs'' r ''tabs'') (sum_map (read_listed_pane L)))"

definition read_pane_and_tab :: "libs \<Rightarrow> string \<Rightarrow> json \<Rightarrow> msg + pane_id \<times> uuid" where
  "read_pane_and_tab L fn r =
     sum_bind (uuid_at L fn r ''pane_id'') (\<lambda>p. sum_bind (uuid_at L fn r ''tab_id'') (\<lambda>t. Inr (p, t)))"

definition opt_entry :: "string \<Rightarrow> ('a \<Rightarrow> json) \<Rightarrow> 'a option \<Rightarrow> (string \<times> json) list" where
  "opt_entry k f x = (case x of None \<Rightarrow> [] | Some v \<Rightarrow> [(k, f v)])"

definition dc_new_tab_with_cwd :: "libs \<Rightarrow> 'd peer \<Rightarrow> nat \<Rightarrow> path option \<Rightarrow> (pane_id \<times> uuid, 'd) call" where
  "dc_new_tab_with_cwd L P i cwd = call_with L P ''new_tab''
     (JObj ([(''workspace_idx'', jnat i)] @ opt_entry ''cwd'' JStr cwd))
     (read_pane_and_tab L ''new_tab'')"

definition dc_new_tab :: "libs \<Rightarrow> 'd peer \<Rightarrow> nat \<Rightarrow> (pane_id \<times> uuid, 'd) call" where
  "dc_new_tab L P i = dc_new_tab_with_cwd L P i None"

definition dc_new_tab_with_profile ::
  "libs \<Rightarrow> 'd peer \<Rightarrow> nat \<Rightarrow> string list option \<Rightarrow> path option \<Rightarrow> (pane_id \<times> uuid, 'd) call" where
  "dc_new_tab_with_profile L P i command cwd = call_with L P ''new_tab''
     (JObj ([(''workspace_idx'', jnat i)] @ opt_entry ''command'' (\<lambda>c. JArr (map JStr c)) command @
            opt_entry ''cwd'' JStr cwd))
     (read_pane_and_tab L ''new_tab_with_profile'')"

definition dc_close_tab :: "libs \<Rightarrow> 'd peer \<Rightarrow> uuid \<Rightarrow> (unit, 'd) call" where
  "dc_close_tab L P t = call_with L P ''close_tab'' (JObj [(''tab_id'', juuid L t)]) ignore"

definition dc_close_tab_by_pane_id :: "libs \<Rightarrow> 'd peer \<Rightarrow> pane_id \<Rightarrow> (unit, 'd) call" where
  "dc_close_tab_by_pane_id L P p = call_with L P ''close_tab'' (JObj [(''pane_id'', juuid L p)]) ignore"

definition dc_split_pane :: "libs \<Rightarrow> 'd peer \<Rightarrow> pane_id \<Rightarrow> string \<Rightarrow> (pane_id, 'd) call" where
  "dc_split_pane L P p dir = call_with L P ''split_pane''
     (JObj [(''pane_id'', juuid L p), (''direction'', JStr dir)])
     (\<lambda>r. uuid_at L ''split_pane'' r ''pane_id'')"

definition dc_focus_tab :: "libs \<Rightarrow> 'd peer \<Rightarrow> uuid \<Rightarrow> (unit, 'd) call" where
  "dc_focus_tab L P t = call_with L P ''focus_tab'' (JObj [(''tab_id'', juuid L t)]) ignore"

definition dc_set_active_pane :: "libs \<Rightarrow> 'd peer \<Rightarrow> nat \<Rightarrow> uuid \<Rightarrow> pane_id option \<Rightarrow> (unit, 'd) call" where
  "dc_set_active_pane L P i t p = call_with L P ''set_active_pane''
     (JObj [(''workspace_idx'', jnat i), (''tab_id'', juuid L t), (''pane_id'', jopt (juuid L) p)]) ignore"

definition dc_move_tab :: "libs \<Rightarrow> 'd peer \<Rightarrow> uuid \<Rightarrow> nat \<Rightarrow> (unit, 'd) call" where
  "dc_move_tab L P t n = call_with L P ''move_tab''
     (JObj [(''tab_id'', juuid L t), (''new_index'', jnat n)]) ignore"

definition dc_resize_pane :: "libs \<Rightarrow> 'd peer \<Rightarrow> pane_id \<Rightarrow> u16 \<Rightarrow> u16 \<Rightarrow> (unit, 'd) call" where
  "dc_resize_pane L P p rows cols = call_with L P ''resize_pane''
     (JObj [(''pane_id'', juuid L p), (''rows'', jnat (unat rows)), (''cols'', jnat (unat cols))]) ignore"

definition dc_send_input :: "libs \<Rightarrow> 'd peer \<Rightarrow> pane_id \<Rightarrow> byte list \<Rightarrow> (unit, 'd) call" where
  "dc_send_input L P p bytes = call_with L P ''send_input''
     (JObj [(''pane_id'', juuid L p), (''data'', JStr (b64_encode L bytes))]) ignore"

definition dc_send_sigint :: "libs \<Rightarrow> 'd peer \<Rightarrow> pane_id \<Rightarrow> (unit, 'd) call" where
  "dc_send_sigint L P p = call_with L P ''send_sigint'' (JObj [(''pane_id'', juuid L p)]) ignore"

definition dc_close_pane :: "libs \<Rightarrow> 'd peer \<Rightarrow> pane_id \<Rightarrow> (unit, 'd) call" where
  "dc_close_pane L P p = call_with L P ''close_pane'' (JObj [(''pane_id'', juuid L p)]) ignore"

definition dc_update_split_ratios :: "libs \<Rightarrow> 'd peer \<Rightarrow> (pane_id \<times> f32) list \<Rightarrow> (unit, 'd) call" where
  "dc_update_split_ratios L P ratios = call_with L P ''update_split_ratios''
     (JObj [(''ratios'', JArr (map (\<lambda>(p, r). JObj [(''pane_id'', juuid L p), (''ratio'', ratio_json r)]) ratios))])
     ignore"

subsection \<open>Workspaces and the layout\<close>

definition dc_create_workspace :: "libs \<Rightarrow> 'd peer \<Rightarrow> string \<Rightarrow> (uuid \<times> nat \<times> pane_id \<times> uuid, 'd) call" where
  "dc_create_workspace L P name =
     (let fn = ''create_workspace''
      in call_with L P fn (JObj [(''name'', JStr name)])
           (\<lambda>r. sum_bind (uuid_at L fn r ''workspace_id'') (\<lambda>u.
                sum_bind (nat_at fn r ''workspace_idx'') (\<lambda>i.
                sum_bind (uuid_at L fn r ''pane_id'') (\<lambda>p.
                sum_bind (uuid_at L fn r ''tab_id'') (\<lambda>t. Inr (u, i, p, t)))))))"

definition dc_rename_workspace :: "libs \<Rightarrow> 'd peer \<Rightarrow> nat \<Rightarrow> string \<Rightarrow> (unit, 'd) call" where
  "dc_rename_workspace L P i name = call_with L P ''rename_workspace''
     (JObj [(''workspace_idx'', jnat i), (''name'', JStr name)]) ignore"

definition dc_set_workspace_color :: "libs \<Rightarrow> 'd peer \<Rightarrow> nat \<Rightarrow> string option \<Rightarrow> (unit, 'd) call" where
  "dc_set_workspace_color L P i color = call_with L P ''set_workspace_color''
     (JObj [(''workspace_idx'', jnat i), (''color'', jopt JStr color)]) ignore"

definition dc_move_workspace :: "libs \<Rightarrow> 'd peer \<Rightarrow> nat \<Rightarrow> nat \<Rightarrow> (unit, 'd) call" where
  "dc_move_workspace L P i j = call_with L P ''move_workspace''
     (JObj [(''from_idx'', jnat i), (''to_idx'', jnat j)]) ignore"

definition dc_delete_workspace :: "libs \<Rightarrow> 'd peer \<Rightarrow> nat \<Rightarrow> (unit, 'd) call" where
  "dc_delete_workspace L P i = call_with L P ''delete_workspace'' (JObj [(''workspace_idx'', jnat i)]) ignore"

definition dc_set_active_workspace :: "libs \<Rightarrow> 'd peer \<Rightarrow> nat \<Rightarrow> (unit, 'd) call" where
  "dc_set_active_workspace L P i =
     call_with L P ''set_active_workspace'' (JObj [(''workspace_idx'', jnat i)]) ignore"

text \<open>The value of an entry is a pair of tab and pane.\<close>

definition dc_duplicate_workspace ::
  "libs \<Rightarrow> 'd peer \<Rightarrow> nat \<Rightarrow> string option \<Rightarrow> (uuid \<times> nat \<times> (uuid \<times> pane_id) list, 'd) call" where
  "dc_duplicate_workspace L P i new_name =
     (let fn = ''duplicate_workspace''
      in call_with L P fn
           (JObj ([(''source_workspace_idx'', jnat i)] @ opt_entry ''new_name'' JStr new_name))
           (\<lambda>r. sum_bind (uuid_at L fn r ''workspace_id'') (\<lambda>u.
                sum_bind (nat_at fn r ''workspace_idx'') (\<lambda>k.
                sum_bind (array_at fn r ''tabs'') (\<lambda>es.
                sum_bind (sum_map (\<lambda>e. sum_bind (uuid_at L fn e ''tab_id'') (\<lambda>t.
                            sum_bind (uuid_at L fn e ''pane_id'') (\<lambda>p. Inr (t, p)))) es) (\<lambda>tabs.
                  Inr (u, k, tabs)))))))"

lemma json_get_smaller: "json_get j k = Some v \<Longrightarrow> size v < size j"
proof (cases j)
  case (JObj kvs)
  assume "json_get j k = Some v"
  then have "(k, v) \<in> set kvs" using JObj by (simp add: map_of_SomeD)
  then have "size v < size_list (size_prod (\<lambda>_. 0) size) kvs"
    by (induction kvs) auto
  then show ?thesis using JObj by simp
qed auto

text \<open>The children are looked up before the first is parsed.\<close>

function parse_pane_tree :: "libs \<Rightarrow> json \<Rightarrow> msg + pane_tree_node" where
  "parse_pane_tree L v =
     (case json_get v ''Leaf'' of
        Some leaf \<Rightarrow> sum_bind (uuid_at L ''parse_pane_tree'' leaf ''pane_id'') (\<lambda>u. Inr (NodeLeaf u))
      | None \<Rightarrow>
          (case json_get v ''Split'' of
             None \<Rightarrow> Inl (Msg ''parse_pane_tree: unrecognized shape: {v}'' [AStr (print_value L v)])
           | Some split \<Rightarrow>
               let direction = (case param as_str split ''direction'' of Some s \<Rightarrow> s | None \<Rightarrow> ''horizontal'');
                   ratio = (case param as_f64 split ''ratio'' of Some x \<Rightarrow> f32_of_f64 x | None \<Rightarrow> Finite (1/2))
               in case json_get split ''first'' of
                    None \<Rightarrow> Inl (Msg ''parse_pane_tree: Split missing first'' [])
                  | Some a \<Rightarrow>
                      (case json_get split ''second'' of
                         None \<Rightarrow> Inl (Msg ''parse_pane_tree: Split missing second'' [])
                       | Some b \<Rightarrow>
                           (case parse_pane_tree L a of
                              Inl e \<Rightarrow> Inl e
                            | Inr x \<Rightarrow>
                                (case parse_pane_tree L b of
                                   Inl e \<Rightarrow> Inl e
                                 | Inr y \<Rightarrow> Inr (NodeSplit direction ratio x y))))))"
  by pat_completeness auto
termination
  by (relation "measure (\<lambda>(L, v). size v)") (auto dest!: json_get_smaller)

declare parse_pane_tree.simps [simp del]

definition read_tab :: "libs \<Rightarrow> json \<Rightarrow> msg + tab_info" where
  "read_tab L tab =
     sum_bind (uuid_at L ''get_layout: tab'' tab ''id'') (\<lambda>u.
       case json_get tab ''pane_tree'' of
         None \<Rightarrow> Inl (Msg ''get_layout: tab missing pane_tree'' [])
       | Some v \<Rightarrow> sum_bind (parse_pane_tree L v) (\<lambda>t. Inr
           \<lparr>ti_tab_id = u, ti_title = str_or_empty tab ''title'', ti_pane_tree = t,
            ti_active_pane_id = Option.bind (param as_str tab ''active_pane_id'') (uuid_parse L)\<rparr>))"

definition read_workspace :: "libs \<Rightarrow> json \<Rightarrow> msg + workspace_info" where
  "read_workspace L ws =
     sum_bind (uuid_at L ''get_layout: workspace'' ws ''id'') (\<lambda>u.
     sum_bind (array_at ''get_layout: workspace'' ws ''tabs'') (\<lambda>ts.
     sum_bind (sum_map (read_tab L) ts) (\<lambda>tabs. Inr
       \<lparr>wi_id = u, wi_name = str_or_empty ws ''name'', wi_active_tab = nat_or 0 ws ''active_tab'',
        wi_tabs = tabs, wi_color = param as_str ws ''color''\<rparr>)))"

definition dc_get_layout :: "libs \<Rightarrow> 'd peer \<Rightarrow> (layout_info, 'd) call" where
  "dc_get_layout L P = call_with L P ''get_layout'' (JObj [])
     (\<lambda>r. sum_bind (array_at ''get_layout'' r ''workspaces'') (\<lambda>wss.
          sum_bind (sum_map (read_workspace L) wss) (\<lambda>ws. Inr
            \<lparr>li_active_workspace = nat_or 0 r ''active_workspace'', li_workspaces = ws\<rparr>)))"

subsection \<open>Devices, pinning, the end of the daemon\<close>

definition read_device :: "json \<Rightarrow> device_info" where
  "read_device d =
     \<lparr>di_device_id = str_or_empty d ''device_id'', di_name = str_or_empty d ''name'',
      di_paired_at = str_or_empty d ''paired_at'', di_last_seen = param as_str d ''last_seen''\<rparr>"

definition dc_list_devices :: "libs \<Rightarrow> 'd peer \<Rightarrow> (device_info list, 'd) call" where
  "dc_list_devices L P = call_with L P ''list_devices'' (JObj [])
     (\<lambda>r. sum_bind (array_at ''list_devices'' r ''devices'') (\<lambda>ds. Inr (map read_device ds)))"

definition dc_revoke_device :: "libs \<Rightarrow> 'd peer \<Rightarrow> string \<Rightarrow> (unit, 'd) call" where
  "dc_revoke_device L P i = call_with L P ''revoke_device'' (JObj [(''device_id'', JStr i)]) ignore"

definition dc_enable_pairing :: "libs \<Rightarrow> 'd peer \<Rightarrow> nat \<Rightarrow> (unit, 'd) call" where
  "dc_enable_pairing L P secs = call_with L P ''enable_pairing'' (JObj [(''secs'', jnat secs)]) ignore"

definition dc_get_pairing_info :: "libs \<Rightarrow> 'd peer \<Rightarrow> (pairing_info, 'd) call" where
  "dc_get_pairing_info L P = call_with L P ''get_pairing_info'' (JObj [])
     (\<lambda>r. case param as_str r ''qr_png_base64'' of
            None \<Rightarrow> Inl (Msg ''get_pairing_info: missing qr_png_base64'' [])
          | Some q \<Rightarrow> Inr \<lparr>pn_node_id = str_or_empty r ''node_id'', pn_machine = str_or_empty r ''machine'',
                          pn_qr_png_base64 = q\<rparr>)"

definition dc_set_pinned :: "libs \<Rightarrow> 'd peer \<Rightarrow> bool \<Rightarrow> (unit, 'd) call" where
  "dc_set_pinned L P b = call_with L P ''set_pinned'' (JObj [(''pinned'', JBool b)]) ignore"

definition dc_get_pinned :: "libs \<Rightarrow> 'd peer \<Rightarrow> (bool, 'd) call" where
  "dc_get_pinned L P = call_with L P ''get_pinned'' (JObj [])
     (\<lambda>r. Inr (case param as_bool r ''pinned'' of Some b \<Rightarrow> b | None \<Rightarrow> False))"

text \<open>The requests whose outcome is thrown away.\<close>

definition dc_best_effort :: "libs \<Rightarrow> 'd peer \<Rightarrow> string \<Rightarrow> json \<Rightarrow> 'd \<Rightarrow> 'd" where
  "dc_best_effort L P m params d = snd (dc_rpc L P m params d)"

definition dc_shutdown_clean :: "libs \<Rightarrow> 'd peer \<Rightarrow> 'd \<Rightarrow> 'd" where
  "dc_shutdown_clean L P = dc_best_effort L P ''shutdown_clean'' (JObj [])"

definition dc_shutdown_save :: "libs \<Rightarrow> 'd peer \<Rightarrow> 'd \<Rightarrow> 'd" where
  "dc_shutdown_save L P = dc_best_effort L P ''shutdown_save'' (JObj [])"

definition dc_shutdown :: "libs \<Rightarrow> 'd peer \<Rightarrow> 'd \<Rightarrow> 'd" where
  "dc_shutdown L P = dc_best_effort L P ''shutdown'' (JObj [])"

definition dc_disconnect :: "libs \<Rightarrow> 'd peer \<Rightarrow> 'd \<Rightarrow> 'd" where
  "dc_disconnect L P = dc_best_effort L P ''disconnect'' (JObj [])"

definition dc_notify :: "libs \<Rightarrow> 'd peer \<Rightarrow> pane_id \<Rightarrow> string \<Rightarrow> string \<Rightarrow> string \<Rightarrow> 'd \<Rightarrow> 'd" where
  "dc_notify L P p title body source = dc_best_effort L P ''notify''
     (JObj [(''pane_id'', juuid L p), (''title'', JStr title), (''body'', JStr body),
            (''source'', JStr source)])"

subsection \<open>The two streams\<close>

text \<open>
  \<open>subscribe_output\<close>: what the task delivers to the window, given the line of the
  acknowledgement and the bytes that follow it until the connection closes. \<open>taken\<close> is the number
  of messages the window still receives before it drops the channel.
\<close>

datatype output_message = Data "byte list" | StreamEnded

function deliver_frames :: "nat option \<Rightarrow> byte list \<Rightarrow> byte list list" where
  "deliver_frames taken r =
     (case read_exact 4 r of
        (Inl e, r1) \<Rightarrow> []
      | (Inr len_buf, r1) \<Rightarrow>
          let len = unat (from_be_bytes len_buf)
          in if len > MAX_FRAME_SIZE then []
             else if len = 0 then deliver_frames taken r1
             else (case read_exact len r1 of
                     (Inl e, r2) \<Rightarrow> []
                   | (Inr payload, r2) \<Rightarrow>
                       (case taken of
                          None \<Rightarrow> payload # deliver_frames None r2
                        | Some 0 \<Rightarrow> []
                        | Some (Suc n) \<Rightarrow> payload # deliver_frames (Some n) r2)))"
  by pat_completeness auto
termination
  by (relation "measure (\<lambda>(t, r). length r)") (auto simp: read_exact_def split: if_splits)

declare deliver_frames.simps [simp del]

definition ack_accepted :: "libs \<Rightarrow> string \<Rightarrow> bool" where
  "ack_accepted L ack_line =
     (case parse_value L (rust_trim ack_line) of
        None \<Rightarrow> False | Some ack \<Rightarrow> json_get ack ''error'' = None)"

definition subscribe_output_inner :: "libs \<Rightarrow> nat option \<Rightarrow> string \<Rightarrow> byte list \<Rightarrow> byte list list" where
  "subscribe_output_inner L taken ack_line r =
     (if ack_line \<noteq> [] \<and> ack_accepted L ack_line then deliver_frames taken r else [])"

definition subscribe_output_task :: "libs \<Rightarrow> nat option \<Rightarrow> string \<Rightarrow> byte list \<Rightarrow> output_message list" where
  "subscribe_output_task L taken ack_line r =
     map Data (subscribe_output_inner L taken ack_line r) @
     (if taken = Some (length (subscribe_output_inner L taken ack_line r)) then [] else [StreamEnded])"

text \<open>\<open>LayoutEvent\<close>.\<close>

datatype layout_event =
  LTabCreated nat uuid pane_id
| LTabClosed nat uuid
| LPaneSplit uuid pane_id pane_id string
| LTabMoved nat uuid nat
| LActiveTabChanged nat nat
| LWorkspaceRenamed nat uuid string
| LWorkspaceDeleted nat uuid
| LWorkspaceColorChanged nat uuid "string option"
| LWorkspacesReordered nat nat uuid uuid
| LActivePaneChanged nat uuid "pane_id option"

definition uuid_in :: "libs \<Rightarrow> json \<Rightarrow> string \<Rightarrow> uuid option" where
  "uuid_in L j k = uuid_parse L (str_or_empty j k)"

text \<open>A notification of another kind, or with a UUID that does not parse, is passed over.\<close>

definition parse_layout_event :: "libs \<Rightarrow> json \<Rightarrow> layout_event option" where
  "parse_layout_event L j =
     (let m = (case param as_str j ''method'' of Some s \<Rightarrow> s | None \<Rightarrow> []);
          params = (case json_get j ''params'' of Some p \<Rightarrow> p | None \<Rightarrow> JNull);
          idx = nat_or 0 params; u = uuid_in L params
      in if m = ''tab_created'' then
           Option.bind (u ''tab_id'') (\<lambda>t. map_option (LTabCreated (idx ''workspace_idx'') t) (u ''pane_id''))
         else if m = ''tab_closed'' then map_option (LTabClosed (idx ''workspace_idx'')) (u ''tab_id'')
         else if m = ''pane_split'' then
           (let direction = (case param as_str params ''direction'' of Some s \<Rightarrow> s | None \<Rightarrow> ''horizontal'')
            in Option.bind (u ''tab_id'') (\<lambda>t. Option.bind (u ''parent_pane_id'') (\<lambda>p.
                 map_option (\<lambda>n. LPaneSplit t p n direction) (u ''new_pane_id''))))
         else if m = ''tab_moved'' then
           map_option (\<lambda>t. LTabMoved (idx ''workspace_idx'') t (idx ''new_index'')) (u ''tab_id'')
         else if m = ''active_tab_changed'' then
           Some (LActiveTabChanged (idx ''workspace_idx'') (idx ''tab_idx''))
         else if m = ''workspace_renamed'' then
           map_option (\<lambda>w. LWorkspaceRenamed (idx ''workspace_idx'') w (str_or_empty params ''name''))
             (u ''workspace_id'')
         else if m = ''workspace_deleted'' then
           map_option (LWorkspaceDeleted (idx ''workspace_idx'')) (u ''workspace_id'')
         else if m = ''workspace_color_changed'' then
           map_option (\<lambda>w. LWorkspaceColorChanged (idx ''workspace_idx'') w (param as_str params ''color''))
             (u ''workspace_id'')
         else if m = ''workspaces_reordered'' then
           Option.bind (u ''from_workspace_id'') (\<lambda>a.
             map_option (LWorkspacesReordered (idx ''from_idx'') (idx ''to_idx'') a) (u ''to_workspace_id''))
         else if m = ''active_pane_changed'' then
           Option.bind (u ''tab_id'') (\<lambda>t.
             map_option (LActivePaneChanged (idx ''workspace_idx'') t)
               (case json_get params ''pane_id'' of
                  None \<Rightarrow> Some None
                | Some JNull \<Rightarrow> Some None
                | Some (JStr s) \<Rightarrow> map_option Some (uuid_parse L s)
                | Some _ \<Rightarrow> None))
         else None)"

text \<open>The lines of the stream; a line that is empty or does not parse is passed over.\<close>

definition layout_event_of_line :: "libs \<Rightarrow> string \<Rightarrow> layout_event option" where
  "layout_event_of_line L l =
     (let line = rust_trim l
      in if line = [] then None
         else Option.bind (parse_value L line) (parse_layout_event L))"

definition subscribe_layout_task :: "libs \<Rightarrow> string list \<Rightarrow> layout_event list" where
  "subscribe_layout_task L stream =
     (case stream of
        [] \<Rightarrow> []
      | ack # ls \<Rightarrow> if ack_accepted L ack then List.map_filter (layout_event_of_line L) ls else [])"

end
