(* ===== verification/ClientProps.thy ===== *)
theory ClientProps
  imports Client HandlerProps
begin

section \<open>The window and the daemon\<close>

text \<open>
  The client of the window against the daemon's server: every call of the client is one call of
  the session manager with the same arguments, the layout it reads is the layout of the session,
  and the two streams deliver what the server sent.
\<close>

subsection \<open>The daemon at the other end\<close>

text \<open>One connection of the server that carries one line.\<close>

definition daemon_peer :: "config \<Rightarrow> (msg \<Rightarrow> string) \<Rightarrow> nat \<Rightarrow> daemon peer" where
  "daemon_peer c render n line d =
     (let say = (\<lambda>r. Inr (line_of (c_libs c) (response_json render r)))
      in case handle_line c n line d of
           Skipped \<Rightarrow> (Inl (Msg ''read response: {e}'' []), d)
         | Replied r d1 \<Rightarrow> (say r, d1)
         | Finished r \<Rightarrow> (say r, d)
         | StreamOutput r p rx replay \<Rightarrow> (say r, d)
         | StreamLayout r rx \<Rightarrow> (say r, d)
         | Exited r d1 \<Rightarrow> (say r, d1))"

definition plain_methods :: "string set" where
  "plain_methods = set session_methods \<union> set device_methods"

definition wire_request :: "(rat \<Rightarrow> rat) \<Rightarrow> string \<Rightarrow> json \<Rightarrow> request" where
  "wire_request rd m p =
     \<lparr>rq_jsonrpc = ''2.0'', rq_method = m, rq_params = norm rd p, rq_id = Some (jnat 1)\<rparr>"

lemma wire_request_simps [simp]:
  "rq_method (wire_request rd m p) = m" "rq_params (wire_request rd m p) = norm rd p"
  "rq_id (wire_request rd m p) = Some (jnat 1)"
  by (simp_all add: wire_request_def)

definition result_ok :: "response \<Rightarrow> bool" where
  "result_ok r \<longleftrightarrow> (\<forall>j. rp_result r = Some j \<longrightarrow> json_ok j)"

lemma result_ok_simps [simp]:
  "result_ok (success i j) \<longleftrightarrow> json_ok j" "result_ok (error i c m)"
  "result_ok (ok_response rq)" "result_ok (invalid rq f a)" "result_ok (internal rq f e)"
  by (simp_all add: result_ok_def ok_response_def invalid_def internal_def ok_json_def)

lemma result_ok_reply [simp]: "result_ok (fst (reply_unit rq f x))"
  by (auto simp: reply_unit_def split: prod.split sum.split)

lemma response_json_ok:
  assumes "contract rq d m (r, d1)" "rq_id rq = Some (jnat 1)" "result_ok r"
    and "\<forall>e. rp_error r = Some e \<longrightarrow> re_data e = None"
  shows "json_ok (response_json render r)"
proof (cases "rp_error r")
  case None
  then show ?thesis
    using assms by (auto simp: response_json_def contract_def result_ok_def split: option.split)
next
  case (Some e)
  have "error_code r = Some (re_code e)" using Some by (simp add: error_code_def)
  then have "re_code e \<in> {INTERNAL_ERROR, INVALID_PARAMS, METHOD_NOT_FOUND}"
    using assms(1) by (auto simp: contract_def)
  then have "json_ok (int_json (re_code e))" by (auto simp: int_json_def error_codes)
  moreover have "rp_result r = None" using assms(1) Some by (auto simp: contract_def well_formed_response_def)
  ultimately show ?thesis
    using assms Some by (auto simp: response_json_def error_json_def contract_def)
qed

lemma rpc_daemon:
  assumes w: "wire_ok (c_libs c) rd" and p: "json_ok p" and m: "m \<in> plain_methods"
    and r: "dispatch c (wire_request rd m p) d = (r, d1)" "result_ok r"
      "\<forall>e. rp_error r = Some e \<longrightarrow> re_data e = None"
  shows "dc_rpc (c_libs c) (daemon_peer c render n) m p d =
    (case rp_error r of
       None \<Rightarrow> Inr (norm rd (the (rp_result r)))
     | Some e \<Rightarrow> Inl (Msg ''RPC error: {err}'' [AStr (print_value (c_libs c) (norm rd (error_json render e)))]),
     d1)"
proof -
  have "contract (wire_request rd m p) d m (r, d1)"
    using dispatch_contract[of "wire_request rd m p" d c] r(1) by simp
  then have j: "json_ok (response_json render r)" and wf: "well_formed_response r"
    using response_json_ok r(2,3) by (force, auto simp: contract_def)
  have ne: "m \<noteq> []" using m by (auto simp: plain_methods_def session_methods_def device_methods_def)
  have "m \<notin> {''subscribe_output'', ''subscribe_layout'', ''shutdown_save'', ''shutdown_clean'',
      ''disconnect'', ''shutdown'', ''is_attached''}"
    using m by (auto simp: plain_methods_def session_methods_def device_methods_def)
  then have "handle_line c n (line_of (c_libs c) (request_json m p)) d = Replied r d1"
    using r(1) ne wire_simps(2,3)[OF w p, of m]
    by (simp add: handle_line_def Let_def parse_def wire_request_def)
  then show ?thesis
    using wire_simps(1)[OF w j] wf
    by (auto simp: dc_rpc_def daemon_peer_def response_json_def well_formed_response_def split: option.split)
qed

subsection \<open>Calls of the client, calls of the session\<close>

datatype client_call =
  CNewTab nat "path option"
| CNewTabProfile nat "string list option" "path option"
| CCreateWorkspace string
| CRenameWorkspace nat string
| CSetColor nat "string option"
| CMoveWorkspace nat nat
| CDeleteWorkspace nat
| CDuplicateWorkspace nat "string option"
| CSetActiveWorkspace nat
| CCloseTab uuid
| CCloseTabByPane pane_id
| CFocusTab uuid
| CMoveTab uuid nat
| CSetActivePane nat uuid "pane_id option"
| CSplitPane pane_id string
| CClosePane pane_id
| CResizePane pane_id u16 u16
| CSendInput pane_id "byte list"
| CSendSigint pane_id
| CUpdateRatios "(pane_id \<times> f32) list"

datatype client_answer =
  ADone
| APane pane_id
| ATab pane_id uuid
| AWorkspace uuid nat pane_id uuid
| ADuplicate uuid nat "(uuid \<times> pane_id) list"

text \<open>What the caller of the client sees, the text of an error aside.\<close>

definition reply_of :: "('a \<Rightarrow> client_answer) \<Rightarrow> (msg + 'a) \<times> 'd \<Rightarrow> client_answer option \<times> 'd" where
  "reply_of f x = (case fst x of Inl e \<Rightarrow> None | Inr a \<Rightarrow> Some (f a), snd x)"

fun perform :: "libs \<Rightarrow> 'd peer \<Rightarrow> client_call \<Rightarrow> 'd \<Rightarrow> client_answer option \<times> 'd" where
  "perform L P (CNewTab i cwd) d = reply_of (\<lambda>(p, t). ATab p t) (dc_new_tab_with_cwd L P i cwd d)"
| "perform L P (CNewTabProfile i cmd cwd) d =
     reply_of (\<lambda>(p, t). ATab p t) (dc_new_tab_with_profile L P i cmd cwd d)"
| "perform L P (CCreateWorkspace n) d =
     reply_of (\<lambda>(u, i, p, t). AWorkspace u i p t) (dc_create_workspace L P n d)"
| "perform L P (CRenameWorkspace i n) d = reply_of (\<lambda>_. ADone) (dc_rename_workspace L P i n d)"
| "perform L P (CSetColor i cl) d = reply_of (\<lambda>_. ADone) (dc_set_workspace_color L P i cl d)"
| "perform L P (CMoveWorkspace i j) d = reply_of (\<lambda>_. ADone) (dc_move_workspace L P i j d)"
| "perform L P (CDeleteWorkspace i) d = reply_of (\<lambda>_. ADone) (dc_delete_workspace L P i d)"
| "perform L P (CDuplicateWorkspace i n) d =
     reply_of (\<lambda>(u, k, ts). ADuplicate u k ts) (dc_duplicate_workspace L P i n d)"
| "perform L P (CSetActiveWorkspace i) d = reply_of (\<lambda>_. ADone) (dc_set_active_workspace L P i d)"
| "perform L P (CCloseTab t) d = reply_of (\<lambda>_. ADone) (dc_close_tab L P t d)"
| "perform L P (CCloseTabByPane p) d = reply_of (\<lambda>_. ADone) (dc_close_tab_by_pane_id L P p d)"
| "perform L P (CFocusTab t) d = reply_of (\<lambda>_. ADone) (dc_focus_tab L P t d)"
| "perform L P (CMoveTab t n) d = reply_of (\<lambda>_. ADone) (dc_move_tab L P t n d)"
| "perform L P (CSetActivePane i t p) d = reply_of (\<lambda>_. ADone) (dc_set_active_pane L P i t p d)"
| "perform L P (CSplitPane p dir) d = reply_of APane (dc_split_pane L P p dir d)"
| "perform L P (CClosePane p) d = reply_of (\<lambda>_. ADone) (dc_close_pane L P p d)"
| "perform L P (CResizePane p r c) d = reply_of (\<lambda>_. ADone) (dc_resize_pane L P p r c d)"
| "perform L P (CSendInput p bs) d = reply_of (\<lambda>_. ADone) (dc_send_input L P p bs d)"
| "perform L P (CSendSigint p) d = reply_of (\<lambda>_. ADone) (dc_send_sigint L P p d)"
| "perform L P (CUpdateRatios rs) d = reply_of (\<lambda>_. ADone) (dc_update_split_ratios L P rs d)"

definition outcome_of :: "('a \<Rightarrow> client_answer) \<Rightarrow> 'a outcome \<Rightarrow> client_answer option \<times> session" where
  "outcome_of f x = (case fst x of Inl e \<Rightarrow> None | Inr a \<Rightarrow> Some (f a), snd x)"

definition usable :: "libs \<Rightarrow> path option \<Rightarrow> path option" where
  "usable L cwd = (case cwd of None \<Rightarrow> None | Some c \<Rightarrow> if c \<noteq> [] \<and> is_dir L c then Some c else None)"

definition on_pane :: "pane_id \<Rightarrow> (session \<Rightarrow> client_answer option \<times> session) \<Rightarrow> session \<Rightarrow>
    client_answer option \<times> session" where
  "on_pane p k s = (if pane_info_of p s = None then (None, s) else k s)"

text \<open>The calls of the session manager they stand for.\<close>

fun session_call :: "libs \<Rightarrow> client_call \<Rightarrow> session \<Rightarrow> client_answer option \<times> session" where
  "session_call L (CNewTab i cwd) s =
     outcome_of (\<lambda>(p, t). ATab p t) (create_tab i (usable L cwd) default_size None s)"
| "session_call L (CNewTabProfile i cmd cwd) s =
     outcome_of (\<lambda>(p, t). ATab p t)
       (create_tab i (usable L cwd) default_size (if cmd = Some [] then None else cmd) s)"
| "session_call L (CCreateWorkspace n) s =
     (case create_workspace n s of ((u, i), s1) \<Rightarrow>
        outcome_of (\<lambda>(p, t). AWorkspace u i p t) (create_tab i None default_size None s1))"
| "session_call L (CRenameWorkspace i n) s = outcome_of (\<lambda>_. ADone) (rename_workspace i n s)"
| "session_call L (CSetColor i cl) s = outcome_of (\<lambda>_. ADone) (set_workspace_color i cl s)"
| "session_call L (CMoveWorkspace i j) s = outcome_of (\<lambda>_. ADone) (move_workspace i j s)"
| "session_call L (CDeleteWorkspace i) s = outcome_of (\<lambda>_. ADone) (delete_workspace i s)"
| "session_call L (CDuplicateWorkspace i n) s =
     outcome_of (\<lambda>(u, k, dts). ADuplicate u k (map (\<lambda>dt. (dt_tab_id dt, dt_pane_id dt)) dts))
       (duplicate_workspace i n default_size s)"
| "session_call L (CSetActiveWorkspace i) s = outcome_of (\<lambda>_. ADone) (set_active_workspace i s)"
| "session_call L (CCloseTab t) s = outcome_of (\<lambda>_. ADone) (close_tab t s)"
| "session_call L (CCloseTabByPane p) s = on_pane p (\<lambda>s. outcome_of (\<lambda>_. ADone)
     (case find_tab_for_pane (layout s) p of Some t \<Rightarrow> close_tab t s | None \<Rightarrow> close_pane p s)) s"
| "session_call L (CFocusTab t) s =
     (case find_tab t (workspaces (layout s)) of
        None \<Rightarrow> (None, s) | Some (i, j) \<Rightarrow> outcome_of (\<lambda>_. ADone) (set_active_tab i j s))"
| "session_call L (CMoveTab t n) s = outcome_of (\<lambda>_. ADone) (move_tab t n s)"
| "session_call L (CSetActivePane i t p) s = outcome_of (\<lambda>_. ADone) (set_active_pane i t p s)"
| "session_call L (CSplitPane p dir) s = on_pane p (\<lambda>s.
     if dir \<noteq> ''horizontal'' \<and> dir \<noteq> ''vertical'' then (None, s)
     else outcome_of APane (split_pane p dir default_size (map_option pi_cwd (pane_info_of p s)) s)) s"
| "session_call L (CClosePane p) s = on_pane p (\<lambda>s. outcome_of (\<lambda>_. ADone)
     (case find_tab_record (workspaces (layout s)) p of
        Some t \<Rightarrow> if length (leaves (tab_tree t)) \<le> 1 then close_tab (tab_id t) s else close_pane p s
      | None \<Rightarrow> close_pane p s)) s"
| "session_call L (CResizePane p r c) s = on_pane p (\<lambda>s. outcome_of (\<lambda>_. ADone)
     (resize_pane p \<lparr>sz_rows = r, sz_cols = c, sz_pixel_width = 0, sz_pixel_height = 0\<rparr> s)) s"
| "session_call L (CSendInput p bs) s = on_pane p (\<lambda>s. outcome_of (\<lambda>_. ADone) (write_pty p bs s)) s"
| "session_call L (CSendSigint p) s = on_pane p (\<lambda>s.
     case write_pty p [case intr_byte p s of Some b \<Rightarrow> b | None \<Rightarrow> 0x03] s of
       (Inr _, s1) \<Rightarrow> (Some ADone, send_sigint p s1) | (Inl e, s1) \<Rightarrow> (None, s1)) s"
| "session_call L (CUpdateRatios rs) s =
     (Some ADone, update_split_ratios [(p, r) \<leftarrow> rs. r \<in> range Finite] s)"

text \<open>Indices fit into 64 bits, ratios are values of their type.\<close>

fun call_ok :: "client_call \<Rightarrow> bool" where
  "call_ok (CNewTab i cwd) \<longleftrightarrow> i < 2 ^ 64"
| "call_ok (CNewTabProfile i cmd cwd) \<longleftrightarrow> i < 2 ^ 64"
| "call_ok (CRenameWorkspace i n) \<longleftrightarrow> i < 2 ^ 64"
| "call_ok (CSetColor i cl) \<longleftrightarrow> i < 2 ^ 64"
| "call_ok (CMoveWorkspace i j) \<longleftrightarrow> i < 2 ^ 64 \<and> j < 2 ^ 64"
| "call_ok (CDeleteWorkspace i) \<longleftrightarrow> i < 2 ^ 64"
| "call_ok (CDuplicateWorkspace i n) \<longleftrightarrow> i < 2 ^ 64"
| "call_ok (CSetActiveWorkspace i) \<longleftrightarrow> i < 2 ^ 64"
| "call_ok (CMoveTab t n) \<longleftrightarrow> n < 2 ^ 64"
| "call_ok (CSetActivePane i t p) \<longleftrightarrow> i < 2 ^ 64"
| "call_ok (CUpdateRatios rs) \<longleftrightarrow> (\<forall>(p, r) \<in> set rs. \<forall>x. r = Finite x \<longrightarrow> f32_value x)"
| "call_ok _ \<longleftrightarrow> True"

text \<open>What the caller makes of an answer of the daemon.\<close>

definition answer :: "(rat \<Rightarrow> rat) \<Rightarrow> ('a \<Rightarrow> client_answer) \<Rightarrow> (json \<Rightarrow> msg + 'a) \<Rightarrow> response \<Rightarrow>
    client_answer option" where
  "answer rd f read r =
     (case rp_error r of
        Some e \<Rightarrow> None
      | None \<Rightarrow> (case read (norm rd (the (rp_result r))) of Inl e \<Rightarrow> None | Inr a \<Rightarrow> Some (f a)))"

definition no_data :: "response \<Rightarrow> bool" where
  "no_data r \<longleftrightarrow> (\<forall>e. rp_error r = Some e \<longrightarrow> re_data e = None)"

lemma no_data_simps [simp]:
  "no_data (success i j)" "no_data (error i c m)" "no_data (ok_response rq)" "no_data (invalid rq f a)"
  "no_data (internal rq f e)" "no_data (fst (reply_unit rq f x))"
  by (auto simp: no_data_def ok_response_def invalid_def internal_def reply_unit_def split: prod.split sum.split)

lemma client_answer_simps [simp]:
  "answer rd f read (success i j) = (case read (norm rd j) of Inl e \<Rightarrow> None | Inr a \<Rightarrow> Some (f a))"
  "answer rd f read (error i c m) = None" "answer rd f read (invalid rq g a) = None"
  "answer rd f read (internal rq g e) = None" "answer rd h ignore (ok_response rq) = Some (h ())"
  by (simp_all add: answer_def invalid_def internal_def ok_response_def ignore_def)

lemma answer_reply [simp]:
  "answer rd f ignore (fst (reply_unit rq g x)) = (case fst x of Inl e \<Rightarrow> None | Inr a \<Rightarrow> Some (f ()))"
  by (auto simp: reply_unit_def split: prod.split sum.split)

lemma reply_daemon:
  assumes "wire_ok (c_libs c) rd" "json_ok p" "m \<in> plain_methods"
    and "dispatch c (wire_request rd m p) d = on_session h d"
    and "result_ok (fst (h (d_session d)))" "no_data (fst (h (d_session d)))"
  shows "reply_of f (call_with (c_libs c) (daemon_peer c render n) m p read d) =
    (answer rd f read (fst (h (d_session d))), d\<lparr>d_session := snd (h (d_session d))\<rparr>)"
proof -
  obtain r s where h: "h (d_session d) = (r, s)" by fastforce
  then have "dispatch c (wire_request rd m p) d = (r, d\<lparr>d_session := s\<rparr>)"
    using assms(4) by (simp add: on_session_def)
  then show ?thesis
    using rpc_daemon[OF assms(1-3)] assms(5,6) h
    by (auto simp: call_with_def reply_of_def answer_def no_data_def split: option.split sum.split)
qed

lemma plain_method [simp]:
  "m \<in> set session_methods \<Longrightarrow> m \<in> plain_methods"
  by (simp add: plain_methods_def)

text \<open>The result of a call on the session, in the daemon.\<close>

definition in_daemon :: "daemon \<Rightarrow> client_answer option \<times> session \<Rightarrow> client_answer option \<times> daemon" where
  "in_daemon d x = (fst x, d\<lparr>d_session := snd x\<rparr>)"

lemmas param_defs = str_param_def u64_param_def uuid_param_def index_param_def param_def cwd_param_def
  command_param_def

text \<open>The calls that are answered with \<open>ok\<close>: the handler is the session operation.\<close>

lemma unit_call:
  assumes "wire_ok (c_libs c) rd" "json_ok p" "m \<in> set session_methods"
    and "dispatch c (wire_request rd m p) d = on_session h d"
    and "h (d_session d) = reply_unit rq g x"
  shows "reply_of (\<lambda>_. ADone) (call_with (c_libs c) (daemon_peer c render n) m p ignore d) =
    in_daemon d (outcome_of (\<lambda>_. ADone) x)"
  using reply_daemon[OF assms(1,2) plain_method[OF assms(3)] assms(4), of "\<lambda>_. ADone" render n ignore] assms(5)
  by (auto simp: in_daemon_def outcome_of_def split: sum.split)

lemma dispatch_on_session:
  "dispatch c (wire_request rd ''rename_workspace'' p) d =
     on_session (handle_rename_workspace (wire_request rd ''rename_workspace'' p)) d"
  "dispatch c (wire_request rd ''set_workspace_color'' p) d =
     on_session (handle_set_workspace_color (wire_request rd ''set_workspace_color'' p)) d"
  "dispatch c (wire_request rd ''move_workspace'' p) d =
     on_session (handle_move_workspace (wire_request rd ''move_workspace'' p)) d"
  "dispatch c (wire_request rd ''delete_workspace'' p) d =
     on_session (handle_delete_workspace (wire_request rd ''delete_workspace'' p)) d"
  "dispatch c (wire_request rd ''set_active_workspace'' p) d =
     on_session (handle_set_active_workspace (wire_request rd ''set_active_workspace'' p)) d"
  "dispatch c (wire_request rd ''close_tab'' p) d =
     on_session (handle_close_tab (c_libs c) (wire_request rd ''close_tab'' p)) d"
  "dispatch c (wire_request rd ''focus_tab'' p) d =
     on_session (handle_focus_tab (c_libs c) (wire_request rd ''focus_tab'' p)) d"
  "dispatch c (wire_request rd ''move_tab'' p) d =
     on_session (handle_move_tab (c_libs c) (wire_request rd ''move_tab'' p)) d"
  "dispatch c (wire_request rd ''set_active_pane'' p) d =
     on_session (handle_set_active_pane (c_libs c) (wire_request rd ''set_active_pane'' p)) d"
  "dispatch c (wire_request rd ''close_pane'' p) d =
     on_session (handle_close_pane (c_libs c) (wire_request rd ''close_pane'' p)) d"
  "dispatch c (wire_request rd ''resize_pane'' p) d =
     on_session (handle_resize_pane (c_libs c) (wire_request rd ''resize_pane'' p)) d"
  "dispatch c (wire_request rd ''send_input'' p) d =
     on_session (handle_send_input (c_libs c) (wire_request rd ''send_input'' p)) d"
  "dispatch c (wire_request rd ''send_sigint'' p) d =
     on_session (handle_send_sigint (c_libs c) (wire_request rd ''send_sigint'' p)) d"
  "dispatch c (wire_request rd ''update_split_ratios'' p) d =
     on_session (handle_update_split_ratios (c_libs c) (wire_request rd ''update_split_ratios'' p)) d"
  "dispatch c (wire_request rd ''new_tab'' p) d =
     on_session (handle_new_tab (c_libs c) (wire_request rd ''new_tab'' p)) d"
  "dispatch c (wire_request rd ''split_pane'' p) d =
     on_session (handle_split_pane (c_libs c) (wire_request rd ''split_pane'' p)) d"
  "dispatch c (wire_request rd ''create_workspace'' p) d =
     on_session (handle_create_workspace (c_libs c) (wire_request rd ''create_workspace'' p)) d"
  "dispatch c (wire_request rd ''duplicate_workspace'' p) d =
     on_session (handle_duplicate_workspace (c_libs c) (wire_request rd ''duplicate_workspace'' p)) d"
  by (simp_all add: dispatch_def Let_def)

definition agrees :: "config \<Rightarrow> (msg \<Rightarrow> string) \<Rightarrow> nat \<Rightarrow> daemon \<Rightarrow> client_call \<Rightarrow> bool" where
  "agrees c render n d call \<longleftrightarrow>
     perform (c_libs c) (daemon_peer c render n) call d = in_daemon d (session_call (c_libs c) call (d_session d))"

lemma agrees_workspace_calls:
  assumes w: "wire_ok (c_libs c) rd"
  shows "i < 2 ^ 64 \<Longrightarrow> agrees c render n d (CRenameWorkspace i nm)"
    "i < 2 ^ 64 \<Longrightarrow> agrees c render n d (CSetColor i cl)"
    "i < 2 ^ 64 \<Longrightarrow> j < 2 ^ 64 \<Longrightarrow> agrees c render n d (CMoveWorkspace i j)"
    "i < 2 ^ 64 \<Longrightarrow> agrees c render n d (CDeleteWorkspace i)"
  unfolding agrees_def perform.simps session_call.simps
    dc_rename_workspace_def dc_set_workspace_color_def dc_move_workspace_def dc_delete_workspace_def
  by (rule unit_call[OF w _ _ dispatch_on_session(1)] unit_call[OF w _ _ dispatch_on_session(2)]
      unit_call[OF w _ _ dispatch_on_session(3)] unit_call[OF w _ _ dispatch_on_session(4)];
    (simp add: session_methods_def; fail)?;
    simp add: handle_rename_workspace_def handle_set_workspace_color_def handle_move_workspace_def
      handle_delete_workspace_def param_defs)+

lemma session_reply:
  assumes "wire_ok (c_libs c) rd" "json_ok p" "m \<in> set session_methods"
    and "dispatch c (wire_request rd m p) d = on_session h d"
    and "result_ok (fst (h (d_session d)))" "no_data (fst (h (d_session d)))"
    and "y = (answer rd f read (fst (h (d_session d))), snd (h (d_session d)))"
  shows "reply_of f (call_with (c_libs c) (daemon_peer c render n) m p read d) = in_daemon d y"
  using reply_daemon[OF assms(1,2) plain_method[OF assms(3)] assms(4-6), of f render n read] assms(7)
  by (simp add: in_daemon_def)

lemmas call_defs =
  dc_set_active_workspace_def dc_close_tab_def dc_close_tab_by_pane_id_def dc_focus_tab_def
  dc_move_tab_def dc_set_active_pane_def dc_close_pane_def dc_resize_pane_def dc_send_input_def
  dc_send_sigint_def dc_split_pane_def

lemma opt_pane_sent:
  assumes "wire_ok L rd" "json_get j ''pane_id'' = Some (jopt (juuid L) q)"
  shows "opt_pane_param L (wire_request rd m j) = Inr q"
  using assms(2) wire_simps(5)[OF assms(1)] by (cases q) (simp_all add: opt_pane_param_def juuid_def)

lemma agrees_unit_calls:
  assumes w: "wire_ok (c_libs c) rd"
  shows "agrees c render n d (CCloseTab t)"
    "k < 2 ^ 64 \<Longrightarrow> agrees c render n d (CMoveTab t k)"
    "i < 2 ^ 64 \<Longrightarrow> agrees c render n d (CSetActivePane i t q)"
  unfolding agrees_def perform.simps session_call.simps call_defs
  by (rule unit_call[OF w _ _ dispatch_on_session(6)] unit_call[OF w _ _ dispatch_on_session(8)]
      unit_call[OF w _ _ dispatch_on_session(9)];
    (simp add: session_methods_def; fail)?;
    simp add: handle_close_tab_def handle_move_tab_def handle_set_active_pane_def
      param_defs opt_pane_sent[OF w] wire_simps(5)[OF w])+

lemma agrees_other_calls:
  assumes w: "wire_ok (c_libs c) rd"
  shows "i < 2 ^ 64 \<Longrightarrow> agrees c render n d (CSetActiveWorkspace i)"
    "agrees c render n d (CFocusTab t)"
  unfolding agrees_def perform.simps session_call.simps call_defs
  by (rule session_reply[OF w _ _ dispatch_on_session(5)] session_reply[OF w _ _ dispatch_on_session(7)];
    (simp add: session_methods_def; fail)?;
    auto simp: handle_set_active_workspace_def handle_focus_tab_def param_defs wire_simps(5)[OF w]
      outcome_of_def split: option.split prod.split sum.split)+

lemma u16_fits [simp]: "unat (r :: u16) < 18446744073709551616"
  using unsigned_less[of r, where ?'a = nat] by simp

lemma agrees_pane_calls:
  assumes w: "wire_ok (c_libs c) rd"
  shows "agrees c render n d (CCloseTabByPane p)" "agrees c render n d (CClosePane p)"
    "agrees c render n d (CResizePane p r k)" "agrees c render n d (CSendInput p bs)"
    "agrees c render n d (CSendSigint p)"
  unfolding agrees_def perform.simps session_call.simps call_defs
  by (rule session_reply[OF w _ _ dispatch_on_session(6)] session_reply[OF w _ _ dispatch_on_session(10)]
      session_reply[OF w _ _ dispatch_on_session(11)] session_reply[OF w _ _ dispatch_on_session(12)]
      session_reply[OF w _ _ dispatch_on_session(13)];
    (simp add: session_methods_def; fail)?;
    auto simp: handle_close_tab_def handle_close_pane_def handle_resize_pane_def handle_send_input_def
      handle_send_sigint_def require_pane_id_def on_pane_def param_defs wire_simps(5,6)[OF w]
      outcome_of_def Let_def split: option.split prod.split sum.split)+

lemma default_size_param:
  "json_get (rq_params rq) ''rows'' = None \<Longrightarrow> json_get (rq_params rq) ''cols'' = None \<Longrightarrow>
     size_param rq = default_size"
  by (simp add: size_param_def u64_param_def param_def default_size_def DEFAULT_ROWS_def DEFAULT_COLS_def)

lemma read_uuid:
  "wire_ok L rd \<Longrightarrow> json_get j k = Some (juuid L u) \<Longrightarrow> uuid_at L fn (norm rd j) k = Inr u"
  using wire_simps(5)[of L rd u] by (simp add: uuid_at_def param_def)

lemma strings_param: "List.map_filter as_str (map JStr cs) = cs" "map (norm rd) (map JStr cs) = map JStr cs"
  by (induction cs) (simp_all add: map_filter_simps)

lemma new_tab_reply:
  assumes w: "wire_ok (c_libs c) rd" and p: "json_ok p"
    and "u64_param (wire_request rd ''new_tab'' p) ''workspace_idx'' = Some i"
    and "size_param (wire_request rd ''new_tab'' p) = default_size"
    and "cwd_param (c_libs c) (wire_request rd ''new_tab'' p) = cwd"
    and "command_param (wire_request rd ''new_tab'' p) = cmd"
  shows "reply_of (\<lambda>(p, t). ATab p t)
      (call_with (c_libs c) (daemon_peer c render n) ''new_tab'' p (read_pane_and_tab (c_libs c) fn) d) =
    in_daemon d (outcome_of (\<lambda>(p, t). ATab p t) (create_tab i cwd default_size cmd (d_session d)))"
proof (rule session_reply[OF w p _ dispatch_on_session(15)])
  obtain r s' where c: "create_tab i cwd default_size cmd (d_session d) = (r, s')" by fastforce
  let ?h = "handle_new_tab (c_libs c) (wire_request rd ''new_tab'' p) (d_session d)"
  have h: "?h = (case r of Inl e \<Rightarrow> internal (wire_request rd ''new_tab'' p) ''failed to create tab: {e}'' e
      | Inr (q, t) \<Rightarrow> success (Some (jnat 1)) (JObj [(''tab_id'', juuid (c_libs c) t), (''pane_id'', juuid (c_libs c) q)]), s')"
    using assms(3-6) c by (auto simp: handle_new_tab_def split: sum.split prod.split)
  show "result_ok (fst ?h)" "no_data (fst ?h)"
    "outcome_of (\<lambda>(p, t). ATab p t) (create_tab i cwd default_size cmd (d_session d)) =
      (answer rd (\<lambda>(p, t). ATab p t) (read_pane_and_tab (c_libs c) fn) (fst ?h), snd ?h)"
    unfolding h c
    by (auto simp: outcome_of_def read_pane_and_tab_def read_uuid[OF w] simp del: norm.simps split: sum.split)
qed (simp add: session_methods_def)

lemma agrees_new_tab:
  assumes w: "wire_ok (c_libs c) rd" and i: "i < 2 ^ 64"
  shows "agrees c render n d (CNewTab i cwd)" "agrees c render n d (CNewTabProfile i cmd cwd)"
  unfolding agrees_def perform.simps session_call.simps dc_new_tab_with_cwd_def dc_new_tab_with_profile_def
  using i
  by (intro new_tab_reply[OF w];
    auto simp: default_size_param usable_def param_defs opt_entry_def strings_param Let_def
      simp del: map_map split: option.split)+

lemma agrees_split_pane:
  assumes w: "wire_ok (c_libs c) rd"
  shows "agrees c render n d (CSplitPane p dir)"
  unfolding agrees_def perform.simps session_call.simps dc_split_pane_def
proof (rule session_reply[OF w _ _ dispatch_on_session(16)])
  let ?s = "d_session d"
  let ?rq = "wire_request rd ''split_pane''
     (JObj [(''pane_id'', juuid (c_libs c) p), (''direction'', JStr dir)])"
  let ?h = "handle_split_pane (c_libs c) ?rq ?s"
  obtain r s' where sp: "split_pane p dir default_size (map_option pi_cwd (pane_info_of p ?s)) ?s = (r, s')"
    by fastforce
  have pane: "require_pane_id (c_libs c) ?rq ?s =
      (if pane_info_of p ?s = None then Inl (invalid ?rq ''pane not found: {raw}'' [AStr (uuid_str (c_libs c) p)])
       else Inr p)"
    using wire_simps(5)[OF w] by (simp add: require_pane_id_def param_defs)
  have h: "?h = (if pane_info_of p ?s = None
      then (invalid ?rq ''pane not found: {raw}'' [AStr (uuid_str (c_libs c) p)], ?s)
      else if dir \<noteq> ''horizontal'' \<and> dir \<noteq> ''vertical''
      then (invalid ?rq (''direction must be '' @ CHR 0x27 # ''horizontal'' @ CHR 0x27 # '' or '' @
              CHR 0x27 # ''vertical'' @ [CHR 0x27]) [], ?s)
      else (case r of Inr q \<Rightarrow> success (Some (jnat 1)) (JObj [(''pane_id'', juuid (c_libs c) q)])
            | Inl e \<Rightarrow> internal ?rq ''split_pane failed: {e}'' e, s'))"
    using sp unfolding handle_split_pane_def pane
    by (auto simp: param_defs default_size_param split: sum.split)
  show "result_ok (fst ?h)" "no_data (fst ?h)"
    unfolding h by (auto split: sum.split)
  show "on_pane p (\<lambda>s. if dir \<noteq> ''horizontal'' \<and> dir \<noteq> ''vertical'' then (None, s)
      else outcome_of APane (split_pane p dir default_size (map_option pi_cwd (pane_info_of p s)) s)) ?s =
    (answer rd APane (\<lambda>r. uuid_at (c_libs c) ''split_pane'' r ''pane_id'') (fst ?h), snd ?h)"
    unfolding h using sp
    by (auto simp: on_pane_def outcome_of_def read_uuid[OF w] simp del: norm.simps split: sum.split)
qed (simp_all add: session_methods_def)

lemma read_nat: "json_get j k = Some (jnat i) \<Longrightarrow> nat_at fn (norm rd j) k = Inr i"
  by (simp add: nat_at_def param_def)

lemma read_array: "json_get j k = Some (JArr es) \<Longrightarrow> array_at fn (norm rd j) k = Inr (map (norm rd) es)"
  by (simp add: array_at_def param_def)

lemma agrees_create_workspace:
  assumes w: "wire_ok (c_libs c) rd" and small: "ws_count (d_session d) < 2 ^ 64"
  shows "agrees c render n d (CCreateWorkspace name)"
  unfolding agrees_def perform.simps session_call.simps dc_create_workspace_def Let_def
proof (rule session_reply[OF w _ _ dispatch_on_session(17)])
  let ?s = "d_session d" and ?fn = "''create_workspace''"
  let ?rq = "wire_request rd ?fn (JObj [(''name'', JStr name)])"
  let ?h = "handle_create_workspace (c_libs c) ?rq ?s"
  obtain u i s1 where cw: "create_workspace name ?s = ((u, i), s1)" by (metis surj_pair)
  obtain r s2 where ct: "create_tab i None default_size None s1 = (r, s2)" by fastforce
  have i: "i < 2 ^ 64"
    using cw small by (auto simp: create_workspace_def new_uuid_def ws_count_def Let_def)
  have h: "?h = (case r of
      Inr (p, t) \<Rightarrow> success (Some (jnat 1))
        (JObj [(''workspace_id'', juuid (c_libs c) u), (''workspace_idx'', jnat i),
               (''pane_id'', juuid (c_libs c) p), (''tab_id'', juuid (c_libs c) t)])
    | Inl e \<Rightarrow> internal ?rq ''create_workspace: create_tab failed: {e}'' e, s2)"
    using cw ct by (auto simp: handle_create_workspace_def param_defs split: sum.split)
  show "result_ok (fst ?h)" "no_data (fst ?h)"
    unfolding h using i by (auto split: sum.split)
  show "(case create_workspace name ?s of ((u, i), s1) \<Rightarrow>
      outcome_of (\<lambda>(p, t). AWorkspace u i p t) (create_tab i None default_size None s1)) =
    (answer rd (\<lambda>(u, i, p, t). AWorkspace u i p t)
      (\<lambda>r. sum_bind (uuid_at (c_libs c) ?fn r ''workspace_id'') (\<lambda>u.
           sum_bind (nat_at ?fn r ''workspace_idx'') (\<lambda>i.
           sum_bind (uuid_at (c_libs c) ?fn r ''pane_id'') (\<lambda>p.
           sum_bind (uuid_at (c_libs c) ?fn r ''tab_id'') (\<lambda>t. Inr (u, i, p, t)))))) (fst ?h), snd ?h)"
    unfolding h cw by (auto simp: ct outcome_of_def read_uuid[OF w] read_nat simp del: norm.simps split: sum.split)
qed (simp_all add: session_methods_def)

lemma duplicate_index:
  assumes "duplicate_workspace i nm sz s = (Inr (u, k, dts), s')"
  shows "k \<le> ws_count s"
  using assms
  by (auto simp: duplicate_workspace_def dup_snapshot_def dup_commit_def Let_def not_le
      split: if_splits sum.splits prod.splits)

lemma read_duplicated:
  assumes w: "wire_ok L rd"
  shows "sum_map (\<lambda>e. sum_bind (uuid_at L fn e ''tab_id'') (\<lambda>t. sum_bind (uuid_at L fn e ''pane_id'')
      (\<lambda>p. Inr (t, p)))) (map (norm rd \<circ> duplicated_json L) dts) =
    Inr (map (\<lambda>dt. (dt_tab_id dt, dt_pane_id dt)) dts)"
  by (induction dts) (simp_all add: duplicated_json_def read_uuid[OF w] del: norm.simps)

lemma agrees_duplicate_workspace:
  assumes w: "wire_ok (c_libs c) rd" and small: "ws_count (d_session d) < 2 ^ 64" and i: "i < 2 ^ 64"
  shows "agrees c render n d (CDuplicateWorkspace i nm)"
  unfolding agrees_def perform.simps session_call.simps dc_duplicate_workspace_def Let_def
proof (rule session_reply[OF w _ _ dispatch_on_session(18)])
  let ?s = "d_session d" and ?fn = "''duplicate_workspace''" and ?L = "c_libs c"
  let ?p = "JObj ([(''source_workspace_idx'', jnat i)] @ opt_entry ''new_name'' JStr nm)"
  let ?rq = "wire_request rd ?fn ?p"
  let ?h = "handle_duplicate_workspace ?L ?rq ?s"
  obtain r s' where dw: "duplicate_workspace i nm default_size ?s = (r, s')" by fastforce
  have h: "?h = (case r of
      Inr (u, k, dts) \<Rightarrow> success (Some (jnat 1))
        (JObj [(''workspace_id'', juuid ?L u), (''workspace_idx'', jnat k),
               (''tabs'', JArr (map (duplicated_json ?L) dts))])
    | Inl e \<Rightarrow> internal ?rq ''duplicate_workspace failed: {e}'' e, s')"
    using dw by (auto simp: handle_duplicate_workspace_def param_defs opt_entry_def split: sum.split option.split)
  have k: "k < 2 ^ 64" if "r = Inr (u, k, dts)" for u k dts
    using duplicate_index dw small that by (metis le_less_trans)
  show "result_ok (fst ?h)" "no_data (fst ?h)"
    unfolding h using k by (auto simp: duplicated_json_def split: sum.split)
  show "outcome_of (\<lambda>(u, k, dts). ADuplicate u k (map (\<lambda>dt. (dt_tab_id dt, dt_pane_id dt)) dts))
      (duplicate_workspace i nm default_size ?s) =
    (answer rd (\<lambda>(u, k, ts). ADuplicate u k ts)
      (\<lambda>r. sum_bind (uuid_at ?L ?fn r ''workspace_id'') (\<lambda>u.
           sum_bind (nat_at ?fn r ''workspace_idx'') (\<lambda>k.
           sum_bind (array_at ?fn r ''tabs'') (\<lambda>es.
           sum_bind (sum_map (\<lambda>e. sum_bind (uuid_at ?L ?fn e ''tab_id'') (\<lambda>t.
                       sum_bind (uuid_at ?L ?fn e ''pane_id'') (\<lambda>p. Inr (t, p)))) es) (\<lambda>tabs.
             Inr (u, k, tabs)))))) (fst ?h), snd ?h)"
    unfolding h dw
    by (auto simp: outcome_of_def read_uuid[OF w] read_nat read_array read_duplicated[OF w]
        simp del: norm.simps split: sum.split)
qed (insert i, auto simp: session_methods_def opt_entry_def split: option.split)

lemma ratio_entry_sent:
  assumes w: "wire_ok L rd" and v: "\<forall>x. r = Finite x \<longrightarrow> f32_value x"
  shows "ratio_entry L (norm rd (JObj [(''pane_id'', juuid L p), (''ratio'', ratio_json r)])) =
    (if r \<in> range Finite then Some (p, r) else None)"
proof -
  have "param as_f64 (norm rd (JObj [(''pane_id'', juuid L p), (''ratio'', ratio_json r)])) ''ratio'' =
      (case r of Finite x \<Rightarrow> Some (rd x) | _ \<Rightarrow> None)"
    by (cases r) (simp_all add: param_def del: norm.simps(3))
  then show ?thesis
    using v wire_simps(4,5)[OF w] by (cases r) (auto simp: ratio_entry_def param_def juuid_def simp del: norm.simps(3))
qed

lemma ratios_sent:
  assumes w: "wire_ok L rd" and v: "\<forall>(p, r) \<in> set rs. \<forall>x. r = Finite x \<longrightarrow> f32_value x"
  shows "List.map_filter (ratio_entry L) (map (norm rd)
      (map (\<lambda>(p, r). JObj [(''pane_id'', juuid L p), (''ratio'', ratio_json r)]) rs)) =
    [(p, r) \<leftarrow> rs. r \<in> range Finite]"
  using v
proof (induction rs)
  case (Cons a rs)
  obtain p r where a: "a = (p, r)" by fastforce
  then have "\<forall>x. r = Finite x \<longrightarrow> f32_value x" using Cons.prems by auto
  then show ?case
    using Cons ratio_entry_sent[OF w, of r p] a by (auto simp: map_filter_simps simp del: norm.simps)
qed (simp add: map_filter_simps)

lemma agrees_update_ratios:
  assumes w: "wire_ok (c_libs c) rd" and v: "call_ok (CUpdateRatios rs)"
  shows "agrees c render n d (CUpdateRatios rs)"
  unfolding agrees_def perform.simps session_call.simps dc_update_split_ratios_def
proof (rule session_reply[OF w _ _ dispatch_on_session(14)])
  let ?es = "map (\<lambda>(p, r). JObj [(''pane_id'', juuid (c_libs c) p), (''ratio'', ratio_json r)]) rs"
  let ?rq = "wire_request rd ''update_split_ratios'' (JObj [(''ratios'', JArr ?es)])"
  let ?h = "handle_update_split_ratios (c_libs c) ?rq (d_session d)"
  have "json_ok (ratio_json r)" if "(p, r) \<in> set rs" for p r
    using v that by (cases r) auto
  then show "json_ok (JObj [(''ratios'', JArr ?es)])" by auto
  have es: "param as_array (rq_params ?rq) ''ratios'' = Some (map (norm rd) ?es)"
    by (simp add: param_def del: map_map norm.simps)
  have h: "?h = (ok_response ?rq, update_split_ratios [(p, r) \<leftarrow> rs. r \<in> range Finite] (d_session d))"
    using ratios_sent[OF w, of rs] v unfolding handle_update_split_ratios_def es by (simp del: map_map norm.simps)
  show "result_ok (fst ?h)" "no_data (fst ?h)"
    "(Some ADone, update_split_ratios [(p, r) \<leftarrow> rs. r \<in> range Finite] (d_session d)) =
      (answer rd (\<lambda>_. ADone) ignore (fst ?h), snd ?h)"
    unfolding h by simp_all
qed (simp add: session_methods_def)

text \<open>
  C18: the window drives the session: whatever the window asks the daemon for over the socket
  (new tabs, splits, closing, moving, renaming, focus, sizes, input, ratios) is one call of the
  session manager with exactly the arguments the window gave, and the window is told exactly
  what that call returned, or that it failed; nothing else of the daemon changes.
\<close>

theorem window_drives_session:
  assumes "wire_ok (c_libs c) rd" "call_ok call" "ws_count (d_session d) < 2 ^ 64"
    and "session_call (c_libs c) call (d_session d) = (a, s')"
  shows "perform (c_libs c) (daemon_peer c render n) call d = (a, d\<lparr>d_session := s'\<rparr>)"
proof -
  have "agrees c render n d call"
    using assms(2,3) agrees_workspace_calls[OF assms(1)] agrees_unit_calls[OF assms(1)]
      agrees_other_calls[OF assms(1)] agrees_pane_calls[OF assms(1)] agrees_new_tab[OF assms(1)]
      agrees_split_pane[OF assms(1)] agrees_create_workspace[OF assms(1)]
      agrees_duplicate_workspace[OF assms(1)] agrees_update_ratios[OF assms(1)]
    by (cases call) (simp_all del: power_numeral)
  then show ?thesis using assms(4) by (simp add: agrees_def in_daemon_def)
qed

definition wire_config :: config where
  "wire_config = \<lparr>c_libs = unary_wire, c_codec = demo_codec, c_devices = demo_devices,
     c_session_id = None, c_now = 0\<rparr>"

theorem window_drives_session_witness:
  "perform unary_wire (daemon_peer wire_config (\<lambda>_. []) 1) (CFocusTab 103) demo_daemon =
     (Some ADone, demo_daemon\<lparr>d_session := snd (set_active_tab 0 0 demo_session)\<rparr>)"
proof -
  have "session_call unary_wire (CFocusTab 103) demo_session = (Some ADone, snd (set_active_tab 0 0 demo_session))"
    by (simp add: demo_session_def outcome_of_def set_active_tab_def ws_count_def)
  moreover have "ws_count demo_session < 2 ^ 64" by (simp add: demo_session_def ws_count_def)
  ultimately show ?thesis
    using window_drives_session[of wire_config id "CFocusTab 103" demo_daemon] wire_ok_unary
    by (simp add: wire_config_def demo_daemon_def del: session_call.simps perform.simps)
qed

subsection \<open>The layout the window reads\<close>

text \<open>The layout as the window keeps it; a ratio that is no number is shown as a half.\<close>

fun shown_ratio :: "f32 \<Rightarrow> f32" where
  "shown_ratio (Finite x) = Finite x" | "shown_ratio _ = Finite (1/2)"

fun shown_tree :: "pane_tree \<Rightarrow> pane_tree_node" where
  "shown_tree (Leaf p) = NodeLeaf p"
| "shown_tree (Split dir r a b) = NodeSplit dir (shown_ratio r) (shown_tree a) (shown_tree b)"

definition shown_tab :: "session_tab \<Rightarrow> tab_info" where
  "shown_tab t = \<lparr>ti_tab_id = tab_id t, ti_title = tab_title t, ti_pane_tree = shown_tree (tab_tree t),
     ti_active_pane_id = active_pane_id t\<rparr>"

definition shown_workspace :: "session_workspace \<Rightarrow> workspace_info" where
  "shown_workspace ws = \<lparr>wi_id = ws_id ws, wi_name = ws_name ws, wi_active_tab = ws_active_tab ws,
     wi_tabs = map shown_tab (ws_tabs ws), wi_color = ws_color ws\<rparr>"

definition shown_layout :: "session_layout \<Rightarrow> layout_info" where
  "shown_layout l = \<lparr>li_active_workspace = active_workspace l,
     li_workspaces = map shown_workspace (workspaces l)\<rparr>"

text \<open>Indices fit into 64 bits, ratios are values of their type.\<close>

fun tree_ok :: "pane_tree \<Rightarrow> bool" where
  "tree_ok (Leaf p) \<longleftrightarrow> True"
| "tree_ok (Split dir r a b) \<longleftrightarrow> (\<forall>x. r = Finite x \<longrightarrow> f32_value x) \<and> tree_ok a \<and> tree_ok b"

definition layout_fits :: "session_layout \<Rightarrow> bool" where
  "layout_fits l \<longleftrightarrow> active_workspace l < 2 ^ 64 \<and>
     (\<forall>ws \<in> set (workspaces l). ws_active_tab ws < 2 ^ 64 \<and> (\<forall>t \<in> set (ws_tabs ws). tree_ok (tab_tree t)))"

lemma ratio_json_ok: "(\<forall>x. r = Finite x \<longrightarrow> f32_value x) \<Longrightarrow> json_ok (ratio_json r)"
  by (cases r) auto

lemma tree_json_ok: "tree_ok t \<Longrightarrow> json_ok (tree_json L t)"
  by (induction t) (auto simp: ratio_json_ok)

lemma layout_json_ok: "layout_fits l \<Longrightarrow> json_ok (layout_json L l)"
  by (auto simp: layout_fits_def layout_json_def workspace_json_def tab_json_def tree_json_ok)

lemma ratio_read:
  assumes "wire_ok L rd" "\<forall>x. r = Finite x \<longrightarrow> f32_value x" "json_get j k = Some (ratio_json r)"
  shows "(case param as_f64 (norm rd j) k of Some x \<Rightarrow> f32_of_f64 x | None \<Rightarrow> Finite (1/2)) = shown_ratio r"
  using assms(2,3) wire_simps(4)[OF assms(1)] by (cases r) (simp_all add: param_def)

lemma tree_read:
  assumes w: "wire_ok L rd"
  shows "tree_ok t \<Longrightarrow> parse_pane_tree L (norm rd (tree_json L t)) = Inr (shown_tree t)"
proof (induction t)
  case (Leaf p)
  then show ?case
    by (subst parse_pane_tree.simps) (simp add: read_uuid[OF w] del: norm.simps)
next
  case (Split dir r a b)
  let ?j = "JObj [(''direction'', JStr dir), (''ratio'', ratio_json r), (''first'', tree_json L a),
    (''second'', tree_json L b)]"
  have "(case param as_f64 (norm rd ?j) ''ratio'' of Some x \<Rightarrow> f32_of_f64 x | None \<Rightarrow> Finite (1/2)) = shown_ratio r"
    by (rule ratio_read[OF w]) (use Split.prems in auto)
  moreover have "parse_pane_tree L (norm rd (tree_json L (Split dir r a b))) =
      Inr (NodeSplit dir (case param as_f64 (norm rd ?j) ''ratio'' of Some x \<Rightarrow> f32_of_f64 x | None \<Rightarrow> Finite (1/2))
        (shown_tree a) (shown_tree b))"
    using Split by (subst parse_pane_tree.simps) (simp add: param_def Let_def del: norm.simps)
  ultimately show ?case by simp
qed

lemma sum_map_read: "(\<forall>x \<in> set xs. f (g x) = Inr (h x)) \<Longrightarrow> sum_map f (map g xs) = Inr (map h xs)"
  by (induction xs) auto

lemma tab_read:
  assumes w: "wire_ok L rd" and t: "tree_ok (tab_tree t)"
  shows "read_tab L (norm rd (tab_json L t)) = Inr (shown_tab t)"
proof -
  have "Option.bind (param as_str (norm rd (tab_json L t)) ''active_pane_id'') (uuid_parse L) = active_pane_id t"
    using wire_simps(5)[OF w] by (cases "active_pane_id t") (simp_all add: param_def tab_json_def juuid_def del: norm.simps)
  moreover have "str_or_empty (norm rd (tab_json L t)) ''title'' = tab_title t"
    by (simp add: str_or_empty_def tab_json_def param_def del: norm.simps)
  ultimately show ?thesis
    using tree_read[OF w t] by (simp add: read_tab_def shown_tab_def tab_json_def read_uuid[OF w] del: norm.simps)
qed

lemma workspace_read:
  assumes w: "wire_ok L rd" and t: "\<forall>t \<in> set (ws_tabs ws). tree_ok (tab_tree t)"
  shows "read_workspace L (norm rd (workspace_json L ws)) = Inr (shown_workspace ws)"
proof -
  have "sum_map (read_tab L) (map (norm rd \<circ> tab_json L) (ws_tabs ws)) = Inr (map shown_tab (ws_tabs ws))"
    by (rule sum_map_read) (simp add: tab_read[OF w] t)
  then show ?thesis
    by (simp add: read_workspace_def shown_workspace_def workspace_json_def read_uuid[OF w] read_array
        str_or_empty_def nat_or_def param_def norm_opt_str del: norm.simps norm_simps(3))
qed



end
