(* ===== verification/ClientStreams.thy ===== *)
theory ClientStreams
  imports ClientProps ServerProps
begin

section \<open>The streams in the window\<close>

subsection \<open>Frames\<close>

text \<open>The reader of the window and the codec of the server are two implementations.\<close>

lemma deliver_frames_agree: "deliver_frames None r = [p \<leftarrow> fst (read_frames r). p \<noteq> []]"
proof (induction "length r" arbitrary: r rule: less_induct)
  case less
  show ?case
  proof (cases "read_exact 4 r")
    case (Pair x r1)
    show ?thesis
    proof (cases x)
      case (Inl e)
      then show ?thesis
        using Pair by (simp add: deliver_frames.simps[of None r] read_frames.simps[of r] read_frame_def)
    next
      case (Inr buf)
      then have shorter: "length r1 < length r"
        using Pair by (auto simp: read_exact_def split: if_splits)
      let ?len = "unat (from_be_bytes buf)"
      consider "?len > MAX_FRAME_SIZE" | "?len = 0" | "0 < ?len" "?len \<le> MAX_FRAME_SIZE" by linarith
      then show ?thesis
      proof cases
        case 3
        obtain y r2 where y: "read_exact ?len r1 = (y, r2)" by fastforce
        have two: "length payload = ?len" "length r2 < length r" if "y = Inr payload" for payload
          using y shorter 3 that by (auto simp: read_exact_def split: if_splits)
        show ?thesis
          using Pair Inr 3 y two less[of r2]
          by (cases y) (auto simp: deliver_frames.simps[of None r] read_frames.simps[of r] read_frame_def
              Let_def split: prod.split)
      qed (use Pair Inr less[OF shorter] in \<open>auto simp: deliver_frames.simps[of None r] read_frames.simps[of r]
          read_frame_def Let_def split: prod.split\<close>)
    qed
  qed
qed

lemma concat_nonempty: "concat [p \<leftarrow> ps. p \<noteq> []] = concat ps"
  by (induction ps) auto

text \<open>
  The window's own reader of frames agrees with the codec of the server on every sequence
  of bytes a connection can carry: it delivers the payloads the codec reads, in order and up to
  the same place, leaving out only the empty ones, and ends every stream with one end mark.
\<close>

theorem window_frames_agree:
  "subscribe_output_task L None ack r =
     (if ack \<noteq> [] \<and> ack_accepted L ack then map Data [p \<leftarrow> fst (read_frames r). p \<noteq> []] else []) @ [StreamEnded]"
  by (simp add: subscribe_output_task_def subscribe_output_inner_def deliver_frames_agree)

theorem window_frames_agree_witness:
  "subscribe_output_task unary_wire None [] [1, 2, 3] = [StreamEnded]"
  using window_frames_agree[of unary_wire "[]" "[1, 2, 3]"] by simp

text \<open>What the terminal of the window is fed with.\<close>

fun fed :: "output_message list \<Rightarrow> byte list" where
  "fed [] = []"
| "fed (Data bs # ms) = bs @ fed ms"
| "fed (StreamEnded # ms) = fed ms"

lemma fed_task:
  "fed (subscribe_output_task L None ack r) =
     (if ack \<noteq> [] \<and> ack_accepted L ack then concat (fst (read_frames r)) else [])"
proof -
  have "fed (map Data ps @ [StreamEnded]) = concat ps" for ps by (induction ps) auto
  then show ?thesis
    by (simp add: subscribe_output_task_def subscribe_output_inner_def deliver_frames_agree concat_nonempty)
qed

lemma ack_of_ok:
  assumes "wire_ok L rd" "rq_id rq = Some (jnat 1)"
  shows "line_of L (response_json render (ok_response rq)) \<noteq> [] \<and>
    ack_accepted L (line_of L (response_json render (ok_response rq)))"
proof -
  let ?j = "response_json render (ok_response rq)"
  have "json_ok ?j"
    using assms(2) by (simp add: response_json_def ok_response_def success_def ok_json_def)
  moreover have "json_get ?j ''error'' = None"
    by (simp add: response_json_def ok_response_def success_def)
  ultimately show ?thesis
    using wire_simps(1)[OF assms(1)] by (simp add: ack_accepted_def line_of_def del: json_get.simps)
qed

lemma subscribe_line_accepted:
  assumes "wire_ok (c_libs c) rd" "pane_info_of p (d_session d) \<noteq> None"
    and "subscribe_with_snapshot p (d_session d) = (rx, replay, hwm)"
  shows "\<exists>rq. rq_id rq = Some (jnat 1) \<and>
    handle_line c n (line_of (c_libs c) (request_json ''subscribe_output'' (JObj [(''pane_id'', juuid (c_libs c) p)]))) d =
      StreamOutput (ok_response rq) p rx replay"
proof -
  let ?p = "JObj [(''pane_id'', juuid (c_libs c) p)]"
  have "json_ok ?p" by simp
  note ws = wire_simps(2,3)[OF assms(1) this, of "''subscribe_output''"]
  show ?thesis
    using assms(2,3) ws wire_simps(5)[OF assms(1), of p]
    by (intro exI[of _ "wire_request rd ''subscribe_output'' ?p"])
      (simp add: handle_line_def Let_def parse_def wire_request_def subscribe_output_line_def param_defs)
qed



subsection \<open>Layout events\<close>

text \<open>What the window makes of an event of the session; two kinds are forwarded but not known to it.\<close>

fun event_told :: "session_event \<Rightarrow> layout_event option" where
  "event_told (TabCreated i t p) = Some (LTabCreated i t p)"
| "event_told (TabClosed i t) = Some (LTabClosed i t)"
| "event_told (PaneSplit t p n dir) = Some (LPaneSplit t p n dir)"
| "event_told (TabMoved i t k) = Some (LTabMoved i t k)"
| "event_told (ActiveTabChanged i j) = Some (LActiveTabChanged i j)"
| "event_told (WorkspaceRenamed i u n) = Some (LWorkspaceRenamed i u n)"
| "event_told (WorkspaceDeleted i u) = Some (LWorkspaceDeleted i u)"
| "event_told (WorkspaceColorChanged i u cl) = Some (LWorkspaceColorChanged i u cl)"
| "event_told (WorkspacesReordered i j u v) = Some (LWorkspacesReordered i j u v)"
| "event_told (ActivePaneChanged i t p) = Some (LActivePaneChanged i t p)"
| "event_told _ = None"

fun event_fits :: "session_event \<Rightarrow> bool" where
  "event_fits (TabCreated i t p) \<longleftrightarrow> i < 2 ^ 64"
| "event_fits (TabClosed i t) \<longleftrightarrow> i < 2 ^ 64"
| "event_fits (TabMoved i t k) \<longleftrightarrow> i < 2 ^ 64 \<and> k < 2 ^ 64"
| "event_fits (ActiveTabChanged i j) \<longleftrightarrow> i < 2 ^ 64 \<and> j < 2 ^ 64"
| "event_fits (ActiveWorkspaceChanged i) \<longleftrightarrow> i < 2 ^ 64"
| "event_fits (WorkspaceCreated i u n) \<longleftrightarrow> i < 2 ^ 64"
| "event_fits (WorkspaceRenamed i u n) \<longleftrightarrow> i < 2 ^ 64"
| "event_fits (WorkspaceDeleted i u) \<longleftrightarrow> i < 2 ^ 64"
| "event_fits (WorkspaceColorChanged i u cl) \<longleftrightarrow> i < 2 ^ 64"
| "event_fits (WorkspacesReordered i j u v) \<longleftrightarrow> i < 2 ^ 64 \<and> j < 2 ^ 64"
| "event_fits (ActivePaneChanged i t p) \<longleftrightarrow> i < 2 ^ 64"
| "event_fits _ \<longleftrightarrow> True"

lemma notification_ok: "event_fits e \<Longrightarrow> layout_notification L e = Some j \<Longrightarrow> json_ok j"
  by (cases e) (auto simp: notification_def)

lemma notification_parts:
  "json_get (notification m kvs) ''method'' = Some (JStr m)"
  "json_get (notification m kvs) ''params'' = Some (JObj kvs)"
  by (simp_all add: notification_def)

lemma norm_leaf: "norm rd JNull = id JNull" "norm rd (JStr s) = id (JStr s)"
  by simp_all

lemma notification_read:
  assumes w: "wire_ok L rd" and j: "layout_notification L e = Some j"
  shows "parse_layout_event L (norm rd j) = event_told e"
proof (cases e)
  case (ActivePaneChanged i t q)
  then show ?thesis
    using j wire_simps(5)[OF w]
    by (cases q) (auto simp: parse_layout_event_def notification_parts nat_or_def uuid_in_def str_or_empty_def
        param_def juuid_def jnat_def Let_def norm_leaf simp del: norm.simps norm_simps(3))
qed (use j wire_simps(5)[OF w] in \<open>auto simp: parse_layout_event_def notification_parts nat_or_def uuid_in_def
      str_or_empty_def param_def norm_opt_str Let_def simp del: norm.simps norm_simps(3)\<close>)

text \<open>
  C21: the window hears what the session announces: over the socket the layout stream gives
  the window, in order and each once, every event of the session since it subscribed that it has a
  kind for, with the same indices and ids; a new workspace and a change of the active workspace
  are forwarded by the daemon but the window has no kind for them and passes them over.
\<close>

theorem window_hears_layout_events:
  assumes "wire_ok (c_libs c) rd" and "rq_id rq = Some (jnat 1)" and "channel_ok recv"
    and "rx \<le> length evs" and "length evs \<le> rx + BROADCAST_CAPACITY"
    and "\<forall>e \<in> set (drop rx evs). event_fits e"
    and "stream = (layout_turn (c_libs c) recv ArmRecv evs ^^ (length evs - rx)) (open_layout rx None)"
  shows "subscribe_layout_task (c_libs c)
      (line_of (c_libs c) (response_json render (ok_response rq)) # map (line_of (c_libs c)) (ls_sent stream)) =
    List.map_filter event_told (drop rx evs)"
proof -
  let ?L = "c_libs c"
  have one: "layout_event_of_line ?L (line_of ?L j) = event_told e"
    if "event_fits e" "layout_notification ?L e = Some j" for e j
    using wire_simps(1,7)[OF assms(1) notification_ok[OF that]] notification_read[OF assms(1) that(2)] that
    by (auto simp: layout_event_of_line_def Let_def)
  have none: "layout_notification ?L e = None \<Longrightarrow> event_told e = None" for e by (cases e) auto
  have "List.map_filter (layout_event_of_line ?L) (map (line_of ?L) (List.map_filter (layout_notification ?L) es)) =
      List.map_filter event_told es" if "\<forall>e \<in> set es. event_fits e" for es
    using that by (induction es) (auto simp: map_filter_simps one none split: option.split)
  then show ?thesis
    using layout_turns[OF assms(3-5) order.refl] ack_of_ok[OF assms(1,2), of render] assms(6,7)
    by (simp add: subscribe_layout_task_def)
qed

theorem window_hears_layout_events_witness:
  "subscribe_layout_task unary_wire
     (line_of unary_wire (response_json (\<lambda>_. []) (ok_response (wire_request id ''subscribe_layout'' JNull))) #
      map (line_of unary_wire) (ls_sent ((layout_turn unary_wire demo_channel ArmRecv (events demo_session) ^^ 3)
        (open_layout 0 None)))) = [LTabCreated 0 103 102]"
proof -
  have "\<forall>e \<in> set (drop 0 (events demo_session)). event_fits e" by (simp add: demo_session_def)
  moreover have "List.map_filter event_told (events demo_session) = [LTabCreated 0 103 102]"
    by (simp add: demo_session_def map_filter_simps)
  ultimately show ?thesis
    using window_hears_layout_events[of wire_config id "wire_request id ''subscribe_layout'' JNull"
        demo_channel 0 "events demo_session" _ "\<lambda>_. []", OF _ _ demo_channel_ok _ _ _ refl] wire_ok_unary
    by (simp add: wire_config_def demo_events BROADCAST_CAPACITY_def del: funpow.simps)
qed

end
