(* ===== verification/LayoutEvents.thy ===== *)
theory LayoutEvents
  imports Server SessionProps HandlerProps
begin

section \<open>The layout from its events\<close>

text \<open>
  A client of \<open>subscribe_layout\<close> holds a copy of the layout and changes it as the notifications
  tell. This theory says which session operations keep such a copy exact: \<open>apply_event\<close> is what
  one event says about the layout, and an operation \<open>tracks\<close> the layout when its events, applied
  in order to the layout before, give the layout after.
\<close>

definition close_tab_in_ws :: "uuid \<Rightarrow> session_workspace \<Rightarrow> session_workspace" where
  "close_tab_in_ws t ws = clamp_active_tab (ws\<lparr>ws_tabs := [u \<leftarrow> ws_tabs ws. tab_id u \<noteq> t]\<rparr>)"

definition move_tab_to :: "uuid \<Rightarrow> nat \<Rightarrow> session_workspace \<Rightarrow> session_workspace" where
  "move_tab_to t k ws =
     (case position (\<lambda>u. tab_id u = t) (ws_tabs ws) of
        Some c \<Rightarrow> move_tab_in_ws c k ws
      | None \<Rightarrow> ws)"

definition focus_pane_in_ws :: "uuid \<Rightarrow> pane_id option \<Rightarrow> session_workspace \<Rightarrow> session_workspace" where
  "focus_pane_in_ws t p ws =
     (case position (\<lambda>u. tab_id u = t) (ws_tabs ws) of
        Some j \<Rightarrow> ws\<lparr>ws_tabs := modify_at j (\<lambda>u. u\<lparr>active_pane_id := p\<rparr>) (ws_tabs ws)\<rparr>
      | None \<Rightarrow> ws)"

definition new_workspace :: "uuid \<Rightarrow> string \<Rightarrow> session_workspace" where
  "new_workspace u n =
     \<lparr>ws_id = u, ws_name = n, ws_tabs = [], ws_active_tab = 0, ws_color = None\<rparr>"

fun apply_event :: "session_event \<Rightarrow> session_layout \<Rightarrow> session_layout" where
  "apply_event (TabCreated i t p) l = modify_layout_ws i (push_tab (new_tab_record t p)) l"
| "apply_event (TabClosed i t) l = modify_layout_ws i (close_tab_in_ws t) l"
| "apply_event (PaneSplit t p n d) l =
     l\<lparr>workspaces := snd (split_in_workspaces p n d (Finite (1/2)) (workspaces l))\<rparr>"
| "apply_event (TabMoved i t k) l = modify_layout_ws i (move_tab_to t k) l"
| "apply_event (ActiveTabChanged i j) l = modify_layout_ws i (\<lambda>ws. ws\<lparr>ws_active_tab := j\<rparr>) l"
| "apply_event (ActiveWorkspaceChanged i) l = l\<lparr>active_workspace := i\<rparr>"
| "apply_event (WorkspaceCreated i u n) l =
     \<lparr>workspaces = vec_insert i (new_workspace u n) (workspaces l),
      active_workspace = (if active_workspace l \<ge> i then active_workspace l + 1 else active_workspace l)\<rparr>"
| "apply_event (WorkspaceRenamed i u n) l = modify_layout_ws i (\<lambda>ws. ws\<lparr>ws_name := n\<rparr>) l"
| "apply_event (WorkspaceDeleted i u) l =
     \<lparr>workspaces = vec_remove i (workspaces l),
      active_workspace = active_after_delete i (length (workspaces l) - 1) (active_workspace l)\<rparr>"
| "apply_event (WorkspaceColorChanged i u c) l = modify_layout_ws i (\<lambda>ws. ws\<lparr>ws_color := c\<rparr>) l"
| "apply_event (WorkspacesReordered i j u v) l =
     \<lparr>workspaces = vec_swap i j (workspaces l),
      active_workspace = (if active_workspace l = i then j
                          else if active_workspace l = j then i else active_workspace l)\<rparr>"
| "apply_event (ActivePaneChanged i t p) l = modify_layout_ws i (focus_pane_in_ws t p) l"
| "apply_event (PtyOutput p data) l = l"
| "apply_event (PaneCreated p) l = l"
| "apply_event (PaneClosed p) l = l"

definition tracks :: "session \<Rightarrow> session \<Rightarrow> bool" where
  "tracks s s' \<longleftrightarrow> (\<exists>new. events s' = events s @ new \<and> layout s' = fold apply_event new (layout s))"

lemma tracksI: "events s' = events s @ new \<Longrightarrow> layout s' = fold apply_event new (layout s) \<Longrightarrow> tracks s s'"
  unfolding tracks_def by blast

lemma tracks_refl [simp]: "tracks s s"
  by (rule tracksI[of _ _ "[]"]) simp_all

lemma tracks_trans: "tracks s t \<Longrightarrow> tracks t u \<Longrightarrow> tracks s u"
  unfolding tracks_def by (metis append.assoc comp_apply fold_append)

lemma tracks_same: "events s' = events s \<Longrightarrow> layout s' = layout s \<Longrightarrow> tracks s s'"
  by (rule tracksI[of _ _ "[]"]) simp_all

lemma tracks_cong: "events s = events t \<Longrightarrow> layout s = layout t \<Longrightarrow> tracks s u = tracks t u"
  unfolding tracks_def by simp

lemma modify_layout_comp:
  "modify_layout_ws i g (modify_layout_ws i f l) = modify_layout_ws i (g \<circ> f) l"
  by (simp add: modify_layout_ws_def modify_at_def)

lemma modify_layout_cong:
  "(i < length (workspaces l) \<Longrightarrow> f (workspaces l ! i) = g (workspaces l ! i)) \<Longrightarrow>
     modify_layout_ws i f l = modify_layout_ws i g l"
  by (auto simp: modify_layout_ws_def modify_at_def)

subsection \<open>The operations on workspaces\<close>

lemma tracks_workspace_ops:
  "tracks s (snd (rename_workspace i n s))" "tracks s (snd (set_workspace_color i c s))"
  "tracks s (snd (set_active_tab i j s))" "tracks s (snd (set_active_workspace i s))"
  by (auto simp: rename_workspace_def set_workspace_color_def set_active_tab_def set_active_workspace_def
      Let_def intro!: tracksI)

lemma tracks_move_workspace: "tracks s (snd (move_workspace i j s))"
  by (auto simp: move_workspace_def Let_def intro!: tracksI)

lemma tracks_set_active_pane: "tracks s (snd (set_active_pane i t p s))"
  by (auto simp: set_active_pane_def Let_def focus_pane_in_ws_def split: option.splits
      intro!: tracksI modify_layout_cong)

lemma tracks_create_workspace:
  assumes "sinv X D s" shows "tracks s (snd (create_workspace n s))"
proof -
  obtain u s1 where nu: "new_uuid s = (u, s1)" by fastforce
  have "active_workspace (layout s) < length (workspaces (layout s))"
    using invD(1)[OF assms] by (simp add: layout_ok_def)
  then show ?thesis
    using nu new_uuid_fields[OF nu] vec_insert_append[of "workspaces (layout s)" _ "[]"]
    by (auto simp: create_workspace_def Let_def new_workspace_def ws_count_def intro!: tracksI)
qed

lemma tracks_delete_workspace: "tracks s (snd (delete_workspace i s))"
proof (cases "i < ws_count s \<and> 1 < ws_count s")
  case True
  let ?ws = "workspaces (layout s) ! i"
  have idle: "fold apply_event (map PaneClosed ps) l = l" for ps l
    by (induction ps) simp_all
  show ?thesis
    by (rule tracksI[of _ _ "map PaneClosed (ws_leaves ?ws) @ [WorkspaceDeleted i (ws_id ?ws)]"])
      (use delete_workspace_ok(2)[of i s] True in \<open>simp_all add: delete_panes_effect idle ws_count_def\<close>)
qed (auto simp: delete_workspace_def)

subsection \<open>The operations on tabs and panes\<close>

lemma tracks_create_tab_with_pane_id: "tracks s (snd (create_tab_with_pane_id i c sz cmd p s))"
proof -
  obtain rb s1 where sp: "pty_bridge_spawn sz c cmd None True s = (rb, s1)" by fastforce
  note f1 = spawn_fields[OF sp]
  show ?thesis
  proof (cases rb)
    case (Inl e)
    then show ?thesis using sp f1 by (auto simp: create_tab_with_pane_id_def intro!: tracks_same)
  next
    case (Inr b)
    define s2 where "s2 = push_order p (insert_pane p (new_pane_state p b
      (case c of Some c \<Rightarrow> c | None \<Rightarrow> home_dir_fallback s1) sz) s1)"
    obtain tid s3 where nu: "new_uuid s2 = (tid, s3)" by fastforce
    have "layout s3 = layout s" "events s3 = events s"
      using new_uuid_fields[OF nu] f1 by (simp_all add: s2_def)
    then show ?thesis
      using sp Inr nu by (auto simp: create_tab_with_pane_id_def Let_def s2_def
          intro!: tracksI[of _ _ "[PaneCreated p, TabCreated i tid p]"])
  qed
qed

lemma tracks_create_tab: "tracks s (snd (create_tab i c sz cmd s))"
proof -
  obtain p s1 where nu: "new_uuid s = (p, s1)" by fastforce
  show ?thesis
    using tracks_create_tab_with_pane_id[of s1 i c sz cmd p] new_uuid_fields[OF nu] nu
    by (simp add: create_tab_def tracks_cong[of s1 s])
qed

lemma tracks_split_body: "tracks s (snd (split_pane_body fn p d (Finite (1/2)) sz c n s))"
proof -
  obtain rb s1 where sp: "pty_bridge_spawn sz c None None True s = (rb, s1)" by fastforce
  note f1 = spawn_fields[OF sp]
  show ?thesis
  proof (cases rb)
    case (Inl e)
    then show ?thesis using sp f1 by (auto simp: split_pane_body_def intro!: tracks_same)
  next
    case (Inr b)
    obtain found wss where spl: "split_in_workspaces p n d (Finite (1/2)) (workspaces (layout s)) = (found, wss)"
      by fastforce
    show ?thesis
    proof (cases found)
      case None
      then have "wss = workspaces (layout s)" using split_in_workspaces_None spl by blast
      then show ?thesis
        using sp Inr None spl f1 by (auto simp: split_pane_body_def Let_def intro!: tracks_same)
    next
      case (Some tid)
      then show ?thesis
        using sp Inr spl f1 by (auto simp: split_pane_body_def Let_def
            intro!: tracksI[of _ _ "[PaneCreated n, PaneSplit tid p n d]"])
    qed
  qed
qed

lemma tracks_splits:
  "tracks s (snd (split_pane p d sz c s))"
  "tracks s (snd (split_pane_with_ratio_and_pane_id p d (Finite (1/2)) sz c n s))"
  "tracks s (snd (split_pane_with_ratio p d (Finite (1/2)) sz c s))"
proof -
  obtain u s1 where nu: "new_uuid s = (u, s1)" by fastforce
  have same: "tracks s1 t = tracks s t" for t
    using new_uuid_fields[OF nu] by (intro tracks_cong)
  show "tracks s (snd (split_pane p d sz c s))"
    using tracks_split_body[of s1 "''split_pane''" p d sz c u] nu by (simp add: split_pane_def same)
  show ratio: "tracks s (snd (split_pane_with_ratio_and_pane_id p d (Finite (1/2)) sz c n s))" for s n
    by (simp add: split_pane_with_ratio_and_pane_id_def tracks_split_body)
  show "tracks s (snd (split_pane_with_ratio p d (Finite (1/2)) sz c s))"
    using ratio[of s1 u] nu by (simp add: split_pane_with_ratio_def same)
qed

lemma filter_middle:
  assumes "distinct (map f (A @ x # B))"
  shows "[y \<leftarrow> A @ x # B. f y \<noteq> f x] = A @ B"
proof -
  have "f x \<notin> f ` (set A \<union> set B)" using assms by auto
  then have "\<forall>y \<in> set A \<union> set B. f y \<noteq> f x" by (metis image_eqI)
  then show ?thesis by (simp add: filter_id_conv)
qed

lemma filter_remove_nth:
  assumes "distinct (map f xs)" "j < length xs"
  shows "[x \<leftarrow> xs. f x \<noteq> f (xs ! j)] = vec_remove j xs"
proof -
  define A x B where "A = take j xs" and "x = xs ! j" and "B = drop (Suc j) xs"
  have xs: "xs = A @ x # B" "length A = j"
    using assms(2) by (simp_all add: A_def x_def B_def id_take_nth_drop[symmetric])
  have "[y \<leftarrow> xs. f y \<noteq> f x] = A @ B" using filter_middle[of f A x B] assms(1) xs(1) by simp
  moreover have "vec_remove j xs = A @ B" using vec_remove_append[of A x B] xs by simp
  ultimately show ?thesis by (simp add: x_def)
qed

lemma close_tab_in_ws_at:
  "distinct (map tab_id (ws_tabs ws)) \<Longrightarrow> j < length (ws_tabs ws) \<Longrightarrow>
     close_tab_in_ws (tab_id (ws_tabs ws ! j)) ws = remove_tab_at j ws"
  by (simp add: close_tab_in_ws_def remove_tab_at_def filter_remove_nth)

lemma position_of_id:
  assumes "distinct (map tab_id ts)" "c < length ts"
  shows "position (\<lambda>u. tab_id u = tab_id (ts ! c)) ts = Some c"
  using assms nth_eq_iff_index_eq[OF assms(1)] by (auto simp: position_Some_iff)

lemma tracks_move_tab:
  assumes "sinv X D s" shows "tracks s (snd (move_tab tid k s))"
proof (cases "find_tab tid (workspaces (layout s))")
  case None
  then show ?thesis by (simp add: move_tab_def)
next
  case (Some ic)
  obtain i c where ic: "find_tab tid (workspaces (layout s)) = Some (i, c)" using Some by (cases ic) auto
  note at = find_tab_Some[OF ic]
  have d: "distinct (map tab_id (ws_tabs (workspaces (layout s) ! i)))"
    using layout_ok_ws(3)[OF invD(1)[OF assms]] at by simp
  have "move_tab_to tid t (workspaces (layout s) ! i) = move_tab_in_ws c t (workspaces (layout s) ! i)" for t
    using position_of_id[OF d, of c] at by (simp add: move_tab_to_def)
  then show ?thesis
    using ic by (auto simp: move_tab_def Let_def intro!: tracksI modify_layout_cong)
qed

lemma tracks_seed_and_drain:
  assumes "ws_active_tab (workspaces (layout s) ! i) = 0" "i < ws_count s"
  shows "tracks s (seed_and_drain i s)"
proof -
  obtain rb s1 where sp: "pty_bridge_spawn default_size None None None True s = (rb, s1)" by fastforce
  note f1 = spawn_fields[OF sp]
  show ?thesis
  proof (cases rb)
    case (Inl e)
    then show ?thesis
      using assms sp f1 by (auto simp: seed_and_drain_def auto_seed_default_tab_def intro!: tracks_same)
  next
    case (Inr b)
    obtain p s2 where nu: "new_uuid s1 = (p, s2)" by fastforce
    obtain tid s4 where nu2: "new_uuid (push_order p (insert_pane p (new_pane_state p b
        (home_dir_fallback s2) default_size) s2)) = (tid, s4)" by fastforce
    note f2 = new_uuid_fields[OF nu] and f4 = new_uuid_fields[OF nu2]
    have "layout s4 = layout s" "events s4 = events s" using f1 f2 f4 by simp_all
    then show ?thesis
      using assms sp Inr nu nu2
      by (auto simp: seed_and_drain_def auto_seed_default_tab_def Let_def push_tab_def
          intro!: tracksI[of _ _ "[PaneCreated p, TabCreated i tid p]"] modify_layout_cong)
  qed
qed

lemma fold_apply_closed [simp]: "fold apply_event (map PaneClosed ps) l = l"
  by (induction ps) simp_all

lemma tracks_close_tab:
  assumes "sinv X D s" shows "tracks s (snd (close_tab tid s))"
proof (cases "find_tab tid (workspaces (layout s))")
  case None
  then show ?thesis by (simp add: close_tab_def)
next
  case (Some ij)
  obtain i j where ij: "find_tab tid (workspaces (layout s)) = Some (i, j)" using Some by (cases ij) auto
  note at = find_tab_Some[OF ij]
  define t where "t = ws_tabs (workspaces (layout s) ! i) ! j"
  define s4 where "s4 = send_event (TabClosed i tid)
     (fold close_pane_of_tab (leaves (tab_tree t)) (modify_ws i (remove_tab_at j) s))"
  have l4: "layout s4 = modify_layout_ws i (remove_tab_at j) (layout s)"
  proof -
    have "layout (fold close_pane_of_tab ps u) = layout u" for ps u
      by (induction ps arbitrary: u) simp_all
    then show ?thesis by (simp add: s4_def)
  qed
  note ok = layout_ok_ws[OF invD(1)[OF assms] conjunct1[OF at]]
  have eq: "close_tab_in_ws tid (workspaces (layout s) ! i) = remove_tab_at j (workspaces (layout s) ! i)"
    using close_tab_in_ws_at[OF ok(3), of j] at by simp
  have d: "distinct (leaves (tab_tree t))"
    using ok(2) at unfolding ws_leaves_def t_def
    by (metis distinct_concat_iff length_map nth_map nth_mem)
  have "layout s4 = apply_event (TabClosed i tid) (layout s)"
    using eq by (auto simp: l4 intro: modify_layout_cong)
  then have one: "tracks s s4"
    by (intro tracksI[of _ _ "map PaneClosed (filter (\<lambda>p. p \<in> dom (panes s)) (leaves (tab_tree t))) @
      [TabClosed i tid]"]) (simp_all add: s4_def close_panes_effect[OF d])
  have w4: "workspaces (layout s4) ! i = remove_tab_at j (workspaces (layout s) ! i)" "i < ws_count s4"
    using at by (auto simp: l4 modify_layout_ws_def modify_at_def ws_count_def)
  have "ws_tabs (workspaces (layout s4) ! i) = [] \<Longrightarrow> ws_active_tab (workspaces (layout s4) ! i) = 0"
    using remove_tab_at_props(1)[OF ok(1,2), of j] at by (auto simp: w4(1) ws_ok_def)
  then show ?thesis
    using close_tab_found[OF ij, folded t_def, folded s4_def] one w4(2)
      tracks_trans[OF one tracks_seed_and_drain] by auto
qed

subsection \<open>Duplicating a workspace\<close>

lemma dup_spawn_same:
  "dup_spawn sz n cwds sp s = (r, s') \<Longrightarrow> events s' = events s \<and> layout s' = layout s"
proof (induction cwds arbitrary: sp s)
  case (Cons cwd cwds)
  obtain p s1 where nu: "new_uuid s = (p, s1)" by fastforce
  obtain rb s2 where spw: "pty_bridge_spawn sz cwd None None True s1 = (rb, s2)" by fastforce
  note f = new_uuid_fields[OF nu] spawn_fields[OF spw]
  show ?case
    using Cons.prems nu spw f by (cases rb) (auto dest!: Cons.IH)
qed simp

definition dup_tab :: "duplicated_tab \<Rightarrow> session_tab" where
  "dup_tab dt = new_tab_record (dt_tab_id dt) (dt_pane_id dt)"

lemma dup_insert_panes_same:
  "dup_insert_panes sz sp s = (tabs, dts, s') \<Longrightarrow>
     events s' = events s \<and> layout s' = layout s \<and> tabs = map dup_tab dts"
proof (induction sp arbitrary: s tabs dts)
  case (Cons a sp)
  obtain p b cwd where a: "a = (p, b, cwd)" by (cases a) auto
  define s0 where "s0 = push_order p (insert_pane p (new_pane_state p b cwd sz) s)"
  obtain tid s1 where nu: "new_uuid s0 = (tid, s1)" by fastforce
  obtain tabs1 dts1 where r: "dup_insert_panes sz sp s1 = (tabs1, dts1, s')"
      "tabs = new_tab_record tid p # tabs1" "dts = \<lparr>dt_tab_id = tid, dt_pane_id = p\<rparr> # dts1"
    using Cons.prems nu a s0_def by (auto split: prod.splits)
  then show ?case
    using Cons.IH[OF r(1)] new_uuid_fields[OF nu] by (simp add: s0_def dup_tab_def)
qed simp

definition announcements :: "nat \<Rightarrow> duplicated_tab list \<Rightarrow> session_event list" where
  "announcements k dts =
     concat (map (\<lambda>dt. [PaneCreated (dt_pane_id dt), TabCreated k (dt_tab_id dt) (dt_pane_id dt)]) dts)"

lemma announce_events:
  "events (fold (dup_announce k) dts s) = events s @ announcements k dts"
  by (induction dts arbitrary: s) (simp_all add: announcements_def dup_announce_def)

lemma apply_announcements:
  "fold apply_event (announcements k dts) l =
     modify_layout_ws k (\<lambda>ws. ws\<lparr>ws_tabs := ws_tabs ws @ map dup_tab dts\<rparr>) l"
proof (induction dts arbitrary: l)
  case Nil
  then show ?case by (simp add: announcements_def modify_layout_ws_def modify_at_def)
next
  case (Cons dt dts)
  have "announcements k (dt # dts) =
      PaneCreated (dt_pane_id dt) # TabCreated k (dt_tab_id dt) (dt_pane_id dt) # announcements k dts"
    by (simp add: announcements_def)
  then show ?case
    using Cons by (simp add: modify_layout_comp comp_def push_tab_def dup_tab_def)
qed

lemma modify_at_insert: "k \<le> length xs \<Longrightarrow> modify_at k f (vec_insert k x xs) = vec_insert k (f x) xs"
  using vec_insert_append[of "take k xs"] modify_at_append[of "take k xs"]
  by (metis append_take_drop_id length_take min.absorb2)

lemma tracks_dup_commit:
  assumes "dup_commit name k u sz sp s = ((idx, dts), s')"
  shows "tracks s s'"
proof -
  obtain tabs dts' s1 where ins: "dup_insert_panes sz sp s = (tabs, dts', s1)" by (metis prod_cases3)
  note same = dup_insert_panes_same[OF ins]
  define k' where "k' = min k (ws_count s)"
  have k': "k' \<le> length (workspaces (layout s))" by (simp add: k'_def ws_count_def)
  show ?thesis
  proof (rule tracksI)
    show "events s' = events s @ (WorkspaceCreated k' u name # announcements k' dts')"
      using assms ins same by (auto simp: dup_commit_def Let_def k'_def announce_events)
    show "layout s' = fold apply_event (WorkspaceCreated k' u name # announcements k' dts') (layout s)"
      using assms ins same k'
      by (auto simp: dup_commit_def Let_def k'_def[symmetric] apply_announcements modify_layout_ws_def
          modify_at_insert new_workspace_def)
  qed
qed

lemma tracks_duplicate_workspace: "tracks s (snd (duplicate_workspace i name sz s))"
proof (cases "dup_snapshot i name s")
  case (Inl e)
  then show ?thesis by (simp add: duplicate_workspace_def)
next
  case (Inr snap)
  obtain nm k cwds where snap: "snap = (nm, k, cwds)" by (cases snap) auto
  obtain r1 s1 where sp: "dup_spawn sz (length cwds) cwds [] s = (r1, s1)" by fastforce
  note same = dup_spawn_same[OF sp]
  show ?thesis
  proof (cases r1)
    case (Inl e)
    then show ?thesis using Inr snap sp same by (auto simp: duplicate_workspace_def intro: tracks_same)
  next
    case (Inr sp')
    obtain u s2 where nu: "new_uuid s1 = (u, s2)" by fastforce
    obtain idx dts s3 where c: "dup_commit nm k u sz sp' s2 = ((idx, dts), s3)"
      by (metis prod.collapse)
    have "layout (fold (\<lambda>dt. spawn_drain_task (dt_pane_id dt)) ds t) = layout t"
      "events (fold (\<lambda>dt. spawn_drain_task (dt_pane_id dt)) ds t) = events t" for ds t
      by (induction ds arbitrary: t) simp_all
    then have "tracks s3 (snd (duplicate_workspace i name sz s))"
      using \<open>dup_snapshot i name s = Inr snap\<close> snap sp Inr nu c
      by (intro tracks_same) (simp_all add: duplicate_workspace_def)
    moreover have "tracks s s2" using same new_uuid_fields[OF nu] by (intro tracks_same) simp_all
    ultimately show ?thesis using tracks_dup_commit[OF c] tracks_trans by blast
  qed
qed

subsection \<open>Every announced operation\<close>

text \<open>
  The operations that are not: \<open>create_pane\<close> adds a tab and sends only \<open>PaneCreated\<close>;
  \<open>update_split_ratios\<close> sends nothing, and \<open>PaneSplit\<close> does not carry a ratio;
  \<open>close_pane\<close> may remove a tab and sends only \<open>PaneClosed\<close>.
\<close>

fun announced :: "session_op \<Rightarrow> bool" where
  "announced (OCreatePane sz cwd cmd sh login) = False"
| "announced (OUpdateSplitRatios us) = False"
| "announced (OClosePane p) = False"
| "announced (OSplitPaneWithRatio p d r sz c) = (r = Finite (1/2))"
| "announced (OSplitPaneWithRatioAndPaneId p d r sz c n) = (r = Finite (1/2))"
| "announced _ = True"

lemma tracks_quiet:
  "tracks s (set_pane_cwd p c s)" "tracks s (set_pinned b s)" "tracks s (set_byte_log_config k m s)"
  "tracks s (close_pane_byte_log p s)" "tracks s (snd (write_pty p d s))"
  "tracks s (snd (resize_pane p sz s))" "tracks s (snd (snapshot_to_workspace_state s))"
  "tracks s (send_sigint p s)" "tracks s (kill_all b ps s)"
proof -
  show "tracks s (kill_all b ps s)"
  proof -
    have "tracks s t \<Longrightarrow> tracks s (fold (\<lambda>p s. case panes s p of
        None \<Rightarrow> s | Some st \<Rightarrow> os_do (KillPty (pb_pty (ps_bridge st))) s) qs t)" for qs t
      by (induction qs arbitrary: t) (auto simp: tracks_def split: option.split)
    then show ?thesis by simp
  qed
qed (auto simp: set_pane_cwd_def set_pinned_def set_byte_log_config_def close_pane_byte_log_def
    write_pty_def resize_pane_def snapshot_to_workspace_state_def refresh_pane_cwds_def send_sigint_def
    Let_def split: option.splits intro!: tracks_same)

lemma tracks_exec_op: "sinv {} D s \<Longrightarrow> announced op \<Longrightarrow> tracks s (exec_op op s)"
  by (cases op) (simp_all add: tracks_workspace_ops tracks_move_workspace tracks_set_active_pane
      tracks_create_workspace tracks_delete_workspace tracks_create_tab_with_pane_id tracks_create_tab
      tracks_splits tracks_move_tab tracks_close_tab tracks_duplicate_workspace tracks_quiet
      del: kill_all.simps)

subsection \<open>A subscriber's copy\<close>

definition forwarded :: "libs \<Rightarrow> session_event \<Rightarrow> bool" where
  "forwarded L e \<longleftrightarrow> layout_notification L e \<noteq> None"

definition copy_after :: "libs \<Rightarrow> session \<Rightarrow> session \<Rightarrow> session_layout" where
  "copy_after L s s' =
     fold apply_event (filter (forwarded L) (drop (length (events s)) (events s'))) (layout s)"

lemma apply_forwarded: "fold apply_event (filter (forwarded L) es) l = fold apply_event es l"
proof (induction es arbitrary: l)
  case (Cons e es)
  then show ?case by (cases e) (simp_all add: forwarded_def)
qed simp

lemma tracks_copy: "tracks s s' \<Longrightarrow> copy_after L s s' = layout s'"
  unfolding tracks_def copy_after_def by (auto simp: apply_forwarded)

text \<open>
  A step of the session that a copy can follow: an announced operation, a turn of a drain task
  that does not end in closing a pane, a change of the world.
\<close>

fun told :: "session_label \<Rightarrow> session \<Rightarrow> session \<Rightarrow> bool" where
  "told (LOp op) s s' = announced op"
| "told (LDrain p c) s s' = (PaneClosed p \<notin> set (drop (length (events s)) (events s')))"
| "told LWorld s s' = True"

definition told_step :: "session \<Rightarrow> session_label \<Rightarrow> session \<Rightarrow> bool" where
  "told_step s l s' \<longleftrightarrow> session_step s l s' \<and> told l s s'"

lemma close_pane_announces:
  assumes "panes s p = Some st"
  shows "\<exists>es. events (snd (close_pane p s)) = events s @ PaneClosed p # es"
proof -
  have grows: "\<exists>es. events (seed_and_drain i t) = events t @ es" for i t
    using ext_seed_and_drain[OF ext_refl order.refl, of t i] by (auto simp: ext_def)
  have base: "events (close_pane_layout p s) = events s"
    by (simp add: close_pane_layout_def split: option.split)
  show ?thesis
    using grows by (auto simp: close_pane_registered[OF assms] base split: option.split)
      (metis append.assoc append_Cons append_Nil base unregister_fields(6) os_do_fields(6) send_event_fields(6))
qed

lemma tracks_told:
  assumes "sinv {} D s" "told_step s l s'"
  shows "tracks s s'"
proof -
  have st: "session_step s l s'" "told l s s'" using assms(2) by (auto simp: told_step_def)
  from st(1) show ?thesis
  proof cases
    case (step_op op)
    then show ?thesis using st(2) tracks_exec_op[OF assms(1)] by simp
  next
    case (step_world w')
    then show ?thesis by (auto intro: tracks_same)
  next
    case (step_drain p c)
    have no: "PaneClosed p \<notin> set (drop (length (events s)) (events s'))" using st(2) step_drain by simp
    have closing: "snd (close_pane p t) = t" if "PaneClosed p \<notin> set (drop (length (events t)) (events (snd (close_pane p t))))" for t
      using that close_pane_announces[of t p] by (cases "panes t p") (auto simp: close_pane_def)
    show ?thesis
    proof (cases c)
      case None
      then have "snd (close_pane p s) = s" using no step_drain by (intro closing) (simp add: drain_step_def)
      then show ?thesis using None step_drain by (auto simp: drain_step_def intro: tracks_same)
    next
      case (Some bs)
      obtain r s1 where pr: "process_pane_bytes p bs s = (r, s1)" by fastforce
      have ev: "events s1 = events s \<and> layout s1 = layout s \<or>
          events s1 = events s @ [PtyOutput p bs] \<and> layout s1 = layout s"
        using pr by (auto simp: process_pane_bytes_def Let_def split: option.splits)
      then have one: "tracks s s1" by (auto intro: tracks_same tracksI[of _ _ "[PtyOutput p bs]"])
      have "snd (close_pane p s1) = s1" if "r = Inr True"
      proof (rule closing)
        have "events s' = events (snd (close_pane p s1))" "length (events s) \<le> length (events s1)"
          using that step_drain Some pr ev by (auto simp: drain_step_def)
        then show "PaneClosed p \<notin> set (drop (length (events s1)) (events (snd (close_pane p s1))))"
          using no set_drop_subset_set_drop by fastforce
      qed
      then show ?thesis
        using one Some step_drain pr
        by (auto simp: drain_step_def tracks_def split: sum.split bool.split)
    qed
  qed
qed

lemma tracks_run:
  "steps told_step s ls s' \<Longrightarrow> sinv {} D s \<Longrightarrow> tracks s s'"
proof (induction arbitrary: D rule: steps.induct)
  case (steps_step s l s1 ls s')
  have "session_step s l s1" using steps_step.hyps(1) by (simp add: told_step_def)
  from inv_session_step[OF steps_step.prems this] steps_step.IH
  show ?case using tracks_told[OF steps_step.prems steps_step.hyps(1)] tracks_trans by blast
qed simp



text \<open>
  A shell that exits is not told: when the only pane of a tab closes and its workspace has
  another tab, the session drops the tab and sends \<open>PaneClosed\<close> only, which the layout stream does
  not forward; the copy of every subscriber keeps the tab.
\<close>

theorem shell_exit_not_told:
  assumes "sinv {} D s" and "panes s p = Some st"
    and "position (has_leaf_tab p) (workspaces (layout s)) = Some i"
    and "1 < length (ws_tabs (workspaces (layout s) ! i))"
  shows "copy_after L s (snd (close_pane p s)) = layout s \<and>
    p \<notin> set (layout_leaves (layout (snd (close_pane p s)))) \<and>
    p \<in> set (layout_leaves (layout s))"
proof -
  define s2 where "s2 = send_event (PaneClosed p) (os_do (KillPty (pb_pty (ps_bridge st)))
                  (unregister p (close_pane_layout p s)))"
  have i: "i < length (workspaces (layout s))" "has_leaf_tab p (workspaces (layout s) ! i)"
    using assms(3) by (auto simp: position_Some_iff)
  note ok = layout_ok_ws[OF invD(1)[OF assms(1)] i(1)]
  note dr = drop_leaf_tabs_props[OF ok i(2)]
  obtain A t B where AB: "ws_tabs (workspaces (layout s) ! i) = A @ t # B"
    "ws_tabs (drop_leaf_tabs p (workspaces (layout s) ! i)) = A @ B"
    using dr(8) by blast
  then have "ws_tabs (drop_leaf_tabs p (workspaces (layout s) ! i)) \<noteq> []" using assms(4) by auto
  then have s': "snd (close_pane p s) = s2"
    using assms(3) by (simp add: close_pane_registered[OF assms(2)] s2_def)
  have "events s2 = events s @ [PaneClosed p]"
    using assms(3) by (simp add: s2_def close_pane_layout_def)
  then have "copy_after L s s2 = layout s" by (simp add: copy_after_def forwarded_def)
  moreover have "p \<notin> set (layout_leaves (layout s2))"
    using close_pane_layout_inv(2)[OF assms(1), of p] assms(3) by (simp add: s2_def)
  moreover have "p \<in> set (layout_leaves (layout s))"
    using dr(5) ws_leaves_subset[OF i(1)] by auto
  ultimately show ?thesis by (simp add: s')
qed

definition two_tabs :: session where
  "two_tabs = exec_op (OCreateTab 0 None default_size None) demo_session"

theorem shell_exit_not_told_witness:
  "copy_after unary_libs two_tabs (snd (close_pane 102 two_tabs)) = layout two_tabs"
proof -
  have inv: "sinv {} {} two_tabs"
    using inv_exec_op[OF demo_inv, of "OCreateTab 0 None default_size None"] by (simp add: two_tabs_def)
  have "102 \<in> dom (panes two_tabs)" "position (has_leaf_tab 102) (workspaces (layout two_tabs)) = Some 0"
    "1 < length (ws_tabs (workspaces (layout two_tabs) ! 0))"
    by (simp_all add: two_tabs_def create_tab_def create_tab_with_pane_id_def demo_session_def new_uuid_def
        pty_bridge_spawn_def effective_command_def Let_def os_do_def insert_pane_def push_order_def
        ws_count_def has_leaf_tab_def modify_ws_def modify_at_def push_tab_def new_tab_record_def del: domIff)
  then show ?thesis using shell_exit_not_told[OF inv] by blast
qed

end
