(* ===== verification/Floats.thy ===== *)
theory Floats
  imports Protocol
begin

section \<open>Arithmetic in single precision\<close>

text \<open>
  The operators of \<open>f32\<close> the window computes with: each is the exact result rounded to the
  nearest value (\<open>f32_of_f64\<close> of \<open>Protocol\<close>), a cast to an integer truncates. Rounding is shown
  to be idempotent and to be off by at most one part in \<open>2 ^ 24\<close>.
\<close>

definition f32_of_int :: "int \<Rightarrow> f32" where
  "f32_of_int i = f32_of_f64 (of_int i)"

text \<open>Quotients and products of finite values, the only ones that occur.\<close>

definition f32_quot :: "f32 \<Rightarrow> f32 \<Rightarrow> f32" where
  "f32_quot x y = (case (x, y) of
     (Finite a, Finite b) \<Rightarrow> if b = 0 then NaN else f32_of_f64 (a / b) | _ \<Rightarrow> NaN)"

definition f32_prod :: "f32 \<Rightarrow> f32 \<Rightarrow> f32" where
  "f32_prod x y = (case (x, y) of (Finite a, Finite b) \<Rightarrow> f32_of_f64 (a * b) | _ \<Rightarrow> NaN)"

text \<open>The cast \<open>as i32\<close>: towards zero, saturating, and zero for NaN.\<close>

definition trunc_rat :: "rat \<Rightarrow> int" where
  "trunc_rat x = (if x \<ge> 0 then \<lfloor>x\<rfloor> else - \<lfloor>- x\<rfloor>)"

fun f32_as_i32 :: "f32 \<Rightarrow> int" where
  "f32_as_i32 (Finite x) = max (- (2 ^ 31)) (min (2 ^ 31 - 1) (trunc_rat x))"
| "f32_as_i32 PosInf = 2 ^ 31 - 1"
| "f32_as_i32 NegInf = - (2 ^ 31)"
| "f32_as_i32 NaN = 0"

subsection \<open>The exponent of a positive number\<close>

lemma powi_add: "(2::rat) powi (i + j) = 2 powi i * 2 powi j"
  by (rule power_int_add) simp

lemma powi_less: "(2::rat) powi i < 2 powi j \<longleftrightarrow> i < j"
  using power_int_strict_increasing[of i j "2::rat"] power_int_increasing[of j i "2::rat"]
  by (cases "i < j") (simp_all add: not_less)

lemma powi_le: "(2::rat) powi i \<le> 2 powi j \<longleftrightarrow> i \<le> j"
  using powi_less[of j i] by (simp add: linorder_not_less[symmetric])

lemma floorlog_rat:
  assumes "0 < n"
  shows "2 powi (int (floorlog 2 n) - 1) \<le> (of_nat n :: rat)" "(of_nat n :: rat) < 2 powi int (floorlog 2 n)"
proof -
  have b: "2 ^ (floorlog 2 n - 1) \<le> n" "n < 2 ^ floorlog 2 n" "0 < floorlog 2 n"
    using floorlog_bounds[of n 2] assms floorlog_eq_zero_iff[of 2 n] by auto
  have "(2::rat) powi (int (floorlog 2 n) - 1) = of_nat (2 ^ (floorlog 2 n - 1))"
    using b(3) by (simp add: power_int_def nat_diff_distrib)
  then show "2 powi (int (floorlog 2 n) - 1) \<le> (of_nat n :: rat)"
    using b(1) of_nat_mono by metis
  show "(of_nat n :: rat) < 2 powi int (floorlog 2 n)"
    using b(2) by (metis of_nat_less_iff of_nat_numeral of_nat_power power_int_of_nat)
qed

lemma exponent_of_bounds:
  assumes x: "0 < x"
  shows "2 powi exponent_of x \<le> x" "x < 2 powi (exponent_of x + 1)"
proof -
  obtain a b where q: "quotient_of x = (a, b)" by fastforce
  have b: "0 < b" using quotient_of_denom_pos[OF q] .
  have xq: "x = of_int a / of_int b" using quotient_of_div[OF q] .
  then have a: "0 < a" using x b by (simp add: zero_less_divide_iff)
  define m where "m = nat a"
  define n where "n = nat b"
  have mn: "0 < m" "0 < n" "x = of_nat m / of_nat n" using a b xq by (simp_all add: m_def n_def)
  define i where "i = int (floorlog 2 m)"
  define j where "j = int (floorlog 2 n)"
  note fm = floorlog_rat[OF mn(1), folded i_def] and fn = floorlog_rat[OF mn(2), folded j_def]
  have p: "(0::rat) < 2 powi k" for k by simp
  have up: "x < 2 powi (i - j + 1)"
  proof -
    have "x < 2 powi i / of_nat n" using fm(2) mn by (simp add: divide_strict_right_mono)
    also have "\<dots> \<le> 2 powi i / 2 powi (j - 1)" using fn(1) mn by (intro divide_left_mono) auto
    also have "\<dots> = 2 powi (i - (j - 1))" by (rule power_int_diff [symmetric]) simp
    finally show ?thesis by (simp add: algebra_simps)
  qed
  have low: "2 powi (i - j - 1) < x"
  proof -
    have "(2::rat) powi (i - 1 - j) = 2 powi (i - 1) / 2 powi j" by (rule power_int_diff) simp
    also have "\<dots> < 2 powi (i - 1) / of_nat n" using fn(2) mn by (intro divide_strict_left_mono) auto
    also have "\<dots> \<le> x" using fm(1) mn by (simp add: divide_right_mono)
    finally show ?thesis by (simp add: algebra_simps)
  qed
  have e: "exponent_of x = (if 2 powi (i - j) \<le> x then i - j else i - j - 1)"
    by (simp add: exponent_of_def q Let_def i_def j_def m_def n_def)
  show "2 powi exponent_of x \<le> x" using e low by (auto simp: less_imp_le)
  show "x < 2 powi (exponent_of x + 1)" using e up by auto
qed

lemma exponent_of_unique:
  assumes "2 powi e \<le> x" "x < 2 powi (e + 1)"
  shows "exponent_of x = e"
proof -
  have "(0::rat) < 2 powi e" by simp
  then have x: "0 < x" using assms(1) by linarith
  note b = exponent_of_bounds[OF x]
  have "2 powi e < (2::rat) powi (exponent_of x + 1)" using assms(1) b(2) by simp
  moreover have "2 powi exponent_of x < (2::rat) powi (e + 1)" using assms(2) b(1) by simp
  ultimately show ?thesis by (simp add: powi_less)
qed

subsection \<open>Rounding\<close>

lemma round_half_even_error: "\<bar>of_int (round_half_even x) - x\<bar> \<le> 1 / 2"
proof -
  have "of_int \<lfloor>x\<rfloor> \<le> x" "x < of_int \<lfloor>x\<rfloor> + 1" using floor_correct[of x] by simp_all
  then show ?thesis unfolding round_half_even_def Let_def by (simp split: if_splits)
qed

lemma round_half_even_int [simp]: "round_half_even (of_int i) = i"
  by (simp add: round_half_even_def)

lemma round_half_even_near:
  assumes "\<bar>x - of_int i\<bar> < 1 / 2"
  shows "round_half_even x = i"
proof -
  define f where "f = \<lfloor>x\<rfloor>"
  have f: "of_int f \<le> x" "x < of_int f + 1" unfolding f_def using floor_correct[of x] by simp_all
  have a: "x - of_int i < 1 / 2" "of_int i - x < 1 / 2" using assms by linarith+
  have "(of_int f :: rat) < of_int (i + 1)" "(of_int (i - 2) :: rat) < of_int f"
    unfolding of_int_add of_int_diff of_int_numeral of_int_1 using f a by linarith+
  then have "f = i \<or> f = i - 1" by (simp only: of_int_less_iff) linarith
  then show ?thesis
    using f a unfolding round_half_even_def Let_def f_def[symmetric] by auto
qed

lemma round_half_even_ge: "of_int i \<le> x \<Longrightarrow> i \<le> round_half_even x"
  using le_floor_iff[of i x] by (auto simp: round_half_even_def Let_def)

lemma round_half_even_le:
  assumes "x \<le> of_int i"
  shows "round_half_even x \<le> i"
proof (cases "x = of_int i")
  case False
  then have "\<lfloor>x\<rfloor> < i" using assms by (simp add: floor_less_iff)
  then show ?thesis by (auto simp: round_half_even_def Let_def)
qed simp

lemma f32_rounding:
  assumes "2 powi (-126) \<le> x" "x < 2 powi 127"
  obtains r where "f32_of_f64 x = Finite r" "\<bar>r - x\<bar> \<le> x / 2 ^ 24" "f32_of_f64 r = Finite r" "0 < r"
proof -
  define e where "e = exponent_of x"
  define q where "q = (2::rat) powi (e - 23)"
  define m where "m = round_half_even (x / q)"
  have "(0::rat) < 2 powi (-126)" by simp
  then have x: "0 < x" using assms(1) by linarith
  note b = exponent_of_bounds[OF x, folded e_def]
  have e: "-126 \<le> e" "e < 127"
    using b assms powi_less[of "-126" "e + 1"] powi_less[of e 127] by linarith+
  have q: "0 < q" "2 powi e = 2 ^ 23 * q" "2 powi (e + 1) = 2 ^ 24 * q"
    using powi_add[of "e - 23" 23] powi_add[of "e - 23" 24] by (simp_all add: q_def algebra_simps)
  have xq: "of_int (2 ^ 23) \<le> x / q" "x / q \<le> of_int (2 ^ 24)"
    using b q by (simp_all add: field_simps)
  have m: "2 ^ 23 \<le> m" "m \<le> 2 ^ 24"
    unfolding m_def using round_half_even_ge[OF xq(1)] round_half_even_le[OF xq(2)] by simp_all
  define r where "r = of_int m * q"
  have mr: "(2::rat) ^ 23 \<le> of_int m" "(of_int m :: rat) \<le> 2 ^ 24"
    using of_int_le_iff[of "2 ^ 23" m, where 'a = rat] of_int_le_iff[of m "2 ^ 24", where 'a = rat] m by simp_all
  have rb: "2 powi e \<le> r" "r \<le> 2 powi (e + 1)"
    unfolding q r_def using mr q(1) by (intro mult_right_mono; simp)+
  have big: "2 powi (e + 1) < (2::rat) powi 128" unfolding powi_less using e(2) by simp
  have val: "f32_of_f64 x = Finite r"
    using x rb big e b q
    by (simp add: f32_of_f64_def ieee_round_def Let_def e_def[symmetric] q_def[symmetric] m_def[symmetric]
        r_def[symmetric])
  moreover have "\<bar>r - x\<bar> \<le> x / 2 ^ 24"
  proof -
    have "\<bar>r - x\<bar> = \<bar>of_int m - x / q\<bar> * q" using q(1) by (simp add: r_def abs_mult_pos' field_simps abs_mult)
    also have "\<dots> \<le> 1 / 2 * q"
      using round_half_even_error[of "x / q"] q(1) unfolding m_def by (intro mult_right_mono) auto
    also have "\<dots> \<le> x / 2 ^ 24" using b(1) q by (simp add: field_simps)
    finally show ?thesis .
  qed
  moreover have "f32_of_f64 r = Finite r"
  proof (cases "m = 2 ^ 24")
    case True
    then have r: "r = 2 powi (e + 1)" by (simp add: r_def q)
    have ex: "exponent_of r = e + 1" using r by (intro exponent_of_unique) (simp_all add: powi_less)
    have q2: "(2::rat) powi (e - 22) = 2 * q" using powi_add[of "e - 23" 1] by (simp add: q_def algebra_simps)
    have "q \<noteq> 0" using q(1) by simp
    then have "r / (2 * q) = of_int (2 ^ 23)" by (simp add: r q(3))
    then have "round_half_even (r / (2 * q)) = 2 ^ 23" by (simp only: round_half_even_int)
    moreover have "of_int (2 ^ 23) * (2 * q) = r" by (simp add: r q)
    moreover have "0 < r" using q(1) by (simp add: r q)
    ultimately show ?thesis using e big rb
      by (simp add: f32_of_f64_def ieee_round_def Let_def ex q2 max_def)
  next
    case False
    then have "m < 2 ^ 24" using m by simp
    then have "(of_int m :: rat) < 2 ^ 24" using of_int_less_iff[of m "2 ^ 24", where 'a = rat] by simp
    then have "r < 2 powi (e + 1)" unfolding q r_def using q(1) by (intro mult_strict_right_mono)
    then have ex: "exponent_of r = e" using rb by (intro exponent_of_unique)
    have "r / q = of_int m" using q(1) by (simp add: r_def)
    then have "round_half_even (r / q) = m" by simp
    moreover have "0 < r" using rb(1) by (rule less_le_trans[rotated]) simp
    ultimately show ?thesis using e big rb
      by (simp add: f32_of_f64_def ieee_round_def Let_def ex q_def[symmetric] r_def[symmetric] max_def)
  qed
  moreover have "0 < r" using rb(1) by (rule less_le_trans[rotated]) simp
  ultimately show thesis using that by blast
qed

text \<open>Integers below \<open>2 ^ 24\<close> are represented.\<close>

lemma f32_of_nat_exact:
  assumes "0 < n" "n < 2 ^ 24"
  shows "f32_of_int (int n) = Finite (of_nat n)"
proof -
  define e where "e = exponent_of (of_nat n :: rat)"
  note b = exponent_of_bounds[of "of_nat n", folded e_def] assms
  have e: "0 \<le> e" "e < 24"
  proof -
    have "(of_nat n :: rat) < 2 powi 24" using assms(2) by (metis of_nat_less_iff of_nat_numeral of_nat_power power_int_numeral)
    then show "e < 24" using b powi_less[of e 24] by simp
    have "(2::rat) powi 0 \<le> of_nat n" using assms(1) by simp
    then show "0 \<le> e" using b powi_less[of 0 "e + 1"] by simp
  qed
  define k where "k = nat (23 - e)"
  have q: "(2::rat) powi (e - 23) = 1 / 2 ^ k"
    using e by (cases "e = 23") (simp_all add: power_int_def k_def power_one_over)
  have "of_nat n * 2 ^ k = (of_int (int n * 2 ^ k) :: rat)" by simp
  then have r: "round_half_even (of_nat n * 2 ^ k) = int n * 2 ^ k" by (simp only: round_half_even_int)
  have "(of_nat n :: rat) < 2 powi 128"
    using b e powi_less[of "e + 1" 128] by linarith
  then show ?thesis using assms(1) e
    by (simp add: f32_of_int_def f32_of_f64_def ieee_round_def Let_def e_def[symmetric] q r max_def)
qed

end
