(* ===== verification/Panes.thy ===== *)
theory Panes
  imports Client Floats
begin

section \<open>The panes of a tab in the window\<close>

text \<open>
  The part of \<open>crates/forgetty-gtk/src/app.rs\<close> that keeps the widgets of a tab: building them
  from the tree the daemon sends, splitting and closing, moving a divider, moving the focus, and
  collecting the positions of the dividers when the window closes. A \<open>gtk::Paned\<close> is a node with
  the position of its divider and its size in pixels, 0 as long as it was never shown, and with
  the ratio that is still to be applied when it is first shown. The boxes around a terminal are
  left out.
\<close>

datatype orientation = Horizontal | Vertical

datatype pane_widget =
  Terminal pane_id
| Paned orientation int int "f32 option" pane_widget pane_widget

text \<open>\<open>collect_leaves_recursive\<close>\<close>

fun collect_leaves :: "pane_widget \<Rightarrow> pane_id list \<Rightarrow> pane_id list" where
  "collect_leaves (Terminal p) out = out @ [p]"
| "collect_leaves (Paned _ _ _ _ a b) out = collect_leaves b (collect_leaves a out)"

definition collect_leaf_drawing_areas :: "pane_widget \<Rightarrow> pane_id list" where
  "collect_leaf_drawing_areas w = collect_leaves w []"

subsection \<open>Building a tab\<close>

text \<open>
  \<open>shows p\<close>: subscribing to the output of the pane and creating its terminal succeed. A subtree
  that fails fails the whole tab.
\<close>

fun build_widget_from_pane_tree :: "(pane_id \<Rightarrow> bool) \<Rightarrow> pane_tree_node \<Rightarrow> pane_widget option" where
  "build_widget_from_pane_tree shows (NodeLeaf p) = (if shows p then Some (Terminal p) else None)"
| "build_widget_from_pane_tree shows (NodeSplit dir r first second) =
     (case (build_widget_from_pane_tree shows first, build_widget_from_pane_tree shows second) of
        (Some a, Some b) \<Rightarrow>
          Some (Paned (if dir = ''horizontal'' then Horizontal else Vertical) 0 0
                  (Some (f32_clamp (5 / 100) (95 / 100) r)) a b)
      | _ \<Rightarrow> None)"

text \<open>
  When the node is shown, an idle handler waits for a usable size, at most
  \<open>RESTORE_RATIO_MAX_RETRIES\<close> times, and sets the divider once. \<open>sizes k\<close> is the size reported
  in round \<open>k\<close>; the result is the position, when one is set, and whether the ratio is used up.
\<close>

definition RESTORE_RATIO_MAX_RETRIES :: nat where "RESTORE_RATIO_MAX_RETRIES = 30"

definition restored_position :: "int \<Rightarrow> f32 \<Rightarrow> int option" where
  "restored_position sz saved =
     (let target = f32_as_i32 (f32_prod (f32_of_int sz) saved)
      in if target > 0 then Some target else None)"

fun restore_idle :: "nat \<Rightarrow> nat \<Rightarrow> (nat \<Rightarrow> int) \<Rightarrow> f32 \<Rightarrow> int option \<times> bool" where
  "restore_idle retries_left k sizes saved =
     (if sizes k > 1 then (restored_position (sizes k) saved, True)
      else case retries_left of
             0 \<Rightarrow> (None, False)
           | Suc remaining \<Rightarrow> restore_idle remaining (Suc k) sizes saved)"

text \<open>\<open>connect_map\<close>: nothing happens once the ratio was applied.\<close>

fun paned_mapped :: "(nat \<Rightarrow> int) \<Rightarrow> int \<Rightarrow> pane_widget \<Rightarrow> pane_widget" where
  "paned_mapped sizes now (Paned o1 pos sz (Some r) a b) =
     (case restore_idle RESTORE_RATIO_MAX_RETRIES 0 sizes r of
        (target, applied) \<Rightarrow>
          Paned o1 (case target of Some t \<Rightarrow> t | None \<Rightarrow> pos) now (if applied then None else Some r) a b)"
| "paned_mapped sizes now (Paned o1 pos sz None a b) = Paned o1 pos now None a b"
| "paned_mapped sizes now (Terminal p) = Terminal p"

subsection \<open>The positions of the dividers\<close>

fun leftmost_daemon_pane_id :: "pane_widget \<Rightarrow> pane_id option" where
  "leftmost_daemon_pane_id (Terminal p) = Some p"
| "leftmost_daemon_pane_id (Paned _ _ _ _ a _) = leftmost_daemon_pane_id a"

definition paned_ratio :: "int \<Rightarrow> int \<Rightarrow> f32" where
  "paned_ratio pos sz =
     (if sz > 0 then f32_quot (f32_of_int pos) (f32_of_int sz) else Finite (1/2))"

fun collect_ratios_from_widget :: "pane_widget \<Rightarrow> (pane_id \<times> f32) list \<Rightarrow> (pane_id \<times> f32) list" where
  "collect_ratios_from_widget (Terminal p) out = out"
| "collect_ratios_from_widget (Paned _ pos sz _ a b) out =
     (let out1 = (case leftmost_daemon_pane_id a of
                    Some p \<Rightarrow> out @ [(p, paned_ratio pos sz)] | None \<Rightarrow> out)
      in collect_ratios_from_widget b (collect_ratios_from_widget a out1))"

definition collect_split_ratios :: "pane_widget list \<Rightarrow> (pane_id \<times> f32) list" where
  "collect_split_ratios tabs = fold collect_ratios_from_widget tabs []"

text \<open>On every way to close the window: the tabs of all workspaces in one call.\<close>

definition save_split_ratios :: "libs \<Rightarrow> 'd peer \<Rightarrow> pane_widget list list \<Rightarrow> 'd \<Rightarrow> 'd" where
  "save_split_ratios L P wins d =
     (let all_ratios = concat (map collect_split_ratios wins)
      in if all_ratios = [] then d else snd (dc_update_split_ratios L P all_ratios d))"

subsection \<open>Splitting\<close>

text \<open>The box of the focused terminal is replaced, in its slot, by the new node.\<close>

fun replace_terminal :: "pane_id \<Rightarrow> pane_widget \<Rightarrow> pane_widget \<Rightarrow> pane_widget" where
  "replace_terminal p new (Terminal q) = (if q = p then new else Terminal q)"
| "replace_terminal p new (Paned o1 pos sz sv a b) =
     Paned o1 pos sz sv (replace_terminal p new a) (replace_terminal p new b)"

definition window_split_pane :: "libs \<Rightarrow> 'd peer \<Rightarrow> (pane_id \<Rightarrow> bool) \<Rightarrow> orientation \<Rightarrow> bool \<Rightarrow> pane_id \<Rightarrow>
    pane_widget \<Rightarrow> 'd \<Rightarrow> pane_widget \<times> 'd" where
  "window_split_pane L P shows o1 before focused w d =
     (if focused \<notin> set (collect_leaf_drawing_areas w) then (w, d)
      else case dc_split_pane L P focused
                  (if o1 = Horizontal then ''horizontal'' else ''vertical'') d of
             (Inl e, d1) \<Rightarrow> (w, d1)
           | (Inr n, d1) \<Rightarrow>
               if \<not> shows n then (w, d1)
               else (replace_terminal focused
                       (if before then Paned o1 0 0 None (Terminal n) (Terminal focused)
                        else Paned o1 0 0 None (Terminal focused) (Terminal n)) w, d1))"

text \<open>The idle handler that halves a new split.\<close>

definition split_position :: "int \<Rightarrow> int \<Rightarrow> int" where
  "split_position pos sz = (if sz > 0 then sz div 2 else pos)"

subsection \<open>Closing a pane of a split\<close>

text \<open>The parent node is replaced by the sibling, which gets the focus.\<close>

fun close_terminal :: "pane_id \<Rightarrow> pane_widget \<Rightarrow> (pane_widget \<times> pane_id option) option" where
  "close_terminal p (Terminal q) = None"
| "close_terminal p (Paned o1 pos sz sv a b) =
     (let focus = (\<lambda>w. case collect_leaf_drawing_areas w of [] \<Rightarrow> None | q # _ \<Rightarrow> Some q)
      in if a = Terminal p then Some (b, focus b)
         else if b = Terminal p then Some (a, focus a)
         else case close_terminal p a of
                Some (a', f) \<Rightarrow> Some (Paned o1 pos sz sv a' b, f)
              | None \<Rightarrow> (case close_terminal p b of
                           Some (b', f) \<Rightarrow> Some (Paned o1 pos sz sv a b', f)
                         | None \<Rightarrow> None))"

subsection \<open>Moving a divider\<close>

datatype move_dir = DirLeft | DirRight | DirUp | DirDown

text \<open>The ancestors of a terminal from the inside out: the path to the node, its orientation
  and whether the terminal is on its start side. \<open>True\<close> in a path is the start child.\<close>

fun paned_ancestors :: "pane_id \<Rightarrow> pane_widget \<Rightarrow> (bool list \<times> orientation \<times> bool) list option" where
  "paned_ancestors p (Terminal q) = (if q = p then Some [] else None)"
| "paned_ancestors p (Paned o1 _ _ _ a b) =
     (case paned_ancestors p a of
        Some as \<Rightarrow> Some (map (\<lambda>(path, x). (True # path, x)) as @ [([], o1, True)])
      | None \<Rightarrow> (case paned_ancestors p b of
                   Some as \<Rightarrow> Some (map (\<lambda>(path, x). (False # path, x)) as @ [([], o1, False)])
                 | None \<Rightarrow> None))"

fun move_divider :: "int \<Rightarrow> bool list \<Rightarrow> pane_widget \<Rightarrow> pane_widget" where
  "move_divider delta [] (Paned o1 pos sz sv a b) =
     Paned o1 (max 0 (min sz (pos + delta))) sz sv a b"
| "move_divider delta (True # path) (Paned o1 pos sz sv a b) =
     Paned o1 pos sz sv (move_divider delta path a) b"
| "move_divider delta (False # path) (Paned o1 pos sz sv a b) =
     Paned o1 pos sz sv a (move_divider delta path b)"
| "move_divider delta path (Terminal p) = Terminal p"

definition dir_orientation :: "move_dir \<Rightarrow> orientation" where
  "dir_orientation dir = (if dir \<in> {DirLeft, DirRight} then Horizontal else Vertical)"

definition window_resize_pane :: "move_dir \<Rightarrow> pane_id \<Rightarrow> pane_widget \<Rightarrow> pane_widget" where
  "window_resize_pane dir focused w =
     (let want_start = dir \<in> {DirRight, DirDown};
          delta = (if want_start then 20 else -20)
      in case paned_ancestors focused w of
           None \<Rightarrow> w
         | Some as \<Rightarrow>
             let fit = filter (\<lambda>(_, o1, _). o1 = dir_orientation dir) as;
                 found = filter (\<lambda>(_, _, s). s = want_start) fit
             in case found @ fit of [] \<Rightarrow> w | (path, _) # _ \<Rightarrow> move_divider delta path w)"

subsection \<open>Moving the focus\<close>

record bounds =
  b_x :: int
  b_y :: int
  b_width :: int
  b_height :: int

definition ranges_overlap :: "int \<Rightarrow> int \<Rightarrow> int \<Rightarrow> int \<Rightarrow> bool" where
  "ranges_overlap a_start a_end b_start b_end \<longleftrightarrow> a_start < b_end \<and> b_start < a_end"

definition overlap_x :: "bounds \<Rightarrow> bounds \<Rightarrow> bool" where
  "overlap_x b f = ranges_overlap (b_x b) (b_x b + b_width b) (b_x f) (b_x f + b_width f)"

definition overlap_y :: "bounds \<Rightarrow> bounds \<Rightarrow> bool" where
  "overlap_y b f = ranges_overlap (b_y b) (b_y b + b_height b) (b_y f) (b_y f + b_height f)"

fun in_direction :: "move_dir \<Rightarrow> bounds \<Rightarrow> bounds \<Rightarrow> bool \<times> int" where
  "in_direction DirLeft b f = (b_x b + b_width b \<le> b_x f \<and> overlap_y b f, b_x f - (b_x b + b_width b))"
| "in_direction DirRight b f = (b_x b \<ge> b_x f + b_width f \<and> overlap_y b f, b_x b - (b_x f + b_width f))"
| "in_direction DirUp b f = (b_y b + b_height b \<le> b_y f \<and> overlap_x b f, b_y f - (b_y b + b_height b))"
| "in_direction DirDown b f = (b_y b \<ge> b_y f + b_height f \<and> overlap_x b f, b_y b - (b_y f + b_height f))"

fun nearest :: "move_dir \<Rightarrow> (pane_id \<Rightarrow> bounds option) \<Rightarrow> pane_id \<Rightarrow> bounds \<Rightarrow> pane_id list \<Rightarrow>
    (pane_id \<times> int) option \<Rightarrow> (pane_id \<times> int) option" where
  "nearest dir placed focused fb [] best = best"
| "nearest dir placed focused fb (q # qs) best =
     nearest dir placed focused fb qs
       (if q = focused then best
        else case placed q of
               None \<Rightarrow> best
             | Some b \<Rightarrow>
                 (case in_direction dir b fb of (valid, distance) \<Rightarrow>
                    if valid \<and> (case best of None \<Rightarrow> True | Some (_, bd) \<Rightarrow> distance < bd)
                    then Some (q, distance) else best))"

definition navigate_pane :: "move_dir \<Rightarrow> (pane_id \<Rightarrow> bounds option) \<Rightarrow> pane_id \<Rightarrow> pane_widget \<Rightarrow> pane_id option" where
  "navigate_pane dir placed focused w =
     (let leaves = collect_leaf_drawing_areas w
      in if length leaves < 2 \<or> focused \<notin> set leaves then None
         else case placed focused of
                None \<Rightarrow> None
              | Some fb \<Rightarrow> map_option fst (nearest dir placed focused fb leaves None))"

end
