(* ===== verification/Theme.thy ===== *)
theory Theme
  imports Persistence Protocol "HOL-Library.List_Lexorder" "HOL-Library.Char_ord"
begin

section \<open>Colours and themes\<close>

text \<open>
  \<open>Rgba\<close> of \<open>crates/forgetty-core/src/types.rs\<close> and \<open>crates/forgetty-config/src/theme.rs\<close>:
  hex colours, theme files, the catalogue and the lookup by name. Strings are UTF-8 byte strings,
  so a slice at an offset inside a character panics as in Rust; a panic is an error value that
  no \<open>ok()\<close> or \<open>unwrap_or_else\<close> of the code catches. The \<open>toml\<close> crate, the table of the bundled
  themes (a generated file) and Unicode lower-casing are parameters.
\<close>

subsection \<open>Errors and TOML values\<close>

datatype failure = Invalid | Panicked

type_synonym 'a de = "failure + 'a"

definition de_bind :: "'a de \<Rightarrow> ('a \<Rightarrow> 'b de) \<Rightarrow> 'b de" where
  "de_bind m f = (case m of Inl e \<Rightarrow> Inl e | Inr x \<Rightarrow> f x)"

text \<open>\<open>Result::ok\<close>; a panic goes on.\<close>

definition de_ok :: "'a de \<Rightarrow> 'a option de" where
  "de_ok m = (case m of Inl Panicked \<Rightarrow> Inl Panicked | Inl Invalid \<Rightarrow> Inr None | Inr x \<Rightarrow> Inr (Some x))"

datatype toml =
  TStr string
| TInt int
| TFloat f32
| TBool bool
| TDatetime string
| TArr "toml list"
| TTable "(string \<times> toml) list"

type_synonym toml_table = "(string \<times> toml) list"

record toml_lib =
  toml_parse :: "string \<Rightarrow> toml_table option"
  toml_print :: "toml_table \<Rightarrow> string option"

text \<open>The shapes of a derived \<open>Deserialize\<close>: a required field, \<open>#[serde(default)]\<close>, \<open>Option\<close>.\<close>

definition required :: "(toml \<Rightarrow> 'a de) \<Rightarrow> string \<Rightarrow> toml_table \<Rightarrow> 'a de" where
  "required f k kvs = (case map_of kvs k of None \<Rightarrow> Inl Invalid | Some v \<Rightarrow> f v)"

definition defaulted :: "'a \<Rightarrow> (toml \<Rightarrow> 'a de) \<Rightarrow> string \<Rightarrow> toml_table \<Rightarrow> 'a de" where
  "defaulted d f k kvs = (case map_of kvs k of None \<Rightarrow> Inr d | Some v \<Rightarrow> f v)"

definition optional :: "(toml \<Rightarrow> 'a de) \<Rightarrow> string \<Rightarrow> toml_table \<Rightarrow> 'a option de" where
  "optional f k kvs = (case map_of kvs k of None \<Rightarrow> Inr None | Some v \<Rightarrow> de_bind (f v) (\<lambda>x. Inr (Some x)))"

fun de_str :: "toml \<Rightarrow> string de" where
  "de_str (TStr s) = Inr s" | "de_str _ = Inl Invalid"

fun de_bool :: "toml \<Rightarrow> bool de" where
  "de_bool (TBool b) = Inr b" | "de_bool _ = Inl Invalid"

text \<open>An unsigned integer of \<open>w\<close> bits from the 64-bit integers of TOML.\<close>

fun de_uint :: "nat \<Rightarrow> toml \<Rightarrow> nat de" where
  "de_uint w (TInt i) = (if 0 \<le> i \<and> i < 2 ^ w then Inr (nat i) else Inl Invalid)"
| "de_uint w _ = Inl Invalid"

fun de_list :: "('b \<Rightarrow> 'a de) \<Rightarrow> 'b list \<Rightarrow> 'a list de" where
  "de_list f [] = Inr []"
| "de_list f (v # vs) = de_bind (f v) (\<lambda>x. de_bind (de_list f vs) (\<lambda>xs. Inr (x # xs)))"

fun de_arr :: "(toml \<Rightarrow> 'a de) \<Rightarrow> toml \<Rightarrow> 'a list de" where
  "de_arr f (TArr vs) = de_list f vs" | "de_arr f _ = Inl Invalid"

subsection \<open>Colours\<close>

record rgba =
  ch_r :: byte
  ch_g :: byte
  ch_b :: byte
  ch_a :: byte

definition rgba_default :: rgba where
  "rgba_default = \<lparr>ch_r = 0, ch_g = 0, ch_b = 0, ch_a = 255\<rparr>"

definition rgba_new :: "byte \<Rightarrow> byte \<Rightarrow> byte \<Rightarrow> byte \<Rightarrow> rgba" where
  "rgba_new r g b a = \<lparr>ch_r = r, ch_g = g, ch_b = b, ch_a = a\<rparr>"

definition rgb :: "byte \<Rightarrow> byte \<Rightarrow> byte \<Rightarrow> rgba" where
  "rgb r g b = \<lparr>ch_r = r, ch_g = g, ch_b = b, ch_a = 255\<rparr>"

text \<open>A byte offset that \<open>str\<close> can be sliced at, and a slice of two bytes.\<close>

definition is_char_boundary :: "string \<Rightarrow> nat \<Rightarrow> bool" where
  "is_char_boundary s i \<longleftrightarrow> i = 0 \<or> i = length s \<or>
     (i < length s \<and> (let n = (of_char (s ! i) :: nat) in n < 128 \<or> 192 \<le> n))"

definition slice2 :: "string \<Rightarrow> nat \<Rightarrow> string de" where
  "slice2 s i = (if is_char_boundary s i \<and> is_char_boundary s (i + 2)
                 then Inr (take 2 (drop i s)) else Inl Panicked)"

definition hex_digit :: "char \<Rightarrow> nat option" where
  "hex_digit c = (let n = (of_char c :: nat)
     in if 48 \<le> n \<and> n \<le> 57 then Some (n - 48)
        else if 65 \<le> n \<and> n \<le> 70 then Some (n - 55)
        else if 97 \<le> n \<and> n \<le> 102 then Some (n - 87) else None)"

text \<open>\<open>u8::from_str_radix(s, 16)\<close>: a leading plus sign is allowed, the value must fit.\<close>

fun hex_value :: "nat \<Rightarrow> string \<Rightarrow> nat option" where
  "hex_value acc [] = Some acc"
| "hex_value acc (c # cs) =
     (case hex_digit c of None \<Rightarrow> None
      | Some d \<Rightarrow> if acc * 16 + d < 256 then hex_value (acc * 16 + d) cs else None)"

definition u8_from_hex :: "string \<Rightarrow> byte option" where
  "u8_from_hex s =
     (let digits = (case s of c # cs \<Rightarrow> if c = CHR ''+'' then cs else s | [] \<Rightarrow> s)
      in if digits = [] then None else map_option of_nat (hex_value 0 digits))"

definition hex_byte :: "string \<Rightarrow> nat \<Rightarrow> byte option de" where
  "hex_byte s i = de_bind (slice2 s i) (\<lambda>t. Inr (u8_from_hex t))"

text \<open>The \<open>?\<close> after each channel: an invalid channel ends the function before the next slice.\<close>

definition and_then :: "'a option de \<Rightarrow> ('a \<Rightarrow> 'b option de) \<Rightarrow> 'b option de" where
  "and_then m f = de_bind m (\<lambda>x. case x of None \<Rightarrow> Inr None | Some v \<Rightarrow> f v)"

definition from_hex :: "string \<Rightarrow> rgba option de" where
  "from_hex str =
     (case str of
        [] \<Rightarrow> Inr None
      | c # s \<Rightarrow>
          if c \<noteq> CHR ''#'' then Inr None
          else if length s = 6 then
            and_then (hex_byte s 0) (\<lambda>r. and_then (hex_byte s 2) (\<lambda>g. and_then (hex_byte s 4) (\<lambda>b.
              Inr (Some (rgb r g b)))))
          else if length s = 8 then
            and_then (hex_byte s 0) (\<lambda>r. and_then (hex_byte s 2) (\<lambda>g. and_then (hex_byte s 4) (\<lambda>b.
              and_then (hex_byte s 6) (\<lambda>a. Inr (Some (rgba_new r g b a))))))
          else Inr None)"

definition de_u8 :: "toml \<Rightarrow> byte de" where
  "de_u8 v = de_bind (de_uint 8 v) (\<lambda>n. Inr (of_nat n))"

fun de_rgba :: "toml \<Rightarrow> rgba de" where
  "de_rgba (TStr s) =
     de_bind (from_hex s) (\<lambda>c. case c of None \<Rightarrow> Inl Invalid | Some x \<Rightarrow> Inr x)"
| "de_rgba (TTable kvs) =
     de_bind (required de_u8 ''r'' kvs) (\<lambda>r. de_bind (required de_u8 ''g'' kvs) (\<lambda>g.
     de_bind (required de_u8 ''b'' kvs) (\<lambda>b. de_bind (required de_u8 ''a'' kvs) (\<lambda>a.
       Inr (rgba_new r g b a)))))"
| "de_rgba _ = Inl Invalid"

definition ser_rgba :: "rgba \<Rightarrow> toml" where
  "ser_rgba c = TTable [(''r'', TInt (uint (ch_r c))), (''g'', TInt (uint (ch_g c))),
                        (''b'', TInt (uint (ch_b c))), (''a'', TInt (uint (ch_a c)))]"

subsection \<open>Themes\<close>

record theme =
  th_ansi :: "rgba list"
  th_foreground :: rgba
  th_background :: rgba
  th_cursor :: rgba
  th_selection :: rgba
  th_search_match :: rgba
  th_search_current :: rgba

definition default_foreground :: rgba where "default_foreground = rgb 205 214 244"
definition default_background :: rgba where "default_background = rgb 40 40 40"
definition default_cursor_color :: rgba where "default_cursor_color = rgb 245 224 220"
definition default_selection_color :: rgba where "default_selection_color = rgba_new 88 91 112 128"
definition default_search_match_color :: rgba where "default_search_match_color = rgba_new 249 226 175 80"
definition default_search_current_color :: rgba where "default_search_current_color = rgba_new 250 179 135 160"

definition default_ansi_colors :: "rgba list" where
  "default_ansi_colors =
     [rgb 69 71 90, rgb 243 139 168, rgb 166 227 161, rgb 249 226 175,
      rgb 137 180 250, rgb 245 194 231, rgb 148 226 213, rgb 186 194 222,
      rgb 88 91 112, rgb 243 139 168, rgb 166 227 161, rgb 249 226 175,
      rgb 137 180 250, rgb 245 194 231, rgb 148 226 213, rgb 205 214 244]"

definition theme_default :: theme where
  "theme_default =
     \<lparr>th_ansi = default_ansi_colors, th_foreground = default_foreground,
      th_background = default_background, th_cursor = default_cursor_color,
      th_selection = default_selection_color, th_search_match = default_search_match_color,
      th_search_current = default_search_current_color\<rparr>"

text \<open>The derived instances: an inline table with defaults, and the table that is written.\<close>

definition de_ansi :: "toml \<Rightarrow> rgba list de" where
  "de_ansi v = de_bind (de_arr de_rgba v) (\<lambda>cs. if length cs = 16 then Inr cs else Inl Invalid)"

fun de_theme :: "toml \<Rightarrow> theme de" where
  "de_theme (TTable kvs) =
     de_bind (defaulted default_ansi_colors de_ansi ''ansi_colors'' kvs) (\<lambda>ansi.
     de_bind (defaulted default_foreground de_rgba ''foreground'' kvs) (\<lambda>fg.
     de_bind (defaulted default_background de_rgba ''background'' kvs) (\<lambda>bg.
     de_bind (defaulted default_cursor_color de_rgba ''cursor'' kvs) (\<lambda>cur.
     de_bind (defaulted default_selection_color de_rgba ''selection'' kvs) (\<lambda>sel.
     de_bind (defaulted default_search_match_color de_rgba ''search_match'' kvs) (\<lambda>sm.
     de_bind (defaulted default_search_current_color de_rgba ''search_current'' kvs) (\<lambda>sc.
       Inr \<lparr>th_ansi = ansi, th_foreground = fg, th_background = bg, th_cursor = cur,
            th_selection = sel, th_search_match = sm, th_search_current = sc\<rparr>)))))))"
| "de_theme _ = Inl Invalid"

definition ser_theme :: "theme \<Rightarrow> toml" where
  "ser_theme t = TTable
     [(''ansi_colors'', TArr (map ser_rgba (th_ansi t))), (''foreground'', ser_rgba (th_foreground t)),
      (''background'', ser_rgba (th_background t)), (''cursor'', ser_rgba (th_cursor t)),
      (''selection'', ser_rgba (th_selection t)), (''search_match'', ser_rgba (th_search_match t)),
      (''search_current'', ser_rgba (th_search_current t))]"

subsection \<open>Theme files\<close>

definition color_names :: "string list" where
  "color_names = [''black'', ''red'', ''green'', ''yellow'', ''blue'', ''magenta'', ''cyan'', ''white'']"

text \<open>\<open>AnsiColors\<close> and \<open>BrightColors\<close>: eight required colours, in the order of the palette.\<close>

fun de_eight :: "toml \<Rightarrow> rgba list de" where
  "de_eight (TTable kvs) = de_list (\<lambda>k. required de_rgba k kvs) color_names"
| "de_eight _ = Inl Invalid"

record theme_colors =
  tc_foreground :: rgba
  tc_background :: rgba
  tc_cursor :: "rgba option"
  tc_selection :: "rgba option"
  tc_ansi :: "rgba list option"
  tc_bright :: "rgba list option"

fun de_theme_colors :: "toml \<Rightarrow> theme_colors de" where
  "de_theme_colors (TTable kvs) =
     de_bind (required de_rgba ''foreground'' kvs) (\<lambda>fg.
     de_bind (required de_rgba ''background'' kvs) (\<lambda>bg.
     de_bind (optional de_rgba ''cursor'' kvs) (\<lambda>cur.
     de_bind (optional de_rgba ''selection'' kvs) (\<lambda>sel.
     de_bind (optional de_eight ''ansi'' kvs) (\<lambda>ansi.
     de_bind (optional de_eight ''bright'' kvs) (\<lambda>bright.
       Inr \<lparr>tc_foreground = fg, tc_background = bg, tc_cursor = cur, tc_selection = sel,
            tc_ansi = ansi, tc_bright = bright\<rparr>))))))"
| "de_theme_colors _ = Inl Invalid"

definition into_theme :: "theme_colors \<Rightarrow> theme" where
  "into_theme c =
     \<lparr>th_ansi = (case tc_ansi c of Some a \<Rightarrow> a | None \<Rightarrow> take 8 default_ansi_colors) @
                (case tc_bright c of Some b \<Rightarrow> b | None \<Rightarrow> drop 8 default_ansi_colors),
      th_foreground = tc_foreground c, th_background = tc_background c,
      th_cursor = (case tc_cursor c of Some x \<Rightarrow> x | None \<Rightarrow> default_cursor_color),
      th_selection = (case tc_selection c of Some x \<Rightarrow> x | None \<Rightarrow> default_selection_color),
      th_search_match = default_search_match_color, th_search_current = default_search_current_color\<rparr>"

definition parse_theme_file :: "toml_lib \<Rightarrow> string \<Rightarrow> theme de" where
  "parse_theme_file T contents =
     (case toml_parse T contents of
        None \<Rightarrow> Inl Invalid
      | Some kvs \<Rightarrow> de_bind (required de_theme_colors ''colors'' kvs) (\<lambda>c. Inr (into_theme c)))"

subsection \<open>The catalogue\<close>

text \<open>The \<open>.toml\<close> files of the theme directory in listing order: stem, path, and content if readable.\<close>

record theme_file =
  tf_stem :: string
  tf_path :: path
  tf_contents :: "string option"

record theme_env =
  te_toml :: toml_lib
  te_bundled :: "(string \<times> string) list"
  te_custom :: "theme_file list"
  te_lower :: "string \<Rightarrow> string"

datatype theme_source = Bundled | Custom path

record preview_colors =
  pc_background :: rgba
  pc_foreground :: rgba
  pc_ansi_sample :: "rgba list"

record catalog_entry =
  ce_name :: string
  ce_source :: theme_source
  ce_preview :: preview_colors

definition preview_of :: "theme \<Rightarrow> preview_colors" where
  "preview_of t = \<lparr>pc_background = th_background t, pc_foreground = th_foreground t,
                   pc_ansi_sample = take 6 (th_ansi t)\<rparr>"

definition preview_from_toml :: "toml_lib \<Rightarrow> string \<Rightarrow> preview_colors option de" where
  "preview_from_toml T s = de_ok (de_bind (parse_theme_file T s) (\<lambda>t. Inr (preview_of t)))"

definition THEME_ALIASES :: "(string \<times> string) list" where
  "THEME_ALIASES =
     [(''Solarized Dark'', ''iTerm2 Solarized Dark''), (''Solarized Light'', ''iTerm2 Solarized Light''),
      (''Tokyo Night'', ''TokyoNight''), (''One Dark'', ''One Dark Two''),
      (''One Light'', ''Atom One Light''), (''Monokai'', ''Monokai Classic''),
      (''Ayu Dark'', ''Ayu''), (''Everforest'', ''Everforest Dark Hard''),
      (''Kanagawa'', ''Kanagawa Wave'')]"

text \<open>\<open>str::lines\<close>, \<open>find('=')\<close> and the extraction of the \<open>name\<close> line.\<close>

fun split_lines :: "string \<Rightarrow> string \<Rightarrow> string list" where
  "split_lines acc [] = (if acc = [] then [] else [rev acc])"
| "split_lines acc (c # cs) =
     (if c = CHR 0x0A
      then rev (case acc of d # ds \<Rightarrow> if d = CHR 0x0D then ds else acc | [] \<Rightarrow> []) # split_lines [] cs
      else split_lines (c # acc) cs)"

definition name_on_line :: "string \<Rightarrow> string option" where
  "name_on_line line =
     (let t = rust_trim line
      in if take 4 t \<noteq> ''name'' \<or> CHR ''='' \<notin> set t then None
         else let v = rust_trim (tl (dropWhile (\<lambda>c. c \<noteq> CHR ''='') t))
              in if length v \<ge> 2 \<and> hd v = CHR 0x22 \<and> last v = CHR 0x22
                 then Some (butlast (tl v)) else None)"

fun first_some :: "('a \<Rightarrow> 'b option) \<Rightarrow> 'a list \<Rightarrow> 'b option" where
  "first_some f [] = None"
| "first_some f (x # xs) = (case f x of Some y \<Rightarrow> Some y | None \<Rightarrow> first_some f xs)"

definition extract_name_field :: "string \<Rightarrow> string option" where
  "extract_name_field s = first_some name_on_line (split_lines [] s)"

definition display_name :: "theme_file \<Rightarrow> string \<Rightarrow> string" where
  "display_name f contents = (case extract_name_field contents of Some n \<Rightarrow> n | None \<Rightarrow> tf_stem f)"

text \<open>The entry of one theme; malformed and unreadable files are left out.\<close>

definition bundled_entry :: "toml_lib \<Rightarrow> string \<times> string \<Rightarrow> catalog_entry option de" where
  "bundled_entry T = (\<lambda>(name, s). de_bind (preview_from_toml T s) (\<lambda>p.
     Inr (map_option (\<lambda>p. \<lparr>ce_name = name, ce_source = Bundled, ce_preview = p\<rparr>) p)))"

definition custom_entry :: "toml_lib \<Rightarrow> theme_file \<Rightarrow> catalog_entry option de" where
  "custom_entry T f =
     (case tf_contents f of
        None \<Rightarrow> Inr None
      | Some s \<Rightarrow> de_bind (preview_from_toml T s) (\<lambda>p.
          Inr (map_option (\<lambda>p. \<lparr>ce_name = display_name f s, ce_source = Custom (tf_path f), ce_preview = p\<rparr>) p)))"

fun de_filter :: "('a \<Rightarrow> 'b option de) \<Rightarrow> 'a list \<Rightarrow> 'b list de" where
  "de_filter f [] = Inr []"
| "de_filter f (x # xs) =
     de_bind (f x) (\<lambda>y. de_bind (de_filter f xs) (\<lambda>ys.
       Inr (case y of Some v \<Rightarrow> v # ys | None \<Rightarrow> ys)))"

text \<open>\<open>sort_by_key\<close> is stable.\<close>

definition sort_by_name :: "(string \<Rightarrow> string) \<Rightarrow> catalog_entry list \<Rightarrow> catalog_entry list" where
  "sort_by_name lower = sort_key (\<lambda>e. lower (ce_name e))"

definition ascii_lower :: "char \<Rightarrow> char" where
  "ascii_lower c = (let n = (of_char c :: nat) in if 65 \<le> n \<and> n \<le> 90 then char_of (n + 32) else c)"

definition eq_ignore_ascii_case :: "string \<Rightarrow> string \<Rightarrow> bool" where
  "eq_ignore_ascii_case a b \<longleftrightarrow> map ascii_lower a = map ascii_lower b"

fun add_alias :: "(string \<Rightarrow> string) \<Rightarrow> string list \<Rightarrow> string \<times> string \<Rightarrow> catalog_entry list \<Rightarrow> catalog_entry list" where
  "add_alias lower custom_names (alias_name, upstream) entries =
     (if lower alias_name \<in> set custom_names then entries
      else if \<exists>e \<in> set entries. eq_ignore_ascii_case (ce_name e) alias_name then entries
      else case List.find (\<lambda>e. ce_name e = upstream) entries of
             Some u \<Rightarrow> entries @ [u\<lparr>ce_name := alias_name\<rparr>]
           | None \<Rightarrow> entries)"

definition default_dark :: catalog_entry where
  "default_dark = \<lparr>ce_name = ''Default Dark'', ce_source = Bundled, ce_preview = preview_of theme_default\<rparr>"

definition load_theme_catalog :: "theme_env \<Rightarrow> catalog_entry list de" where
  "load_theme_catalog E =
     de_bind (de_filter (bundled_entry (te_toml E)) (te_bundled E)) (\<lambda>bundled.
     de_bind (de_filter (custom_entry (te_toml E)) (te_custom E)) (\<lambda>custom.
       let lower = te_lower E;
           custom' = sort_by_name lower custom;
           custom_names = map (\<lambda>e. lower (ce_name e)) custom';
           entries = default_dark # [e \<leftarrow> sort_by_name lower bundled. lower (ce_name e) \<notin> set custom_names] @ custom'
       in Inr (sort_by_name lower (fold (add_alias lower custom_names) THEME_ALIASES entries))))"

subsection \<open>Lookup by name\<close>

definition resolve_alias :: "string \<Rightarrow> string" where
  "resolve_alias name = (case map_of THEME_ALIASES name of Some u \<Rightarrow> u | None \<Rightarrow> name)"

text \<open>The text of the first theme with the name: the files first, then the bundled themes.\<close>

definition custom_match :: "string \<Rightarrow> theme_file \<Rightarrow> string option" where
  "custom_match name f =
     (case tf_contents f of
        None \<Rightarrow> None
      | Some s \<Rightarrow> if display_name f s = name \<or> display_name f s = resolve_alias name then Some s else None)"

definition bundled_match :: "string \<Rightarrow> string \<times> string \<Rightarrow> string option" where
  "bundled_match name = (\<lambda>(n, s). if n = name \<or> n = resolve_alias name then Some s else None)"

definition load_theme_by_name :: "theme_env \<Rightarrow> string \<Rightarrow> theme option de" where
  "load_theme_by_name E name =
     (if name = ''Default Dark'' then Inr (Some theme_default)
      else case first_some (custom_match name) (te_custom E) of
             Some s \<Rightarrow> de_ok (parse_theme_file (te_toml E) s)
           | None \<Rightarrow> (case first_some (bundled_match name) (te_bundled E) of
                        Some s \<Rightarrow> de_ok (parse_theme_file (te_toml E) s)
                      | None \<Rightarrow> Inr None))"

end
