(* ===== verification/Window.thy ===== *)
theory Window
  imports Panes Theme
begin

section \<open>The window: workspaces, tabs and focus\<close>

text \<open>
  The state that \<open>crates/forgetty-gtk/src/app.rs\<close> keeps of a window and the operations on it:
  what the user does with workspaces and tabs, each with its call of the daemon, the layout
  events that come back, and the building of the window from the layout at start-up. The widgets
  are left out but for what the state depends on: the pages of a tab view and the selected one,
  the tree of terminals of a page, and the terminal that has the focus.
\<close>

subsection \<open>State\<close>

text \<open>An \<open>RGBA\<close> of GTK: components in single precision.\<close>

record gdk_rgba =
  red :: f32
  green :: f32
  blue :: f32
  alpha :: f32

text \<open>
  A page; its entry in \<open>tab_id_map\<close>, and the terminals in it. A terminal of a duplicated tab was
  wired with a map of its own, whose one entry is the tab it was made for (\<open>wv_own\<close>). Only the
  view the window was built with tells the daemon when its tabs are reordered (\<open>wv_initial\<close>).
\<close>

record window_page =
  pg_tab :: "uuid option"
  pg_root :: pane_widget

record workspace_view =
  wv_id :: uuid
  wv_name :: string
  wv_pages :: "window_page list"
  wv_selected :: "nat option"
  wv_tracker :: "pane_id option"
  wv_active_pane :: "uuid \<rightharpoonup> pane_id"
  wv_own :: "pane_id \<rightharpoonup> uuid"
  wv_initial :: bool
  wv_color :: "gdk_rgba option"

record window =
  wm_workspaces :: "workspace_view list"
  wm_active :: nat
  pending_reorders :: "(nat \<times> nat) list"
  pending_active_pane :: "(nat \<times> uuid \<times> pane_id) list"
  wm_focus :: "pane_id option"

text \<open>
  A \<open>RefCell\<close> around the state: a handler that runs inside another one finds it free, read or
  written, and does without what it cannot borrow.
\<close>

datatype borrowed = Free | Shared | Exclusive

definition modify_view :: "nat \<Rightarrow> (workspace_view \<Rightarrow> workspace_view) \<Rightarrow> window \<Rightarrow> window" where
  "modify_view i f wm = wm\<lparr>wm_workspaces := modify_at i f (wm_workspaces wm)\<rparr>"

text \<open>The closures of a tab view hold the view itself: it is found by the id of its workspace.\<close>

definition view_index :: "uuid \<Rightarrow> window \<Rightarrow> nat option" where
  "view_index tv wm = position (\<lambda>w. wv_id w = tv) (wm_workspaces wm)"

definition selected_page :: "workspace_view \<Rightarrow> window_page option" where
  "selected_page w =
     (case wv_selected w of
        Some k \<Rightarrow> if k < length (wv_pages w) then Some (wv_pages w ! k) else None | None \<Rightarrow> None)"

subsection \<open>Colours\<close>

definition channel_of_byte :: "byte \<Rightarrow> f32" where
  "channel_of_byte b = f32_quot (f32_of_int (uint b)) (Finite 255)"

text \<open>\<open>(c.clamp(0.0, 1.0) * 255.0) as u8\<close>: the cast drops the fraction.\<close>

definition byte_of_channel :: "f32 \<Rightarrow> byte" where
  "byte_of_channel c = of_int (max 0 (min 255 (f32_as_i32 (f32_prod (f32_clamp 0 1 c) (Finite 255)))))"

definition hex_char :: "nat \<Rightarrow> char" where
  "hex_char n = (if n < 10 then char_of (48 + n) else char_of (87 + n))"

definition hex2 :: "byte \<Rightarrow> string" where
  "hex2 b = [hex_char (unat b div 16), hex_char (unat b mod 16)]"

definition rgba_to_hex :: "gdk_rgba \<Rightarrow> string" where
  "rgba_to_hex c = CHR 0x23 # hex2 (byte_of_channel (red c)) @ hex2 (byte_of_channel (green c)) @
     hex2 (byte_of_channel (blue c))"

definition hex_to_rgba :: "string \<Rightarrow> gdk_rgba option" where
  "hex_to_rgba s =
     (let hex = (case s of c # cs \<Rightarrow> if c = CHR 0x23 then cs else s | [] \<Rightarrow> s)
      in if length hex \<noteq> 6 \<or> \<not> (\<forall>c \<in> set hex. of_char c < (128 :: nat)) then None
         else case (u8_from_hex (take 2 hex), u8_from_hex (take 2 (drop 2 hex)), u8_from_hex (drop 4 hex)) of
                (Some r, Some g, Some b) \<Rightarrow>
                  Some \<lparr>red = channel_of_byte r, green = channel_of_byte g, blue = channel_of_byte b,
                        alpha = Finite 1\<rparr>
              | _ \<Rightarrow> None)"

subsection \<open>Echoes of the window's own calls\<close>

definition consume_reorder_self_echo :: "(nat \<times> nat) list \<Rightarrow> nat \<Rightarrow> nat \<Rightarrow> bool \<times> (nat \<times> nat) list" where
  "consume_reorder_self_echo pending from_idx to_idx =
     (case pending of
        [] \<Rightarrow> (False, [])
      | (pf, pt) # rest \<Rightarrow>
          if (pf = from_idx \<and> pt = to_idx) \<or> (pf = to_idx \<and> pt = from_idx) then (True, rest)
          else (False, pending))"

definition consume_active_pane_self_echo :: "(nat \<times> uuid \<times> pane_id) list \<Rightarrow> nat \<Rightarrow> uuid \<Rightarrow>
    pane_id option \<Rightarrow> bool \<times> (nat \<times> uuid \<times> pane_id) list" where
  "consume_active_pane_self_echo pending i tid p =
     (case (p, pending) of
        (None, _) \<Rightarrow> (False, pending)
      | (Some pid, []) \<Rightarrow> (False, [])
      | (Some pid, (p_ws, p_tab, p_pane) # rest) \<Rightarrow>
          if p_ws = i \<and> p_tab = tid \<and> p_pane = pid then (True, rest) else (False, pending))"

definition populate_tab_active_pane_map :: "(uuid \<rightharpoonup> pane_id) \<Rightarrow> (uuid \<times> uuid option) list \<Rightarrow>
    (uuid \<rightharpoonup> pane_id)" where
  "populate_tab_active_pane_map m tabs =
     fold (\<lambda>(t, p) m. case p of None \<Rightarrow> m | Some pid \<Rightarrow> m(t \<mapsto> pid)) tabs m"

subsection \<open>Focus\<close>

text \<open>
  The handler of a terminal that gets the focus: the entry for the echo goes into the queue
  before the call, and the call is made whether or not the entry could be made.
\<close>

definition note_focus :: "nat \<Rightarrow> uuid \<Rightarrow> pane_id \<Rightarrow> window \<Rightarrow> window" where
  "note_focus i tid p wm =
     modify_view i (\<lambda>w. w\<lparr>wv_active_pane := (wv_active_pane w)(tid \<mapsto> p)\<rparr>)
       (wm\<lparr>pending_active_pane := pending_active_pane wm @ [(i, tid, p)]\<rparr>)"

text \<open>The tab the handler of a terminal finds for the selected page.\<close>

definition tab_of_focus :: "pane_id \<Rightarrow> workspace_view \<Rightarrow> uuid option" where
  "tab_of_focus p w =
     (case selected_page w of
        None \<Rightarrow> None
      | Some pg \<Rightarrow>
          (case wv_own w p of
             None \<Rightarrow> pg_tab pg
           | Some tid \<Rightarrow> if p \<in> set (collect_leaf_drawing_areas (pg_root pg)) then Some tid else None))"

definition focus_enter :: "libs \<Rightarrow> 'd peer \<Rightarrow> borrowed \<Rightarrow> uuid \<Rightarrow> pane_id \<Rightarrow> window \<times> 'd \<Rightarrow> window \<times> 'd" where
  "focus_enter L P b tv p st =
     (case st of (wm, d) \<Rightarrow>
        (case view_index tv wm of
           None \<Rightarrow> (wm, d)
         | Some k \<Rightarrow>
             let wm1 = modify_view k (\<lambda>w. w\<lparr>wv_tracker := Some p\<rparr>) wm
             in case tab_of_focus p (wm_workspaces wm ! k) of
                  None \<Rightarrow> (wm1, d)
                | Some tid \<Rightarrow>
                    if b = Exclusive then (wm1, d)
                    else let i = wm_active wm1
                         in (if b = Free then note_focus i tid p wm1 else wm1,
                             snd (dc_set_active_pane L P i tid (Some p) d))))"

text \<open>
  \<open>grab_focus\<close>: nothing happens for the terminal that has the focus and for one that is not
  shown, that is not on the selected page of the active workspace.
\<close>

definition is_shown :: "uuid \<Rightarrow> pane_id \<Rightarrow> window \<Rightarrow> bool" where
  "is_shown tv p wm \<longleftrightarrow>
     wm_active wm < length (wm_workspaces wm) \<and>
     (let w = wm_workspaces wm ! wm_active wm
      in wv_id w = tv \<and>
         (case selected_page w of None \<Rightarrow> False
          | Some pg \<Rightarrow> p \<in> set (collect_leaf_drawing_areas (pg_root pg))))"

definition grab_focus :: "libs \<Rightarrow> 'd peer \<Rightarrow> borrowed \<Rightarrow> uuid \<Rightarrow> pane_id \<Rightarrow> window \<times> 'd \<Rightarrow> window \<times> 'd" where
  "grab_focus L P b tv p st =
     (case st of (wm, d) \<Rightarrow>
        if wm_focus wm = Some p \<or> \<not> is_shown tv p wm then (wm, d)
        else focus_enter L P b tv p (wm\<lparr>wm_focus := Some p\<rparr>, d))"

text \<open>The handler of a changed selection, and the change itself.\<close>

definition selected_page_notify :: "libs \<Rightarrow> 'd peer \<Rightarrow> borrowed \<Rightarrow> uuid \<Rightarrow> window \<times> 'd \<Rightarrow> window \<times> 'd" where
  "selected_page_notify L P b tv st =
     (case st of (wm, d) \<Rightarrow>
        (case Option.bind (view_index tv wm) (\<lambda>k. map_option (Pair k) (selected_page (wm_workspaces wm ! k))) of
           None \<Rightarrow> (wm, d)
         | Some (k, pg) \<Rightarrow>
             let w = wm_workspaces wm ! k;
                 leaves = collect_leaf_drawing_areas (pg_root pg);
                 saved = Option.bind (pg_tab pg) (wv_active_pane w);
                 usable = (\<lambda>p. case p of None \<Rightarrow> False | Some q \<Rightarrow> q \<in> set leaves);
                 target = (if usable saved then saved
                           else if usable (wv_tracker w) then wv_tracker w
                           else case leaves of [] \<Rightarrow> None | q # _ \<Rightarrow> Some q);
                 st1 = (case target of None \<Rightarrow> (wm, d) | Some q \<Rightarrow> grab_focus L P b tv q (wm, d))
             in case pg_tab pg of
                  None \<Rightarrow> st1
                | Some tid \<Rightarrow> (fst st1, snd (dc_focus_tab L P tid (snd st1)))))"

definition set_selected_page :: "libs \<Rightarrow> 'd peer \<Rightarrow> borrowed \<Rightarrow> uuid \<Rightarrow> nat \<Rightarrow> window \<times> 'd \<Rightarrow> window \<times> 'd" where
  "set_selected_page L P b tv n st =
     (case view_index tv (fst st) of
        None \<Rightarrow> st
      | Some k \<Rightarrow>
          if wv_selected (wm_workspaces (fst st) ! k) = Some n then st
          else selected_page_notify L P b tv
                 (modify_view k (\<lambda>w. w\<lparr>wv_selected := Some n\<rparr>) (fst st), snd st))"

text \<open>\<open>append\<close>: the first page of a view is selected at once.\<close>

definition append_page :: "libs \<Rightarrow> 'd peer \<Rightarrow> borrowed \<Rightarrow> uuid \<Rightarrow> window_page \<Rightarrow> window \<times> 'd \<Rightarrow> window \<times> 'd" where
  "append_page L P b tv pg st =
     (case view_index tv (fst st) of
        None \<Rightarrow> st
      | Some k \<Rightarrow>
          let st1 = (modify_view k (\<lambda>w. w\<lparr>wv_pages := wv_pages w @ [pg]\<rparr>) (fst st), snd st)
          in if wv_pages (wm_workspaces (fst st) ! k) = [] then set_selected_page L P b tv 0 st1 else st1)"

definition last_page :: "uuid \<Rightarrow> window \<Rightarrow> nat" where
  "last_page tv wm = (case view_index tv wm of None \<Rightarrow> 0 | Some k \<Rightarrow> length (wv_pages (wm_workspaces wm ! k)) - 1)"

text \<open>The entry of a page in \<open>tab_id_map\<close>, made after the page was appended.\<close>

definition enter_tab_id :: "uuid \<Rightarrow> nat \<Rightarrow> uuid \<Rightarrow> window \<Rightarrow> window" where
  "enter_tab_id tv n tid wm =
     (case view_index tv wm of
        None \<Rightarrow> wm
      | Some k \<Rightarrow> modify_view k (\<lambda>w. w\<lparr>wv_pages := modify_at n (\<lambda>pg. pg\<lparr>pg_tab := Some tid\<rparr>) (wv_pages w)\<rparr>) wm)"

subsection \<open>New pages\<close>

text \<open>Whether subscribing to the output of a pane and making its terminal succeed.\<close>

record renderer =
  subscribes :: "pane_id \<Rightarrow> bool"
  creates :: "pane_id \<Rightarrow> bool"

definition renders :: "renderer \<Rightarrow> pane_id \<Rightarrow> bool" where
  "renders rn p \<longleftrightarrow> subscribes rn p \<and> creates rn p"

definition build_auto_spawned_tab_widget :: "libs \<Rightarrow> 'd peer \<Rightarrow> renderer \<Rightarrow> nat \<Rightarrow> uuid \<Rightarrow> pane_id \<Rightarrow>
    window \<times> 'd \<Rightarrow> window \<times> 'd" where
  "build_auto_spawned_tab_widget L P rn i tid p st =
     (if i \<ge> length (wm_workspaces (fst st)) then st
      else if \<not> renders rn p then st
      else let tv = wv_id (wm_workspaces (fst st) ! i);
               st1 = append_page L P Free tv \<lparr>pg_tab = None, pg_root = Terminal p\<rparr> st;
               n = last_page tv (fst st1);
               st2 = (enter_tab_id tv n tid (fst st1), snd st1)
           in if wm_active (fst st2) = i then set_selected_page L P Free tv n st2 else st2)"

definition add_new_tab :: "libs \<Rightarrow> 'd peer \<Rightarrow> renderer \<Rightarrow> nat \<Rightarrow> uuid \<Rightarrow> string list option \<Rightarrow>
    path option \<Rightarrow> bool \<Rightarrow> window \<times> 'd \<Rightarrow> window \<times> 'd" where
  "add_new_tab L P rn i tv command cwd own_map st =
     (case (if command \<noteq> None \<or> cwd \<noteq> None then dc_new_tab_with_profile L P i command cwd (snd st)
            else dc_new_tab L P i (snd st)) of
        (Inl e, d) \<Rightarrow> (fst st, d)
      | (Inr (p, tid), d) \<Rightarrow>
          if \<not> renders rn p then (fst st, d)
          else let own = (\<lambda>wm. case view_index tv wm of
                      None \<Rightarrow> wm
                    | Some k \<Rightarrow> modify_view k (\<lambda>w. w\<lparr>wv_own := (wv_own w)(p \<mapsto> tid)\<rparr>) wm);
                   st1 = append_page L P Free tv \<lparr>pg_tab = None, pg_root = Terminal p\<rparr> (fst st, d);
                   n = last_page tv (fst st1);
                   st2 = (if own_map then own (fst st1) else enter_tab_id tv n tid (fst st1), snd st1);
                   st3 = set_selected_page L P Free tv n st2
               in grab_focus L P Free tv p st3)"

text \<open>
  Duplicating a tab: the new page is entered into a fresh map. \<open>cwd\<close> is the directory of the
  first pane of the page, \<open>profile\<close> what \<open>resolve_default_profile_args\<close> gives when there is none.
\<close>

definition duplicate_tab :: "libs \<Rightarrow> 'd peer \<Rightarrow> renderer \<Rightarrow> nat \<Rightarrow> uuid \<Rightarrow> path option \<Rightarrow>
    string list option \<times> path option \<Rightarrow> window \<times> 'd \<Rightarrow> window \<times> 'd" where
  "duplicate_tab L P rn i tv cwd profile st =
     (case (case cwd of Some p \<Rightarrow> (None, Some p) | None \<Rightarrow> profile) of (command, dir) \<Rightarrow>
        add_new_tab L P rn i tv command dir True st)"

text \<open>Dragging a tab to another place.\<close>

definition reorder_page :: "libs \<Rightarrow> 'd peer \<Rightarrow> uuid \<Rightarrow> nat \<Rightarrow> nat \<Rightarrow> window \<times> 'd \<Rightarrow> window \<times> 'd" where
  "reorder_page L P tv n new_position st =
     (case view_index tv (fst st) of
        None \<Rightarrow> st
      | Some k \<Rightarrow>
          let w = wm_workspaces (fst st) ! k;
              move = (\<lambda>pgs. vec_insert new_position (pgs ! n) (vec_remove n pgs));
              wm1 = modify_view k (\<lambda>w. w\<lparr>wv_pages := move (wv_pages w)\<rparr>) (fst st)
          in if n \<ge> length (wv_pages w) \<or> new_position \<ge> length (wv_pages w) then st
             else if wv_initial w
             then (case pg_tab (wv_pages w ! n) of
                     None \<Rightarrow> (wm1, snd st)
                   | Some tid \<Rightarrow> (wm1, snd (dc_move_tab L P tid new_position (snd st))))
             else (wm1, snd st))"

subsection \<open>Layout events\<close>

definition handle_tab_created :: "libs \<Rightarrow> 'd peer \<Rightarrow> renderer \<Rightarrow> nat \<Rightarrow> uuid \<Rightarrow> pane_id \<Rightarrow>
    window \<times> 'd \<Rightarrow> window \<times> 'd" where
  "handle_tab_created L P rn i tid p st =
     (if i \<ge> length (wm_workspaces (fst st)) then st
      else if \<exists>pg \<in> set (wv_pages (wm_workspaces (fst st) ! i)). pg_tab pg = Some tid then st
      else build_auto_spawned_tab_widget L P rn i tid p st)"

definition handle_workspace_deleted :: "uuid \<Rightarrow> window \<Rightarrow> window" where
  "handle_workspace_deleted u wm =
     (case position (\<lambda>w. wv_id w = u) (wm_workspaces wm) of
        None \<Rightarrow> wm
      | Some k \<Rightarrow>
          let wss = vec_remove k (wm_workspaces wm); new_len = length wss; act = wm_active wm
          in wm\<lparr>wm_workspaces := wss,
                wm_active := (if act > k then act - 1
                              else if act \<ge> new_len \<and> new_len > 0 then new_len - 1 else act)\<rparr>)"

definition handle_color_changed :: "uuid \<Rightarrow> string option \<Rightarrow> window \<Rightarrow> window" where
  "handle_color_changed u color wm =
     (case position (\<lambda>w. wv_id w = u) (wm_workspaces wm) of
        None \<Rightarrow> wm
      | Some k \<Rightarrow>
          if map_option rgba_to_hex (wv_color (wm_workspaces wm ! k)) = color then wm
          else modify_view k (\<lambda>w. w\<lparr>wv_color := Option.bind color hex_to_rgba\<rparr>) wm)"

text \<open>The swap and the active index that follows, here and in the two moves of the user.\<close>

definition swap_workspaces :: "nat \<Rightarrow> nat \<Rightarrow> window \<Rightarrow> window" where
  "swap_workspaces i j wm =
     wm\<lparr>wm_workspaces := vec_swap i j (wm_workspaces wm),
        wm_active := (if wm_active wm = i then j else if wm_active wm = j then i else wm_active wm)\<rparr>"

definition handle_reordered :: "nat \<Rightarrow> nat \<Rightarrow> window \<Rightarrow> window" where
  "handle_reordered i j wm =
     (if i \<ge> length (wm_workspaces wm) \<or> j \<ge> length (wm_workspaces wm) then wm
      else case consume_reorder_self_echo (pending_reorders wm) i j of
             (own, pending) \<Rightarrow>
               let wm1 = wm\<lparr>pending_reorders := pending\<rparr>
               in if own then wm1 else swap_workspaces i j wm1)"

text \<open>The focus is grabbed while the state is borrowed for reading.\<close>

definition handle_active_pane_changed :: "libs \<Rightarrow> 'd peer \<Rightarrow> nat \<Rightarrow> uuid \<Rightarrow> pane_id option \<Rightarrow>
    window \<times> 'd \<Rightarrow> window \<times> 'd" where
  "handle_active_pane_changed L P i tid p st =
     (case consume_active_pane_self_echo (pending_active_pane (fst st)) i tid p of
        (own, pending) \<Rightarrow>
          let wm1 = (fst st)\<lparr>pending_active_pane := pending\<rparr>
          in if own then (wm1, snd st)
             else case p of
                    None \<Rightarrow> (wm1, snd st)
                  | Some pid \<Rightarrow>
                      if i \<ge> length (wm_workspaces wm1) then (wm1, snd st)
                      else let w = wm_workspaces wm1 ! i;
                               wm2 = modify_view i (\<lambda>w. w\<lparr>wv_active_pane := (wv_active_pane w)(tid \<mapsto> pid)\<rparr>) wm1
                           in case find (\<lambda>pg. pg_tab pg = Some tid) (wv_pages w) of
                                None \<Rightarrow> (wm2, snd st)
                              | Some pg \<Rightarrow>
                                  if pid \<in> set (collect_leaf_drawing_areas (pg_root pg))
                                  then grab_focus L P Shared (wv_id w) pid (wm2, snd st)
                                  else (wm2, snd st))"

fun handle_layout_event :: "libs \<Rightarrow> 'd peer \<Rightarrow> renderer \<Rightarrow> layout_event \<Rightarrow> window \<times> 'd \<Rightarrow> window \<times> 'd" where
  "handle_layout_event L P rn (LTabCreated i tid p) st = handle_tab_created L P rn i tid p st"
| "handle_layout_event L P rn (LTabClosed i tid) st = st"
| "handle_layout_event L P rn (LPaneSplit tid p n dir) st = st"
| "handle_layout_event L P rn (LTabMoved i tid n) st = st"
| "handle_layout_event L P rn (LActiveTabChanged i j) st = st"
| "handle_layout_event L P rn (LWorkspaceRenamed i u name) st =
     (if i \<ge> length (wm_workspaces (fst st)) then st
      else (modify_view i (\<lambda>w. w\<lparr>wv_name := name\<rparr>) (fst st), snd st))"
| "handle_layout_event L P rn (LWorkspaceDeleted i u) st = (handle_workspace_deleted u (fst st), snd st)"
| "handle_layout_event L P rn (LWorkspaceColorChanged i u color) st =
     (handle_color_changed u color (fst st), snd st)"
| "handle_layout_event L P rn (LWorkspacesReordered i j u v) st = (handle_reordered i j (fst st), snd st)"
| "handle_layout_event L P rn (LActivePaneChanged i tid p) st = handle_active_pane_changed L P i tid p st"

subsection \<open>Workspaces\<close>

definition first_terminal :: "workspace_view \<Rightarrow> pane_id option" where
  "first_terminal w =
     (case selected_page w of
        None \<Rightarrow> None
      | Some pg \<Rightarrow> (case collect_leaf_drawing_areas (pg_root pg) of [] \<Rightarrow> None | q # _ \<Rightarrow> Some q))"

text \<open>The other view is put into the window, which takes the focus from the old one.\<close>

definition focus_first :: "libs \<Rightarrow> 'd peer \<Rightarrow> window \<times> 'd \<Rightarrow> window \<times> 'd" where
  "focus_first L P st =
     (let w = wm_workspaces (fst st) ! wm_active (fst st)
      in case first_terminal w of
           None \<Rightarrow> st
         | Some q \<Rightarrow> grab_focus L P Exclusive (wv_id w) q st)"

definition switch_workspace :: "libs \<Rightarrow> 'd peer \<Rightarrow> nat \<Rightarrow> window \<times> 'd \<Rightarrow> window \<times> 'd" where
  "switch_workspace L P target st =
     (if target \<ge> length (wm_workspaces (fst st)) \<or> target = wm_active (fst st) then st
      else let st1 = focus_first L P ((fst st)\<lparr>wm_active := target, wm_focus := None\<rparr>, snd st)
           in (fst st1, snd (dc_set_active_workspace L P target (snd st1))))"

text \<open>A view of new tabs, which is not yet in the window while they are made.\<close>

definition fresh_view :: "renderer \<Rightarrow> uuid \<Rightarrow> string \<Rightarrow> (uuid \<times> pane_id) list \<Rightarrow> workspace_view" where
  "fresh_view rn u name tabs =
     (let pages = map (\<lambda>(t, p). \<lparr>pg_tab = Some t, pg_root = Terminal p\<rparr>) [(t, p) \<leftarrow> tabs. renders rn p];
          first = (case [p. (t, p) \<leftarrow> tabs, renders rn p] of [] \<Rightarrow> None | p # _ \<Rightarrow> Some p)
      in \<lparr>wv_id = u, wv_name = name, wv_pages = pages,
          wv_selected = (if pages = [] then None else Some 0), wv_tracker = first,
          wv_active_pane = Map.empty, wv_own = Map.empty, wv_initial = False, wv_color = None\<rparr>)"

definition create_and_switch_to_new_workspace :: "libs \<Rightarrow> 'd peer \<Rightarrow> renderer \<Rightarrow> string \<Rightarrow>
    window \<times> 'd \<Rightarrow> window \<times> 'd" where
  "create_and_switch_to_new_workspace L P rn name st =
     (case dc_create_workspace L P name (snd st) of
        (Inl e, d) \<Rightarrow> (fst st, d)
      | (Inr (u, i, p, t), d) \<Rightarrow>
          if \<not> subscribes rn p then (fst st, d)
          else let v = fresh_view rn u name [(t, p)];
                   wss = wm_workspaces (fst st) @ [v]
               in ((fst st)\<lparr>wm_workspaces := wss, wm_active := length wss - 1, wm_focus := wv_tracker v\<rparr>, d))"

text \<open>The dialog to rename a workspace: the text of the entry is trimmed, an empty one refused.\<close>

definition window_rename_workspace :: "libs \<Rightarrow> 'd peer \<Rightarrow> nat \<Rightarrow> string \<Rightarrow> window \<times> 'd \<Rightarrow> window \<times> 'd" where
  "window_rename_workspace L P i text st =
     (let name = rust_trim text
      in if i \<ge> length (wm_workspaces (fst st)) \<or> name = [] then st
         else case dc_rename_workspace L P i name (snd st) of
                (Inl e, d) \<Rightarrow> (fst st, d)
              | (Inr _, d) \<Rightarrow> (modify_view i (\<lambda>w. w\<lparr>wv_name := name\<rparr>) (fst st), d))"

definition apply_workspace_color_local :: "nat \<Rightarrow> gdk_rgba option \<Rightarrow> window \<Rightarrow> window" where
  "apply_workspace_color_local i color wm =
     (if i \<ge> length (wm_workspaces wm) then wm else modify_view i (\<lambda>w. w\<lparr>wv_color := color\<rparr>) wm)"

definition apply_workspace_color :: "libs \<Rightarrow> 'd peer \<Rightarrow> nat \<Rightarrow> gdk_rgba option \<Rightarrow> window \<times> 'd \<Rightarrow> window \<times> 'd" where
  "apply_workspace_color L P i color st =
     (if i \<ge> length (wm_workspaces (fst st)) then st
      else case dc_set_workspace_color L P i (map_option rgba_to_hex color) (snd st) of
             (Inl e, d) \<Rightarrow> (fst st, d)
           | (Inr _, d) \<Rightarrow> (apply_workspace_color_local i color (fst st), d))"

definition window_duplicate_workspace :: "libs \<Rightarrow> 'd peer \<Rightarrow> renderer \<Rightarrow> nat \<Rightarrow> window \<times> 'd \<Rightarrow> window \<times> 'd" where
  "window_duplicate_workspace L P rn i st =
     (if i \<ge> length (wm_workspaces (fst st)) then st
      else case dc_duplicate_workspace L P i None (snd st) of
             (Inl e, d) \<Rightarrow> (fst st, d)
           | (Inr (u, daemon_idx, tabs), d) \<Rightarrow>
               let dup_name = wv_name (wm_workspaces (fst st) ! i) @ '' (copy)'';
                   v = fresh_view rn u dup_name tabs;
                   clamped = min daemon_idx (length (wm_workspaces (fst st)));
                   wm1 = (fst st)\<lparr>wm_workspaces := vec_insert clamped v (wm_workspaces (fst st)),
                                  wm_active := clamped, wm_focus := wv_tracker v\<rparr>
               in (wm1, snd (dc_set_active_workspace L P clamped d)))"

text \<open>Moving a workspace up or down.\<close>

definition move_workspace_to :: "libs \<Rightarrow> 'd peer \<Rightarrow> nat \<Rightarrow> nat \<Rightarrow> window \<times> 'd \<Rightarrow> window \<times> 'd" where
  "move_workspace_to L P i j st =
     (case dc_move_workspace L P i j (snd st) of
        (Inl e, d) \<Rightarrow> (fst st, d)
      | (Inr _, d) \<Rightarrow>
          (swap_workspaces i j ((fst st)\<lparr>pending_reorders := pending_reorders (fst st) @ [(i, j)]\<rparr>), d))"

definition move_workspace_up :: "libs \<Rightarrow> 'd peer \<Rightarrow> nat \<Rightarrow> window \<times> 'd \<Rightarrow> window \<times> 'd" where
  "move_workspace_up L P i st =
     (if i = 0 \<or> i \<ge> length (wm_workspaces (fst st)) then st else move_workspace_to L P i (i - 1) st)"

definition move_workspace_down :: "libs \<Rightarrow> 'd peer \<Rightarrow> nat \<Rightarrow> window \<times> 'd \<Rightarrow> window \<times> 'd" where
  "move_workspace_down L P i st =
     (if i + 1 \<ge> length (wm_workspaces (fst st)) then st else move_workspace_to L P i (i + 1) st)"

definition do_delete_workspace_at_index :: "libs \<Rightarrow> 'd peer \<Rightarrow> nat \<Rightarrow> window \<times> 'd \<Rightarrow> window \<times> 'd" where
  "do_delete_workspace_at_index L P i st =
     (if i \<ge> length (wm_workspaces (fst st)) \<or> length (wm_workspaces (fst st)) \<le> 1 then st
      else case dc_delete_workspace L P i (snd st) of
             (Inl e, d) \<Rightarrow> (fst st, d)
           | (Inr _, d) \<Rightarrow>
               let wm = fst st;
                   wss = vec_remove i (wm_workspaces wm);
                   new_active = (if wm_active wm > i then wm_active wm - 1
                                 else if wm_active wm = i then min i (length wss - 1) else wm_active wm);
                   lost = (if wm_active wm = i then None else wm_focus wm)
               in focus_first L P (wm\<lparr>wm_workspaces := wss, wm_active := new_active, wm_focus := lost\<rparr>, d))"

text \<open>With more than one tab the user is asked.\<close>

definition delete_workspace_at_index :: "libs \<Rightarrow> 'd peer \<Rightarrow> nat \<Rightarrow> bool \<Rightarrow> window \<times> 'd \<Rightarrow> window \<times> 'd" where
  "delete_workspace_at_index L P i confirmed st =
     (if i \<ge> length (wm_workspaces (fst st)) \<or> length (wm_workspaces (fst st)) \<le> 1 then st
      else if length (wv_pages (wm_workspaces (fst st) ! i)) \<le> 1 \<or> confirmed
      then do_delete_workspace_at_index L P i st else st)"

subsection \<open>The window at start-up\<close>

definition initial_window :: "uuid \<Rightarrow> window" where
  "initial_window u =
     \<lparr>wm_workspaces = [\<lparr>wv_id = u, wv_name = ''Default'', wv_pages = [], wv_selected = None, wv_tracker = None,
        wv_active_pane = Map.empty, wv_own = Map.empty, wv_initial = True, wv_color = None\<rparr>],
      wm_active = 0, pending_reorders = [], pending_active_pane = [], wm_focus = None\<rparr>"

definition saved_panes :: "workspace_info \<Rightarrow> uuid \<rightharpoonup> pane_id" where
  "saved_panes wi = populate_tab_active_pane_map Map.empty
     (map (\<lambda>t. (ti_tab_id t, ti_active_pane_id t)) (wi_tabs wi))"

text \<open>The tabs of one workspace; one that cannot be built is left out.\<close>

definition build_tabs :: "libs \<Rightarrow> 'd peer \<Rightarrow> renderer \<Rightarrow> borrowed \<Rightarrow> uuid \<Rightarrow> tab_info list \<Rightarrow>
    window \<times> 'd \<Rightarrow> window \<times> 'd" where
  "build_tabs L P rn b tv tabs st =
     fold (\<lambda>t st. case build_widget_from_pane_tree (renders rn) (ti_pane_tree t) of
                    None \<Rightarrow> st
                  | Some rw \<Rightarrow> append_page L P b tv \<lparr>pg_tab = Some (ti_tab_id t), pg_root = rw\<rparr> st) tabs st"

definition pages_of :: "uuid \<Rightarrow> window \<Rightarrow> window_page list" where
  "pages_of tv wm = (case view_index tv wm of None \<Rightarrow> [] | Some k \<Rightarrow> wv_pages (wm_workspaces wm ! k))"

definition build_first_workspace :: "libs \<Rightarrow> 'd peer \<Rightarrow> renderer \<Rightarrow> workspace_info \<Rightarrow>
    window \<times> 'd \<Rightarrow> window \<times> 'd" where
  "build_first_workspace L P rn wi st =
     (if wi_tabs wi = [] then st
      else let tv = wv_id (wm_workspaces (fst st) ! 0);
               st1 = (modify_view 0 (\<lambda>w. w\<lparr>wv_active_pane := saved_panes wi\<rparr>) (fst st), snd st);
               st2 = build_tabs L P rn Shared tv (wi_tabs wi) st1;
               created = pages_of tv (fst st2)
           in if created = [] then st2
              else let st3 = set_selected_page L P Free tv (min (wi_active_tab wi) (length created - 1)) st2
                   in (modify_view 0 (\<lambda>w. w\<lparr>wv_id := wi_id wi, wv_name := wi_name wi,
                          wv_color := Option.bind (wi_color wi) hex_to_rgba\<rparr>) (fst st3), snd st3))"

text \<open>The view is entered before its tabs are built; it is not shown meanwhile.\<close>

definition build_next_workspace :: "libs \<Rightarrow> 'd peer \<Rightarrow> renderer \<Rightarrow> workspace_info \<Rightarrow>
    window \<times> 'd \<Rightarrow> window \<times> 'd" where
  "build_next_workspace L P rn wi st =
     (if wi_tabs wi = [] then st
      else let v = \<lparr>wv_id = wi_id wi, wv_name = wi_name wi, wv_pages = [], wv_selected = None, wv_tracker = None,
                 wv_active_pane = saved_panes wi, wv_own = Map.empty, wv_initial = False,
                 wv_color = Option.bind (wi_color wi) hex_to_rgba\<rparr>;
               old = wm_workspaces (fst st);
               st1 = ((fst st)\<lparr>wm_workspaces := old @ [v]\<rparr>, snd st);
               st2 = build_tabs L P rn Free (wi_id wi) (wi_tabs wi) st1;
               created = pages_of (wi_id wi) (fst st2)
           in if created = [] then ((fst st2)\<lparr>wm_workspaces := old\<rparr>, snd st2)
              else set_selected_page L P Free (wi_id wi) (min (wi_active_tab wi) (length created - 1)) st2)"

definition build_widgets_from_layout :: "libs \<Rightarrow> 'd peer \<Rightarrow> renderer \<Rightarrow> layout_info \<Rightarrow>
    window \<times> 'd \<Rightarrow> bool \<times> window \<times> 'd" where
  "build_widgets_from_layout L P rn l st =
     (case li_workspaces l of
        [] \<Rightarrow> (False, st)
      | ws0 # rest \<Rightarrow>
          let act = (if li_active_workspace l < length (li_workspaces l) then li_active_workspace l else 0)
          in if \<forall>w \<in> set (li_workspaces l). wi_tabs w = [] then (False, st)
             else let st1 = fold (build_next_workspace L P rn) rest (build_first_workspace L P rn ws0 st);
                      st2 = (if act > 0 then switch_workspace L P act st1 else st1);
                      st3 = (if act \<ge> length (wm_workspaces (fst st2)) then st2
                             else let w = wm_workspaces (fst st2) ! act
                                  in case selected_page w of
                                       None \<Rightarrow> st2
                                     | Some pg \<Rightarrow>
                                         let leaves = collect_leaf_drawing_areas (pg_root pg);
                                             saved = Option.bind (pg_tab pg) (\<lambda>tid.
                                               Option.bind (find (\<lambda>t. ti_tab_id t = tid)
                                                   (concat (map wi_tabs (li_workspaces l)))) ti_active_pane_id);
                                             target = (case saved of
                                                 Some q \<Rightarrow> if q \<in> set leaves then Some q
                                                           else (case leaves of [] \<Rightarrow> None | q # _ \<Rightarrow> Some q)
                                               | None \<Rightarrow> (case leaves of [] \<Rightarrow> None | q # _ \<Rightarrow> Some q))
                                         in case target of None \<Rightarrow> st2
                                            | Some q \<Rightarrow> grab_focus L P Free (wv_id w) q st2)
                  in (\<exists>w \<in> set (wm_workspaces (fst st3)). wv_pages w \<noteq> [], st3))"

end
