(* ===== verification/WindowProps.thy ===== *)
theory WindowProps
  imports Window ClientProps LayoutEvents
begin

section \<open>The window follows the daemon\<close>

text \<open>
  The window changes its own state with each call it makes and hears of the same change again
  from the daemon, later. This theory shows for which runs the two stay together, and what
  happens otherwise.
\<close>

subsection \<open>Queues of expected echoes\<close>

locale echo_queue =
  fixes consume :: "'e list \<Rightarrow> 'x \<Rightarrow> bool \<times> 'e list"
    and own :: "'e \<Rightarrow> 'x \<Rightarrow> bool"
  assumes consume_none: "consume [] x = (False, [])"
    and consume_own: "own e x \<Longrightarrow> consume (e # q) x = (True, q)"
    and consume_other: "\<not> own e x \<Longrightarrow> consume (e # q) x = (False, e # q)"
begin

fun consume_all :: "'e list \<Rightarrow> 'x list \<Rightarrow> bool list \<times> 'e list" where
  "consume_all q [] = ([], q)"
| "consume_all q (x # xs) =
     (case consume q x of (b, q1) \<Rightarrow> (case consume_all q1 xs of (bs, q2) \<Rightarrow> (b # bs, q2)))"

lemma all_own: "list_all2 own es xs \<Longrightarrow> consume_all (es @ q) xs = (replicate (length xs) True, q)"
  by (induction rule: list_all2_induct) (simp_all add: consume_own)

lemma stale_head: "\<forall>x \<in> set xs. \<not> own e x \<Longrightarrow> consume_all (e # q) xs = (replicate (length xs) False, e # q)"
  by (induction xs) (simp_all add: consume_other)

end

definition same_reorder :: "nat \<times> nat \<Rightarrow> nat \<times> nat \<Rightarrow> bool" where
  "same_reorder e x \<longleftrightarrow> e = x \<or> e = (snd x, fst x)"

interpretation reorders: echo_queue "\<lambda>q x. consume_reorder_self_echo q (fst x) (snd x)" same_reorder
  by unfold_locales (auto simp: consume_reorder_self_echo_def same_reorder_def split: if_splits)

interpretation pane_echoes: echo_queue
  "\<lambda>q x. consume_active_pane_self_echo q (fst x) (fst (snd x)) (snd (snd x))"
  "\<lambda>e x. snd (snd x) = Some (snd (snd e)) \<and> fst e = fst x \<and> fst (snd e) = fst (snd x)"
  by unfold_locales (auto simp: consume_active_pane_self_echo_def split: option.split)

subsection \<open>Changes of the session that keep the list of workspaces\<close>

abbreviation session_ids :: "session \<Rightarrow> uuid list" where
  "session_ids s \<equiv> map ws_id (workspaces (layout s))"

fun order_event :: "session_event \<Rightarrow> bool" where
  "order_event (WorkspacesReordered i j u v) \<longleftrightarrow> True"
| "order_event (WorkspaceDeleted i u) \<longleftrightarrow> True"
| "order_event _ \<longleftrightarrow> False"

definition hush :: "session \<Rightarrow> session \<Rightarrow> bool" where
  "hush s s' \<longleftrightarrow>
     session_ids s' = session_ids s \<and> active_workspace (layout s') = active_workspace (layout s) \<and>
     (\<forall>D. sinv {} D s \<longrightarrow> (\<exists>D'. sinv {} D' s')) \<and> future_ids s' \<subseteq> future_ids s \<and>
     (\<exists>new. events s' = events s @ new \<and> (\<forall>e \<in> set new. \<not> order_event e))"

lemma hush_refl [simp]: "hush s s"
  unfolding hush_def by auto

lemma hush_trans: "hush s t \<Longrightarrow> hush t u \<Longrightarrow> hush s u"
  unfolding hush_def by (elim conjE exE, intro conjI) (blast | simp | (intro exI conjI, simp, blast) | fastforce)+

lemma hush_ops:
  "hush s (snd (rename_workspace i nm s))" "hush s (snd (set_workspace_color i cl s))"
  "hush s (snd (set_active_tab i j s))" "hush s (snd (set_active_pane i t p s))"
proof -
  have inv: "\<forall>D. sinv {} D s \<longrightarrow> (\<exists>D'. sinv {} D' (exec_op op s))" if "op_enabled op s" for op
    using inv_exec_op[OF _ that] by blast
  have fut: "future_ids (exec_op op s) \<subseteq> future_ids s" for op
    by (rule ext_future[OF ext_exec_op])
  have mod: "(\<And>ws. ws_id (f ws) = ws_id ws) \<Longrightarrow> map ws_id (modify_at k f wss) = map ws_id wss" for k f wss
    by (rule nth_equalityI) (simp_all add: modify_at_nth)
  show "hush s (snd (rename_workspace i nm s))"
    using inv[of "ORenameWorkspace i nm"] fut[of "ORenameWorkspace i nm"]
    by (auto simp: hush_def rename_workspace_def Let_def modify_layout_ws_def mod)
  show "hush s (snd (set_workspace_color i cl s))"
    using inv[of "OSetWorkspaceColor i cl"] fut[of "OSetWorkspaceColor i cl"]
    by (auto simp: hush_def set_workspace_color_def Let_def modify_layout_ws_def mod)
  show "hush s (snd (set_active_tab i j s))"
    using inv[of "OSetActiveTab i j"] fut[of "OSetActiveTab i j"]
    by (auto simp: hush_def set_active_tab_def Let_def modify_layout_ws_def mod)
  show "hush s (snd (set_active_pane i t p s))"
    using inv[of "OSetActivePane i t p"] fut[of "OSetActivePane i t p"]
    by (auto simp: hush_def set_active_pane_def Let_def modify_layout_ws_def mod split: option.splits)
qed

subsection \<open>Focus and pages keep the list of workspaces\<close>

definition quiet :: "window \<times> daemon \<Rightarrow> window \<times> daemon \<Rightarrow> bool" where
  "quiet st st' \<longleftrightarrow>
     map wv_id (wm_workspaces (fst st')) = map wv_id (wm_workspaces (fst st)) \<and>
     wm_active (fst st') = wm_active (fst st) \<and> pending_reorders (fst st') = pending_reorders (fst st) \<and>
     hush (d_session (snd st)) (d_session (snd st'))"

lemma quiet_refl [simp]: "quiet st st"
  by (simp add: quiet_def)

lemma quiet_trans: "quiet st st1 \<Longrightarrow> quiet st1 st2 \<Longrightarrow> quiet st st2"
  unfolding quiet_def using hush_trans by metis

lemma quiet_view:
  "(\<And>w. wv_id (f w) = wv_id w) \<Longrightarrow> quiet (wm, d) (modify_view k f wm, d)"
  by (auto simp: quiet_def modify_view_def modify_at_nth intro!: nth_equalityI)

text \<open>The calls without an answer: what becomes of the session, and whether they fail.\<close>

lemma unit_answer:
  assumes "agrees c render n d call" "perform (c_libs c) (daemon_peer c render n) call d = reply_of (\<lambda>_. ADone) x"
    and "session_call (c_libs c) call (d_session d) = outcome_of (\<lambda>_. ADone) y"
  shows "snd x = d\<lparr>d_session := snd (y :: unit outcome)\<rparr> \<and> (isl (fst x) \<longleftrightarrow> isl (fst y))"
  using assms by (cases x; cases y) (auto simp: agrees_def in_daemon_def reply_of_def outcome_of_def
    split: sum.splits)

lemma dc_session:
  assumes w: "wire_ok (c_libs c) rd" and P: "P = daemon_peer c render n" and L: "L = c_libs c"
  shows "i < 2 ^ 64 \<Longrightarrow> snd (dc_set_active_pane L P i t p d) =
      d\<lparr>d_session := snd (set_active_pane i t p (d_session d))\<rparr> \<and>
      (isl (fst (dc_set_active_pane L P i t p d)) \<longleftrightarrow> isl (fst (set_active_pane i t p (d_session d))))"
    "i < 2 ^ 64 \<Longrightarrow> snd (dc_set_active_workspace L P i d) =
      d\<lparr>d_session := snd (set_active_workspace i (d_session d))\<rparr> \<and>
      (isl (fst (dc_set_active_workspace L P i d)) \<longleftrightarrow> isl (fst (set_active_workspace i (d_session d))))"
    "i < 2 ^ 64 \<Longrightarrow> snd (dc_rename_workspace L P i nm d) =
      d\<lparr>d_session := snd (rename_workspace i nm (d_session d))\<rparr> \<and>
      (isl (fst (dc_rename_workspace L P i nm d)) \<longleftrightarrow> isl (fst (rename_workspace i nm (d_session d))))"
    "i < 2 ^ 64 \<Longrightarrow> snd (dc_set_workspace_color L P i cl d) =
      d\<lparr>d_session := snd (set_workspace_color i cl (d_session d))\<rparr> \<and>
      (isl (fst (dc_set_workspace_color L P i cl d)) \<longleftrightarrow> isl (fst (set_workspace_color i cl (d_session d))))"
    "i < 2 ^ 64 \<Longrightarrow> j < 2 ^ 64 \<Longrightarrow> snd (dc_move_workspace L P i j d) =
      d\<lparr>d_session := snd (move_workspace i j (d_session d))\<rparr> \<and>
      (isl (fst (dc_move_workspace L P i j d)) \<longleftrightarrow> isl (fst (move_workspace i j (d_session d))))"
    "i < 2 ^ 64 \<Longrightarrow> snd (dc_delete_workspace L P i d) =
      d\<lparr>d_session := snd (delete_workspace i (d_session d))\<rparr> \<and>
      (isl (fst (dc_delete_workspace L P i d)) \<longleftrightarrow> isl (fst (delete_workspace i (d_session d))))"
  unfolding P L
  by ((rule unit_answer, rule agrees_unit_calls[OF w] agrees_other_calls[OF w] agrees_workspace_calls[OF w];
      assumption?), simp_all only: perform.simps session_call.simps)+

lemma focus_tab_hush:
  assumes "wire_ok (c_libs c) rd"
  shows "hush (d_session d) (d_session (snd (dc_focus_tab (c_libs c) (daemon_peer c render n) t d)))"
proof -
  have "snd (session_call (c_libs c) (CFocusTab t) (d_session d)) = d_session d \<or>
      (\<exists>i j. snd (session_call (c_libs c) (CFocusTab t) (d_session d)) = snd (set_active_tab i j (d_session d)))"
    by (auto simp: outcome_of_def split: option.split sum.split prod.split)
  then show ?thesis
    using agrees_other_calls(2)[OF assms, of render n d t] hush_ops(3)[of "d_session d"]
    by (auto simp: agrees_def in_daemon_def reply_of_def prod_eq_iff)
qed

lemma quiet_session:
  "quiet st (wm, d) \<Longrightarrow> hush (d_session d) (d_session d') \<Longrightarrow> quiet st (wm, d')"
  unfolding quiet_def using hush_trans by auto

lemma quiet_same:
  "quiet st (wm, d) \<Longrightarrow> map wv_id (wm_workspaces wm') = map wv_id (wm_workspaces wm) \<Longrightarrow>
   wm_active wm' = wm_active wm \<Longrightarrow> pending_reorders wm' = pending_reorders wm \<Longrightarrow> quiet st (wm', d)"
  by (simp add: quiet_def)

lemma view_ids:
  "(\<And>w. wv_id (f w) = wv_id w) \<Longrightarrow> map wv_id (wm_workspaces (modify_view k f wm)) = map wv_id (wm_workspaces wm)"
  by (auto simp: modify_view_def modify_at_nth intro!: nth_equalityI)

lemma view_fields [simp]:
  "wm_active (modify_view k f wm) = wm_active wm" "pending_reorders (modify_view k f wm) = pending_reorders wm"
  "pending_active_pane (modify_view k f wm) = pending_active_pane wm" "wm_focus (modify_view k f wm) = wm_focus wm"
  by (simp_all add: modify_view_def)

lemma note_focus_fields [simp]:
  "map wv_id (wm_workspaces (note_focus i t p wm)) = map wv_id (wm_workspaces wm)"
  "wm_active (note_focus i t p wm) = wm_active wm"
  "pending_reorders (note_focus i t p wm) = pending_reorders wm"
  by (simp_all add: note_focus_def view_ids)

lemma quiet_focus:
  assumes w: "wire_ok (c_libs c) rd" and a: "wm_active (fst st) < 2 ^ 64"
  shows "quiet st (focus_enter (c_libs c) (daemon_peer c render n) b tv p st)"
    "quiet st (grab_focus (c_libs c) (daemon_peer c render n) b tv p st)"
    "quiet st (selected_page_notify (c_libs c) (daemon_peer c render n) b tv st)"
proof -
  have enter: "quiet st (focus_enter (c_libs c) (daemon_peer c render n) b tv p st)"
    if "wm_active (fst st) < 2 ^ 64" for st p
  proof (cases st)
    case (Pair wm d)
    have hush: "hush (d_session d) (d_session (snd (dc_set_active_pane (c_libs c) (daemon_peer c render n)
        (wm_active wm) t (Some p) d)))" for t
      using dc_session(1)[OF w refl refl] hush_ops(4) that Pair by simp
    show ?thesis
      using hush Pair by (auto simp: focus_enter_def quiet_def Let_def view_ids split: option.split)
  qed
  then show "quiet st (focus_enter (c_libs c) (daemon_peer c render n) b tv p st)" using a by blast
  have grab: "quiet st (grab_focus (c_libs c) (daemon_peer c render n) b tv p st)" for p
  proof (cases st)
    case (Pair wm d)
    have "quiet (wm\<lparr>wm_focus := Some p\<rparr>, d) (focus_enter (c_libs c) (daemon_peer c render n) b tv p (wm\<lparr>wm_focus := Some p\<rparr>, d))"
      using a Pair by (intro enter) simp
    then show ?thesis using Pair by (simp add: grab_focus_def quiet_def)
  qed
  then show "quiet st (grab_focus (c_libs c) (daemon_peer c render n) b tv p st)" .
  show "quiet st (selected_page_notify (c_libs c) (daemon_peer c render n) b tv st)"
  proof (cases st)
    case (Pair wm d)
    have tab: "quiet st (case t of None \<Rightarrow> st1
        | Some tid \<Rightarrow> (fst st1, snd (dc_focus_tab (c_libs c) (daemon_peer c render n) tid (snd st1))))"
      if "quiet st st1" for st1 t
    proof (cases t)
      case (Some tid)
      then show ?thesis
        using quiet_session[of st "fst st1" "snd st1", OF _ focus_tab_hush[OF w]] that by simp
    qed (use that in simp)
    have "quiet st (case t of None \<Rightarrow> (wm, d) | Some q \<Rightarrow> grab_focus (c_libs c) (daemon_peer c render n) b tv q (wm, d))" for t
      using grab Pair by (cases t) auto
    then show ?thesis using tab Pair unfolding selected_page_notify_def Let_def
      by (simp split: option.split prod.split)
  qed
qed

text \<open>A step on a state that \<open>quiet\<close> already relates to the first.\<close>

lemma quiet_then:
  "quiet st st1 \<Longrightarrow> wm_active (fst st) < N \<Longrightarrow> (\<And>st. wm_active (fst st) < N \<Longrightarrow> quiet st (f st)) \<Longrightarrow> quiet st (f st1)"
  using quiet_trans[of st st1 "f st1"] by (simp add: quiet_def)

lemma quiet_pages:
  assumes w: "wire_ok (c_libs c) rd" and a: "wm_active (fst st) < 2 ^ 64"
  shows "quiet st (set_selected_page (c_libs c) (daemon_peer c render n) b tv k st)" (is "quiet _ (?select b k st)")
    and "quiet st (append_page (c_libs c) (daemon_peer c render n) b tv pg st)"
    and "quiet st (enter_tab_id tv k tid (fst st), snd st)"
proof -
  have select: "quiet st (?select b k st)" if "wm_active (fst st) < 2 ^ 64" for st b k
  proof (cases "view_index tv (fst st)")
    case (Some i)
    have "quiet st (modify_view i f (fst st), snd st)" if "\<And>w. wv_id (f w) = wv_id w" for f
      using quiet_view[OF that, of "fst st" "snd st" i] by simp
    then show ?thesis
      using Some quiet_then[of st _ "2 ^ 64" "selected_page_notify (c_libs c) (daemon_peer c render n) b tv",
        OF _ that quiet_focus(3)[OF w]] by (simp add: set_selected_page_def)
  qed (simp add: set_selected_page_def)
  then show "quiet st (?select b k st)" using a by blast
  show "quiet st (append_page (c_libs c) (daemon_peer c render n) b tv pg st)"
  proof (cases "view_index tv (fst st)")
    case (Some i)
    have "quiet st (modify_view i (\<lambda>w. w\<lparr>wv_pages := wv_pages w @ [pg]\<rparr>) (fst st), snd st)"
      using quiet_view[of "\<lambda>w. w\<lparr>wv_pages := wv_pages w @ [pg]\<rparr>" "fst st" "snd st" i] by simp
    from quiet_then[OF this a, of "?select b 0"] select this show ?thesis
      using Some by (simp add: append_page_def Let_def)
  qed (simp add: append_page_def)
  show "quiet st (enter_tab_id tv k tid (fst st), snd st)"
    using quiet_view[of _ "fst st" "snd st"] by (auto simp: enter_tab_id_def split: option.split)
qed

lemma quiet_events:
  assumes w: "wire_ok (c_libs c) rd" and a: "wm_active (fst st) < 2 ^ 64"
  shows "quiet st (handle_tab_created (c_libs c) (daemon_peer c render n) rn i tid p st)"
    and "quiet st (handle_active_pane_changed (c_libs c) (daemon_peer c render n) i tid q st)"
    and "quiet st (handle_color_changed u cl (fst st), snd st)"
    and "quiet st (focus_first (c_libs c) (daemon_peer c render n) st)"
proof -
  let ?L = "c_libs c" and ?P = "daemon_peer c render n"
  show "quiet st (handle_tab_created ?L ?P rn i tid p st)"
  proof (cases "i < length (wm_workspaces (fst st)) \<and> renders rn p")
    case True
    define tv where "tv = wv_id (wm_workspaces (fst st) ! i)"
    define st1 where "st1 = append_page ?L ?P Free tv \<lparr>pg_tab = None, pg_root = Terminal p\<rparr> st"
    define k where "k = last_page tv (fst st1)"
    define st2 where "st2 = (enter_tab_id tv k tid (fst st1), snd st1)"
    have "quiet st st1" unfolding st1_def by (rule quiet_pages(2)[OF w a])
    from quiet_then[OF this a, of "\<lambda>st. (enter_tab_id tv k tid (fst st), snd st)"] quiet_pages(3)[OF w]
    have q2: "quiet st st2" by (simp add: st2_def)
    from quiet_then[OF this a, of "set_selected_page ?L ?P Free tv k"] quiet_pages(1)[OF w]
    have "quiet st (set_selected_page ?L ?P Free tv k st2)" .
    with q2 show ?thesis using True
      by (simp add: handle_tab_created_def build_auto_spawned_tab_widget_def Let_def
          tv_def[symmetric] st1_def[symmetric] k_def[symmetric] st2_def[symmetric] not_le)
  qed (auto simp: handle_tab_created_def build_auto_spawned_tab_widget_def)
  show "quiet st (handle_active_pane_changed ?L ?P i tid q st)"
  proof -
    obtain own pend where co: "consume_active_pane_self_echo (pending_active_pane (fst st)) i tid q = (own, pend)"
      by fastforce
    define wm1 where "wm1 = (fst st)\<lparr>pending_active_pane := pend\<rparr>"
    have q1: "quiet st (wm1, snd st)" by (simp add: quiet_def wm1_def)
    have q2: "quiet st (modify_view i (\<lambda>w. w\<lparr>wv_active_pane := (wv_active_pane w)(tid \<mapsto> pid)\<rparr>) wm1, snd st)" for pid
      by (rule quiet_trans[OF q1 quiet_view]) simp
    have grab: "quiet st (grab_focus ?L ?P Shared tv pid (modify_view i
        (\<lambda>w. w\<lparr>wv_active_pane := (wv_active_pane w)(tid \<mapsto> pid)\<rparr>) wm1, snd st))" for tv pid
      using quiet_then[OF q2 a, of "grab_focus ?L ?P Shared tv pid"] quiet_focus(2)[OF w] by blast
    show ?thesis
      unfolding handle_active_pane_changed_def co prod.case Let_def wm1_def[symmetric]
      by (cases q; cases "find (\<lambda>pg. pg_tab pg = Some tid) (wv_pages (wm_workspaces wm1 ! i))")
        (simp_all add: q1 q2 grab)
  qed
  show "quiet st (handle_color_changed u cl (fst st), snd st)"
    using quiet_view[of _ "fst st" "snd st"] by (auto simp: handle_color_changed_def split: option.split)
  show "quiet st (focus_first ?L ?P st)"
    using quiet_focus(2)[OF w a] by (auto simp: focus_first_def Let_def split: option.split)
qed

end
