(* ===== verification/WindowRuns.thy ===== *)
theory WindowRuns
  imports WindowProps ClientStreams
begin

section \<open>Runs of the window and the daemon\<close>

text \<open>
  What the user does in the window, the layout events that the window takes one by one, and what
  the daemon does for its other clients, in any order. The window has read the events up to a
  position; the queue of its own reorders is what it expects behind it.
\<close>

subsection \<open>The steps\<close>

datatype window_action =
    ASwitch nat
  | ACreate string
  | ACopy nat
  | ARename nat string
  | AColor nat "gdk_rgba option"
  | AMoveUp nat
  | AMoveDown nat
  | ADelete nat bool
  | ASelectPage uuid nat
  | AFocus uuid pane_id

fun window_do :: "libs \<Rightarrow> 'd peer \<Rightarrow> renderer \<Rightarrow> window_action \<Rightarrow> window \<times> 'd \<Rightarrow> window \<times> 'd" where
  "window_do L P rn (ASwitch i) st = switch_workspace L P i st"
| "window_do L P rn (ACreate nm) st = create_and_switch_to_new_workspace L P rn nm st"
| "window_do L P rn (ACopy i) st = window_duplicate_workspace L P rn i st"
| "window_do L P rn (ARename i nm) st = window_rename_workspace L P i nm st"
| "window_do L P rn (AColor i cl) st = apply_workspace_color L P i cl st"
| "window_do L P rn (AMoveUp i) st = move_workspace_up L P i st"
| "window_do L P rn (AMoveDown i) st = move_workspace_down L P i st"
| "window_do L P rn (ADelete i ok) st = delete_workspace_at_index L P i ok st"
| "window_do L P rn (ASelectPage tv k) st = set_selected_page L P Free tv k st"
| "window_do L P rn (AFocus tv p) st = grab_focus L P Free tv p st"

text \<open>
  The runs below leave two things out, which break the agreement: a workspace deleted while the
  echo of a move is still to come, and a workspace whose making fails half-way. Each bounds the
  number of workspaces by the width of an index.
\<close>

fun in_order :: "libs \<Rightarrow> daemon peer \<Rightarrow> renderer \<Rightarrow> window_action \<Rightarrow> window \<times> daemon \<Rightarrow> bool" where
  "in_order L P rn (ACreate nm) (wm, d) \<longleftrightarrow>
     Suc (ws_count (d_session d)) < 2 ^ 64 \<and>
     (case fst (dc_create_workspace L P nm d) of Inl e \<Rightarrow> False | Inr (u, i, p, t) \<Rightarrow> subscribes rn p)"
| "in_order L P rn (ACopy i) (wm, d) \<longleftrightarrow> Suc (ws_count (d_session d)) < 2 ^ 64"
| "in_order L P rn (ADelete i ok) (wm, d) \<longleftrightarrow> pending_reorders wm = []"
| "in_order L P rn _ (wm, d) \<longleftrightarrow> True"

datatype window_label = WUser window_action | WEvent | WOther session_label

fun keeps_order :: "session_event \<Rightarrow> bool" where
  "keeps_order (WorkspaceCreated i u n) \<longleftrightarrow> False"
| "keeps_order (WorkspaceDeleted i u) \<longleftrightarrow> False"
| "keeps_order (WorkspacesReordered i j u v) \<longleftrightarrow> False"
| "keeps_order (ActiveWorkspaceChanged i) \<longleftrightarrow> False"
| "keeps_order _ \<longleftrightarrow> True"

inductive window_step :: "config \<Rightarrow> (msg \<Rightarrow> string) \<Rightarrow> nat \<Rightarrow> renderer \<Rightarrow>
    window \<times> daemon \<times> nat \<Rightarrow> window_label \<Rightarrow> window \<times> daemon \<times> nat \<Rightarrow> bool"
  for c render n rn where
  user: "in_order (c_libs c) (daemon_peer c render n) rn a (wm, d) \<Longrightarrow>
     window_do (c_libs c) (daemon_peer c render n) rn a (wm, d) = (wm', d') \<Longrightarrow>
     window_step c render n rn (wm, d, pos) (WUser a) (wm', d', pos)"
| other_event: "pos < length (events (d_session d)) \<Longrightarrow> event_told (events (d_session d) ! pos) = None \<Longrightarrow>
     window_step c render n rn (wm, d, pos) WEvent (wm, d, Suc pos)"
| layout_event: "pos < length (events (d_session d)) \<Longrightarrow> event_told (events (d_session d) ! pos) = Some e \<Longrightarrow>
     handle_layout_event (c_libs c) (daemon_peer c render n) rn e (wm, d) = (wm', d') \<Longrightarrow>
     window_step c render n rn (wm, d, pos) WEvent (wm', d', Suc pos)"
| other: "told_step (d_session d) l s' \<Longrightarrow>
     \<forall>e \<in> set (drop (length (events (d_session d))) (events s')). keeps_order e \<Longrightarrow>
     window_step c render n rn (wm, d, pos) (WOther l) (wm, d\<lparr>d_session := s'\<rparr>, pos)"

inductive_cases window_userE: "window_step c render n rn st (WUser a) st'"
inductive_cases window_eventE: "window_step c render n rn st WEvent st'"
inductive_cases window_otherE: "window_step c render n rn st (WOther l) st'"

subsection \<open>The invariant\<close>

fun reorder_of :: "session_event \<Rightarrow> (nat \<times> nat) option" where
  "reorder_of (WorkspacesReordered i j u v) = Some (i, j)"
| "reorder_of _ = None"

fun deleted_id :: "session_event \<Rightarrow> uuid option" where
  "deleted_id (WorkspaceDeleted i u) = Some u"
| "deleted_id _ = None"

definition mirrors :: "bool \<Rightarrow> window \<times> daemon \<times> nat \<Rightarrow> bool" where
  "mirrors act st \<longleftrightarrow>
     (case st of (wm, d, pos) \<Rightarrow>
        let s = d_session d; unread = drop pos (events s)
        in map wv_id (wm_workspaces wm) = session_ids s \<and>
           pending_reorders wm = List.map_filter reorder_of unread \<and>
           (\<forall>(i, j) \<in> set (pending_reorders wm). i < ws_count s \<and> j < ws_count s) \<and>
           (\<forall>u \<in> set (List.map_filter deleted_id unread). u \<notin> set (session_ids s) \<union> future_ids s) \<and>
           (\<exists>D. sinv {} D s) \<and> wm_active wm < ws_count s \<and> ws_count s < 2 ^ 64 \<and>
           pos \<le> length (events s) \<and> (act \<longrightarrow> active_workspace (layout s) = wm_active wm))"

lemma map_filter_append [simp]: "List.map_filter f (xs @ ys) = List.map_filter f xs @ List.map_filter f ys"
  by (simp add: List.map_filter_def)

lemma map_filter_none: "(\<And>x. x \<in> set xs \<Longrightarrow> f x = None) \<Longrightarrow> List.map_filter f xs = []"
  by (auto simp: List.map_filter_def)

lemma no_order_events:
  assumes "\<forall>e \<in> set new. \<not> order_event e"
  shows "List.map_filter reorder_of new = []" "List.map_filter deleted_id new = []"
proof -
  have "\<not> order_event e \<Longrightarrow> reorder_of e = None \<and> deleted_id e = None" for e by (cases e) auto
  then show "List.map_filter reorder_of new = []" "List.map_filter deleted_id new = []"
    using assms by (auto intro: map_filter_none)
qed

lemma mirrors_quiet:
  assumes m: "mirrors act (wm, d, pos)" and q: "quiet (wm, d) (wm', d')"
  shows "mirrors act (wm', d', pos)"
proof -
  let ?s = "d_session d" and ?s' = "d_session d'"
  have h: "hush ?s ?s'" using q by (simp add: quiet_def)
  then obtain new where new: "events ?s' = events ?s @ new" "\<forall>e \<in> set new. \<not> order_event e"
    unfolding hush_def by auto
  have ids: "session_ids ?s' = session_ids ?s" and count: "ws_count ?s' = ws_count ?s"
    using h map_eq_imp_length_eq by (auto simp: hush_def ws_count_def)
  have unread: "drop pos (events ?s') = drop pos (events ?s) @ new"
    using new(1) m by (simp add: mirrors_def Let_def)
  show ?thesis
    using m q h ids count no_order_events[OF new(2)] new(1)
    unfolding mirrors_def Let_def prod.case unread map_filter_append
    by (auto simp: quiet_def hush_def)
qed

lemma mirrorsD:
  assumes "mirrors act (wm, d, pos)"
  shows "map wv_id (wm_workspaces wm) = session_ids (d_session d)"
    "length (wm_workspaces wm) = ws_count (d_session d)" "length (workspaces (layout (d_session d))) = ws_count (d_session d)"
    "wm_active wm < ws_count (d_session d)" "ws_count (d_session d) < 2 ^ 64" "wm_active wm < 2 ^ 64"
    "\<exists>D. sinv {} D (d_session d)" "act \<Longrightarrow> active_workspace (layout (d_session d)) = wm_active wm"
    "\<forall>(i, j) \<in> set (pending_reorders wm). i < ws_count (d_session d) \<and> j < ws_count (d_session d)"
    "pos \<le> length (events (d_session d))"
    "pending_reorders wm = List.map_filter reorder_of (drop pos (events (d_session d)))"
    "\<forall>u \<in> set (List.map_filter deleted_id (drop pos (events (d_session d)))).
       u \<notin> set (session_ids (d_session d)) \<union> future_ids (d_session d)"
  using assms map_eq_imp_length_eq[of wv_id "wm_workspaces wm" ws_id "workspaces (layout (d_session d))"]
  by (auto simp: mirrors_def Let_def ws_count_def)

text \<open>The general step: what the new events say, and what the window keeps.\<close>

lemma mirrors_grow:
  assumes m: "mirrors act (wm, d, pos)"
    and "events s' = events (d_session d) @ new" "sinv {} D s'" "future_ids s' \<subseteq> future_ids (d_session d)"
    and "map wv_id (wm_workspaces wm') = session_ids s'"
    and "pending_reorders wm' = pending_reorders wm @ List.map_filter reorder_of new"
    and "\<forall>(i, j) \<in> set (pending_reorders wm'). i < ws_count s' \<and> j < ws_count s'"
    and "set (session_ids s') \<subseteq> set (session_ids (d_session d)) \<union> future_ids (d_session d)"
    and "\<forall>u \<in> set (List.map_filter deleted_id new). u \<notin> set (session_ids s') \<union> future_ids s'"
    and "wm_active wm' < ws_count s'" "ws_count s' < 2 ^ 64"
    and "act \<longrightarrow> active_workspace (layout s') = wm_active wm'"
  shows "mirrors act (wm', d\<lparr>d_session := s'\<rparr>, pos)"
proof -
  have unread: "drop pos (events s') = drop pos (events (d_session d)) @ new"
    using assms(2) m by (simp add: mirrors_def Let_def)
  have old: "u \<notin> set (session_ids s') \<union> future_ids s'"
    if "u \<in> set (List.map_filter deleted_id (drop pos (events (d_session d))))" for u
  proof -
    have "u \<notin> set (session_ids (d_session d)) \<union> future_ids (d_session d)"
      using that m by (simp add: mirrors_def Let_def)
    then show ?thesis using assms(4,8) by blast
  qed
  have now: "d_session (d\<lparr>d_session := s'\<rparr>) = s'" by simp
  show ?thesis
    unfolding mirrors_def Let_def prod.case now unread map_filter_append
  proof (intro conjI)
    show "pending_reorders wm' = List.map_filter reorder_of (drop pos (events (d_session d))) @ List.map_filter reorder_of new"
      using assms(6) mirrorsD(11)[OF m] by simp
    show "\<forall>u \<in> set (List.map_filter deleted_id (drop pos (events (d_session d))) @ List.map_filter deleted_id new).
        u \<notin> set (session_ids s') \<union> future_ids s'"
      using old assms(9) by auto
    show "pos \<le> length (events s')" using mirrorsD(10)[OF m] assms(2) by simp
  qed (use assms in blast)+
qed

lemma position_modify:
  assumes "\<And>u. P (f u) = P u"
  shows "position P (modify_at j f xs) = position P xs"
proof (induction xs arbitrary: j)
  case (Cons x xs)
  show ?case
  proof (cases j)
    case (Suc k)
    have "modify_at (Suc k) f (x # xs) = x # modify_at k f xs" by (simp add: modify_at_def)
    then show ?thesis using Cons.IH[of k] Suc by simp
  qed (simp add: modify_at_def assms)
qed (simp add: modify_at_def)

lemma map_vec:
  "i < length xs \<Longrightarrow> j < length xs \<Longrightarrow> map f (vec_swap i j xs) = vec_swap i j (map f xs)"
  "map f (vec_remove i xs) = vec_remove i (map f xs)"
  "map f (vec_insert i x xs) = vec_insert i (f x) (map f xs)"
  by (simp_all add: vec_swap_def vec_remove_def vec_insert_def map_update take_map drop_map)

lemma set_vec:
  "i < length xs \<Longrightarrow> j < length xs \<Longrightarrow> set (vec_swap i j xs) = set xs"
  "i < length xs \<Longrightarrow> distinct xs \<Longrightarrow> set (vec_remove i xs) = set xs - {xs ! i}"
  "set (vec_insert i x xs) = insert x (set xs)"
proof -
  show "i < length xs \<Longrightarrow> j < length xs \<Longrightarrow> set (vec_swap i j xs) = set xs"
    using mset_vec_swap by (metis set_mset_mset)
  show "i < length xs \<Longrightarrow> distinct xs \<Longrightarrow> set (vec_remove i xs) = set xs - {xs ! i}"
    by (elim nth_split) auto
  show "set (vec_insert i x xs) = insert x (set xs)"
    using mset_vec_insert by (metis set_mset_mset set_mset_add_mset_insert)
qed

subsection \<open>The user\<close>

lemma mirrors_move:
  assumes w: "wire_ok (c_libs c) rd" and m: "mirrors act (wm, d, pos)" and ij: "i \<noteq> j" "i < ws_count (d_session d)" "j < ws_count (d_session d)"
    and mv: "move_workspace_to (c_libs c) (daemon_peer c render n) i j (wm, d) = (wm', d')"
  shows "mirrors act (wm', d', pos)"
proof -
  let ?s = "d_session d"
  define s' where "s' = snd (move_workspace i j ?s)"
  note D = mirrorsD[OF m]
  have small: "i < 2 ^ 64" "j < 2 ^ 64" using D(5) ij by linarith+
  have call: "snd (dc_move_workspace (c_libs c) (daemon_peer c render n) i j d) = d\<lparr>d_session := s'\<rparr>"
    "\<not> isl (fst (dc_move_workspace (c_libs c) (daemon_peer c render n) i j d))"
    using dc_session(5)[OF w refl refl small, of render n d] ij
    by (simp_all add: s'_def move_workspace_def Let_def)
  define wm1 where "wm1 = wm\<lparr>pending_reorders := pending_reorders wm @ [(i, j)]\<rparr>"
  have res: "wm' = swap_workspaces i j wm1" "d' = d\<lparr>d_session := s'\<rparr>"
    using mv call by (auto simp: move_workspace_to_def wm1_def split: prod.splits sum.splits)
  have ev: "events s' = events ?s @ [WorkspacesReordered i j (ws_id (workspaces (layout ?s) ! i)) (ws_id (workspaces (layout ?s) ! j))]"
    and lay: "workspaces (layout s') = vec_swap i j (workspaces (layout ?s))"
    "active_workspace (layout s') = (if active_workspace (layout ?s) = i then j
       else if active_workspace (layout ?s) = j then i else active_workspace (layout ?s))"
    using ij by (simp_all add: s'_def move_workspace_def Let_def)
  have count: "ws_count s' = ws_count ?s" by (simp add: ws_count_def lay)
  obtain E where E: "sinv {} E s'"
    using D(7) inv_exec_op[of _ ?s "OMoveWorkspace i j"] by (fastforce simp: s'_def)
  have "mirrors act (swap_workspaces i j wm1, d\<lparr>d_session := s'\<rparr>, pos)"
  proof (rule mirrors_grow[OF m ev E])
    show "future_ids s' \<subseteq> future_ids ?s"
      using ext_future[OF ext_exec_op[of ?s "OMoveWorkspace i j"]] by (simp add: s'_def)
    show "map wv_id (wm_workspaces (swap_workspaces i j wm1)) = session_ids s'"
      using D(1-3) ij by (simp add: swap_workspaces_def wm1_def lay map_vec)
    show "set (session_ids s') \<subseteq> set (session_ids ?s) \<union> future_ids ?s"
      using ij D(3) set_vec(1)[of i "workspaces (layout ?s)" j] by (auto simp: lay)
    show "pending_reorders (swap_workspaces i j wm1) = pending_reorders wm @ List.map_filter reorder_of
        [WorkspacesReordered i j (ws_id (workspaces (layout ?s) ! i)) (ws_id (workspaces (layout ?s) ! j))]"
      by (simp add: swap_workspaces_def wm1_def List.map_filter_def)
    show "\<forall>(k, l) \<in> set (pending_reorders (swap_workspaces i j wm1)). k < ws_count s' \<and> l < ws_count s'"
      using D(9) ij by (auto simp: swap_workspaces_def wm1_def count)
    show "wm_active (swap_workspaces i j wm1) < ws_count s'"
      using D(4) ij by (simp add: swap_workspaces_def wm1_def count)
    show "ws_count s' < 2 ^ 64" using D(5) by (simp add: count)
    show "act \<longrightarrow> active_workspace (layout s') = wm_active (swap_workspaces i j wm1)"
      using D(8) by (simp add: swap_workspaces_def wm1_def lay)
  qed (simp add: List.map_filter_def)
  then show ?thesis by (simp add: res)
qed

lemma mirrors_delete:
  assumes w: "wire_ok (c_libs c) rd" and m: "mirrors act (wm, d, pos)" and none: "pending_reorders wm = []"
    and del: "do_delete_workspace_at_index (c_libs c) (daemon_peer c render n) i (wm, d) = (wm', d')"
  shows "mirrors act (wm', d', pos)"
proof (cases "i < ws_count (d_session d) \<and> 1 < ws_count (d_session d)")
  case True
  let ?s = "d_session d"
  define s' where "s' = snd (delete_workspace i ?s)"
  note D = mirrorsD[OF m]
  have small: "i < 2 ^ 64" using D(5) True by linarith
  note eff = delete_workspace_ok[OF conjunct1[OF True] conjunct2[OF True]]
  have call: "snd (dc_delete_workspace (c_libs c) (daemon_peer c render n) i d) = d\<lparr>d_session := s'\<rparr>"
    "\<not> isl (fst (dc_delete_workspace (c_libs c) (daemon_peer c render n) i d))"
    using dc_session(6)[OF w refl refl small, of render n d] eff(2) by (simp_all add: s'_def)
  define wm1 where "wm1 = wm\<lparr>wm_workspaces := vec_remove i (wm_workspaces wm),
     wm_active := active_after_delete i (ws_count ?s - 1) (wm_active wm),
     wm_focus := (if wm_active wm = i then None else wm_focus wm)\<rparr>"
  have act: "(if wm_active wm > i then wm_active wm - 1
      else if wm_active wm = i then min i (length (vec_remove i (wm_workspaces wm)) - 1) else wm_active wm) =
      active_after_delete i (ws_count ?s - 1) (wm_active wm)"
    using True D(2,4) by (auto simp: active_after_delete_def)
  have res: "(wm', d') = focus_first (c_libs c) (daemon_peer c render n) (wm1, d\<lparr>d_session := s'\<rparr>)"
    using del call True D(2) unfolding wm1_def act[symmetric]
    by (auto simp: do_delete_workspace_at_index_def Let_def split: prod.splits sum.splits)
  let ?u = "ws_id (workspaces (layout ?s) ! i)"
  let ?closed = "map PaneClosed (ws_leaves (workspaces (layout ?s) ! i))"
  have ev: "events s' = events ?s @ ?closed @ [WorkspaceDeleted i ?u]"
    and lay: "workspaces (layout s') = vec_remove i (workspaces (layout ?s))"
      "active_workspace (layout s') = active_after_delete i (ws_count ?s - 1) (active_workspace (layout ?s))"
    using eff by (simp_all add: s'_def delete_panes_effect)
  obtain F where F: "sinv {} F ?s" using D(7) by blast
  have dis: "distinct (session_ids ?s)" using invD(1)[OF F] by (simp add: layout_ok_def layout_ws_ids_def)
  have u: "?u \<in> set (session_ids ?s)" using True D(3) by auto
  then have fut: "?u \<notin> future_ids ?s"
    using invD(9)[OF F] by (auto simp: supply_ok_def future_ids_def layout_ids_def layout_ws_ids_def)
  have gone: "set (session_ids s') = set (session_ids ?s) - {?u}"
    using set_vec(2)[OF _ dis, of i] True D(3) by (simp add: lay map_vec)
  obtain E where E: "sinv {} E s'" using inv_exec_op[OF F, of "ODeleteWorkspace i"] by (auto simp: s'_def)
  have less: "future_ids s' \<subseteq> future_ids ?s"
    using ext_future[OF ext_exec_op[of ?s "ODeleteWorkspace i"]] by (simp add: s'_def)
  have quiet_closed: "List.map_filter reorder_of ?closed = []" "List.map_filter deleted_id ?closed = []"
    by (rule map_filter_none, force)+
  have count: "ws_count s' = ws_count ?s - 1" using True by (simp add: ws_count_def lay)
  have "mirrors act (wm1, d\<lparr>d_session := s'\<rparr>, pos)"
  proof (rule mirrors_grow[OF m ev E less])
    show "map wv_id (wm_workspaces wm1) = session_ids s'" using D(1) by (simp add: wm1_def lay map_vec)
    show "set (session_ids s') \<subseteq> set (session_ids ?s) \<union> future_ids ?s" using gone by blast
    show "\<forall>v \<in> set (List.map_filter deleted_id (?closed @ [WorkspaceDeleted i ?u])). v \<notin> set (session_ids s') \<union> future_ids s'"
      using gone fut less quiet_closed(2) unfolding map_filter_append by (auto simp: List.map_filter_def)
    show "wm_active wm1 < ws_count s'" using D(4) True by (auto simp: wm1_def count active_after_delete_def)
  qed (use D none quiet_closed count True in \<open>auto simp: wm1_def lay List.map_filter_def\<close>)
  moreover have "wm_active wm1 < 2 ^ 64" using mirrorsD(6)[OF calculation] .
  ultimately show ?thesis
    using mirrors_quiet quiet_events(4)[OF w, of "(wm1, d\<lparr>d_session := s'\<rparr>)"] res by (metis fst_conv)
next
  case False
  then show ?thesis using del m mirrorsD(2)[OF m] by (auto simp: do_delete_workspace_at_index_def)
qed

subsection \<open>The session on its own\<close>

lemma split_keeps_ids: "map ws_id (snd (split_in_workspaces p n d r wss)) = map ws_id wss"
  by (induction wss) (auto split: prod.splits option.splits)

lemma modify_keeps_ids: "(\<And>ws. ws_id (f ws) = ws_id ws) \<Longrightarrow> map ws_id (modify_at i f wss) = map ws_id wss"
  by (intro nth_equalityI) (auto simp: modify_at_nth)

lemma apply_keeps_order:
  assumes "keeps_order e"
  shows "map ws_id (workspaces (apply_event e l)) = map ws_id (workspaces l)"
    "active_workspace (apply_event e l) = active_workspace l"
proof -
  note fields = close_tab_in_ws_def clamp_active_tab_def move_tab_to_def move_tab_in_ws_def focus_pane_in_ws_def
    push_tab_def Let_def
  show "map ws_id (workspaces (apply_event e l)) = map ws_id (workspaces l)"
    using assms by (cases e) (auto simp: modify_layout_ws_def split_keeps_ids fields split: option.split
        intro!: modify_keeps_ids)
  show "active_workspace (apply_event e l) = active_workspace l"
    using assms by (cases e) (auto simp: modify_layout_ws_def)
qed

lemma fold_keeps_order:
  "\<forall>e \<in> set es. keeps_order e \<Longrightarrow>
     map ws_id (workspaces (fold apply_event es l)) = map ws_id (workspaces l) \<and>
     active_workspace (fold apply_event es l) = active_workspace l"
  by (induction es arbitrary: l) (simp_all add: apply_keeps_order)

lemma keeps_order_event: "keeps_order e \<Longrightarrow> \<not> order_event e"
  by (cases e) auto

lemma tracks_hush:
  assumes "tracks s s'" "\<forall>e \<in> set (drop (length (events s)) (events s')). keeps_order e"
    and "\<forall>D. sinv {} D s \<longrightarrow> (\<exists>D'. sinv {} D' s')" "future_ids s' \<subseteq> future_ids s"
  shows "hush s s'"
proof -
  obtain new where new: "events s' = events s @ new" "layout s' = fold apply_event new (layout s)"
    using assms(1) by (auto simp: tracks_def)
  then have k: "\<forall>e \<in> set new. keeps_order e" using assms(2) by simp
  show ?thesis
    using fold_keeps_order[OF k, of "layout s"] new(2) assms(3,4) keeps_order_event k
    unfolding hush_def by (auto intro!: exI[of _ new] simp: new(1))
qed

lemma hush_other:
  assumes inv: "sinv {} D s" and st: "told_step s l s'"
    and keep: "\<forall>e \<in> set (drop (length (events s)) (events s')). keeps_order e"
  shows "hush s s'"
proof (rule tracks_hush[OF tracks_told[OF inv st] keep])
  have step: "session_step s l s'" using st by (simp add: told_step_def)
  show "\<forall>D. sinv {} D s \<longrightarrow> (\<exists>D'. sinv {} D' s')" using inv_session_step step by blast
  show "future_ids s' \<subseteq> future_ids s"
    using step
  proof cases
    case (step_op op)
    then show ?thesis using ext_future[OF ext_exec_op] by blast
  next
    case (step_drain p c)
    have closing: "future_ids (snd (close_pane p t)) \<subseteq> future_ids t" for t
      using ext_future[OF ext_exec_op[of t "OClosePane p"]] by simp
    have task: "future_ids (t\<lparr>drain_tasks := x\<rparr>) = future_ids t" for t x by (simp add: future_ids_def)
    show ?thesis
    proof (cases c)
      case None
      then show ?thesis using step_drain closing[of s] by (simp add: drain_step_def task)
    next
      case (Some bs)
      obtain r s1 where pr: "process_pane_bytes p bs s = (r, s1)" by fastforce
      have "future_ids s1 = future_ids s" using process_pane_bytes_result(2)[OF pr] .
      then show ?thesis
        using step_drain Some pr closing[of s1] by (auto simp: drain_step_def task split: sum.split bool.split)
    qed
  next
    case (step_world w')
    then show ?thesis by (simp add: world_change_def future_ids_def)
  qed
qed

lemma hush_create_tab: "hush s (snd (create_tab i c sz cmd s))"
proof (rule tracks_hush[OF tracks_create_tab])
  obtain p s1 where nu: "new_uuid s = (p, s1)" by fastforce
  obtain rb s2 where sp: "pty_bridge_spawn sz c cmd None True s1 = (rb, s2)" by fastforce
  show "\<forall>e \<in> set (drop (length (events s)) (events (snd (create_tab i c sz cmd s)))). keeps_order e"
    using nu sp new_uuid_fields(5)[OF nu] spawn_fields[OF sp] new_uuid_fields(5)
    by (auto simp: create_tab_def create_tab_with_pane_id_def Let_def split: sum.splits prod.splits)
  show "\<forall>D. sinv {} D s \<longrightarrow> (\<exists>D'. sinv {} D' (snd (create_tab i c sz cmd s)))"
    using inv_create_tab by (metis prod.collapse)
  show "future_ids (snd (create_tab i c sz cmd s)) \<subseteq> future_ids s"
    by (rule ext_future[OF ext_create_tab[OF order.refl]])
qed

subsection \<open>The user, continued\<close>

lemma set_active_effect:
  assumes "i < ws_count s"
  shows "fst (set_active_workspace i s) = Inr ()"
    "layout (snd (set_active_workspace i s)) = (layout s)\<lparr>active_workspace := i\<rparr>"
    "\<exists>new. events (snd (set_active_workspace i s)) = events s @ new \<and> (\<forall>e \<in> set new. \<not> order_event e)"
    "sinv {} D s \<Longrightarrow> \<exists>E. sinv {} E (snd (set_active_workspace i s))"
    "future_ids (snd (set_active_workspace i s)) \<subseteq> future_ids s"
  using assms inv_exec_op[of D s "OSetActiveWorkspace i"] ext_future[OF ext_exec_op[of s "OSetActiveWorkspace i"]]
  by (auto simp: set_active_workspace_def)

text \<open>The daemon is told of the workspace that the window already shows.\<close>

lemma mirrors_activate:
  assumes w: "wire_ok (c_libs c) rd" and m: "mirrors False (wm, d, pos)"
  shows "mirrors act (wm, snd (dc_set_active_workspace (c_libs c) (daemon_peer c render n) (wm_active wm) d), pos)"
proof -
  let ?s = "d_session d" and ?i = "wm_active wm"
  note D = mirrorsD[OF m]
  obtain F where F: "sinv {} F ?s" using D(7) by blast
  note eff = set_active_effect[OF D(4)]
  obtain new where new: "events (snd (set_active_workspace ?i ?s)) = events ?s @ new" "\<forall>e \<in> set new. \<not> order_event e"
    using eff(3) by blast
  obtain E where E: "sinv {} E (snd (set_active_workspace ?i ?s))" using eff(4)[OF F] by blast
  have count: "ws_count (snd (set_active_workspace ?i ?s)) = ws_count ?s"
    using eff(2) by (simp add: ws_count_def)
  have "mirrors False (wm, d\<lparr>d_session := snd (set_active_workspace ?i ?s)\<rparr>, pos)"
    by (rule mirrors_grow[OF m new(1) E eff(5)])
      (use D(1,4,5,9) eff(2) no_order_events[OF new(2)] in \<open>simp_all add: count\<close>)
  then have "mirrors act (wm, d\<lparr>d_session := snd (set_active_workspace ?i ?s)\<rparr>, pos)"
    using eff(2) by (auto simp: mirrors_def Let_def)
  then show ?thesis using dc_session(2)[OF w refl refl D(6), of render n d] by simp
qed

lemma mirrors_switch:
  assumes w: "wire_ok (c_libs c) rd" and m: "mirrors act (wm, d, pos)"
    and sw: "switch_workspace (c_libs c) (daemon_peer c render n) i (wm, d) = (wm', d')"
  shows "mirrors act (wm', d', pos)"
proof (cases "i < length (wm_workspaces wm) \<and> i \<noteq> wm_active wm")
  case True
  note D = mirrorsD[OF m]
  define wm1 where "wm1 = wm\<lparr>wm_active := i, wm_focus := None\<rparr>"
  obtain wm2 d2 where ff: "focus_first (c_libs c) (daemon_peer c render n) (wm1, d) = (wm2, d2)" by fastforce
  have "mirrors False (wm1, d, pos)"
    using m True D(2) by (auto simp: mirrors_def Let_def wm1_def)
  moreover have q: "quiet (wm1, d) (wm2, d2)"
    using quiet_events(4)[OF w, of "(wm1, d)" render n] ff mirrorsD(6)[OF calculation] by simp
  ultimately have "mirrors False (wm2, d2, pos)" by (rule mirrors_quiet)
  moreover have "wm_active wm2 = i" using q by (simp add: quiet_def wm1_def)
  moreover have "wm' = wm2" "d' = snd (dc_set_active_workspace (c_libs c) (daemon_peer c render n) i d2)"
    using sw True ff by (auto simp: switch_workspace_def wm1_def Let_def)
  ultimately show ?thesis using mirrors_activate[OF w] by blast
qed (use sw m in \<open>auto simp: switch_workspace_def\<close>)

lemma mirrors_weaken: "mirrors act st \<Longrightarrow> mirrors False st"
  by (auto simp: mirrors_def Let_def split: prod.split)

lemma agrees_create:
  assumes w: "wire_ok (c_libs c) rd" and small: "ws_count (d_session d) < 2 ^ 64"
    and cr: "dc_create_workspace (c_libs c) (daemon_peer c render n) nm d = (Inr (u, i, p, t), d')"
  obtains s1 where "create_workspace nm (d_session d) = ((u, i), s1)"
    "d' = d\<lparr>d_session := snd (create_tab i None default_size None s1)\<rparr>"
  using agrees_create_workspace[OF w small, of render n nm] cr
  by (auto simp: agrees_def in_daemon_def reply_of_def outcome_of_def split: prod.splits sum.splits)

lemma fresh_in_future:
  assumes "sinv {} D s" "new_uuid s = (u, s1)"
  shows "u \<in> future_ids s" "u \<notin> set (session_ids s)"
  using assms inv_new_uuid(2)[OF assms] new_uuid_fields(10)[OF assms(2)]
  by (auto simp: future_ids_def layout_ids_def layout_ws_ids_def)

lemma mirrors_create:
  assumes w: "wire_ok (c_libs c) rd" and m: "mirrors False (wm, d, pos)"
    and ok: "in_order (c_libs c) (daemon_peer c render n) rn (ACreate nm) (wm, d)"
    and cr: "create_and_switch_to_new_workspace (c_libs c) (daemon_peer c render n) rn nm (wm, d) = (wm', d')"
  shows "mirrors False (wm', d', pos)"
proof -
  let ?s = "d_session d"
  note D = mirrorsD[OF m]
  obtain u i p t d1 where dc: "dc_create_workspace (c_libs c) (daemon_peer c render n) nm d = (Inr (u, i, p, t), d1)"
    "subscribes rn p"
    using ok by (cases "dc_create_workspace (c_libs c) (daemon_peer c render n) nm d") (auto split: sum.splits)
  obtain s1 where s1: "create_workspace nm ?s = ((u, i), s1)"
    "d1 = d\<lparr>d_session := snd (create_tab i None default_size None s1)\<rparr>"
    using agrees_create[OF w D(5) dc(1)] .
  obtain F where F: "sinv {} F ?s" using D(7) by blast
  obtain s0 where nu: "new_uuid ?s = (u, s0)" using s1(1) by (auto simp: create_workspace_def Let_def split: prod.splits)
  have ev: "events s1 = events ?s @ [WorkspaceCreated i u nm]"
    and ids: "session_ids s1 = session_ids ?s @ [u]"
    using s1(1) nu new_uuid_fields[OF nu] by (auto simp: create_workspace_def Let_def)
  have count: "ws_count s1 = Suc (ws_count ?s)" using ids by (metis length_append_singleton length_map ws_count_def)
  define v where "v = fresh_view rn u nm [(t, p)]"
  define wm1 where "wm1 = wm\<lparr>wm_workspaces := wm_workspaces wm @ [v], wm_active := length (wm_workspaces wm),
     wm_focus := wv_tracker v\<rparr>"
  have v: "wv_id v = u" by (simp add: v_def fresh_view_def Let_def)
  have res: "wm' = wm1" "d' = d1"
    using cr dc by (auto simp: create_and_switch_to_new_workspace_def wm1_def v_def Let_def)
  have "mirrors False (wm1, d\<lparr>d_session := s1\<rparr>, pos)"
  proof (rule mirrors_grow[OF m ev inv_create_workspace[OF F s1(1)]])
    show "future_ids s1 \<subseteq> future_ids ?s" using ext_future[OF ext_create_workspace, of nm ?s] s1(1) by simp
    show "set (session_ids s1) \<subseteq> set (session_ids ?s) \<union> future_ids ?s"
      using fresh_in_future(1)[OF F nu] ids by simp
    show "\<forall>(k, l) \<in> set (pending_reorders wm1). k < ws_count s1 \<and> l < ws_count s1"
      using D(9) by (auto simp: wm1_def count)
  qed (use D ok ids in \<open>simp_all add: wm1_def v count List.map_filter_def\<close>)
  moreover have "quiet (wm1, d\<lparr>d_session := s1\<rparr>) (wm1, d1)"
    using hush_create_tab by (simp add: quiet_def s1(2))
  ultimately show ?thesis using mirrors_quiet res by blast
qed

text \<open>Duplicating a workspace, as far as the order is concerned.\<close>

lemma duplicate_fails_hush:
  assumes "duplicate_workspace i nm sz s = (Inl e, s')"
  shows "hush s s'"
proof -
  have same: "events s' = events s \<and> layout s' = layout s"
  proof (cases "dup_snapshot i nm s")
    case (Inr snap)
    obtain n k cwds where snap: "snap = (n, k, cwds)" by (cases snap) auto
    obtain r1 s1 where sp: "dup_spawn sz (length cwds) cwds [] s = (r1, s1)" by fastforce
    have "events s1 = events s \<and> layout s1 = layout s" by (rule dup_spawn_same[OF sp])
    then show ?thesis
      using assms Inr snap sp by (cases r1) (auto simp: duplicate_workspace_def split: prod.splits)
  qed (use assms in \<open>simp add: duplicate_workspace_def\<close>)
  have "future_ids s' \<subseteq> future_ids s"
    using ext_future[OF ext_duplicate_workspace[OF order.refl, of s i nm sz]] assms by simp
  moreover have "\<forall>D. sinv {} D s \<longrightarrow> (\<exists>D'. sinv {} D' s')" using inv_duplicate_workspace assms by blast
  ultimately show ?thesis using same by (auto simp: hush_def)
qed

lemma duplicate_order:
  assumes ok: "duplicate_workspace i nm sz s = (Inr (u, k, dts), s')"
  obtains new where "session_ids s' = vec_insert k u (session_ids s)" "k \<le> ws_count s" "u \<in> future_ids s"
    "events s' = events s @ new" "\<forall>e \<in> set new. \<not> order_event e" "future_ids s' \<subseteq> future_ids s"
proof -
  note eff = duplicate_workspace_effect[OF ok]
  have ids: "session_ids s' = vec_insert k u (session_ids s)" using eff by (auto simp: map_vec(3))
  obtain n j cwds where snap: "dup_snapshot i nm s = Inr (n, j, cwds)"
    using ok by (cases "dup_snapshot i nm s") (auto simp: duplicate_workspace_def)
  obtain sp s1 where sp: "dup_spawn sz (length cwds) cwds [] s = (Inr sp, s1)"
    using ok snap by (auto simp: duplicate_workspace_def split: sum.splits prod.splits)
  obtain s2 where nu: "new_uuid s1 = (u, s2)"
    using ok snap sp by (auto simp: duplicate_workspace_def split: prod.splits)
  have "future_ids s1 \<subseteq> future_ids s" using ext_future ext_dup_spawn[OF ext_refl sp] by auto
  then have u: "u \<in> future_ids s" using new_uuid_fields(10)[OF nu] by (auto simp: future_ids_def)
  have less: "future_ids s' \<subseteq> future_ids s"
    using ext_future[OF ext_duplicate_workspace[OF order.refl, of s i nm sz]] ok by simp
  obtain new where new: "events s' = events s @ new" "\<forall>e \<in> set new. \<not> order_event e"
    using eff by fastforce
  show thesis by (rule that[OF ids duplicate_index[OF ok] u new less])
qed

lemma mirrors_duplicate:
  assumes w: "wire_ok (c_libs c) rd" and m: "mirrors act (wm, d, pos)"
    and ok: "in_order (c_libs c) (daemon_peer c render n) rn (ACopy i) (wm, d)"
    and du: "window_duplicate_workspace (c_libs c) (daemon_peer c render n) rn i (wm, d) = (wm', d')"
  shows "mirrors act (wm', d', pos)"
proof (cases "i < length (wm_workspaces wm)")
  case True
  let ?s = "d_session d" and ?L = "c_libs c" and ?P = "daemon_peer c render n"
  note D = mirrorsD[OF m]
  obtain F where F: "sinv {} F ?s" using D(7) by blast
  have i: "i < 2 ^ 64" using True D(2,5) by linarith
  obtain r d1 where dp: "dc_duplicate_workspace ?L ?P i None d = (r, d1)" by fastforce
  obtain q s1 where dw: "duplicate_workspace i None default_size ?s = (q, s1)" by fastforce
  have agree: "(case r of Inl e \<Rightarrow> None | Inr (u, k, ts) \<Rightarrow> Some (ADuplicate u k ts)) =
      (case q of Inl e \<Rightarrow> None | Inr (u, k, dts) \<Rightarrow> Some (ADuplicate u k (map (\<lambda>dt. (dt_tab_id dt, dt_pane_id dt)) dts)))"
    "d1 = d\<lparr>d_session := s1\<rparr>"
    using agrees_duplicate_workspace[OF w D(5) i, of render n None] dp dw
    by (auto simp: agrees_def in_daemon_def reply_of_def outcome_of_def split: sum.splits)
  show ?thesis
  proof (cases q)
    case (Inl e)
    then have "quiet (wm, d) (wm, d1)" using duplicate_fails_hush dw agree(2) by (auto simp: quiet_def)
    moreover have "wm' = wm" "d' = d1"
      using du dp True agree(1) Inl by (auto simp: window_duplicate_workspace_def split: sum.splits)
    ultimately show ?thesis using mirrors_quiet[OF m] by simp
  next
    case (Inr a)
    obtain u k dts where q: "q = Inr (u, k, dts)" using Inr by (cases a) auto
    obtain ts where r: "r = Inr (u, k, ts)"
      using agree(1) q by (cases r) (auto split: prod.splits)
    obtain new where new: "session_ids s1 = vec_insert k u (session_ids ?s)" "k \<le> ws_count ?s" "u \<in> future_ids ?s"
      "events s1 = events ?s @ new" "\<forall>e \<in> set new. \<not> order_event e" "future_ids s1 \<subseteq> future_ids ?s"
      using duplicate_order dw q by metis
    have count: "ws_count s1 = Suc (ws_count ?s)"
      using arg_cong[OF new(1), of length] by (simp add: ws_count_def)
    define v where "v = fresh_view rn u (wv_name (wm_workspaces wm ! i) @ '' (copy)'') ts"
    have v: "wv_id v = u" by (simp add: v_def fresh_view_def Let_def)
    define wm1 where "wm1 = wm\<lparr>wm_workspaces := vec_insert k v (wm_workspaces wm), wm_active := k, wm_focus := wv_tracker v\<rparr>"
    have clamp: "min k (length (wm_workspaces wm)) = k" using new(2) D(2) by simp
    have res: "wm' = wm1" "d' = snd (dc_set_active_workspace ?L ?P (wm_active wm1) d1)"
      using du dp r True clamp by (auto simp: window_duplicate_workspace_def Let_def wm1_def v_def)
    obtain E where E: "sinv {} E s1" using inv_duplicate_workspace[OF F] dw by blast
    have "mirrors False (wm1, d\<lparr>d_session := s1\<rparr>, pos)"
    proof (rule mirrors_grow[OF mirrors_weaken[OF m] new(4) E new(6)])
      show "map wv_id (wm_workspaces wm1) = session_ids s1" by (simp add: wm1_def map_vec(3) v D(1) new(1))
      show "set (session_ids s1) \<subseteq> set (session_ids ?s) \<union> future_ids ?s" using new(1,3) by (auto simp: set_vec(3))
      show "\<forall>(k, l) \<in> set (pending_reorders wm1). k < ws_count s1 \<and> l < ws_count s1"
        using D(9) by (auto simp: wm1_def count)
      show "wm_active wm1 < ws_count s1" using new(2) by (simp add: wm1_def count)
      show "ws_count s1 < 2 ^ 64" using ok by (simp add: count)
    qed (use no_order_events[OF new(5)] in \<open>simp_all add: wm1_def\<close>)
    then show ?thesis using mirrors_activate[OF w] res agree(2) by blast
  qed
qed (use du m in \<open>simp add: window_duplicate_workspace_def\<close>)

lemma quiet_rename_color:
  assumes w: "wire_ok (c_libs c) rd" and a: "length (wm_workspaces (fst st)) < 2 ^ 64"
  shows "quiet st (window_rename_workspace (c_libs c) (daemon_peer c render n) i nm st)"
    and "quiet st (apply_workspace_color (c_libs c) (daemon_peer c render n) i cl st)"
proof -
  have view: "quiet st (fst st, d') \<Longrightarrow> (\<And>w. wv_id (f w) = wv_id w) \<Longrightarrow> quiet st (modify_view i f (fst st), d')" for f d'
    using quiet_trans quiet_view by blast
  have call: "i < 2 ^ 64 \<Longrightarrow> quiet st (fst st, snd (dc_rename_workspace (c_libs c) (daemon_peer c render n) i nm (snd st)))"
    "i < 2 ^ 64 \<Longrightarrow> quiet st (fst st, snd (dc_set_workspace_color (c_libs c) (daemon_peer c render n) i cl (snd st)))" for nm cl
    using dc_session(3,4)[OF w refl refl, of i render n _ "snd st"] hush_ops(1,2) by (auto simp: quiet_def)
  have i: "i < length (wm_workspaces (fst st)) \<Longrightarrow> i < 2 ^ 64" using a by linarith
  show "quiet st (window_rename_workspace (c_libs c) (daemon_peer c render n) i nm st)"
    using call(1)[OF i, of "rust_trim nm"] view[of _ "\<lambda>w. w\<lparr>wv_name := rust_trim nm\<rparr>"]
    by (auto simp: window_rename_workspace_def Let_def not_le split: prod.split sum.split)
  show "quiet st (apply_workspace_color (c_libs c) (daemon_peer c render n) i cl st)"
    using call(2)[OF i, of "map_option rgba_to_hex cl"] view[of _ "\<lambda>w. w\<lparr>wv_color := cl\<rparr>"]
    by (auto simp: apply_workspace_color_def apply_workspace_color_local_def not_le split: prod.split sum.split)
qed

lemma mirrors_user:
  assumes w: "wire_ok (c_libs c) rd" and m: "mirrors act (wm, d, pos)"
    and ok: "in_order (c_libs c) (daemon_peer c render n) rn a (wm, d)"
    and run: "window_do (c_libs c) (daemon_peer c render n) rn a (wm, d) = (wm', d')"
    and act: "act \<Longrightarrow> \<forall>nm. a \<noteq> ACreate nm"
  shows "mirrors act (wm', d', pos)"
proof -
  note D = mirrorsD[OF m]
  have quiet: "quiet (wm, d) (wm', d') \<Longrightarrow> ?thesis" by (rule mirrors_quiet[OF m])
  have len: "length (wm_workspaces (fst (wm, d))) < 2 ^ 64" and small: "wm_active (fst (wm, d)) < 2 ^ 64"
    using D(2,5,6) by simp_all
  show ?thesis
  proof (cases a)
    case (ACreate nm)
    have "mirrors False (wm', d', pos)"
      using mirrors_create[OF w mirrors_weaken[OF m] ok[unfolded ACreate]] run ACreate by simp
    then show ?thesis using ACreate act by (cases act) simp_all
  next
    case (AMoveUp i)
    then show ?thesis using run m mirrors_move[OF w m, of i "i - 1"] D(2)
      by (auto simp: move_workspace_up_def not_le split: if_splits)
  next
    case (AMoveDown i)
    then show ?thesis using run m mirrors_move[OF w m, of i "i + 1"] D(2)
      by (auto simp: move_workspace_down_def not_le split: if_splits)
  next
    case (ADelete i sure)
    then show ?thesis using run m ok mirrors_delete[OF w m, of render n i]
      by (auto simp: delete_workspace_at_index_def split: if_splits)
  next
    case (ARename i nm)
    then show ?thesis using quiet quiet_rename_color(1)[OF w len, of render n i nm] run by simp
  next
    case (AColor i cl)
    then show ?thesis using quiet quiet_rename_color(2)[OF w len, of render n i cl] run by simp
  next
    case (ASelectPage tv k)
    then show ?thesis using quiet quiet_pages(1)[OF w small, of render n Free tv k] run by simp
  next
    case (AFocus tv p)
    then show ?thesis using quiet quiet_focus(2)[OF w small, of render n Free tv p] run by simp
  qed (use run mirrors_switch[OF w m] mirrors_duplicate[OF w m] ok in auto)
qed

subsection \<open>The layout events\<close>

lemma unread_first:
  assumes "pos < length es"
  shows "List.map_filter f (drop pos es) = (case f (es ! pos) of None \<Rightarrow> [] | Some y \<Rightarrow> [y]) @ List.map_filter f (drop (Suc pos) es)"
  using Cons_nth_drop_Suc[OF assms, symmetric] by (simp add: List.map_filter_def split: option.split)

text \<open>An event that is neither a reorder nor a deletion leaves only the position behind.\<close>

lemma mirrors_pass:
  assumes "mirrors act (wm, d, pos)" "pos < length (events (d_session d))" "reorder_of (events (d_session d) ! pos) = None"
  shows "mirrors act (wm, d, Suc pos)"
  using assms by (auto simp: mirrors_def Let_def unread_first)

lemma mirrors_echo:
  assumes m: "mirrors act (wm, d, pos)" and pos: "pos < length (events (d_session d))"
    and e: "events (d_session d) ! pos = WorkspacesReordered i j u v"
  shows "mirrors act (handle_reordered i j wm, d, Suc pos)"
proof -
  note D = mirrorsD[OF m]
  obtain rest where rest: "pending_reorders wm = (i, j) # rest"
    "rest = List.map_filter reorder_of (drop (Suc pos) (events (d_session d)))"
    using D(11) e by (simp add: unread_first[OF pos])
  then have "i < length (wm_workspaces wm)" "j < length (wm_workspaces wm)" using D(2,9) by auto
  then have h: "handle_reordered i j wm = wm\<lparr>pending_reorders := rest\<rparr>"
    using rest(1) by (simp add: handle_reordered_def consume_reorder_self_echo_def Let_def)
  show ?thesis
    using m rest pos e unfolding h by (auto simp: mirrors_def Let_def unread_first)
qed

lemma mirrors_event:
  assumes w: "wire_ok (c_libs c) rd" and m: "mirrors act (wm, d, pos)" and pos: "pos < length (events (d_session d))"
    and e: "event_told (events (d_session d) ! pos) = Some e"
    and run: "handle_layout_event (c_libs c) (daemon_peer c render n) rn e (wm, d) = (wm', d')"
  shows "mirrors act (wm', d', Suc pos)"
proof -
  let ?L = "c_libs c" and ?P = "daemon_peer c render n" and ?e = "events (d_session d) ! pos"
  note D = mirrorsD[OF m]
  have small: "wm_active (fst (wm, d)) < 2 ^ 64" using D(6) by simp
  have pass: "reorder_of ?e = None \<Longrightarrow> quiet (wm, d) (wm', d') \<Longrightarrow> ?thesis"
    using mirrors_quiet mirrors_pass[OF m pos] by blast
  show ?thesis
  proof (cases ?e)
    case (WorkspacesReordered i j u v)
    then show ?thesis using e run mirrors_echo[OF m pos] by auto
  next
    case (WorkspaceDeleted i u)
    then have "u \<notin> set (session_ids (d_session d))" using D(12) by (simp add: unread_first[OF pos])
    then have "position (\<lambda>w. wv_id w = u) (wm_workspaces wm) = None"
      using D(1) by (auto simp: position_None_iff) (metis image_eqI list.set_map)
    then have "handle_workspace_deleted u wm = wm" by (simp add: handle_workspace_deleted_def)
    then show ?thesis using WorkspaceDeleted e run pass by auto
  next
    case (TabCreated i t p)
    then show ?thesis using e run pass quiet_events(1)[OF w small, of render n rn i t p] by auto
  next
    case (ActivePaneChanged i t p)
    then show ?thesis using e run pass quiet_events(2)[OF w small, of render n i t p] by auto
  next
    case (WorkspaceColorChanged i u cl)
    then show ?thesis using e run pass quiet_events(3)[OF w small, of u cl] by auto
  next
    case (WorkspaceRenamed i u nm)
    then show ?thesis using e run pass quiet_view[of "\<lambda>w. w\<lparr>wv_name := nm\<rparr>" wm d i] by (auto split: if_splits)
  qed (use e run pass in auto)
qed

subsection \<open>Every run\<close>

lemma mirrors_step:
  assumes w: "wire_ok (c_libs c) rd" and st: "window_step c render n rn st l st'" and m: "mirrors act st"
    and act: "act \<Longrightarrow> \<forall>nm. l \<noteq> WUser (ACreate nm)"
  shows "mirrors act st'"
  using st
proof cases
  case (user a wm d wm' d' pos)
  then show ?thesis using mirrors_user[OF w] m act by simp
next
  case (other_event pos d wm)
  then have "reorder_of (events (d_session d) ! pos) = None" by (cases "events (d_session d) ! pos") auto
  then show ?thesis using mirrors_pass other_event m by simp
next
  case (layout_event pos d e wm wm' d')
  then show ?thesis using mirrors_event[OF w] m by simp
next
  case (other d la s' wm pos)
  have m0: "mirrors act (wm, d, pos)" using m other by simp
  obtain D where "sinv {} D (d_session d)" using mirrorsD(7)[OF m0] by blast
  from hush_other[OF this] other have "hush (d_session d) s'" by blast
  then have "quiet (wm, d) (wm, d\<lparr>d_session := s'\<rparr>)" by (simp add: quiet_def)
  then show ?thesis using mirrors_quiet[OF m0] other by simp
qed

lemma mirrors_run:
  assumes "wire_ok (c_libs c) rd" "steps (window_step c render n rn) st ls st'" "mirrors act st"
    and "act \<Longrightarrow> \<forall>nm. WUser (ACreate nm) \<notin> set ls"
  shows "mirrors act st'"
  using assms(2-) by (induction rule: steps.induct) (auto dest: mirrors_step[OF assms(1)])


text \<open>A window on the two workspaces of the session of the witnesses.\<close>

definition bare_view :: "uuid \<Rightarrow> string \<Rightarrow> workspace_view" where
  "bare_view u name =
     \<lparr>wv_id = u, wv_name = name, wv_pages = [], wv_selected = None, wv_tracker = None, wv_active_pane = Map.empty,
      wv_own = Map.empty, wv_initial = False, wv_color = None\<rparr>"

definition demo_window :: window where
  "demo_window =
     \<lparr>wm_workspaces = [bare_view 100 ''Default'', bare_view 101 ''work''], wm_active = 0, pending_reorders = [],
      pending_active_pane = [], wm_focus = None\<rparr>"

definition all_render :: renderer where
  "all_render = \<lparr>subscribes = (\<lambda>p. True), creates = (\<lambda>p. True)\<rparr>"

lemma demo_facts:
  "d_session demo_daemon = demo_session" "c_libs wire_config = unary_wire" "ws_count demo_session = 2"
  "map wv_id (wm_workspaces demo_window) = map ws_id (workspaces (layout demo_session))"
  "pending_reorders demo_window = []" "wm_active demo_window = active_workspace (layout demo_session)"
  by (simp_all add: demo_daemon_def wire_config_def demo_window_def bare_view_def demo_session_eval ws_count_def)


end
