(* ===== verification/WindowFocus.thy ===== *)
theory WindowFocus
  imports WindowRuns
begin

section \<open>The focus of the window and the focused pane of the daemon\<close>

text \<open>
  Each change of the focus is told to the daemon, which answers with an event that the window
  expects at the head of a queue. The daemon sends no event for the pane it already has, and a
  focus that an event itself moves is told without an entry in the queue. This theory shows where
  the two lead.
\<close>

text \<open>The window shows the tab with these panes, and the daemon has one of them for the tab.\<close>

definition shows_tab :: "nat \<Rightarrow> uuid \<Rightarrow> uuid \<Rightarrow> pane_id set \<Rightarrow> window \<Rightarrow> bool" where
  "shows_tab i tv t ps wm \<longleftrightarrow>
     wm_active wm = i \<and> i < length (wm_workspaces wm) \<and> view_index tv wm = Some i \<and>
     (let w = wm_workspaces wm ! i
      in wv_id w = tv \<and> (\<forall>p \<in> ps. wv_own w p = None) \<and>
         (\<exists>pg. selected_page w = Some pg \<and> pg_tab pg = Some t \<and>
            find (\<lambda>pg. pg_tab pg = Some t) (wv_pages w) = Some pg \<and>
            ps \<subseteq> set (collect_leaf_drawing_areas (pg_root pg))))"

definition saved_pane :: "nat \<Rightarrow> uuid \<Rightarrow> pane_id set \<Rightarrow> pane_id \<Rightarrow> session \<Rightarrow> bool" where
  "saved_pane i t ps p s \<longleftrightarrow>
     i < ws_count s \<and> i < 2 ^ 64 \<and>
     (\<exists>j. position (\<lambda>u. tab_id u = t) (ws_tabs (workspaces (layout s) ! i)) = Some j \<and>
        (let u = ws_tabs (workspaces (layout s) ! i) ! j
         in ps \<subseteq> set (leaves (tab_tree u)) \<and> active_pane_id u = Some p))"

lemma set_active_pane_saved:
  assumes s: "saved_pane i t ps p s" and q: "q \<in> ps"
  shows "fst (set_active_pane i t (Some q) s) = Inr ()"
    "saved_pane i t ps q (snd (set_active_pane i t (Some q) s))"
    "events (snd (set_active_pane i t (Some q) s)) = events s @ (if p = q then [] else [ActivePaneChanged i t (Some q)])"
proof -
  obtain j where j: "position (\<lambda>u. tab_id u = t) (ws_tabs (workspaces (layout s) ! i)) = Some j"
    "ps \<subseteq> set (leaves (tab_tree (ws_tabs (workspaces (layout s) ! i) ! j)))"
    "active_pane_id (ws_tabs (workspaces (layout s) ! i) ! j) = Some p"
    and i: "i < ws_count s" "i < 2 ^ 64"
    using s by (auto simp: saved_pane_def Let_def)
  have len: "j < length (ws_tabs (workspaces (layout s) ! i))" using j(1) by (simp add: position_Some_iff)
  have w: "workspaces (layout (modify_ws i f s)) ! i = f (workspaces (layout s) ! i)" for f
    using i(1) by (simp add: modify_layout_ws_def modify_at_nth ws_count_def)
  have c: "ws_count (modify_ws i f s) = ws_count s" for f by (simp add: modify_layout_ws_def ws_count_def)
  have r: "set_active_pane i t (Some q) s = (Inr (), if p = q then s else send_event (ActivePaneChanged i t (Some q))
      (modify_ws i (\<lambda>ws. ws\<lparr>ws_tabs := modify_at j (\<lambda>u. u\<lparr>active_pane_id := Some q\<rparr>) (ws_tabs ws)\<rparr>) s))"
    using i j q by (auto simp: set_active_pane_def not_le Let_def)
  show "fst (set_active_pane i t (Some q) s) = Inr ()" by (simp add: r)
  show "events (snd (set_active_pane i t (Some q) s)) = events s @ (if p = q then [] else [ActivePaneChanged i t (Some q)])"
    by (simp add: r)
  have "saved_pane i t ps q (send_event e (modify_ws i
      (\<lambda>ws. ws\<lparr>ws_tabs := modify_at j (\<lambda>u. u\<lparr>active_pane_id := Some q\<rparr>) (ws_tabs ws)\<rparr>) s))" for e
    using i j len unfolding saved_pane_def Let_def
    by (auto simp: w[simplified] c[unfolded ws_count_def, simplified] ws_count_def position_modify modify_at_nth intro!: exI[of _ j])
  then show "saved_pane i t ps q (snd (set_active_pane i t (Some q) s))" using s by (auto simp: r)
qed

lemma shows_tab_view:
  assumes "shows_tab i tv t ps wm"
    and "\<And>w. wv_id (f w) = wv_id w" "\<And>w. wv_own (f w) = wv_own w" "\<And>w. wv_pages (f w) = wv_pages w"
      "\<And>w. wv_selected (f w) = wv_selected w"
  shows "shows_tab i tv t ps (modify_view k f wm)"
proof -
  have "selected_page (f w) = selected_page w" for w using assms(4,5) by (simp add: selected_page_def split: option.split)
  then show ?thesis
    using assms by (auto simp: shows_tab_def Let_def modify_view_def modify_at_nth view_index_def position_modify)
qed

lemma shows_tab_fields [simp]:
  "shows_tab i tv t ps (wm\<lparr>wm_focus := x\<rparr>) = shows_tab i tv t ps wm"
  "shows_tab i tv t ps (wm\<lparr>pending_active_pane := y\<rparr>) = shows_tab i tv t ps wm"
  by (simp_all add: shows_tab_def view_index_def)

text \<open>One change of the focus within the tab.\<close>

lemma focus_within_tab:
  assumes w: "wire_ok (c_libs c) rd" and b: "b \<noteq> Exclusive"
    and v: "shows_tab i tv t ps wm" "q \<in> ps" "wm_focus wm \<noteq> Some q" and s: "saved_pane i t ps p (d_session d)"
  obtains wm' where
    "grab_focus (c_libs c) (daemon_peer c render n) b tv q (wm, d) =
       (wm', d\<lparr>d_session := snd (set_active_pane i t (Some q) (d_session d))\<rparr>)"
    "shows_tab i tv t ps wm'" "wm_focus wm' = Some q"
    "pending_active_pane wm' = pending_active_pane wm @ (if b = Free then [(i, t, q)] else [])"
proof -
  let ?L = "c_libs c" and ?P = "daemon_peer c render n"
  have act: "wm_active wm = i" "i < length (wm_workspaces wm)" "view_index tv wm = Some i" "wv_id (wm_workspaces wm ! i) = tv"
    using v(1) by (auto simp: shows_tab_def Let_def)
  obtain pg where pg: "selected_page (wm_workspaces wm ! i) = Some pg" "pg_tab pg = Some t"
    "q \<in> set (collect_leaf_drawing_areas (pg_root pg))" "wv_own (wm_workspaces wm ! i) q = None"
    using v(1,2) by (auto simp: shows_tab_def Let_def)
  have shown: "is_shown tv q wm" using act pg by (simp add: is_shown_def)
  have tab: "tab_of_focus q (wm_workspaces wm ! i) = Some t" using pg by (simp add: tab_of_focus_def)
  define wm1 where "wm1 = modify_view i (\<lambda>w. w\<lparr>wv_tracker := Some q\<rparr>) (wm\<lparr>wm_focus := Some q\<rparr>)"
  have s1: "shows_tab i tv t ps wm1" unfolding wm1_def by (rule shows_tab_view) (simp_all add: v(1))
  define wm2 where "wm2 = (if b = Free then note_focus i t q wm1 else wm1)"
  have s2: "shows_tab i tv t ps wm2"
    using s1 by (auto simp: wm2_def note_focus_def intro!: shows_tab_view)
  have small: "i < 2 ^ 64" using s by (simp add: saved_pane_def)
  have call: "snd (dc_set_active_pane ?L ?P i t (Some q) d) = d\<lparr>d_session := snd (set_active_pane i t (Some q) (d_session d))\<rparr>"
    using dc_session(1)[OF w refl refl small] by blast
  have vi: "view_index tv (wm\<lparr>wm_focus := Some q\<rparr>) = Some i" using act(3) by (simp add: view_index_def)
  have "wm_active wm1 = i" using act(1) by (simp add: wm1_def)
  then have "grab_focus ?L ?P b tv q (wm, d) = (wm2, d\<lparr>d_session := snd (set_active_pane i t (Some q) (d_session d))\<rparr>)"
    using b shown v(3) tab vi call by (simp add: grab_focus_def focus_enter_def Let_def wm1_def[symmetric] wm2_def)
  moreover have "wm_focus wm2 = Some q" by (simp add: wm2_def wm1_def note_focus_def)
  moreover have "pending_active_pane wm2 = pending_active_pane wm @ (if b = Free then [(i, t, q)] else [])"
    by (simp add: wm2_def wm1_def note_focus_def)
  ultimately show thesis using that s2 by blast
qed

subsection \<open>Two events that chase each other\<close>

text \<open>
  Two events of the tab are unread, the focus is on the pane of the second, and the head of the
  queue is neither: each event moves the focus back and makes the daemon send the next one.
\<close>

definition chasing :: "nat \<Rightarrow> uuid \<Rightarrow> uuid \<Rightarrow> pane_id \<Rightarrow> pane_id \<Rightarrow> window \<times> daemon \<times> nat \<Rightarrow> bool" where
  "chasing i tv t x y st \<longleftrightarrow>
     (case st of (wm, d, pos) \<Rightarrow>
        x \<noteq> y \<and> shows_tab i tv t {x, y} wm \<and> saved_pane i t {x, y} y (d_session d) \<and> wm_focus wm = Some y \<and>
        (\<exists>e q. pending_active_pane wm = e # q \<and> e \<noteq> (i, t, x) \<and> e \<noteq> (i, t, y)) \<and>
        (\<exists>before. events (d_session d) = before @ [ActivePaneChanged i t (Some x), ActivePaneChanged i t (Some y)] \<and>
           pos = length before))"

lemma chasing_step:
  assumes w: "wire_ok (c_libs c) rd" and c: "chasing i tv t x y (wm, d, pos)"
  shows "\<exists>wm' d'. window_step c render n rn (wm, d, pos) WEvent (wm', d', Suc pos) \<and> chasing i tv t y x (wm', d', Suc pos)"
proof -
  let ?L = "c_libs c" and ?P = "daemon_peer c render n" and ?s = "d_session d"
  obtain e q before where st: "x \<noteq> y" "shows_tab i tv t {x, y} wm" "saved_pane i t {x, y} y ?s" "wm_focus wm = Some y"
    "pending_active_pane wm = e # q" "e \<noteq> (i, t, x)" "e \<noteq> (i, t, y)"
    "events ?s = before @ [ActivePaneChanged i t (Some x), ActivePaneChanged i t (Some y)]" "pos = length before"
    using c by (auto simp: chasing_def)
  have head: "consume_active_pane_self_echo (pending_active_pane wm) i t (Some x) = (False, pending_active_pane wm)"
    using st(5,6) by (cases e) (auto simp: consume_active_pane_self_echo_def)
  define wm1 where "wm1 = modify_view i (\<lambda>w. w\<lparr>wv_active_pane := (wv_active_pane w)(t \<mapsto> x)\<rparr>) wm"
  have s1: "shows_tab i tv t {x, y} wm1" unfolding wm1_def by (rule shows_tab_view) (simp_all add: st(2))
  have f1: "wm_focus wm1 \<noteq> Some x" "pending_active_pane wm1 = e # q" using st(1,4,5) by (simp_all add: wm1_def)
  obtain wm' where g: "grab_focus ?L ?P Shared tv x (wm1, d) = (wm', d\<lparr>d_session := snd (set_active_pane i t (Some x) ?s)\<rparr>)"
    "shows_tab i tv t {x, y} wm'" "wm_focus wm' = Some x" "pending_active_pane wm' = e # q"
    using focus_within_tab[OF w _ s1 insertI1 f1(1) st(3), of Shared render n thesis] f1(2) by auto
  obtain pg where pg: "find (\<lambda>pg. pg_tab pg = Some t) (wv_pages (wm_workspaces wm ! i)) = Some pg"
    "x \<in> set (collect_leaf_drawing_areas (pg_root pg))" "i < length (wm_workspaces wm)" "wv_id (wm_workspaces wm ! i) = tv"
    using st(2) by (auto simp: shows_tab_def Let_def)
  have "handle_layout_event ?L ?P rn (LActivePaneChanged i t (Some x)) (wm, d) =
      (wm', d\<lparr>d_session := snd (set_active_pane i t (Some x) ?s)\<rparr>)"
    using head pg g(1) by (simp add: handle_active_pane_changed_def Let_def wm1_def)
  then have "window_step c render n rn (wm, d, pos) WEvent (wm', d\<lparr>d_session := snd (set_active_pane i t (Some x) ?s)\<rparr>, Suc pos)"
    using st(8,9) by (intro layout_event[where e = "LActivePaneChanged i t (Some x)"]) simp_all
  moreover have "chasing i tv t y x (wm', d\<lparr>d_session := snd (set_active_pane i t (Some x) ?s)\<rparr>, Suc pos)"
    using g(2-4) st set_active_pane_saved[OF st(3) insertI1] by (cases e) (auto simp: chasing_def insert_commute)
  ultimately show ?thesis by blast
qed

lemma chasing_run:
  assumes w: "wire_ok (c_libs c) rd"
  shows "chasing i tv t x y st \<Longrightarrow>
    \<exists>st'. steps (window_step c render n rn) st (replicate k WEvent) st' \<and>
      (if even k then chasing i tv t x y st' else chasing i tv t y x st')"
proof (induction k arbitrary: x y st)
  case 0
  then show ?case by auto
next
  case (Suc k)
  obtain wm d pos where st: "st = (wm, d, pos)" by (cases st) auto
  obtain wm' d' where one: "window_step c render n rn st WEvent (wm', d', Suc pos)" "chasing i tv t y x (wm', d', Suc pos)"
    using chasing_step[OF w] Suc.prems st by blast
  obtain st' where "steps (window_step c render n rn) (wm', d', Suc pos) (replicate k WEvent) st'"
    "if even k then chasing i tv t y x st' else chasing i tv t x y st'" using Suc.IH[OF one(2)] by blast
  then show ?case
    using steps_step[of "window_step c render n rn", OF one(1)] by (intro exI[of _ st']) simp
qed

text \<open>
  C24: The focus of a window can move by itself for ever: the user comes back to a tab by its
  last pane, which the daemon has already and so sends no event for, and moves to a second and a
  third pane before the window next reads the events. The entry for the first pane stays at the
  head of the queue, so the events of the second and third are taken for those of another client;
  each moves the focus to its pane, which makes the daemon send the next one. However many events
  the window handles, two more are waiting, and the focus alternates between the two panes.
\<close>

theorem focus_alternates_for_ever:
  assumes w: "wire_ok (c_libs c) rd" and v: "shows_tab i tv t {a, x, y} wm" and s: "saved_pane i t {a, x, y} a (d_session d)"
    and ne: "a \<noteq> x" "a \<noteq> y" "x \<noteq> y" and calm: "wm_focus wm \<noteq> Some a" "pending_active_pane wm = []"
  shows "\<exists>wm' d' pos.
    steps (window_step c render n rn) (wm, d, length (events (d_session d)))
      ([WUser (AFocus tv a), WUser (AFocus tv x), WUser (AFocus tv y)] @ replicate k WEvent) (wm', d', pos) \<and>
    length (events (d_session d')) = pos + 2 \<and> wm_focus wm' = Some (if even k then y else x)"
proof -
  let ?L = "c_libs c" and ?P = "daemon_peer c render n" and ?s = "d_session d" and ?ps = "{a, x, y}" and ?pos = "length (events (d_session d))"
  define s1 where "s1 = snd (set_active_pane i t (Some a) ?s)"
  define s2 where "s2 = snd (set_active_pane i t (Some x) s1)"
  define s3 where "s3 = snd (set_active_pane i t (Some y) s2)"
  have a: "saved_pane i t ?ps a s1" "events s1 = events ?s"
    using set_active_pane_saved[OF s, of a] by (simp_all add: s1_def)
  have x: "saved_pane i t ?ps x s2" "events s2 = events ?s @ [ActivePaneChanged i t (Some x)]"
    using set_active_pane_saved[OF a(1), of x] ne a(2) by (simp_all add: s2_def)
  have y: "saved_pane i t ?ps y s3" "events s3 = events ?s @ [ActivePaneChanged i t (Some x), ActivePaneChanged i t (Some y)]"
    using set_active_pane_saved[OF x(1), of y] ne x(2) by (simp_all add: s3_def)
  have act: "Free \<noteq> Exclusive" by simp
  obtain wm1 where f1: "grab_focus ?L ?P Free tv a (wm, d) = (wm1, d\<lparr>d_session := s1\<rparr>)"
    "shows_tab i tv t ?ps wm1" "wm_focus wm1 = Some a" "pending_active_pane wm1 = [(i, t, a)]"
    using focus_within_tab[OF w act v _ calm(1) s, of render n thesis] calm(2) by (auto simp: s1_def)
  have nx: "wm_focus wm1 \<noteq> Some x" using f1(3) ne by simp
  obtain wm2 where f2: "grab_focus ?L ?P Free tv x (wm1, d\<lparr>d_session := s1\<rparr>) = (wm2, d\<lparr>d_session := s2\<rparr>)"
    "shows_tab i tv t ?ps wm2" "wm_focus wm2 = Some x" "pending_active_pane wm2 = [(i, t, a), (i, t, x)]"
    using focus_within_tab[OF w act f1(2) _ nx, of a "d\<lparr>d_session := s1\<rparr>" render n thesis] a(1) f1(4)
    by (auto simp: s2_def)
  have ny: "wm_focus wm2 \<noteq> Some y" using f2(3) ne by simp
  obtain wm3 where f3: "grab_focus ?L ?P Free tv y (wm2, d\<lparr>d_session := s2\<rparr>) = (wm3, d\<lparr>d_session := s3\<rparr>)"
    "shows_tab i tv t ?ps wm3" "wm_focus wm3 = Some y" "pending_active_pane wm3 = [(i, t, a), (i, t, x), (i, t, y)]"
    using focus_within_tab[OF w act f2(2) _ ny, of x "d\<lparr>d_session := s2\<rparr>" render n thesis] x(1) f2(4)
    by (auto simp: s3_def)
  have step: "window_do ?L ?P rn (AFocus tv p) (wa, da) = (wb, db) \<Longrightarrow>
      window_step c render n rn (wa, da, ?pos) (WUser (AFocus tv p)) (wb, db, ?pos)" for p wa da wb db
    by (rule user) simp_all
  have "chasing i tv t x y (wm3, d\<lparr>d_session := s3\<rparr>, ?pos)"
    using f3(2-4) y ne by (auto simp: chasing_def shows_tab_def saved_pane_def Let_def)
  from chasing_run[OF w this, of render n rn k] obtain st' where run:
    "steps (window_step c render n rn) (wm3, d\<lparr>d_session := s3\<rparr>, ?pos) (replicate k WEvent) st'"
    "if even k then chasing i tv t x y st' else chasing i tv t y x st'" by blast
  have "steps (window_step c render n rn) (wm, d, ?pos)
      ([WUser (AFocus tv a), WUser (AFocus tv x), WUser (AFocus tv y)] @ replicate k WEvent) st'"
    using step[of a wm d] step[of x wm1] step[of y wm2] f1(1) f2(1) f3(1) run(1)
    by (auto intro!: steps_step)
  moreover obtain wm' d' pos where st': "st' = (wm', d', pos)" by (cases st') auto
  moreover have "length (events (d_session d')) = pos + 2" "wm_focus wm' = Some (if even k then y else x)"
    using run(2) st' by (auto simp: chasing_def split: if_splits)
  ultimately show ?thesis by blast
qed

definition triple_daemon :: daemon where
  "triple_daemon = demo_daemon\<lparr>d_session := demo_session\<lparr>layout :=
     \<lparr>workspaces = [\<lparr>ws_id = 100, ws_name = ''Default'', ws_tabs = [\<lparr>tab_id = 103, tab_title = [],
        tab_tree = Split ''horizontal'' (Finite (1/2)) (Leaf 102) (Split ''vertical'' (Finite (1/2)) (Leaf 104) (Leaf 105)),
        active_pane_id = Some 102\<rparr>], ws_active_tab = 0, ws_color = None\<rparr>], active_workspace = 0\<rparr>\<rparr>\<rparr>"

definition triple_window :: window where
  "triple_window = demo_window\<lparr>wm_workspaces := [(bare_view 100 ''Default'')\<lparr>wv_pages := [\<lparr>pg_tab = Some 103,
     pg_root = Paned Horizontal 0 100 None (Terminal 102) (Paned Vertical 0 100 None (Terminal 104) (Terminal 105))\<rparr>],
     wv_selected := Some 0\<rparr>]\<rparr>"

theorem focus_alternates_for_ever_witness:
  "\<exists>wm' d' pos. steps (window_step wire_config (\<lambda>_. []) 1 all_render) (triple_window, triple_daemon, 3)
      ([WUser (AFocus 100 102), WUser (AFocus 100 104), WUser (AFocus 100 105)] @ replicate 1001 WEvent) (wm', d', pos) \<and>
    length (events (d_session d')) = pos + 2 \<and> wm_focus wm' = Some 104"
proof -
  have v: "shows_tab 0 100 103 {102, 104, 105} triple_window"
    by (simp add: shows_tab_def triple_window_def demo_window_def bare_view_def view_index_def selected_page_def
        collect_leaf_drawing_areas_def)
  have s: "saved_pane 0 103 {102, 104, 105} 102 (d_session triple_daemon)"
    by (simp add: saved_pane_def triple_daemon_def ws_count_def)
  have n: "length (events (d_session triple_daemon)) = 3" "wm_focus triple_window = None" "pending_active_pane triple_window = []"
    by (simp_all add: triple_daemon_def triple_window_def demo_window_def demo_session_def)
  show ?thesis
    using focus_alternates_for_ever[of wire_config id 0 100 103 102 104 105 triple_window triple_daemon "\<lambda>_. []" 1
      all_render 1001] v s wire_ok_unary unfolding n demo_facts by force
qed

end
