(* ===== verification/WindowStale.thy ===== *)
theory WindowStale
  imports WindowRuns
begin

section \<open>A workspace deleted while an echo is expected\<close>

text \<open>
  The window checks the indices of a reorder event against its list before it looks at the queue,
  so an event that has become out of range leaves its entry behind.
\<close>

abbreviation with_queue :: "(nat \<times> nat) list \<Rightarrow> window \<times> 'd \<Rightarrow> window \<times> 'd" where
  "with_queue q st \<equiv> ((fst st)\<lparr>pending_reorders := q\<rparr>, snd st)"

lemma queue_views [simp]:
  "modify_view i f (wm\<lparr>pending_reorders := q\<rparr>) = (modify_view i f wm)\<lparr>pending_reorders := q\<rparr>"
  "view_index tv (wm\<lparr>pending_reorders := q\<rparr>) = view_index tv wm"
  "is_shown tv p (wm\<lparr>pending_reorders := q\<rparr>) = is_shown tv p wm"
  "note_focus i t p (wm\<lparr>pending_reorders := q\<rparr>) = (note_focus i t p wm)\<lparr>pending_reorders := q\<rparr>"
  by (simp_all add: modify_view_def view_index_def is_shown_def note_focus_def)

lemma queue_last:
  "wm\<lparr>pending_reorders := q, wm_focus := x\<rparr> = wm\<lparr>wm_focus := x, pending_reorders := q\<rparr>"
  "wm\<lparr>pending_reorders := q, wm_workspaces := y\<rparr> = wm\<lparr>wm_workspaces := y, pending_reorders := q\<rparr>"
  "wm\<lparr>pending_reorders := q, wm_active := z\<rparr> = wm\<lparr>wm_active := z, pending_reorders := q\<rparr>"
  by simp_all

lemma focus_ignores_queue:
  "grab_focus L P b tv p (with_queue q st) = with_queue q (grab_focus L P b tv p st)"
proof -
  have enter: "focus_enter L P b tv p (wm\<lparr>pending_reorders := q\<rparr>, d) = with_queue q (focus_enter L P b tv p (wm, d))" for wm d
    by (simp add: focus_enter_def Let_def split: option.split)
  show ?thesis
    using enter[of "(fst st)\<lparr>wm_focus := Some p\<rparr>" "snd st"] by (cases st) (simp add: grab_focus_def queue_last)
qed

lemma delete_ignores_queue:
  "do_delete_workspace_at_index L P i (with_queue q st) = with_queue q (do_delete_workspace_at_index L P i st)"
proof -
  have first: "focus_first L P (with_queue q st) = with_queue q (focus_first L P st)" for st
    using focus_ignores_queue[where q = q and st = st] by (simp add: focus_first_def Let_def split: option.split)
  show ?thesis
    using first[where st = "(wm, d)" for wm d]
    by (simp add: do_delete_workspace_at_index_def Let_def queue_last split: prod.split sum.split)
qed

lemma move_effect:
  assumes w: "wire_ok (c_libs c) rd" and m: "mirrors act (wm, d, pos)" and ij: "i \<noteq> j" "i < ws_count (d_session d)" "j < ws_count (d_session d)"
    and mv: "move_workspace_to (c_libs c) (daemon_peer c render n) i j (wm, d) = (wm', d')"
  shows "wm' = swap_workspaces i j (wm\<lparr>pending_reorders := pending_reorders wm @ [(i, j)]\<rparr>)"
    "session_ids (d_session d') = vec_swap i j (session_ids (d_session d))"
    "\<not> isl (fst (dc_move_workspace (c_libs c) (daemon_peer c render n) i j d))"
proof -
  have small: "i < 2 ^ 64" "j < 2 ^ 64" using mirrorsD(5)[OF m] ij by linarith+
  have call: "snd (dc_move_workspace (c_libs c) (daemon_peer c render n) i j d) = d\<lparr>d_session := snd (move_workspace i j (d_session d))\<rparr>"
    "\<not> isl (fst (dc_move_workspace (c_libs c) (daemon_peer c render n) i j d))"
    using dc_session(5)[OF w refl refl small, of render n d] ij by (simp_all add: move_workspace_def Let_def)
  from call(2) show "\<not> isl (fst (dc_move_workspace (c_libs c) (daemon_peer c render n) i j d))" .
  from call show "wm' = swap_workspaces i j (wm\<lparr>pending_reorders := pending_reorders wm @ [(i, j)]\<rparr>)"
    using mv by (auto simp: move_workspace_to_def split: prod.splits sum.splits)
  have "d' = d\<lparr>d_session := snd (move_workspace i j (d_session d))\<rparr>"
    using mv call by (auto simp: move_workspace_to_def split: prod.splits sum.splits)
  then show "session_ids (d_session d') = vec_swap i j (session_ids (d_session d))"
    using ij by (simp add: move_workspace_def Let_def map_vec(1) ws_count_def)
qed

lemma delete_effect:
  assumes w: "wire_ok (c_libs c) rd" and m: "mirrors act (wm, d, pos)" and i: "i < ws_count (d_session d)" "1 < ws_count (d_session d)"
    and del: "do_delete_workspace_at_index (c_libs c) (daemon_peer c render n) i (wm, d) = (wm', d')"
  shows "map wv_id (wm_workspaces wm') = vec_remove i (map wv_id (wm_workspaces wm))"
proof -
  note D = mirrorsD[OF m]
  have small: "i < 2 ^ 64" using D(5) i by linarith
  have call: "\<not> isl (fst (dc_delete_workspace (c_libs c) (daemon_peer c render n) i d))"
    using dc_session(6)[OF w refl refl small, of render n d] delete_workspace_ok(2)[OF i] by simp
  then obtain x d1 where dc: "dc_delete_workspace (c_libs c) (daemon_peer c render n) i d = (Inr x, d1)"
    by (cases "dc_delete_workspace (c_libs c) (daemon_peer c render n) i d"; cases "fst (dc_delete_workspace (c_libs c) (daemon_peer c render n) i d)") auto
  define wm1 where "wm1 = wm\<lparr>wm_workspaces := vec_remove i (wm_workspaces wm),
     wm_active := (if wm_active wm > i then wm_active wm - 1
                   else if wm_active wm = i then min i (length (vec_remove i (wm_workspaces wm)) - 1) else wm_active wm),
     wm_focus := (if wm_active wm = i then None else wm_focus wm)\<rparr>"
  have res: "(wm', d') = focus_first (c_libs c) (daemon_peer c render n) (wm1, d1)"
    using del dc i D(2) by (auto simp: do_delete_workspace_at_index_def Let_def wm1_def)
  have "wm_active wm1 < 2 ^ 64" using D(6) i small by (auto simp: wm1_def)
  from quiet_events(4)[OF w, of "(wm1, d1)" render n] this res show ?thesis
    by (simp add: quiet_def prod_eq_iff wm1_def map_vec(2))
qed

text \<open>
  C25: A move followed by a deletion breaks the order for good: the user moves the last but one
  of three or more workspaces down and deletes a workspace before the window reads the event of
  the move. The event is then out of range and is dropped without its entry in the queue, so the
  event of the next move does not match the head of the queue: the window takes its own move for
  the move of another client and swaps the workspaces back, and shows another order than the
  daemon has.
\<close>

theorem stale_echo_undoes_moves:
  assumes w: "wire_ok (c_libs c) rd"
    and ids: "map wv_id (wm_workspaces wm) = map ws_id (workspaces (layout (d_session d)))" and q: "pending_reorders wm = []"
    and inv: "sinv {} D (d_session d)" and act: "wm_active wm < length (wm_workspaces wm)" and small: "ws_count (d_session d) < 2 ^ 64"
    and n: "length (wm_workspaces wm) = n" "i < n" "k + 2 < n"
    and st1: "move_workspace_down (c_libs c) (daemon_peer c render m) (n - 2) (wm, d) = (wm1, d1)"
    and st2: "do_delete_workspace_at_index (c_libs c) (daemon_peer c render m) i (wm1, d1) = (wm2, d2)"
    and st3: "move_workspace_down (c_libs c) (daemon_peer c render m) k (wm2, d2) = (wm3, d3)"
  shows "handle_reordered (n - 2) (n - 1) wm2 = wm2 \<and>
    handle_workspace_deleted (ws_id (workspaces (layout (d_session d1)) ! i)) wm2 = wm2 \<and>
    map wv_id (wm_workspaces wm2) = map ws_id (workspaces (layout (d_session d2))) \<and>
    map ws_id (workspaces (layout (d_session d3))) = vec_swap k (k + 1) (map ws_id (workspaces (layout (d_session d2)))) \<and>
    map wv_id (wm_workspaces (handle_reordered k (k + 1) wm3)) = map ws_id (workspaces (layout (d_session d2))) \<and>
    map wv_id (wm_workspaces (handle_reordered k (k + 1) wm3)) \<noteq> map ws_id (workspaces (layout (d_session d3)))"
proof -
  let ?L = "c_libs c" and ?P = "daemon_peer c render m"
  have count: "ws_count (d_session d) = n" using ids n(1) map_eq_imp_length_eq by (fastforce simp: ws_count_def)
  have m0: "mirrors False (wm, d, length (events (d_session d)))"
    using ids q inv act small n(1) count by (auto simp: mirrors_def Let_def List.map_filter_def)
  have "n - 2 + 1 = n - 1" "\<not> n - 1 \<ge> length (wm_workspaces (fst (wm, d)))" using n by simp_all
  then have st1': "move_workspace_to ?L ?P (n - 2) (n - 1) (wm, d) = (wm1, d1)"
    using st1 unfolding move_workspace_down_def by presburger
  have move: "n - 2 \<noteq> n - 1" "n - 2 < ws_count (d_session d)" "n - 1 < ws_count (d_session d)" using n count by auto
  have m1: "mirrors False (wm1, d1, length (events (d_session d)))" by (rule mirrors_move[OF w m0 move st1'])
  have wm1: "wm1 = swap_workspaces (n - 2) (n - 1) (wm\<lparr>pending_reorders := [(n - 2, n - 1)]\<rparr>)"
    using move_effect(1)[OF w m0 move st1'] q by simp
  have m1': "mirrors False (wm1\<lparr>pending_reorders := []\<rparr>, d1, length (events (d_session d1)))"
    using m1 by (auto simp: mirrors_def Let_def List.map_filter_def)
  obtain wma da where da: "do_delete_workspace_at_index ?L ?P i (wm1\<lparr>pending_reorders := []\<rparr>, d1) = (wma, da)" by fastforce
  have m2: "mirrors False (wma, da, length (events (d_session d1)))" by (rule mirrors_delete[OF w m1' _ da]) simp
  have "with_queue [(n - 2, n - 1)] (wm1\<lparr>pending_reorders := []\<rparr>, d1) = (wm1, d1)"
    using wm1 by (simp add: swap_workspaces_def)
  then have two: "wm2 = wma\<lparr>pending_reorders := [(n - 2, n - 1)]\<rparr>" "d2 = da"
    using st2 delete_ignores_queue[of ?L ?P i "[(n - 2, n - 1)]" "(wm1\<lparr>pending_reorders := []\<rparr>, d1)"] da by simp_all
  have ids2: "map wv_id (wm_workspaces wm2) = session_ids (d_session d2)" using mirrorsD(1)[OF m2] two by simp
  have count1: "ws_count (d_session d1) = n" "length (wm_workspaces wm1) = n"
    using mirrorsD(2)[OF m1] wm1 n(1) by (simp_all add: swap_workspaces_def)
  have "map wv_id (wm_workspaces wma) = vec_remove i (session_ids (d_session d1))"
    using delete_effect[OF w m1' _ _ da] mirrorsD(1)[OF m1] count1(1) n by simp
  then have rem: "map wv_id (wm_workspaces wm2) = vec_remove i (session_ids (d_session d1))" by (simp add: two)
  have len1: "length (session_ids (d_session d1)) = n" using mirrorsD(3)[OF m1] count1 by simp
  have len2: "length (wm_workspaces wm2) = n - 1" "ws_count (d_session d2) = n - 1"
    using arg_cong[OF rem, of length] len1 n(2) arg_cong[OF ids2, of length] by (simp_all add: ws_count_def)
  obtain E where E: "sinv {} E (d_session d1)" using mirrorsD(7)[OF m1] by blast
  obtain F where F: "sinv {} F (d_session d2)" using mirrorsD(7)[OF m2] two by auto
  have dis1: "distinct (session_ids (d_session d1))" and dis2: "distinct (session_ids (d_session d2))"
    using invD(1)[OF E] invD(1)[OF F] by (simp_all add: layout_ok_def layout_ws_ids_def)
  let ?u = "ws_id (workspaces (layout (d_session d1)) ! i)"
  have "?u \<notin> set (map wv_id (wm_workspaces wm2))"
    using set_vec(2)[OF _ dis1, of i] len1 n(2) unfolding rem by simp
  then have "position (\<lambda>w. wv_id w = ?u) (wm_workspaces wm2) = None" by (auto simp: position_None_iff) (metis imageI)
  then have gone: "handle_workspace_deleted ?u wm2 = wm2" by (simp add: handle_workspace_deleted_def)
  have late: "handle_reordered (n - 2) (n - 1) wm2 = wm2" using len2 n by (simp add: handle_reordered_def)
  have st3': "move_workspace_to ?L ?P k (k + 1) (wm2, d2) = (wm3, d3)"
    using st3 n(3) unfolding move_workspace_down_def fst_conv len2(1) by (simp split: if_splits)
  define wmq where "wmq = wm2\<lparr>pending_reorders := []\<rparr>"
  have mq: "mirrors False (wmq, d2, length (events (d_session d2)))"
    using m2 two by (auto simp: wmq_def mirrors_def Let_def List.map_filter_def)
  have k: "k \<noteq> k + 1" "k < ws_count (d_session d2)" "k + 1 < ws_count (d_session d2)" using len2 n(3) by simp_all
  obtain wmb db where b: "move_workspace_to ?L ?P k (k + 1) (wmq, d2) = (wmb, db)" by fastforce
  note eff = move_effect[OF w mq k b]
  have st3w: "wm3 = swap_workspaces k (k + 1) (wm2\<lparr>pending_reorders := [(n - 2, n - 1), (k, k + 1)]\<rparr>)" "d3 = db"
    using st3' b eff(3) two by (auto simp: move_workspace_to_def split: prod.splits sum.splits)
  have swapped: "session_ids (d_session d3) = vec_swap k (k + 1) (session_ids (d_session d2))" using eff(2) st3w(2) by simp
  have "handle_reordered k (k + 1) wm3 = swap_workspaces k (k + 1) wm3"
    using st3w(1) len2 n(3) by (simp add: handle_reordered_def consume_reorder_self_echo_def swap_workspaces_def Let_def)
  then have undone: "wm_workspaces (handle_reordered k (k + 1) wm3) = vec_swap k (k + 1) (vec_swap k (k + 1) (wm_workspaces wm2))"
    using st3w(1) by (simp add: swap_workspaces_def)
  have "vec_swap k (k + 1) (vec_swap k (k + 1) (wm_workspaces wm2)) = wm_workspaces wm2"
    using len2 n(3) by (intro nth_equalityI) (simp_all add: vec_swap_nth)
  then have final: "map wv_id (wm_workspaces (handle_reordered k (k + 1) wm3)) = session_ids (d_session d2)"
    using undone ids2 by simp
  have "vec_swap k (k + 1) (session_ids (d_session d2)) ! k \<noteq> session_ids (d_session d2) ! k"
    using dis2 k by (simp add: vec_swap_nth ws_count_def distinct_conv_nth)
  then have "session_ids (d_session d2) \<noteq> session_ids (d_session d3)" using swapped by metis
  with gone late ids2 swapped final show ?thesis by simp
qed

definition third_session :: session where
  "third_session = snd (create_workspace ''play'' demo_session)"

lemma third_facts:
  "map ws_id (workspaces (layout third_session)) = [100, 101, 104]" "active_workspace (layout third_session) = 0"
  by (simp_all add: third_session_def create_workspace_def demo_session_eval new_uuid_def Let_def demo_world_def)

theorem stale_echo_undoes_moves_witness:
  "\<exists>wm1 d1 wm2 d2 wm3 d3. let L = unary_wire; P = daemon_peer wire_config (\<lambda>_. []) 1;
      wm = demo_window\<lparr>wm_workspaces := [bare_view 100 ''Default'', bare_view 101 ''work'', bare_view 104 ''play'']\<rparr>
    in move_workspace_down L P 1 (wm, demo_daemon\<lparr>d_session := third_session\<rparr>) = (wm1, d1) \<and>
       do_delete_workspace_at_index L P 0 (wm1, d1) = (wm2, d2) \<and> move_workspace_down L P 0 (wm2, d2) = (wm3, d3) \<and>
       handle_reordered 1 2 wm2 = wm2 \<and>
       map wv_id (wm_workspaces (handle_reordered 0 1 wm3)) \<noteq> map ws_id (workspaces (layout (d_session d3)))"
proof -
  let ?P = "daemon_peer wire_config (\<lambda>_. []) 1" and ?d = "demo_daemon\<lparr>d_session := third_session\<rparr>"
  let ?wm = "demo_window\<lparr>wm_workspaces := [bare_view 100 ''Default'', bare_view 101 ''work'', bare_view 104 ''play'']\<rparr>"
  obtain wm1 d1 wm2 d2 wm3 d3 where run: "move_workspace_down unary_wire ?P 1 (?wm, ?d) = (wm1, d1)"
    "do_delete_workspace_at_index unary_wire ?P 0 (wm1, d1) = (wm2, d2)" "move_workspace_down unary_wire ?P 0 (wm2, d2) = (wm3, d3)"
    by (meson surj_pair)
  have inv: "sinv {} {} (d_session ?d)"
    using inv_create_workspace[OF demo_inv] by (simp add: third_session_def) (metis prod.collapse)
  have n: "map wv_id (wm_workspaces ?wm) = map ws_id (workspaces (layout (d_session ?d)))" "pending_reorders ?wm = []"
    "wm_active ?wm < length (wm_workspaces ?wm)" "length (wm_workspaces ?wm) = 3"
    by (simp_all add: third_facts bare_view_def demo_window_def)
  have small: "ws_count (d_session ?d) < 2 ^ 64"
    using arg_cong[OF third_facts(1), of length] by (simp add: ws_count_def)
  have idx: "(3::nat) - 2 = 1" "(3::nat) - 1 = 2" "(0::nat) + 1 = 1" "(0::nat) < 3" "(0::nat) + 2 < 3" by simp_all
  note all = stale_echo_undoes_moves[of wire_config id, unfolded demo_facts(2), OF wire_ok_unary n(1,2) inv n(3) small n(4),
      of 0 0 "\<lambda>_. []" 1, unfolded idx, OF idx(4,5) run]
  have "handle_reordered 1 2 wm2 = wm2"
    "map wv_id (wm_workspaces (handle_reordered 0 1 wm3)) \<noteq> map ws_id (workspaces (layout (d_session d3)))"
    using all by blast+
  then show ?thesis unfolding Let_def using run by blast
qed

end
