(* ===== verification/PanesProps.thy ===== *)
theory PanesProps
  imports Panes ClientProps
begin

section \<open>Splits in the window and in the daemon\<close>

text \<open>
  What becomes of the dividers when a window is closed and opened again, and of the order of the
  panes when one is split: the window keeps a tree of widgets, the daemon the tree that is saved.
\<close>

text \<open>The widget shows the tree.\<close>

fun shows_tree :: "pane_tree \<Rightarrow> pane_widget \<Rightarrow> bool" where
  "shows_tree (Leaf p) (Terminal q) \<longleftrightarrow> p = q"
| "shows_tree (Split d r a b) (Paned o1 pos sz sv x y) \<longleftrightarrow>
     o1 = (if d = ''horizontal'' then Horizontal else Vertical) \<and> shows_tree a x \<and> shows_tree b y"
| "shows_tree _ _ \<longleftrightarrow> False"

lemma leftmost_shown [simp]: "shows_tree t w \<Longrightarrow> leftmost_daemon_pane_id w = Some (hd (leaves t))"
proof (induction t w rule: shows_tree.induct)
  case (2 d r a b o1 pos sz sv x y)
  then show ?case by simp
qed simp_all

lemma collect_leaf_simps [simp]:
  "collect_leaf_drawing_areas (Terminal p) = [p]"
  "collect_leaf_drawing_areas (Paned o1 pos sz sv a b) = collect_leaf_drawing_areas a @ collect_leaf_drawing_areas b"
proof -
  have "collect_leaves w out = out @ collect_leaves w []" for w out
  proof (induction w arbitrary: out)
    case (Paned o1 pos sz sv a b)
    show ?case using Paned(1)[of out] Paned(2)[of "collect_leaves a out"] Paned(2)[of "collect_leaves a []"] by simp
  qed simp
  from this[of b "collect_leaves a []"] show "collect_leaf_drawing_areas (Terminal p) = [p]"
    "collect_leaf_drawing_areas (Paned o1 pos sz sv a b) = collect_leaf_drawing_areas a @ collect_leaf_drawing_areas b"
    by (simp_all add: collect_leaf_drawing_areas_def)
qed

lemma shown_leaves: "shows_tree t w \<Longrightarrow> collect_leaf_drawing_areas w = leaves t"
  by (induction t w rule: shows_tree.induct) simp_all

subsection \<open>Saving the dividers\<close>

definition set_ratio :: "pane_id \<times> f32 \<Rightarrow> pane_tree \<Rightarrow> pane_tree" where
  "set_ratio u t = snd (update_ratio_for_pane t (fst u) (f32_clamp (5 / 100) (95 / 100) (snd u)))"

definition set_ratios :: "(pane_id \<times> f32) list \<Rightarrow> pane_tree \<Rightarrow> pane_tree" where
  "set_ratios us t = fold set_ratio us t"

lemma set_ratios_simps [simp]:
  "set_ratios [] t = t" "set_ratios (u # us) t = set_ratios us (set_ratio u t)"
  "set_ratios (us @ vs) t = set_ratios vs (set_ratios us t)"
  by (simp_all add: set_ratios_def)

lemma set_ratio_leaves [simp]: "leaves (set_ratio u t) = leaves t"
  by (simp add: set_ratio_def)

lemma set_ratio_miss: "fst u \<notin> set (leaves t) \<Longrightarrow> set_ratio u t = t"
  unfolding set_ratio_def using update_ratio_miss update_ratio_flag_leaf by metis

lemma set_ratios_leaves [simp]: "leaves (set_ratios us t) = leaves t"
  by (induction us arbitrary: t) simp_all

lemma set_ratios_miss: "fst ` set us \<inter> set (leaves t) = {} \<Longrightarrow> set_ratios us t = t"
  by (induction us) (auto simp: set_ratio_miss)

lemma set_ratio_leaf [simp]: "set_ratio u (Leaf p) = Leaf p" "set_ratios us (Leaf p) = Leaf p"
proof -
  show one: "set_ratio u (Leaf p) = Leaf p" for u by (simp add: set_ratio_def)
  show "set_ratios us (Leaf p) = Leaf p" by (induction us) (simp_all add: one)
qed

text \<open>An update of the first pane of a split sets its ratio, any other goes into the subtree.\<close>

lemma set_ratio_split:
  "set_ratio u (Split d q a b) =
     (if fst u = hd (leaves a) then Split d (f32_clamp (5 / 100) (95 / 100) (snd u)) a b
      else if fst (update_ratio_for_pane a (fst u) (f32_clamp (5 / 100) (95 / 100) (snd u)))
      then Split d q (set_ratio u a) b else Split d q a (set_ratio u b))"
proof -
  let ?c = "f32_clamp (5 / 100) (95 / 100) (snd u)"
  obtain f a' where r: "update_ratio_for_pane a (fst u) ?c = (f, a')" by fastforce
  then have "\<not> f \<Longrightarrow> a' = a" using update_ratio_miss[of a "fst u" ?c] by simp
  with r show ?thesis by (cases f) (auto simp: set_ratio_def split: prod.split)
qed

lemma set_ratios_second:
  assumes "fst ` set us \<inter> set (leaves a) = {}"
  shows "set_ratios us (Split d q a b) = Split d q a (set_ratios us b)"
  using assms
proof (induction us arbitrary: b)
  case (Cons u us)
  have "fst u \<notin> set (leaves a)" using Cons.prems by auto
  then have "set_ratio u (Split d q a b) = Split d q a (set_ratio u b)"
    using update_ratio_flag_leaf[of a "fst u"] hd_in_set[OF leaves_nonempty[of a]]
    by (auto simp: set_ratio_split)
  then show ?case using Cons by simp
qed simp

text \<open>The ratio of a split after updates of panes of its first subtree: the last that names the
  first pane.\<close>

fun last_ratio :: "pane_id \<Rightarrow> (pane_id \<times> f32) list \<Rightarrow> f32 \<Rightarrow> f32" where
  "last_ratio p [] q = q"
| "last_ratio p (u # us) q = last_ratio p us (if fst u = p then f32_clamp (5 / 100) (95 / 100) (snd u) else q)"

lemma last_ratio_append [simp]: "last_ratio p (us @ vs) q = last_ratio p vs (last_ratio p us q)"
  by (induction us arbitrary: q) simp_all

lemma last_ratio_miss: "p \<notin> fst ` set us \<Longrightarrow> last_ratio p us q = q"
  by (induction us) auto

lemma set_ratios_first:
  assumes "fst ` set us \<inter> set (leaves b) = {}"
  shows "set_ratios us (Split d q a b) =
    Split d (last_ratio (hd (leaves a)) us q) (set_ratios [u \<leftarrow> us. fst u \<noteq> hd (leaves a)] a) b"
  using assms
proof (induction us arbitrary: q a)
  case (Cons u us)
  have miss: "fst u \<notin> set (leaves b)" using Cons.prems by auto
  then have "set_ratio u (Split d q a b) =
      Split d (if fst u = hd (leaves a) then f32_clamp (5 / 100) (95 / 100) (snd u) else q)
        (if fst u = hd (leaves a) then a else set_ratio u a) b"
    using update_ratio_miss[of a "fst u"] by (auto simp: set_ratio_split set_ratio_miss) (auto simp: set_ratio_def)
  then show ?case using Cons by simp
qed simp

text \<open>The ratios of a widget, in the order in which they are collected.\<close>

fun ratios_of :: "pane_widget \<Rightarrow> (pane_id \<times> f32) list" where
  "ratios_of (Terminal p) = []"
| "ratios_of (Paned o1 pos sz sv a b) =
     (the (leftmost_daemon_pane_id a), paned_ratio pos sz) # ratios_of a @ ratios_of b"

lemma leftmost_Some: "leftmost_daemon_pane_id w \<noteq> None"
  by (induction w) auto

lemma collect_ratios [simp]: "collect_ratios_from_widget w out = out @ ratios_of w"
proof (induction w arbitrary: out)
  case (Paned o1 pos sz sv a b)
  show ?case using leftmost_Some[of a] Paned by (auto simp: Let_def)
qed simp

lemma collect_split_ratios [simp]: "collect_split_ratios ws = concat (map ratios_of ws)"
proof -
  have "fold collect_ratios_from_widget ws out = out @ concat (map ratios_of ws)" for out
    by (induction ws arbitrary: out) simp_all
  then show ?thesis by (simp add: collect_split_ratios_def)
qed

lemma ratios_of_panes: "shows_tree t w \<Longrightarrow> fst ` set (ratios_of w) \<subseteq> set (leaves t)"
proof (induction t w rule: shows_tree.induct)
  case (2 d r a b o1 pos sz sv x y)
  then show ?case using hd_in_set[OF leaves_nonempty[of a]] by auto
qed simp_all

text \<open>
  What the daemon holds afterwards. The splits on the way from a split to its first pane all go
  by that pane, so the outermost of them gets the ratio of the innermost and the others keep
  what they had.
\<close>

fun innermost_ratio :: "pane_widget \<Rightarrow> f32" where
  "innermost_ratio (Paned o1 pos sz sv (Terminal p) y) = paned_ratio pos sz"
| "innermost_ratio (Paned o1 pos sz sv x y) = innermost_ratio x"
| "innermost_ratio (Terminal p) = NaN"

fun saved_tree :: "pane_tree \<Rightarrow> pane_widget \<Rightarrow> pane_tree"
and below_first :: "pane_tree \<Rightarrow> pane_widget \<Rightarrow> pane_tree" where
  "saved_tree (Split d q a b) (Paned o1 pos sz sv x y) =
     Split d (f32_clamp (5 / 100) (95 / 100) (innermost_ratio (Paned o1 pos sz sv x y)))
       (below_first a x) (saved_tree b y)"
| "saved_tree t w = t"
| "below_first (Split d q a b) (Paned o1 pos sz sv x y) = Split d q (below_first a x) (saved_tree b y)"
| "below_first t w = t"

lemma saved_leaves [simp]: "leaves (saved_tree t w) = leaves t" "leaves (below_first t w) = leaves t"
  by (induction t w and t w rule: saved_tree_below_first.induct) simp_all

lemma last_ratio_innermost:
  assumes "shows_tree t w" "distinct (leaves t)" "w = Paned o1 pos sz sv x y"
  shows "last_ratio (hd (leaves t)) (ratios_of w) q = f32_clamp (5 / 100) (95 / 100) (innermost_ratio w)"
  using assms
proof (induction t w arbitrary: q o1 pos sz sv x y rule: shows_tree.induct)
  case (2 d r a b o2 pos2 sz2 sv2 x2 y2)
  have hd: "hd (leaves (Split d r a b)) = hd (leaves a)" by simp
  have "hd (leaves a) \<notin> set (leaves b)"
    using 2(4) hd_in_set[OF leaves_nonempty[of a]] unfolding leaves.simps distinct_append by blast
  then have "hd (leaves a) \<notin> fst ` set (ratios_of y2)" using ratios_of_panes 2(3) by fastforce
  note tail = last_ratio_miss[OF this]
  show ?case
  proof (cases x2)
    case (Terminal p)
    then have "a = Leaf p" using 2(3) by (cases a) simp_all
    with Terminal show ?thesis using 2(3) tail by simp
  next
    case (Paned o3 pos3 sz3 sv3 x3 y3)
    then show ?thesis using 2(1)[of o3 pos3 sz3 sv3 x3 y3] 2(3,4) tail by simp
  qed
qed simp_all

lemma saved_tree_spec:
  assumes "shows_tree t w" "distinct (leaves t)"
  shows "set_ratios (ratios_of w) t = saved_tree t w \<and>
    set_ratios [u \<leftarrow> ratios_of w. fst u \<noteq> hd (leaves t)] t = below_first t w"
  using assms
proof (induction t w rule: shows_tree.induct)
  case (2 d r a b o1 pos sz sv x y)
  have sh: "shows_tree a x" "shows_tree b y" and di: "distinct (leaves a)" "distinct (leaves b)"
    "set (leaves a) \<inter> set (leaves b) = {}" using "2.prems" by simp_all
  note IH = "2.IH"(1)[OF sh(1) di(1)] "2.IH"(2)[OF sh(2) di(2)]
  let ?p = "hd (leaves a)"
  have p: "?p \<in> set (leaves a)" by simp
  then have np: "?p \<notin> set (leaves b)" using di(3) by blast
  have x: "fst ` set (ratios_of x) \<inter> set (leaves b) = {}" using ratios_of_panes[OF sh(1)] di(3) by blast
  have y: "fst ` set (ratios_of y) \<inter> set (leaves a) = {}" using ratios_of_panes[OF sh(2)] di(3) by blast
  have y': "fst ` set (ratios_of y) \<inter> set (leaves (set_ratios us a)) = {}" for us using y by simp
  have px: "fst ` set ((?p, paned_ratio pos sz) # ratios_of x) \<inter> set (leaves b) = {}"
    using x np by auto
  have ratios: "ratios_of (Paned o1 pos sz sv x y) = ((?p, paned_ratio pos sz) # ratios_of x) @ ratios_of y"
    using sh(1) by simp
  have hit: "last_ratio ?p ((?p, paned_ratio pos sz) # ratios_of x) r =
      f32_clamp (5 / 100) (95 / 100) (innermost_ratio (Paned o1 pos sz sv x y))"
  proof (cases x)
    case (Paned o3 pos3 sz3 sv3 x3 y3)
    then show ?thesis using last_ratio_innermost[OF sh(1) di(1) Paned] by simp
  qed simp
  have fy: "[u \<leftarrow> ratios_of y. fst u \<noteq> ?p] = ratios_of y"
    using y p by (intro filter_True) auto
  have "set_ratios (ratios_of (Paned o1 pos sz sv x y)) (Split d r a b) =
      saved_tree (Split d r a b) (Paned o1 pos sz sv x y)"
    unfolding ratios set_ratios_simps(3) set_ratios_first[OF px] hit set_ratios_second[OF y'] filter.simps
    using IH by simp
  moreover have "set_ratios [u \<leftarrow> ratios_of (Paned o1 pos sz sv x y). fst u \<noteq> hd (leaves (Split d r a b))]
      (Split d r a b) = below_first (Split d r a b) (Paned o1 pos sz sv x y)"
  proof -
    have fx: "fst ` set [u \<leftarrow> ratios_of x. fst u \<noteq> ?p] \<inter> set (leaves b) = {}" using x by auto
    have "last_ratio ?p [u \<leftarrow> ratios_of x. fst u \<noteq> ?p] r = r" by (rule last_ratio_miss) auto
    then show ?thesis
      using IH fy y unfolding ratios filter_append leaves.simps hd_append2[OF leaves_nonempty]
      by (simp add: set_ratios_first[OF fx] set_ratios_second)
  qed
  ultimately show ?case by blast
qed simp_all

text \<open>A tab keeps its tree under the updates of the other tabs.\<close>

definition save_tab :: "session_tab \<Rightarrow> pane_widget \<Rightarrow> session_tab" where
  "save_tab t w = t\<lparr>tab_tree := saved_tree (tab_tree t) w\<rparr>"

definition save_workspace :: "session_workspace \<Rightarrow> pane_widget list \<Rightarrow> session_workspace" where
  "save_workspace ws tabs = ws\<lparr>ws_tabs := map2 save_tab (ws_tabs ws) tabs\<rparr>"

definition shows_workspace :: "session_workspace \<Rightarrow> pane_widget list \<Rightarrow> bool" where
  "shows_workspace ws tabs = list_all2 (\<lambda>t. shows_tree (tab_tree t)) (ws_tabs ws) tabs"

definition with_ratios :: "(pane_id \<times> f32) list \<Rightarrow> session_workspace \<Rightarrow> session_workspace" where
  "with_ratios us ws = ws\<lparr>ws_tabs := map (\<lambda>t. t\<lparr>tab_tree := set_ratios us (tab_tree t)\<rparr>) (ws_tabs ws)\<rparr>"

lemma update_ratios_trees:
  "update_split_ratios us s =
     s\<lparr>layout := (layout s)\<lparr>workspaces := map (with_ratios us) (workspaces (layout s))\<rparr>\<rparr>"
proof (induction us s rule: update_split_ratios.induct)
  case (1 s)
  have "with_ratios [] ws = ws" for ws by (simp add: with_ratios_def)
  then show ?case by (simp add: map_idI)
next
  case (2 p r us s)
  have "with_ratios us (ws\<lparr>ws_tabs := map (update_tab_ratio p (f32_clamp (5 / 100) (95 / 100) r)) (ws_tabs ws)\<rparr>) =
      with_ratios ((p, r) # us) ws" for ws
    by (simp add: with_ratios_def update_tab_ratio_def set_ratio_def comp_def)
  then show ?case using 2 by (simp add: Let_def comp_def)
qed

lemma ratios_of_tabs:
  "list_all2 (\<lambda>t. shows_tree (tab_tree t)) ts tabs \<Longrightarrow>
   fst ` set (concat (map ratios_of tabs)) \<subseteq> set (concat (map (\<lambda>t. leaves (tab_tree t)) ts))"
proof (induction rule: list_all2_induct)
  case (Cons t ts w tabs)
  then show ?case using ratios_of_panes[OF Cons.hyps(1)] by (simp only: list.map concat.simps set_append image_Un) blast
qed simp

lemma tabs_saved:
  assumes "list_all2 (\<lambda>t. shows_tree (tab_tree t)) ts tabs"
    and "distinct (concat (map (\<lambda>t. leaves (tab_tree t)) ts))"
    and "fst ` set pre \<inter> set (concat (map (\<lambda>t. leaves (tab_tree t)) ts)) = {}"
    and "fst ` set post \<inter> set (concat (map (\<lambda>t. leaves (tab_tree t)) ts)) = {}"
  shows "map (\<lambda>t. t\<lparr>tab_tree := set_ratios (pre @ concat (map ratios_of tabs) @ post) (tab_tree t)\<rparr>) ts =
    map2 save_tab ts tabs"
  using assms
proof (induction ts tabs arbitrary: pre rule: list_all2_induct)
  case (Cons t ts w tabs)
  let ?rest = "concat (map ratios_of tabs)"
  have d: "distinct (leaves (tab_tree t))" "set (leaves (tab_tree t)) \<inter> set (concat (map (\<lambda>t. leaves (tab_tree t)) ts)) = {}"
    "distinct (concat (map (\<lambda>t. leaves (tab_tree t)) ts))" using Cons.prems(1) by auto
  have rest: "fst ` set ?rest \<subseteq> set (concat (map (\<lambda>t. leaves (tab_tree t)) ts))"
    by (rule ratios_of_tabs) (rule Cons.hyps(2))
  have "set (leaves (tab_tree t)) \<inter> fst ` set ?rest = {}" using rest d(2) by blast
  moreover have "fst ` set pre \<inter> set (leaves (tab_tree t)) = {}"
    "fst ` set post \<inter> set (leaves (tab_tree t)) = {}" using Cons.prems(2,3) by auto
  ultimately have miss: "set_ratios pre (tab_tree t) = tab_tree t"
    "set_ratios ?rest (saved_tree (tab_tree t) w) = saved_tree (tab_tree t) w"
    "set_ratios post (saved_tree (tab_tree t) w) = saved_tree (tab_tree t) w"
    by (simp_all add: set_ratios_miss Int_commute)
  have "set_ratios (pre @ ratios_of w @ ?rest @ post) (tab_tree t) = saved_tree (tab_tree t) w"
    using saved_tree_spec[OF Cons.hyps(1) d(1)] miss by simp
  moreover have "fst ` set (pre @ ratios_of w) \<inter> set (concat (map (\<lambda>t. leaves (tab_tree t)) ts)) = {}"
    using Cons.prems(2) ratios_of_panes[OF Cons.hyps(1)] d(2)
    by (simp only: set_append image_Un list.map concat.simps) blast
  ultimately show ?case using Cons.IH[of "pre @ ratios_of w"] Cons.prems(3) d(3)
    by (simp add: save_tab_def Int_Un_distrib)
qed simp

lemma workspaces_saved:
  assumes "list_all2 shows_workspace wss wins"
    and "distinct (concat (map ws_leaves wss))"
    and "fst ` set pre \<inter> set (concat (map ws_leaves wss)) = {}"
  shows "map (with_ratios (pre @ concat (map collect_split_ratios wins))) wss = map2 save_workspace wss wins"
  using assms
proof (induction wss wins arbitrary: pre rule: list_all2_induct)
  case (Cons ws wss tabs wins)
  let ?own = "concat (map ratios_of tabs)" and ?rest = "concat (map collect_split_ratios wins)"
  note sh = Cons.hyps(1)[unfolded shows_workspace_def]
  have d: "distinct (ws_leaves ws)" "set (ws_leaves ws) \<inter> set (concat (map ws_leaves wss)) = {}"
    "distinct (concat (map ws_leaves wss))" using Cons.prems(1) by auto
  have own: "fst ` set ?own \<subseteq> set (ws_leaves ws)" unfolding ws_leaves_def by (rule ratios_of_tabs[OF sh])
  have "fst ` set ?rest \<subseteq> set (concat (map ws_leaves wss))"
    using Cons.hyps(2)
  proof (induction rule: list_all2_induct)
    case (Cons x xs y ys)
    have "fst ` set (collect_split_ratios y) \<subseteq> set (ws_leaves x)"
      using ratios_of_tabs[OF Cons.hyps(1)[unfolded shows_workspace_def]] unfolding ws_leaves_def by simp
    then show ?case using Cons.IH by (simp only: list.map concat.simps set_append image_Un) blast
  qed simp
  then have "fst ` set ?rest \<inter> set (ws_leaves ws) = {}" using d(2) by blast
  moreover have "fst ` set pre \<inter> set (ws_leaves ws) = {}" using Cons.prems(2) by auto
  ultimately have "with_ratios (pre @ ?own @ ?rest) ws = save_workspace ws tabs"
    unfolding with_ratios_def save_workspace_def using tabs_saved[OF sh] d(1)
    by (simp only: ws_leaves_def)
  moreover have "fst ` set (pre @ ?own) \<inter> set (concat (map ws_leaves wss)) = {}"
    using Cons.prems(2) own d(2) by (simp only: set_append image_Un list.map concat.simps) blast
  ultimately show ?case using Cons.IH[of "pre @ ?own"] d(3)
    by (simp add: collect_split_ratios[of tabs] del: collect_split_ratios)
qed simp

text \<open>Positions and sizes as GTK keeps them; the quotient is then a value of its type.\<close>

fun sane_widget :: "pane_widget \<Rightarrow> bool" where
  "sane_widget (Terminal p) \<longleftrightarrow> True"
| "sane_widget (Paned o1 pos sz sv a b) \<longleftrightarrow>
     0 \<le> pos \<and> (0 < sz \<longrightarrow> pos \<le> sz) \<and> sz < 2 ^ 24 \<and> sane_widget a \<and> sane_widget b"

lemma paned_ratio_value:
  assumes "0 \<le> pos" "0 < sz \<Longrightarrow> pos \<le> sz" "sz < 2 ^ 24"
  shows "\<exists>x. paned_ratio pos sz = Finite x \<and> f32_value x"
proof (cases "0 < sz")
  case False
  moreover have "f32_value (1 / 2)" unfolding f32_value_def by code_simp
  ultimately show ?thesis using False by (intro exI[of _ "1 / 2"]) (simp add: paned_ratio_def)
next
  case True
  have sz: "f32_of_int sz = Finite (of_int sz)" using f32_of_nat_exact[of "nat sz"] True assms(3) by simp
  show ?thesis
  proof (cases "pos = 0")
    case True
    have "f32_of_f64 0 = Finite 0" by (simp add: f32_of_f64_def ieee_round_def)
    with True sz \<open>0 < sz\<close> show ?thesis by (simp add: paned_ratio_def f32_quot_def f32_of_int_def f32_value_def)
  next
    case False
    then have pos: "f32_of_int pos = Finite (of_int pos)"
      using f32_of_nat_exact[of "nat pos"] True assms by simp
    have "(1::rat) \<le> of_int pos" using assms(1) False by simp
    moreover have "(of_int sz :: rat) < 2 ^ 24" using of_int_less_iff[of sz "2 ^ 24", where 'a = rat] assms(3) by simp
    moreover have p: "(0::rat) < of_int sz" "(of_int pos :: rat) \<le> of_int sz" using True assms(2) by simp_all
    ultimately have "1 / 2 ^ 24 \<le> of_int pos / (of_int sz :: rat)" by (intro frac_le) simp_all
    moreover have "(2::rat) powi (-126) \<le> 2 powi (-24)" unfolding powi_le by simp
    moreover have "(2::rat) powi (-24) = 1 / 2 ^ 24" by (simp add: power_int_minus field_simps)
    ultimately have low: "2 powi (-126) \<le> of_int pos / (of_int sz :: rat)" by linarith
    have "of_int pos / (of_int sz :: rat) \<le> 1" using p by simp
    moreover have "(1::rat) < 2 powi 127" by simp
    ultimately have "of_int pos / (of_int sz :: rat) < 2 powi 127" by linarith
    from f32_rounding[OF low this] show ?thesis
      using True pos sz by (simp add: paned_ratio_def f32_quot_def f32_value_def) metis
  qed
qed

lemma ratios_of_values:
  "sane_widget w \<Longrightarrow> \<forall>(p, r) \<in> set (ratios_of w). \<exists>x. r = Finite x \<and> f32_value x"
proof (induction w)
  case (Paned o1 pos sz sv a b)
  then show ?case using paned_ratio_value[of pos sz] by auto
qed simp

text \<open>
  C27: closing the window sends the positions of all dividers to the daemon in one call. The
  daemon finds a split by the first pane of its first side, which a split inside that side can
  share: of the splits that share their first pane the outermost one gets the ratio of the
  innermost, and the others keep the ratio they were last saved with. Splits that share it with
  no other get their own ratio, a half when the tab was never shown. Nothing else changes.
\<close>

theorem closing_saves_ratios:
  assumes "wire_ok (c_libs c) rd" and "distinct (layout_leaves (layout (d_session d)))"
    and "list_all2 shows_workspace (workspaces (layout (d_session d))) wins"
    and "\<forall>tabs \<in> set wins. \<forall>w \<in> set tabs. sane_widget w"
  shows "save_split_ratios (c_libs c) (daemon_peer c render n) wins d =
    d\<lparr>d_session := (d_session d)\<lparr>layout := (layout (d_session d))\<lparr>workspaces :=
      map2 save_workspace (workspaces (layout (d_session d))) wins\<rparr>\<rparr>\<rparr>"
proof -
  let ?us = "concat (map collect_split_ratios wins)" and ?s = "d_session d"
  have saved: "map (with_ratios ?us) (workspaces (layout ?s)) = map2 save_workspace (workspaces (layout ?s)) wins"
    using workspaces_saved[OF assms(3), of "[]"] assms(2) by (simp add: layout_leaves_def)
  have vals: "\<forall>(p, r) \<in> set ?us. \<exists>x. r = Finite x \<and> f32_value x"
    using assms(4) ratios_of_values by fastforce
  show ?thesis
  proof (cases "?us = []")
    case True
    have "with_ratios [] ws = ws" for ws by (simp add: with_ratios_def)
    then have "map2 save_workspace (workspaces (layout ?s)) wins = workspaces (layout ?s)"
      using saved unfolding True by (simp add: map_idI)
    then show ?thesis using True by (simp only: save_split_ratios_def Let_def) simp
  next
    case False
    have "[(p, r) \<leftarrow> ?us. r \<in> range Finite] = ?us" using vals by (intro filter_True) fastforce
    then have "snd (dc_update_split_ratios (c_libs c) (daemon_peer c render n) ?us d) =
        d\<lparr>d_session := update_split_ratios ?us ?s\<rparr>"
      using agrees_update_ratios[OF assms(1), of ?us render n d] vals
      by (fastforce simp: agrees_def reply_of_def in_daemon_def)
    then show ?thesis
      using False by (simp only: save_split_ratios_def Let_def if_False update_ratios_trees saved)
  qed
qed

text \<open>A split inside the first side of a split: the outer one gets the ratio of the inner one.\<close>

definition nested_tree :: "rat \<Rightarrow> rat \<Rightarrow> pane_tree" where
  "nested_tree r q = Split ''horizontal'' (Finite r) (Split ''vertical'' (Finite q) (Leaf 102) (Leaf 105)) (Leaf 104)"

definition nested_layout :: "rat \<Rightarrow> rat \<Rightarrow> session_layout" where
  "nested_layout r q = \<lparr>workspaces = [\<lparr>ws_id = 100, ws_name = ''Default'',
     ws_tabs = [\<lparr>tab_id = 103, tab_title = [], tab_tree = nested_tree r q, active_pane_id = None\<rparr>],
     ws_active_tab = 0, ws_color = None\<rparr>], active_workspace = 0\<rparr>"

definition nested_daemon :: "rat \<Rightarrow> rat \<Rightarrow> daemon" where
  "nested_daemon r q = demo_daemon\<lparr>d_session := demo_session\<lparr>layout := nested_layout r q\<rparr>\<rparr>"

definition nested_widget :: pane_widget where
  "nested_widget = Paned Horizontal 75 100 None
     (Paned Vertical 25 100 None (Terminal 102) (Terminal 105)) (Terminal 104)"

theorem closing_saves_ratios_witness:
  "save_split_ratios unary_wire (daemon_peer wire_config (\<lambda>_. []) 1) [[nested_widget]]
     (nested_daemon (1/2) (1/2)) = nested_daemon (1/4) (1/2)"
proof -
  have "paned_ratio 25 100 = Finite (1 / 4)" by code_simp
  then have "save_workspace (hd (workspaces (nested_layout (1/2) (1/2)))) [nested_widget] =
      hd (workspaces (nested_layout (1/4) (1/2)))"
    by (simp add: save_workspace_def save_tab_def nested_layout_def nested_tree_def nested_widget_def)
  then show ?thesis
    using closing_saves_ratios[of wire_config id "nested_daemon (1/2) (1/2)" "[[nested_widget]]"] wire_ok_unary
    by (simp add: wire_config_def nested_daemon_def shows_workspace_def nested_layout_def nested_tree_def
        nested_widget_def layout_leaves_def ws_leaves_def)
qed

subsection \<open>Opening the window again\<close>

lemma clamp_near:
  assumes "a \<le> x" "x \<le> (b :: rat)" "\<bar>y - x\<bar> \<le> e" "a \<le> b"
  shows "\<exists>z. f32_clamp a b (Finite y) = Finite z \<and> \<bar>z - x\<bar> \<le> e \<and> a \<le> z \<and> z \<le> b"
  using assms by (auto simp: abs_le_iff)



text \<open>A divider that moves: from 13 of 71 pixels to 12.\<close>

lemma divider_drifts: "restored_position 71 (f32_clamp (5 / 100) (95 / 100) (paned_ratio 13 71)) = Some 12"
proof -
  have ratio: "paned_ratio 13 71 = Finite (6143769 / 33554432)" by code_simp
  have e: "exponent_of (436207599 / 33554432) = 3"
    by (rule exponent_of_unique) simp_all
  have r: "round_half_even (436207599 / 32) = 13631487"
    by (rule round_half_even_near) (simp add: abs_less_iff)
  have prod: "f32_prod (Finite 71) (Finite (6143769 / 33554432)) = Finite (13631487 / 1048576)"
    by (simp add: f32_prod_def f32_of_f64_def ieee_round_def e r power_int_minus Let_def)
  have "\<lfloor>13631487 / 1048576 :: rat\<rfloor> = 12" by (simp add: floor_eq_iff)
  then show ?thesis
    using f32_of_nat_exact[of 71] by (simp add: ratio restored_position_def prod trunc_rat_def)
qed

subsection \<open>Splitting on the left\<close>

lemma replace_terminal_miss: "shows_tree t w \<Longrightarrow> p \<notin> set (leaves t) \<Longrightarrow> replace_terminal p new w = w"
  by (induction t w rule: shows_tree.induct) auto

lemma split_shown:
  assumes "shows_tree t w" "distinct (leaves t)" "p \<in> set (leaves t)"
    and new: "shows_tree (Split dir r (Leaf p) (Leaf n)) new \<longleftrightarrow> ok"
  shows "shows_tree (snd (replace_leaf_with_ratio t p n dir r)) (replace_terminal p new w) \<longleftrightarrow> ok"
  using assms(1-3)
proof (induction t w rule: shows_tree.induct)
  case (1 p' q)
  then show ?case using new by simp
next
  case (2 d q a b o1 pos sz sv x y)
  obtain f a' where fa: "replace_leaf_with_ratio a p n dir r = (f, a')" by fastforce
  obtain g b' where gb: "replace_leaf_with_ratio b p n dir r = (g, b')" by fastforce
  have f: "f \<longleftrightarrow> p \<in> set (leaves a)" using replace_leaf_flag[of a p n dir r] fa by simp
  show ?case
  proof (cases f)
    case True
    then have "p \<notin> set (leaves b)" using 2(4) f by auto
    then have "replace_terminal p new y = y" using 2(3) replace_terminal_miss[of b y p] by simp
    then show ?thesis using 2 True f fa by simp
  next
    case False
    then have "replace_terminal p new x = x" using 2(3) f replace_terminal_miss[of a x p] by simp
    moreover have "a' = a" using replace_leaf_miss[of p a n dir r] fa f False by simp
    ultimately show ?thesis using 2 False f fa gb by simp
  qed
qed simp_all

lemma distinct_concat_nth:
  assumes "distinct (concat xss)" "x \<in> set (xss ! i)" "x \<in> set (xss ! k)" "i < length xss" "k < length xss"
  shows "i = k"
  using assms
proof (induction xss arbitrary: i k)
  case (Cons xs xss)
  have apart: "x \<in> set xs \<Longrightarrow> j < length xss \<Longrightarrow> x \<notin> set (xss ! j)" for j
    using Cons.prems(1) nth_mem[of j xss] by (auto simp: disjoint_iff)
  show ?case using Cons apart by (cases i; cases k) auto
qed simp

text \<open>
  A split to the right or below shows in the window the tree the daemon holds. A split to
  the left or above puts the new terminal first in the window and second in the daemon, since the
  request does not say on which side it belongs: the window no longer shows the daemon's tree.
\<close>

theorem split_side_lost:
  assumes "wire_ok (c_libs c) rd" and "sinv {} D (d_session d)" and "pane_info_of p (d_session d) \<noteq> None"
    and "split_pane p (if o1 = Horizontal then ''horizontal'' else ''vertical'') default_size
          (map_option pi_cwd (pane_info_of p (d_session d))) (d_session d) = (Inr n, s')"
    and "i < ws_count (d_session d)" and "j < length (ws_tabs (workspaces (layout (d_session d)) ! i))"
    and "shows_tree (tab_tree (ws_tabs (workspaces (layout (d_session d)) ! i) ! j)) w"
    and "p \<in> set (collect_leaf_drawing_areas w)"
    and "window_split_pane (c_libs c) (daemon_peer c render k) (\<lambda>_. True) o1 before p w d = (w', d')"
  shows "d' = d\<lparr>d_session := s'\<rparr> \<and>
    (shows_tree (tab_tree (ws_tabs (workspaces (layout s') ! i) ! j)) w' \<longleftrightarrow> \<not> before)"
proof -
  let ?s = "d_session d" and ?t = "ws_tabs (workspaces (layout (d_session d)) ! i) ! j"
  let ?dir = "if o1 = Horizontal then ''horizontal'' else ''vertical''"
  let ?new = "if before then Paned o1 0 0 None (Terminal n) (Terminal p)
    else Paned o1 0 0 None (Terminal p) (Terminal n)"
  have "reply_of APane (dc_split_pane (c_libs c) (daemon_peer c render k) p ?dir d) =
      (Some (APane n), d\<lparr>d_session := s'\<rparr>)"
    using agrees_split_pane[OF assms(1), of render k d p ?dir] assms(3,4)
    by (auto simp: agrees_def in_daemon_def on_pane_def outcome_of_def)
  then have "dc_split_pane (c_libs c) (daemon_peer c render k) p ?dir d = (Inr n, d\<lparr>d_session := s'\<rparr>)"
    by (cases "dc_split_pane (c_libs c) (daemon_peer c render k) p ?dir d")
      (auto simp: reply_of_def split: sum.splits)
  then have w': "w' = replace_terminal p ?new w" and d': "d' = d\<lparr>d_session := s'\<rparr>"
    using assms(8,9) by (auto simp: window_split_pane_def)
  obtain m A t B tree C E where t: "m < ws_count ?s"
    "ws_tabs (workspaces (layout ?s) ! m) = A @ t # B"
    "ws_tabs (workspaces (layout s') ! m) = A @ t\<lparr>tab_tree := tree\<rparr> # B"
    "tree = snd (replace_leaf_with_ratio (tab_tree t) p n ?dir (Finite (1/2)))"
    "leaves (tab_tree t) = C @ p # E" and fresh: "n \<notin> set (layout_leaves (layout ?s))"
    using split_pane_effect[OF assms(2,4)] by blast
  have dl: "distinct (concat (map ws_leaves (workspaces (layout ?s))))"
    using invD(1)[OF assms(2)] by (simp add: layout_ok_def layout_leaves_def)
  then have dw: "distinct (ws_leaves (workspaces (layout ?s) ! i))"
    using assms(5) by (simp add: ws_count_def distinct_concat_iff)
  have p: "p \<in> set (leaves (tab_tree ?t))" using shown_leaves[OF assms(7)] assms(8) by simp
  then have pi: "p \<in> set (ws_leaves (workspaces (layout ?s) ! i))" using assms(6) by (force simp: ws_leaves_def)
  moreover have "p \<in> set (ws_leaves (workspaces (layout ?s) ! m))" by (simp add: ws_leaves_def t(2,5))
  ultimately have m: "m = i"
    using distinct_concat_nth[OF dl, of p m i] t(1) assms(5) by (simp add: ws_count_def)
  let ?ls = "map (\<lambda>t. leaves (tab_tree t)) (ws_tabs (workspaces (layout ?s) ! i))"
  have A: "length A < length (ws_tabs (workspaces (layout ?s) ! i))"
    "ws_tabs (workspaces (layout ?s) ! i) ! length A = t" using t(2) m by simp_all
  have j: "j = length A"
  proof (rule distinct_concat_nth)
    show "distinct (concat ?ls)" using dw by (simp add: ws_leaves_def)
    show "p \<in> set (?ls ! j)" "p \<in> set (?ls ! length A)" "j < length ?ls" "length A < length ?ls"
      using p assms(6) A t(5) by simp_all
  qed
  have sub: "distinct (leaves (tab_tree ?t))" using dw t(2) m j by (simp add: ws_leaves_def)
  have "p \<in> set (layout_leaves (layout ?s))"
    using pi assms(5) by (auto simp: layout_leaves_def ws_count_def)
  then have "p \<noteq> n" using fresh by auto
  then have "shows_tree (Split ?dir (Finite (1/2)) (Leaf p) (Leaf n)) ?new \<longleftrightarrow> \<not> before"
    by (cases o1) auto
  then have "shows_tree tree w' \<longleftrightarrow> \<not> before"
    using split_shown[OF assms(7) sub p] w' t(2,4) m j by simp
  then show ?thesis using d' t(2,3) m j by simp
qed

text \<open>A split to the left of pane 102.\<close>

theorem split_side_lost_witness:
  "\<not> shows_tree (Split ''horizontal'' (Finite (1/2)) (Leaf 102) (Leaf 104))
     (fst (window_split_pane unary_wire (daemon_peer wire_config (\<lambda>_. []) 1) (\<lambda>_. True) Horizontal True 102
        (Terminal 102) demo_daemon))"
proof -
  let ?x = "window_split_pane unary_wire (daemon_peer wire_config (\<lambda>_. []) 1) (\<lambda>_. True) Horizontal True 102
        (Terminal 102) demo_daemon"
  have info: "pane_info_of 102 demo_session \<noteq> None" by (simp add: pane_info_of_def demo_session_eval)
  let ?s = "split_pane 102 ''horizontal'' default_size (map_option pi_cwd (pane_info_of 102 demo_session)) demo_session"
  have sp: "fst ?s = Inr 104" "workspaces (layout (snd ?s)) = workspaces (layout split_session)"
    unfolding split_session_layout
    by (simp_all add: split_pane_def split_pane_body_def demo_session_def new_uuid_def
      pty_bridge_spawn_def effective_command_def Let_def os_do_def insert_pane_def push_order_def)
  have "split_pane 102 (if Horizontal = Horizontal then ''horizontal'' else ''vertical'') default_size
      (map_option pi_cwd (pane_info_of 102 (d_session demo_daemon))) (d_session demo_daemon) = (Inr 104, snd ?s)"
    using sp(1) by (simp add: demo_daemon_def prod_eq_iff)
  from split_side_lost[of wire_config id "{}", OF _ _ _ this, of 0 0 "Terminal 102" "\<lambda>_. []" 1 True "fst ?x" "snd ?x"]
  show ?thesis
    using info demo_inv wire_ok_unary sp(2) split_session_layout(1)
    by (simp add: wire_config_def demo_daemon_def collect_leaf_drawing_areas_def demo_session_def ws_count_def)
qed

subsection \<open>Moving the focus\<close>

definition candidate :: "move_dir \<Rightarrow> (pane_id \<Rightarrow> bounds option) \<Rightarrow> pane_id \<Rightarrow> bounds \<Rightarrow> pane_id \<Rightarrow> int \<Rightarrow> bool" where
  "candidate dir placed focused fb q d \<longleftrightarrow>
     q \<noteq> focused \<and> (\<exists>b. placed q = Some b \<and> in_direction dir b fb = (True, d))"

lemma nearest_spec:
  "(\<forall>q d. nearest dir placed focused fb qs best = Some (q, d) \<longrightarrow>
      best = Some (q, d) \<or> q \<in> set qs \<and> candidate dir placed focused fb q d) \<and>
   (\<forall>q d. best = Some (q, d) \<or> q \<in> set qs \<and> candidate dir placed focused fb q d \<longrightarrow>
      (\<exists>q' d'. nearest dir placed focused fb qs best = Some (q', d') \<and> d' \<le> d))"
proof (induction qs arbitrary: best)
  case (Cons p qs)
  let ?next = "if p = focused then best
        else case placed p of
               None \<Rightarrow> best
             | Some b \<Rightarrow>
                 (case in_direction dir b fb of (valid, distance) \<Rightarrow>
                    if valid \<and> (case best of None \<Rightarrow> True | Some (_, bd) \<Rightarrow> distance < bd)
                    then Some (p, distance) else best)"
  have from_next: "?next = Some (q, d) \<Longrightarrow> best = Some (q, d) \<or> q = p \<and> candidate dir placed focused fb q d" for q d
    by (auto simp: candidate_def split: if_splits option.splits prod.splits)
  have to_next: "best = Some (q, d) \<or> q = p \<and> candidate dir placed focused fb q d \<Longrightarrow>
      \<exists>q' d'. ?next = Some (q', d') \<and> d' \<le> d" for q d
    by (cases best) (auto simp: candidate_def split: if_splits option.splits prod.splits)
  have step: "nearest dir placed focused fb (p # qs) best = nearest dir placed focused fb qs ?next" by simp
  show ?case
  proof (intro conjI allI impI)
    fix q d assume "nearest dir placed focused fb (p # qs) best = Some (q, d)"
    then have "?next = Some (q, d) \<or> q \<in> set qs \<and> candidate dir placed focused fb q d"
      using Cons[of ?next] unfolding step by blast
    then show "best = Some (q, d) \<or> q \<in> set (p # qs) \<and> candidate dir placed focused fb q d"
      using from_next by auto
  next
    fix q d assume a: "best = Some (q, d) \<or> q \<in> set (p # qs) \<and> candidate dir placed focused fb q d"
    show "\<exists>q' d'. nearest dir placed focused fb (p # qs) best = Some (q', d') \<and> d' \<le> d"
    proof (cases "q \<in> set qs \<and> candidate dir placed focused fb q d")
      case True
      then show ?thesis using Cons[of ?next] unfolding step by blast
    next
      case False
      then obtain q1 d1 where "?next = Some (q1, d1)" "d1 \<le> d" using to_next[of q d] a by auto
      then show ?thesis using Cons[of ?next] unfolding step by (meson order_trans)
    qed
  qed
qed simp

text \<open>
  The focus moves to a terminal that lies entirely on the wanted side and overlaps the
  focused one on the other axis, at the least distance of all such terminals, and stays exactly
  when there is none.
\<close>

theorem focus_moves_to_nearest:
  assumes "focused \<in> set (collect_leaf_drawing_areas w)" and "placed focused = Some fb"
  shows "(\<forall>q. navigate_pane dir placed focused w = Some q \<longrightarrow>
       q \<in> set (collect_leaf_drawing_areas w) \<and>
       (\<exists>d. candidate dir placed focused fb q d \<and>
         (\<forall>p \<in> set (collect_leaf_drawing_areas w). \<forall>e. candidate dir placed focused fb p e \<longrightarrow> d \<le> e))) \<and>
    (navigate_pane dir placed focused w = None \<longleftrightarrow>
       (\<forall>q \<in> set (collect_leaf_drawing_areas w). \<forall>d. \<not> candidate dir placed focused fb q d))"
proof -
  let ?ls = "collect_leaf_drawing_areas w" and ?n = "nearest dir placed focused fb (collect_leaf_drawing_areas w) None"
  note spec = nearest_spec[of dir placed focused fb ?ls None]
  show ?thesis
  proof (cases "length ?ls < 2")
    case True
    then have "?ls = [focused]" using assms(1) by (cases ?ls; cases "tl ?ls") auto
    then show ?thesis by (simp add: navigate_pane_def candidate_def)
  next
    case False
    then have n: "navigate_pane dir placed focused w = map_option fst ?n"
      using assms by (simp add: navigate_pane_def Let_def)
    show ?thesis
    proof (cases ?n)
      case None
      then show ?thesis using spec n by auto
    next
      case (Some r)
      obtain q d where "r = (q, d)" by fastforce
      with Some have r: "?n = Some (q, d)" by simp
      then have "q \<in> set ?ls" "candidate dir placed focused fb q d" using spec by auto
      moreover have "d \<le> e" if "p \<in> set ?ls" "candidate dir placed focused fb p e" for p e
        using spec r that by fastforce
      ultimately show ?thesis using n r by auto
    qed
  qed
qed

theorem focus_moves_to_nearest_witness:
  "navigate_pane DirRight (\<lambda>q. Some \<lparr>b_x = (if q = 102 then 0 else 50), b_y = 0, b_width = 50, b_height = 9\<rparr>) 102
     (Paned Horizontal 50 100 None (Terminal 102) (Terminal 104)) \<noteq> None"
  using focus_moves_to_nearest[of 102 "Paned Horizontal 50 100 None (Terminal 102) (Terminal 104)"
    "\<lambda>q. Some \<lparr>b_x = (if q = 102 then 0 else 50), b_y = 0, b_width = 50, b_height = 9\<rparr>" _ DirRight]
  by (simp add: candidate_def overlap_y_def ranges_overlap_def)

end
