(* ===== verification/WindowStart.thy ===== *)
theory WindowStart
  imports WindowRuns PanesProps
begin

section \<open>The window at start-up\<close>

text \<open>
  What \<open>build_widgets_from_layout\<close> makes of a layout. Everything it does to a view besides pages,
  selection, name and colour is about the focus; \<open>strip\<close> takes that away, and each step is a
  function of the stripped views.
\<close>

definition strip :: "workspace_view \<Rightarrow> workspace_view" where
  "strip w = w\<lparr>wv_tracker := None, wv_active_pane := Map.empty, wv_own := Map.empty, wv_initial := False\<rparr>"

definition views :: "window \<Rightarrow> workspace_view list" where
  "views wm = map strip (wm_workspaces wm)"

lemma strip_fields [simp]:
  "wv_id (strip w) = wv_id w" "wv_name (strip w) = wv_name w" "wv_pages (strip w) = wv_pages w"
  "wv_selected (strip w) = wv_selected w" "wv_color (strip w) = wv_color w" "strip (strip w) = strip w"
  by (simp_all add: strip_def)

lemma length_views [simp]: "length (views wm) = length (wm_workspaces wm)"
  by (simp add: views_def)

lemma views_fields [simp]:
  "views (wm\<lparr>wm_focus := x\<rparr>) = views wm" "views (wm\<lparr>wm_active := n\<rparr>) = views wm"
  "views (wm\<lparr>pending_active_pane := y\<rparr>) = views wm" "views (wm\<lparr>wm_workspaces := wss\<rparr>) = map strip wss"
  by (simp_all add: views_def)

lemma views_modify:
  assumes "\<And>w. strip (f w) = g (strip w)"
  shows "views (modify_view k f wm) = modify_at k g (views wm)"
  using assms by (auto simp: views_def modify_view_def modify_at_def map_update)

lemma modify_id: "(\<And>x. x \<in> set xs \<Longrightarrow> f x = x) \<Longrightarrow> modify_at k f xs = xs"
  by (auto simp: modify_at_def)

lemma views_unmodified: "(\<And>w. strip (f w) = strip w) \<Longrightarrow> views (modify_view k f wm) = views wm"
  using views_modify[of f "\<lambda>w. w" k wm] by (simp add: modify_id)

lemma view_index_views: "view_index tv wm = position (\<lambda>w. wv_id w = tv) (views wm)"
proof -
  have "position P (map strip ws) = position (P \<circ> strip) ws" for P and ws :: "workspace_view list"
    by (induction ws) simp_all
  then show ?thesis by (simp add: view_index_def views_def comp_def)
qed

text \<open>Moving the focus changes no stripped view.\<close>

lemma focus_keeps_views:
  "views (fst (focus_enter L P b tv p st)) = views (fst st) \<and> wm_active (fst (focus_enter L P b tv p st)) = wm_active (fst st)"
  "views (fst (grab_focus L P b tv p st)) = views (fst st) \<and> wm_active (fst (grab_focus L P b tv p st)) = wm_active (fst st)"
  "views (fst (selected_page_notify L P b tv st)) = views (fst st) \<and>
     wm_active (fst (selected_page_notify L P b tv st)) = wm_active (fst st)"
proof -
  have track: "views (modify_view k (\<lambda>w. w\<lparr>wv_tracker := Some p\<rparr>) wm) = views wm" for k p wm
    by (rule views_unmodified) (simp add: strip_def)
  have note_: "views (note_focus i t p wm) = views wm" for i t p wm
    unfolding note_focus_def by (subst views_unmodified) (simp_all add: strip_def)
  have enter: "views (fst (focus_enter L P b tv p st)) = views (fst st) \<and>
      wm_active (fst (focus_enter L P b tv p st)) = wm_active (fst st)" for p st
    by (cases st) (auto simp: focus_enter_def Let_def track note_ note_focus_def split: option.split
        simp flip: note_focus_def)
  then show "views (fst (focus_enter L P b tv p st)) = views (fst st) \<and>
      wm_active (fst (focus_enter L P b tv p st)) = wm_active (fst st)" .
  have grab: "views (fst (grab_focus L P b tv p st)) = views (fst st) \<and>
      wm_active (fst (grab_focus L P b tv p st)) = wm_active (fst st)" for p st
    using enter by (cases st) (auto simp: grab_focus_def)
  then show "views (fst (grab_focus L P b tv p st)) = views (fst st) \<and>
      wm_active (fst (grab_focus L P b tv p st)) = wm_active (fst st)" .
  show "views (fst (selected_page_notify L P b tv st)) = views (fst st) \<and>
      wm_active (fst (selected_page_notify L P b tv st)) = wm_active (fst st)"
    using grab by (cases st) (auto simp: selected_page_notify_def Let_def split: option.split)
qed

subsection \<open>Pages\<close>

definition select_in :: "nat \<Rightarrow> workspace_view \<Rightarrow> workspace_view" where
  "select_in n w = w\<lparr>wv_selected := Some n\<rparr>"

definition add_pages :: "window_page list \<Rightarrow> workspace_view \<Rightarrow> workspace_view" where
  "add_pages pgs w = w\<lparr>wv_pages := wv_pages w @ pgs,
     wv_selected := (if wv_pages w = [] \<and> pgs \<noteq> [] then Some 0 else wv_selected w)\<rparr>"

lemma add_pages_ids [simp]: "wv_id (add_pages pgs w) = wv_id w" "wv_id (select_in n w) = wv_id w"
  by (simp_all add: add_pages_def select_in_def)

lemma modify_modify: "modify_at k f (modify_at k g xs) = modify_at k (f \<circ> g) xs"
  by (simp add: modify_at_def)

lemma position_lt: "position P xs = Some k \<Longrightarrow> k < length xs"
  by (simp add: position_Some_iff)

lemma position_ids: "(\<And>w. wv_id (f w) = wv_id w) \<Longrightarrow>
    position (\<lambda>w. wv_id w = tv) (modify_at k f ws) = position (\<lambda>w. wv_id w = tv) ws"
  by (rule position_modify) simp

lemma select_views:
  assumes "view_index tv (fst st) = Some k"
  shows "views (fst (set_selected_page L P b tv n st)) = modify_at k (select_in n) (views (fst st))"
    "wm_active (fst (set_selected_page L P b tv n st)) = wm_active (fst st)"
proof -
  have k: "k < length (wm_workspaces (fst st))" using assms by (simp add: view_index_def position_Some_iff)
  have "modify_at k (select_in n) (views (fst st)) = views (fst st)" if "wv_selected (wm_workspaces (fst st) ! k) = Some n"
    using that k by (auto simp: modify_at_def views_def select_in_def list_eq_iff_nth_eq nth_list_update)
  moreover have "views (modify_view k (\<lambda>w. w\<lparr>wv_selected := Some n\<rparr>) (fst st)) = modify_at k (select_in n) (views (fst st))"
    by (rule views_modify) (simp add: strip_def select_in_def)
  ultimately show "views (fst (set_selected_page L P b tv n st)) = modify_at k (select_in n) (views (fst st))"
    "wm_active (fst (set_selected_page L P b tv n st)) = wm_active (fst st)"
    using assms by (auto simp: set_selected_page_def focus_keeps_views)
qed

lemma append_views:
  assumes "view_index tv (fst st) = Some k"
  shows "views (fst (append_page L P b tv pg st)) = modify_at k (add_pages [pg]) (views (fst st))"
    "wm_active (fst (append_page L P b tv pg st)) = wm_active (fst st)"
proof -
  have k: "k < length (wm_workspaces (fst st))" using assms by (simp add: view_index_def position_Some_iff)
  define st1 where "st1 = (modify_view k (\<lambda>w. w\<lparr>wv_pages := wv_pages w @ [pg]\<rparr>) (fst st), snd st)"
  have v1: "views (fst st1) = modify_at k (\<lambda>w. w\<lparr>wv_pages := wv_pages w @ [pg]\<rparr>) (views (fst st))"
    unfolding st1_def fst_conv by (rule views_modify) (simp add: strip_def)
  have i1: "view_index tv (fst st1) = Some k" using assms unfolding view_index_views v1 by (simp add: position_ids)
  have a1: "wm_active (fst st1) = wm_active (fst st)" by (simp add: st1_def)
  have at: "modify_at k f (views (fst st)) = modify_at k g (views (fst st))" if "f (views (fst st) ! k) = g (views (fst st) ! k)" for f g
    using that by (simp add: modify_at_def)
  have w: "wv_pages (views (fst st) ! k) = wv_pages (wm_workspaces (fst st) ! k)" using k by (simp add: views_def)
  show "views (fst (append_page L P b tv pg st)) = modify_at k (add_pages [pg]) (views (fst st))"
    using assms select_views(1)[OF i1, of L P b 0] v1
    by (auto simp: append_page_def Let_def st1_def[symmetric] modify_modify w add_pages_def select_in_def intro!: at)
  show "wm_active (fst (append_page L P b tv pg st)) = wm_active (fst st)"
    using assms select_views(2)[OF i1, of L P b 0] a1 by (simp add: append_page_def Let_def st1_def[symmetric])
qed

text \<open>The tabs of a workspace that can be built.\<close>

definition built_pages :: "renderer \<Rightarrow> workspace_info \<Rightarrow> window_page list" where
  "built_pages rn wi = List.map_filter (\<lambda>t. map_option (\<lambda>rw. \<lparr>pg_tab = Some (ti_tab_id t), pg_root = rw\<rparr>)
     (build_widget_from_pane_tree (renders rn) (ti_pane_tree t))) (wi_tabs wi)"

lemma add_pages_twice: "add_pages qs (add_pages pgs w) = add_pages (pgs @ qs) w"
  by (simp add: add_pages_def)

lemma add_no_pages [simp]: "add_pages [] w = w"
  by (simp add: add_pages_def)

lemma build_tabs_views:
  assumes "view_index tv (fst st) = Some k"
  shows "views (fst (build_tabs L P rn b tv tabs st)) = modify_at k (add_pages (List.map_filter
      (\<lambda>t. map_option (\<lambda>rw. \<lparr>pg_tab = Some (ti_tab_id t), pg_root = rw\<rparr>)
        (build_widget_from_pane_tree (renders rn) (ti_pane_tree t))) tabs)) (views (fst st)) \<and>
    wm_active (fst (build_tabs L P rn b tv tabs st)) = wm_active (fst st)"
  using assms
proof (induction tabs arbitrary: st)
  case Nil
  then show ?case by (simp add: build_tabs_def List.map_filter_def modify_id)
next
  case (Cons t tabs)
  show ?case
  proof (cases "build_widget_from_pane_tree (renders rn) (ti_pane_tree t)")
    case None
    then show ?thesis using Cons by (simp add: build_tabs_def List.map_filter_def)
  next
    case (Some rw)
    define pg where "pg = \<lparr>pg_tab = Some (ti_tab_id t), pg_root = rw\<rparr>"
    note app = append_views[OF Cons.prems, of L P b pg]
    have "view_index tv (fst (append_page L P b tv pg st)) = Some k"
      using Cons.prems unfolding view_index_views app(1) by (simp add: position_ids)
    from Cons.IH[OF this] app show ?thesis
      using Some by (simp add: build_tabs_def List.map_filter_def pg_def[symmetric] modify_modify comp_def add_pages_twice)
  qed
qed

lemma pages_of_views:
  assumes "view_index tv wm = Some k" shows "pages_of tv wm = wv_pages (views wm ! k)"
proof -
  have "k < length (wm_workspaces wm)" using assms by (simp add: view_index_def position_Some_iff)
  then show ?thesis using assms by (simp add: pages_of_def views_def)
qed

subsection \<open>Workspaces\<close>

text \<open>The view of a workspace of the layout, and the view the window was made with.\<close>

definition view_of :: "renderer \<Rightarrow> workspace_info \<Rightarrow> workspace_view" where
  "view_of rn wi =
     \<lparr>wv_id = wi_id wi, wv_name = wi_name wi, wv_pages = built_pages rn wi,
      wv_selected = Some (min (wi_active_tab wi) (length (built_pages rn wi) - 1)), wv_tracker = None,
      wv_active_pane = Map.empty, wv_own = Map.empty, wv_initial = False,
      wv_color = Option.bind (wi_color wi) hex_to_rgba\<rparr>"

definition empty_view :: "uuid \<Rightarrow> workspace_view" where
  "empty_view u = strip (wm_workspaces (initial_window u) ! 0)"

lemma no_tabs_no_pages: "wi_tabs wi = [] \<Longrightarrow> built_pages rn wi = []"
  by (simp add: built_pages_def List.map_filter_def)

lemma first_views:
  assumes st: "fst st = initial_window u"
  shows "views (fst (build_first_workspace L P rn wi st)) =
      [if built_pages rn wi = [] then empty_view u else view_of rn wi]" (is ?views)
    "wm_active (fst (build_first_workspace L P rn wi st)) = 0" (is ?act)
proof -
  have v0: "views (fst st) = [empty_view u]" "wv_id (wm_workspaces (fst st) ! 0) = u"
    by (simp_all add: st views_def empty_view_def initial_window_def)
  have e: "wv_id (empty_view u) = u" "wv_pages (empty_view u) = []" by (simp_all add: empty_view_def initial_window_def)
  have "?views \<and> ?act"
  proof (cases "wi_tabs wi = []")
    case True
    then show ?thesis using v0 st by (simp add: build_first_workspace_def no_tabs_no_pages initial_window_def)
  next
    case False
    define st1 where "st1 = (modify_view 0 (\<lambda>w. w\<lparr>wv_active_pane := saved_panes wi\<rparr>) (fst st), snd st)"
    define st2 where "st2 = build_tabs L P rn Shared u (wi_tabs wi) st1"
    have "views (fst st1) = views (fst st)" unfolding st1_def fst_conv by (rule views_unmodified) (simp add: strip_def)
    then have v1: "views (fst st1) = [empty_view u]" using v0 by simp
    have a1: "wm_active (fst st1) = 0" by (simp add: st1_def st initial_window_def)
    have i1: "view_index u (fst st1) = Some 0" unfolding view_index_views v1 by (simp add: e)
    have v2: "views (fst st2) = [add_pages (built_pages rn wi) (empty_view u)]" "wm_active (fst st2) = 0"
      using build_tabs_views[OF i1, of L P rn Shared "wi_tabs wi"] a1
      by (simp_all add: st2_def v1 modify_at_def built_pages_def)
    have i2: "view_index u (fst st2) = Some 0" unfolding view_index_views v2 by (simp add: e)
    have created: "pages_of u (fst st2) = built_pages rn wi" using pages_of_views[OF i2] v2 e by (simp add: add_pages_def)
    show ?thesis
    proof (cases "built_pages rn wi = []")
      case True
      then show ?thesis
        using False v2 created by (simp add: build_first_workspace_def v0(2) st1_def[symmetric] st2_def[symmetric] Let_def)
    next
      case ne: False
      define k where "k = min (wi_active_tab wi) (length (built_pages rn wi) - 1)"
      define st3 where "st3 = set_selected_page L P Free u k st2"
      have v3: "views (fst st3) = [select_in k (add_pages (built_pages rn wi) (empty_view u))]" "wm_active (fst st3) = 0"
        using select_views[OF i2, of L P Free k] v2 by (simp_all add: st3_def modify_at_def)
      define adopt where "adopt = (\<lambda>w. w\<lparr>wv_id := wi_id wi, wv_name := wi_name wi,
         wv_color := Option.bind (wi_color wi) hex_to_rgba\<rparr> :: workspace_view)"
      have "build_first_workspace L P rn wi st = (modify_view 0 adopt (fst st3), snd st3)"
        using False ne created by (simp add: build_first_workspace_def v0(2) st1_def[symmetric] st2_def[symmetric] Let_def
            k_def st3_def adopt_def)
      moreover have "views (modify_view 0 adopt (fst st3)) = modify_at 0 adopt (views (fst st3))"
        by (rule views_modify) (simp add: strip_def adopt_def)
      moreover have "adopt (select_in k (add_pages (built_pages rn wi) (empty_view u))) = view_of rn wi"
        by (simp add: adopt_def select_in_def add_pages_def view_of_def k_def empty_view_def strip_def initial_window_def)
      ultimately show ?thesis using v3 ne by (simp add: modify_at_def)
    qed
  qed
  then show ?views ?act by simp_all
qed

lemma position_last: "tv \<notin> wv_id ` set ws \<Longrightarrow> wv_id v = tv \<Longrightarrow> position (\<lambda>w. wv_id w = tv) (ws @ [v]) = Some (length ws)"
  by (induction ws) auto

lemma modify_last: "modify_at (length ws) f (ws @ [v]) = ws @ [f v]"
  by (simp add: modify_at_def)

lemma next_views:
  assumes new: "wi_id wi \<notin> wv_id ` set (views (fst st))"
  shows "views (fst (build_next_workspace L P rn wi st)) =
      views (fst st) @ (if built_pages rn wi = [] then [] else [view_of rn wi])" (is ?views)
    "wm_active (fst (build_next_workspace L P rn wi st)) = wm_active (fst st)" (is ?act)
proof -
  have "?views \<and> ?act"
  proof (cases "wi_tabs wi = []")
    case True
    then show ?thesis by (simp add: build_next_workspace_def no_tabs_no_pages)
  next
    case False
    define v where "v = \<lparr>wv_id = wi_id wi, wv_name = wi_name wi, wv_pages = [], wv_selected = None, wv_tracker = None,
      wv_active_pane = saved_panes wi, wv_own = Map.empty, wv_initial = False,
      wv_color = Option.bind (wi_color wi) hex_to_rgba\<rparr>"
    define st1 where "st1 = ((fst st)\<lparr>wm_workspaces := wm_workspaces (fst st) @ [v]\<rparr>, snd st)"
    define st2 where "st2 = build_tabs L P rn Free (wi_id wi) (wi_tabs wi) st1"
    let ?n = "length (views (fst st))"
    have v1: "views (fst st1) = views (fst st) @ [strip v]" "wm_active (fst st1) = wm_active (fst st)"
      by (simp_all add: st1_def views_def)
    have i1: "view_index (wi_id wi) (fst st1) = Some ?n"
      unfolding view_index_views v1 using new by (intro position_last) (simp_all add: v_def)
    have v2: "views (fst st2) = views (fst st) @ [add_pages (built_pages rn wi) (strip v)]" "wm_active (fst st2) = wm_active (fst st)"
      using build_tabs_views[OF i1, of L P rn Free "wi_tabs wi"] v1
      by (simp_all add: st2_def modify_last built_pages_def del: length_views)
    have i2: "view_index (wi_id wi) (fst st2) = Some ?n"
      unfolding view_index_views v2 using new by (intro position_last) (simp_all add: v_def)
    have created: "pages_of (wi_id wi) (fst st2) = built_pages rn wi"
      using pages_of_views[OF i2] v2 by (simp add: add_pages_def v_def nth_append del: length_views)
    show ?thesis
    proof (cases "built_pages rn wi = []")
      case True
      then show ?thesis
        using False v2 created
        by (simp add: build_next_workspace_def v_def[symmetric] st1_def[symmetric] st2_def[symmetric] Let_def)
          (simp add: views_def)
    next
      case ne: False
      define k where "k = min (wi_active_tab wi) (length (built_pages rn wi) - 1)"
      have "build_next_workspace L P rn wi st = set_selected_page L P Free (wi_id wi) k st2"
        using False ne created
        by (simp add: build_next_workspace_def v_def[symmetric] st1_def[symmetric] st2_def[symmetric] Let_def k_def)
      moreover have "select_in k (add_pages (built_pages rn wi) (strip v)) = view_of rn wi"
        by (simp add: select_in_def add_pages_def view_of_def k_def strip_def v_def)
      ultimately show ?thesis
        using select_views[OF i2, of L P Free k] v2 ne by (simp add: modify_last del: length_views)
    qed
  qed
  then show ?views ?act by simp_all
qed

lemma rest_views:
  assumes "wi_id ` set rest \<inter> wv_id ` set (views (fst st)) = {}" "distinct (map wi_id rest)"
  shows "views (fst (fold (build_next_workspace L P rn) rest st)) =
      views (fst st) @ map (view_of rn) [wi \<leftarrow> rest. built_pages rn wi \<noteq> []] \<and>
    wm_active (fst (fold (build_next_workspace L P rn) rest st)) = wm_active (fst st)"
  using assms
proof (induction rest arbitrary: st)
  case (Cons wi rest)
  have "wi_id wi \<notin> wv_id ` set (views (fst st))" using Cons.prems(1) by auto
  note one = next_views[OF this, of L P rn]
  have "wi_id ` set rest \<inter> wv_id ` set (views (fst (build_next_workspace L P rn wi st))) = {}"
    using Cons.prems by (auto simp: one view_of_def)
  from Cons.IH[OF this] Cons.prems(2) show ?case by (simp add: one)
qed simp

lemma switch_views:
  "views (fst (switch_workspace L P n st)) = views (fst st)"
  "wm_active (fst (switch_workspace L P n st)) = (if n < length (wm_workspaces (fst st)) then n else wm_active (fst st))"
proof -
  have first: "views (fst (focus_first L P st)) = views (fst st) \<and> wm_active (fst (focus_first L P st)) = wm_active (fst st)" for st
    by (auto simp: focus_first_def Let_def focus_keeps_views split: option.split)
  show "views (fst (switch_workspace L P n st)) = views (fst st)"
    "wm_active (fst (switch_workspace L P n st)) = (if n < length (wm_workspaces (fst st)) then n else wm_active (fst st))"
    using first[of "((fst st)\<lparr>wm_active := n, wm_focus := None\<rparr>, snd st)"]
    by (auto simp: switch_workspace_def Let_def)
qed

lemma built_views:
  assumes l: "li_workspaces l = ws0 # rest" "\<exists>w \<in> set (li_workspaces l). wi_tabs w \<noteq> []"
    and ids: "distinct (map wi_id (li_workspaces l))" "u \<notin> wi_id ` set (li_workspaces l)"
    and b: "build_widgets_from_layout L P rn l (initial_window u, d) = (ok, wm', d')"
  defines "act \<equiv> (if li_active_workspace l < length (li_workspaces l) then li_active_workspace l else 0)"
  shows "views wm' = (if built_pages rn ws0 = [] then empty_view u else view_of rn ws0) #
      map (view_of rn) [wi \<leftarrow> rest. built_pages rn wi \<noteq> []] \<and>
    wm_active wm' = (if act < length (wm_workspaces wm') then act else 0) \<and>
    (ok \<longleftrightarrow> (\<exists>wi \<in> set (li_workspaces l). built_pages rn wi \<noteq> []))"
proof -
  define st1 where "st1 = fold (build_next_workspace L P rn) rest (build_first_workspace L P rn ws0 (initial_window u, d))"
  define st2 where "st2 = (if act > 0 then switch_workspace L P act st1 else st1)"
  let ?views = "(if built_pages rn ws0 = [] then empty_view u else view_of rn ws0) #
      map (view_of rn) [wi \<leftarrow> rest. built_pages rn wi \<noteq> []]"
  have f: "views (fst (build_first_workspace L P rn ws0 (initial_window u, d))) =
      [if built_pages rn ws0 = [] then empty_view u else view_of rn ws0]"
    "wm_active (fst (build_first_workspace L P rn ws0 (initial_window u, d))) = 0"
    by (simp_all add: first_views)
  have new: "wi_id ` set rest \<inter> wv_id ` set (views (fst (build_first_workspace L P rn ws0 (initial_window u, d)))) = {}"
    using ids l(1) unfolding f by (auto simp: empty_view_def initial_window_def view_of_def)
  have v1: "views (fst st1) = ?views" "wm_active (fst st1) = 0"
    using rest_views[OF new, of L P rn] ids l(1) by (simp_all add: st1_def f)
  have same: "views (fst st2) = views (fst st1)" by (simp add: st2_def switch_views)
  have len: "length (wm_workspaces (fst st2)) = length (wm_workspaces (fst st1))"
    using arg_cong[OF same, of length] by simp
  have v2: "views (fst st2) = ?views" "wm_active (fst st2) = (if act < length (wm_workspaces (fst st2)) then act else 0)"
    using v1 same unfolding len by (auto simp: st2_def switch_views)
  obtain b' st3 where run: "build_widgets_from_layout L P rn l (initial_window u, d) = (b', st3)" by (meson surj_pair)
  have some: "\<not> (\<forall>w \<in> set (ws0 # rest). wi_tabs w = [])" using l by simp
  have "views (fst st3) = views (fst st2) \<and> wm_active (fst st3) = wm_active (fst st2) \<and>
      b' = (\<exists>w \<in> set (wm_workspaces (fst st3)). wv_pages w \<noteq> [])"
    using run unfolding build_widgets_from_layout_def l(1) list.case if_not_P[OF some] Let_def
      act_def[unfolded l(1), symmetric] st1_def[symmetric] st2_def[symmetric]
    by (auto simp: focus_keeps_views split: option.splits)
  moreover have st3: "ok = b'" "st3 = (wm', d')" using run b by simp_all
  ultimately have same3: "views wm' = views (fst st2)" "wm_active wm' = wm_active (fst st2)"
    "ok \<longleftrightarrow> (\<exists>w \<in> set (wm_workspaces wm'). wv_pages w \<noteq> [])" by simp_all
  have "length (wm_workspaces wm') = length (wm_workspaces (fst st2))" using arg_cong[OF same3(1), of length] by simp
  then have fin: "views wm' = ?views" "wm_active wm' = (if act < length (wm_workspaces wm') then act else 0)"
    using same3(1,2) v2 by simp_all
  have pages: "ok \<longleftrightarrow> (\<exists>w \<in> set (views wm'). wv_pages w \<noteq> [])" using same3(3) by (simp add: views_def)
  have "(\<exists>w \<in> set ?views. wv_pages w \<noteq> []) \<longleftrightarrow> (\<exists>wi \<in> set (li_workspaces l). built_pages rn wi \<noteq> [])"
    by (auto simp: l(1) view_of_def empty_view_def initial_window_def)
  then show ?thesis using fin pages by simp
qed

text \<open>
  What the window shows after the start, whatever fails: when the layout has a tab at all, the
  first view is the first workspace of the layout or, when none of its tabs could be built, the
  empty view the window was made with; after it come the other workspaces that have a tab that
  could be built, in their order, each with the pages of the tabs that could be built in their
  order, the selected tab clamped, its name and colour. The active workspace is chosen by its
  index in the layout, which is the right one only if no workspace before it was left out.
\<close>

theorem window_built_from_layout:
  assumes l: "li_workspaces l = ws0 # rest" "\<exists>w \<in> set (li_workspaces l). wi_tabs w \<noteq> []"
    and ids: "distinct (map wi_id (li_workspaces l))" "u \<notin> wi_id ` set (li_workspaces l)"
    and b: "build_widgets_from_layout L P rn l (initial_window u, d) = (ok, wm', d')"
  defines "act \<equiv> (if li_active_workspace l < length (li_workspaces l) then li_active_workspace l else 0)"
  shows "views wm' = (if built_pages rn ws0 = [] then empty_view u else view_of rn ws0) #
      map (view_of rn) [wi \<leftarrow> rest. built_pages rn wi \<noteq> []] \<and>
    wm_active wm' = (if act < length (wm_workspaces wm') then act else 0) \<and>
    (ok \<longleftrightarrow> (\<exists>wi \<in> set (li_workspaces l). built_pages rn wi \<noteq> []))"
  unfolding act_def by (rule built_views[OF l ids b])

text \<open>A layout with an empty workspace before the active one.\<close>

definition gap_layout :: layout_info where
  "gap_layout = (let tab = (\<lambda>t p. \<lparr>ti_tab_id = t, ti_title = [], ti_pane_tree = NodeLeaf p, ti_active_pane_id = None\<rparr>);
      ws = (\<lambda>u nm tabs. \<lparr>wi_id = u, wi_name = nm, wi_active_tab = 0, wi_tabs = tabs, wi_color = None\<rparr>)
    in \<lparr>li_active_workspace = 2,
        li_workspaces = [ws 1 ''a'' [tab 10 11], ws 2 ''b'' [], ws 3 ''c'' [tab 30 31]]\<rparr>)"

theorem window_built_from_layout_witness:
  "\<exists>wm' d'. build_widgets_from_layout unary_wire (\<lambda>_ d. (Inr ''down'', d)) all_render gap_layout (initial_window 7, ()) =
      (True, wm', d') \<and> map wv_id (views wm') = [1, 3] \<and> wm_active wm' = 0"
proof -
  let ?P = "\<lambda>_ d. (Inr ''down'', d)"
  let ?ws = "\<lambda>u nm tabs. \<lparr>wi_id = u, wi_name = nm, wi_active_tab = 0, wi_tabs = tabs, wi_color = None\<rparr> :: workspace_info"
  let ?tab = "\<lambda>t p. \<lparr>ti_tab_id = t, ti_title = [], ti_pane_tree = NodeLeaf p, ti_active_pane_id = None\<rparr> :: tab_info"
  obtain ok wm' d' where run: "build_widgets_from_layout unary_wire ?P all_render gap_layout (initial_window 7, ()) = (ok, wm', d')"
    by (metis surj_pair)
  have l: "li_workspaces gap_layout = ?ws 1 ''a'' [?tab 10 11] # [?ws 2 ''b'' [], ?ws 3 ''c'' [?tab 30 31]]"
    "li_active_workspace gap_layout = 2" by (simp_all add: gap_layout_def Let_def)
  have built: "built_pages all_render (?ws u nm [?tab t p]) = [\<lparr>pg_tab = Some t, pg_root = Terminal p\<rparr>]"
    "built_pages all_render (?ws u nm []) = []" for u nm t p
    by (simp_all add: built_pages_def List.map_filter_def renders_def all_render_def)
  note r = window_built_from_layout[OF l(1) _ _ _ run]
  have "views wm' = [view_of all_render (?ws 1 ''a'' [?tab 10 11]), view_of all_render (?ws 3 ''c'' [?tab 30 31])]"
    "wm_active wm' = (if 2 < length (wm_workspaces wm') then 2 else 0)" "ok"
    using r by (simp_all add: l built)
  moreover from this(1) have "length (wm_workspaces wm') = 2" by (metis length_views length_Cons list.size(3) One_nat_def Suc_1)
  ultimately show ?thesis using run by (intro exI[of _ wm'] exI[of _ d']) (simp add: view_of_def)
qed

subsection \<open>The daemon meanwhile\<close>

definition calm :: "window \<times> daemon \<Rightarrow> window \<times> daemon \<Rightarrow> bool" where
  "calm st st' \<longleftrightarrow> hush (d_session (snd st)) (d_session (snd st')) \<and> pending_reorders (fst st') = pending_reorders (fst st)"

lemma calm_quiet: "quiet st st' \<Longrightarrow> calm st st'"
  by (simp add: quiet_def calm_def)

lemma calm_trans: "calm st st1 \<Longrightarrow> calm st1 st2 \<Longrightarrow> calm st st2"
  unfolding calm_def using hush_trans by metis

lemma calm_refl [simp]: "calm st st"
  by (simp add: calm_def)

lemma calm_same: "calm st (wm, d) \<Longrightarrow> pending_reorders wm' = pending_reorders wm \<Longrightarrow> calm st (wm', d)"
  "calm (wm, d) st \<Longrightarrow> pending_reorders wm' = pending_reorders wm \<Longrightarrow> calm (wm', d) st"
  by (simp_all add: calm_def)

lemma hush_count: "hush s s' \<Longrightarrow> ws_count s' = ws_count s"
  unfolding hush_def ws_count_def by (metis length_map)

lemma quiet_build_tabs:
  assumes w: "wire_ok (c_libs c) rd"
  shows "wm_active (fst st) < 2 ^ 64 \<Longrightarrow> quiet st (build_tabs (c_libs c) (daemon_peer c render n) rn b tv tabs st)"
proof (induction tabs arbitrary: st)
  case (Cons t tabs)
  show ?case
  proof (cases "build_widget_from_pane_tree (renders rn) (ti_pane_tree t)")
    case (Some rw)
    define st1 where "st1 = append_page (c_libs c) (daemon_peer c render n) b tv \<lparr>pg_tab = Some (ti_tab_id t), pg_root = rw\<rparr> st"
    have q: "quiet st st1" unfolding st1_def by (rule quiet_pages(2)[OF w Cons.prems])
    then have "wm_active (fst st1) < 2 ^ 64" using Cons.prems by (simp add: quiet_def)
    from quiet_trans[OF q Cons.IH[OF this]] show ?thesis
      using Some by (simp add: build_tabs_def st1_def)
  qed (use Cons in \<open>simp add: build_tabs_def\<close>)
qed (simp add: build_tabs_def)

lemma calm_first:
  assumes w: "wire_ok (c_libs c) rd" and a: "wm_active (fst st) < 2 ^ 64"
  shows "calm st (build_first_workspace (c_libs c) (daemon_peer c render n) rn wi st)"
proof (cases "wi_tabs wi = []")
  case False
  let ?L = "c_libs c" and ?P = "daemon_peer c render n" and ?tv = "wv_id (wm_workspaces (fst st) ! 0)"
  define st1 where "st1 = (modify_view 0 (\<lambda>w. w\<lparr>wv_active_pane := saved_panes wi\<rparr>) (fst st), snd st)"
  define st2 where "st2 = build_tabs ?L ?P rn Shared ?tv (wi_tabs wi) st1"
  have a1: "wm_active (fst st1) < 2 ^ 64" using a by (simp add: st1_def)
  have q: "quiet st1 st2" unfolding st2_def by (rule quiet_build_tabs[OF w a1])
  then have a2: "wm_active (fst st2) < 2 ^ 64" using a1 by (simp add: quiet_def)
  have h: "calm st st2" using calm_quiet[OF q] by (simp add: st1_def calm_def)
  have sel: "calm st (set_selected_page ?L ?P Free ?tv k st2)" for k
    using calm_trans[OF h calm_quiet[OF quiet_pages(1)[OF w a2]]] .
  have "calm st (modify_view 0 f (fst (set_selected_page ?L ?P Free ?tv k st2)), snd (set_selected_page ?L ?P Free ?tv k st2))" for f k
    using sel[of k] by (simp add: calm_def)
  then show ?thesis
    using False h by (simp add: build_first_workspace_def st1_def[symmetric] st2_def[symmetric] Let_def)
qed (simp add: build_first_workspace_def)

lemma calm_next:
  assumes w: "wire_ok (c_libs c) rd" and a: "wm_active (fst st) < 2 ^ 64"
  shows "calm st (build_next_workspace (c_libs c) (daemon_peer c render n) rn wi st) \<and>
    wm_active (fst (build_next_workspace (c_libs c) (daemon_peer c render n) rn wi st)) < 2 ^ 64"
proof (cases "wi_tabs wi = []")
  case False
  let ?L = "c_libs c" and ?P = "daemon_peer c render n"
  define v where "v = \<lparr>wv_id = wi_id wi, wv_name = wi_name wi, wv_pages = [], wv_selected = None, wv_tracker = None,
      wv_active_pane = saved_panes wi, wv_own = Map.empty, wv_initial = False,
      wv_color = Option.bind (wi_color wi) hex_to_rgba\<rparr>"
  define st1 where "st1 = ((fst st)\<lparr>wm_workspaces := wm_workspaces (fst st) @ [v]\<rparr>, snd st)"
  define st2 where "st2 = build_tabs ?L ?P rn Free (wi_id wi) (wi_tabs wi) st1"
  have a1: "wm_active (fst st1) < 2 ^ 64" using a by (simp add: st1_def)
  have q: "quiet st1 st2" unfolding st2_def by (rule quiet_build_tabs[OF w a1])
  then have a2: "wm_active (fst st2) < 2 ^ 64" using a1 by (simp add: quiet_def)
  have h: "calm st st2" using calm_quiet[OF q] by (simp add: st1_def calm_def)
  have sel: "quiet st2 (set_selected_page ?L ?P Free (wi_id wi) k st2)" for k using quiet_pages(1)[OF w a2] .
  have selected: "calm st (set_selected_page ?L ?P Free (wi_id wi) k st2) \<and>
      wm_active (fst (set_selected_page ?L ?P Free (wi_id wi) k st2)) < 2 ^ 64" for k
    using sel[of k] a2 calm_trans[OF h calm_quiet[OF sel[of k]]] by (simp add: quiet_def)
  have "calm st ((fst st2)\<lparr>wm_workspaces := ws\<rparr>, snd st2)" for ws using h by (simp add: calm_def)
  then show ?thesis
    using False a2 selected
    by (simp add: build_next_workspace_def v_def[symmetric] st1_def[symmetric] st2_def[symmetric] Let_def)
qed (use a in \<open>simp add: build_next_workspace_def\<close>)

lemma calm_rest:
  assumes w: "wire_ok (c_libs c) rd"
  shows "wm_active (fst st) < 2 ^ 64 \<Longrightarrow> calm st (fold (build_next_workspace (c_libs c) (daemon_peer c render n) rn) rest st)"
proof (induction rest arbitrary: st)
  case (Cons wi rest)
  note one = calm_next[OF w Cons.prems, of render n rn wi]
  show ?case using calm_trans[OF conjunct1[OF one] Cons.IH[OF conjunct2[OF one]]] by simp
qed simp

lemma calm_build:
  assumes w: "wire_ok (c_libs c) rd" and l: "li_workspaces l = ws0 # rest" "\<exists>w \<in> set (li_workspaces l). wi_tabs w \<noteq> []"
    and act: "li_active_workspace l = active_workspace (layout (d_session d))" "li_active_workspace l < length (li_workspaces l)"
      "length (li_workspaces l) < 2 ^ 64" "ws_count (d_session d) = length (li_workspaces l)"
    and b: "build_widgets_from_layout (c_libs c) (daemon_peer c render n) rn l (initial_window u, d) = (ok, wm', d')"
    and ids: "distinct (map wi_id (li_workspaces l))" "u \<notin> wi_id ` set (li_workspaces l)"
  shows "calm (initial_window u, d) (wm', d')"
proof -
  let ?L = "c_libs c" and ?P = "daemon_peer c render n" and ?act = "li_active_workspace l"
  define st0 where "st0 = build_first_workspace ?L ?P rn ws0 (initial_window u, d)"
  define st1 where "st1 = fold (build_next_workspace ?L ?P rn) rest st0"
  define st2 where "st2 = (if ?act > 0 then switch_workspace ?L ?P ?act st1 else st1)"
  have small: "wm_active (fst (initial_window u, d)) < 2 ^ 64" by (simp add: initial_window_def)
  have h0: "calm (initial_window u, d) st0" using calm_first[OF w small, of render n rn ws0] by (simp add: st0_def)
  have v0: "views (fst st0) = [if built_pages rn ws0 = [] then empty_view u else view_of rn ws0]" "wm_active (fst st0) = 0"
    by (simp_all add: st0_def first_views)
  have new: "wi_id ` set rest \<inter> wv_id ` set (views (fst st0)) = {}"
    using ids l(1) unfolding v0 by (auto simp: empty_view_def initial_window_def view_of_def)
  have a1: "wm_active (fst st1) = 0" using rest_views[OF new, of ?L ?P rn] ids l(1) v0 by (simp add: st1_def)
  have h1: "calm (initial_window u, d) st1"
    using calm_trans[OF h0 calm_rest[OF w]] v0 by (simp add: st1_def)
  have h2: "calm (initial_window u, d) st2 \<and> wm_active (fst st2) < 2 ^ 64"
  proof (cases "?act > 0 \<and> ?act < length (wm_workspaces (fst st1))")
    case True
    define sta where "sta = ((fst st1)\<lparr>wm_active := ?act, wm_focus := None\<rparr>, snd st1)"
    define stb where "stb = focus_first ?L ?P sta"
    have "wm_active (fst sta) < 2 ^ 64" using act by (simp add: sta_def)
    from quiet_events(4)[OF w this, of render n] have q: "quiet sta stb" by (simp add: stb_def)
    have "calm st1 stb" using calm_quiet[OF q] by (simp add: sta_def calm_def)
    from calm_trans[OF h1 this] have hb: "calm (initial_window u, d) stb" .
    then have "active_workspace (layout (d_session (snd stb))) = ?act" "ws_count (d_session (snd stb)) = length (li_workspaces l)"
      using act(1,4) hush_count[of "d_session d" "d_session (snd stb)"] by (simp_all add: calm_def hush_def)
    then have "set_active_workspace ?act (d_session (snd stb)) = (Inr (), d_session (snd stb))"
      using act(2) by (simp add: set_active_workspace_def)
    then have "snd (dc_set_active_workspace ?L ?P ?act (snd stb)) = snd stb"
      using dc_session(2)[OF w refl refl, of ?act render n "snd stb"] act(2,3) by simp
    then have "st2 = stb" using True a1 by (simp add: st2_def switch_workspace_def sta_def[symmetric] stb_def[symmetric] Let_def)
    then show ?thesis using hb q act by (simp add: quiet_def sta_def)
  next
    case False
    then show ?thesis using h1 a1 by (auto simp: st2_def switch_workspace_def)
  qed
  obtain b' st3 where run: "build_widgets_from_layout ?L ?P rn l (initial_window u, d) = (b', st3)" by (meson surj_pair)
  have some: "\<not> (\<forall>w \<in> set (ws0 # rest). wi_tabs w = [])" using l by simp
  have inr: "(if li_active_workspace l < length (ws0 # rest) then li_active_workspace l else 0) = ?act" using act(2) l(1) by simp
  have grab: "calm (initial_window u, d) (grab_focus ?L ?P Free tv q st2)" for tv q
    using calm_trans[OF conjunct1[OF h2] calm_quiet[OF quiet_focus(2)[OF w conjunct2[OF h2]]]] .
  have "calm (initial_window u, d) st3"
    using run h2 grab unfolding build_widgets_from_layout_def l(1) list.case if_not_P[OF some] Let_def inr
      st0_def[symmetric] st1_def[symmetric] st2_def[symmetric]
    by (auto split: option.splits if_splits)
  then show ?thesis using run b by simp
qed

text \<open>Every pane renders: the pages are the tabs.\<close>

lemma all_built:
  assumes "\<And>p. renders rn p"
  shows "\<exists>rw. build_widget_from_pane_tree (renders rn) (shown_tree t) = Some rw \<and> shows_tree t rw"
  using assms by (induction t) (auto split: option.split)

lemma all_pages:
  assumes "\<And>p. renders rn p"
  shows "list_all2 (\<lambda>t pg. pg_tab pg = Some (tab_id t) \<and> shows_tree (tab_tree t) (pg_root pg)) (ws_tabs ws)
    (built_pages rn (shown_workspace ws))"
proof -
  have "list_all2 (\<lambda>t pg. pg_tab pg = Some (tab_id t) \<and> shows_tree (tab_tree t) (pg_root pg)) ts
      (List.map_filter (\<lambda>t. map_option (\<lambda>rw. \<lparr>pg_tab = Some (ti_tab_id t), pg_root = rw\<rparr>)
         (build_widget_from_pane_tree (renders rn) (ti_pane_tree t))) (map shown_tab ts))" for ts
  proof (induction ts)
    case (Cons t ts)
    obtain rw where "build_widget_from_pane_tree (renders rn) (shown_tree (tab_tree t)) = Some rw" "shows_tree (tab_tree t) rw"
      using all_built[of rn] assms by blast
    then show ?case using Cons by (simp add: List.map_filter_def shown_tab_def)
  qed (simp add: List.map_filter_def)
  then show ?thesis by (simp add: built_pages_def shown_workspace_def)
qed


definition full_daemon :: daemon where
  "full_daemon = demo_daemon\<lparr>d_session := snd (create_tab 1 None default_size None demo_session)\<rparr>"

lemma full_workspaces:
  "workspaces (layout (d_session full_daemon)) =
    [\<lparr>ws_id = 100, ws_name = ''Default'', ws_tabs = [\<lparr>tab_id = 103, tab_title = [], tab_tree = Leaf 102, active_pane_id = None\<rparr>],
      ws_active_tab = 0, ws_color = None\<rparr>,
     \<lparr>ws_id = 101, ws_name = ''work'', ws_tabs = [\<lparr>tab_id = 105, tab_title = [], tab_tree = Leaf 104, active_pane_id = None\<rparr>],
      ws_active_tab = 0, ws_color = None\<rparr>]"
  by (simp add: full_daemon_def create_tab_def create_tab_with_pane_id_def demo_session_eval new_uuid_def Let_def
      pty_bridge_spawn_def effective_command_def os_do_def insert_pane_def push_order_def ws_count_def
      modify_layout_ws_def modify_at_def push_tab_def new_tab_record_def demo_world_def)


end
