(* ===== verification/WindowTabs.thy ===== *)
theory WindowTabs
  imports WindowStart
begin

section \<open>New and duplicated tabs\<close>

text \<open>
  A new tab is announced by the daemon as well; the window knows it by its id. This theory shows
  that a new tab gets one page, and that a duplicated one gets two.
\<close>

lemma grab_views:
  "grab_focus L P b tv p st = (wm', d') \<Longrightarrow> views wm' = views (fst st)"
  "set_selected_page L P b tv n st = (wm', d') \<Longrightarrow> view_index tv (fst st) = Some k \<Longrightarrow>
     views wm' = modify_at k (select_in n) (views (fst st))"
  using focus_keeps_views(2)[of L P b tv p st] select_views(1)[of tv st k L P b n] by auto

definition name_page :: "nat \<Rightarrow> uuid \<Rightarrow> workspace_view \<Rightarrow> workspace_view" where
  "name_page n t w = w\<lparr>wv_pages := modify_at n (\<lambda>pg. pg\<lparr>pg_tab := Some t\<rparr>) (wv_pages w)\<rparr>"

lemma enter_views: "view_index tv wm = Some k \<Longrightarrow> views (enter_tab_id tv n t wm) = modify_at k (name_page n t) (views wm)"
  by (simp add: enter_tab_id_def) (rule views_modify, simp add: strip_def name_page_def)

lemma pages_views: "i < length (wm_workspaces wm) \<Longrightarrow> wv_pages (wm_workspaces wm ! i) = wv_pages (views wm ! i)"
  by (simp add: views_def)

lemma last_page_views: "view_index tv wm = Some k \<Longrightarrow> last_page tv wm = length (wv_pages (views wm ! k)) - 1"
  by (auto simp: last_page_def pages_views view_index_def dest: position_lt)

text \<open>The pages of the view that \<open>add_new_tab\<close> leaves.\<close>

lemma add_new_tab_pages:
  assumes k: "view_index tv wm = Some k" and p: "renders rn p"
    and reply: "(if command \<noteq> None \<or> dir \<noteq> None then dc_new_tab_with_profile L P i command dir d
      else dc_new_tab L P i d) = (Inr (p, t), d')"
    and run: "add_new_tab L P rn i tv command dir own (wm, d) = (wm1, d1)"
  shows "wv_pages (wm_workspaces wm1 ! k) = wv_pages (wm_workspaces wm ! k) @
      [\<lparr>pg_tab = (if own then None else Some t), pg_root = Terminal p\<rparr>]"
    "view_index tv wm1 = Some k" "length (wm_workspaces wm1) = length (wm_workspaces wm)"
proof -
  let ?pg = "\<lparr>pg_tab = None, pg_root = Terminal p\<rparr>"
  have kl: "k < length (wm_workspaces wm)" using k by (simp add: view_index_def position_Some_iff)
  define st1 where "st1 = append_page L P Free tv ?pg (wm, d')"
  define n where "n = last_page tv (fst st1)"
  have v1: "views (fst st1) = modify_at k (add_pages [?pg]) (views wm)"
    using append_views(1)[of tv "(wm, d')" k] k by (simp add: st1_def)
  have i1: "view_index tv (fst st1) = Some k" using k unfolding view_index_views v1 by (simp add: position_ids)
  have n: "n = length (wv_pages (views wm ! k))"
    using kl by (simp add: n_def last_page_views[OF i1] v1 modify_at_nth add_pages_def)
  define f where "f = (if own then (\<lambda>w. w) else name_page n t)"
  define wm2 where "wm2 = (if own then modify_view k (\<lambda>w. w\<lparr>wv_own := (wv_own w)(p \<mapsto> t)\<rparr>) (fst st1) else enter_tab_id tv n t (fst st1))"
  have "views (modify_view k (\<lambda>w. w\<lparr>wv_own := (wv_own w)(p \<mapsto> t)\<rparr>) (fst st1)) = views (fst st1)"
    by (rule views_unmodified) (simp add: strip_def)
  then have v2: "views wm2 = modify_at k f (views (fst st1))"
    by (simp add: wm2_def f_def enter_views[OF i1] modify_id)
  have i2: "view_index tv wm2 = Some k"
    using i1 unfolding view_index_views v2 by (simp add: position_ids f_def name_page_def)
  define st3 where "st3 = set_selected_page L P Free tv n (wm2, snd st1)"
  have v3: "views (fst st3) = modify_at k (select_in n) (views wm2)" using select_views(1)[of tv "(wm2, snd st1)" k] i2 by (simp add: st3_def)
  have "(wm1, d1) = grab_focus L P Free tv p st3"
    using run p i1 unfolding add_new_tab_def fst_conv snd_conv reply
    by (cases own) (simp_all add: Let_def st1_def[symmetric] n_def[symmetric] wm2_def st3_def)
  then have v: "views wm1 = modify_at k (select_in n) (modify_at k f (modify_at k (add_pages [?pg]) (views wm)))"
    using grab_views(1)[of L P Free tv p st3 wm1 d1] v1 v2 v3 by simp
  show len: "length (wm_workspaces wm1) = length (wm_workspaces wm)" using arg_cong[OF v, of length] by simp
  show "view_index tv wm1 = Some k"
    using k unfolding view_index_views v by (simp add: position_ids f_def name_page_def)
  have "wv_pages (views wm1 ! k) = wv_pages (f (add_pages [?pg] (views wm ! k)))"
    using kl by (simp add: v modify_at_nth select_in_def)
  also have "\<dots> = wv_pages (views wm ! k) @ [\<lparr>pg_tab = (if own then None else Some t), pg_root = Terminal p\<rparr>]"
    by (simp add: f_def name_page_def add_pages_def n)
  finally show "wv_pages (wm_workspaces wm1 ! k) = wv_pages (wm_workspaces wm ! k) @
      [\<lparr>pg_tab = (if own then None else Some t), pg_root = Terminal p\<rparr>]"
    using kl len by (simp add: pages_views)
qed

text \<open>The event of a tab that no page is known by adds a page.\<close>

lemma unknown_tab_pages:
  assumes k: "view_index tv wm = Some i" and p: "renders rn p" and unk: "\<forall>pg \<in> set (wv_pages (wm_workspaces wm ! i)). pg_tab pg \<noteq> Some t"
  shows "wv_pages (wm_workspaces (fst (handle_tab_created L P rn i t p (wm, d))) ! i) =
    wv_pages (wm_workspaces wm ! i) @ [\<lparr>pg_tab = Some t, pg_root = Terminal p\<rparr>]"
proof -
  let ?pg = "\<lparr>pg_tab = None, pg_root = Terminal p\<rparr>"
  have kl: "i < length (wm_workspaces wm)" "wv_id (wm_workspaces wm ! i) = tv" using k by (auto simp: view_index_def position_Some_iff)
  define st1 where "st1 = append_page L P Free tv ?pg (wm, d)"
  define n where "n = last_page tv (fst st1)"
  define st2 where "st2 = (enter_tab_id tv n t (fst st1), snd st1)"
  have v1: "views (fst st1) = modify_at i (add_pages [?pg]) (views wm)"
    using append_views(1)[of tv "(wm, d)" i] k by (simp add: st1_def)
  have i1: "view_index tv (fst st1) = Some i" using k unfolding view_index_views v1 by (simp add: position_ids)
  have n: "n = length (wv_pages (views wm ! i))"
    using kl by (simp add: n_def last_page_views[OF i1] v1 modify_at_nth add_pages_def)
  have v2: "views (fst st2) = modify_at i (name_page n t) (views (fst st1))" by (simp add: st2_def enter_views[OF i1])
  have i2: "view_index tv (fst st2) = Some i" using i1 unfolding view_index_views v2 by (simp add: position_ids name_page_def)
  have res: "handle_tab_created L P rn i t p (wm, d) =
      (if wm_active (fst st2) = i then set_selected_page L P Free tv n st2 else st2)"
  proof -
    have known: "\<not> (\<exists>pg \<in> set (wv_pages (wm_workspaces wm ! i)). pg_tab pg = Some t)" using unk by blast
    show ?thesis
      using kl p unfolding handle_tab_created_def build_auto_spawned_tab_widget_def fst_conv Let_def kl(2)
        if_not_P[OF known] st1_def[symmetric] n_def[symmetric] st2_def[symmetric] by (simp add: st2_def)
  qed
  have pages: "wv_pages (views (fst st2) ! i) = wv_pages (views wm ! i) @ [\<lparr>pg_tab = Some t, pg_root = Terminal p\<rparr>]"
    using kl by (simp add: v1 v2 modify_at_nth name_page_def add_pages_def n)
  have "views (fst (handle_tab_created L P rn i t p (wm, d))) = (if wm_active (fst st2) = i
      then modify_at i (select_in n) (views (fst st2)) else views (fst st2))"
    using select_views(1)[OF i2, of L P Free n] by (simp add: res)
  moreover have len: "length (views (fst st2)) = length (wm_workspaces wm)" by (simp add: v1 v2)
  ultimately have "wv_pages (views (fst (handle_tab_created L P rn i t p (wm, d))) ! i) =
      wv_pages (views wm ! i) @ [\<lparr>pg_tab = Some t, pg_root = Terminal p\<rparr>]"
    "length (views (fst (handle_tab_created L P rn i t p (wm, d)))) = length (wm_workspaces wm)"
    using pages kl by (auto simp: modify_at_nth select_in_def)
  then show ?thesis using kl by (simp add: pages_views)
qed



end
