(* ===== verification/Keys.thy ===== *)
theory Keys
  imports Framing Protocol Sync
begin

unbundle bit_operations_syntax

section \<open>Key and mouse input of a pane\<close>

text \<open>
  \<open>input.rs\<close>: what a key press, a mouse button, a motion or a scroll step of GTK becomes before
  libghostty's encoders turn it into bytes for the shell. A GDK key symbol is given by what GDK
  answers for it, its name and its character; the encoders of libghostty, C functions behind
  handles, are the fields of a record \<open>libghostty\<close>, with the states behind the handles as type
  variables. The numbers are those of \<open>ffi.rs\<close>.
\<close>

subsection \<open>The constants of \<open>ffi.rs\<close>\<close>

abbreviation (input) GHOSTTY_KEY_UNIDENTIFIED :: int where "GHOSTTY_KEY_UNIDENTIFIED \<equiv> 0"
abbreviation (input) GHOSTTY_KEY_BACKQUOTE :: int where "GHOSTTY_KEY_BACKQUOTE \<equiv> 1"
abbreviation (input) GHOSTTY_KEY_BACKSLASH :: int where "GHOSTTY_KEY_BACKSLASH \<equiv> 2"
abbreviation (input) GHOSTTY_KEY_BRACKET_LEFT :: int where "GHOSTTY_KEY_BRACKET_LEFT \<equiv> 3"
abbreviation (input) GHOSTTY_KEY_BRACKET_RIGHT :: int where "GHOSTTY_KEY_BRACKET_RIGHT \<equiv> 4"
abbreviation (input) GHOSTTY_KEY_COMMA :: int where "GHOSTTY_KEY_COMMA \<equiv> 5"
abbreviation (input) GHOSTTY_KEY_DIGIT_0 :: int where "GHOSTTY_KEY_DIGIT_0 \<equiv> 6"
abbreviation (input) GHOSTTY_KEY_DIGIT_1 :: int where "GHOSTTY_KEY_DIGIT_1 \<equiv> 7"
abbreviation (input) GHOSTTY_KEY_DIGIT_2 :: int where "GHOSTTY_KEY_DIGIT_2 \<equiv> 8"
abbreviation (input) GHOSTTY_KEY_DIGIT_3 :: int where "GHOSTTY_KEY_DIGIT_3 \<equiv> 9"
abbreviation (input) GHOSTTY_KEY_DIGIT_4 :: int where "GHOSTTY_KEY_DIGIT_4 \<equiv> 10"
abbreviation (input) GHOSTTY_KEY_DIGIT_5 :: int where "GHOSTTY_KEY_DIGIT_5 \<equiv> 11"
abbreviation (input) GHOSTTY_KEY_DIGIT_6 :: int where "GHOSTTY_KEY_DIGIT_6 \<equiv> 12"
abbreviation (input) GHOSTTY_KEY_DIGIT_7 :: int where "GHOSTTY_KEY_DIGIT_7 \<equiv> 13"
abbreviation (input) GHOSTTY_KEY_DIGIT_8 :: int where "GHOSTTY_KEY_DIGIT_8 \<equiv> 14"
abbreviation (input) GHOSTTY_KEY_DIGIT_9 :: int where "GHOSTTY_KEY_DIGIT_9 \<equiv> 15"
abbreviation (input) GHOSTTY_KEY_EQUAL :: int where "GHOSTTY_KEY_EQUAL \<equiv> 16"
abbreviation (input) GHOSTTY_KEY_A :: int where "GHOSTTY_KEY_A \<equiv> 20"
abbreviation (input) GHOSTTY_KEY_B :: int where "GHOSTTY_KEY_B \<equiv> 21"
abbreviation (input) GHOSTTY_KEY_C :: int where "GHOSTTY_KEY_C \<equiv> 22"
abbreviation (input) GHOSTTY_KEY_D :: int where "GHOSTTY_KEY_D \<equiv> 23"
abbreviation (input) GHOSTTY_KEY_E :: int where "GHOSTTY_KEY_E \<equiv> 24"
abbreviation (input) GHOSTTY_KEY_F :: int where "GHOSTTY_KEY_F \<equiv> 25"
abbreviation (input) GHOSTTY_KEY_G :: int where "GHOSTTY_KEY_G \<equiv> 26"
abbreviation (input) GHOSTTY_KEY_H :: int where "GHOSTTY_KEY_H \<equiv> 27"
abbreviation (input) GHOSTTY_KEY_I :: int where "GHOSTTY_KEY_I \<equiv> 28"
abbreviation (input) GHOSTTY_KEY_J :: int where "GHOSTTY_KEY_J \<equiv> 29"
abbreviation (input) GHOSTTY_KEY_K :: int where "GHOSTTY_KEY_K \<equiv> 30"
abbreviation (input) GHOSTTY_KEY_L :: int where "GHOSTTY_KEY_L \<equiv> 31"
abbreviation (input) GHOSTTY_KEY_M :: int where "GHOSTTY_KEY_M \<equiv> 32"
abbreviation (input) GHOSTTY_KEY_N :: int where "GHOSTTY_KEY_N \<equiv> 33"
abbreviation (input) GHOSTTY_KEY_O :: int where "GHOSTTY_KEY_O \<equiv> 34"
abbreviation (input) GHOSTTY_KEY_P :: int where "GHOSTTY_KEY_P \<equiv> 35"
abbreviation (input) GHOSTTY_KEY_Q :: int where "GHOSTTY_KEY_Q \<equiv> 36"
abbreviation (input) GHOSTTY_KEY_R :: int where "GHOSTTY_KEY_R \<equiv> 37"
abbreviation (input) GHOSTTY_KEY_S :: int where "GHOSTTY_KEY_S \<equiv> 38"
abbreviation (input) GHOSTTY_KEY_T :: int where "GHOSTTY_KEY_T \<equiv> 39"
abbreviation (input) GHOSTTY_KEY_U :: int where "GHOSTTY_KEY_U \<equiv> 40"
abbreviation (input) GHOSTTY_KEY_V :: int where "GHOSTTY_KEY_V \<equiv> 41"
abbreviation (input) GHOSTTY_KEY_W :: int where "GHOSTTY_KEY_W \<equiv> 42"
abbreviation (input) GHOSTTY_KEY_X :: int where "GHOSTTY_KEY_X \<equiv> 43"
abbreviation (input) GHOSTTY_KEY_Y :: int where "GHOSTTY_KEY_Y \<equiv> 44"
abbreviation (input) GHOSTTY_KEY_Z :: int where "GHOSTTY_KEY_Z \<equiv> 45"
abbreviation (input) GHOSTTY_KEY_MINUS :: int where "GHOSTTY_KEY_MINUS \<equiv> 46"
abbreviation (input) GHOSTTY_KEY_PERIOD :: int where "GHOSTTY_KEY_PERIOD \<equiv> 47"
abbreviation (input) GHOSTTY_KEY_QUOTE :: int where "GHOSTTY_KEY_QUOTE \<equiv> 48"
abbreviation (input) GHOSTTY_KEY_SEMICOLON :: int where "GHOSTTY_KEY_SEMICOLON \<equiv> 49"
abbreviation (input) GHOSTTY_KEY_SLASH :: int where "GHOSTTY_KEY_SLASH \<equiv> 50"
abbreviation (input) GHOSTTY_KEY_ALT_LEFT :: int where "GHOSTTY_KEY_ALT_LEFT \<equiv> 51"
abbreviation (input) GHOSTTY_KEY_ALT_RIGHT :: int where "GHOSTTY_KEY_ALT_RIGHT \<equiv> 52"
abbreviation (input) GHOSTTY_KEY_BACKSPACE :: int where "GHOSTTY_KEY_BACKSPACE \<equiv> 53"
abbreviation (input) GHOSTTY_KEY_CAPS_LOCK :: int where "GHOSTTY_KEY_CAPS_LOCK \<equiv> 54"
abbreviation (input) GHOSTTY_KEY_CONTEXT_MENU :: int where "GHOSTTY_KEY_CONTEXT_MENU \<equiv> 55"
abbreviation (input) GHOSTTY_KEY_CONTROL_LEFT :: int where "GHOSTTY_KEY_CONTROL_LEFT \<equiv> 56"
abbreviation (input) GHOSTTY_KEY_CONTROL_RIGHT :: int where "GHOSTTY_KEY_CONTROL_RIGHT \<equiv> 57"
abbreviation (input) GHOSTTY_KEY_ENTER :: int where "GHOSTTY_KEY_ENTER \<equiv> 58"
abbreviation (input) GHOSTTY_KEY_META_LEFT :: int where "GHOSTTY_KEY_META_LEFT \<equiv> 59"
abbreviation (input) GHOSTTY_KEY_META_RIGHT :: int where "GHOSTTY_KEY_META_RIGHT \<equiv> 60"
abbreviation (input) GHOSTTY_KEY_SHIFT_LEFT :: int where "GHOSTTY_KEY_SHIFT_LEFT \<equiv> 61"
abbreviation (input) GHOSTTY_KEY_SHIFT_RIGHT :: int where "GHOSTTY_KEY_SHIFT_RIGHT \<equiv> 62"
abbreviation (input) GHOSTTY_KEY_SPACE :: int where "GHOSTTY_KEY_SPACE \<equiv> 63"
abbreviation (input) GHOSTTY_KEY_TAB :: int where "GHOSTTY_KEY_TAB \<equiv> 64"
abbreviation (input) GHOSTTY_KEY_DELETE :: int where "GHOSTTY_KEY_DELETE \<equiv> 68"
abbreviation (input) GHOSTTY_KEY_END :: int where "GHOSTTY_KEY_END \<equiv> 69"
abbreviation (input) GHOSTTY_KEY_HOME :: int where "GHOSTTY_KEY_HOME \<equiv> 71"
abbreviation (input) GHOSTTY_KEY_INSERT :: int where "GHOSTTY_KEY_INSERT \<equiv> 72"
abbreviation (input) GHOSTTY_KEY_PAGE_DOWN :: int where "GHOSTTY_KEY_PAGE_DOWN \<equiv> 73"
abbreviation (input) GHOSTTY_KEY_PAGE_UP :: int where "GHOSTTY_KEY_PAGE_UP \<equiv> 74"
abbreviation (input) GHOSTTY_KEY_ARROW_DOWN :: int where "GHOSTTY_KEY_ARROW_DOWN \<equiv> 75"
abbreviation (input) GHOSTTY_KEY_ARROW_LEFT :: int where "GHOSTTY_KEY_ARROW_LEFT \<equiv> 76"
abbreviation (input) GHOSTTY_KEY_ARROW_RIGHT :: int where "GHOSTTY_KEY_ARROW_RIGHT \<equiv> 77"
abbreviation (input) GHOSTTY_KEY_ARROW_UP :: int where "GHOSTTY_KEY_ARROW_UP \<equiv> 78"
abbreviation (input) GHOSTTY_KEY_NUM_LOCK :: int where "GHOSTTY_KEY_NUM_LOCK \<equiv> 79"
abbreviation (input) GHOSTTY_KEY_NUMPAD_0 :: int where "GHOSTTY_KEY_NUMPAD_0 \<equiv> 80"
abbreviation (input) GHOSTTY_KEY_NUMPAD_1 :: int where "GHOSTTY_KEY_NUMPAD_1 \<equiv> 81"
abbreviation (input) GHOSTTY_KEY_NUMPAD_2 :: int where "GHOSTTY_KEY_NUMPAD_2 \<equiv> 82"
abbreviation (input) GHOSTTY_KEY_NUMPAD_3 :: int where "GHOSTTY_KEY_NUMPAD_3 \<equiv> 83"
abbreviation (input) GHOSTTY_KEY_NUMPAD_4 :: int where "GHOSTTY_KEY_NUMPAD_4 \<equiv> 84"
abbreviation (input) GHOSTTY_KEY_NUMPAD_5 :: int where "GHOSTTY_KEY_NUMPAD_5 \<equiv> 85"
abbreviation (input) GHOSTTY_KEY_NUMPAD_6 :: int where "GHOSTTY_KEY_NUMPAD_6 \<equiv> 86"
abbreviation (input) GHOSTTY_KEY_NUMPAD_7 :: int where "GHOSTTY_KEY_NUMPAD_7 \<equiv> 87"
abbreviation (input) GHOSTTY_KEY_NUMPAD_8 :: int where "GHOSTTY_KEY_NUMPAD_8 \<equiv> 88"
abbreviation (input) GHOSTTY_KEY_NUMPAD_9 :: int where "GHOSTTY_KEY_NUMPAD_9 \<equiv> 89"
abbreviation (input) GHOSTTY_KEY_NUMPAD_ADD :: int where "GHOSTTY_KEY_NUMPAD_ADD \<equiv> 90"
abbreviation (input) GHOSTTY_KEY_NUMPAD_DECIMAL :: int where "GHOSTTY_KEY_NUMPAD_DECIMAL \<equiv> 95"
abbreviation (input) GHOSTTY_KEY_NUMPAD_DIVIDE :: int where "GHOSTTY_KEY_NUMPAD_DIVIDE \<equiv> 96"
abbreviation (input) GHOSTTY_KEY_NUMPAD_ENTER :: int where "GHOSTTY_KEY_NUMPAD_ENTER \<equiv> 97"
abbreviation (input) GHOSTTY_KEY_NUMPAD_EQUAL :: int where "GHOSTTY_KEY_NUMPAD_EQUAL \<equiv> 98"
abbreviation (input) GHOSTTY_KEY_NUMPAD_MULTIPLY :: int where "GHOSTTY_KEY_NUMPAD_MULTIPLY \<equiv> 104"
abbreviation (input) GHOSTTY_KEY_NUMPAD_SUBTRACT :: int where "GHOSTTY_KEY_NUMPAD_SUBTRACT \<equiv> 107"
abbreviation (input) GHOSTTY_KEY_ESCAPE :: int where "GHOSTTY_KEY_ESCAPE \<equiv> 120"
abbreviation (input) GHOSTTY_KEY_F1 :: int where "GHOSTTY_KEY_F1 \<equiv> 121"
abbreviation (input) GHOSTTY_KEY_F2 :: int where "GHOSTTY_KEY_F2 \<equiv> 122"
abbreviation (input) GHOSTTY_KEY_F3 :: int where "GHOSTTY_KEY_F3 \<equiv> 123"
abbreviation (input) GHOSTTY_KEY_F4 :: int where "GHOSTTY_KEY_F4 \<equiv> 124"
abbreviation (input) GHOSTTY_KEY_F5 :: int where "GHOSTTY_KEY_F5 \<equiv> 125"
abbreviation (input) GHOSTTY_KEY_F6 :: int where "GHOSTTY_KEY_F6 \<equiv> 126"
abbreviation (input) GHOSTTY_KEY_F7 :: int where "GHOSTTY_KEY_F7 \<equiv> 127"
abbreviation (input) GHOSTTY_KEY_F8 :: int where "GHOSTTY_KEY_F8 \<equiv> 128"
abbreviation (input) GHOSTTY_KEY_F9 :: int where "GHOSTTY_KEY_F9 \<equiv> 129"
abbreviation (input) GHOSTTY_KEY_F10 :: int where "GHOSTTY_KEY_F10 \<equiv> 130"
abbreviation (input) GHOSTTY_KEY_F11 :: int where "GHOSTTY_KEY_F11 \<equiv> 131"
abbreviation (input) GHOSTTY_KEY_F12 :: int where "GHOSTTY_KEY_F12 \<equiv> 132"
abbreviation (input) GHOSTTY_KEY_F13 :: int where "GHOSTTY_KEY_F13 \<equiv> 133"
abbreviation (input) GHOSTTY_KEY_F14 :: int where "GHOSTTY_KEY_F14 \<equiv> 134"
abbreviation (input) GHOSTTY_KEY_F15 :: int where "GHOSTTY_KEY_F15 \<equiv> 135"
abbreviation (input) GHOSTTY_KEY_F16 :: int where "GHOSTTY_KEY_F16 \<equiv> 136"
abbreviation (input) GHOSTTY_KEY_F17 :: int where "GHOSTTY_KEY_F17 \<equiv> 137"
abbreviation (input) GHOSTTY_KEY_F18 :: int where "GHOSTTY_KEY_F18 \<equiv> 138"
abbreviation (input) GHOSTTY_KEY_F19 :: int where "GHOSTTY_KEY_F19 \<equiv> 139"
abbreviation (input) GHOSTTY_KEY_F20 :: int where "GHOSTTY_KEY_F20 \<equiv> 140"
abbreviation (input) GHOSTTY_KEY_F21 :: int where "GHOSTTY_KEY_F21 \<equiv> 141"
abbreviation (input) GHOSTTY_KEY_F22 :: int where "GHOSTTY_KEY_F22 \<equiv> 142"
abbreviation (input) GHOSTTY_KEY_F23 :: int where "GHOSTTY_KEY_F23 \<equiv> 143"
abbreviation (input) GHOSTTY_KEY_F24 :: int where "GHOSTTY_KEY_F24 \<equiv> 144"
abbreviation (input) GHOSTTY_KEY_PRINT_SCREEN :: int where "GHOSTTY_KEY_PRINT_SCREEN \<equiv> 148"
abbreviation (input) GHOSTTY_KEY_SCROLL_LOCK :: int where "GHOSTTY_KEY_SCROLL_LOCK \<equiv> 149"
abbreviation (input) GHOSTTY_KEY_PAUSE :: int where "GHOSTTY_KEY_PAUSE \<equiv> 150"

abbreviation (input) GHOSTTY_SUCCESS :: int where "GHOSTTY_SUCCESS \<equiv> 0"

abbreviation (input) GHOSTTY_MODS_SHIFT :: u16 where "GHOSTTY_MODS_SHIFT \<equiv> 1"
abbreviation (input) GHOSTTY_MODS_CTRL :: u16 where "GHOSTTY_MODS_CTRL \<equiv> 2"
abbreviation (input) GHOSTTY_MODS_ALT :: u16 where "GHOSTTY_MODS_ALT \<equiv> 4"
abbreviation (input) GHOSTTY_MODS_SUPER :: u16 where "GHOSTTY_MODS_SUPER \<equiv> 8"
abbreviation (input) GHOSTTY_MODS_CAPS_LOCK :: u16 where "GHOSTTY_MODS_CAPS_LOCK \<equiv> 16"
abbreviation (input) GHOSTTY_MODS_SHIFT_SIDE :: u16 where "GHOSTTY_MODS_SHIFT_SIDE \<equiv> 64"
abbreviation (input) GHOSTTY_MODS_CTRL_SIDE :: u16 where "GHOSTTY_MODS_CTRL_SIDE \<equiv> 128"
abbreviation (input) GHOSTTY_MODS_ALT_SIDE :: u16 where "GHOSTTY_MODS_ALT_SIDE \<equiv> 256"
abbreviation (input) GHOSTTY_MODS_SUPER_SIDE :: u16 where "GHOSTTY_MODS_SUPER_SIDE \<equiv> 512"

abbreviation (input) GHOSTTY_KEY_ACTION_RELEASE :: int where "GHOSTTY_KEY_ACTION_RELEASE \<equiv> 0"
abbreviation (input) GHOSTTY_KEY_ACTION_PRESS :: int where "GHOSTTY_KEY_ACTION_PRESS \<equiv> 1"
abbreviation (input) GHOSTTY_KEY_ACTION_REPEAT :: int where "GHOSTTY_KEY_ACTION_REPEAT \<equiv> 2"

abbreviation (input) GHOSTTY_MOUSE_ACTION_PRESS :: int where "GHOSTTY_MOUSE_ACTION_PRESS \<equiv> 0"
abbreviation (input) GHOSTTY_MOUSE_ACTION_RELEASE :: int where "GHOSTTY_MOUSE_ACTION_RELEASE \<equiv> 1"
abbreviation (input) GHOSTTY_MOUSE_ACTION_MOTION :: int where "GHOSTTY_MOUSE_ACTION_MOTION \<equiv> 2"

abbreviation (input) GHOSTTY_MOUSE_BUTTON_UNKNOWN :: nat where "GHOSTTY_MOUSE_BUTTON_UNKNOWN \<equiv> 0"
abbreviation (input) GHOSTTY_MOUSE_BUTTON_LEFT :: nat where "GHOSTTY_MOUSE_BUTTON_LEFT \<equiv> 1"
abbreviation (input) GHOSTTY_MOUSE_BUTTON_RIGHT :: nat where "GHOSTTY_MOUSE_BUTTON_RIGHT \<equiv> 2"
abbreviation (input) GHOSTTY_MOUSE_BUTTON_MIDDLE :: nat where "GHOSTTY_MOUSE_BUTTON_MIDDLE \<equiv> 3"
abbreviation (input) GHOSTTY_MOUSE_BUTTON_FOUR :: nat where "GHOSTTY_MOUSE_BUTTON_FOUR \<equiv> 4"
abbreviation (input) GHOSTTY_MOUSE_BUTTON_FIVE :: nat where "GHOSTTY_MOUSE_BUTTON_FIVE \<equiv> 5"

abbreviation (input) GHOSTTY_FOCUS_GAINED :: int where "GHOSTTY_FOCUS_GAINED \<equiv> 0"
abbreviation (input) GHOSTTY_FOCUS_LOST :: int where "GHOSTTY_FOCUS_LOST \<equiv> 1"

subsection \<open>From GDK to ghostty\<close>

text \<open>A key symbol: \<open>keyval.name()\<close> and \<open>keyval.to_unicode()\<close>. The constant \<open>gdk::Key::X\<close> is the
  symbol with the name \<open>X\<close>.\<close>

record gdk_key =
  gk_name :: "string option"
  gk_unicode :: "nat option"

text \<open>\<open>gdk::ModifierType\<close>, a set of flags; the last constructor stands for the flags the code does
  not look at.\<close>

datatype gdk_modifier = SHIFT_MASK | CONTROL_MASK | ALT_MASK | SUPER_MASK | LOCK_MASK | OTHER_MASK nat

text \<open>The named keys, in the order of the comparisons: the keys of the writing, control, lock and
  modifier groups, then the function and the numpad keys.\<close>

definition gdk_control_keys :: "(string \<times> int) list" where
  "gdk_control_keys = [
    (''space'', GHOSTTY_KEY_SPACE), (''Return'', GHOSTTY_KEY_ENTER), (''Tab'', GHOSTTY_KEY_TAB),
    (''ISO_Left_Tab'', GHOSTTY_KEY_TAB), (''BackSpace'', GHOSTTY_KEY_BACKSPACE),
    (''Delete'', GHOSTTY_KEY_DELETE), (''Escape'', GHOSTTY_KEY_ESCAPE),
    (''Up'', GHOSTTY_KEY_ARROW_UP), (''Down'', GHOSTTY_KEY_ARROW_DOWN),
    (''Left'', GHOSTTY_KEY_ARROW_LEFT), (''Right'', GHOSTTY_KEY_ARROW_RIGHT),
    (''Home'', GHOSTTY_KEY_HOME), (''End'', GHOSTTY_KEY_END),
    (''Page_Up'', GHOSTTY_KEY_PAGE_UP), (''Page_Down'', GHOSTTY_KEY_PAGE_DOWN),
    (''Insert'', GHOSTTY_KEY_INSERT), (''Caps_Lock'', GHOSTTY_KEY_CAPS_LOCK),
    (''Num_Lock'', GHOSTTY_KEY_NUM_LOCK), (''Scroll_Lock'', GHOSTTY_KEY_SCROLL_LOCK),
    (''Print'', GHOSTTY_KEY_PRINT_SCREEN), (''Pause'', GHOSTTY_KEY_PAUSE),
    (''Menu'', GHOSTTY_KEY_CONTEXT_MENU), (''Shift_L'', GHOSTTY_KEY_SHIFT_LEFT),
    (''Shift_R'', GHOSTTY_KEY_SHIFT_RIGHT), (''Control_L'', GHOSTTY_KEY_CONTROL_LEFT),
    (''Control_R'', GHOSTTY_KEY_CONTROL_RIGHT), (''Alt_L'', GHOSTTY_KEY_ALT_LEFT),
    (''Alt_R'', GHOSTTY_KEY_ALT_RIGHT), (''Super_L'', GHOSTTY_KEY_META_LEFT),
    (''Meta_L'', GHOSTTY_KEY_META_LEFT), (''Super_R'', GHOSTTY_KEY_META_RIGHT),
    (''Meta_R'', GHOSTTY_KEY_META_RIGHT)]"

definition gdk_function_keys :: "(string \<times> int) list" where
  "gdk_function_keys = [
    (''F1'', GHOSTTY_KEY_F1), (''F2'', GHOSTTY_KEY_F2), (''F3'', GHOSTTY_KEY_F3),
    (''F4'', GHOSTTY_KEY_F4), (''F5'', GHOSTTY_KEY_F5), (''F6'', GHOSTTY_KEY_F6),
    (''F7'', GHOSTTY_KEY_F7), (''F8'', GHOSTTY_KEY_F8), (''F9'', GHOSTTY_KEY_F9),
    (''F10'', GHOSTTY_KEY_F10), (''F11'', GHOSTTY_KEY_F11), (''F12'', GHOSTTY_KEY_F12),
    (''F13'', GHOSTTY_KEY_F13), (''F14'', GHOSTTY_KEY_F14), (''F15'', GHOSTTY_KEY_F15),
    (''F16'', GHOSTTY_KEY_F16), (''F17'', GHOSTTY_KEY_F17), (''F18'', GHOSTTY_KEY_F18),
    (''F19'', GHOSTTY_KEY_F19), (''F20'', GHOSTTY_KEY_F20), (''F21'', GHOSTTY_KEY_F21),
    (''F22'', GHOSTTY_KEY_F22), (''F23'', GHOSTTY_KEY_F23), (''F24'', GHOSTTY_KEY_F24),
    (''KP_0'', GHOSTTY_KEY_NUMPAD_0), (''KP_1'', GHOSTTY_KEY_NUMPAD_1),
    (''KP_2'', GHOSTTY_KEY_NUMPAD_2), (''KP_3'', GHOSTTY_KEY_NUMPAD_3),
    (''KP_4'', GHOSTTY_KEY_NUMPAD_4), (''KP_5'', GHOSTTY_KEY_NUMPAD_5),
    (''KP_6'', GHOSTTY_KEY_NUMPAD_6), (''KP_7'', GHOSTTY_KEY_NUMPAD_7),
    (''KP_8'', GHOSTTY_KEY_NUMPAD_8), (''KP_9'', GHOSTTY_KEY_NUMPAD_9),
    (''KP_Add'', GHOSTTY_KEY_NUMPAD_ADD), (''KP_Subtract'', GHOSTTY_KEY_NUMPAD_SUBTRACT),
    (''KP_Multiply'', GHOSTTY_KEY_NUMPAD_MULTIPLY), (''KP_Divide'', GHOSTTY_KEY_NUMPAD_DIVIDE),
    (''KP_Decimal'', GHOSTTY_KEY_NUMPAD_DECIMAL), (''KP_Enter'', GHOSTTY_KEY_NUMPAD_ENTER),
    (''KP_Equal'', GHOSTTY_KEY_NUMPAD_EQUAL)]"

definition gdk_named_key_to_ghostty :: "gdk_key \<Rightarrow> int" where
  "gdk_named_key_to_ghostty keyval =
     (case gk_name keyval of
        None \<Rightarrow> GHOSTTY_KEY_UNIDENTIFIED
      | Some name \<Rightarrow>
          (case map_of (gdk_control_keys @ gdk_function_keys) name of Some k \<Rightarrow> k | None \<Rightarrow> GHOSTTY_KEY_UNIDENTIFIED))"

text \<open>\<open>str::to_name_lowercase\<close> on the names, which are ASCII.\<close>

definition name_lower :: "string \<Rightarrow> string" where
  "name_lower = map (\<lambda>c. let n = of_char c in if 65 \<le> n \<and> n \<le> 90 then char_of (n + 32 :: nat) else c)"

definition keyname_table :: "(string \<times> int) list" where
  "keyname_table = [
    (''a'', GHOSTTY_KEY_A), (''b'', GHOSTTY_KEY_B), (''c'', GHOSTTY_KEY_C),
    (''d'', GHOSTTY_KEY_D), (''e'', GHOSTTY_KEY_E), (''f'', GHOSTTY_KEY_F),
    (''g'', GHOSTTY_KEY_G), (''h'', GHOSTTY_KEY_H), (''i'', GHOSTTY_KEY_I),
    (''j'', GHOSTTY_KEY_J), (''k'', GHOSTTY_KEY_K), (''l'', GHOSTTY_KEY_L),
    (''m'', GHOSTTY_KEY_M), (''n'', GHOSTTY_KEY_N), (''o'', GHOSTTY_KEY_O),
    (''p'', GHOSTTY_KEY_P), (''q'', GHOSTTY_KEY_Q), (''r'', GHOSTTY_KEY_R),
    (''s'', GHOSTTY_KEY_S), (''t'', GHOSTTY_KEY_T), (''u'', GHOSTTY_KEY_U),
    (''v'', GHOSTTY_KEY_V), (''w'', GHOSTTY_KEY_W), (''x'', GHOSTTY_KEY_X),
    (''y'', GHOSTTY_KEY_Y), (''z'', GHOSTTY_KEY_Z), (''0'', GHOSTTY_KEY_DIGIT_0),
    (''1'', GHOSTTY_KEY_DIGIT_1), (''2'', GHOSTTY_KEY_DIGIT_2), (''3'', GHOSTTY_KEY_DIGIT_3),
    (''4'', GHOSTTY_KEY_DIGIT_4), (''5'', GHOSTTY_KEY_DIGIT_5), (''6'', GHOSTTY_KEY_DIGIT_6),
    (''7'', GHOSTTY_KEY_DIGIT_7), (''8'', GHOSTTY_KEY_DIGIT_8), (''9'', GHOSTTY_KEY_DIGIT_9),
    (''exclam'', GHOSTTY_KEY_DIGIT_1), (''at'', GHOSTTY_KEY_DIGIT_2),
    (''numbersign'', GHOSTTY_KEY_DIGIT_3), (''dollar'', GHOSTTY_KEY_DIGIT_4),
    (''percent'', GHOSTTY_KEY_DIGIT_5), (''asciicircum'', GHOSTTY_KEY_DIGIT_6),
    (''ampersand'', GHOSTTY_KEY_DIGIT_7), (''asterisk'', GHOSTTY_KEY_DIGIT_8),
    (''parenleft'', GHOSTTY_KEY_DIGIT_9), (''parenright'', GHOSTTY_KEY_DIGIT_0),
    (''minus'', GHOSTTY_KEY_MINUS), (''equal'', GHOSTTY_KEY_EQUAL),
    (''bracketleft'', GHOSTTY_KEY_BRACKET_LEFT), (''bracketright'', GHOSTTY_KEY_BRACKET_RIGHT),
    (''backslash'', GHOSTTY_KEY_BACKSLASH), (''semicolon'', GHOSTTY_KEY_SEMICOLON),
    (''apostrophe'', GHOSTTY_KEY_QUOTE), (''comma'', GHOSTTY_KEY_COMMA),
    (''period'', GHOSTTY_KEY_PERIOD), (''slash'', GHOSTTY_KEY_SLASH),
    (''grave'', GHOSTTY_KEY_BACKQUOTE), (''underscore'', GHOSTTY_KEY_MINUS),
    (''plus'', GHOSTTY_KEY_EQUAL), (''braceleft'', GHOSTTY_KEY_BRACKET_LEFT),
    (''braceright'', GHOSTTY_KEY_BRACKET_RIGHT), (''bar'', GHOSTTY_KEY_BACKSLASH),
    (''colon'', GHOSTTY_KEY_SEMICOLON), (''quotedbl'', GHOSTTY_KEY_QUOTE),
    (''less'', GHOSTTY_KEY_COMMA), (''greater'', GHOSTTY_KEY_PERIOD),
    (''question'', GHOSTTY_KEY_SLASH), (''asciitilde'', GHOSTTY_KEY_BACKQUOTE)]"

definition gdk_keyname_to_ghostty :: "string \<Rightarrow> int" where
  "gdk_keyname_to_ghostty name =
     (case map_of keyname_table (name_lower name) of
        Some k \<Rightarrow> k | None \<Rightarrow> GHOSTTY_KEY_UNIDENTIFIED)"

definition gdk_keyval_to_ghostty :: "gdk_key \<Rightarrow> int" where
  "gdk_keyval_to_ghostty keyval =
     (let key = gdk_named_key_to_ghostty keyval
      in if key \<noteq> GHOSTTY_KEY_UNIDENTIFIED then key
         else case gk_name keyval of
                Some name \<Rightarrow> gdk_keyname_to_ghostty name
              | None \<Rightarrow> GHOSTTY_KEY_UNIDENTIFIED)"

definition keycode_table :: "(u32 \<times> int) list" where
  "keycode_table = [
    (87, GHOSTTY_KEY_NUMPAD_1), (88, GHOSTTY_KEY_NUMPAD_2), (89, GHOSTTY_KEY_NUMPAD_3),
    (83, GHOSTTY_KEY_NUMPAD_4), (84, GHOSTTY_KEY_NUMPAD_5), (85, GHOSTTY_KEY_NUMPAD_6),
    (79, GHOSTTY_KEY_NUMPAD_7), (80, GHOSTTY_KEY_NUMPAD_8), (81, GHOSTTY_KEY_NUMPAD_9),
    (90, GHOSTTY_KEY_NUMPAD_0), (86, GHOSTTY_KEY_NUMPAD_ADD), (82, GHOSTTY_KEY_NUMPAD_SUBTRACT),
    (63, GHOSTTY_KEY_NUMPAD_MULTIPLY), (106, GHOSTTY_KEY_NUMPAD_DIVIDE),
    (91, GHOSTTY_KEY_NUMPAD_DECIMAL), (104, GHOSTTY_KEY_NUMPAD_ENTER),
    (125, GHOSTTY_KEY_NUMPAD_EQUAL), (62, GHOSTTY_KEY_SHIFT_RIGHT),
    (105, GHOSTTY_KEY_CONTROL_RIGHT), (108, GHOSTTY_KEY_ALT_RIGHT),
    (134, GHOSTTY_KEY_META_RIGHT)]"

definition refine_key_with_keycode :: "int \<Rightarrow> u32 \<Rightarrow> int" where
  "refine_key_with_keycode gkey keycode =
     (case map_of keycode_table keycode of Some k \<Rightarrow> k | None \<Rightarrow> gkey)"

definition gdk_mods_to_ghostty :: "gdk_modifier set \<Rightarrow> u32 \<Rightarrow> u16" where
  "gdk_mods_to_ghostty state keycode =
     (let r0 = 0;
          r1 = (if SHIFT_MASK \<in> state then r0 OR GHOSTTY_MODS_SHIFT else r0);
          r2 = (if CONTROL_MASK \<in> state then r1 OR GHOSTTY_MODS_CTRL else r1);
          r3 = (if ALT_MASK \<in> state then r2 OR GHOSTTY_MODS_ALT else r2);
          r4 = (if SUPER_MASK \<in> state then r3 OR GHOSTTY_MODS_SUPER else r3);
          r5 = (if LOCK_MASK \<in> state then r4 OR GHOSTTY_MODS_CAPS_LOCK else r4)
      in if keycode = 62 then r5 OR GHOSTTY_MODS_SHIFT_SIDE
         else if keycode = 105 then r5 OR GHOSTTY_MODS_CTRL_SIDE
         else if keycode = 108 then r5 OR GHOSTTY_MODS_ALT_SIDE
         else if keycode = 134 then r5 OR GHOSTTY_MODS_SUPER_SIDE
         else r5)"

text \<open>The characters are written as code points.\<close>

definition codepoint_table :: "(string \<times> u32) list" where
  "codepoint_table = [
    (''a'', 97), (''b'', 98), (''c'', 99), (''d'', 100), (''e'', 101), (''f'', 102),
    (''g'', 103), (''h'', 104), (''i'', 105), (''j'', 106), (''k'', 107), (''l'', 108),
    (''m'', 109), (''n'', 110), (''o'', 111), (''p'', 112), (''q'', 113), (''r'', 114),
    (''s'', 115), (''t'', 116), (''u'', 117), (''v'', 118), (''w'', 119), (''x'', 120),
    (''y'', 121), (''z'', 122), (''0'', 48), (''parenright'', 48), (''1'', 49),
    (''exclam'', 49), (''2'', 50), (''at'', 50), (''3'', 51), (''numbersign'', 51), (''4'', 52),
    (''dollar'', 52), (''5'', 53), (''percent'', 53), (''6'', 54), (''asciicircum'', 54),
    (''7'', 55), (''ampersand'', 55), (''8'', 56), (''asterisk'', 56), (''9'', 57),
    (''parenleft'', 57), (''minus'', 45), (''underscore'', 45), (''equal'', 61), (''plus'', 61),
    (''bracketleft'', 91), (''braceleft'', 91), (''bracketright'', 93), (''braceright'', 93),
    (''backslash'', 92), (''bar'', 92), (''semicolon'', 59), (''colon'', 59),
    (''apostrophe'', 39), (''quotedbl'', 39), (''comma'', 44), (''less'', 44), (''period'', 46),
    (''greater'', 46), (''slash'', 47), (''question'', 47), (''grave'', 96),
    (''asciitilde'', 96)]"

definition unshifted_codepoint :: "gdk_key \<Rightarrow> u32" where
  "unshifted_codepoint keyval =
     (if gk_name keyval = Some ''space'' then 32
      else case gk_name keyval of
             Some name \<Rightarrow> (case map_of codepoint_table (name_lower name) of Some c \<Rightarrow> c | None \<Rightarrow> 0)
           | None \<Rightarrow> 0)"

text \<open>GDK counts left, middle, right; ghostty counts left, right, middle.\<close>

definition gdk_button_to_ghostty :: "u32 \<Rightarrow> nat" where
  "gdk_button_to_ghostty button =
     (if button = 1 then GHOSTTY_MOUSE_BUTTON_LEFT
      else if button = 2 then GHOSTTY_MOUSE_BUTTON_MIDDLE
      else if button = 3 then GHOSTTY_MOUSE_BUTTON_RIGHT
      else if 4 \<le> button \<and> button \<le> 11 then unat button
      else GHOSTTY_MOUSE_BUTTON_UNKNOWN)"

subsection \<open>The encoders\<close>

record key_event =
  ke_key :: int
  ke_action :: int
  ke_mods :: u16
  ke_unshifted_codepoint :: u32
  ke_consumed_mods :: u16
  ke_composing :: bool
  ke_utf8 :: "byte list"

text \<open>Coordinates come as \<open>f64\<close> and are cast to \<open>f32\<close>.\<close>

record mouse_event =
  me_action :: int
  me_button :: "nat option"
  me_mods :: u16
  me_position :: "f32 \<times> f32"

text \<open>The functions of libghostty-vt: options are read from the terminal or set one by one, an encode
  call returns a status and the bytes it wrote. The mouse encoder remembers the last cell.\<close>

record ('t, 'k, 'm) libghostty =
  key_encoder_setopt_from_terminal :: "'t \<Rightarrow> 'k \<Rightarrow> 'k"
  key_encoder_encode :: "'k \<Rightarrow> key_event \<Rightarrow> int \<times> byte list"
  mouse_encoder_setopt_from_terminal :: "'t \<Rightarrow> 'm \<Rightarrow> 'm"
  mouse_encoder_setopt_size :: "(u32 \<times> u32) \<Rightarrow> (u32 \<times> u32) \<Rightarrow> 'm \<Rightarrow> 'm"
  mouse_encoder_setopt_any_button_pressed :: "bool \<Rightarrow> 'm \<Rightarrow> 'm"
  mouse_encoder_setopt_track_last_cell :: "bool \<Rightarrow> 'm \<Rightarrow> 'm"
  mouse_encoder_encode :: "'m \<Rightarrow> mouse_event \<Rightarrow> (int \<times> byte list) \<times> 'm"
  ghostty_focus_encode :: "int \<Rightarrow> int \<times> byte list"

record ('k, 'm) ghostty_input =
  gi_key_encoder :: 'k
  gi_key_event :: key_event
  gi_mouse_encoder :: 'm
  gi_mouse_event :: mouse_event
  gi_pressed_keys :: "u32 set"
  gi_last_cursor_pos :: "rat \<times> rat"
  gi_buttons_held :: byte

definition ghostty_input_new :: "'k \<Rightarrow> key_event \<Rightarrow> 'm \<Rightarrow> mouse_event \<Rightarrow> ('k, 'm) ghostty_input" where
  "ghostty_input_new key_encoder key_event mouse_encoder mouse_event =
     \<lparr>gi_key_encoder = key_encoder, gi_key_event = key_event, gi_mouse_encoder = mouse_encoder,
      gi_mouse_event = mouse_event, gi_pressed_keys = {}, gi_last_cursor_pos = (0, 0),
      gi_buttons_held = 0\<rparr>"

definition encoded :: "int \<times> byte list \<Rightarrow> byte list option" where
  "encoded r = (if fst r = GHOSTTY_SUCCESS \<and> snd r \<noteq> [] then Some (snd r) else None)"

definition encode_focus :: "('t, 'k, 'm) libghostty \<Rightarrow> bool \<Rightarrow> byte list option" where
  "encode_focus g gained =
     encoded (ghostty_focus_encode g (if gained then GHOSTTY_FOCUS_GAINED else GHOSTTY_FOCUS_LOST))"

subsection \<open>Keys\<close>

text \<open>\<open>char::is_control\<close> and \<open>char::encode_utf8\<close>.\<close>

definition is_control :: "nat \<Rightarrow> bool" where
  "is_control c \<longleftrightarrow> c < 32 \<or> 127 \<le> c \<and> c < 160"

definition encode_utf8 :: "nat \<Rightarrow> byte list" where
  "encode_utf8 c = map of_nat
     (if c < 128 then [c]
      else if c < 2048 then [192 + c div 64, 128 + c mod 64]
      else if c < 65536 then [224 + c div 4096, 128 + c div 64 mod 64, 128 + c mod 64]
      else [240 + c div 262144, 128 + c div 4096 mod 64, 128 + c div 64 mod 64, 128 + c mod 64])"

definition key_text :: "gdk_key \<Rightarrow> bool \<Rightarrow> byte list" where
  "key_text keyval is_press_or_repeat =
     (if is_press_or_repeat then
        case gk_unicode keyval of
          Some ch \<Rightarrow> if \<not> is_control ch \<or> ch = 32 then encode_utf8 ch else []
        | None \<Rightarrow> []
      else [])"

definition encode_key_inner ::
    "('t, 'k, 'm) libghostty \<Rightarrow> gdk_key \<Rightarrow> u32 \<Rightarrow> gdk_modifier set \<Rightarrow> 't \<Rightarrow> int \<Rightarrow> bool \<Rightarrow>
     ('k, 'm) ghostty_input \<Rightarrow> byte list option \<times> ('k, 'm) ghostty_input" where
  "encode_key_inner g keyval keycode state terminal action is_press_or_repeat gi =
     (let enc = key_encoder_setopt_from_terminal g terminal (gi_key_encoder gi);
          gkey = refine_key_with_keycode (gdk_keyval_to_ghostty keyval) keycode;
          mods = gdk_mods_to_ghostty state keycode;
          ucp = unshifted_codepoint keyval;
          consumed = (if ucp \<noteq> 0 \<and> mods AND GHOSTTY_MODS_SHIFT \<noteq> 0 then GHOSTTY_MODS_SHIFT else 0);
          text_bytes = key_text keyval is_press_or_repeat;
          ev = (gi_key_event gi)\<lparr>ke_key := gkey, ke_action := action, ke_mods := mods,
                 ke_unshifted_codepoint := ucp, ke_consumed_mods := consumed, ke_composing := False,
                 ke_utf8 := text_bytes\<rparr>;
          gi1 = gi\<lparr>gi_key_encoder := enc, gi_key_event := ev\<rparr>
      in case encoded (key_encoder_encode g enc ev) of
           Some bytes \<Rightarrow> (Some bytes, gi1)
         | None \<Rightarrow>
             if is_press_or_repeat \<and> text_bytes \<noteq> [] then (Some text_bytes, gi1) else (None, gi1))"

definition encode_key_press ::
    "('t, 'k, 'm) libghostty \<Rightarrow> gdk_key \<Rightarrow> u32 \<Rightarrow> gdk_modifier set \<Rightarrow> 't \<Rightarrow>
     ('k, 'm) ghostty_input \<Rightarrow> byte list option \<times> ('k, 'm) ghostty_input" where
  "encode_key_press g keyval keycode state terminal gi =
     (let is_repeat = keycode \<in> gi_pressed_keys gi;
          gi1 = (if \<not> is_repeat then gi\<lparr>gi_pressed_keys := insert keycode (gi_pressed_keys gi)\<rparr> else gi);
          action = (if is_repeat then GHOSTTY_KEY_ACTION_REPEAT else GHOSTTY_KEY_ACTION_PRESS)
      in encode_key_inner g keyval keycode state terminal action True gi1)"

definition encode_key_release ::
    "('t, 'k, 'm) libghostty \<Rightarrow> gdk_key \<Rightarrow> u32 \<Rightarrow> gdk_modifier set \<Rightarrow> 't \<Rightarrow>
     ('k, 'm) ghostty_input \<Rightarrow> byte list option \<times> ('k, 'm) ghostty_input" where
  "encode_key_release g keyval keycode state terminal gi =
     encode_key_inner g keyval keycode state terminal GHOSTTY_KEY_ACTION_RELEASE False
       (gi\<lparr>gi_pressed_keys := gi_pressed_keys gi - {keycode}\<rparr>)"

subsection \<open>The mouse\<close>

definition sync_mouse_encoder ::
    "('t, 'k, 'm) libghostty \<Rightarrow> 't \<Rightarrow> u32 \<times> u32 \<Rightarrow> u32 \<times> u32 \<Rightarrow> ('k, 'm) ghostty_input \<Rightarrow>
     ('k, 'm) ghostty_input" where
  "sync_mouse_encoder g terminal screen_size cell_size gi =
     (let m1 = mouse_encoder_setopt_from_terminal g terminal (gi_mouse_encoder gi);
          m2 = mouse_encoder_setopt_size g screen_size cell_size m1;
          m3 = mouse_encoder_setopt_any_button_pressed g (gi_buttons_held gi \<noteq> 0) m2;
          m4 = mouse_encoder_setopt_track_last_cell g True m3
      in gi\<lparr>gi_mouse_encoder := m4\<rparr>)"

definition mouse_encode ::
    "('t, 'k, 'm) libghostty \<Rightarrow> ('k, 'm) ghostty_input \<Rightarrow> byte list option \<times> ('k, 'm) ghostty_input" where
  "mouse_encode g gi =
     (let (r, m) = mouse_encoder_encode g (gi_mouse_encoder gi) (gi_mouse_event gi)
      in (encoded r, gi\<lparr>gi_mouse_encoder := m\<rparr>))"

text \<open>\<open>1 << gbtn\<close> at the type of \<open>buttons_held\<close>, \<open>u8\<close>: a shift by eight or more panics in a build
  with overflow checks and shifts by the amount modulo eight in one without.\<close>

definition shl_one :: "bool \<Rightarrow> nat \<Rightarrow> byte option" where
  "shl_one checks n =
     (if n < 8 then Some (push_bit n 1) else if checks then None else Some (push_bit (n mod 8) 1))"

text \<open>A panic is \<open>None\<close>.\<close>

definition encode_mouse_button ::
    "bool \<Rightarrow> ('t, 'k, 'm) libghostty \<Rightarrow> u32 \<Rightarrow> bool \<Rightarrow> rat \<times> rat \<Rightarrow> gdk_modifier set \<Rightarrow> 't \<Rightarrow>
     u32 \<times> u32 \<Rightarrow> u32 \<times> u32 \<Rightarrow> ('k, 'm) ghostty_input \<Rightarrow>
     (byte list option \<times> ('k, 'm) ghostty_input) option" where
  "encode_mouse_button checks g gdk_button pressed pos modifier terminal screen_size cell_size gi =
     (let gbtn = gdk_button_to_ghostty gdk_button
      in if gbtn = GHOSTTY_MOUSE_BUTTON_UNKNOWN then Some (None, gi)
         else case shl_one checks gbtn of
           None \<Rightarrow> None
         | Some msk \<Rightarrow>
             let held = (if pressed then gi_buttons_held gi OR msk else gi_buttons_held gi AND NOT msk);
                 gi1 = sync_mouse_encoder g terminal screen_size cell_size (gi\<lparr>gi_buttons_held := held\<rparr>);
                 mods = gdk_mods_to_ghostty modifier 0;
                 action = (if pressed then GHOSTTY_MOUSE_ACTION_PRESS else GHOSTTY_MOUSE_ACTION_RELEASE);
                 ev = (gi_mouse_event gi1)\<lparr>me_action := action, me_button := Some gbtn, me_mods := mods,
                        me_position := (f32_of_f64 (fst pos), f32_of_f64 (snd pos))\<rparr>
             in Some (mouse_encode g (gi1\<lparr>gi_mouse_event := ev\<rparr>)))"

text \<open>The first held button, \<open>for i in 1..=7\<close>.\<close>

definition first_held :: "byte \<Rightarrow> nat option" where
  "first_held held = List.find (\<lambda>i. held AND push_bit i 1 \<noteq> 0) [1..<8]"

definition encode_mouse_motion ::
    "('t, 'k, 'm) libghostty \<Rightarrow> rat \<times> rat \<Rightarrow> gdk_modifier set \<Rightarrow> 't \<Rightarrow> u32 \<times> u32 \<Rightarrow> u32 \<times> u32 \<Rightarrow>
     ('k, 'm) ghostty_input \<Rightarrow> byte list option \<times> ('k, 'm) ghostty_input" where
  "encode_mouse_motion g pos modifier terminal screen_size cell_size gi =
     (if \<bar>f64_of_rat (fst pos - fst (gi_last_cursor_pos gi))\<bar> < 1/2
         \<and> \<bar>f64_of_rat (snd pos - snd (gi_last_cursor_pos gi))\<bar> < 1/2
      then (None, gi)
      else
        let gi1 = sync_mouse_encoder g terminal screen_size cell_size (gi\<lparr>gi_last_cursor_pos := pos\<rparr>);
            mods = gdk_mods_to_ghostty modifier 0;
            ev1 = (gi_mouse_event gi1)\<lparr>me_action := GHOSTTY_MOUSE_ACTION_MOTION, me_mods := mods,
                    me_position := (f32_of_f64 (fst pos), f32_of_f64 (snd pos))\<rparr>;
            ev2 = (if gi_buttons_held gi1 \<noteq> 0 then
                     case first_held (gi_buttons_held gi1) of
                       Some i \<Rightarrow> ev1\<lparr>me_button := Some i\<rparr>
                     | None \<Rightarrow> ev1
                   else ev1\<lparr>me_button := None\<rparr>)
        in mouse_encode g (gi1\<lparr>gi_mouse_event := ev2\<rparr>))"

datatype scroll_action = WriteBytes "byte list" | ScrollViewport int

definition encode_scroll ::
    "('t, 'k, 'm) libghostty \<Rightarrow> rat \<Rightarrow> rat \<times> rat \<Rightarrow> gdk_modifier set \<Rightarrow> 't \<Rightarrow> bool \<Rightarrow> u32 \<times> u32 \<Rightarrow>
     u32 \<times> u32 \<Rightarrow> ('k, 'm) ghostty_input \<Rightarrow> scroll_action \<times> ('k, 'm) ghostty_input" where
  "encode_scroll g dy pos modifier terminal mouse_tracking screen_size cell_size gi =
     (let rows = (if dy < 0 then - 3 else 3)
      in if mouse_tracking then
           let gi1 = sync_mouse_encoder g terminal screen_size cell_size gi;
               mods = gdk_mods_to_ghostty modifier 0;
               scroll_btn = (if dy < 0 then GHOSTTY_MOUSE_BUTTON_FOUR else GHOSTTY_MOUSE_BUTTON_FIVE);
               ev = (gi_mouse_event gi1)\<lparr>me_mods := mods,
                      me_position := (f32_of_f64 (fst pos), f32_of_f64 (snd pos)),
                      me_button := Some scroll_btn\<rparr>;
               (b1, gi2) = mouse_encode g
                 (gi1\<lparr>gi_mouse_event := ev\<lparr>me_action := GHOSTTY_MOUSE_ACTION_PRESS\<rparr>\<rparr>);
               (b2, gi3) = mouse_encode g
                 (gi2\<lparr>gi_mouse_event := (gi_mouse_event gi2)\<lparr>me_action := GHOSTTY_MOUSE_ACTION_RELEASE\<rparr>\<rparr>);
               result = (case b1 of Some b \<Rightarrow> b | None \<Rightarrow> []) @ (case b2 of Some b \<Rightarrow> b | None \<Rightarrow> [])
           in if result = [] then (ScrollViewport rows, gi3) else (WriteBytes result, gi3)
         else (ScrollViewport rows, gi))"

end
