(* ===== verification/KeysProps.thy ===== *)
theory KeysProps
  imports Keys
begin

unbundle bit_operations_syntax

section \<open>Properties of the key and mouse input\<close>

text \<open>
  What the encoders are given: every key event is within the ranges of \<open>ffi.rs\<close>, a press is
  reported as a repeat exactly if the key is down, the two tables that are keyed by the name of a
  key agree, a drag names the button that is held. The buttons beyond the seventh do not fit the
  mask of held buttons.
\<close>

subsection \<open>The tables\<close>

lemma map_of_all:
  assumes "map_of t k = Some v" "list_all (\<lambda>(_, v). P v) t"
  shows "P v"
  using map_of_SomeD[OF assms(1)] assms(2) by (auto simp: list_all_iff)

lemma tables_in_range:
  "list_all (\<lambda>(_, k). 0 < k \<and> k \<le> 175) (gdk_control_keys @ gdk_function_keys)"
  "list_all (\<lambda>(_, k). 0 < k \<and> k \<le> 175) keyname_table"
  "list_all (\<lambda>(_, k). 0 < k \<and> k \<le> 175) keycode_table"
  "list_all (\<lambda>(_, c). 32 < c \<and> c < 127) codepoint_table"
  by code_simp+

lemma keyname_range: "gdk_keyname_to_ghostty n \<in> {0..175}"
  using map_of_all[OF _ tables_in_range(2)]
  by (fastforce simp: gdk_keyname_to_ghostty_def split: option.split)

lemma keyval_range: "gdk_keyval_to_ghostty k \<in> {0..175}"
  using map_of_all[OF _ tables_in_range(1)] keyname_range
  by (fastforce simp: gdk_keyval_to_ghostty_def gdk_named_key_to_ghostty_def Let_def simp del: map_of_append
      split: option.splits)

lemma refined_range: "k \<in> {0..175} \<Longrightarrow> refine_key_with_keycode k c \<in> {0..175}"
  using map_of_all[OF _ tables_in_range(3)]
  by (fastforce simp: refine_key_with_keycode_def split: option.splits)

lemma codepoint_range: "unshifted_codepoint k = 0 \<or> 32 \<le> unshifted_codepoint k \<and> unshifted_codepoint k < 127"
  using map_of_all[OF _ tables_in_range(4)]
  by (auto simp: unshifted_codepoint_def less_imp_le split: option.splits)

text \<open>The character of each key of \<open>keyname_table\<close>.\<close>

definition key_characters :: "(int \<times> u32) list" where
  "key_characters = [
    (GHOSTTY_KEY_A, 97), (GHOSTTY_KEY_B, 98), (GHOSTTY_KEY_C, 99), (GHOSTTY_KEY_D, 100),
    (GHOSTTY_KEY_E, 101), (GHOSTTY_KEY_F, 102), (GHOSTTY_KEY_G, 103), (GHOSTTY_KEY_H, 104),
    (GHOSTTY_KEY_I, 105), (GHOSTTY_KEY_J, 106), (GHOSTTY_KEY_K, 107), (GHOSTTY_KEY_L, 108),
    (GHOSTTY_KEY_M, 109), (GHOSTTY_KEY_N, 110), (GHOSTTY_KEY_O, 111), (GHOSTTY_KEY_P, 112),
    (GHOSTTY_KEY_Q, 113), (GHOSTTY_KEY_R, 114), (GHOSTTY_KEY_S, 115), (GHOSTTY_KEY_T, 116),
    (GHOSTTY_KEY_U, 117), (GHOSTTY_KEY_V, 118), (GHOSTTY_KEY_W, 119), (GHOSTTY_KEY_X, 120),
    (GHOSTTY_KEY_Y, 121), (GHOSTTY_KEY_Z, 122), (GHOSTTY_KEY_DIGIT_0, 48),
    (GHOSTTY_KEY_DIGIT_1, 49), (GHOSTTY_KEY_DIGIT_2, 50), (GHOSTTY_KEY_DIGIT_3, 51),
    (GHOSTTY_KEY_DIGIT_4, 52), (GHOSTTY_KEY_DIGIT_5, 53), (GHOSTTY_KEY_DIGIT_6, 54),
    (GHOSTTY_KEY_DIGIT_7, 55), (GHOSTTY_KEY_DIGIT_8, 56), (GHOSTTY_KEY_DIGIT_9, 57),
    (GHOSTTY_KEY_MINUS, 45), (GHOSTTY_KEY_EQUAL, 61), (GHOSTTY_KEY_BRACKET_LEFT, 91),
    (GHOSTTY_KEY_BRACKET_RIGHT, 93), (GHOSTTY_KEY_BACKSLASH, 92), (GHOSTTY_KEY_SEMICOLON, 59),
    (GHOSTTY_KEY_QUOTE, 39), (GHOSTTY_KEY_COMMA, 44), (GHOSTTY_KEY_PERIOD, 46),
    (GHOSTTY_KEY_SLASH, 47), (GHOSTTY_KEY_BACKQUOTE, 96)]"

lemma tables_agree:
  "map_of codepoint_table n = (case map_of keyname_table n of None \<Rightarrow> None | Some k \<Rightarrow> map_of key_characters k)"
proof (cases "n \<in> set (map fst keyname_table @ map fst codepoint_table)")
  case True
  have "list_all (\<lambda>n. map_of codepoint_table n =
      (case map_of keyname_table n of None \<Rightarrow> None | Some k \<Rightarrow> map_of key_characters k))
      (map fst keyname_table @ map fst codepoint_table)"
    by code_simp
  then show ?thesis using True by (simp only: list_all_iff)
next
  case False
  then have "n \<notin> fst ` set keyname_table" "n \<notin> fst ` set codepoint_table" by auto
  then show ?thesis by (simp add: map_of_eq_None_iff[THEN iffD2])
qed

lemma key_characters_distinct: "distinct (map snd key_characters)"
  by code_simp

lemma keyname_table_has_characters: "list_all (\<lambda>(_, k). map_of key_characters k \<noteq> None) keyname_table"
  by code_simp

lemma map_of_snd_inj:
  assumes "distinct (map snd t)" "map_of t k = Some c" "map_of t l = Some c"
  shows "k = l"
proof -
  have inj: "inj_on snd (set t)" using assms(1) by (simp add: distinct_map)
  have "(k, c) = (l, c)"
    by (rule inj_onD[OF inj]) (simp_all add: map_of_SomeD[OF assms(2)] map_of_SomeD[OF assms(3)])
  then show ?thesis by simp
qed

text \<open>Every character of a keyboard is a printable one, so the table never gives 0.\<close>

lemma codepoint_nonzero: "map_of codepoint_table n = Some c \<Longrightarrow> c \<noteq> 0"
  using map_of_all[OF _ tables_in_range(4)] by fastforce

lemma codepoint_by_name:
  assumes "gk_name k = Some m" "m \<noteq> ''space''"
  shows "unshifted_codepoint k = (case map_of codepoint_table (name_lower m) of Some c \<Rightarrow> c | None \<Rightarrow> 0)"
  using assms by (simp add: unshifted_codepoint_def)

lemma codepoint_of_key:
  assumes "gk_name k = Some m" "m \<noteq> ''space''"
  shows "(map_of keyname_table (name_lower m) = None \<and> gdk_keyname_to_ghostty m = 0 \<and> unshifted_codepoint k = 0) \<or>
         (\<exists>g c. map_of keyname_table (name_lower m) = Some g \<and> gdk_keyname_to_ghostty m = g \<and> g \<noteq> 0 \<and>
            map_of key_characters g = Some c \<and> unshifted_codepoint k = c \<and> c \<noteq> 0)"
proof (cases "map_of keyname_table (name_lower m)")
  case None
  then show ?thesis
    by (simp add: codepoint_by_name[OF assms] tables_agree gdk_keyname_to_ghostty_def)
next
  case (Some g)
  then have "g \<noteq> 0" "map_of key_characters g \<noteq> None"
    using map_of_all[OF Some tables_in_range(2)] map_of_all[OF Some keyname_table_has_characters] by auto
  moreover then obtain c where c: "map_of key_characters g = Some c" by auto
  moreover have "map_of codepoint_table (name_lower m) = Some c" using Some c by (simp add: tables_agree)
  ultimately show ?thesis
    using Some codepoint_nonzero by (auto simp: codepoint_by_name[OF assms] gdk_keyname_to_ghostty_def)
qed

text \<open>
  The two tables keyed by the name of a key agree. Two names that are the same key for the
  encoder, such as \<open>semicolon\<close> and \<open>colon\<close>, have the same unshifted character, two names of
  different keys have different ones, and a name that is no key has none.
\<close>

theorem key_tables_agree:
  assumes "gk_name k = Some m" "m \<noteq> ''space''" "gk_name l = Some n" "n \<noteq> ''space''"
  shows "(gdk_keyname_to_ghostty m = gdk_keyname_to_ghostty n \<longleftrightarrow> unshifted_codepoint k = unshifted_codepoint l)
    \<and> (gdk_keyname_to_ghostty m = GHOSTTY_KEY_UNIDENTIFIED \<longleftrightarrow> unshifted_codepoint k = 0)"
  using codepoint_of_key[OF assms(1,2)] codepoint_of_key[OF assms(3,4)]
    map_of_snd_inj[OF key_characters_distinct]
  by (elim disjE exE conjE) auto

theorem key_tables_agree_witness:
  "unshifted_codepoint \<lparr>gk_name = Some ''colon'', gk_unicode = Some 58\<rparr> =
   unshifted_codepoint \<lparr>gk_name = Some ''semicolon'', gk_unicode = Some 59\<rparr>"
proof -
  have "gdk_keyname_to_ghostty ''colon'' = gdk_keyname_to_ghostty ''semicolon''" by code_simp
  then show ?thesis
    using key_tables_agree[of "\<lparr>gk_name = Some ''colon'', gk_unicode = Some 58\<rparr>" "''colon''"
        "\<lparr>gk_name = Some ''semicolon'', gk_unicode = Some 59\<rparr>" "''semicolon''"]
    by simp
qed

subsection \<open>Key events\<close>

lemma mods_range: "gdk_mods_to_ghostty st c AND NOT 0x3DF = 0"
  by (simp add: gdk_mods_to_ghostty_def Let_def)

text \<open>A Unicode scalar value, the values of a \<open>char\<close>.\<close>

definition scalar :: "nat \<Rightarrow> bool" where
  "scalar c \<longleftrightarrow> c < 0x110000 \<and> \<not> (0xD800 \<le> c \<and> c < 0xE000)"

lemma unat_bytes: "\<forall>x \<in> set xs. x < 256 \<Longrightarrow> map unat (map of_nat xs :: byte list) = xs"
  by (induction xs) (simp_all add: unat_of_nat)

lemma utf8_three:
  assumes "x < 16" "y < 64" "z < 64" "x = 0 \<Longrightarrow> 32 \<le> y" "x = 13 \<Longrightarrow> y < 32"
  shows "utf8_valid [224 + x, 128 + y, 128 + z]"
  using assms by auto

lemma utf8_four:
  assumes "w < 5" "x < 64" "y < 64" "z < 64" "w = 0 \<Longrightarrow> 16 \<le> x" "w = 4 \<Longrightarrow> x < 16"
  shows "utf8_valid [240 + w, 128 + x, 128 + y, 128 + z]"
  using assms by auto

lemma bytes_three:
  assumes "x < 16" "y < 64" "z < 64"
  shows "map unat (map of_nat [224 + x, 128 + y, 128 + z] :: byte list) = [224 + x, 128 + y, 128 + z]"
  using assms by (intro unat_bytes) simp

lemma bytes_four:
  assumes "w < 5" "x < 64" "y < 64" "z < 64"
  shows "map unat (map of_nat [240 + w, 128 + x, 128 + y, 128 + z] :: byte list) =
    [240 + w, 128 + x, 128 + y, 128 + z]"
  using assms by (intro unat_bytes) simp

lemma digit_below:
  fixes q :: nat
  assumes "q < 64 * n + m" "q div 64 = n"
  shows "q mod 64 < m"
  using assms minus_mod_eq_mult_div[of q 64] mod_less_eq_dividend[of q 64] by (simp add: mult.commute)

lemma utf8_bytes:
  assumes "scalar c"
  shows "encode_utf8 c \<noteq> []" "length (encode_utf8 c) \<le> 4" "utf8_valid (map unat (encode_utf8 c))"
proof -
  show "encode_utf8 c \<noteq> []" "length (encode_utf8 c) \<le> 4" by (simp_all add: encode_utf8_def)
  consider "c < 128" | "128 \<le> c" "c < 2048" | "2048 \<le> c" "c < 65536" | "65536 \<le> c" "c < 0x110000"
    using assms by (fastforce simp: scalar_def)
  then show "utf8_valid (map unat (encode_utf8 c))"
  proof cases
    case 1
    then show ?thesis by (simp add: encode_utf8_def unat_of_nat)
  next
    case 2
    then have e: "encode_utf8 c = map of_nat [192 + c div 64, 128 + c mod 64]" by (simp add: encode_utf8_def)
    have b: "2 \<le> c div 64" "c div 64 < 32" "c mod 64 < 64" using 2 by auto
    have "map unat (encode_utf8 c) = [192 + c div 64, 128 + c mod 64]"
      unfolding e using b by (intro unat_bytes) simp
    then show ?thesis using b by simp
  next
    case 3
    then have e: "encode_utf8 c = map of_nat [224 + c div 4096, 128 + c div 64 mod 64, 128 + c mod 64]"
      by (simp add: encode_utf8_def)
    have b: "c div 4096 < 16" "c div 64 mod 64 < 64" "c mod 64 < 64" using 3 by auto
    have "map unat (encode_utf8 c) = [224 + c div 4096, 128 + c div 64 mod 64, 128 + c mod 64]"
      unfolding e by (rule bytes_three[OF b])
    moreover have "c div 4096 = 0 \<Longrightarrow> 32 \<le> c div 64 mod 64" using 3 by simp
    moreover have "c div 64 mod 64 < 32" if "c div 4096 = 13"
    proof -
      have "c < 0xE000" using that by linarith
      then have "c < 0xD800" using assms unfolding scalar_def by linarith
      then have "c div 64 < 864" by linarith
      moreover have "c div 64 div 64 = 13" using that div_mult2_eq[of c 64 64] by simp
      ultimately show ?thesis using digit_below[of "c div 64" 13 32] by simp
    qed
    ultimately show ?thesis using utf8_three b by metis
  next
    case 4
    then have e: "encode_utf8 c = map of_nat
        [240 + c div 262144, 128 + c div 4096 mod 64, 128 + c div 64 mod 64, 128 + c mod 64]"
      by (simp add: encode_utf8_def)
    have b: "c div 262144 < 5" "c div 4096 mod 64 < 64" "c div 64 mod 64 < 64" "c mod 64 < 64"
      using 4 by auto
    have "map unat (encode_utf8 c) =
        [240 + c div 262144, 128 + c div 4096 mod 64, 128 + c div 64 mod 64, 128 + c mod 64]"
      unfolding e by (rule bytes_four[OF b])
    moreover have "c div 262144 = 0 \<Longrightarrow> 16 \<le> c div 4096 mod 64" using 4 by simp
    moreover have "c div 4096 mod 64 < 16" if "c div 262144 = 4"
    proof -
      have "c div 4096 < 272" using 4 by linarith
      moreover have "c div 4096 div 64 = 4" using that div_mult2_eq[of c 4096 64] by simp
      ultimately show ?thesis using digit_below[of "c div 4096" 4 16] by simp
    qed
    ultimately show ?thesis using utf8_four b by metis
  qed
qed

text \<open>The event that a call hands to the encoder stays in the input state.\<close>

definition key_event_ok :: "gdk_modifier set \<Rightarrow> key_event \<Rightarrow> bool" where
  "key_event_ok state e \<longleftrightarrow>
     ke_key e \<in> {0..175} \<and> ke_action e \<in> {0..2} \<and> ke_mods e AND NOT 0x3DF = 0 \<and>
     (ke_unshifted_codepoint e = 0 \<or> 32 \<le> ke_unshifted_codepoint e \<and> ke_unshifted_codepoint e < 127) \<and>
     ke_consumed_mods e = (if SHIFT_MASK \<in> state \<and> ke_unshifted_codepoint e \<noteq> 0 then 1 else 0) \<and>
     ke_consumed_mods e AND NOT (ke_mods e) = 0 \<and>
     \<not> ke_composing e \<and> length (ke_utf8 e) \<le> 4 \<and> utf8_valid (map unat (ke_utf8 e))"

lemma shift_bit: "gdk_mods_to_ghostty st c AND 1 \<noteq> 0 \<longleftrightarrow> SHIFT_MASK \<in> st"
  by (simp add: gdk_mods_to_ghostty_def Let_def)

lemma consumed_subset: "SHIFT_MASK \<in> st \<Longrightarrow> 1 AND NOT (gdk_mods_to_ghostty st c) = 0"
  by (simp add: gdk_mods_to_ghostty_def Let_def)

lemma key_text_ok:
  assumes "\<And>c. gk_unicode k = Some c \<Longrightarrow> scalar c"
  shows "length (key_text k b) \<le> 4" "utf8_valid (map unat (key_text k b))"
  using assms utf8_bytes by (auto simp: key_text_def split: option.split)

lemma inner_event:
  "gi_key_event (snd (encode_key_inner g k c st t a b gi)) =
     (gi_key_event gi)\<lparr>ke_key := refine_key_with_keycode (gdk_keyval_to_ghostty k) c, ke_action := a,
       ke_mods := gdk_mods_to_ghostty st c, ke_unshifted_codepoint := unshifted_codepoint k,
       ke_consumed_mods := (if unshifted_codepoint k \<noteq> 0 \<and> SHIFT_MASK \<in> st then 1 else 0),
       ke_composing := False, ke_utf8 := key_text k b\<rparr>"
  by (simp add: encode_key_inner_def Let_def shift_bit split: option.split)

lemma inner_event_ok:
  assumes "\<And>c. gk_unicode k = Some c \<Longrightarrow> scalar c" "a \<in> {0..2}"
  shows "key_event_ok st (gi_key_event (snd (encode_key_inner g k c st t a b gi)))"
proof -
  have "refine_key_with_keycode (gdk_keyval_to_ghostty k) c \<in> {0..175}"
    by (rule refined_range[OF keyval_range])
  moreover have "length (key_text k b) \<le> 4" "utf8_valid (map unat (key_text k b))"
    using key_text_ok[OF assms(1)] by blast+
  ultimately show ?thesis
    unfolding inner_event key_event_ok_def
    using assms(2) codepoint_range[of k] mods_range[of st c] consumed_subset[of st c] by simp
qed

text \<open>
  C33: every key event that is handed to the encoder has a key of the enumeration of \<open>ffi.rs\<close>, a
  mask of modifiers that uses no bit but those defined there, as unshifted character a printable
  ASCII character or none, shift consumed exactly if it is held and there is such a character, and
  as text at most four bytes of valid UTF-8; a release carries no text.
\<close>

theorem key_events_well_typed:
  assumes "\<And>ch. gk_unicode keyval = Some ch \<Longrightarrow> scalar ch"
  shows "key_event_ok st (gi_key_event (snd (encode_key_press g keyval keycode st t gi)))
    \<and> key_event_ok st (gi_key_event (snd (encode_key_release g keyval keycode st t gi)))
    \<and> ke_utf8 (gi_key_event (snd (encode_key_release g keyval keycode st t gi))) = []"
proof (intro conjI)
  show "key_event_ok st (gi_key_event (snd (encode_key_press g keyval keycode st t gi)))"
    "key_event_ok st (gi_key_event (snd (encode_key_release g keyval keycode st t gi)))"
    unfolding encode_key_press_def encode_key_release_def Let_def
    by (rule inner_event_ok[OF assms]; simp)+
  show "ke_utf8 (gi_key_event (snd (encode_key_release g keyval keycode st t gi))) = []"
    by (simp add: encode_key_release_def inner_event key_text_def)
qed

subsection \<open>Runs\<close>

text \<open>The calls a pane makes, in any order. A run stops with \<open>None\<close> at a panic.\<close>

datatype 't input_call =
    KeyDown gdk_key u32 "gdk_modifier set" 't
  | KeyUp gdk_key u32 "gdk_modifier set" 't
  | Button u32 bool "rat \<times> rat" "gdk_modifier set" 't "u32 \<times> u32" "u32 \<times> u32"
  | Motion "rat \<times> rat" "gdk_modifier set" 't "u32 \<times> u32" "u32 \<times> u32"
  | Scroll rat "rat \<times> rat" "gdk_modifier set" 't bool "u32 \<times> u32" "u32 \<times> u32"

fun do_call ::
    "bool \<Rightarrow> ('t, 'k, 'm) libghostty \<Rightarrow> 't input_call \<Rightarrow> ('k, 'm) ghostty_input \<Rightarrow>
     ('k, 'm) ghostty_input option" where
  "do_call ck g (KeyDown k c st t) gi = Some (snd (encode_key_press g k c st t gi))"
| "do_call ck g (KeyUp k c st t) gi = Some (snd (encode_key_release g k c st t gi))"
| "do_call ck g (Button n b pos st t sz cell) gi =
     map_option snd (encode_mouse_button ck g n b pos st t sz cell gi)"
| "do_call ck g (Motion pos st t sz cell) gi = Some (snd (encode_mouse_motion g pos st t sz cell gi))"
| "do_call ck g (Scroll dy pos st t trk sz cell) gi =
     Some (snd (encode_scroll g dy pos st t trk sz cell gi))"

fun input_run ::
    "bool \<Rightarrow> ('t, 'k, 'm) libghostty \<Rightarrow> 't input_call list \<Rightarrow> ('k, 'm) ghostty_input \<Rightarrow>
     ('k, 'm) ghostty_input option" where
  "input_run ck g [] gi = Some gi"
| "input_run ck g (c # cs) gi = Option.bind (do_call ck g c gi) (input_run ck g cs)"

lemma input_run_snoc: "input_run ck g (cs @ [c]) gi = Option.bind (input_run ck g cs gi) (do_call ck g c)"
  by (induction cs arbitrary: gi) (simp_all split: Option.bind_splits)

text \<open>What the calls say about the keyboard and the mouse: the key with a hardware code is down if
  the last call about it was a press, and so is a button.\<close>

fun key_is_down :: "u32 \<Rightarrow> bool \<Rightarrow> 't input_call list \<Rightarrow> bool" where
  "key_is_down c d [] = d"
| "key_is_down c d (KeyDown _ c' _ _ # cs) = key_is_down c (c = c' \<or> d) cs"
| "key_is_down c d (KeyUp _ c' _ _ # cs) = key_is_down c (d \<and> c \<noteq> c') cs"
| "key_is_down c d (_ # cs) = key_is_down c d cs"

fun button_is_down :: "nat \<Rightarrow> bool \<Rightarrow> 't input_call list \<Rightarrow> bool" where
  "button_is_down i d [] = d"
| "button_is_down i d (Button n b _ _ _ _ _ # cs) =
     button_is_down i (if gdk_button_to_ghostty n = i then b else d) cs"
| "button_is_down i d (_ # cs) = button_is_down i d cs"

subsubsection \<open>Repeats\<close>

lemma inner_frame [simp]:
  "gi_pressed_keys (snd (encode_key_inner g k c st t a b gi)) = gi_pressed_keys gi"
  "gi_buttons_held (snd (encode_key_inner g k c st t a b gi)) = gi_buttons_held gi"
  by (simp_all add: encode_key_inner_def Let_def split: option.split)

lemma mouse_frame [simp]:
  "gi_pressed_keys (sync_mouse_encoder g t sz cell gi) = gi_pressed_keys gi"
  "gi_buttons_held (sync_mouse_encoder g t sz cell gi) = gi_buttons_held gi"
  "gi_mouse_event (sync_mouse_encoder g t sz cell gi) = gi_mouse_event gi"
  "gi_pressed_keys (snd (mouse_encode g gi)) = gi_pressed_keys gi"
  "gi_buttons_held (snd (mouse_encode g gi)) = gi_buttons_held gi"
  "gi_mouse_event (snd (mouse_encode g gi)) = gi_mouse_event gi"
  by (simp_all add: sync_mouse_encoder_def mouse_encode_def Let_def split: prod.split)

lemma motion_frame [simp]:
  "gi_pressed_keys (snd (encode_mouse_motion g pos st t sz cell gi)) = gi_pressed_keys gi"
  "gi_buttons_held (snd (encode_mouse_motion g pos st t sz cell gi)) = gi_buttons_held gi"
  by (simp_all add: encode_mouse_motion_def Let_def)

lemma scroll_frame [simp]:
  "gi_pressed_keys (snd (encode_scroll g dy pos st t trk sz cell gi)) = gi_pressed_keys gi"
  "gi_buttons_held (snd (encode_scroll g dy pos st t trk sz cell gi)) = gi_buttons_held gi"
  by (simp_all add: encode_scroll_def Let_def case_prod_beta)

lemma button_frame:
  assumes "encode_mouse_button ck g n b pos st t sz cell gi = Some (r, gi')"
  shows "gi_pressed_keys gi' = gi_pressed_keys gi"
  using assms mouse_frame(4)[of g] 
  by (auto simp: encode_mouse_button_def Let_def mouse_encode_def sync_mouse_encoder_def
      split: if_splits option.splits prod.splits)

lemma press_frame [simp]:
  "gi_pressed_keys (snd (encode_key_press g k c st t gi)) = insert c (gi_pressed_keys gi)"
  "gi_buttons_held (snd (encode_key_press g k c st t gi)) = gi_buttons_held gi"
  "gi_pressed_keys (snd (encode_key_release g k c st t gi)) = gi_pressed_keys gi - {c}"
  "gi_buttons_held (snd (encode_key_release g k c st t gi)) = gi_buttons_held gi"
  by (auto simp: encode_key_press_def encode_key_release_def Let_def)

lemma run_pressed_keys:
  assumes "input_run ck g cs gi = Some gi'"
  shows "c \<in> gi_pressed_keys gi' \<longleftrightarrow> key_is_down c (c \<in> gi_pressed_keys gi) cs"
  using assms
proof (induction cs arbitrary: gi)
  case (Cons x cs)
  then obtain gi1 where g1: "do_call ck g x gi = Some gi1" "input_run ck g cs gi1 = Some gi'"
    by (auto split: Option.bind_splits)
  note IH = Cons.IH[OF g1(2)]
  show ?case
    using g1(1) IH
    by (cases x) (auto simp: button_frame)
qed simp

text \<open>
  C34: after any calls to a new input state, a press is handed to the encoder as a repeat exactly
  if the key is down, that is, if the last call about its hardware code was a press, and as a press
  otherwise.
\<close>

theorem repeat_iff_key_is_down:
  assumes "input_run ck g cs (ghostty_input_new ke kv me mv) = Some gi"
  shows "ke_action (gi_key_event (snd (encode_key_press g keyval keycode st t gi))) =
    (if key_is_down keycode False cs then GHOSTTY_KEY_ACTION_REPEAT else GHOSTTY_KEY_ACTION_PRESS)"
  using run_pressed_keys[OF assms, of keycode]
  by (simp add: encode_key_press_def Let_def inner_event ghostty_input_new_def)

subsubsection \<open>Buttons\<close>

definition small_buttons :: "'t input_call list \<Rightarrow> bool" where
  "small_buttons cs \<longleftrightarrow>
     list_all (\<lambda>c. case c of Button n _ _ _ _ _ _ \<Rightarrow> gdk_button_to_ghostty n < 8 | _ \<Rightarrow> True) cs"

lemma button_result:
  assumes "gdk_button_to_ghostty n < 8"
  obtains r gi' where "encode_mouse_button ck g n b pos st t sz cell gi = Some (r, gi')"
    "gi_buttons_held gi' =
      (let i = gdk_button_to_ghostty n in
       if i = 0 then gi_buttons_held gi
       else if b then gi_buttons_held gi OR push_bit i 1 else gi_buttons_held gi AND NOT (push_bit i 1))"
proof (cases "gdk_button_to_ghostty n = 0")
  case True
  then have "encode_mouse_button ck g n b pos st t sz cell gi = Some (None, gi)"
    by (simp add: encode_mouse_button_def)
  then show ?thesis using that True by (simp add: Let_def)
next
  case False
  define res where "res = encode_mouse_button ck g n b pos st t sz cell gi"
  have "\<exists>r gi'. res = Some (r, gi') \<and> gi_buttons_held gi' =
      (if b then gi_buttons_held gi OR push_bit (gdk_button_to_ghostty n) 1
       else gi_buttons_held gi AND NOT (push_bit (gdk_button_to_ghostty n) 1))"
    using False assms
    by (simp add: res_def encode_mouse_button_def Let_def shl_one_def mouse_encode_def sync_mouse_encoder_def
        split: prod.split)
  then show ?thesis using that False unfolding res_def by (auto simp: Let_def)
qed

lemma bit_after_button:
  assumes "gdk_button_to_ghostty n < 8" "encode_mouse_button ck g n b pos st t sz cell gi = Some (r, gi')" "i < 8"
  shows "bit (gi_buttons_held gi') i \<longleftrightarrow>
    (if gdk_button_to_ghostty n = i \<and> i \<noteq> 0 then b else bit (gi_buttons_held gi) i)"
proof -
  obtain r' gi'' where e: "encode_mouse_button ck g n b pos st t sz cell gi = Some (r', gi'')"
    "gi_buttons_held gi'' =
      (let i = gdk_button_to_ghostty n in
       if i = 0 then gi_buttons_held gi
       else if b then gi_buttons_held gi OR push_bit i 1 else gi_buttons_held gi AND NOT (push_bit i 1))"
    using button_result[OF assms(1)] by metis
  then have [simp]: "gi'' = gi'" using assms(2) by simp
  show ?thesis using e(2) assms(1,3) by (auto simp: Let_def bit_simps)
qed

lemma run_buttons:
  assumes "small_buttons cs"
  obtains gi' where "input_run ck g cs gi = Some gi'"
    "\<And>i. i < 8 \<Longrightarrow> bit (gi_buttons_held gi') i \<longleftrightarrow>
      (if i = 0 then bit (gi_buttons_held gi) i else button_is_down i (bit (gi_buttons_held gi) i) cs)"
  using assms
proof (induction cs arbitrary: gi thesis)
  case Nil
  show ?case by (rule Nil(1)[of gi]) simp_all
next
  case (Cons x cs)
  have sm: "small_buttons cs" using Cons.prems(2) by (simp add: small_buttons_def)
  have "\<exists>gi1. do_call ck g x gi = Some gi1 \<and>
      (\<forall>i<8. i \<noteq> 0 \<longrightarrow> button_is_down i (bit (gi_buttons_held gi1) i) cs =
          button_is_down i (bit (gi_buttons_held gi) i) (x # cs)) \<and>
      bit (gi_buttons_held gi1) 0 = bit (gi_buttons_held gi) 0"
  proof (cases x)
    case (Button n b pos st t sz cell)
    then have n: "gdk_button_to_ghostty n < 8" using Cons.prems(2) by (simp add: small_buttons_def)
    then obtain r gi1 where e: "encode_mouse_button ck g n b pos st t sz cell gi = Some (r, gi1)"
      using button_result[OF n] by metis
    show ?thesis
      by (rule exI[of _ gi1]) (simp add: Button e bit_after_button[OF n e])
  qed simp_all
  then obtain gi1 where g1: "do_call ck g x gi = Some gi1"
    "\<And>i. i < 8 \<Longrightarrow> i \<noteq> 0 \<Longrightarrow> button_is_down i (bit (gi_buttons_held gi1) i) cs =
        button_is_down i (bit (gi_buttons_held gi) i) (x # cs)"
    "bit (gi_buttons_held gi1) 0 = bit (gi_buttons_held gi) 0"
    by blast
  obtain gi' where g': "input_run ck g cs gi1 = Some gi'"
    "\<And>i. i < 8 \<Longrightarrow> bit (gi_buttons_held gi') i \<longleftrightarrow>
      (if i = 0 then bit (gi_buttons_held gi1) i else button_is_down i (bit (gi_buttons_held gi1) i) cs)"
    using Cons.IH[OF _ sm] by metis
  show ?case
    by (rule Cons.prems(1)[of gi']) (use g1 g' in auto)
qed

lemma motion_event:
  assumes "\<not> (\<bar>f64_of_rat (fst pos - fst (gi_last_cursor_pos gi))\<bar> < 1/2 \<and>
             \<bar>f64_of_rat (snd pos - snd (gi_last_cursor_pos gi))\<bar> < 1/2)"
  shows "me_button (gi_mouse_event (snd (encode_mouse_motion g pos st t sz cell gi))) =
    (if gi_buttons_held gi = 0 then None
     else case first_held (gi_buttons_held gi) of Some i \<Rightarrow> Some i | None \<Rightarrow> me_button (gi_mouse_event gi))"
    "me_action (gi_mouse_event (snd (encode_mouse_motion g pos st t sz cell gi))) = GHOSTTY_MOUSE_ACTION_MOTION"
  using assms by (auto simp: encode_mouse_motion_def Let_def split: option.split)

lemma find_cong_set: "(\<And>x. x \<in> set xs \<Longrightarrow> P x = Q x) \<Longrightarrow> List.find P xs = List.find Q xs"
  by (induction xs) auto

text \<open>
  As long as only the first seven buttons are used, no call panics, with or without overflow
  checks, and a motion that is not dropped is handed to the encoder with the first button that is
  down, in the order of ghostty, and without a button when none is down.
\<close>

theorem drag_names_held_button:
  assumes "small_buttons cs"
  shows "\<exists>gi. input_run ck g cs (ghostty_input_new ke kv me mv) = Some gi \<and>
    (\<forall>pos st t sz cell.
       1/2 \<le> max \<bar>f64_of_rat (fst pos - fst (gi_last_cursor_pos gi))\<bar>
                 \<bar>f64_of_rat (snd pos - snd (gi_last_cursor_pos gi))\<bar> \<longrightarrow>
       me_button (gi_mouse_event (snd (encode_mouse_motion g pos st t sz cell gi))) =
         List.find (\<lambda>i. button_is_down i False cs) [1..<8])"
proof -
  obtain gi where gi0: "input_run ck g cs (ghostty_input_new ke kv me mv) = Some gi"
    "\<And>i. i < 8 \<Longrightarrow> bit (gi_buttons_held gi) i \<longleftrightarrow>
       (if i = 0 then bit (gi_buttons_held (ghostty_input_new ke kv me mv)) i
        else button_is_down i (bit (gi_buttons_held (ghostty_input_new ke kv me mv)) i) cs)"
    using run_buttons[OF assms, of ck g "ghostty_input_new ke kv me mv"] by metis
  have gi: "input_run ck g cs (ghostty_input_new ke kv me mv) = Some gi"
    "\<And>i. i < 8 \<Longrightarrow> bit (gi_buttons_held gi) i \<longleftrightarrow> i \<noteq> 0 \<and> button_is_down i False cs"
    using gi0 by (simp_all add: ghostty_input_new_def)
  have find: "first_held (gi_buttons_held gi) = List.find (\<lambda>i. button_is_down i False cs) [1..<8]"
    unfolding first_held_def using gi(2)
    by (intro find_cong_set) (auto simp: bit_iff_and_push_bit_not_eq_0)
  have zero: "gi_buttons_held gi = 0 \<longleftrightarrow> List.find (\<lambda>i. button_is_down i False cs) [1..<8] = None"
  proof
    assume "gi_buttons_held gi = 0"
    then show "List.find (\<lambda>i. button_is_down i False cs) [1..<8] = None"
      using gi(2) by (auto simp: find_None_iff)
  next
    assume none: "List.find (\<lambda>i. button_is_down i False cs) [1..<8] = None"
    show "gi_buttons_held gi = 0"
    proof (rule bit_word_eqI)
      fix i assume "i < LENGTH(8)"
      then show "bit (gi_buttons_held gi) i \<longleftrightarrow> bit (0 :: byte) i"
        using none gi(2)[of i] by (auto simp: find_None_iff)
    qed
  qed
  have "me_button (gi_mouse_event (snd (encode_mouse_motion g pos st t sz cell gi))) =
      List.find (\<lambda>i. button_is_down i False cs) [1..<8]"
    if "1/2 \<le> max \<bar>f64_of_rat (fst pos - fst (gi_last_cursor_pos gi))\<bar>
                 \<bar>f64_of_rat (snd pos - snd (gi_last_cursor_pos gi))\<bar>" for pos st t sz cell
  proof -
    have "\<not> (\<bar>f64_of_rat (fst pos - fst (gi_last_cursor_pos gi))\<bar> < 1/2 \<and>
             \<bar>f64_of_rat (snd pos - snd (gi_last_cursor_pos gi))\<bar> < 1/2)"
      using that by linarith
    note m = motion_event(1)[OF this, of g st t sz cell]
    show ?thesis
    proof (cases "gi_buttons_held gi = 0")
      case True
      then have "List.find (\<lambda>i. button_is_down i False cs) [1..<8] = None" using zero by blast
      then show ?thesis by (simp add: m True)
    next
      case False
      then obtain i where "List.find (\<lambda>i. button_is_down i False cs) [1..<8] = Some i" using zero by blast
      then show ?thesis by (simp add: m False find)
    qed
  qed
  then show ?thesis using gi(1) by blast
qed

lemma shl_one_big: "8 \<le> n \<Longrightarrow> shl_one True n = None" "8 \<le> n \<Longrightarrow> shl_one False n = Some (push_bit (n mod 8) 1)"
  by (simp_all add: shl_one_def)

lemma side_button_cases:
  assumes "gdk_button_to_ghostty n = 8 + i" "i < 4"
  shows "encode_mouse_button True g n b pos st t sz cell gi = None"
    and "\<exists>r gi'. encode_mouse_button False g n b pos st t sz cell gi = Some (r, gi') \<and>
           (\<forall>j < 8. bit (gi_buttons_held gi') j \<longleftrightarrow> (if j = i then b else bit (gi_buttons_held gi) j))"
proof -
  show "encode_mouse_button True g n b pos st t sz cell gi = None"
    using assms(1) by (simp add: encode_mouse_button_def shl_one_big)
  have sh: "shl_one False (8 + i) = Some (push_bit i 1)" using assms(2) by (simp add: shl_one_big)
  define res where "res = encode_mouse_button False g n b pos st t sz cell gi"
  have "\<exists>r gi'. res = Some (r, gi') \<and> gi_buttons_held gi' =
      (if b then gi_buttons_held gi OR push_bit i 1 else gi_buttons_held gi AND NOT (push_bit i 1))"
    by (simp add: res_def encode_mouse_button_def assms(1) sh Let_def mouse_encode_def sync_mouse_encoder_def
        split: prod.split)
  then show "\<exists>r gi'. encode_mouse_button False g n b pos st t sz cell gi = Some (r, gi') \<and>
      (\<forall>j < 8. bit (gi_buttons_held gi') j \<longleftrightarrow> (if j = i then b else bit (gi_buttons_held gi) j))"
    unfolding res_def using assms(2) by (auto simp: bit_simps)
qed

text \<open>
  The eighth and the later buttons, such as the two on the side of a mouse, do not fit the
  mask. With overflow checks a press of one panics. Without them the ninth, tenth and eleventh count
  as the left, right and middle button: while one is held a motion is reported as a drag with that
  button, and releasing it ends the drag of a button that is still held.
\<close>

theorem side_buttons_alias:
  assumes "gdk_button_to_ghostty n = 8 + i" "i < 4"
  shows "encode_mouse_button True g n b pos st t sz cell gi = None \<and>
    (\<exists>r gi'. encode_mouse_button False g n b pos st t sz cell gi = Some (r, gi') \<and>
       (\<forall>j < 8. bit (gi_buttons_held gi') j \<longleftrightarrow> (if j = i then b else bit (gi_buttons_held gi) j)))"
  by (rule conjI[OF side_button_cases[OF assms]])

subsection \<open>Witnesses\<close>

text \<open>A library that encodes nothing, with trivial states, is enough to run the calls.\<close>

definition mute_ghostty :: "(unit, unit, unit) libghostty" where
  "mute_ghostty =
     \<lparr>key_encoder_setopt_from_terminal = (\<lambda>_ k. k), key_encoder_encode = (\<lambda>_ _. (0, [])),
      mouse_encoder_setopt_from_terminal = (\<lambda>_ m. m), mouse_encoder_setopt_size = (\<lambda>_ _ m. m),
      mouse_encoder_setopt_any_button_pressed = (\<lambda>_ m. m), mouse_encoder_setopt_track_last_cell = (\<lambda>_ m. m),
      mouse_encoder_encode = (\<lambda>m _. ((0, []), m)), ghostty_focus_encode = (\<lambda>_. (0, []))\<rparr>"

definition blank_key_event :: key_event where
  "blank_key_event = \<lparr>ke_key = 0, ke_action = 0, ke_mods = 0, ke_unshifted_codepoint = 0,
     ke_consumed_mods = 0, ke_composing = False, ke_utf8 = []\<rparr>"

definition blank_mouse_event :: mouse_event where
  "blank_mouse_event = \<lparr>me_action = 0, me_button = None, me_mods = 0, me_position = (Finite 0, Finite 0)\<rparr>"

definition key_a :: gdk_key where
  "key_a = \<lparr>gk_name = Some ''A'', gk_unicode = Some 65\<rparr>"

theorem key_events_well_typed_witness:
  "key_event_ok {SHIFT_MASK} (gi_key_event (snd (encode_key_press mute_ghostty key_a 38 {SHIFT_MASK} ()
     (ghostty_input_new () blank_key_event () blank_mouse_event))))"
  using key_events_well_typed[of key_a "{SHIFT_MASK}" mute_ghostty 38 "()"
      "ghostty_input_new () blank_key_event () blank_mouse_event"]
  by (simp add: key_a_def scalar_def)

definition held_a :: "unit input_call list" where
  "held_a = [KeyDown key_a 38 {} (), KeyDown key_a 38 {} (), KeyUp key_a 38 {} (), KeyDown key_a 38 {} ()]"

theorem repeat_iff_key_is_down_witness:
  "\<exists>gi. input_run True mute_ghostty held_a (ghostty_input_new () blank_key_event () blank_mouse_event) = Some gi
     \<and> ke_action (gi_key_event (snd (encode_key_press mute_ghostty key_a 38 {} () gi))) = GHOSTTY_KEY_ACTION_REPEAT
     \<and> ke_action (gi_key_event (snd (encode_key_press mute_ghostty key_a 39 {} () gi))) = GHOSTTY_KEY_ACTION_PRESS"
proof -
  obtain gi where gi: "input_run True mute_ghostty held_a
      (ghostty_input_new () blank_key_event () blank_mouse_event) = Some gi"
    by (simp add: held_a_def)
  show ?thesis
    using gi repeat_iff_key_is_down[OF gi] by (auto simp: held_a_def)
qed

definition left_drag :: "unit input_call list" where
  "left_drag = [Button 1 True (3, 4) {} () (800, 600) (8, 16), Button 3 True (3, 4) {} () (800, 600) (8, 16),
     Button 1 False (3, 4) {} () (800, 600) (8, 16)]"

theorem drag_names_held_button_witness:
  "(\<exists>gi. input_run True mute_ghostty left_drag (ghostty_input_new () blank_key_event () blank_mouse_event) = Some gi)
   \<and> List.find (\<lambda>i. button_is_down i False left_drag) [1..<8] = Some GHOSTTY_MOUSE_BUTTON_RIGHT"
proof (intro conjI)
  have "small_buttons left_drag" by (simp add: small_buttons_def left_drag_def gdk_button_to_ghostty_def)
  then show "\<exists>gi. input_run True mute_ghostty left_drag
      (ghostty_input_new () blank_key_event () blank_mouse_event) = Some gi"
    using drag_names_held_button[of left_drag True mute_ghostty "()" blank_key_event "()" blank_mouse_event] by blast
  show "List.find (\<lambda>i. button_is_down i False left_drag) [1..<8] = Some GHOSTTY_MOUSE_BUTTON_RIGHT"
    by (simp add: left_drag_def gdk_button_to_ghostty_def upt_conv_Cons)
qed

theorem side_buttons_alias_witness:
  "encode_mouse_button True mute_ghostty 9 True (0, 0) {} () (800, 600) (8, 16)
     (ghostty_input_new () blank_key_event () blank_mouse_event) = None \<and>
   (\<exists>r gi'. encode_mouse_button False mute_ghostty 9 True (0, 0) {} () (800, 600) (8, 16)
     (ghostty_input_new () blank_key_event () blank_mouse_event) = Some (r, gi') \<and> bit (gi_buttons_held gi') 1)"
proof -
  have b: "gdk_button_to_ghostty 9 = 8 + 1" by (simp add: gdk_button_to_ghostty_def)
  then show ?thesis
    using side_buttons_alias[OF b, of mute_ghostty True "(0, 0)" "{}" "()" "(800, 600)" "(8, 16)"
        "ghostty_input_new () blank_key_event () blank_mouse_event"]
    by fastforce
qed

end
