(* ===== verification/Grid.thy ===== *)
theory Grid
  imports Keys
begin

unbundle bit_operations_syntax

section \<open>The screen of a terminal\<close>

text \<open>
  \<open>screen.rs\<close>, the grid of cells with its generation counters, \<open>selection.rs\<close>, and \<open>sync_screen\<close>
  of \<open>terminal.rs\<close> in \<open>forgetty-vt\<close>, which copies the render state of libghostty into the grid.
  A text is the list of its code points. An index out of range is a panic, \<open>None\<close>. The render state,
  which C functions return piece by piece, is a record.
\<close>

type_synonym char_text = "nat list"

subsection \<open>Cells\<close>

datatype color = DefaultColor | Rgb byte byte byte

record cell_attributes =
  ca_fg :: color
  ca_bg :: color
  ca_bold :: bool
  ca_italic :: bool
  ca_underline :: bool
  ca_strikethrough :: bool
  ca_inverse :: bool
  ca_dim :: bool

definition default_attributes :: cell_attributes where
  "default_attributes = \<lparr>ca_fg = DefaultColor, ca_bg = DefaultColor, ca_bold = False, ca_italic = False,
     ca_underline = False, ca_strikethrough = False, ca_inverse = False, ca_dim = False\<rparr>"

record cell =
  ce_grapheme :: char_text
  ce_attrs :: cell_attributes

definition default_cell :: cell where
  "default_cell = \<lparr>ce_grapheme = [32], ce_attrs = default_attributes\<rparr>"

definition update_grapheme :: "char_text \<Rightarrow> cell \<Rightarrow> bool \<times> cell" where
  "update_grapheme g c = (if ce_grapheme c = g then (False, c) else (True, c\<lparr>ce_grapheme := g\<rparr>))"

definition update_in_place :: "char_text \<Rightarrow> cell_attributes \<Rightarrow> cell \<Rightarrow> bool \<times> cell" where
  "update_in_place g attrs c =
     (let (grapheme_changed, c1) = update_grapheme g c;
          attrs_changed = (ce_attrs c1 \<noteq> attrs);
          c2 = (if attrs_changed then c1\<lparr>ce_attrs := attrs\<rparr> else c1)
      in (grapheme_changed \<or> attrs_changed, c2))"

subsection \<open>The grid\<close>

record screen =
  sn_cells :: "cell list list"
  sn_rows :: nat
  sn_cols :: nat
  sn_row_generations :: "nat list"
  sn_generation :: nat
  sn_row_wraps :: "bool list"

definition screen_new :: "nat \<Rightarrow> nat \<Rightarrow> screen" where
  "screen_new rows cols =
     \<lparr>sn_cells = replicate rows (replicate cols default_cell), sn_rows = rows, sn_cols = cols,
      sn_row_generations = replicate rows 0, sn_generation = 0, sn_row_wraps = replicate rows False\<rparr>"

text \<open>\<open>Vec::resize\<close> and \<open>resize_with\<close>.\<close>

definition vec_resize :: "nat \<Rightarrow> 'a \<Rightarrow> 'a list \<Rightarrow> 'a list" where
  "vec_resize n x xs = take n xs @ replicate (n - length xs) x"

definition screen_row :: "nat \<Rightarrow> screen \<Rightarrow> cell list option" where
  "screen_row r s = vec_get (sn_cells s) r"

definition screen_cell :: "nat \<Rightarrow> nat \<Rightarrow> screen \<Rightarrow> cell option" where
  "screen_cell r c s = Option.bind (vec_get (sn_cells s) r) (\<lambda>row. vec_get row c)"

definition set_cell :: "nat \<Rightarrow> nat \<Rightarrow> cell \<Rightarrow> screen \<Rightarrow> screen option" where
  "set_cell r c x s =
     (let g = sn_generation s + 1
      in if r < length (sn_cells s) \<and> c < length (sn_cells s ! r) \<and> r < length (sn_row_generations s)
         then Some (s\<lparr>sn_generation := g, sn_cells := (sn_cells s)[r := (sn_cells s ! r)[c := x]],
                      sn_row_generations := (sn_row_generations s)[r := g]\<rparr>)
         else None)"

definition screen_resize :: "nat \<Rightarrow> nat \<Rightarrow> screen \<Rightarrow> screen" where
  "screen_resize rows cols s =
     (let cells1 = map (vec_resize cols default_cell) (sn_cells s);
          cells2 = vec_resize rows (replicate cols default_cell) cells1
      in s\<lparr>sn_cells := cells2, sn_row_generations := vec_resize rows 0 (sn_row_generations s),
           sn_row_wraps := vec_resize rows False (sn_row_wraps s), sn_rows := rows, sn_cols := cols,
           sn_generation := sn_generation s + 1\<rparr>)"

definition row_dirty_since :: "nat \<Rightarrow> nat \<Rightarrow> screen \<Rightarrow> bool option" where
  "row_dirty_since r since s = map_option (\<lambda>g. g > since) (vec_get (sn_row_generations s) r)"

definition is_row_wrapped :: "nat \<Rightarrow> screen \<Rightarrow> bool" where
  "is_row_wrapped r s = (case vec_get (sn_row_wraps s) r of Some b \<Rightarrow> b | None \<Rightarrow> False)"

definition set_row_wrap :: "nat \<Rightarrow> bool \<Rightarrow> screen \<Rightarrow> screen" where
  "set_row_wrap r w s =
     (if r < length (sn_row_wraps s) then s\<lparr>sn_row_wraps := (sn_row_wraps s)[r := w]\<rparr> else s)"

definition update_cell_in_place ::
    "nat \<Rightarrow> nat \<Rightarrow> char_text \<Rightarrow> cell_attributes \<Rightarrow> screen \<Rightarrow> screen option" where
  "update_cell_in_place r c g attrs s =
     (if r < length (sn_cells s) \<and> c < length (sn_cells s ! r) then
        let (changed, x) = update_in_place g attrs (sn_cells s ! r ! c);
            s1 = s\<lparr>sn_cells := (sn_cells s)[r := (sn_cells s ! r)[c := x]]\<rparr>
        in if changed then
             let gen = sn_generation s + 1
             in if r < length (sn_row_generations s)
                then Some (s1\<lparr>sn_generation := gen, sn_row_generations := (sn_row_generations s)[r := gen]\<rparr>)
                else None
           else Some s1
      else None)"

text \<open>The two branches of \<open>ensure_capacity\<close>, push until long enough and truncate, are those of a
  resize; the generation stays.\<close>

definition grow_or_truncate :: "nat \<Rightarrow> 'a \<Rightarrow> 'a list \<Rightarrow> 'a list" where
  "grow_or_truncate n x xs =
     (if length xs < n then xs @ replicate (n - length xs) x
      else if length xs > n then take n xs else xs)"

definition ensure_capacity :: "nat \<Rightarrow> nat \<Rightarrow> screen \<Rightarrow> screen" where
  "ensure_capacity rows cols s =
     (let cells1 = map (grow_or_truncate cols default_cell) (sn_cells s);
          cells2 = grow_or_truncate rows (replicate cols default_cell) cells1
      in s\<lparr>sn_cells := cells2, sn_row_generations := vec_resize rows 0 (sn_row_generations s),
           sn_row_wraps := vec_resize rows False (sn_row_wraps s), sn_rows := rows, sn_cols := cols\<rparr>)"

subsection \<open>Selections\<close>

datatype selection_mode = NormalMode | BlockMode | LineMode | WordMode

record selection =
  se_start :: "nat \<times> nat"
  se_end :: "nat \<times> nat"
  se_mode :: selection_mode

definition selection_new :: "nat \<Rightarrow> nat \<Rightarrow> selection_mode \<Rightarrow> selection" where
  "selection_new row col mode = \<lparr>se_start = (row, col), se_end = (row, col), se_mode = mode\<rparr>"

definition selection_update :: "nat \<Rightarrow> nat \<Rightarrow> selection \<Rightarrow> selection" where
  "selection_update row col sel = sel\<lparr>se_end := (row, col)\<rparr>"

definition selection_ordered :: "selection \<Rightarrow> (nat \<times> nat) \<times> (nat \<times> nat)" where
  "selection_ordered sel =
     (if fst (se_start sel) < fst (se_end sel) \<or>
         fst (se_start sel) = fst (se_end sel) \<and> snd (se_start sel) \<le> snd (se_end sel)
      then (se_start sel, se_end sel) else (se_end sel, se_start sel))"

definition selection_is_empty :: "selection \<Rightarrow> bool" where
  "selection_is_empty sel \<longleftrightarrow> se_start sel = se_end sel"

definition selection_contains :: "selection \<Rightarrow> nat \<Rightarrow> nat \<Rightarrow> bool" where
  "selection_contains sel row col =
     (let ((sr, sc), (er, ec)) = selection_ordered sel
      in case se_mode sel of
           BlockMode \<Rightarrow> row \<ge> sr \<and> row \<le> er \<and> col \<ge> min sc ec \<and> col \<le> max sc ec
         | LineMode \<Rightarrow> row \<ge> sr \<and> row \<le> er
         | _ \<Rightarrow>
             if sr = er then row = sr \<and> col \<ge> sc \<and> col \<le> ec
             else if row = sr then col \<ge> sc
             else if row = er then col \<le> ec
             else row > sr \<and> row < er)"

subsection \<open>Copying the render state\<close>

datatype style_color = NoColor | Palette byte | StyleRgb "byte \<times> byte \<times> byte"

record style =
  st_fg_color :: style_color
  st_bg_color :: style_color
  st_bold :: bool
  st_italic :: bool
  st_faint :: bool
  st_inverse :: bool
  st_strikethrough :: bool
  st_underline :: int

record rs_cell =
  rc_graphemes :: "u32 list"
  rc_style :: style
  rc_bg_color :: "(byte \<times> byte \<times> byte) option"

record render_state =
  rs_update_ok :: bool
  rs_dirty :: bool
  rs_colors :: "((byte \<times> byte \<times> byte) \<times> (byte \<times> byte \<times> byte)) option"
  rs_num_rows :: u16
  rs_num_cols :: u16
  rs_grid :: "(rs_cell list \<times> 64 word) list"

definition cube_component :: "nat \<Rightarrow> byte" where
  "cube_component v = (if v = 0 then 0 else of_nat (55 + v * 40))"

definition resolve_style_color ::
    "(byte \<times> byte \<times> byte) list \<Rightarrow> style_color \<Rightarrow> byte \<times> byte \<times> byte \<Rightarrow> byte \<times> byte \<times> byte" where
  "resolve_style_color palette c default_rgb =
     (case c of
        NoColor \<Rightarrow> default_rgb
      | StyleRgb rgb \<Rightarrow> rgb
      | Palette p \<Rightarrow>
          (let index = unat p
           in if index < 16 then palette ! index
              else if index < 232 then
                let i = index - 16
                in (cube_component (i div 36 mod 6), cube_component (i div 6 mod 6), cube_component (i mod 6))
              else let v = of_nat (8 + (index - 232) * 10) in (v, v, v)))"

definition as_color :: "byte \<times> byte \<times> byte \<Rightarrow> color" where
  "as_color c = Rgb (fst c) (fst (snd c)) (snd (snd c))"

definition empty_cell_attrs ::
    "(byte \<times> byte \<times> byte) list \<Rightarrow> (byte \<times> byte \<times> byte) \<times> (byte \<times> byte \<times> byte) \<Rightarrow> rs_cell \<Rightarrow> cell_attributes" where
  "empty_cell_attrs palette colors x =
     (let sty = rc_style x;
          bg = (if st_inverse sty then as_color (resolve_style_color palette (st_fg_color sty) (fst colors))
                else if st_bg_color sty \<noteq> NoColor
                     then as_color (resolve_style_color palette (st_bg_color sty) (snd colors))
                else case rc_bg_color x of Some rgb \<Rightarrow> as_color rgb | None \<Rightarrow> DefaultColor)
      in default_attributes\<lparr>ca_bg := bg\<rparr>)"

definition text_cell_attrs ::
    "(byte \<times> byte \<times> byte) list \<Rightarrow> (byte \<times> byte \<times> byte) \<times> (byte \<times> byte \<times> byte) \<Rightarrow> rs_cell \<Rightarrow> cell_attributes" where
  "text_cell_attrs palette colors x =
     (let sty = rc_style x;
          fg_rgb = resolve_style_color palette (st_fg_color sty) (fst colors);
          (bg_rgb, has_bg) =
            (if st_bg_color sty = NoColor then (snd colors, False)
             else (resolve_style_color palette (st_bg_color sty) (snd colors), True));
          (final_fg, final_bg, final_has_bg) =
            (if st_inverse sty then (bg_rgb, fg_rgb, True) else (fg_rgb, bg_rgb, has_bg))
      in \<lparr>ca_fg = as_color final_fg,
          ca_bg = (if final_has_bg then as_color final_bg else DefaultColor),
          ca_bold = st_bold sty, ca_italic = st_italic sty, ca_underline = (st_underline sty \<noteq> 0),
          ca_strikethrough = st_strikethrough sty, ca_inverse = False, ca_dim = st_faint sty\<rparr>)"

text \<open>\<open>char::from_u32\<close> accepts the scalar values.\<close>

definition char_from_u32 :: "u32 \<Rightarrow> nat option" where
  "char_from_u32 w =
     (if w < 0xD800 \<or> 0xE000 \<le> w \<and> w < 0x110000 then Some (unat w) else None)"

definition grapheme_str :: "u32 list \<Rightarrow> char_text" where
  "grapheme_str codepoints =
     (let buf = List.map_filter char_from_u32 (take 16 codepoints) in if buf = [] then [32] else buf)"

definition sync_cell ::
    "(byte \<times> byte \<times> byte) list \<Rightarrow> (byte \<times> byte \<times> byte) \<times> (byte \<times> byte \<times> byte) \<Rightarrow> rs_cell \<Rightarrow>
     char_text \<times> cell_attributes" where
  "sync_cell palette colors x =
     (if rc_graphemes x = [] then ([32], empty_cell_attrs palette colors x)
      else (grapheme_str (rc_graphemes x), text_cell_attrs palette colors x))"

text \<open>Padding of the columns \<open>cs\<close> of a row.\<close>

fun pad_cols :: "nat \<Rightarrow> nat list \<Rightarrow> screen \<Rightarrow> screen option" where
  "pad_cols r [] s = Some s"
| "pad_cols r (c # cs) s = Option.bind (update_cell_in_place r c [32] default_attributes s) (pad_cols r cs)"

fun sync_cells ::
    "(byte \<times> byte \<times> byte) list \<Rightarrow> (byte \<times> byte \<times> byte) \<times> (byte \<times> byte \<times> byte) \<Rightarrow> nat \<Rightarrow> nat \<Rightarrow> nat \<Rightarrow>
     rs_cell list \<Rightarrow> screen \<Rightarrow> screen option" where
  "sync_cells palette colors r num_cols c [] s = pad_cols r [c..<num_cols] s"
| "sync_cells palette colors r num_cols c (x # xs) s =
     (if c \<ge> num_cols then pad_cols r [c..<num_cols] s
      else let (g, attrs) = sync_cell palette colors x
           in Option.bind (update_cell_in_place r c g attrs s)
                (sync_cells palette colors r num_cols (c + 1) xs))"

fun pad_rows :: "nat list \<Rightarrow> nat \<Rightarrow> screen \<Rightarrow> screen option" where
  "pad_rows [] num_cols s = Some s"
| "pad_rows (r # rs) num_cols s = Option.bind (pad_cols r [0..<num_cols] s) (pad_rows rs num_cols)"

fun sync_rows ::
    "(byte \<times> byte \<times> byte) list \<Rightarrow> (byte \<times> byte \<times> byte) \<times> (byte \<times> byte \<times> byte) \<Rightarrow> nat \<Rightarrow> nat \<Rightarrow> nat \<Rightarrow>
     (rs_cell list \<times> 64 word) list \<Rightarrow> screen \<Rightarrow> screen option" where
  "sync_rows palette colors num_rows num_cols r [] s = pad_rows [r..<num_rows] num_cols s"
| "sync_rows palette colors num_rows num_cols r ((xs, raw_row) # rows) s =
     (if r \<ge> num_rows then pad_rows [r..<num_rows] num_cols s
      else Option.bind (sync_cells palette colors r num_cols 0 xs s)
        (\<lambda>s1. let is_wrapped = (drop_bit 32 raw_row AND 1 \<noteq> 0)
              in sync_rows palette colors num_rows num_cols (r + 1) rows (set_row_wrap r is_wrapped s1)))"

record vt_cache =
  vc_screen :: screen
  vc_screen_dirty :: bool

text \<open>The result is \<open>None\<close> for a panic; the flag of the render state is cleared at the end.\<close>

definition sync_screen ::
    "(byte \<times> byte \<times> byte) list \<Rightarrow> render_state \<Rightarrow> vt_cache \<Rightarrow> (render_state \<times> vt_cache) option" where
  "sync_screen palette rs cache =
     (if \<not> rs_update_ok rs then Some (rs, cache)
      else let first_sync = (sn_generation (vc_screen cache) = 0)
           in if \<not> rs_dirty rs \<and> \<not> first_sync \<and> \<not> vc_screen_dirty cache then Some (rs, cache)
              else case rs_colors rs of
                None \<Rightarrow> Some (rs, cache)
              | Some colors \<Rightarrow>
                  let num_rows = unat (rs_num_rows rs); num_cols = unat (rs_num_cols rs);
                      s1 = ensure_capacity num_rows num_cols (vc_screen cache)
                  in map_option (\<lambda>s2. (rs\<lparr>rs_dirty := False\<rparr>, cache\<lparr>vc_screen := s2\<rparr>))
                       (sync_rows palette colors num_rows num_cols 0 (rs_grid rs) s1))"

definition terminal_screen ::
    "(byte \<times> byte \<times> byte) list \<Rightarrow> render_state \<Rightarrow> vt_cache \<Rightarrow> (render_state \<times> vt_cache) option" where
  "terminal_screen palette rs cache =
     map_option (\<lambda>(rs1, c). (rs1, c\<lparr>vc_screen_dirty := False\<rparr>)) (sync_screen palette rs cache)"

end
