(* ===== verification/Scrollback.thy ===== *)
theory Scrollback
  imports Grid "HOL-Library.Sublist" "HOL-Library.Product_Lexorder"
begin

section \<open>Searching and copying in the scrollback\<close>

text \<open>
  The functions of \<open>terminal.rs\<close> (GTK) that search the history of a terminal for a text and move
  between the matches, \<open>copy_selection\<close> of \<open>app.rs\<close>, which collects the selected text, and the
  helpers that select a word or a line. The terminal shows a window of its history, and both walk
  through the history by scrolling that window page by page. What they use of the terminal,
  \<open>scroll_viewport_delta\<close>, \<open>scrollbar_state\<close> and \<open>screen\<close>, is a record \<open>viewport\<close> over a type of
  terminals. A loop whose end depends on the terminal is a partial function: it may not return.
\<close>

record 'v viewport =
  scroll_viewport_delta :: "int \<Rightarrow> 'v \<Rightarrow> 'v"
  scrollbar_state :: "'v \<Rightarrow> nat \<times> nat \<times> nat"
  viewport_screen :: "'v \<Rightarrow> screen"

definition scroll_total :: "'v viewport \<Rightarrow> 'v \<Rightarrow> nat" where
  "scroll_total V v = fst (scrollbar_state V v)"

definition scroll_offset :: "'v viewport \<Rightarrow> 'v \<Rightarrow> nat" where
  "scroll_offset V v = fst (snd (scrollbar_state V v))"

definition scroll_len :: "'v viewport \<Rightarrow> 'v \<Rightarrow> nat" where
  "scroll_len V v = snd (snd (scrollbar_state V v))"

text \<open>\<open>if delta != 0 { scroll_viewport_delta(delta) }\<close>\<close>

definition scroll_by :: "'v viewport \<Rightarrow> int \<Rightarrow> 'v \<Rightarrow> 'v" where
  "scroll_by V d v = (if d \<noteq> 0 then scroll_viewport_delta V d v else v)"

subsection \<open>Strings by bytes\<close>

text \<open>Positions in a \<open>str\<close> are counted in bytes, and a slice that does not start between two
  characters panics.\<close>

definition char_len :: "nat \<Rightarrow> nat" where
  "char_len c = length (encode_utf8 c)"

definition text_bytes :: "char_text \<Rightarrow> nat" where
  "text_bytes cs = sum_list (map char_len cs)"

fun slice_from :: "nat \<Rightarrow> char_text \<Rightarrow> char_text option" where
  "slice_from n [] = (if n = 0 then Some [] else None)"
| "slice_from n (c # cs) =
     (if n = 0 then Some (c # cs) else if char_len c \<le> n then slice_from (n - char_len c) cs else None)"

fun find_text :: "char_text \<Rightarrow> char_text \<Rightarrow> nat option" where
  "find_text q [] = (if q = [] then Some 0 else None)"
| "find_text q (c # cs) =
     (if prefix q (c # cs) then Some 0 else map_option ((+) (char_len c)) (find_text q cs))"

subsection \<open>Search\<close>

type_synonym search_match = "nat \<times> nat \<times> nat"

text \<open>\<open>char::to_lowercase\<close> is the parameter \<open>lower\<close>. The line and the column of each of its bytes.\<close>

fun line_lower :: "(nat \<Rightarrow> nat list) \<Rightarrow> nat \<Rightarrow> cell list \<Rightarrow> char_text \<times> nat list" where
  "line_lower lower col [] = ([], [])"
| "line_lower lower col (x # xs) =
     (let g = ce_grapheme x;
          s = (if g = [] then [32] else concat (map lower g));
          (line, byte_to_col) = line_lower lower (col + 1) xs
      in (s @ line, replicate (text_bytes s) col @ byte_to_col))"

function find_in_row ::
    "char_text \<Rightarrow> char_text \<Rightarrow> nat list \<Rightarrow> nat \<Rightarrow> nat \<Rightarrow> search_match list option" where
  "find_in_row query line byte_to_col abs_row search_start =
     (case slice_from search_start line of
        None \<Rightarrow> None
      | Some rest \<Rightarrow>
          (case find_text query rest of
             None \<Rightarrow> Some []
           | Some byte_pos \<Rightarrow>
               (let abs_byte_pos = search_start + byte_pos;
                    end_byte_pos = abs_byte_pos + text_bytes query;
                    out = (if abs_byte_pos < length byte_to_col \<and> end_byte_pos > 0 then
                             let start_col = byte_to_col ! abs_byte_pos;
                                 end_col = (if end_byte_pos \<le> length byte_to_col
                                            then byte_to_col ! (end_byte_pos - 1)
                                            else byte_to_col ! (length byte_to_col - 1))
                             in [(abs_row, start_col, end_col - start_col + 1)]
                           else [])
                in if abs_byte_pos + 1 \<ge> text_bytes line then Some out
                   else map_option ((@) out)
                     (find_in_row query line byte_to_col abs_row (abs_byte_pos + 1)))))"
  by pat_completeness auto
termination
  by (relation "measure (\<lambda>(q, line, b, r, start). text_bytes line - start)") auto

declare find_in_row.simps [simp del]

fun collect_rows ::
    "(nat \<Rightarrow> nat list) \<Rightarrow> screen \<Rightarrow> char_text \<Rightarrow> nat \<Rightarrow> nat \<Rightarrow> nat list \<Rightarrow> search_match list option" where
  "collect_rows lower screen query row_offset num_cols [] = Some []"
| "collect_rows lower screen query row_offset num_cols (row # rows) =
     (case screen_row row screen of
        None \<Rightarrow> None
      | Some cells \<Rightarrow>
          (let (line, byte_to_col) = line_lower lower 0 (take (min num_cols (length cells)) cells)
           in case find_in_row query line byte_to_col (row_offset + row) 0 of
                None \<Rightarrow> None
              | Some out \<Rightarrow>
                  map_option ((@) out) (collect_rows lower screen query row_offset num_cols rows)))"

definition collect_matches_from_viewport ::
    "(nat \<Rightarrow> nat list) \<Rightarrow> screen \<Rightarrow> char_text \<Rightarrow> nat \<Rightarrow> nat \<Rightarrow> nat \<Rightarrow> search_match list option" where
  "collect_matches_from_viewport lower screen query row_offset rows cols =
     collect_rows lower screen query row_offset (min (sn_cols screen) cols) [0..<min (sn_rows screen) rows]"

record search_state =
  ss_query :: char_text
  ss_all_matches :: "search_match list"
  ss_matches :: "search_match list"
  ss_current_index :: nat
  ss_current_viewport_index :: "nat option"

record 'v terminal_state =
  ts_terminal :: 'v
  ts_cols :: nat
  ts_rows :: nat
  ts_selection :: "selection option"
  ts_viewport_offset :: nat
  ts_search :: search_state

text \<open>The loop over the pages. \<open>None\<close> is a loop that does not end, \<open>Some None\<close> a panic.\<close>

partial_function (option) search_pages ::
    "'v viewport \<Rightarrow> (nat \<Rightarrow> nat list) \<Rightarrow> char_text \<Rightarrow> nat \<Rightarrow> nat \<Rightarrow> nat \<Rightarrow> nat \<Rightarrow> 'v \<Rightarrow> nat \<Rightarrow>
     search_match list \<Rightarrow> ('v \<times> search_match list) option option" where
  "search_pages V lower query rows cols page_size max_offset v current_offset all =
     (case collect_matches_from_viewport lower (viewport_screen V v) query current_offset rows cols of
        None \<Rightarrow> Some None
      | Some out \<Rightarrow>
          if current_offset \<ge> max_offset then Some (Some (v, all @ out))
          else
            (let step = min page_size (max_offset - current_offset)
             in if step = 0 then Some (Some (v, all @ out))
                else
                  (let v1 = scroll_viewport_delta V (int step) v
                   in search_pages V lower query rows cols page_size max_offset v1
                        (scroll_offset V v1) (all @ out))))"

text \<open>The matches in the window, with the position among them of the current one.\<close>

fun filter_loop ::
    "search_match list \<Rightarrow> nat \<Rightarrow> nat \<Rightarrow> nat \<Rightarrow> search_match option \<Rightarrow> nat \<Rightarrow> search_match list \<Rightarrow> nat option \<Rightarrow>
     search_match list \<times> nat option" where
  "filter_loop [] vp_start vp_end current_index current_abs global_idx matches vp_index = (matches, vp_index)"
| "filter_loop ((abs_row, col, match_len) # ms) vp_start vp_end current_index current_abs global_idx matches vp_index =
     (if abs_row \<ge> vp_start \<and> abs_row < vp_end then
        let vp_idx = length matches;
            vp_index1 =
              (if global_idx = current_index \<and> current_abs = Some (abs_row, col, match_len)
               then Some vp_idx else vp_index)
        in filter_loop ms vp_start vp_end current_index current_abs (global_idx + 1)
             (matches @ [(abs_row - vp_start, col, match_len)]) vp_index1
      else filter_loop ms vp_start vp_end current_index current_abs (global_idx + 1) matches vp_index)"

definition filter_viewport_matches :: "'v viewport \<Rightarrow> 'v terminal_state \<Rightarrow> 'v terminal_state" where
  "filter_viewport_matches V s =
     (let srch = ts_search s;
          vp_start = scroll_offset V (ts_terminal s);
          vp_end = vp_start + scroll_len V (ts_terminal s);
          current_abs =
            (if ss_all_matches srch \<noteq> [] \<and> ss_current_index srch < length (ss_all_matches srch)
             then Some (ss_all_matches srch ! ss_current_index srch) else None);
          (matches, vp_index) =
            filter_loop (ss_all_matches srch) vp_start vp_end (ss_current_index srch) current_abs 0 [] None
      in s\<lparr>ts_search := srch\<lparr>ss_matches := matches, ss_current_viewport_index := vp_index\<rparr>\<rparr>)"

definition recompute_all_search_matches ::
    "'v viewport \<Rightarrow> (nat \<Rightarrow> nat list) \<Rightarrow> 'v terminal_state \<Rightarrow> 'v terminal_state option option" where
  "recompute_all_search_matches V lower s0 =
     (let srch0 = (ts_search s0)\<lparr>ss_all_matches := [], ss_matches := []\<rparr>;
          s = s0\<lparr>ts_search := srch0\<rparr>
      in if ss_query srch0 = [] then Some (Some (s\<lparr>ts_search := srch0\<lparr>ss_current_index := 0\<rparr>\<rparr>))
         else
           (let v0 = ts_terminal s0;
                (total, original_offset, len) = scrollbar_state V v0
            in if total = 0 \<or> len = 0 then Some (Some s)
               else
                 (let max_offset = (if total > len then total - len else 0);
                      v1 = (if original_offset > 0
                            then scroll_viewport_delta V (- int original_offset) v0
                            else v0)
                  in case search_pages V lower (ss_query srch0) (ts_rows s) (ts_cols s) len max_offset v1 0 [] of
                       None \<Rightarrow> None
                     | Some None \<Rightarrow> Some None
                     | Some (Some (v2, found)) \<Rightarrow>
                         (let all = remdups_adj (sort_key (\<lambda>(abs_row, col, _). (abs_row, col)) found);
                              v3 = scroll_by V (int original_offset - int (scroll_offset V v2)) v2;
                              idx = (if all = [] \<or> ss_current_index (ts_search s0) \<ge> length all then 0
                                     else ss_current_index (ts_search s0));
                              s1 = s\<lparr>ts_terminal := v3, ts_viewport_offset := scroll_offset V v3,
                                     ts_search := srch0\<lparr>ss_all_matches := all, ss_current_index := idx\<rparr>\<rparr>
                          in Some (Some (filter_viewport_matches V s1))))))"

definition scroll_to_current_match :: "'v viewport \<Rightarrow> 'v terminal_state \<Rightarrow> 'v terminal_state option" where
  "scroll_to_current_match V s =
     (let srch = ts_search s
      in if ss_all_matches srch = [] then Some s
         else case vec_get (ss_all_matches srch) (ss_current_index srch) of
           None \<Rightarrow> None
         | Some (abs_row, _, _) \<Rightarrow>
             (let (total, offset, len) = scrollbar_state V (ts_terminal s);
                  target0 = (if abs_row > len div 3 then abs_row - len div 3 else 0);
                  max_offset = (if total > len then total - len else 0);
                  target = min target0 max_offset;
                  delta = int target - int offset;
                  v1 = scroll_by V delta (ts_terminal s);
                  s1 = (if delta \<noteq> 0
                        then s\<lparr>ts_terminal := v1, ts_viewport_offset := scroll_offset V v1\<rparr> else s)
              in Some (filter_viewport_matches V s1)))"

definition navigate_search_forward :: "'v viewport \<Rightarrow> 'v terminal_state \<Rightarrow> 'v terminal_state option" where
  "navigate_search_forward V s =
     (let srch = ts_search s
      in if ss_query srch = [] \<or> ss_all_matches srch = [] then Some s
         else scroll_to_current_match V
           (s\<lparr>ts_search := srch\<lparr>ss_current_index :=
              (if ss_current_index srch + 1 < length (ss_all_matches srch)
               then ss_current_index srch + 1 else 0)\<rparr>\<rparr>))"

definition navigate_search_backward :: "'v viewport \<Rightarrow> 'v terminal_state \<Rightarrow> 'v terminal_state option" where
  "navigate_search_backward V s =
     (let srch = ts_search s
      in if ss_query srch = [] \<or> ss_all_matches srch = [] then Some s
         else scroll_to_current_match V
           (s\<lparr>ts_search := srch\<lparr>ss_current_index :=
              (if ss_current_index srch > 0 then ss_current_index srch - 1
               else length (ss_all_matches srch) - 1)\<rparr>\<rparr>))"

subsection \<open>Copying the selection\<close>

text \<open>The columns of a row that are copied, \<open>col_start\<close> and \<open>col_end\<close>.\<close>

definition selected_cols :: "selection \<Rightarrow> nat \<Rightarrow> nat \<Rightarrow> nat \<times> nat" where
  "selected_cols sel num_cols abs_row =
     (let ((sr, sc), (er, ec)) = selection_ordered sel
      in case se_mode sel of
           LineMode \<Rightarrow> (0, num_cols - 1)
         | BlockMode \<Rightarrow> (min sc ec, min (max sc ec) (num_cols - 1))
         | _ \<Rightarrow> ((if abs_row = sr then sc else 0),
                (if abs_row = er then min ec (num_cols - 1) else num_cols - 1)))"

definition trailing_spaces :: "cell list \<Rightarrow> nat" where
  "trailing_spaces cells = length (takeWhile (\<lambda>c. ce_grapheme c = [32]) (rev cells))"

definition row_is_wrapped :: "screen \<Rightarrow> nat \<Rightarrow> nat \<Rightarrow> nat \<Rightarrow> cell list \<Rightarrow> bool" where
  "row_is_wrapped screen er abs_row scr_row cells =
     (if is_row_wrapped scr_row screen then True
      else if abs_row < er \<and> sn_cols screen > 10 then trailing_spaces cells < sn_cols screen div 5
      else False)"

text \<open>The rows of one page, up to the first that is not on the screen.\<close>

fun copy_rows :: "screen \<Rightarrow> selection \<Rightarrow> nat \<Rightarrow> nat list \<Rightarrow> (char_text \<times> bool) list option" where
  "copy_rows screen sel vp_off [] = Some []"
| "copy_rows screen sel vp_off (abs_row # rows) =
     (let scr_row = abs_row - vp_off
      in if scr_row \<ge> sn_rows screen then Some []
         else case screen_row scr_row screen of
           None \<Rightarrow> None
         | Some cells \<Rightarrow>
             (let (col_start, col_end) = selected_cols sel (sn_cols screen) abs_row;
                  upper = min col_end (length cells - 1);
                  line = concat (map ce_grapheme (drop col_start (take (upper + 1) cells)));
                  er = fst (snd (selection_ordered sel))
              in map_option ((#) (line, row_is_wrapped screen er abs_row scr_row cells))
                   (copy_rows screen sel vp_off rows)))"

partial_function (option) copy_pages ::
    "'v viewport \<Rightarrow> selection \<Rightarrow> nat \<Rightarrow> nat \<Rightarrow> 'v \<Rightarrow> (char_text \<times> bool) list \<Rightarrow>
     ('v \<times> (char_text \<times> bool) list) option option" where
  "copy_pages V sel er cursor v lines =
     (if cursor > er then Some (Some (v, lines))
      else
        (let v1 = scroll_by V (int cursor - int (scroll_offset V v)) v;
             vp_off = scroll_offset V v1;
             page_end = min er (vp_off + (scroll_len V v1 - 1))
         in case copy_rows (viewport_screen V v1) sel vp_off [cursor..<page_end + 1] of
              None \<Rightarrow> Some None
            | Some rows \<Rightarrow> copy_pages V sel er (page_end + 1) v1 (lines @ rows)))"

text \<open>\<open>char::is_whitespace\<close>, \<open>trim_start\<close> and \<open>trim_end\<close>.\<close>

definition white_space :: "nat \<Rightarrow> bool" where
  "white_space c \<longleftrightarrow> 9 \<le> c \<and> c \<le> 13 \<or> c \<in> {32, 0x85, 0xA0, 0x1680, 0x2028, 0x2029, 0x202F, 0x205F, 0x3000}
     \<or> 0x2000 \<le> c \<and> c \<le> 0x200A"

definition trim_start :: "char_text \<Rightarrow> char_text" where
  "trim_start t = dropWhile white_space t"

definition trim_end :: "char_text \<Rightarrow> char_text" where
  "trim_end t = rev (dropWhile white_space (rev t))"

text \<open>The second argument is \<open>i > 0 && wrap_flags[i - 1]\<close>.\<close>

fun join_lines :: "bool \<Rightarrow> (char_text \<times> bool) list \<Rightarrow> char_text" where
  "join_lines continues [] = []"
| "join_lines continues ((line, wrapped) # rest) =
     (let txt = (if continues then trim_start line else line)
      in (if wrapped
          then let trimmed = trim_end txt in trimmed @ (if text_bytes txt > text_bytes trimmed then [32] else [])
          else txt @ (if rest \<noteq> [] then [10] else []))
         @ join_lines wrapped rest)"

subsubsection \<open>The copy pipeline\<close>

definition strip_box_drawing :: "char_text \<Rightarrow> char_text" where
  "strip_box_drawing txt = filter (\<lambda>c. \<not> (0x2500 \<le> c \<and> c \<le> 0x257F)) txt"

text \<open>\<open>str::lines\<close>: the pieces between newlines, without a last empty one, each without a carriage
  return at its end.\<close>

fun split_newlines :: "char_text \<Rightarrow> char_text \<Rightarrow> char_text list" where
  "split_newlines acc [] = (if acc = [] then [] else [acc])"
| "split_newlines acc (c # cs) = (if c = 10 then acc # split_newlines [] cs else split_newlines (acc @ [c]) cs)"

definition strip_cr :: "char_text \<Rightarrow> char_text" where
  "strip_cr l = (if l \<noteq> [] \<and> last l = 13 then butlast l else l)"

text \<open>A carriage return is only taken off a line that ended in a newline.\<close>

definition str_lines :: "char_text \<Rightarrow> char_text list" where
  "str_lines txt =
     (let ls = split_newlines [] txt
      in if txt \<noteq> [] \<and> last txt \<noteq> 10 then map strip_cr (butlast ls) @ [last ls] else map strip_cr ls)"

fun join_with :: "nat \<Rightarrow> char_text list \<Rightarrow> char_text" where
  "join_with c [] = []"
| "join_with c [l] = l"
| "join_with c (l # ls) = l @ [c] @ join_with c ls"

definition strip_trailing_whitespace :: "char_text \<Rightarrow> char_text" where
  "strip_trailing_whitespace txt = join_with 10 (map trim_end (str_lines txt))"

fun replace_crlf :: "char_text \<Rightarrow> char_text" where
  "replace_crlf (a # b # cs) = (if a = 13 \<and> b = 10 then 10 # replace_crlf cs else a # replace_crlf (b # cs))"
| "replace_crlf cs = cs"

definition normalize_line_endings :: "char_text \<Rightarrow> char_text" where
  "normalize_line_endings txt = map (\<lambda>c. if c = 13 then 10 else c) (replace_crlf txt)"

definition smart_copy_pipeline :: "char_text \<Rightarrow> char_text" where
  "smart_copy_pipeline txt =
     normalize_line_endings (strip_trailing_whitespace (strip_box_drawing txt))"

text \<open>The text for the clipboard, \<open>None\<close> if it is left alone.\<close>

definition copy_selection ::
    "'v viewport \<Rightarrow> 'v terminal_state \<Rightarrow> (char_text option \<times> 'v terminal_state) option option" where
  "copy_selection V s =
     (case ts_selection s of
        None \<Rightarrow> Some (Some (None, s))
      | Some sel \<Rightarrow>
          (let ((sr, sc), (er, ec)) = selection_ordered sel;
               orig_offset = scroll_offset V (ts_terminal s)
           in case copy_pages V sel er sr (ts_terminal s) [] of
                None \<Rightarrow> None
              | Some None \<Rightarrow> Some None
              | Some (Some (v, lines)) \<Rightarrow>
                  (let v1 = scroll_by V (int orig_offset - int (scroll_offset V v)) v;
                       raw_text = join_lines False lines;
                       cleaned = smart_copy_pipeline raw_text;
                       s1 = s\<lparr>ts_terminal := v1\<rparr>
                   in Some (Some (if raw_text = [] \<or> cleaned = [] then (None, s1) else (Some cleaned, s1))))))"

subsection \<open>Words and lines\<close>

definition word_delimiters :: "nat list" where
  "word_delimiters = [32, 9, 34, 39, 96, 40, 41, 91, 93, 123, 125, 60, 62, 44, 59, 124, 58]"

text \<open>\<open>g.len()\<close> counts bytes.\<close>

definition is_delimiter :: "char_text \<Rightarrow> bool" where
  "is_delimiter g \<longleftrightarrow> text_bytes g = 1 \<and> (case g of c # _ \<Rightarrow> c \<in> set word_delimiters | [] \<Rightarrow> 32 \<in> set word_delimiters)"

fun expand_left :: "cell list \<Rightarrow> nat \<Rightarrow> nat" where
  "expand_left cells 0 = 0"
| "expand_left cells (Suc start) =
     (let g = ce_grapheme (cells ! start)
      in if g = [] \<or> is_delimiter g then Suc start else expand_left cells start)"

function expand_right :: "cell list \<Rightarrow> nat \<Rightarrow> nat \<Rightarrow> nat" where
  "expand_right cells n end =
     (if end + 1 < n then
        let g = ce_grapheme (cells ! (end + 1))
        in if g = [] \<or> is_delimiter g then end else expand_right cells n (end + 1)
      else end)"
  by pat_completeness auto
termination
  by (relation "measure (\<lambda>(cells, n, end). n - end)") auto

declare expand_right.simps [simp del]

definition find_word_boundaries :: "screen \<Rightarrow> nat \<Rightarrow> nat \<Rightarrow> (nat \<times> nat) option" where
  "find_word_boundaries screen row col =
     (if row \<ge> sn_rows screen \<or> col \<ge> sn_cols screen then Some (col, col)
      else case screen_row row screen of
        None \<Rightarrow> None
      | Some cells \<Rightarrow>
          if col \<ge> length cells then None
          else if is_delimiter (ce_grapheme (cells ! col)) then Some (col, col)
          else Some (expand_left cells col, expand_right cells (min (sn_cols screen) (length cells)) col))"

fun last_text_col :: "nat \<Rightarrow> nat \<Rightarrow> cell list \<Rightarrow> nat" where
  "last_text_col i last_col [] = last_col"
| "last_text_col i last_col (x # xs) =
     last_text_col (i + 1) (if ce_grapheme x \<noteq> [] \<and> ce_grapheme x \<noteq> [32] then i else last_col) xs"

definition last_non_whitespace_col :: "screen \<Rightarrow> nat \<Rightarrow> nat option" where
  "last_non_whitespace_col screen row =
     (if row \<ge> sn_rows screen then Some 0
      else map_option (last_text_col 0 0) (screen_row row screen))"

definition select_all_visible :: "'v viewport \<Rightarrow> 'v terminal_state \<Rightarrow> 'v terminal_state option" where
  "select_all_visible V s =
     (if ts_rows s = 0 \<or> ts_cols s = 0 then Some s
      else
        (let last_row = ts_rows s - 1
         in case last_non_whitespace_col (viewport_screen V (ts_terminal s)) last_row of
              None \<Rightarrow> None
            | Some c \<Rightarrow>
                (let last_col = max c (ts_cols s - 1);
                     sel = selection_update (ts_viewport_offset s + last_row) last_col
                             (selection_new (ts_viewport_offset s) 0 NormalMode)
                 in Some (s\<lparr>ts_selection := Some sel\<rparr>))))"

end
