(* ===== verification/GridProps.thy ===== *)
theory GridProps
  imports Grid
begin

section \<open>Properties of the screen\<close>

text \<open>
  The grid always has the size it says, every operation keeps that, and no index of \<open>sync_screen\<close>
  is out of range. After a sync the grid is the render state, cell by cell, and a generation that has
  not changed means that no cell has.
\<close>

subsection \<open>The invariant of the grid\<close>

definition screen_ok :: "screen \<Rightarrow> bool" where
  "screen_ok s \<longleftrightarrow>
     length (sn_cells s) = sn_rows s \<and> (\<forall>row \<in> set (sn_cells s). length row = sn_cols s) \<and>
     length (sn_row_generations s) = sn_rows s \<and> length (sn_row_wraps s) = sn_rows s \<and>
     (\<forall>g \<in> set (sn_row_generations s). g \<le> sn_generation s)"

lemma length_vec_resize [simp]: "length (vec_resize n x xs) = n"
  by (simp add: vec_resize_def)

lemma set_vec_resize: "set (vec_resize n x xs) \<subseteq> insert x (set xs)"
  using set_take_subset[of n xs] by (auto simp: vec_resize_def)

lemma grow_or_truncate_resize: "grow_or_truncate = vec_resize"
  by (intro ext) (auto simp: grow_or_truncate_def vec_resize_def)

lemma set_list_update_le: "\<forall>g \<in> set gs. g \<le> (n::nat) \<Longrightarrow> \<forall>g \<in> set (gs[r := Suc n]). g \<le> Suc n"
  using set_update_subset_insert[of gs r "Suc n"] by fastforce

lemma row_length: "screen_ok s \<Longrightarrow> r < sn_rows s \<Longrightarrow> length (sn_cells s ! r) = sn_cols s"
  by (simp add: screen_ok_def)

lemma rows_after_update:
  "screen_ok s \<Longrightarrow> r < sn_rows s \<Longrightarrow>
   \<forall>row \<in> set ((sn_cells s)[r := (sn_cells s ! r)[c := x]]). length row = sn_cols s"
  using set_update_subset_insert[of "sn_cells s" r "(sn_cells s ! r)[c := x]"] row_length[of s r]
  by (fastforce simp: screen_ok_def)

lemma screen_new_ok: "screen_ok (screen_new rows cols)"
  by (simp add: screen_ok_def screen_new_def)

lemma set_cell_ok:
  assumes "screen_ok s"
  shows "(\<exists>s'. set_cell r c x s = Some s') \<longleftrightarrow> r < sn_rows s \<and> c < sn_cols s"
    and "set_cell r c x s = Some s' \<Longrightarrow> screen_ok s'"
proof -
  show "(\<exists>s'. set_cell r c x s = Some s') \<longleftrightarrow> r < sn_rows s \<and> c < sn_cols s"
    using assms row_length[of s r] by (auto simp: set_cell_def Let_def screen_ok_def)
  assume "set_cell r c x s = Some s'"
  then have r: "r < sn_rows s" and s': "s' = s\<lparr>sn_generation := sn_generation s + 1,
      sn_cells := (sn_cells s)[r := (sn_cells s ! r)[c := x]],
      sn_row_generations := (sn_row_generations s)[r := sn_generation s + 1]\<rparr>"
    using assms by (auto simp: set_cell_def Let_def screen_ok_def split: if_splits)
  show "screen_ok s'"
    using assms rows_after_update[OF assms r, of c x] set_list_update_le[of "sn_row_generations s" "sn_generation s" r]
    by (simp add: s' screen_ok_def)
qed

lemma resize_ok: "screen_ok s \<Longrightarrow> screen_ok (screen_resize rows cols s)"
  using set_vec_resize[of rows "replicate cols default_cell" "map (vec_resize cols default_cell) (sn_cells s)"]
    set_vec_resize[of rows 0 "sn_row_generations s"]
  by (fastforce simp: screen_ok_def screen_resize_def Let_def)

lemma ensure_capacity_ok: "screen_ok s \<Longrightarrow> screen_ok (ensure_capacity rows cols s)"
  using set_vec_resize[of rows "replicate cols default_cell" "map (vec_resize cols default_cell) (sn_cells s)"]
    set_vec_resize[of rows 0 "sn_row_generations s"]
  by (fastforce simp: screen_ok_def ensure_capacity_def grow_or_truncate_resize Let_def)

lemma ensure_capacity_size [simp]:
  "sn_rows (ensure_capacity rows cols s) = rows" "sn_cols (ensure_capacity rows cols s) = cols"
  "sn_generation (ensure_capacity rows cols s) = sn_generation s"
  by (simp_all add: ensure_capacity_def Let_def)

lemma vec_resize_same [simp]: "length xs = n \<Longrightarrow> vec_resize n x xs = xs"
  by (simp add: vec_resize_def)

lemma ensure_capacity_same:
  assumes "screen_ok s" "sn_rows s = rows" "sn_cols s = cols"
  shows "ensure_capacity rows cols s = s"
proof -
  have "map (vec_resize cols default_cell) (sn_cells s) = sn_cells s"
    using assms by (intro map_idI) (simp add: screen_ok_def)
  then show ?thesis
    using assms by (cases s) (simp add: ensure_capacity_def grow_or_truncate_resize screen_ok_def Let_def)
qed

lemma set_row_wrap_frame [simp]:
  "screen_ok s \<Longrightarrow> screen_ok (set_row_wrap r w s)"
  "sn_cells (set_row_wrap r w s) = sn_cells s" "sn_rows (set_row_wrap r w s) = sn_rows s"
  "sn_cols (set_row_wrap r w s) = sn_cols s" "sn_generation (set_row_wrap r w s) = sn_generation s"
  by (simp_all add: set_row_wrap_def screen_ok_def)

subsection \<open>Updating a cell\<close>

definition shown_cell :: "char_text \<times> cell_attributes \<Rightarrow> cell" where
  "shown_cell p = \<lparr>ce_grapheme = fst p, ce_attrs = snd p\<rparr>"

lemma update_in_place_result:
  "snd (update_in_place g a c) = shown_cell (g, a)"
  "fst (update_in_place g a c) \<longleftrightarrow> c \<noteq> shown_cell (g, a)"
  by (cases c; simp add: update_in_place_def update_grapheme_def shown_cell_def Let_def split: prod.split)+

text \<open>What a run of updates keeps, as a relation between the screen before and after.\<close>

definition extends_screen :: "screen \<Rightarrow> screen \<Rightarrow> bool" where
  "extends_screen s s' \<longleftrightarrow>
     screen_ok s' \<and> sn_rows s' = sn_rows s \<and> sn_cols s' = sn_cols s \<and> sn_generation s \<le> sn_generation s' \<and>
     (sn_generation s' = sn_generation s \<longrightarrow> sn_cells s' = sn_cells s)"

lemma extends_trans: "extends_screen s t \<Longrightarrow> extends_screen t u \<Longrightarrow> extends_screen s u"
  unfolding extends_screen_def by (metis order_antisym order_trans)

lemma extends_refl: "screen_ok s \<Longrightarrow> extends_screen s s"
  by (simp add: extends_screen_def)

lemma extends_ok: "extends_screen s s' \<Longrightarrow> screen_ok s'"
  by (simp add: extends_screen_def)

text \<open>The generation moves exactly if a cell does.\<close>

lemma update_cell_result:
  assumes "screen_ok s" "r < sn_rows s" "c < sn_cols s"
  shows "\<exists>s'. update_cell_in_place r c g a s = Some s' \<and> extends_screen s s' \<and>
    sn_cells s' = (sn_cells s)[r := (sn_cells s ! r)[c := shown_cell (g, a)]]"
proof -
  have len: "r < length (sn_cells s)" "c < length (sn_cells s ! r)" "r < length (sn_row_generations s)"
    using assms row_length[of s r] by (simp_all add: screen_ok_def)
  let ?cells = "(sn_cells s)[r := (sn_cells s ! r)[c := shown_cell (g, a)]]"
  obtain b x where u: "update_in_place g a (sn_cells s ! r ! c) = (b, x)" by fastforce
  then have x: "x = shown_cell (g, a)" and b: "b \<longleftrightarrow> sn_cells s ! r ! c \<noteq> shown_cell (g, a)"
    using update_in_place_result[of g a "sn_cells s ! r ! c"] by auto
  note ok = rows_after_update[OF assms(1,2), of c "shown_cell (g, a)"]
    set_list_update_le[of "sn_row_generations s" "sn_generation s" r]
  show ?thesis
  proof (cases b)
    case True
    show ?thesis
      by (rule exI[of _ "s\<lparr>sn_cells := ?cells, sn_generation := sn_generation s + 1,
            sn_row_generations := (sn_row_generations s)[r := sn_generation s + 1]\<rparr>"])
        (use len u x True ok assms(1) in \<open>simp_all add: update_cell_in_place_def extends_screen_def screen_ok_def Let_def\<close>)
  next
    case False
    then have same: "?cells = sn_cells s" using b by (metis list_update_id)
    show ?thesis
      by (rule exI[of _ s]) (use len u x False same assms in \<open>simp_all add: update_cell_in_place_def extends_refl\<close>)
  qed
qed

subsection \<open>Rows and grids\<close>

text \<open>The part of a row from column \<open>c\<close> on.\<close>

definition row_from :: "nat \<Rightarrow> nat \<Rightarrow> cell list \<Rightarrow> screen \<Rightarrow> screen \<Rightarrow> bool" where
  "row_from r c xs s s' \<longleftrightarrow>
     extends_screen s s' \<and> sn_cells s' = (sn_cells s)[r := take c (sn_cells s ! r) @ xs]"

lemma row_from_step:
  assumes "screen_ok s" "r < sn_rows s" "c < sn_cols s"
    "update_cell_in_place r c g a s = Some s1" "row_from r (Suc c) xs s1 s2"
  shows "row_from r c (shown_cell (g, a) # xs) s s2"
proof -
  have u: "extends_screen s s1" "sn_cells s1 = (sn_cells s)[r := (sn_cells s ! r)[c := shown_cell (g, a)]]"
    using update_cell_result[OF assms(1-3), of g a] assms(4) by auto
  have len: "r < length (sn_cells s)" "c < length (sn_cells s ! r)"
    using assms(1-3) row_length[of s r] by (simp_all add: screen_ok_def)
  have "take (Suc c) ((sn_cells s ! r)[c := shown_cell (g, a)]) @ xs =
      take c (sn_cells s ! r) @ shown_cell (g, a) # xs"
    using len by (simp add: take_Suc_conv_app_nth)
  then show ?thesis
    using assms(5) u len extends_trans by (auto simp: row_from_def)
qed

lemma pad_cols_result:
  assumes "screen_ok s" "r < sn_rows s" "c \<le> sn_cols s"
  shows "\<exists>s'. pad_cols r [c..<sn_cols s] s = Some s' \<and>
    row_from r c (replicate (sn_cols s - c) default_cell) s s'"
  using assms
proof (induction "sn_cols s - c" arbitrary: s c)
  case 0
  then have "length (sn_cells s ! r) \<le> c" using row_length[of s r] by simp
  then show ?case using 0 by (simp add: row_from_def extends_refl)
next
  case (Suc n)
  then have c: "c < sn_cols s" by simp
  obtain s1 where s1: "update_cell_in_place r c [32] default_attributes s = Some s1" "extends_screen s s1"
    using update_cell_result[OF Suc.prems(1,2) c] by metis
  then have [simp]: "sn_cols s1 = sn_cols s" "sn_rows s1 = sn_rows s" by (simp_all add: extends_screen_def)
  have "n = sn_cols s1 - Suc c" using Suc.hyps(2) c by simp
  then have "\<exists>s2. pad_cols r [Suc c..<sn_cols s1] s1 = Some s2 \<and>
      row_from r (Suc c) (replicate (sn_cols s1 - Suc c) default_cell) s1 s2"
    using Suc.hyps(1)[of s1 "Suc c"] Suc.prems(2) c extends_ok[OF s1(2)] by simp
  then obtain s2 where s2: "pad_cols r [Suc c..<sn_cols s1] s1 = Some s2"
    "row_from r (Suc c) (replicate (sn_cols s1 - Suc c) default_cell) s1 s2"
    by blast
  have "row_from r c (shown_cell ([32], default_attributes) # replicate (sn_cols s1 - Suc c) default_cell) s s2"
    by (rule row_from_step[OF Suc.prems(1,2) c s1(1) s2(2)])
  moreover have "shown_cell ([32], default_attributes) # replicate (sn_cols s1 - Suc c) default_cell =
      replicate (sn_cols s - c) default_cell"
    using c by (simp add: shown_cell_def default_cell_def Suc_diff_Suc flip: replicate_Suc)
  ultimately show ?case using c s1 s2(1) by (simp add: upt_conv_Cons)
qed

text \<open>The row a list of render cells stands for, padded or cut to \<open>n\<close> columns.\<close>

definition shown_row ::
    "(byte \<times> byte \<times> byte) list \<Rightarrow> (byte \<times> byte \<times> byte) \<times> (byte \<times> byte \<times> byte) \<Rightarrow> nat \<Rightarrow> rs_cell list \<Rightarrow> cell list" where
  "shown_row palette colors n xs =
     vec_resize n default_cell (map (\<lambda>x. shown_cell (sync_cell palette colors x)) xs)"

lemma vec_resize_Cons: "0 < n \<Longrightarrow> vec_resize n d (x # xs) = x # vec_resize (n - 1) d xs"
  by (cases n) (simp_all add: vec_resize_def)

lemma sync_cells_result:
  assumes "screen_ok s" "r < sn_rows s" "c \<le> sn_cols s"
  shows "\<exists>s'. sync_cells palette colors r (sn_cols s) c xs s = Some s' \<and>
    row_from r c (shown_row palette colors (sn_cols s - c) xs) s s'"
  using assms
proof (induction xs arbitrary: s c)
  case Nil
  then show ?case using pad_cols_result by (simp add: shown_row_def vec_resize_def)
next
  case (Cons x xs)
  show ?case
  proof (cases "c < sn_cols s")
    case False
    then show ?thesis
      using pad_cols_result[OF Cons.prems] by (simp add: shown_row_def vec_resize_def)
  next
    case True
    obtain g a where x: "sync_cell palette colors x = (g, a)" by fastforce
    obtain s1 where s1: "update_cell_in_place r c g a s = Some s1" "extends_screen s s1"
      using update_cell_result[OF Cons.prems(1,2) True] by metis
    then have [simp]: "sn_cols s1 = sn_cols s" "sn_rows s1 = sn_rows s" by (simp_all add: extends_screen_def)
    obtain s2 where s2: "sync_cells palette colors r (sn_cols s1) (Suc c) xs s1 = Some s2"
      "row_from r (Suc c) (shown_row palette colors (sn_cols s1 - Suc c) xs) s1 s2"
      using Cons.IH[of s1 "Suc c"] Cons.prems(2) True extends_ok[OF s1(2)] by auto
    have "row_from r c (shown_cell (g, a) # shown_row palette colors (sn_cols s1 - Suc c) xs) s s2"
      by (rule row_from_step[OF Cons.prems(1,2) True s1(1) s2(2)])
    moreover have "shown_row palette colors (sn_cols s - c) (x # xs) =
        shown_cell (g, a) # shown_row palette colors (sn_cols s1 - Suc c) xs"
      using True by (simp add: shown_row_def vec_resize_Cons x)
    ultimately show ?thesis using True x s1(1) s2(1) by simp
  qed
qed

text \<open>The rows from \<open>r\<close> on.\<close>

definition grid_from :: "nat \<Rightarrow> cell list list \<Rightarrow> screen \<Rightarrow> screen \<Rightarrow> bool" where
  "grid_from r rows s s' \<longleftrightarrow> extends_screen s s' \<and> sn_cells s' = take r (sn_cells s) @ rows"

lemma grid_from_step:
  assumes "screen_ok s" "r < sn_rows s" "row_from r 0 xs s s1" "grid_from (Suc r) rows s1 s2"
  shows "grid_from r (xs # rows) s s2"
proof -
  have len: "r < length (sn_cells s)" using assms(1,2) by (simp add: screen_ok_def)
  have c: "sn_cells s1 = (sn_cells s)[r := xs]" using assms(3) by (simp add: row_from_def)
  have "take (Suc r) (sn_cells s1) = take r (sn_cells s) @ [xs]"
    using len by (simp add: c take_Suc_conv_app_nth)
  then show ?thesis
    using assms(3,4) extends_trans by (auto simp: row_from_def grid_from_def)
qed

lemma extends_wrap: "extends_screen s t \<Longrightarrow> extends_screen s (set_row_wrap r w t)"
  by (simp add: extends_screen_def)

lemma row_from_wrap: "row_from r c xs s t \<Longrightarrow> row_from r c xs s (set_row_wrap r' w t)"
  by (simp add: row_from_def extends_wrap)

lemma pad_rows_result:
  assumes "screen_ok s" "r \<le> sn_rows s"
  shows "\<exists>s'. pad_rows [r..<sn_rows s] (sn_cols s) s = Some s' \<and>
    grid_from r (replicate (sn_rows s - r) (replicate (sn_cols s) default_cell)) s s'"
  using assms
proof (induction "sn_rows s - r" arbitrary: s r)
  case 0
  then have "length (sn_cells s) \<le> r" by (simp add: screen_ok_def)
  then show ?case using 0 by (simp add: grid_from_def extends_refl)
next
  case (Suc n)
  then have r: "r < sn_rows s" by simp
  obtain s1 where s1: "pad_cols r [0..<sn_cols s] s = Some s1"
    "row_from r 0 (replicate (sn_cols s) default_cell) s s1"
    using pad_cols_result[OF Suc.prems(1) r, of 0] by auto
  then have e: "extends_screen s s1" by (simp add: row_from_def)
  then have [simp]: "sn_cols s1 = sn_cols s" "sn_rows s1 = sn_rows s" by (simp_all add: extends_screen_def)
  have "n = sn_rows s1 - Suc r" using Suc.hyps(2) r by simp
  then have "\<exists>s2. pad_rows [Suc r..<sn_rows s1] (sn_cols s1) s1 = Some s2 \<and>
      grid_from (Suc r) (replicate (sn_rows s1 - Suc r) (replicate (sn_cols s1) default_cell)) s1 s2"
    using Suc.hyps(1)[of s1 "Suc r"] r extends_ok[OF e] by simp
  then obtain s2 where s2: "pad_rows [Suc r..<sn_rows s1] (sn_cols s1) s1 = Some s2"
    "grid_from (Suc r) (replicate (sn_rows s1 - Suc r) (replicate (sn_cols s1) default_cell)) s1 s2"
    by blast
  note grid_from_step[OF Suc.prems(1) r s1(2) s2(2)]
  moreover have "replicate (sn_cols s) default_cell #
      replicate (sn_rows s1 - Suc r) (replicate (sn_cols s1) default_cell) =
      replicate (sn_rows s - r) (replicate (sn_cols s) default_cell)"
    using r by (simp add: Suc_diff_Suc flip: replicate_Suc)
  ultimately show ?case using r s1(1) s2(1) by (simp add: upt_conv_Cons)
qed

definition shown_grid ::
    "(byte \<times> byte \<times> byte) list \<Rightarrow> (byte \<times> byte \<times> byte) \<times> (byte \<times> byte \<times> byte) \<Rightarrow> nat \<Rightarrow> nat \<Rightarrow>
     (rs_cell list \<times> 64 word) list \<Rightarrow> cell list list" where
  "shown_grid palette colors m n rows =
     vec_resize m (replicate n default_cell) (map (\<lambda>(xs, _). shown_row palette colors n xs) rows)"

lemma sync_rows_result:
  assumes "screen_ok s" "r \<le> sn_rows s"
  shows "\<exists>s'. sync_rows palette colors (sn_rows s) (sn_cols s) r rows s = Some s' \<and>
    grid_from r (shown_grid palette colors (sn_rows s - r) (sn_cols s) rows) s s'"
  using assms
proof (induction rows arbitrary: s r)
  case Nil
  then show ?case using pad_rows_result by (simp add: shown_grid_def vec_resize_def)
next
  case (Cons row rows)
  obtain xs raw where row: "row = (xs, raw)" by fastforce
  show ?case
  proof (cases "r < sn_rows s")
    case False
    then show ?thesis
      using pad_rows_result[OF Cons.prems] by (simp add: row shown_grid_def vec_resize_def)
  next
    case True
    let ?w = "drop_bit 32 raw AND 1 \<noteq> 0"
    obtain s1 where s1: "sync_cells palette colors r (sn_cols s) 0 xs s = Some s1"
      "row_from r 0 (shown_row palette colors (sn_cols s) xs) s s1"
      using sync_cells_result[OF Cons.prems(1) True, of 0 palette colors xs] by auto
    let ?s1 = "set_row_wrap r ?w s1"
    have rf: "row_from r 0 (shown_row palette colors (sn_cols s) xs) s ?s1"
      by (rule row_from_wrap[OF s1(2)])
    then have e: "extends_screen s ?s1" by (simp add: row_from_def)
    then have sz: "sn_cols ?s1 = sn_cols s" "sn_rows ?s1 = sn_rows s" by (simp_all add: extends_screen_def)
    obtain s2 where s2: "sync_rows palette colors (sn_rows ?s1) (sn_cols ?s1) (Suc r) rows ?s1 = Some s2"
      "grid_from (Suc r) (shown_grid palette colors (sn_rows ?s1 - Suc r) (sn_cols ?s1) rows) ?s1 s2"
      using Cons.IH[of ?s1 "Suc r"] True extends_ok[OF e] unfolding sz by auto
    note grid_from_step[OF Cons.prems(1) True rf s2(2)]
    moreover have "shown_grid palette colors (sn_rows s - r) (sn_cols s) (row # rows) =
        shown_row palette colors (sn_cols s) xs #
        shown_grid palette colors (sn_rows ?s1 - Suc r) (sn_cols ?s1) rows"
      using True unfolding sz by (simp add: shown_grid_def vec_resize_Cons row)
    ultimately show ?thesis using True s1(1) s2(1) unfolding sz by (simp add: row Let_def)
  qed
qed

subsection \<open>The cache of the terminal\<close>

lemma sync_from_ensured:
  assumes "screen_ok s"
  shows "\<exists>s'. sync_rows palette colors m n 0 rows (ensure_capacity m n s) = Some s' \<and>
    sn_cells s' = shown_grid palette colors m n rows \<and> sn_rows s' = m \<and> sn_cols s' = n \<and> screen_ok s' \<and>
    (sn_generation s' = sn_generation s \<and> sn_rows s = m \<and> sn_cols s = n \<longrightarrow> sn_cells s' = sn_cells s)"
proof -
  let ?s = "ensure_capacity m n s"
  obtain s' where "sync_rows palette colors (sn_rows ?s) (sn_cols ?s) 0 rows ?s = Some s'"
    "grid_from 0 (shown_grid palette colors (sn_rows ?s - 0) (sn_cols ?s) rows) ?s s'"
    using sync_rows_result[OF ensure_capacity_ok[OF assms], of 0] by blast
  then have s': "sync_rows palette colors m n 0 rows ?s = Some s'" "extends_screen ?s s'"
    "sn_cells s' = shown_grid palette colors m n rows"
    by (simp_all add: grid_from_def)
  have "sn_cells s' = sn_cells s" if "sn_generation s' = sn_generation s" "sn_rows s = m" "sn_cols s = n"
    using that s'(2) ensure_capacity_same[OF assms that(2,3)] by (simp add: extends_screen_def)
  then show ?thesis using s' by (simp add: extends_screen_def)
qed


definition plain_style :: style where
  "plain_style = \<lparr>st_fg_color = NoColor, st_bg_color = NoColor, st_bold = False, st_italic = False,
     st_faint = False, st_inverse = False, st_strikethrough = False, st_underline = 0\<rparr>"

definition letter_cell :: "u32 \<Rightarrow> rs_cell" where
  "letter_cell c = \<lparr>rc_graphemes = [c], rc_style = plain_style, rc_bg_color = None\<rparr>"

definition two_letters :: render_state where
  "two_letters = \<lparr>rs_update_ok = True, rs_dirty = True, rs_colors = Some ((255, 255, 255), (0, 0, 0)),
     rs_num_rows = 2, rs_num_cols = 3, rs_grid = [([letter_cell 104, letter_cell 105], 0)]\<rparr>"


text \<open>
  The flag that forces a copy is cleared even if the update of the render state failed, so after a
  resize or a scroll the old grid stays until libghostty reports a change.
\<close>

theorem failed_update_forgets_dirty:
  assumes "\<not> rs_update_ok rs" "rs_update_ok rs2" "\<not> rs_dirty rs2" "sn_generation (vc_screen cache) \<noteq> 0"
  shows "\<exists>cache'. terminal_screen palette rs cache = Some (rs, cache') \<and>
    terminal_screen palette rs2 cache' = Some (rs2, cache') \<and> vc_screen cache' = vc_screen cache"
  using assms by (simp add: terminal_screen_def sync_screen_def)

subsection \<open>Selections\<close>

text \<open>The cells of a linear selection are those between its two ends in reading order.\<close>

lemma contains_linear:
  assumes "se_mode sel = NormalMode \<or> se_mode sel = WordMode" "selection_ordered sel = ((sr, sc), (er, ec))"
  shows "selection_contains sel row col \<longleftrightarrow>
    (sr < row \<or> sr = row \<and> sc \<le> col) \<and> (row < er \<or> row = er \<and> col \<le> ec)"
  using assms by (auto simp: selection_contains_def selection_ordered_def split: if_splits)

lemma ordered_rows:
  assumes "selection_ordered sel = ((sr, sc), (er, ec))"
  shows "sr \<le> er"
  using assms by (auto simp: selection_ordered_def split: if_splits)

end
