(* ===== verification/CopyProps.thy ===== *)
theory CopyProps
  imports Scrollback GridProps
begin

section \<open>Copying what is selected\<close>

text \<open>
  \<open>shows_history\<close> is what the two walks through the scrollback rely on: the terminal shows a window
  of its history, and scrolling moves the window by the given number of rows, as far as the history
  goes. Under it \<open>copy_selection\<close> returns exactly if the selection ends within the history, with the
  selected cells and the window back where it was. A selection that ends below, as one does after
  the history got shorter, makes it loop for ever.
\<close>

subsection \<open>The history behind the window\<close>

definition shows_history :: "'v viewport \<Rightarrow> nat \<Rightarrow> ('v \<Rightarrow> (cell list \<times> bool) list) \<Rightarrow> bool" where
  "shows_history V n hist \<longleftrightarrow>
     (\<forall>v. scroll_total V v = length (hist v) \<and> 0 < scroll_len V v \<and>
       scroll_offset V v + scroll_len V v \<le> length (hist v) \<and>
       (\<forall>row \<in> set (hist v). length (fst row) = n) \<and>
       sn_rows (viewport_screen V v) = scroll_len V v \<and> sn_cols (viewport_screen V v) = n \<and>
       sn_cells (viewport_screen V v) = map fst (take (scroll_len V v) (drop (scroll_offset V v) (hist v))) \<and>
       sn_row_wraps (viewport_screen V v) = map snd (take (scroll_len V v) (drop (scroll_offset V v) (hist v))) \<and>
       (\<forall>d. hist (scroll_viewport_delta V d v) = hist v \<and>
          scroll_len V (scroll_viewport_delta V d v) = scroll_len V v \<and>
          int (scroll_offset V (scroll_viewport_delta V d v)) =
            max 0 (min (int (length (hist v)) - int (scroll_len V v)) (int (scroll_offset V v) + d))))"

lemma history:
  assumes "shows_history V n hist"
  shows "scroll_total V v = length (hist v)" "0 < scroll_len V v"
    "scroll_offset V v + scroll_len V v \<le> length (hist v)"
    "i < length (hist v) \<Longrightarrow> length (fst (hist v ! i)) = n"
    "sn_rows (viewport_screen V v) = scroll_len V v" "sn_cols (viewport_screen V v) = n"
    "hist (scroll_viewport_delta V d v) = hist v"
    "scroll_len V (scroll_viewport_delta V d v) = scroll_len V v"
    "int (scroll_offset V (scroll_viewport_delta V d v)) =
       max 0 (min (int (length (hist v)) - int (scroll_len V v)) (int (scroll_offset V v) + d))"
  using assms unfolding shows_history_def by (auto dest: spec[of _ v] nth_mem)

lemma history_row:
  assumes "shows_history V n hist" "i < scroll_len V v"
  shows "screen_row i (viewport_screen V v) = Some (fst (hist v ! (scroll_offset V v + i)))"
    "is_row_wrapped i (viewport_screen V v) = snd (hist v ! (scroll_offset V v + i))"
proof -
  have c: "sn_cells (viewport_screen V v) = map fst (take (scroll_len V v) (drop (scroll_offset V v) (hist v)))"
    "sn_row_wraps (viewport_screen V v) = map snd (take (scroll_len V v) (drop (scroll_offset V v) (hist v)))"
    using assms(1) by (simp_all add: shows_history_def)
  have l: "i < length (take (scroll_len V v) (drop (scroll_offset V v) (hist v)))"
    using assms(2) history(3)[OF assms(1), of v] by simp
  show "screen_row i (viewport_screen V v) = Some (fst (hist v ! (scroll_offset V v + i)))"
    "is_row_wrapped i (viewport_screen V v) = snd (hist v ! (scroll_offset V v + i))"
    using l assms(2) by (simp_all add: screen_row_def is_row_wrapped_def vec_get_def c)
qed

lemma scroll_by_history:
  assumes "shows_history V n hist"
  shows "hist (scroll_by V d v) = hist v" "scroll_len V (scroll_by V d v) = scroll_len V v"
    "int (scroll_offset V (scroll_by V d v)) =
       max 0 (min (int (length (hist v)) - int (scroll_len V v)) (int (scroll_offset V v) + d))"
  using history(7-9)[OF assms, of d v] history(3)[OF assms, of v] by (auto simp: scroll_by_def)

text \<open>Scrolling to a given row, as far as the history allows.\<close>

lemma scroll_to:
  assumes "shows_history V n hist"
  shows "scroll_offset V (scroll_by V (int c - int (scroll_offset V v)) v) =
    min c (length (hist v) - scroll_len V v)"
proof -
  have "int (scroll_offset V (scroll_by V (int c - int (scroll_offset V v)) v)) =
      int (min c (length (hist v) - scroll_len V v))"
    using scroll_by_history(3)[OF assms, of "int c - int (scroll_offset V v)" v] history(3)[OF assms, of v]
    by simp
  then show ?thesis by (simp only: of_nat_eq_iff)
qed

subsection \<open>The rows of a selection\<close>

text \<open>The selected text of row \<open>r\<close> of a history, and whether the next row continues it.\<close>

definition copied_row :: "nat \<Rightarrow> selection \<Rightarrow> (cell list \<times> bool) list \<Rightarrow> nat \<Rightarrow> char_text \<times> bool" where
  "copied_row n sel h r =
     (concat (map (\<lambda>c. ce_grapheme (fst (h ! r) ! c)) (filter (selection_contains sel r) [0..<n])),
      snd (h ! r) \<or> r < fst (snd (selection_ordered sel)) \<and> n > 10 \<and> trailing_spaces (fst (h ! r)) < n div 5)"

lemma drop_take_filter:
  "drop a (take b xs) = map ((!) xs) (filter (\<lambda>c. a \<le> c \<and> c < b) [0..<length xs])"
proof -
  have "filter (\<lambda>c. a \<le> c \<and> c < b) [0..<length xs] = [a..<min b (length xs)]"
  proof (rule sorted_distinct_set_unique)
    show "set (filter (\<lambda>c. a \<le> c \<and> c < b) [0..<length xs]) = set [a..<min b (length xs)]" by auto
  qed (simp_all add: sorted_wrt_filter)
  then show ?thesis by (intro nth_equalityI) (auto simp: nth_upt less_diff_conv add.commute)
qed

lemma selected_cells:
  assumes "selection_ordered sel = ((sr, sc), (er, ec))" "sr \<le> r" "r \<le> er" "length cells = n"
    "selected_cols sel n r = (a, b)"
  shows "drop a (take (min b (length cells - 1) + 1) cells) =
    map ((!) cells) (filter (selection_contains sel r) [0..<n])"
proof -
  have "(a \<le> c \<and> c < min b (n - 1) + 1) \<longleftrightarrow> selection_contains sel r c" if "c < n" for c
  proof (cases "se_mode sel")
    case BlockMode
    then show ?thesis
      using assms that by (auto simp: selected_cols_def selection_contains_def)
  next
    case LineMode
    then show ?thesis
      using assms that by (auto simp: selected_cols_def selection_contains_def)
  qed (use assms that in \<open>auto simp: contains_linear[OF _ assms(1)] selected_cols_def split: if_splits\<close>)
  then have "filter (\<lambda>c. a \<le> c \<and> c < min b (n - 1) + 1) [0..<n] = filter (selection_contains sel r) [0..<n]"
    by (intro filter_cong) auto
  then show ?thesis using assms(4) by (simp add: drop_take_filter)
qed

lemma copy_rows_page:
  assumes "shows_history V n hist" "selection_ordered sel = ((sr, sc), (er, ec))"
    "\<And>r. r \<in> set rows \<Longrightarrow> sr \<le> r \<and> r \<le> er \<and> scroll_offset V v \<le> r \<and> r < scroll_offset V v + scroll_len V v"
  shows "copy_rows (viewport_screen V v) sel (scroll_offset V v) rows =
    Some (map (copied_row n sel (hist v)) rows)"
  using assms(3)
proof (induction rows)
  case (Cons r rows)
  let ?i = "r - scroll_offset V v"
  have r: "sr \<le> r" "r \<le> er" "scroll_offset V v \<le> r" "?i < scroll_len V v"
    using Cons.prems[of r] by auto
  have l: "length (fst (hist v ! r)) = n"
    using r history(3)[OF assms(1), of v] by (intro history(4)[OF assms(1)]) linarith
  obtain a b where ab: "selected_cols sel n r = (a, b)" by fastforce
  have row: "screen_row ?i (viewport_screen V v) = Some (fst (hist v ! r))"
    "is_row_wrapped ?i (viewport_screen V v) = snd (hist v ! r)"
    using history_row[OF assms(1) r(4)] r(3) by simp_all
  have "map (\<lambda>c. ce_grapheme (fst (hist v ! r) ! c)) (filter (selection_contains sel r) [0..<n]) =
      map ce_grapheme (drop a (take (min b (length (fst (hist v ! r)) - 1) + 1) (fst (hist v ! r))))"
    unfolding selected_cells[OF assms(2) r(1,2) l ab] by simp
  then show ?case
    using Cons.IH Cons.prems r(4) row ab assms(2) history(5,6)[OF assms(1), of v]
    by (auto simp: copied_row_def row_is_wrapped_def Let_def not_le)
qed simp

lemma copy_rows_no_panic:
  assumes "shows_history V n hist"
  shows "copy_rows (viewport_screen V v) sel off rows \<noteq> None"
proof (induction rows)
  case (Cons r rows)
  show ?case
  proof (cases "r - off < scroll_len V v")
    case True
    show ?thesis
      using Cons history_row(1)[OF assms True] history(5)[OF assms, of v]
      by (auto simp: Let_def split: prod.split)
  qed (simp add: Let_def history(5)[OF assms])
qed simp

subsection \<open>The walk\<close>

lemma page_bounds:
  assumes "shows_history V n hist" "cursor \<le> er" "er < length (hist v)"
    "v1 = scroll_by V (int cursor - int (scroll_offset V v)) v"
  shows "scroll_offset V v1 \<le> cursor"
    "cursor \<le> min er (scroll_offset V v1 + (scroll_len V v1 - 1))"
proof -
  have o: "scroll_offset V v1 = min cursor (length (hist v) - scroll_len V v)"
    "scroll_len V v1 = scroll_len V v"
    using scroll_to[OF assms(1)] scroll_by_history(2)[OF assms(1)] assms(4) by simp_all
  then show "scroll_offset V v1 \<le> cursor" by simp
  show "cursor \<le> min er (scroll_offset V v1 + (scroll_len V v1 - 1))"
    using o assms(2,3) history(2,3)[OF assms(1), of v] by simp
qed

lemma copy_pages_result:
  assumes "shows_history V n hist" "selection_ordered sel = ((sr, sc), (er, ec))" "er < length (hist v)"
    "sr \<le> cursor"
  shows "\<exists>v'. copy_pages V sel er cursor v lines =
      Some (Some (v', lines @ map (copied_row n sel (hist v)) [cursor..<er + 1])) \<and> hist v' = hist v \<and>
      scroll_len V v' = scroll_len V v"
  using assms(3,4)
proof (induction "er + 1 - cursor" arbitrary: cursor v lines rule: less_induct)
  case less
  show ?case
  proof (cases "cursor > er")
    case True
    then show ?thesis by (simp add: copy_pages.simps[of V sel er cursor])
  next
    case False
    define v1 where "v1 = scroll_by V (int cursor - int (scroll_offset V v)) v"
    define page_end where "page_end = min er (scroll_offset V v1 + (scroll_len V v1 - 1))"
    note b = page_bounds[OF assms(1) _ less.prems(1) v1_def]
    have h1: "hist v1 = hist v" "scroll_len V v1 = scroll_len V v"
      unfolding v1_def by (simp_all add: scroll_by_history[OF assms(1)])
    have pe: "cursor \<le> page_end" "page_end \<le> er" "scroll_offset V v1 \<le> cursor"
      using b False by (simp_all add: page_end_def)
    have unf: "copy_pages V sel er cursor v lines =
        (case copy_rows (viewport_screen V v1) sel (scroll_offset V v1) [cursor..<page_end + 1] of
           None \<Rightarrow> Some None
         | Some rows \<Rightarrow> copy_pages V sel er (page_end + 1) v1 (lines @ rows))"
      by (subst copy_pages.simps) (simp only: False Let_def v1_def[symmetric] page_end_def[symmetric] if_False)
    have "copy_rows (viewport_screen V v1) sel (scroll_offset V v1) [cursor..<page_end + 1] =
        Some (map (copied_row n sel (hist v1)) [cursor..<page_end + 1])"
    proof (rule copy_rows_page[OF assms(1,2)])
      fix r assume "r \<in> set [cursor..<page_end + 1]"
      then show "sr \<le> r \<and> r \<le> er \<and> scroll_offset V v1 \<le> r \<and> r < scroll_offset V v1 + scroll_len V v1"
        using pe less.prems(2) history(2)[OF assms(1), of v1] by (simp add: page_end_def; linarith)
    qed
    moreover have "\<exists>v'. copy_pages V sel er (page_end + 1) v1
          (lines @ map (copied_row n sel (hist v)) [cursor..<page_end + 1]) =
        Some (Some (v', (lines @ map (copied_row n sel (hist v)) [cursor..<page_end + 1]) @
          map (copied_row n sel (hist v1)) [page_end + 1..<er + 1])) \<and> hist v' = hist v1 \<and>
        scroll_len V v' = scroll_len V v1"
      using pe less.prems by (intro less.hyps) (simp_all add: h1)
    then obtain v' where "copy_pages V sel er (page_end + 1) v1
          (lines @ map (copied_row n sel (hist v)) [cursor..<page_end + 1]) =
        Some (Some (v', (lines @ map (copied_row n sel (hist v)) [cursor..<page_end + 1]) @
          map (copied_row n sel (hist v)) [page_end + 1..<er + 1]))"
      "hist v' = hist v" "scroll_len V v' = scroll_len V v"
      unfolding h1 by blast
    moreover have "[cursor..<er + 1] = [cursor..<page_end + 1] @ [page_end + 1..<er + 1]"
      using pe upt_add_eq_append[of cursor "page_end + 1" "er - page_end"] by (simp del: upt_Suc)
    ultimately show ?thesis
      unfolding unf by (simp add: h1 del: upt_Suc flip: map_append)
  qed
qed

text \<open>If the selection ends below the history, a page never gets past the last row, so a walk that
  returns contradicts itself.\<close>

lemma copy_pages_returns:
  assumes "shows_history V n hist" "copy_pages V sel er cursor v lines = Some res"
  shows "cursor \<le> er \<Longrightarrow> er < length (hist v)"
proof -
  define P where "P = (\<lambda>(W :: 'a viewport) (sl :: selection) e c u (ls :: (char_text \<times> bool) list) (rr :: ('a \<times> (char_text \<times> bool) list) option).
      W = V \<longrightarrow> c \<le> e \<longrightarrow> e < length (hist u))"
  have "P V sel er cursor v lines res"
  proof (rule copy_pages.raw_induct[OF _ assms(2)])
    fix f :: "'a viewport \<Rightarrow> selection \<Rightarrow> nat \<Rightarrow> nat \<Rightarrow> 'a \<Rightarrow> (char_text \<times> bool) list \<Rightarrow>
        ('a \<times> (char_text \<times> bool) list) option option"
    fix W sl e c u ls rr
    assume IH: "\<And>W sl e c u ls rr. f W sl e c u ls = Some rr \<Longrightarrow> P W sl e c u ls rr"
    assume step: "(if e < c then Some (Some (u, ls))
         else let v1 = scroll_by W (int c - int (scroll_offset W u)) u; vp_off = scroll_offset W v1;
                  page_end = min e (vp_off + (scroll_len W v1 - 1))
              in case copy_rows (viewport_screen W v1) sl vp_off [c..<page_end + 1] of None \<Rightarrow> Some None
                 | Some rows \<Rightarrow> f W sl e (page_end + 1) v1 (ls @ rows)) = Some rr"
    show "P W sl e c u ls rr"
    proof (unfold P_def, intro impI)
      assume W: "W = V" and ce: "c \<le> e"
      define v1 where "v1 = scroll_by V (int c - int (scroll_offset V u)) u"
      define page_end where "page_end = min e (scroll_offset V v1 + (scroll_len V v1 - 1))"
      have h1: "hist v1 = hist u" unfolding v1_def by (simp add: scroll_by_history[OF assms(1)])
      show "e < length (hist u)"
      proof (rule ccontr)
        assume "\<not> e < length (hist u)"
        then have "page_end + 1 \<le> e"
          using history(2,3)[OF assms(1), of v1] unfolding page_end_def h1 by linarith
        moreover obtain rows where rows: "copy_rows (viewport_screen V v1) sl (scroll_offset V v1) [c..<page_end + 1] = Some rows"
          using copy_rows_no_panic[OF assms(1)] by fastforce
        then have "f V sl e (page_end + 1) v1 (ls @ rows) = Some rr"
          using step ce unfolding W Let_def v1_def[symmetric] page_end_def[symmetric] by simp
        ultimately show False
          using IH[of V sl e "page_end + 1" v1 "ls @ rows" rr] h1 \<open>\<not> e < length (hist u)\<close> by (simp add: P_def)
      qed
    qed
  qed
  then show "cursor \<le> er \<Longrightarrow> er < length (hist v)" by (simp add: P_def)
qed

subsection \<open>The copy\<close>

text \<open>What a selection that lies within the history puts on the clipboard.\<close>

definition copied_text :: "nat \<Rightarrow> selection \<Rightarrow> (cell list \<times> bool) list \<Rightarrow> char_text option" where
  "copied_text n sel h =
     (let ((sr, _), (er, _)) = selection_ordered sel;
          raw_text = join_lines False (map (copied_row n sel h) [sr..<er + 1]);
          cleaned = smart_copy_pipeline raw_text
      in if raw_text = [] \<or> cleaned = [] then None else Some cleaned)"

text \<open>
  C29: copying returns exactly if the selection ends within the history. It then never panics, and
  the clipboard gets the cells that are drawn as selected, row by row, joined and cleaned, while the
  terminal shows the same part of its history as before. If the history has become shorter than the
  selection the loop over the pages never ends.
\<close>

theorem copy_returns_iff_in_history:
  assumes "shows_history V n hist" "ts_selection s = Some sel"
  shows "(copy_selection V s \<noteq> None \<longleftrightarrow> fst (snd (selection_ordered sel)) < length (hist (ts_terminal s)))
    \<and> (fst (snd (selection_ordered sel)) < length (hist (ts_terminal s)) \<longrightarrow>
        (\<exists>s'. copy_selection V s = Some (Some (copied_text n sel (hist (ts_terminal s)), s'))
          \<and> hist (ts_terminal s') = hist (ts_terminal s)
          \<and> scrollbar_state V (ts_terminal s') = scrollbar_state V (ts_terminal s)))"
proof -
  obtain sr sc er ec where o: "selection_ordered sel = ((sr, sc), (er, ec))" by (metis surj_pair)
  let ?v = "ts_terminal s"
  have returned: "\<exists>s'. copy_selection V s = Some (Some (copied_text n sel (hist ?v), s'))
      \<and> hist (ts_terminal s') = hist ?v \<and> scrollbar_state V (ts_terminal s') = scrollbar_state V ?v"
    if er: "er < length (hist ?v)"
  proof -
    obtain v' where v': "copy_pages V sel er sr ?v [] =
        Some (Some (v', map (copied_row n sel (hist ?v)) [sr..<er + 1]))"
      "hist v' = hist ?v" "scroll_len V v' = scroll_len V ?v"
      using copy_pages_result[OF assms(1) o er order_refl, of "[]"] by auto
    define v1 where "v1 = scroll_by V (int (scroll_offset V ?v) - int (scroll_offset V v')) v'"
    have h: "hist v1 = hist ?v" "scroll_len V v1 = scroll_len V ?v"
      unfolding v1_def by (simp_all add: scroll_by_history[OF assms(1)] v'(2,3))
    have "scroll_offset V v1 = scroll_offset V ?v"
      unfolding v1_def scroll_to[OF assms(1)] using history(3)[OF assms(1), of ?v] by (simp add: v'(2,3))
    then have "scrollbar_state V v1 = scrollbar_state V ?v"
      using h history(1)[OF assms(1)]
      by (metis prod.collapse scroll_len_def scroll_offset_def scroll_total_def)
    moreover have "copy_selection V s = Some (Some (copied_text n sel (hist ?v), s\<lparr>ts_terminal := v1\<rparr>))"
      by (simp add: copy_selection_def assms(2) o v'(1) copied_text_def Let_def v1_def[symmetric] del: upt_Suc)
    ultimately show ?thesis using h(1) by auto
  qed
  have "er < length (hist ?v)" if "copy_selection V s \<noteq> None"
  proof -
    have "copy_pages V sel er sr ?v [] \<noteq> None"
      using that by (auto simp: copy_selection_def assms(2) o split: option.splits)
    then obtain res where "copy_pages V sel er sr ?v [] = Some res" by blast
    then show ?thesis by (rule copy_pages_returns[OF assms(1)]) (rule ordered_rows[OF o])
  qed
  then show ?thesis using returned o by auto
qed

subsection \<open>A terminal over a list of rows\<close>

text \<open>The state is the offset of the window, clamped when it is read.\<close>

definition list_viewport :: "nat \<Rightarrow> nat \<Rightarrow> (cell list \<times> bool) list \<Rightarrow> nat viewport" where
  "list_viewport n len rows =
     (let off = (\<lambda>v. min v (length rows - len))
      in \<lparr>scroll_viewport_delta = (\<lambda>d v. nat (max 0 (min (int (length rows) - int len) (int (off v) + d)))),
          scrollbar_state = (\<lambda>v. (length rows, off v, len)),
          viewport_screen = (\<lambda>v. let win = take len (drop (off v) rows) in
            \<lparr>sn_cells = map fst win, sn_rows = len, sn_cols = n, sn_row_generations = replicate len 0,
             sn_generation = 0, sn_row_wraps = map snd win\<rparr>)\<rparr>)"

lemma list_viewport_history:
  assumes "0 < len" "len \<le> length rows" "\<forall>row \<in> set rows. length (fst row) = n"
  shows "shows_history (list_viewport n len rows) n (\<lambda>_. rows)"
  using assms
  by (auto simp: shows_history_def list_viewport_def Let_def scroll_total_def scroll_len_def scroll_offset_def)

definition text_row :: "string \<Rightarrow> cell list \<times> bool" where
  "text_row t = (map (\<lambda>c. \<lparr>ce_grapheme = [of_char c], ce_attrs = default_attributes\<rparr>) t, False)"

definition three_rows :: "(cell list \<times> bool) list" where
  "three_rows = [text_row ''make'', text_row ''done'', text_row ''ls a'']"

definition demo_search :: search_state where
  "demo_search = \<lparr>ss_query = [], ss_all_matches = [], ss_matches = [], ss_current_index = 0,
     ss_current_viewport_index = None\<rparr>"

definition demo_terminal :: "selection option \<Rightarrow> nat terminal_state" where
  "demo_terminal sel = \<lparr>ts_terminal = 1, ts_cols = 4, ts_rows = 2, ts_selection = sel,
     ts_viewport_offset = 1, ts_search = demo_search\<rparr>"

lemma demo_rows:
  "map (copied_row 4 \<lparr>se_start = (0, 2), se_end = (2, 1), se_mode = NormalMode\<rparr> three_rows) [0..<2 + 1] =
    [([107, 101], False), ([100, 111, 110, 101], False), ([108, 115], False)]"
proof -
  have u: "[0..<2 + 1] = [0, 1, 2 :: nat]" "[0..<4] = [0, 1, 2, 3 :: nat]" by (simp_all add: upt_conv_Cons)
  show ?thesis
    unfolding u by (simp add: copied_row_def u three_rows_def text_row_def selection_contains_def selection_ordered_def)
qed

lemma demo_text:
  "smart_copy_pipeline [107, 101, 10, 100, 111, 110, 101, 10, 108, 115] =
    [107, 101, 10, 100, 111, 110, 101, 10, 108, 115]"
  by (simp add: smart_copy_pipeline_def strip_box_drawing_def strip_trailing_whitespace_def str_lines_def
      strip_cr_def trim_end_def white_space_def normalize_line_endings_def Let_def)

text \<open>The middle of the first row to the middle of the last is copied; with a selection made before
  the fourth row was dropped from the history the copy does not return.\<close>

theorem copy_returns_iff_in_history_witness:
  "(\<exists>s'. copy_selection (list_viewport 4 2 three_rows)
     (demo_terminal (Some \<lparr>se_start = (0, 2), se_end = (2, 1), se_mode = NormalMode\<rparr>)) =
     Some (Some (Some (map of_char ''ke'' @ [10] @ map of_char ''done'' @ [10] @ map of_char ''ls''), s')))
   \<and> copy_selection (list_viewport 4 2 three_rows)
     (demo_terminal (Some \<lparr>se_start = (0, 2), se_end = (3, 1), se_mode = NormalMode\<rparr>)) = None"
proof (intro conjI)
  have h: "shows_history (list_viewport 4 2 three_rows) 4 (\<lambda>_. three_rows)"
    by (rule list_viewport_history) (simp_all add: three_rows_def text_row_def)
  let ?sel = "\<lparr>se_start = (0, 2), se_end = (2, 1), se_mode = NormalMode\<rparr>"
  have o: "selection_ordered ?sel = ((0, 2), (2, 1))" by (simp add: selection_ordered_def)
  have t: "copied_text 4 ?sel three_rows =
      Some (map of_char ''ke'' @ [10] @ map of_char ''done'' @ [10] @ map of_char ''ls'')"
    unfolding copied_text_def o prod.case demo_rows Let_def by (simp add: demo_text)
  show "\<exists>s'. copy_selection (list_viewport 4 2 three_rows) (demo_terminal (Some ?sel)) =
      Some (Some (Some (map of_char ''ke'' @ [10] @ map of_char ''done'' @ [10] @ map of_char ''ls''), s'))"
    using copy_returns_iff_in_history[OF h, of "demo_terminal (Some ?sel)" ?sel] t
    by (auto simp: demo_terminal_def selection_ordered_def three_rows_def)
  show "copy_selection (list_viewport 4 2 three_rows)
      (demo_terminal (Some \<lparr>se_start = (0, 2), se_end = (3, 1), se_mode = NormalMode\<rparr>)) = None"
    using copy_returns_iff_in_history[OF h, of "demo_terminal (Some \<lparr>se_start = (0, 2), se_end = (3, 1), se_mode = NormalMode\<rparr>)"
        "\<lparr>se_start = (0, 2), se_end = (3, 1), se_mode = NormalMode\<rparr>"]
    by (auto simp: demo_terminal_def selection_ordered_def three_rows_def)
qed

end
