(* ===== verification/SearchProps.thy ===== *)
theory SearchProps
  imports CopyProps
begin

section \<open>Searching the history\<close>

text \<open>
  For a query that starts with a character of one byte the search ends, finds every occurrence in
  every row of the history and nothing else, and leaves the window where it was. For any other query
  it panics at the first occurrence. Moving to the next or the previous match shows it in the window.
\<close>

subsection \<open>Positions in bytes\<close>

lemma char_len_pos [simp]: "0 < char_len c"
  by (simp add: char_len_def encode_utf8_def)

lemma text_bytes_simps [simp]:
  "text_bytes [] = 0" "text_bytes (c # cs) = char_len c + text_bytes cs"
  "text_bytes (xs @ ys) = text_bytes xs + text_bytes ys"
  by (simp_all add: text_bytes_def)

lemma text_bytes_zero [simp]: "text_bytes cs = 0 \<longleftrightarrow> cs = []"
  by (cases cs) auto

lemma slice_at: "slice_from (text_bytes xs) (xs @ ys) = Some ys"
  by (induction xs) (simp_all, cases ys, simp_all)

text \<open>One byte into a character: past it if it has a single byte, otherwise a panic.\<close>

lemma slice_inside:
  "slice_from (text_bytes xs + 1) (xs @ c # ys) = (if char_len c = 1 then Some ys else None)"
proof (induction xs)
  case Nil
  have "slice_from 0 ys = Some ys" by (cases ys) simp_all
  moreover have "char_len c \<le> Suc 0 \<longleftrightarrow> char_len c = 1" using char_len_pos[of c] by linarith
  ultimately show ?case by simp
qed simp

subsection \<open>Occurrences\<close>

definition occurrences :: "char_text \<Rightarrow> char_text \<Rightarrow> nat list" where
  "occurrences q line = filter (\<lambda>i. prefix q (drop i line)) [0..<length line]"

lemma occurrences_Cons:
  "occurrences q (c # cs) = (if prefix q (c # cs) then [0] else []) @ map Suc (occurrences q cs)"
proof -
  have "[0..<length (c # cs)] = 0 # map Suc [0..<length cs]"
    by (simp add: upt_conv_Cons map_Suc_upt del: upt_Suc)
  then show ?thesis by (simp add: occurrences_def filter_map comp_def del: upt_Suc)
qed

lemma find_text_first:
  assumes "q \<noteq> []"
  shows "find_text q line = (case occurrences q line of [] \<Rightarrow> None | i # _ \<Rightarrow> Some (text_bytes (take i line)))"
proof (induction line)
  case Nil
  then show ?case using assms by (simp add: occurrences_def)
next
  case (Cons c cs)
  then show ?case by (cases "occurrences q cs") (simp_all add: occurrences_Cons)
qed

lemma occurrences_drop:
  "occurrences q (drop k line) = map (\<lambda>i. i - k) (filter (\<lambda>i. k \<le> i) (occurrences q line))"
proof (induction k arbitrary: line)
  case (Suc k)
  show ?case
  proof (cases line)
    case (Cons c cs)
    then show ?thesis using Suc[of cs] by (simp add: occurrences_Cons filter_map comp_def)
  qed (simp add: occurrences_def)
qed simp

text \<open>The characters of a line with their columns.\<close>

definition line_chars :: "(nat \<Rightarrow> nat list) \<Rightarrow> nat \<Rightarrow> cell list \<Rightarrow> (nat \<times> nat) list" where
  "line_chars lower col cells =
     concat (map (\<lambda>(k, x). map (\<lambda>c. (c, k)) (if ce_grapheme x = [] then [32] else concat (map lower (ce_grapheme x))))
       (enumerate col cells))"

definition byte_cols :: "(nat \<times> nat) list \<Rightarrow> nat list" where
  "byte_cols ps = concat (map (\<lambda>(c, k). replicate (char_len c) k) ps)"

lemma byte_cols_const: "byte_cols (map (\<lambda>c. (c, k)) cs) = replicate (text_bytes cs) k"
  by (induction cs) (simp_all add: byte_cols_def replicate_add)

lemma byte_cols_append [simp]: "byte_cols (ps @ qs) = byte_cols ps @ byte_cols qs"
  by (simp add: byte_cols_def)

lemma line_lower_chars:
  "line_lower lower col cells = (map fst (line_chars lower col cells), byte_cols (line_chars lower col cells))"
proof (induction cells arbitrary: col)
  case Nil
  then show ?case by (simp add: line_chars_def byte_cols_def)
next
  case (Cons x xs)
  let ?s = "if ce_grapheme x = [] then [32] else concat (map lower (ce_grapheme x))"
  have "line_chars lower col (x # xs) = map (\<lambda>c. (c, col)) ?s @ line_chars lower (col + 1) xs"
    by (simp add: line_chars_def)
  moreover have "map fst (map (\<lambda>c. (c, col)) ?s) = ?s" by (induction ?s) (simp_all add: comp_def)
  ultimately show ?case
    by (simp only: line_lower.simps Cons.IH Let_def prod.case map_append byte_cols_append byte_cols_const)
qed

lemma length_byte_cols: "length (byte_cols ps) = text_bytes (map fst ps)"
  by (induction ps) (auto simp: byte_cols_def)

lemma byte_cols_nth:
  assumes "i < length ps" "b < char_len (fst (ps ! i))"
  shows "byte_cols ps ! (text_bytes (map fst (take i ps)) + b) = snd (ps ! i)"
proof -
  obtain c k where ck: "ps ! i = (c, k)" by fastforce
  have "byte_cols ps = byte_cols (take i ps) @ replicate (char_len c) k @ byte_cols (drop (Suc i) ps)"
    using id_take_nth_drop[OF assms(1)] ck
    by (metis (no_types, lifting) append_Cons append_Nil byte_cols_append byte_cols_def concat.simps list.map(1) list.map(2) old.prod.case append_Nil2)
  moreover have "length (byte_cols (take i ps)) = text_bytes (map fst (take i ps))" by (rule length_byte_cols)
  ultimately show ?thesis using assms(2) ck by (simp add: nth_append)
qed

subsection \<open>One row\<close>

definition match_at :: "(nat \<times> nat) list \<Rightarrow> char_text \<Rightarrow> nat \<Rightarrow> nat \<Rightarrow> search_match" where
  "match_at ps q r i = (r, snd (ps ! i), snd (ps ! (i + length q - 1)) - snd (ps ! i) + 1)"

lemma occurrences_sorted: "sorted (occurrences q line)" "distinct (occurrences q line)"
  "\<forall>i \<in> set (occurrences q line). i < length line"
  by (auto simp: occurrences_def sorted_wrt_filter)

lemma next_occurrences:
  assumes "filter (\<lambda>j. k \<le> j) xs = i # rest" "sorted (xs :: nat list)" "distinct xs"
  shows "filter (\<lambda>j. Suc i \<le> j) xs = rest" "k \<le> i" "i \<in> set xs"
proof -
  have m: "i \<in> set (filter (\<lambda>j. k \<le> j) xs)" using assms(1) by simp
  then show "k \<le> i" "i \<in> set xs" by auto
  have s: "sorted (i # rest)" "distinct (i # rest)"
    using assms by (metis sorted_wrt_filter, metis distinct_filter)
  have "filter (\<lambda>j. Suc i \<le> j) xs = filter (\<lambda>j. Suc i \<le> j) (filter (\<lambda>j. k \<le> j) xs)"
    using \<open>k \<le> i\<close> by (auto intro!: filter_cong)
  also have "\<dots> = filter (\<lambda>j. Suc i \<le> j) (i # rest)" by (simp only: assms(1))
  also have "\<dots> = rest" using s by (auto intro!: filter_True simp: Suc_le_eq order_less_le)
  finally show "filter (\<lambda>j. Suc i \<le> j) xs = rest" .
qed

text \<open>One turn of the loop, from the start of a character.\<close>

lemma find_step:
  assumes "q \<noteq> []" "line = map fst ps" "k \<le> length line"
    "filter (\<lambda>j. k \<le> j) (occurrences q line) = i # rest"
  shows "find_in_row q line (byte_cols ps) r (text_bytes (take k line)) =
    (if text_bytes (take i line) + 1 \<ge> text_bytes line then Some [match_at ps q r i]
     else map_option ((#) (match_at ps q r i))
       (find_in_row q line (byte_cols ps) r (text_bytes (take i line) + 1)))"
proof -
  note occ = occurrences_sorted[of q line]
  have ki: "k \<le> i" "i \<in> set (occurrences q line)" using next_occurrences[OF assms(4) occ(1,2)] by auto
  then have i: "i < length line" "prefix q (drop i line)" by (auto simp: occurrences_def)
  obtain suf where suf: "drop i line = q @ suf" using i(2) by (auto simp: prefix_def)
  have len: "i + length q \<le> length line" using arg_cong[OF suf, of length] i(1) assms(1) by (simp; linarith)
  have pieces: "take (i + length q) line = take i line @ q" by (simp add: take_add suf)
  have "slice_from (text_bytes (take k line)) line = Some (drop k line)"
    using slice_at[of "take k line" "drop k line"] by simp
  moreover have "find_text q (drop k line) = Some (text_bytes (take (i - k) (drop k line)))"
    by (simp add: find_text_first[OF assms(1)] occurrences_drop assms(4))
  moreover have "text_bytes (take k line) + text_bytes (take (i - k) (drop k line)) = text_bytes (take i line)"
    using ki(1) by (metis le_add_diff_inverse take_add text_bytes_simps(3))
  moreover have blen: "length (byte_cols ps) = text_bytes line" by (simp add: length_byte_cols assms(2))
  moreover have le: "text_bytes (take i line) + text_bytes q \<le> text_bytes line"
    using arg_cong[OF append_take_drop_id[of "i + length q" line], of text_bytes] pieces by simp
  moreover have pos: "0 < text_bytes q" using assms(1) by (simp add: zero_less_iff_neq_zero)
  moreover have "byte_cols ps ! text_bytes (take i line) = snd (ps ! i)"
    using byte_cols_nth[of i ps 0] i(1) by (simp add: assms(2) take_map)
  moreover have "byte_cols ps ! (text_bytes (take i line) + text_bytes q - 1) = snd (ps ! (i + length q - 1))"
  proof -
    let ?e = "i + length q - 1"
    have e: "?e < length line" "Suc ?e = i + length q" using len assms(1) by (cases q; simp)+
    have "take (Suc ?e) line = take ?e line @ [line ! ?e]" using e(1) by (rule take_Suc_conv_app_nth)
    then have "text_bytes (take i line) + text_bytes q = text_bytes (take ?e line) + char_len (line ! ?e)"
      using pieces unfolding e(2) by (metis add.right_neutral text_bytes_simps)
    then have "text_bytes (take i line) + text_bytes q - 1 = text_bytes (take ?e line) + (char_len (line ! ?e) - 1)"
      using char_len_pos[of "line ! ?e"] by linarith
    then show ?thesis
      using byte_cols_nth[of ?e ps "char_len (line ! ?e) - 1"] e(1) char_len_pos[of "line ! ?e"]
      by (simp add: assms(2) take_map)
  qed
  ultimately show ?thesis
    by (subst find_in_row.simps) (auto simp: Let_def match_at_def option.map_comp comp_def intro!: option.map_cong)
qed

lemma find_none:
  assumes "q \<noteq> []" "filter (\<lambda>j. k \<le> j) (occurrences q line) = []" "k \<le> length line"
  shows "find_in_row q line b r (text_bytes (take k line)) = Some []"
proof -
  have "slice_from (text_bytes (take k line)) line = Some (drop k line)"
    using slice_at[of "take k line" "drop k line"] by simp
  then show ?thesis
    by (subst find_in_row.simps) (simp add: find_text_first[OF assms(1)] occurrences_drop assms(2))
qed

text \<open>The first byte of the query decides what a turn after a match does.\<close>

lemma occurrence_char:
  assumes "q = c # cs" "i \<in> set (occurrences q line)"
  shows "i < length line" "line ! i = c" "line = take i line @ c # drop (Suc i) line"
proof -
  have "i < length line" "prefix (c # cs) (drop i line)" using assms by (auto simp: occurrences_def)
  then show "i < length line" "line ! i = c" by (auto simp: prefix_def Cons_nth_drop_Suc[symmetric])
  then show "line = take i line @ c # drop (Suc i) line" by (metis id_take_nth_drop)
qed

lemma find_in_row_all:
  assumes "q = c # cs" "char_len c = 1" "line = map fst ps" "k \<le> length line"
  shows "find_in_row q line (byte_cols ps) r (text_bytes (take k line)) =
    Some (map (match_at ps q r) (filter (\<lambda>j. k \<le> j) (occurrences q line)))"
  using assms(4)
proof (induction "length line - k" arbitrary: k rule: less_induct)
  case less
  note occ = occurrences_sorted[of q line]
  have q: "q \<noteq> []" using assms(1) by simp
  show ?case
  proof (cases "filter (\<lambda>j. k \<le> j) (occurrences q line)")
    case Nil
    then show ?thesis using find_none[OF q Nil less.prems] by simp
  next
    case (Cons i rest)
    note nx = next_occurrences[OF Cons occ(1,2)]
    note ch = occurrence_char[OF assms(1) nx(3)]
    have suc: "text_bytes (take (Suc i) line) = text_bytes (take i line) + 1"
      using ch(1,2) assms(2) by (simp add: take_Suc_conv_app_nth)
    have tot: "text_bytes line = text_bytes (take i line) + 1 + text_bytes (drop (Suc i) line)"
      using arg_cong[OF ch(3), of text_bytes] assms(2) by simp
    note st = find_step[OF q assms(3) less.prems Cons, of r]
    show ?thesis
    proof (cases "drop (Suc i) line = []")
      case True
      then have "rest = []" using occ(3) unfolding nx(1)[symmetric] by (auto simp: filter_empty_conv)
      then show ?thesis using st tot True Cons by simp
    next
      case False
      then have "\<not> text_bytes (take i line) + 1 \<ge> text_bytes line" unfolding tot by simp
      moreover have "find_in_row q line (byte_cols ps) r (text_bytes (take (Suc i) line)) =
          Some (map (match_at ps q r) rest)"
        using less.hyps[of "Suc i"] nx(1,2) ch(1) by simp
      ultimately show ?thesis using st suc Cons by simp
    qed
  qed
qed

lemma find_in_row_panics:
  assumes "q = c # cs" "2 \<le> char_len c" "line = map fst ps" "occurrences q line \<noteq> []"
  shows "find_in_row q line (byte_cols ps) r 0 = None"
proof -
  note occ = occurrences_sorted[of q line]
  obtain i rest where ir: "filter (\<lambda>j. 0 \<le> j) (occurrences q line) = i # rest"
    using assms(4) by (cases "occurrences q line") auto
  note ch = occurrence_char[OF assms(1) next_occurrences(3)[OF ir occ(1,2)]]
  have "\<not> text_bytes (take i line) + 1 \<ge> text_bytes line"
    using arg_cong[OF ch(3), of text_bytes] assms(2) by simp
  moreover have "slice_from (text_bytes (take i line) + 1) line = None"
    using slice_inside[of "take i line" c "drop (Suc i) line"] ch(3) assms(2) by simp
  then have "find_in_row q line (byte_cols ps) r (text_bytes (take i line) + 1) = None"
    by (subst find_in_row.simps) simp
  ultimately show ?thesis
    using find_step[OF _ assms(3) _ ir, of r] assms(1) by simp
qed

subsection \<open>A page and the whole history\<close>

definition row_matches :: "(nat \<Rightarrow> nat list) \<Rightarrow> char_text \<Rightarrow> cell list \<Rightarrow> nat \<Rightarrow> search_match list" where
  "row_matches lower q cells r =
     (let ps = line_chars lower 0 cells in map (match_at ps q r) (occurrences q (map fst ps)))"

lemma collect_rows_all:
  assumes "shows_history V n hist" "q = c # cs" "char_len c = 1" "\<forall>i \<in> set rows. i < scroll_len V v"
  shows "collect_rows lower (viewport_screen V v) q (scroll_offset V v) n rows =
    Some (concat (map (\<lambda>i. row_matches lower q (fst (hist v ! (scroll_offset V v + i))) (scroll_offset V v + i)) rows))"
  using assms(4)
proof (induction rows)
  case (Cons i rows)
  let ?cells = "fst (hist v ! (scroll_offset V v + i))"
  have i: "i < scroll_len V v" using Cons.prems by simp
  then have "length ?cells = n"
    using history(3)[OF assms(1), of v] by (intro history(4)[OF assms(1)]) linarith
  then have t: "take (min n (length ?cells)) ?cells = ?cells" by simp
  show ?case
    using Cons.IH Cons.prems
      find_in_row_all[OF assms(2,3) refl le0, of "line_chars lower 0 ?cells" "scroll_offset V v + i"]
    by (simp add: history_row(1)[OF assms(1) i] t line_lower_chars row_matches_def Let_def)
qed simp

lemma collect_rows_panic:
  assumes "shows_history V n hist" "q = c # cs" "2 \<le> char_len c" "\<forall>i \<in> set rows. i < scroll_len V v"
  shows "collect_rows lower (viewport_screen V v) q (scroll_offset V v) n rows =
    (if \<forall>i \<in> set rows. row_matches lower q (fst (hist v ! (scroll_offset V v + i))) (scroll_offset V v + i) = []
     then Some [] else None)"
  using assms(4)
proof (induction rows)
  case (Cons i rows)
  let ?cells = "fst (hist v ! (scroll_offset V v + i))"
  let ?ps = "line_chars lower 0 ?cells"
  have i: "i < scroll_len V v" using Cons.prems by simp
  then have "length ?cells = n"
    using history(3)[OF assms(1), of v] by (intro history(4)[OF assms(1)]) linarith
  then have t: "take (min n (length ?cells)) ?cells = ?cells" by simp
  show ?case
  proof (cases "occurrences q (map fst ?ps) = []")
    case True
    then show ?thesis
      using Cons.IH Cons.prems find_none[of q 0 "map fst ?ps" "byte_cols ?ps" "scroll_offset V v + i"]
      by (simp add: history_row(1)[OF assms(1) i] t line_lower_chars row_matches_def Let_def assms(2))
  next
    case False
    then show ?thesis
      using find_in_row_panics[OF assms(2,3) refl, of ?ps "scroll_offset V v + i"]
      by (simp add: history_row(1)[OF assms(1) i] t line_lower_chars row_matches_def Let_def)
  qed
qed simp

text \<open>The search over a page whose rows and columns the pane agrees on with the terminal.\<close>

definition page_matches ::
    "(nat \<Rightarrow> nat list) \<Rightarrow> char_text \<Rightarrow> (cell list \<times> bool) list \<Rightarrow> nat \<Rightarrow> nat \<Rightarrow> search_match set" where
  "page_matches lower q h a b = (\<Union>r \<in> {a..<b}. set (row_matches lower q (fst (h ! r)) r))"

lemma page_matches_split: "a \<le> b \<Longrightarrow> b \<le> c \<Longrightarrow>
   page_matches lower q h a b \<union> page_matches lower q h b c = page_matches lower q h a c"
  by (simp add: page_matches_def ivl_disj_un_two(3) flip: UN_Un)

lemma UN_shift: "(\<Union>i \<in> {0..<n}. f (k + i)) = (\<Union>r \<in> {k..<k + n :: nat}. f r)"
proof -
  have "{k..<k + n} = (+) k ` {0..<n}" by (simp add: add.commute)
  then show ?thesis by (simp only: image_image)
qed

lemma collect_page:
  assumes "shows_history V n hist" "q = c # cs" "char_len c = 1" "scroll_len V v \<le> rows" "n \<le> cols"
  shows "\<exists>out. collect_matches_from_viewport lower (viewport_screen V v) q (scroll_offset V v) rows cols = Some out \<and>
    set out = page_matches lower q (hist v) (scroll_offset V v) (scroll_offset V v + scroll_len V v)"
proof -
  have "min (sn_rows (viewport_screen V v)) rows = scroll_len V v" "min (sn_cols (viewport_screen V v)) cols = n"
    using assms(4,5) history(5,6)[OF assms(1), of v] by simp_all
  then show ?thesis
    using collect_rows_all[OF assms(1-3), of "[0..<scroll_len V v]" v lower]
      UN_shift[of "\<lambda>r. set (row_matches lower q (fst (hist v ! r)) r)" "scroll_offset V v" "scroll_len V v"]
    by (simp add: collect_matches_from_viewport_def page_matches_def)
qed

lemma collect_page_panics:
  assumes "shows_history V n hist" "q = c # cs" "2 \<le> char_len c" "scroll_len V v \<le> rows" "n \<le> cols"
  shows "collect_matches_from_viewport lower (viewport_screen V v) q (scroll_offset V v) rows cols =
    (if page_matches lower q (hist v) (scroll_offset V v) (scroll_offset V v + scroll_len V v) = {}
     then Some [] else None)"
proof -
  have "min (sn_rows (viewport_screen V v)) rows = scroll_len V v" "min (sn_cols (viewport_screen V v)) cols = n"
    using assms(4,5) history(5,6)[OF assms(1), of v] by simp_all
  moreover have "page_matches lower q (hist v) (scroll_offset V v) (scroll_offset V v + scroll_len V v) = {} \<longleftrightarrow>
      (\<forall>i \<in> set [0..<scroll_len V v].
         row_matches lower q (fst (hist v ! (scroll_offset V v + i))) (scroll_offset V v + i) = [])"
    unfolding page_matches_def UN_shift[symmetric] by auto
  ultimately show ?thesis
    using collect_rows_panic[OF assms(1-3), of "[0..<scroll_len V v]" v lower]
    by (simp add: collect_matches_from_viewport_def)
qed

text \<open>What a page further down does to the window.\<close>

lemma next_page:
  assumes "shows_history V n hist" "cur = scroll_offset V v" "max_off = length (hist v) - scroll_len V v"
    "cur < max_off" "st = min (scroll_len V v) (max_off - cur)" "v1 = scroll_viewport_delta V (int st) v"
  shows "hist v1 = hist v" "scroll_len V v1 = scroll_len V v" "scroll_offset V v1 = cur + st"
    "cur < cur + st" "cur + st \<le> max_off" "cur + st \<le> cur + scroll_len V v" "st \<noteq> 0"
proof -
  show "hist v1 = hist v" "scroll_len V v1 = scroll_len V v"
    using history(7,8)[OF assms(1)] assms(6) by simp_all
  show st: "cur < cur + st" "cur + st \<le> max_off" "cur + st \<le> cur + scroll_len V v" "st \<noteq> 0"
    using assms(4,5) history(2)[OF assms(1), of v] by auto
  have "int (scroll_offset V v1) = int (cur + st)"
    using history(9)[OF assms(1), of "int st" v] history(3)[OF assms(1), of v] st assms(2,3,6) by simp
  then show "scroll_offset V v1 = cur + st" by (simp only: of_nat_eq_iff)
qed

lemma search_pages_all:
  assumes "shows_history V n hist" "q = c # cs" "char_len c = 1" "n \<le> cols" "scroll_len V v \<le> rows"
    "max_off = length (hist v) - scroll_len V v"
  shows "\<exists>v' found. search_pages V lower q rows cols (scroll_len V v) max_off v (scroll_offset V v) all =
      Some (Some (v', found)) \<and> hist v' = hist v \<and> scroll_len V v' = scroll_len V v \<and>
      set found = set all \<union> page_matches lower q (hist v) (scroll_offset V v) (length (hist v))"
  using assms(5,6)
proof (induction "max_off - scroll_offset V v" arbitrary: v all rule: less_induct)
  case less
  obtain out where out: "collect_matches_from_viewport lower (viewport_screen V v) q (scroll_offset V v) rows cols = Some out"
    "set out = page_matches lower q (hist v) (scroll_offset V v) (scroll_offset V v + scroll_len V v)"
    using collect_page[OF assms(1-3) less.prems(1) assms(4)] by blast
  note h = history(2,3)[OF assms(1), of v]
  show ?case
  proof (cases "scroll_offset V v < max_off")
    case False
    then have "scroll_offset V v + scroll_len V v = length (hist v)" using h less.prems(2) by linarith
    then show ?thesis
      using False out by (subst search_pages.simps) auto
  next
    case True
    define st where "st = min (scroll_len V v) (max_off - scroll_offset V v)"
    define v1 where "v1 = scroll_viewport_delta V (int st) v"
    note nx = next_page[OF assms(1) refl less.prems(2) True st_def v1_def]
    have "max_off - scroll_offset V v1 < max_off - scroll_offset V v" using nx(3,4,5) by linarith
    then obtain v' found where rec:
      "search_pages V lower q rows cols (scroll_len V v1) max_off v1 (scroll_offset V v1) (all @ out) =
        Some (Some (v', found))" "hist v' = hist v1" "scroll_len V v' = scroll_len V v1"
      "set found = set (all @ out) \<union> page_matches lower q (hist v1) (scroll_offset V v1) (length (hist v1))"
      using less.hyps[of v1 "all @ out"] less.prems nx(1,2) by auto
    have "search_pages V lower q rows cols (scroll_len V v) max_off v (scroll_offset V v) all =
        search_pages V lower q rows cols (scroll_len V v) max_off v1 (scroll_offset V v1) (all @ out)"
      using True nx(7) out(1)
      by (subst search_pages.simps) (simp add: Let_def st_def[symmetric] v1_def[symmetric])
    moreover have "page_matches lower q (hist v) (scroll_offset V v) (scroll_offset V v + scroll_len V v) \<union>
        page_matches lower q (hist v) (scroll_offset V v1) (length (hist v)) =
        page_matches lower q (hist v) (scroll_offset V v) (length (hist v))"
      using nx(3,4,6) h unfolding page_matches_def by auto fastforce+
    ultimately show ?thesis using rec nx(1,2) out(2) by (auto simp: Un_assoc)
  qed
qed

lemma search_pages_panics:
  assumes "shows_history V n hist" "q = c # cs" "2 \<le> char_len c" "n \<le> cols" "scroll_len V v \<le> rows"
    "max_off = length (hist v) - scroll_len V v"
    "page_matches lower q (hist v) (scroll_offset V v) (length (hist v)) \<noteq> {}"
  shows "search_pages V lower q rows cols (scroll_len V v) max_off v (scroll_offset V v) all = Some None"
  using assms(5-7)
proof (induction "max_off - scroll_offset V v" arbitrary: v all rule: less_induct)
  case less
  note h = history(2,3)[OF assms(1), of v]
  note page = collect_page_panics[OF assms(1-3) less.prems(1) assms(4), of lower]
  show ?case
  proof (cases "page_matches lower q (hist v) (scroll_offset V v) (scroll_offset V v + scroll_len V v) = {}")
    case False
    then show ?thesis using page by (subst search_pages.simps) simp
  next
    case True
    show ?thesis
    proof (cases "scroll_offset V v < max_off")
      case False
      then have "scroll_offset V v + scroll_len V v = length (hist v)" using h less.prems(2) by linarith
      then show ?thesis using True less.prems(3) by simp
    next
      case more: True
      define st where "st = min (scroll_len V v) (max_off - scroll_offset V v)"
      define v1 where "v1 = scroll_viewport_delta V (int st) v"
      note nx = next_page[OF assms(1) refl less.prems(2) more st_def v1_def]
      have "page_matches lower q (hist v) (scroll_offset V v) (length (hist v)) \<subseteq>
          page_matches lower q (hist v) (scroll_offset V v) (scroll_offset V v + scroll_len V v) \<union>
          page_matches lower q (hist v) (scroll_offset V v1) (length (hist v))"
        using nx(3,6) unfolding page_matches_def by fastforce
      then have "page_matches lower q (hist v1) (scroll_offset V v1) (length (hist v1)) \<noteq> {}"
        using True less.prems(3) nx(1) by auto
      moreover have "max_off - scroll_offset V v1 < max_off - scroll_offset V v" using nx(3,4,5) by linarith
      ultimately have "search_pages V lower q rows cols (scroll_len V v1) max_off v1 (scroll_offset V v1) all = Some None"
        using less.hyps[of v1 all] less.prems(1,2) nx(1,2) by simp
      then show ?thesis
        using more nx(2,7) page True
        by (subst search_pages.simps) (simp add: Let_def st_def[symmetric] v1_def[symmetric])
    qed
  qed
qed

subsection \<open>The search\<close>

lemma filter_viewport_frame [simp]:
  "ts_terminal (filter_viewport_matches V s) = ts_terminal s"
  "ss_all_matches (ts_search (filter_viewport_matches V s)) = ss_all_matches (ts_search s)"
  "ss_current_index (ts_search (filter_viewport_matches V s)) = ss_current_index (ts_search s)"
  "ts_viewport_offset (filter_viewport_matches V s) = ts_viewport_offset s"
  by (simp_all add: filter_viewport_matches_def Let_def split: prod.split)

lemma sorted_wrt_remdups_adj: "sorted_wrt P xs \<Longrightarrow> sorted_wrt P (remdups_adj xs)"
  by (induction xs rule: remdups_adj.induct) auto

abbreviation match_key :: "search_match \<Rightarrow> nat \<times> nat" where
  "match_key m \<equiv> (case m of (abs_row, col, _) \<Rightarrow> (abs_row, col))"

lemma found_sorted: "sorted_wrt (\<lambda>a b. match_key a \<le> match_key b) (remdups_adj (sort_key match_key found))"
  using sorted_sort_key[of match_key found] by (intro sorted_wrt_remdups_adj) (simp add: sorted_map)

text \<open>The window scrolled to the top, where the search starts.\<close>

lemma scrolled_to_top:
  assumes "shows_history V n hist"
    "v1 = (if scroll_offset V v > 0 then scroll_viewport_delta V (- int (scroll_offset V v)) v else v)"
  shows "hist v1 = hist v" "scroll_len V v1 = scroll_len V v" "scroll_offset V v1 = 0"
proof -
  show "hist v1 = hist v" "scroll_len V v1 = scroll_len V v"
    using history(7,8)[OF assms(1)] assms(2) by auto
  show "scroll_offset V v1 = 0"
    using history(9)[OF assms(1), of "- int (scroll_offset V v)" v] history(3)[OF assms(1), of v] assms(2) by auto
qed

lemma scrollbar_parts:
  "scrollbar_state V v = (scroll_total V v, scroll_offset V v, scroll_len V v)"
  by (simp add: scroll_total_def scroll_offset_def scroll_len_def)

lemma max_offset_total:
  assumes "shows_history V n hist"
  shows "(if scroll_total V v > scroll_len V v then scroll_total V v - scroll_len V v else 0) =
    length (hist v) - scroll_len V v"
  using history(1)[OF assms, of v] by simp

text \<open>
  C30: for a query whose first character has one byte the search over the history always ends and
  does not panic. It finds exactly the occurrences of the query in the lower-cased rows of the whole
  history, sorted by row and column, keeps the index of the current match in range, and leaves the
  window where it was.
\<close>

theorem search_finds_every_match:
  assumes "shows_history V n hist" "ss_query (ts_search s) = c # cs" "char_len c = 1"
    "scroll_len V (ts_terminal s) \<le> ts_rows s" "n \<le> ts_cols s"
  shows "\<exists>s'. recompute_all_search_matches V lower s = Some (Some s') \<and>
    set (ss_all_matches (ts_search s')) =
      (\<Union>r < length (hist (ts_terminal s)). set (row_matches lower (c # cs) (fst (hist (ts_terminal s) ! r)) r)) \<and>
    sorted_wrt (\<lambda>a b. match_key a \<le> match_key b) (ss_all_matches (ts_search s')) \<and>
    (ss_all_matches (ts_search s') \<noteq> [] \<longrightarrow>
       ss_current_index (ts_search s') < length (ss_all_matches (ts_search s'))) \<and>
    hist (ts_terminal s') = hist (ts_terminal s) \<and>
    scrollbar_state V (ts_terminal s') = scrollbar_state V (ts_terminal s)"
proof -
  let ?v = "ts_terminal s"
  define v1 where "v1 = (if scroll_offset V ?v > 0 then scroll_viewport_delta V (- int (scroll_offset V ?v)) ?v else ?v)"
  note top = scrolled_to_top[OF assms(1) v1_def]
  obtain v2 found where found: "search_pages V lower (c # cs) (ts_rows s) (ts_cols s) (scroll_len V ?v)
      (length (hist ?v) - scroll_len V ?v) v1 0 [] = Some (Some (v2, found))"
    "hist v2 = hist ?v" "scroll_len V v2 = scroll_len V ?v"
    "set found = page_matches lower (c # cs) (hist ?v) 0 (length (hist ?v))"
    using search_pages_all[OF assms(1) refl[of "c # cs"] assms(3,5), of v1 "ts_rows s" _ lower "[]"] assms(4) top by auto
  define v3 where "v3 = scroll_by V (int (scroll_offset V ?v) - int (scroll_offset V v2)) v2"
  have v3: "hist v3 = hist ?v" "scroll_len V v3 = scroll_len V ?v" "scroll_offset V v3 = scroll_offset V ?v"
    unfolding v3_def scroll_to[OF assms(1)]
    using scroll_by_history(1,2)[OF assms(1)] found(2,3) history(3)[OF assms(1), of ?v] by simp_all
  define all where "all = remdups_adj (sort_key match_key found)"
  define idx where "idx = (if all = [] \<or> ss_current_index (ts_search s) \<ge> length all then 0
    else ss_current_index (ts_search s))"
  define s1 where "s1 = s\<lparr>ts_terminal := v3, ts_viewport_offset := scroll_offset V v3,
    ts_search := (ts_search s)\<lparr>ss_matches := [], ss_all_matches := all, ss_current_index := idx\<rparr>\<rparr>"
  have total: "scroll_total V ?v \<noteq> 0" "scroll_len V ?v \<noteq> 0"
    using history(1-3)[OF assms(1), of ?v] by linarith+
  have "recompute_all_search_matches V lower s = Some (Some (filter_viewport_matches V s1))"
    using assms(2) total found(1) max_offset_total[OF assms(1), of ?v]
    by (simp add: recompute_all_search_matches_def Let_def scrollbar_parts v1_def[symmetric] v3_def[symmetric]
        all_def idx_def s1_def split del: if_split)
  moreover have "set all = (\<Union>r < length (hist ?v). set (row_matches lower (c # cs) (fst (hist ?v ! r)) r))"
    using found(4) by (simp add: all_def page_matches_def atLeast0LessThan)
  moreover have "all \<noteq> [] \<longrightarrow> idx < length all" by (auto simp: idx_def)
  ultimately show ?thesis
    using found_sorted[of found] v3 history(1)[OF assms(1)]
    by (simp add: s1_def all_def scrollbar_parts)
qed

text \<open>
  C32: a query whose first character has more than one byte, such as an umlaut, panics the window
  as soon as it occurs anywhere in the history: the next search starts one byte into the character.
\<close>

theorem search_panics_on_wide_query:
  assumes "shows_history V n hist" "ss_query (ts_search s) = c # cs" "2 \<le> char_len c"
    "scroll_len V (ts_terminal s) \<le> ts_rows s" "n \<le> ts_cols s"
    "r < length (hist (ts_terminal s))" "row_matches lower (c # cs) (fst (hist (ts_terminal s) ! r)) r \<noteq> []"
  shows "recompute_all_search_matches V lower s = Some None"
proof -
  let ?v = "ts_terminal s"
  define v1 where "v1 = (if scroll_offset V ?v > 0 then scroll_viewport_delta V (- int (scroll_offset V ?v)) ?v else ?v)"
  note top = scrolled_to_top[OF assms(1) v1_def]
  have "page_matches lower (c # cs) (hist ?v) 0 (length (hist ?v)) \<noteq> {}"
    using assms(6,7) by (fastforce simp: page_matches_def)
  then have found: "search_pages V lower (c # cs) (ts_rows s) (ts_cols s) (scroll_len V ?v)
      (length (hist ?v) - scroll_len V ?v) v1 0 [] = Some None"
    using search_pages_panics[OF assms(1) refl[of "c # cs"] assms(3,5), of v1 "ts_rows s" _ lower "[]"] assms(4) top by simp
  have total: "scroll_total V ?v \<noteq> 0" "scroll_len V ?v \<noteq> 0"
    using history(1-3)[OF assms(1), of ?v] by linarith+
  show ?thesis
    using assms(2) total found max_offset_total[OF assms(1), of ?v]
    by (simp add: recompute_all_search_matches_def Let_def scrollbar_parts v1_def[symmetric] split del: if_split)
qed

subsection \<open>Moving between the matches\<close>

lemma filter_loop_prefix: "prefix acc (fst (filter_loop ms a b ci ca g acc vi))"
proof (induction ms arbitrary: g acc vi)
  case (Cons m ms)
  have "prefix acc (fst (filter_loop ms a b ci ca g' (acc @ [x]) vi'))" for g' x vi'
    by (rule append_prefixD[OF Cons.IH])
  then show ?case by (cases m) (simp add: Let_def Cons.IH)
qed simp

lemma filter_loop_past: "ci < g \<Longrightarrow> snd (filter_loop ms a b ci ca g acc vi) = vi"
  by (induction ms a b ci ca g acc vi rule: filter_loop.induct) (auto simp: Let_def)

lemma filter_loop_marks:
  assumes "g \<le> ci" "ci - g < length ms" "ms ! (ci - g) = (r, c, l)" "ca = Some (r, c, l)" "a \<le> r" "r < b"
  shows "\<exists>k. snd (filter_loop ms a b ci ca g acc vi) = Some k \<and>
    k < length (fst (filter_loop ms a b ci ca g acc vi)) \<and>
    fst (filter_loop ms a b ci ca g acc vi) ! k = (r - a, c, l)"
  using assms
proof (induction ms a b ci ca g acc vi rule: filter_loop.induct)
  case (2 r' c' l' ms a b ci ca g acc vi)
  show ?case
  proof (cases "ci = g")
    case True
    then have [simp]: "r' = r" "c' = c" "l' = l" using "2.prems" by auto
    let ?res = "filter_loop ms a b ci ca (g + 1) (acc @ [(r - a, c, l)]) (Some (length acc))"
    have res: "filter_loop ((r', c', l') # ms) a b ci ca g acc vi = ?res"
      using True "2.prems" by simp
    have "snd ?res = Some (length acc)" using True by (intro filter_loop_past) simp
    moreover obtain zs where "fst ?res = (acc @ [(r - a, c, l)]) @ zs"
      using filter_loop_prefix by (metis prefix_def)
    ultimately show ?thesis unfolding res by simp
  next
    case False
    then obtain j where j: "ci - g = Suc j" "ci - (g + 1) = j" using "2.prems"(1) by (cases "ci - g") auto
    then have "j < length ms" "ms ! j = (r, c, l)" using "2.prems" by simp_all
    moreover have "g + 1 \<le> ci" using False "2.prems"(1) by simp
    ultimately show ?thesis
      using "2.IH" "2.prems" j(2) False by (cases "a \<le> r' \<and> r' < b") (auto simp: Let_def)
  qed
qed simp

text \<open>The current match is in the window and marked in the list that is drawn.\<close>

definition current_shown :: "'v viewport \<Rightarrow> 'v terminal_state \<Rightarrow> bool" where
  "current_shown V s \<longleftrightarrow>
     (let (row, col, len) = ss_all_matches (ts_search s) ! ss_current_index (ts_search s);
          off = scroll_offset V (ts_terminal s)
      in off \<le> row \<and> row < off + scroll_len V (ts_terminal s) \<and>
         (\<exists>k. ss_current_viewport_index (ts_search s) = Some k \<and> k < length (ss_matches (ts_search s)) \<and>
            ss_matches (ts_search s) ! k = (row - off, col, len)))"

lemma scroll_shows_current:
  assumes "shows_history V n hist" "ss_current_index (ts_search s) < length (ss_all_matches (ts_search s))"
    "\<forall>m \<in> set (ss_all_matches (ts_search s)). fst m < length (hist (ts_terminal s))"
  shows "\<exists>s'. scroll_to_current_match V s = Some s' \<and> current_shown V s' \<and>
    ss_all_matches (ts_search s') = ss_all_matches (ts_search s) \<and>
    ss_current_index (ts_search s') = ss_current_index (ts_search s)"
proof -
  let ?v = "ts_terminal s" and ?all = "ss_all_matches (ts_search s)" and ?i = "ss_current_index (ts_search s)"
  obtain r c l where m: "?all ! ?i = (r, c, l)" by (metis surj_pair)
  have r: "r < length (hist ?v)" using assms(3) nth_mem[OF assms(2)] m by auto
  define target where "target = min (if r > scroll_len V ?v div 3 then r - scroll_len V ?v div 3 else 0)
    (length (hist ?v) - scroll_len V ?v)"
  define v1 where "v1 = scroll_by V (int target - int (scroll_offset V ?v)) ?v"
  have v1: "scroll_offset V v1 = target" "scroll_len V v1 = scroll_len V ?v"
    unfolding v1_def scroll_to[OF assms(1)] by (simp_all add: target_def scroll_by_history(2)[OF assms(1)])
  have win: "target \<le> r" "r < target + scroll_len V ?v"
    using r history(2,3)[OF assms(1), of ?v] unfolding target_def by (auto simp: min_def)
  define s1 where "s1 = (if int target - int (scroll_offset V ?v) \<noteq> 0
    then s\<lparr>ts_terminal := v1, ts_viewport_offset := scroll_offset V v1\<rparr> else s)"
  have s1: "ts_terminal s1 = v1" "ts_search s1 = ts_search s" by (simp_all add: s1_def v1_def scroll_by_def)
  have "?all \<noteq> []" using assms(2) by auto
  then have res: "scroll_to_current_match V s = Some (filter_viewport_matches V s1)"
    using assms(2) m
    by (simp only: scroll_to_current_match_def Let_def vec_get_def if_True if_False option.case prod.case
        scrollbar_parts max_offset_total[OF assms(1)] target_def[symmetric] v1_def[symmetric] s1_def[symmetric])
  define fl where "fl = filter_loop ?all target (target + scroll_len V ?v) ?i (Some (r, c, l)) 0 [] None"
  have fv: "filter_viewport_matches V s1 = s1\<lparr>ts_search := (ts_search s)\<lparr>ss_matches := fst fl,
      ss_current_viewport_index := snd fl\<rparr>\<rparr>"
    using \<open>?all \<noteq> []\<close> assms(2) m
    by (simp add: filter_viewport_matches_def Let_def s1 v1 fl_def case_prod_beta)
  have "\<exists>k. snd fl = Some k \<and> k < length (fst fl) \<and> fst fl ! k = (r - target, c, l)"
    unfolding fl_def using assms(2) m win by (intro filter_loop_marks) simp_all
  then have "current_shown V (filter_viewport_matches V s1)"
    using win by (simp add: current_shown_def fv m s1 v1 Let_def)
  then show ?thesis using res by (simp add: s1)
qed

text \<open>
  C31: from a search with matches, Enter moves to the next and Shift+Enter to the previous match,
  around the ends, and afterwards the match is in the window and marked as the current one in the
  list that is drawn; neither panics, and one undoes the other.
\<close>

theorem moving_shows_match:
  assumes "shows_history V n hist" "ss_query (ts_search s) \<noteq> []"
    "ss_current_index (ts_search s) < length (ss_all_matches (ts_search s))"
    "\<forall>m \<in> set (ss_all_matches (ts_search s)). fst m < length (hist (ts_terminal s))"
  shows "(\<exists>s'. navigate_search_forward V s = Some s' \<and> current_shown V s' \<and>
      ss_current_index (ts_search s') =
        (ss_current_index (ts_search s) + 1) mod length (ss_all_matches (ts_search s)) \<and>
      ss_all_matches (ts_search s') = ss_all_matches (ts_search s)) \<and>
    (\<exists>s'. navigate_search_backward V s = Some s' \<and> current_shown V s' \<and>
      (ss_current_index (ts_search s') + 1) mod length (ss_all_matches (ts_search s)) =
        ss_current_index (ts_search s) \<and>
      ss_all_matches (ts_search s') = ss_all_matches (ts_search s))"
proof -
  let ?i = "ss_current_index (ts_search s)" and ?all = "ss_all_matches (ts_search s)"
  have ne: "?all \<noteq> []" using assms(3) by auto
  have at: "\<exists>s'. scroll_to_current_match V (s\<lparr>ts_search := (ts_search s)\<lparr>ss_current_index := j\<rparr>\<rparr>) = Some s' \<and>
      current_shown V s' \<and> ss_all_matches (ts_search s') = ?all \<and> ss_current_index (ts_search s') = j"
    if "j < length ?all" for j
    using scroll_shows_current[OF assms(1), of "s\<lparr>ts_search := (ts_search s)\<lparr>ss_current_index := j\<rparr>\<rparr>"]
      that assms(4) by simp
  show ?thesis
  proof (intro conjI)
    let ?j = "if ?i + 1 < length ?all then ?i + 1 else 0"
    have "?j < length ?all" "?j = (?i + 1) mod length ?all"
      using assms(3) ne by (auto simp: mod_Suc le_antisym not_less)
    then show "\<exists>s'. navigate_search_forward V s = Some s' \<and> current_shown V s' \<and>
        ss_current_index (ts_search s') = (?i + 1) mod length ?all \<and> ss_all_matches (ts_search s') = ?all"
      using at[of ?j] assms(2) ne unfolding navigate_search_forward_def Let_def by auto
  next
    let ?j = "if ?i > 0 then ?i - 1 else length ?all - 1"
    have "?j < length ?all" "(?j + 1) mod length ?all = ?i"
      using assms(3) ne by auto
    then show "\<exists>s'. navigate_search_backward V s = Some s' \<and> current_shown V s' \<and>
        (ss_current_index (ts_search s') + 1) mod length ?all = ?i \<and> ss_all_matches (ts_search s') = ?all"
      using at[of ?j] assms(2) ne unfolding navigate_search_backward_def Let_def by auto
  qed
qed

subsection \<open>Witnesses\<close>

definition umlaut_rows :: "(cell list \<times> bool) list" where
  "umlaut_rows = [text_row ''make'', ([\<lparr>ce_grapheme = [228], ce_attrs = default_attributes\<rparr>,
     \<lparr>ce_grapheme = [104], ce_attrs = default_attributes\<rparr>, default_cell, default_cell], False),
     text_row ''ls a'']"

definition searching :: "char_text \<Rightarrow> search_match list \<Rightarrow> nat terminal_state" where
  "searching q found = (demo_terminal None)\<lparr>ts_search := demo_search\<lparr>ss_query := q, ss_all_matches := found\<rparr>\<rparr>"

lemma three_rows_history: "shows_history (list_viewport 4 2 three_rows) 4 (\<lambda>_. three_rows)"
  by (rule list_viewport_history) (simp_all add: three_rows_def text_row_def)

lemma umlaut_rows_history: "shows_history (list_viewport 4 2 umlaut_rows) 4 (\<lambda>_. umlaut_rows)"
  by (rule list_viewport_history) (simp_all add: umlaut_rows_def text_row_def)

lemma demo_len [simp]: "scroll_len (list_viewport n len rows) v = len"
  by (simp add: scroll_len_def list_viewport_def Let_def)

lemma occurrences_Nil: "q \<noteq> [] \<Longrightarrow> occurrences q [] = []"
  by (simp add: occurrences_def)

lemma length_demo_rows [simp]: "length three_rows = 3" "length umlaut_rows = 3"
  by (simp_all add: three_rows_def umlaut_rows_def)

lemma three_rows_found:
  "(\<Union>r < 3. set (row_matches (\<lambda>c. [c]) [97] (fst (three_rows ! r)) r)) = {(0, 1, 1), (2, 3, 1)}"
proof -
  have u: "{..<3 :: nat} = {0, 1, 2}" "[0..<4] = [0, 1, 2, 3 :: nat]" by (auto simp: upt_conv_Cons)
  have "(\<Union>r < 3. set (row_matches (\<lambda>c. [c]) [97] (fst (three_rows ! r)) r)) =
      {(2, Suc (Suc (Suc 0)), Suc 0), (0, Suc 0, Suc 0)}"
    by (simp add: u three_rows_def text_row_def row_matches_def line_chars_def occurrences_Cons occurrences_Nil
        match_at_def Let_def)
  then show ?thesis by (auto simp: numeral_3_eq_3)
qed

theorem search_finds_every_match_witness:
  "\<exists>s'. recompute_all_search_matches (list_viewport 4 2 three_rows) (\<lambda>c. [c]) (searching [97] []) = Some (Some s')
     \<and> set (ss_all_matches (ts_search s')) = {(0, 1, 1), (2, 3, 1)}"
proof -
  have "char_len 97 = 1" by (simp add: char_len_def encode_utf8_def)
  then show ?thesis
    using search_finds_every_match[OF three_rows_history, of "searching [97] []" 97 "[]" "\<lambda>c. [c]"] three_rows_found
    by (force simp: searching_def demo_terminal_def demo_search_def)
qed

theorem search_panics_on_wide_query_witness:
  "recompute_all_search_matches (list_viewport 4 2 umlaut_rows) (\<lambda>c. [c]) (searching [228] []) = Some None"
proof -
  have m: "row_matches (\<lambda>c. [c]) [228] (fst (umlaut_rows ! 1)) 1 \<noteq> []"
    by (simp add: umlaut_rows_def row_matches_def line_chars_def occurrences_Cons Let_def)
  have "char_len 228 = 2" by (simp add: char_len_def encode_utf8_def)
  then show ?thesis
    using search_panics_on_wide_query[OF umlaut_rows_history _ _ _ _ _ m, of "searching [228] []"]
    by (simp add: searching_def demo_terminal_def demo_search_def)
qed

theorem moving_shows_match_witness:
  "\<exists>s'. navigate_search_forward (list_viewport 4 2 three_rows) (searching [97] [(0, 1, 1), (2, 3, 1)]) = Some s'
     \<and> current_shown (list_viewport 4 2 three_rows) s' \<and> ss_current_index (ts_search s') = 1"
  using moving_shows_match[OF three_rows_history, of "searching [97] [(0, 1, 1), (2, 3, 1)]"]
  by (auto simp: searching_def demo_terminal_def demo_search_def)

end
