(* ===== verification/IrohTerminal.thy ===== *)
theory IrohTerminal
  imports Server
begin

section \<open>Remote terminals over iroh\<close>

text \<open>
  \<open>src/iroh_terminal.rs\<close>: the wire messages, the frames around them, the replay that begins a
  remote stream, the stream itself, and the authorization gate in front of it. MessagePack
  (\<open>rmp_serde\<close>) is a parameter; a QUIC stream is a sink and the bytes left to read, as in the
  local framing. Output and client messages arrive at the same loop; each turn is given which.
\<close>

type_synonym i32 = "32 word"

definition FORGETTY_STREAM_ALPN :: string where
  "FORGETTY_STREAM_ALPN = ''forgetty/stream/1''"

definition REPLAY_CHUNK_SIZE :: nat where
  "REPLAY_CHUNK_SIZE = 1024 * 1024"

subsection \<open>Messages\<close>

record wire_pane_info =
  wp_id :: string
  wp_title :: string
  wp_cwd :: string
  wp_git_branch :: string
  wp_running_cmd :: string
  wp_is_active :: bool

datatype client_msg =
  Subscribe string
| ListPanes
| Unsubscribe
| RequestScrollback string i32 u32
| SendInput string "byte list"

datatype daemon_msg =
  FullSnapshot string u16 u16 "string list" nat nat
| PtyBytes string "byte list"
| ScrollbackPage string i32 "string list"
| PaneGone string
| PaneList "wire_pane_info list"
| ErrorMsg msg

record msgpack =
  mp_to_vec :: "daemon_msg \<Rightarrow> msg + byte list"
  mp_from_slice :: "byte list \<Rightarrow> msg + client_msg"

subsection \<open>Frames\<close>

text \<open>The length is cast to 32 bits; nothing bounds a frame that is written.\<close>

definition write_msg :: "msgpack \<Rightarrow> daemon_msg \<Rightarrow> sink \<Rightarrow> bool \<times> sink" where
  "write_msg mp m w =
     (case mp_to_vec mp m of
        Inl e \<Rightarrow> (False, w)
      | Inr payload \<Rightarrow>
          (case write_all (to_be_bytes (of_nat (length payload))) w of
             (Inl e, w1) \<Rightarrow> (False, w1)
           | (Inr _, w1) \<Rightarrow>
               (case write_all payload w1 of
                  (Inl e, w2) \<Rightarrow> (False, w2)
                | (Inr _, w2) \<Rightarrow> (True, w2))))"

definition read_msg :: "msgpack \<Rightarrow> byte list \<Rightarrow> client_msg option \<times> byte list" where
  "read_msg mp r =
     (case read_exact 4 r of
        (Inl e, r1) \<Rightarrow> (None, r1)
      | (Inr len_buf, r1) \<Rightarrow>
          let len = unat (from_be_bytes len_buf)
          in if len = 0 \<or> len > MAX_FRAME_SIZE then (None, r1)
             else (case read_exact len r1 of
                     (Inl e, r2) \<Rightarrow> (None, r2)
                   | (Inr payload, r2) \<Rightarrow>
                       (case mp_from_slice mp payload of
                          Inr m \<Rightarrow> (Some m, r2)
                        | Inl e \<Rightarrow> (None, r2))))"

subsection \<open>Snapshot, replay, list of panes\<close>

definition build_snapshot :: "libs \<Rightarrow> pane_id \<Rightarrow> daemon_msg" where
  "build_snapshot L p = FullSnapshot (uuid_str L p) 0 0 [] 0 0"

definition build_scrollback_page :: "libs \<Rightarrow> pane_id \<Rightarrow> i32 \<Rightarrow> daemon_msg" where
  "build_scrollback_page L p from_row = ScrollbackPage (uuid_str L p) from_row []"

text \<open>\<open>slice::chunks\<close>.\<close>

function chunks :: "nat \<Rightarrow> 'a list \<Rightarrow> 'a list list" where
  "chunks n xs = (if n = 0 \<or> xs = [] then [] else take n xs # chunks n (drop n xs))"
  by auto
termination
  by (relation "measure (\<lambda>(n, xs). length xs)") auto

declare chunks.simps [simp del]

fun send_chunks :: "libs \<Rightarrow> msgpack \<Rightarrow> pane_id \<Rightarrow> byte list list \<Rightarrow> sink \<Rightarrow> bool \<times> sink" where
  "send_chunks L mp p [] w = (True, w)"
| "send_chunks L mp p (c # cs) w =
     (case write_msg mp (PtyBytes (uuid_str L p) c) w of
        (False, w1) \<Rightarrow> (False, w1)
      | (True, w1) \<Rightarrow> send_chunks L mp p cs w1)"

definition send_sentinel_and_replay ::
  "libs \<Rightarrow> msgpack \<Rightarrow> pane_id \<Rightarrow> byte list \<Rightarrow> sink \<Rightarrow> bool \<times> sink" where
  "send_sentinel_and_replay L mp p replay w =
     (case write_msg mp (build_snapshot L p) w of
        (False, w1) \<Rightarrow> (False, w1)
      | (True, w1) \<Rightarrow> send_chunks L mp p (chunks REPLAY_CHUNK_SIZE replay) w1)"

fun collect_pane_set :: "pane_tree \<Rightarrow> pane_id set \<Rightarrow> pane_id set" where
  "collect_pane_set (Leaf p) out = insert p out"
| "collect_pane_set (Split _ _ a b) out = collect_pane_set b (collect_pane_set a out)"

definition active_panes :: "session_layout \<Rightarrow> pane_id set" where
  "active_panes l =
     (if workspaces l = [] then {}
      else let ws = workspaces l ! min (active_workspace l) (length (workspaces l) - 1)
           in if ws_tabs ws = [] then {}
              else collect_pane_set
                     (tab_tree (ws_tabs ws ! min (ws_active_tab ws) (length (ws_tabs ws) - 1))) {})"

definition wire_pane :: "libs \<Rightarrow> pane_id set \<Rightarrow> pane_id \<Rightarrow> pane_info \<Rightarrow> wire_pane_info" where
  "wire_pane L active p i =
     \<lparr>wp_id = uuid_str L p, wp_title = pi_title i, wp_cwd = pi_cwd i, wp_git_branch = [],
      wp_running_cmd = [], wp_is_active = (p \<in> active)\<rparr>"

definition build_pane_list :: "libs \<Rightarrow> session \<Rightarrow> wire_pane_info list" where
  "build_pane_list L s =
     (if list_panes s = [] then []
      else List.map_filter (\<lambda>p. map_option (wire_pane L (active_panes (layout s)) p) (pane_info_of p s))
             (list_panes s))"

subsection \<open>A subscribed stream\<close>

record remote_stream =
  rs_pane :: pane_id
  rs_rx :: nat
  rs_sink :: sink
  rs_open :: bool

text \<open>The checks at the head of \<open>handle_subscribe_stream\<close>, and the first replay.\<close>

definition refuse :: "msgpack \<Rightarrow> msg \<Rightarrow> sink \<Rightarrow> sink" where
  "refuse mp m w = snd (write_msg mp (ErrorMsg m) w)"

definition handle_subscribe_stream ::
  "libs \<Rightarrow> msgpack \<Rightarrow> string \<Rightarrow> session \<Rightarrow> sink \<Rightarrow> sink + remote_stream" where
  "handle_subscribe_stream L mp raw s w =
     (case uuid_parse L raw of
        None \<Rightarrow> Inl (refuse mp (Msg ''invalid pane_id UUID: {pane_id_str}'' [AStr raw]) w)
      | Some p \<Rightarrow>
          if pane_info_of p s = None
          then Inl (refuse mp (Msg ''pane not found: {pane_id_str}'' [AStr raw]) w)
          else (case subscribe_with_snapshot p s of
                  (rx, replay, hwm) \<Rightarrow>
                    (case send_sentinel_and_replay L mp p replay w of
                       (False, w1) \<Rightarrow> Inl w1
                     | (True, w1) \<Rightarrow>
                         Inr \<lparr>rs_pane = p, rs_rx = rx, rs_sink = w1, rs_open = True\<rparr>)))"

text \<open>A message of the client; \<open>None\<close> when its half is closed or unreadable.\<close>

definition target_pane :: "libs \<Rightarrow> string \<Rightarrow> pane_id \<Rightarrow> pane_id" where
  "target_pane L raw p = (case uuid_parse L raw of Some q \<Rightarrow> q | None \<Rightarrow> p)"

definition send_or_end :: "bool \<times> sink \<Rightarrow> remote_stream \<Rightarrow> remote_stream" where
  "send_or_end x o1 = o1\<lparr>rs_sink := snd x, rs_open := fst x\<rparr>"

fun client_turn :: "libs \<Rightarrow> msgpack \<Rightarrow> client_msg option \<Rightarrow> remote_stream \<Rightarrow> session \<Rightarrow>
    remote_stream \<times> session" where
  "client_turn L mp None o1 s = (o1\<lparr>rs_open := False\<rparr>, s)"
| "client_turn L mp (Some Unsubscribe) o1 s = (o1\<lparr>rs_open := False\<rparr>, s)"
| "client_turn L mp (Some (RequestScrollback raw from_row _)) o1 s =
     (send_or_end (write_msg mp (build_scrollback_page L (target_pane L raw (rs_pane o1)) from_row)
        (rs_sink o1)) o1, s)"
| "client_turn L mp (Some (SendInput raw data)) o1 s =
     (o1, snd (write_pty (target_pane L raw (rs_pane o1)) data s))"
| "client_turn L mp (Some (Subscribe _)) o1 s = (o1, s)"
| "client_turn L mp (Some ListPanes) o1 s = (o1, s)"

definition event_turn :: "libs \<Rightarrow> msgpack \<Rightarrow> received \<Rightarrow> session \<Rightarrow> remote_stream \<Rightarrow> remote_stream" where
  "event_turn L mp r s o1 =
     (case r of
        Event (PtyOutput q data) \<Rightarrow>
          if q = rs_pane o1 then send_or_end (write_msg mp (PtyBytes (uuid_str L q) data) (rs_sink o1)) o1
          else o1
      | Event (PaneClosed q) \<Rightarrow>
          if q = rs_pane o1
          then o1\<lparr>rs_sink := snd (write_msg mp (PaneGone (uuid_str L q)) (rs_sink o1)), rs_open := False\<rparr>
          else o1
      | Lagged n \<Rightarrow>
          (case subscribe_with_snapshot (rs_pane o1) s of
             (new_rx, replay, hwm) \<Rightarrow>
               send_or_end (send_sentinel_and_replay L mp (rs_pane o1) replay (rs_sink o1)) o1)
      | _ \<Rightarrow> o1)"

datatype remote_arm = ClientArm "client_msg option" | EventArm

definition remote_turn :: "libs \<Rightarrow> msgpack \<Rightarrow> channel \<Rightarrow> remote_arm \<Rightarrow> remote_stream \<times> session \<Rightarrow>
    remote_stream \<times> session" where
  "remote_turn L mp recv a = (\<lambda>(o1, s).
     if \<not> rs_open o1 then (o1, s)
     else case a of
            ClientArm m \<Rightarrow> client_turn L mp m o1 s
          | EventArm \<Rightarrow>
              (case recv (rs_rx o1) (events s) of
                 (r, pos) \<Rightarrow> (event_turn L mp r s (o1\<lparr>rs_rx := pos\<rparr>), s)))"

subsection \<open>A stream, a connection\<close>

datatype stream_result = StreamDone sink | Streaming remote_stream

definition handle_single_stream ::
  "libs \<Rightarrow> msgpack \<Rightarrow> client_msg option \<Rightarrow> session \<Rightarrow> sink \<Rightarrow> stream_result" where
  "handle_single_stream L mp m s w =
     (case m of
        Some ListPanes \<Rightarrow> StreamDone (snd (write_msg mp (PaneList (build_pane_list L s)) w))
      | Some (Subscribe raw) \<Rightarrow>
          (case handle_subscribe_stream L mp raw s w of Inl w1 \<Rightarrow> StreamDone w1 | Inr o1 \<Rightarrow> Streaming o1)
      | Some other \<Rightarrow>
          StreamDone (refuse mp (Msg ''expected Subscribe or ListPanes as first message'' []) w)
      | None \<Rightarrow> StreamDone w)"

text \<open>
  \<open>handle_terminal_stream\<close>, entered for a connection on the stream ALPN: the gate, then the
  streams the device opens, by their first messages, each with its own sink.
\<close>

record gate_result =
  gr_uni :: "sink option"
  gr_streams :: "stream_result list"
  gr_close :: "nat \<times> string"

definition handle_terminal_stream ::
  "libs \<Rightarrow> msgpack \<Rightarrow> string \<Rightarrow> sink option \<Rightarrow> (client_msg option \<times> session \<times> sink) list \<Rightarrow>
   device_registry \<Rightarrow> gate_result" where
  "handle_terminal_stream L mp device uni opened reg =
     (if \<not> is_authorized reg device
      then \<lparr>gr_uni = map_option (refuse mp (Msg ''not_authorized'' [])) uni,
            gr_streams = [], gr_close = (1, ''not-authorized'')\<rparr>
      else \<lparr>gr_uni = None,
            gr_streams = map (\<lambda>(m, s, w). handle_single_stream L mp m s w) opened,
            gr_close = (0, ''done'')\<rparr>)"

end
