(* ===== verification/IrohProps.thy ===== *)
theory IrohProps
  imports IrohTerminal ServerProps SyncProps
begin

section \<open>What a remote client sees\<close>

subsection \<open>Messages on the wire\<close>

text \<open>The messages a stream of one pane sends, and what is relied on of MessagePack for them:
  each is written in at most 4 MiB, and the client reads it back.\<close>

definition own_msg :: "libs \<Rightarrow> pane_id \<Rightarrow> daemon_msg \<Rightarrow> bool" where
  "own_msg L p m \<longleftrightarrow> m = build_snapshot L p \<or> m = PaneGone (uuid_str L p) \<or>
     (\<exists>d. m = PtyBytes (uuid_str L p) d \<and> length d \<le> REPLAY_CHUNK_SIZE)"

definition msgpack_ok :: "libs \<Rightarrow> msgpack \<Rightarrow> (byte list \<Rightarrow> daemon_msg) \<Rightarrow> pane_id \<Rightarrow> bool" where
  "msgpack_ok L mp dec p \<longleftrightarrow> (\<forall>m. own_msg L p m \<longrightarrow>
     (\<exists>payload. mp_to_vec mp m = Inr payload \<and> length payload \<le> MAX_FRAME_SIZE \<and> dec payload = m))"

definition client_msgs :: "(byte list \<Rightarrow> daemon_msg) \<Rightarrow> sink \<Rightarrow> daemon_msg list" where
  "client_msgs dec w = map dec (fst (read_frames (sink_out w)))"

text \<open>A sink that takes everything and holds whole frames.\<close>

definition whole :: "sink \<Rightarrow> bool" where
  "whole w \<longleftrightarrow> sink_room w = None \<and>
     (\<exists>ps. (\<forall>q \<in> set ps. length q \<le> MAX_FRAME_SIZE) \<and> sink_out w = stream_bytes ps)"

lemma write_msg_own:
  assumes "msgpack_ok L mp dec p" "own_msg L p m" "whole w"
  shows "\<exists>w'. write_msg mp m w = (True, w') \<and> whole w' \<and> client_msgs dec w' = client_msgs dec w @ [m]"
proof -
  obtain payload where p: "mp_to_vec mp m = Inr payload" "length payload \<le> MAX_FRAME_SIZE" "dec payload = m"
    using assms(1,2) by (auto simp: msgpack_ok_def)
  obtain ps where ps: "\<forall>q \<in> set ps. length q \<le> MAX_FRAME_SIZE" "sink_out w = stream_bytes ps"
    "sink_room w = None" using assms(3) by (auto simp: whole_def)
  define w' where "w' = w\<lparr>sink_out := sink_out w @ frame_bytes payload\<rparr>"
  have "write_msg mp m w = (True, w')"
    using p(1) ps(3) by (simp add: write_msg_def write_all_def w'_def frame_bytes_def)
  moreover have out: "sink_out w' = stream_bytes (ps @ [payload])"
    by (simp add: w'_def ps(2) stream_bytes_def)
  have "whole w'"
    unfolding whole_def using out ps p(2) by (auto simp: w'_def intro!: exI[of _ "ps @ [payload]"])
  moreover have "client_msgs dec w' = client_msgs dec w @ [m]"
    using read_frames_all[of "ps @ [payload]"] read_frames_all[of ps] ps p out
    by (simp add: client_msgs_def)
  ultimately show ?thesis by blast
qed

text \<open>What the terminal of the client shows: everything since the last reset.\<close>

fun feed :: "byte list \<Rightarrow> daemon_msg \<Rightarrow> byte list" where
  "feed acc (FullSnapshot i r c ls x y) = []"
| "feed acc (PtyBytes i data) = acc @ data"
| "feed acc _ = acc"

definition screen :: "(byte list \<Rightarrow> daemon_msg) \<Rightarrow> sink \<Rightarrow> byte list" where
  "screen dec w = foldl feed [] (client_msgs dec w)"

lemma concat_chunks: "0 < n \<Longrightarrow> concat (chunks n xs) = xs"
proof (induction n xs rule: chunks.induct)
  case (1 n xs)
  show ?case
  proof (cases "xs = []")
    case False
    with 1 have "concat (chunks n (drop n xs)) = drop n xs" by simp
    with False 1(2) show ?thesis by (subst chunks.simps) simp
  qed (simp add: chunks.simps)
qed

lemma chunks_small: "c \<in> set (chunks n xs) \<Longrightarrow> length c \<le> n"
proof (induction n xs rule: chunks.induct)
  case (1 n xs)
  have "n \<noteq> 0 \<and> xs \<noteq> []" "c = take n xs \<or> c \<in> set (chunks n (drop n xs))"
    using 1(2) by (subst (asm) chunks.simps, simp split: if_splits)+
  with 1(1) show ?case by auto
qed

lemma send_chunks_screen:
  "msgpack_ok L mp dec p \<Longrightarrow> whole w \<Longrightarrow> \<forall>c \<in> set cs. length c \<le> REPLAY_CHUNK_SIZE \<Longrightarrow>
   \<exists>w'. send_chunks L mp p cs w = (True, w') \<and> whole w' \<and> screen dec w' = screen dec w @ concat cs"
proof (induction cs arbitrary: w)
  case (Cons c cs)
  have "own_msg L p (PtyBytes (uuid_str L p) c)" using Cons.prems(3) by (simp add: own_msg_def)
  then obtain w1 where w1: "write_msg mp (PtyBytes (uuid_str L p) c) w = (True, w1)" "whole w1"
    "client_msgs dec w1 = client_msgs dec w @ [PtyBytes (uuid_str L p) c]"
    using write_msg_own Cons.prems by blast
  obtain w' where "send_chunks L mp p cs w1 = (True, w')" "whole w'" "screen dec w' = screen dec w1 @ concat cs"
    using Cons.IH[OF Cons.prems(1) w1(2)] Cons.prems(3) by auto
  then show ?case using w1 by (intro exI[of _ w']) (simp add: screen_def)
qed simp

lemma replay_screen:
  assumes "msgpack_ok L mp dec p" "whole w"
  shows "\<exists>w'. send_sentinel_and_replay L mp p replay w = (True, w') \<and> whole w' \<and> screen dec w' = replay"
proof -
  have "own_msg L p (build_snapshot L p)" by (simp add: own_msg_def)
  then obtain w1 where w1: "write_msg mp (build_snapshot L p) w = (True, w1)" "whole w1"
    "client_msgs dec w1 = client_msgs dec w @ [build_snapshot L p]"
    using write_msg_own assms by blast
  have "screen dec w1 = []" using w1(3) by (simp add: screen_def build_snapshot_def)
  moreover obtain w' where "send_chunks L mp p (chunks REPLAY_CHUNK_SIZE replay) w1 = (True, w')" "whole w'"
    "screen dec w' = screen dec w1 @ concat (chunks REPLAY_CHUNK_SIZE replay)"
    using send_chunks_screen[OF assms(1) w1(2)] chunks_small by blast
  moreover have "(0::nat) < REPLAY_CHUNK_SIZE" by (simp add: REPLAY_CHUNK_SIZE_def)
  ultimately show ?thesis
    using w1(1) by (intro exI[of _ w']) (simp add: send_sentinel_and_replay_def concat_chunks)
qed

subsection \<open>Turns of the streaming loop\<close>

fun chunk_sized :: "session_event \<Rightarrow> bool" where
  "chunk_sized (PtyOutput q data) = (length data \<le> REPLAY_CHUNK_SIZE)"
| "chunk_sized _ = True"

text \<open>A stream that is open, has nothing of its pane's end in front of it, and shows \<open>shown\<close>.\<close>

definition showing :: "(byte list \<Rightarrow> daemon_msg) \<Rightarrow> pane_id \<Rightarrow> byte list \<Rightarrow> nat \<Rightarrow> remote_stream \<Rightarrow> bool" where
  "showing dec p shown pos o1 \<longleftrightarrow> rs_open o1 \<and> rs_pane o1 = p \<and> rs_rx o1 = pos \<and>
     whole (rs_sink o1) \<and> screen dec (rs_sink o1) = shown"

lemma event_shows:
  assumes mp: "msgpack_ok L mp dec p" and o: "showing dec p shown pos o1"
    and e: "chunk_sized e" "e \<noteq> PaneClosed p"
  shows "showing dec p (shown @ output_of p e) pos' (event_turn L mp (Event e) s (o1\<lparr>rs_rx := pos'\<rparr>))"
proof (cases "\<exists>data. e = PtyOutput p data")
  case True
  then obtain data where d: "e = PtyOutput p data" by blast
  have "own_msg L p (PtyBytes (uuid_str L p) data)" using e(1) d by (simp add: own_msg_def)
  then obtain w where w: "write_msg mp (PtyBytes (uuid_str L p) data) (rs_sink o1) = (True, w)" "whole w"
    "client_msgs dec w = client_msgs dec (rs_sink o1) @ [PtyBytes (uuid_str L p) data]"
    using write_msg_own[OF mp] o by (auto simp: showing_def)
  then show ?thesis
    using o d by (simp add: showing_def event_turn_def send_or_end_def screen_def)
next
  case False
  then have "output_of p e = []" by (cases e) auto
  moreover have "event_turn L mp (Event e) s (o1\<lparr>rs_rx := pos'\<rparr>) = o1\<lparr>rs_rx := pos'\<rparr>"
    using False e(2) o by (cases e) (auto simp: event_turn_def showing_def)
  ultimately show ?thesis using o by (simp add: showing_def)
qed

definition event_turns :: "libs \<Rightarrow> msgpack \<Rightarrow> channel \<Rightarrow> session \<Rightarrow> nat \<Rightarrow> remote_stream \<Rightarrow> remote_stream" where
  "event_turns L mp recv s n o1 = fst ((remote_turn L mp recv EventArm ^^ n) (o1, s))"

lemma event_turn_session:
  "(remote_turn L mp recv EventArm ^^ n) (o1, s) = (event_turns L mp recv s n o1, s)"
proof -
  have "snd (remote_turn L mp recv EventArm x) = snd x" for x
    by (auto simp: remote_turn_def split: prod.split)
  then have "snd ((remote_turn L mp recv EventArm ^^ n) x) = snd x" for x
    by (induction n) simp_all
  then show ?thesis by (simp add: event_turns_def prod_eq_iff)
qed

lemma event_turns_Suc:
  "event_turns L mp recv s (Suc n) o1 = fst (remote_turn L mp recv EventArm (event_turns L mp recv s n o1, s))"
  unfolding event_turns_def[where n = "Suc n"] funpow.simps comp_apply event_turn_session ..

lemma turns_show:
  assumes ch: "channel_ok recv" and mp: "msgpack_ok L mp dec p" and o: "showing dec p shown pos o1"
    and near: "pos \<le> length (events s)" "length (events s) \<le> pos + BROADCAST_CAPACITY"
    and ev: "\<forall>e \<in> set (drop pos (events s)). chunk_sized e \<and> e \<noteq> PaneClosed p"
  shows "n \<le> length (events s) - pos \<Longrightarrow>
    showing dec p (shown @ outputs p (between pos (pos + n) (events s))) (pos + n)
      (event_turns L mp recv s n o1)"
proof (induction n)
  case 0
  then show ?case using o by (simp add: event_turns_def)
next
  case (Suc n)
  define o2 where "o2 = event_turns L mp recv s n o1"
  have i: "showing dec p (shown @ outputs p (between pos (pos + n) (events s))) (pos + n) o2"
    using Suc by (simp add: o2_def)
  then have rx: "rs_rx o2 = pos + n" "rs_open o2" by (simp_all add: showing_def)
  have le: "pos + n \<le> length (events s)" "pos + n < length (events s)" using Suc.prems near by simp_all
  let ?e = "events s ! (pos + n)"
  have "?e \<in> set (drop pos (events s))"
    using le nth_mem[of n "drop pos (events s)"] by simp
  then have e: "chunk_sized ?e" "?e \<noteq> PaneClosed p" using ev by auto
  have "fst (remote_turn L mp recv EventArm (o2, s)) =
      event_turn L mp (Event ?e) s (o2\<lparr>rs_rx := pos + Suc n\<rparr>)"
    using ch le(1)
  proof (cases rule: channel_cases)
    case event
    then show ?thesis using rx by (simp add: remote_turn_def)
  qed (use le near in auto)
  then show ?case
    using event_shows[OF mp i e, of "pos + Suc n" s] le
    by (simp add: event_turns_Suc o2_def[symmetric] between_Suc)
qed

text \<open>
  A remote client that subscribes and is served at its own pace: everything since the reset is
  the ring at the subscription followed by the output since then.
\<close>

lemma subscribe_shows:
  assumes mp: "msgpack_ok L mp dec p" and raw: "uuid_parse L raw = Some p" and w: "whole w"
    and reg: "p \<in> dom (panes s)" and sub: "subscribe_with_snapshot p s = (rx, replay, hwm)"
  shows "\<exists>o1. handle_subscribe_stream L mp raw s w = Inr o1 \<and> showing dec p replay rx o1"
proof -
  obtain w' where "send_sentinel_and_replay L mp p replay w = (True, w')" "whole w'" "screen dec w' = replay"
    using replay_screen[OF mp w] by blast
  then show ?thesis
    using raw reg sub by (auto simp: handle_subscribe_stream_def pane_info_of_def showing_def)
qed

text \<open>
  C38: a remote client that keeps up shows the pane: whatever the session does after it subscribed
  while the pane keeps its log, as many turns as there are new events leave the client, since its
  last reset, with the ring at the subscription followed by all output since then; the ring of the
  pane is the end of that.
\<close>

theorem remote_stream_exact:
  assumes "sinv {} D s" and "byte_logs s p = Some l" and "channel_ok recv" and "msgpack_ok L mp dec p"
    and "uuid_parse L raw = Some p" and "steps (step_keeping p) s ls s'"
    and "length (events s') \<le> length (events s) + BROADCAST_CAPACITY"
    and "\<forall>e \<in> set (drop (length (events s)) (events s')). chunk_sized e \<and> e \<noteq> PaneClosed p"
  shows "\<exists>o1 l'. handle_subscribe_stream L mp raw s fresh_sink = Inr o1 \<and> byte_logs s' p = Some l' \<and>
    (let o2 = event_turns L mp recv s' (length (events s') - length (events s)) o1
     in rs_open o2 \<and>
        screen dec (rs_sink o2) = ring l @ outputs p (drop (length (events s)) (events s')) \<and>
        ring l' = suffix_of (ring_capacity l') (screen dec (rs_sink o2)))"
proof -
  have w: "whole fresh_sink"
    unfolding whole_def fresh_sink_def by (auto intro!: exI[of _ "[]"])
  have sub: "subscribe_with_snapshot p s = (length (events s), ring l, total_bytes_written l)"
    using assms(2) by (simp add: subscribe_with_snapshot_def ring_snapshot_def Let_def)
  have reg: "p \<in> dom (panes s)" using invD(7)[OF assms(1)] assms(2) by blast
  obtain o1 where o1: "handle_subscribe_stream L mp raw s fresh_sink = Inr o1"
    "showing dec p (ring l) (length (events s)) o1"
    using subscribe_shows[OF assms(4,5) w reg sub] by blast
  obtain l' where l': "byte_logs s' p = Some l'" "take (length (events s)) (events s') = events s"
    "ring l' = suffix_of (ring_capacity l') (ring l @ outputs p (drop (length (events s)) (events s')))"
    using replay_history[OF assms(1,2,6) sub] by blast
  have le: "length (events s) \<le> length (events s')" using arg_cong[OF l'(2), of length] by simp
  from turns_show[OF assms(3,4) o1(2) le assms(7,8) order.refl] le
  show ?thesis using o1(1) l' by (auto simp: showing_def Let_def)
qed

lemma suffix_of_keeps_end: "length ys \<le> n \<Longrightarrow> suffix_of n (xs @ ys) = suffix_of (n - length ys) xs @ ys"
  by (simp add: suffix_of_def)

lemma between_drop:
  assumes "a \<le> b" "b \<le> length xs"
  shows "drop a xs = between a b xs @ drop b xs"
proof -
  have 1: "drop a (take b xs @ drop b xs) = drop a (take b xs) @ drop (a - length (take b xs)) (drop b xs)"
    by (rule drop_append)
  have 2: "a - length (take b xs) = 0" using assms by simp
  show ?thesis using 1 unfolding 2 drop0 append_take_drop_id between_def .
qed

text \<open>
  A remote client that falls behind sees output twice. The recovery sends a reset and the ring
  as it is now, but leaves the receiver at the oldest event the channel still keeps: the events
  from there to now are delivered after the ring that already contains them. When the client has
  caught up, its screen is the whole ring followed by a second copy of that output.
\<close>

theorem remote_lag_shows_output_twice:
  assumes "sinv {} D s" and "byte_logs s p = Some l" and "channel_ok recv" and "msgpack_ok L mp dec p"
    and "steps (step_keeping p) s ls s'" and "showing dec p shown rx o1"
    and "length (events s) \<le> rx" and "rx \<le> length (events s')" and "recv rx (events s') = (Lagged n, pos)"
    and "\<forall>e \<in> set (drop pos (events s')). chunk_sized e \<and> e \<noteq> PaneClosed p"
  shows "\<exists>l'. byte_logs s' p = Some l' \<and>
    screen dec (rs_sink (event_turns L mp recv s' (Suc (length (events s') - pos)) o1)) =
      ring l' @ outputs p (drop pos (events s')) \<and>
    (length (outputs p (drop pos (events s'))) \<le> ring_capacity l' \<longrightarrow>
       (\<exists>older. ring l' = older @ outputs p (drop pos (events s'))))"
proof -
  have sub: "subscribe_with_snapshot p s = (length (events s), ring l, total_bytes_written l)"
    using assms(2) by (simp add: subscribe_with_snapshot_def ring_snapshot_def Let_def)
  obtain l' where l': "byte_logs s' p = Some l'"
    "ring l' = suffix_of (ring_capacity l') (ring l @ outputs p (drop (length (events s)) (events s')))"
    using replay_history[OF assms(1,2,5) sub] by blast
  have pos: "rx \<le> pos" "pos \<le> length (events s')" "length (events s') \<le> pos + BROADCAST_CAPACITY"
    using assms(3,8) by (cases rule: channel_cases; use assms(9) in auto)+
  obtain w where w: "send_sentinel_and_replay L mp p (ring l') (rs_sink o1) = (True, w)" "whole w"
    "screen dec w = ring l'"
    using replay_screen[OF assms(4)] assms(6) by (auto simp: showing_def)
  define o2 where "o2 = fst (remote_turn L mp recv EventArm (o1, s'))"
  have "o2 = o1\<lparr>rs_rx := pos, rs_sink := w, rs_open := True\<rparr>"
    using assms(6,9) w(1) l'(1)
    by (simp add: o2_def remote_turn_def event_turn_def showing_def subscribe_with_snapshot_def
        ring_snapshot_def send_or_end_def Let_def)
  then have two: "showing dec p (ring l') pos o2"
    using assms(6) w(2,3) by (simp add: showing_def)
  have "event_turns L mp recv s' (Suc k) o1 = event_turns L mp recv s' k o2" for k
  proof -
    have "remote_turn L mp recv EventArm (o1, s') = (o2, s')"
      using event_turn_session[where n = 1 and s = s'] by (simp add: o2_def event_turns_def prod_eq_iff)
    then show ?thesis by (simp add: event_turns_def funpow_Suc_right del: funpow.simps)
  qed
  with turns_show[OF assms(3,4) two pos(2,3) assms(10) order.refl] pos(2)
  have scr: "screen dec (rs_sink (event_turns L mp recv s' (Suc (length (events s') - pos)) o1)) =
      ring l' @ outputs p (drop pos (events s'))"
    by (simp add: showing_def)
  have split: "outputs p (drop (length (events s)) (events s')) =
      outputs p (between (length (events s)) pos (events s')) @ outputs p (drop pos (events s'))"
    using between_drop[of "length (events s)" pos "events s'"] assms(7) pos by (simp add: outputs_def)
  have "\<exists>older. ring l' = older @ outputs p (drop pos (events s'))"
    if "length (outputs p (drop pos (events s'))) \<le> ring_capacity l'"
    using l'(2) suffix_of_keeps_end[OF that] unfolding split append.assoc[symmetric] by (metis (no_types))
  then show ?thesis using l'(1) scr by blast
qed

subsection \<open>Concrete streams\<close>

definition demo_pack :: msgpack where
  "demo_pack = \<lparr>mp_to_vec = (\<lambda>m. case m of PtyBytes i d \<Rightarrow> Inr (0 # d)
       | FullSnapshot i r c ls x y \<Rightarrow> Inr [1] | _ \<Rightarrow> Inr [2]),
     mp_from_slice = (\<lambda>_. Inr ListPanes)\<rparr>"

fun demo_dec :: "byte list \<Rightarrow> daemon_msg" where
  "demo_dec (b # d) =
     (if b = 0 then PtyBytes (uuid_str unary_libs 102) d
      else if b = 1 then build_snapshot unary_libs 102 else PaneGone (uuid_str unary_libs 102))"
| "demo_dec [] = PaneGone []"

lemma demo_pack_ok: "msgpack_ok unary_libs demo_pack demo_dec 102"
  unfolding msgpack_ok_def own_msg_def
  by (auto simp: demo_pack_def build_snapshot_def MAX_FRAME_SIZE_def REPLAY_CHUNK_SIZE_def)

theorem remote_stream_exact_witness:
  "\<exists>o1. handle_subscribe_stream unary_libs demo_pack (uuid_str unary_libs 102) demo_session fresh_sink = Inr o1 \<and>
     screen demo_dec (rs_sink (event_turns unary_libs demo_pack demo_channel demo_drained 1 o1)) = [7, 8]"
proof -
  have log: "byte_logs demo_session 102 = Some (byte_log_new None 1048576 10485760)"
    by (simp add: demo_session_eval)
  have run: "steps (step_keeping 102) demo_session [LDrain 102 (Some [7, 8])] demo_drained"
    using demo_drain by (simp add: demo_drained_def)
  have raw: "uuid_parse unary_libs (uuid_str unary_libs 102) = Some 102"
    by (simp add: unary_libs_def)
  have new: "drop 3 (events demo_drained) = [PtyOutput 102 [7, 8]]" "length (events demo_drained) = 4"
    by (simp_all add: demo_drained_events demo_events)
  show ?thesis
    using remote_stream_exact[OF demo_inv log demo_channel_ok demo_pack_ok raw run]
    by (auto simp: demo_events new BROADCAST_CAPACITY_def REPLAY_CHUNK_SIZE_def Let_def byte_log_new_def)
qed

text \<open>A pane that puts out one byte \<open>n\<close> times.\<close>

definition drained :: "nat \<Rightarrow> session" where
  "drained n = (drain_step 102 (Some [7]) ^^ n) demo_session"

lemma drained_state:
  "panes (drained n) = panes demo_session \<and> world (drained n) = world demo_session \<and>
   drain_tasks (drained n) = [102] \<and> 102 \<in> dom (byte_logs (drained n)) \<and>
   events (drained n) = events demo_session @ replicate n (PtyOutput 102 [7])"
proof (induction n)
  case 0
  then show ?case by (simp add: drained_def demo_session_eval dom_def)
next
  case (Suc n)
  then show ?case
    by (auto simp: drained_def drain_step_def process_pane_bytes_def demo_session_eval refresh_cwd_def
        Let_def replicate_append_same)
qed

lemma drained_run: "steps (step_keeping 102) demo_session (replicate n (LDrain 102 (Some [7]))) (drained n)"
proof -
  have "steps (step_keeping 102) (drained k) (replicate n (LDrain 102 (Some [7]))) (drained (k + n))" for k
  proof (induction n arbitrary: k)
    case (Suc n)
    have "drained (Suc k) = drain_step 102 (Some [7]) (drained k)" by (simp add: drained_def)
    moreover have "session_step (drained k) (LDrain 102 (Some [7])) (drain_step 102 (Some [7]) (drained k))"
      using drained_state[of k] by (intro step_drain) simp
    ultimately have "step_keeping 102 (drained k) (LDrain 102 (Some [7])) (drained (Suc k))"
      using drained_state[of "Suc k"] by (simp add: step_keeping_def)
    then show ?case using Suc[of "Suc k"] by (auto intro: steps.intros)
  qed simp
  from this[of 0] show ?thesis by (simp add: drained_def)
qed

lemma outputs_replicate: "outputs p (replicate n (PtyOutput p [b])) = replicate n b"
  by (induction n) simp_all

theorem remote_lag_shows_output_twice_witness:
  "let o1 = \<lparr>rs_pane = 102, rs_rx = 3, rs_sink = fresh_sink, rs_open = True\<rparr>
   in \<exists>l'. byte_logs (drained 1025) 102 = Some l' \<and>
     screen demo_dec (rs_sink (event_turns unary_libs demo_pack demo_channel (drained 1025) 1025 o1)) =
       ring l' @ replicate 1024 7"
proof -
  let ?o = "\<lparr>rs_pane = 102, rs_rx = 3, rs_sink = fresh_sink, rs_open = True\<rparr>"
  have log: "byte_logs demo_session 102 = Some (byte_log_new None 1048576 10485760)"
    by (simp add: demo_session_eval)
  have o: "showing demo_dec 102 [] 3 ?o"
    unfolding showing_def whole_def screen_def client_msgs_def fresh_sink_def
    by (auto simp: read_frames_short intro!: exI[of _ "[]"])
  have ev: "events (drained 1025) = events demo_session @ replicate 1025 (PtyOutput 102 [7])"
    using drained_state[of 1025] by blast
  have len: "length (events (drained 1025)) = 1028" unfolding ev by (simp add: demo_events)
  have tail: "drop 4 (events (drained 1025)) = replicate 1024 (PtyOutput 102 [7])"
    unfolding ev by (simp add: demo_events)
  have lag: "demo_channel 3 (events (drained 1025)) = (Lagged 1, 4)"
    by (simp add: demo_channel_def len BROADCAST_CAPACITY_def)
  have small: "\<forall>e \<in> set (drop 4 (events (drained 1025))). chunk_sized e \<and> e \<noteq> PaneClosed 102"
    unfolding tail by (simp add: REPLAY_CHUNK_SIZE_def)
  show ?thesis
    using remote_lag_shows_output_twice[OF demo_inv log demo_channel_ok demo_pack_ok drained_run o _ _ lag small]
    unfolding tail len outputs_replicate by (auto simp: demo_events Let_def)
qed

subsection \<open>The gate\<close>

text \<open>
  A device that is not on the list gets no terminal: whatever streams it opens, none is
  served, no pane is listed and no byte of output sent; at most the message \<open>not_authorized\<close> goes
  out and the connection is closed with code 1. A device that was revoked is in this position from
  its next connection on, even when the list could not be written to disk.
\<close>

theorem revoked_device_gets_no_stream:
  assumes "revoke_device dc device y w = (res, y', w')"
  shows "handle_terminal_stream L mp device uni opened (sy_registry y') =
    \<lparr>gr_uni = map_option (\<lambda>v. snd (write_msg mp (ErrorMsg (Msg ''not_authorized'' [])) v)) uni,
     gr_streams = [], gr_close = (1, ''not-authorized'')\<rparr>"
proof -
  have "\<not> is_authorized (sy_registry y') device"
    using assms by (auto simp: revoke_device_def registry_remove_def is_authorized_def emit_sync_def Let_def
        split: prod.splits sum.splits if_splits)
  then show ?thesis by (simp add: handle_terminal_stream_def refuse_def[abs_def])
qed

theorem revoked_device_gets_no_stream_witness:
  "gr_streams (handle_terminal_stream unary_libs demo_pack ''n1'' (Some fresh_sink)
     [(Some ListPanes, demo_session, fresh_sink)]
     (sy_registry (fst (snd (revoke_device demo_devices ''n1'' demo_sync demo_fs))))) = []"
proof -
  have "revoke_device demo_devices ''n1'' demo_sync demo_fs =
      (fst (revoke_device demo_devices ''n1'' demo_sync demo_fs),
       fst (snd (revoke_device demo_devices ''n1'' demo_sync demo_fs)),
       snd (snd (revoke_device demo_devices ''n1'' demo_sync demo_fs)))" by simp
  from revoked_device_gets_no_stream[OF this] show ?thesis by simp
qed

end
