(* ===== verification/Daemon.thy ===== *)
theory Daemon
  imports Server
begin

section \<open>The daemon: restore at the start, saving, exit\<close>

text \<open>
  \<open>src/daemon.rs\<close>: what the daemon does before it accepts a connection (restoring the saved
  session, pruning byte logs, the first save), the three tasks that save the layout while it
  runs, and the exit on a signal. Parsing the arguments, logging and binding the sockets are
  left out. Whether a path is a directory is asked of the library record.
\<close>

subsection \<open>Saved trees\<close>

fun first_leaf_cwd :: "pane_tree_state \<Rightarrow> path" where
  "first_leaf_cwd (SLeaf cwd _) = cwd"
| "first_leaf_cwd (SSplit _ _ a _) = first_leaf_cwd a"

fun first_leaf_pane_id :: "pane_tree_state \<Rightarrow> uuid option" where
  "first_leaf_pane_id (SLeaf _ p) = p"
| "first_leaf_pane_id (SSplit _ _ a _) = first_leaf_pane_id a"

text \<open>The live pane at the position of a saved leaf; the trees are walked in lock-step.\<close>

fun live_pane_id_for_saved :: "pane_tree_state \<Rightarrow> pane_tree \<Rightarrow> uuid \<Rightarrow> pane_id option" where
  "live_pane_id_for_saved (SLeaf _ saved) (Leaf live) target =
     (if saved = Some target then Some live else None)"
| "live_pane_id_for_saved (SSplit _ _ sa sb) (Split _ _ la lb) target =
     (case live_pane_id_for_saved sa la target of
        Some p \<Rightarrow> Some p
      | None \<Rightarrow> live_pane_id_for_saved sb lb target)"
| "live_pane_id_for_saved _ _ target = None"

definition dir_or_none :: "libs \<Rightarrow> path \<Rightarrow> path option" where
  "dir_or_none L c = (if is_dir L c then Some c else None)"

fun restore_subtree :: "libs \<Rightarrow> pane_tree_state \<Rightarrow> pane_id \<Rightarrow> session \<Rightarrow> session" where
  "restore_subtree L (SLeaf cwd _) anchor s =
     (if is_dir L cwd then set_pane_cwd anchor cwd s else s)"
| "restore_subtree L (SSplit d r a b) anchor s =
     (let cwd = dir_or_none L (first_leaf_cwd b);
          result = (case first_leaf_pane_id b of
             Some p \<Rightarrow> split_pane_with_ratio_and_pane_id anchor d r default_size cwd p s
           | None \<Rightarrow> split_pane_with_ratio anchor d r default_size cwd s)
      in case result of
           (Inr second, s1) \<Rightarrow> restore_subtree L b second (restore_subtree L a anchor s1)
         | (Inl e, s1) \<Rightarrow> s1)"

subsection \<open>Restoring a session\<close>

text \<open>The first loop: the slots of the workspaces, with names and colours.\<close>

definition restore_slot :: "nat \<Rightarrow> saved_workspace \<Rightarrow> session \<Rightarrow> session" where
  "restore_slot i ws s =
     (let s1 = (if i = 0 then snd (rename_workspace 0 (sw_name ws) s)
                else snd (create_workspace (sw_name ws) s))
      in if sw_color ws = None then s1 else snd (set_workspace_color i (sw_color ws) s1))"

fun restore_slots :: "nat \<Rightarrow> saved_workspace list \<Rightarrow> session \<Rightarrow> session" where
  "restore_slots i [] s = s"
| "restore_slots i (ws # wss) s = restore_slots (Suc i) wss (restore_slot i ws s)"

definition restore_tab :: "libs \<Rightarrow> nat \<Rightarrow> tab_state \<Rightarrow> session \<Rightarrow> session" where
  "restore_tab L i t s =
     (let cwd = dir_or_none L (first_leaf_cwd (st_tree t));
          result = (case first_leaf_pane_id (st_tree t) of
             Some p \<Rightarrow> create_tab_with_pane_id i cwd default_size None p s
           | None \<Rightarrow> create_tab i cwd default_size None s)
      in case result of
           (Inr (root_pane, tid), s1) \<Rightarrow> restore_subtree L (st_tree t) root_pane s1
         | (Inl e, s1) \<Rightarrow> s1)"

text \<open>The second loop: tabs, a shell for a workspace saved without tabs, the active tab.\<close>

definition restore_tabs :: "libs \<Rightarrow> nat \<Rightarrow> saved_workspace \<Rightarrow> session \<Rightarrow> session" where
  "restore_tabs L i ws s =
     (let s1 = fold (restore_tab L i) (sw_tabs ws) s;
          s2 = (if sw_tabs ws = [] then snd (create_tab i None default_size None s1) else s1)
      in snd (set_active_tab i (sw_active_tab ws) s2))"

fun restore_all_tabs :: "libs \<Rightarrow> nat \<Rightarrow> saved_workspace list \<Rightarrow> session \<Rightarrow> session" where
  "restore_all_tabs L i [] s = s"
| "restore_all_tabs L i (ws # wss) s = restore_all_tabs L (Suc i) wss (restore_tabs L i ws s)"

text \<open>The focused panes, collected from one snapshot of the layout before any is set.\<close>

definition target_of_tab :: "nat \<Rightarrow> tab_state \<Rightarrow> session_tab \<Rightarrow> (nat \<times> uuid \<times> pane_id) option" where
  "target_of_tab i saved live =
     (case st_active_pane_id saved of
        None \<Rightarrow> None
      | Some u \<Rightarrow> map_option (\<lambda>p. (i, tab_id live, p))
                    (live_pane_id_for_saved (st_tree saved) (tab_tree live) u))"

definition targets_of_workspace :: "nat \<Rightarrow> saved_workspace \<Rightarrow> session_workspace \<Rightarrow>
    (nat \<times> uuid \<times> pane_id) list" where
  "targets_of_workspace i saved live =
     List.map_filter (\<lambda>(t, u). target_of_tab i t u) (zip (sw_tabs saved) (ws_tabs live))"

fun restore_targets :: "nat \<Rightarrow> saved_workspace list \<Rightarrow> session_workspace list \<Rightarrow>
    (nat \<times> uuid \<times> pane_id) list" where
  "restore_targets i (ws # wss) (live # lives) =
     targets_of_workspace i ws live @ restore_targets (Suc i) wss lives"
| "restore_targets i _ _ = []"

definition focus_target :: "nat \<times> uuid \<times> pane_id \<Rightarrow> session \<Rightarrow> session" where
  "focus_target = (\<lambda>(i, t, p) s. snd (set_active_pane i t (Some p) s))"

definition restore_session :: "libs \<Rightarrow> workspace_state \<Rightarrow> session \<Rightarrow> session" where
  "restore_session L st s =
     (if ss_workspaces st = [] then s
      else
        let s1 = (if ss_pinned st then set_pinned True s else s);
            s2 = restore_slots 0 (ss_workspaces st) s1;
            s3 = restore_all_tabs L 0 (ss_workspaces st) s2;
            s4 = snd (set_active_workspace (ss_active_workspace st) s3)
        in fold focus_target (restore_targets 0 (ss_workspaces st) (workspaces (layout s4))) s4)"

subsection \<open>Saving\<close>

definition save_session_from_layout :: "codec \<Rightarrow> uuid \<Rightarrow> session \<Rightarrow> fs \<Rightarrow> session \<times> fs" where
  "save_session_from_layout cd sid s w =
     (case snapshot_to_workspace_state s of
        (st, s1) \<Rightarrow> (s1, snd (move_to_active cd sid st w)))"

text \<open>
  The watcher saves on every event but output and marks the layout dirty; when it lagged it only
  marks. The debounce task saves a dirty layout, the periodic task saves in any case.
\<close>

fun saves_on :: "session_event \<Rightarrow> bool" where
  "saves_on (PtyOutput p data) = False"
| "saves_on _ = True"

record saver =
  sv_rx :: nat
  sv_dirty :: bool
  sv_session :: session
  sv_fs :: fs

definition save_now :: "codec \<Rightarrow> uuid \<Rightarrow> saver \<Rightarrow> saver" where
  "save_now cd sid v =
     (case save_session_from_layout cd sid (sv_session v) (sv_fs v) of
        (s, w) \<Rightarrow> v\<lparr>sv_session := s, sv_fs := w\<rparr>)"

definition watcher_turn :: "channel \<Rightarrow> codec \<Rightarrow> uuid \<Rightarrow> saver \<Rightarrow> saver" where
  "watcher_turn recv cd sid v =
     (case recv (sv_rx v) (events (sv_session v)) of
        (Event e, pos) \<Rightarrow>
          if saves_on e then (save_now cd sid (v\<lparr>sv_rx := pos\<rparr>))\<lparr>sv_dirty := True\<rparr>
          else v\<lparr>sv_rx := pos\<rparr>
      | (Lagged n, pos) \<Rightarrow> v\<lparr>sv_rx := pos, sv_dirty := True\<rparr>
      | (Waiting, pos) \<Rightarrow> v)"

definition debounce_turn :: "codec \<Rightarrow> uuid \<Rightarrow> saver \<Rightarrow> saver" where
  "debounce_turn cd sid v =
     (if sv_dirty v then save_now cd sid (v\<lparr>sv_dirty := False\<rparr>) else v)"

definition periodic_turn :: "codec \<Rightarrow> uuid \<Rightarrow> saver \<Rightarrow> saver" where
  "periodic_turn cd sid v = save_now cd sid v"

subsection \<open>Start and exit\<close>

text \<open>
  The start, from a new session in a given world to the state before the first connection: a
  missing, unreadable or empty session file leaves the new session as it is.
\<close>

definition prune_at_start :: "codec \<Rightarrow> session \<Rightarrow> fs \<Rightarrow> fs" where
  "prune_at_start cd s w =
     prune_orphan_logs (set (list_panes s) \<union> all_persisted_pane_ids cd w) w"

definition daemon_start :: "libs \<Rightarrow> codec \<Rightarrow> uuid \<Rightarrow> nat \<Rightarrow> nat \<Rightarrow> world \<Rightarrow> fs \<Rightarrow> session \<times> fs" where
  "daemon_start L cd sid ring_kb max_mb wd w =
     (let s1 = set_byte_log_config ring_kb max_mb (session_new wd);
          s2 = (case load_session_for cd sid w of
                  Inr (Some st) \<Rightarrow> restore_session L st s1
                | _ \<Rightarrow> s1)
      in save_session_from_layout cd sid s2 (prune_at_start cd s2 w))"

definition signal_exit :: "codec \<Rightarrow> uuid \<Rightarrow> bool \<Rightarrow> pane_id list \<Rightarrow> session \<Rightarrow> fs \<Rightarrow> session \<times> fs" where
  "signal_exit cd sid contended order s w =
     (case save_session_from_layout cd sid s w of
        (s1, w1) \<Rightarrow> (kill_all contended order s1, pinned_aware_exit_move sid (is_pinned s1) w1))"

text \<open>\<open>--list-devices\<close> and \<open>--revoke\<close>: the registry file alone, and exit.\<close>

definition list_devices_and_exit :: "device_codec \<Rightarrow> fs \<Rightarrow> msg + (string \<times> string \<times> string) list" where
  "list_devices_and_exit dc w =
     (case registry_load dc w of
        (Inl e, w1) \<Rightarrow> Inl e
      | (Inr r, w1) \<Rightarrow>
          Inr (map (\<lambda>d. (de_device_id d, de_name d, de_paired_at d)) (registry_list r)))"

definition revoke_and_exit :: "device_codec \<Rightarrow> string \<Rightarrow> fs \<Rightarrow> (msg + bool) \<times> fs" where
  "revoke_and_exit dc device w =
     (case registry_load dc w of
        (Inl e, w1) \<Rightarrow> (Inl e, w1)
      | (Inr r, w1) \<Rightarrow> (case registry_remove dc device r w1 of (res, r1, w2) \<Rightarrow> (res, w2)))"

end
