(* ===== verification/DaemonProps.thy ===== *)
theory DaemonProps
  imports Daemon SyncProps LayoutEvents
begin

section \<open>A session survives a restart\<close>

subsection \<open>Grafting a subtree onto a leaf\<close>

fun graft :: "pane_id \<Rightarrow> pane_tree \<Rightarrow> pane_tree \<Rightarrow> pane_tree" where
  "graft p u (Leaf q) = (if q = p then u else Leaf q)"
| "graft p u (Split d r a b) = Split d r (graft p u a) (graft p u b)"

lemma graft_id [simp]: "p \<notin> set (leaves t) \<Longrightarrow> graft p u t = t"
  by (induction t) auto

lemma graft_same: "graft p v (graft p u t) = graft p (graft p v u) t"
  by (induction t) auto

lemma graft_other: "q \<notin> set (leaves t) \<Longrightarrow> graft q v (graft p u t) = graft p (graft q v u) t"
  by (induction t) auto

lemma graft_leaf [simp]: "graft p (Leaf p) t = t"
  by (induction t) auto

lemma replace_leaf_graft:
  "distinct (leaves t) \<Longrightarrow> snd (replace_leaf_with_ratio t p n d r) = graft p (Split d r (Leaf p) (Leaf n)) t"
proof (induction t)
  case (Split d' r' a b)
  show ?case
  proof (cases "p \<in> set (leaves a)")
    case True
    then have "p \<notin> set (leaves b)" using Split.prems by auto
    then show ?thesis using Split True by (auto split: prod.split bool.split dest: replace_leaf_miss)
  next
    case False
    then show ?thesis using Split by (auto simp: replace_leaf_miss split: prod.split bool.split)
  qed
qed simp

definition map_ws_trees :: "(pane_tree \<Rightarrow> pane_tree) \<Rightarrow> session_workspace \<Rightarrow> session_workspace" where
  "map_ws_trees f ws = ws\<lparr>ws_tabs := map (\<lambda>t. t\<lparr>tab_tree := f (tab_tree t)\<rparr>) (ws_tabs ws)\<rparr>"

definition map_trees :: "(pane_tree \<Rightarrow> pane_tree) \<Rightarrow> session_layout \<Rightarrow> session_layout" where
  "map_trees f l = l\<lparr>workspaces := map (map_ws_trees f) (workspaces l)\<rparr>"

lemma map_trees_comp: "map_trees g (map_trees f l) = map_trees (g \<circ> f) l"
  by (simp add: map_trees_def map_ws_trees_def comp_def)

lemma map_trees_cong:
  "(\<And>ws t. ws \<in> set (workspaces l) \<Longrightarrow> t \<in> set (ws_tabs ws) \<Longrightarrow> f (tab_tree t) = g (tab_tree t)) \<Longrightarrow>
     map_trees f l = map_trees g l"
  by (simp add: map_trees_def map_ws_trees_def)

lemma map_trees_id: "(\<And>ws t. ws \<in> set (workspaces l) \<Longrightarrow> t \<in> set (ws_tabs ws) \<Longrightarrow> f (tab_tree t) = tab_tree t) \<Longrightarrow>
     map_trees f l = l"
proof -
  assume "\<And>ws t. ws \<in> set (workspaces l) \<Longrightarrow> t \<in> set (ws_tabs ws) \<Longrightarrow> f (tab_tree t) = tab_tree t"
  then have "map_trees f l = map_trees id l" by (intro map_trees_cong) simp
  also have "\<dots> = l"
  proof -
    have "map_ws_trees id = id" by (simp add: fun_eq_iff map_ws_trees_def)
    then show ?thesis by (simp add: map_trees_def)
  qed
  finally show ?thesis .
qed

lemma split_in_tabs_graft:
  assumes "split_in_tabs p n d r ts = (Some tid, ts')" "distinct (concat (map (\<lambda>t. leaves (tab_tree t)) ts))"
  shows "ts' = map (\<lambda>t. t\<lparr>tab_tree := graft p (Split d r (Leaf p) (Leaf n)) (tab_tree t)\<rparr>) ts"
proof -
  obtain A t B where AB: "ts = A @ t # B" "p \<in> set (leaves (tab_tree t))"
    "ts' = A @ t\<lparr>tab_tree := snd (replace_leaf_with_ratio (tab_tree t) p n d r)\<rparr> # B"
    "\<forall>u \<in> set A. p \<notin> set (leaves (tab_tree u))"
    using split_in_tabs_Some[OF assms(1)] by blast
  have "\<forall>u \<in> set B. p \<notin> set (leaves (tab_tree u))" "distinct (leaves (tab_tree t))"
    using assms(2) AB(1,2) by auto
  then show ?thesis using AB by (auto simp: replace_leaf_graft intro!: map_idI[symmetric])
qed

lemma split_in_workspaces_graft:
  assumes "split_in_workspaces p n d r (workspaces l) = (Some tid, wss)" "distinct (layout_leaves l)"
  shows "l\<lparr>workspaces := wss\<rparr> = map_trees (graft p (Split d r (Leaf p) (Leaf n))) l"
proof -
  obtain i ts where i: "i < length (workspaces l)"
    "split_in_tabs p n d r (ws_tabs (workspaces l ! i)) = (Some tid, ts)"
    "wss = modify_at i (\<lambda>ws. ws\<lparr>ws_tabs := ts\<rparr>) (workspaces l)"
    using split_in_workspaces_Some[OF assms(1)] by blast
  obtain A ws B where AB: "workspaces l = A @ ws # B" "workspaces l ! i = ws" "length A = i"
    using i(1) by (metis nth_split)
  have dl: "distinct (ws_leaves ws)" using assms(2) AB(1) by (simp add: layout_leaves_def)
  have p: "p \<in> set (ws_leaves ws)"
    using split_in_tabs_Some[OF i(2)] AB(2) by (auto simp: ws_leaves_def)
  have "\<forall>v \<in> set A \<union> set B. p \<notin> set (ws_leaves v)"
    using assms(2) AB(1) p by (auto simp: layout_leaves_def)
  then have "map_ws_trees (graft p (Split d r (Leaf p) (Leaf n))) v = v" if "v \<in> set A \<union> set B" for v
    using that by (auto simp: ws_leaves_def map_ws_trees_def map_idI)
  then have "map (map_ws_trees (graft p (Split d r (Leaf p) (Leaf n)))) A = A"
    "map (map_ws_trees (graft p (Split d r (Leaf p) (Leaf n)))) B = B"
    by (simp_all add: map_idI)
  moreover have "ts = map (\<lambda>t. t\<lparr>tab_tree := graft p (Split d r (Leaf p) (Leaf n)) (tab_tree t)\<rparr>) (ws_tabs ws)"
    using split_in_tabs_graft i(2) AB(2) dl by (simp add: ws_leaves_def)
  ultimately show ?thesis
    using i(3) AB(1,3) by (auto simp: map_trees_def map_ws_trees_def[of _ ws])
qed

subsection \<open>Restoring one tree\<close>

fun live_of :: "pane_tree_state \<Rightarrow> pane_tree" where
  "live_of (SLeaf c u) = Leaf (the u)"
| "live_of (SSplit d r a b) = Split d r (live_of a) (live_of b)"

definition tree_restorable :: "libs \<Rightarrow> pane_tree_state \<Rightarrow> bool" where
  "tree_restorable L t \<longleftrightarrow> (\<forall>(c, u) \<in> set (saved_leaves t). is_dir L c \<and> u \<noteq> None)"

lemma live_of_leaves: "\<forall>(c, u) \<in> set (saved_leaves t). u \<noteq> None \<Longrightarrow> leaves (live_of t) = saved_ids t"
  by (induction t) (auto simp: saved_ids_def map_filter_def)

lemma first_leaf_restorable:
  assumes "tree_restorable L t"
  shows "\<exists>u. first_leaf_pane_id t = Some u \<and> u \<in> set (saved_ids t) \<and> is_dir L (first_leaf_cwd t)"
  using assms by (induction t) (auto simp: tree_restorable_def)

text \<open>A world in which every shell starts.\<close>

definition spawn_ok :: "world \<Rightarrow> bool" where
  "spawn_ok w \<longleftrightarrow> (\<forall>n sz c cmd l. \<exists>h. w_spawn w n sz c cmd l = Inr h) \<and> (\<forall>n. w_reader_fails w n = None)"

lemma spawn_ok_next [simp]: "spawn_ok (w\<lparr>w_next_id := k\<rparr>) = spawn_ok w"
  by (simp add: spawn_ok_def)

definition later :: "session \<Rightarrow> session \<Rightarrow> bool" where
  "later s s' \<longleftrightarrow> spawn_ok (world s') = spawn_ok (world s) \<and> w_fresh (world s') = w_fresh (world s) \<and>
     w_next_id (world s) \<le> w_next_id (world s') \<and> pinned s' = pinned s"

lemma later_trans: "later s t \<Longrightarrow> later t u \<Longrightarrow> later s u"
  by (auto simp: later_def)

lemma later_new_uuid: "new_uuid s = (u, s') \<Longrightarrow> later s s' \<and> u \<in> future_ids s"
  by (auto simp: new_uuid_def later_def future_ids_def)

definition cwd_of :: "session \<Rightarrow> pane_id \<Rightarrow> path option" where
  "cwd_of s p = map_option ps_cwd (panes s p)"

lemma spawns:
  assumes "spawn_ok (world s)"
  shows "\<exists>b s1. pty_bridge_spawn sz c cmd sh l s = (Inr b, s1) \<and> later s s1"
proof -
  obtain cm lg where e: "effective_command cmd sh l = (cm, lg)" by fastforce
  obtain h where "w_spawn (world s) (w_next_spawn (world s)) sz c cm lg = Inr h"
    using assms unfolding spawn_ok_def by blast
  then show ?thesis
    using assms e by (auto simp: pty_bridge_spawn_def Let_def spawn_ok_def later_def)
qed

lemma cwd_spawn_drain [simp]: "cwd_of (spawn_drain_task p s) q = cwd_of s q"
  by (auto simp: cwd_of_def spawn_drain_task_def take_pane_output_rx_def create_byte_log_for_def Let_def
      split: option.splits bool.splits prod.splits)

lemma cwd_send_event [simp]: "cwd_of (send_event e s) q = cwd_of s q"
  by (simp add: cwd_of_def)

lemma supply_send_event [simp]: "later s (send_event e t) = later s t"
  by (simp add: later_def)

lemma supply_spawn_drain [simp]: "later s (spawn_drain_task p t) = later s t"
  by (simp add: later_def)

lemma unused_later:
  assumes "unused_id u s" "later s s'" "layout_ids (layout s') \<subseteq> layout_ids (layout s) \<union> N \<union> future_ids s"
    "dom (panes s') \<subseteq> dom (panes s) \<union> N" "u \<notin> N"
  shows "unused_id u s'"
proof -
  have "u \<notin> future_ids s" using assms(1) by (auto simp: unused_id_def future_ids_def)
  then show ?thesis using assms by (auto simp: unused_id_def later_def)
qed

lemma layout_ids_graft:
  "layout_ids (map_trees (graft p u) l) \<subseteq> layout_ids l \<union> set (leaves u)"
proof -
  have one: "set (leaves (graft p u t)) \<subseteq> set (leaves t) \<union> set (leaves u)" for t
    by (induction t) auto
  have "set (layout_leaves (map_trees (graft p u) l)) \<subseteq> set (layout_leaves l) \<union> set (leaves u)"
    using one by (fastforce simp: layout_leaves_def ws_leaves_def map_trees_def map_ws_trees_def)
  moreover have "layout_tab_ids (map_trees (graft p u) l) = layout_tab_ids l"
    "layout_ws_ids (map_trees (graft p u) l) = layout_ws_ids l"
    by (simp_all add: layout_tab_ids_def layout_ws_ids_def map_trees_def map_ws_trees_def comp_def)
  ultimately show ?thesis by (auto simp: layout_ids_def)
qed

lemma split_restores:
  assumes i: "sinv {} {} s" and w: "spawn_ok (world s)" and a: "anchor \<in> dom (panes s)" and n: "unused_id n s"
  shows "\<exists>s1. split_pane_with_ratio_and_pane_id anchor d r sz c n s = (Inr n, s1) \<and> sinv {} {} s1 \<and>
    layout s1 = map_trees (graft anchor (Split d r (Leaf anchor) (Leaf n))) (layout s) \<and>
    dom (panes s1) = insert n (dom (panes s)) \<and> (\<forall>q. q \<noteq> n \<longrightarrow> cwd_of s1 q = cwd_of s q) \<and> later s s1"
proof -
  obtain b t where sp: "pty_bridge_spawn sz c None None True s = (Inr b, t)" "later s t"
    using spawns[OF w] by blast
  note f = spawn_fields[OF sp(1)]
  have "anchor \<in> set (layout_leaves (layout s))" using invD(5)[OF i] a by auto
  then obtain tid wss where spl: "split_in_workspaces anchor n d r (workspaces (layout s)) = (Some tid, wss)"
    using split_in_workspaces_None[of anchor n d r "workspaces (layout s)"]
    by (cases "split_in_workspaces anchor n d r (workspaces (layout s))"; cases "fst (split_in_workspaces anchor n d r (workspaces (layout s)))")
       (auto simp: layout_leaves_def)
  have "distinct (layout_leaves (layout s))" using invD(1)[OF i] by (simp add: layout_ok_def)
  note g = split_in_workspaces_graft[OF spl this]
  define st where "st = new_pane_state n b (case c of Some c \<Rightarrow> c | None \<Rightarrow> home_dir_fallback t) sz"
  define s1 where "s1 = snd (split_pane_with_ratio_and_pane_id anchor d r sz c n s)"
  define s3 where "s3 = (push_order n (insert_pane n st t))\<lparr>layout := (layout t)\<lparr>workspaces := wss\<rparr>\<rparr>"
  have eq: "split_pane_with_ratio_and_pane_id anchor d r sz c n s =
      (Inr n, spawn_drain_task n (send_event (PaneSplit tid anchor n d) (send_event (PaneCreated n) s3)))"
    using a sp(1) spl f(3) by (auto simp: split_pane_with_ratio_and_pane_id_def split_pane_body_def Let_def s3_def st_def)
  have p3: "panes s3 = (panes s)(n \<mapsto> st)" "layout s3 = (layout s)\<lparr>workspaces := wss\<rparr>" "world s3 = world t" "pinned s3 = pinned t"
    using f by (simp_all add: s3_def)
  have "sinv {} {} (snd (split_pane_with_ratio_and_pane_id anchor d r sz c n s))"
    using inv_exec_op[OF i, of "OSplitPaneWithRatioAndPaneId anchor d r sz c n"] n by simp
  moreover have "later s s3" using sp(2) p3 by (simp add: later_def)
  moreover have "\<forall>q. q \<noteq> n \<longrightarrow> cwd_of s3 q = cwd_of s q" using p3(1) by (simp add: cwd_of_def)
  ultimately show ?thesis
    using g p3(1,2) unfolding eq
    by (intro exI[of _ "spawn_drain_task n (send_event (PaneSplit tid anchor n d)
      (send_event (PaneCreated n) s3))"]) simp
qed

definition restored :: "pane_tree_state \<Rightarrow> pane_id \<Rightarrow> session \<Rightarrow> session \<Rightarrow> bool" where
  "restored t anchor s s' \<longleftrightarrow>
     sinv {} {} s' \<and> layout s' = map_trees (graft anchor (live_of t)) (layout s) \<and>
     dom (panes s') = dom (panes s) \<union> set (saved_ids t) \<and>
     (\<forall>(c, u) \<in> set (saved_leaves t). cwd_of s' (the u) = Some c) \<and>
     (\<forall>q. q \<notin> set (saved_ids t) \<longrightarrow> cwd_of s' q = cwd_of s q) \<and> later s s'"

lemma saved_ids_iff:
  "\<forall>(c, u) \<in> set (saved_leaves t). u \<noteq> None \<Longrightarrow> set (saved_ids t) = (\<lambda>(c, u). the u) ` set (saved_leaves t)"
  by (induction t) (auto simp: image_Un)

lemma set_pane_cwd_sel [simp]:
  "layout (set_pane_cwd p c s) = layout s" "world (set_pane_cwd p c s) = world s"
  "pinned (set_pane_cwd p c s) = pinned s" "dom (panes (set_pane_cwd p c s)) = dom (panes s)"
  by (auto simp: set_pane_cwd_def split: option.splits)

lemma cwd_set_pane_cwd:
  "p \<in> dom (panes s) \<Longrightarrow> cwd_of (set_pane_cwd p c s) q = (if q = p then Some c else cwd_of s q)"
  by (auto simp: set_pane_cwd_def cwd_of_def split: option.splits)

lemma restore_subtree_restores:
  assumes "sinv {} {} s" "spawn_ok (world s)" "anchor \<in> dom (panes s)" "tree_restorable L t"
    "first_leaf_pane_id t = Some anchor" "distinct (saved_ids t)"
    "\<forall>u \<in> set (saved_ids t). u \<noteq> anchor \<longrightarrow> unused_id u s"
  shows "restored t anchor s (restore_subtree L t anchor s)"
  using assms
proof (induction t arbitrary: anchor s)
  case (SLeaf c u)
  then show ?case
    using inv_set_pane_cwd[OF SLeaf.prems(1)]
    by (auto simp: restored_def tree_restorable_def cwd_set_pane_cwd later_def
        intro!: map_trees_id[symmetric])
next
  case (SSplit d r a b)
  note i = SSplit.prems(1)
  have rest: "tree_restorable L a" "tree_restorable L b"
    using SSplit.prems(4) by (auto simp: tree_restorable_def)
  obtain n where n: "first_leaf_pane_id b = Some n" "n \<in> set (saved_ids b)" "is_dir L (first_leaf_cwd b)"
    using first_leaf_restorable[OF rest(2)] by blast
  have fa: "first_leaf_pane_id a = Some anchor" using SSplit.prems(5) by simp
  then have ina: "anchor \<in> set (saved_ids a)" using first_leaf_restorable[OF rest(1)] by auto
  have d: "distinct (saved_ids a)" "distinct (saved_ids b)" "set (saved_ids a) \<inter> set (saved_ids b) = {}"
    using SSplit.prems(6) by auto
  have un: "unused_id n s" using SSplit.prems(7) n(2) ina d(3) by auto
  obtain s1 where s1: "split_pane_with_ratio_and_pane_id anchor d r default_size
        (dir_or_none L (first_leaf_cwd b)) n s = (Inr n, s1)" "sinv {} {} s1"
    "layout s1 = map_trees (graft anchor (Split d r (Leaf anchor) (Leaf n))) (layout s)"
    "dom (panes s1) = insert n (dom (panes s))" "\<forall>q. q \<noteq> n \<longrightarrow> cwd_of s1 q = cwd_of s q" "later s s1"
    using split_restores[OF i SSplit.prems(2,3) un] by blast
  define s2 where "s2 = restore_subtree L a anchor s1"
  have l1: "layout_ids (layout s1) \<subseteq> layout_ids (layout s) \<union> {anchor, n}"
    using layout_ids_graft s1(3) by fastforce
  have "anchor \<in> layout_ids (layout s)"
    using invD(5)[OF i] SSplit.prems(3) by (auto simp: layout_ids_def)
  then have l1': "layout_ids (layout s1) \<subseteq> layout_ids (layout s) \<union> {n} \<union> future_ids s" using l1 by auto
  have r2: "restored a anchor s1 s2"
    unfolding s2_def
  proof (rule SSplit.IH(1)[OF s1(2) _ _ rest(1) fa d(1)])
    show "spawn_ok (world s1)" using s1(6) SSplit.prems(2) by (simp add: later_def)
    show "anchor \<in> dom (panes s1)" using s1(4) SSplit.prems(3) by simp
    show "\<forall>u \<in> set (saved_ids a). u \<noteq> anchor \<longrightarrow> unused_id u s1"
      using SSplit.prems(7) n(2) d(3) s1(4) by (auto intro!: unused_later[OF _ s1(6) l1'])
  qed
  have f2: "sinv {} {} s2" "layout s2 = map_trees (graft anchor (live_of a)) (layout s1)"
    "dom (panes s2) = dom (panes s1) \<union> set (saved_ids a)" "later s1 s2"
    using r2 by (auto simp: restored_def)
  have someab: "\<forall>(c, u) \<in> set (saved_leaves a). u \<noteq> None" "\<forall>(c, u) \<in> set (saved_leaves b). u \<noteq> None"
    using rest by (auto simp: tree_restorable_def)
  note lv = live_of_leaves[OF someab(1)] live_of_leaves[OF someab(2)]
  have l2: "layout_ids (layout s2) \<subseteq> layout_ids (layout s) \<union> ({n} \<union> set (saved_ids a)) \<union> future_ids s"
    using layout_ids_graft[of anchor "live_of a" "layout s1"] f2(2) l1' lv(1) by auto
  define s3 where "s3 = restore_subtree L b n s2"
  have sup2: "later s s2" by (rule later_trans[OF s1(6) f2(4)])
  have r3: "restored b n s2 s3"
    unfolding s3_def
  proof (rule SSplit.IH(2)[OF f2(1) _ _ rest(2) n(1) d(2)])
    show "spawn_ok (world s2)" using sup2 SSplit.prems(2) by (simp add: later_def)
    show "n \<in> dom (panes s2)" using f2(3) s1(4) by simp
    show "\<forall>u \<in> set (saved_ids b). u \<noteq> n \<longrightarrow> unused_id u s2"
      using SSplit.prems(7) d(3) s1(4) f2(3) ina by (auto intro!: unused_later[OF _ sup2 l2])
  qed
  have eq: "restore_subtree L (SSplit d r a b) anchor s = s3"
    using n(1) s1(1) by (simp add: s2_def s3_def Let_def)
  have nl: "n \<notin> set (layout_leaves (layout s))" using un by (auto simp: unused_id_def layout_ids_def)
  have nt: "n \<notin> set (leaves (tab_tree t))" if "ws \<in> set (workspaces (layout s))" "t \<in> set (ws_tabs ws)" for ws t
    using nl that by (auto simp: layout_leaves_def ws_leaves_def)
  have na: "n \<noteq> anchor" "n \<notin> set (leaves (live_of a))" using n(2) ina d(3) lv(1) by auto
  have "layout s3 = map_trees (graft anchor (live_of (SSplit d r a b))) (layout s)"
  proof -
    have "layout s3 = map_trees (graft n (live_of b) \<circ> (graft anchor (live_of a) \<circ>
        graft anchor (Split d r (Leaf anchor) (Leaf n)))) (layout s)"
      using r3 f2(2) s1(3) by (simp add: restored_def map_trees_comp)
    also have "\<dots> = map_trees (graft anchor (live_of (SSplit d r a b))) (layout s)"
      using nt na by (intro map_trees_cong) (simp add: graft_same graft_other)
    finally show ?thesis .
  qed
  moreover have "\<forall>(c, u) \<in> set (saved_leaves (SSplit d r a b)). cwd_of s3 (the u) = Some c"
  proof -
    have "cwd_of s3 (the u) = Some c" if "(c, u) \<in> set (saved_leaves a)" for c u
    proof -
      have "the u \<in> set (saved_ids a)" using saved_ids_iff[OF someab(1)] that by force
      then have "cwd_of s3 (the u) = cwd_of s2 (the u)" using r3 d(3) by (auto simp: restored_def)
      then show ?thesis using r2 that by (auto simp: restored_def)
    qed
    then show ?thesis using r3 by (auto simp: restored_def)
  qed
  moreover have "\<forall>q. q \<notin> set (saved_ids (SSplit d r a b)) \<longrightarrow> cwd_of s3 q = cwd_of s q"
    using r2 r3 s1(5) n(2) by (auto simp: restored_def)
  moreover have "dom (panes s3) = dom (panes s) \<union> set (saved_ids (SSplit d r a b))"
    using r3 f2(3) s1(4) n(2) by (auto simp: restored_def)
  moreover have "sinv {} {} s3" "later s s3"
    using r3 later_trans[OF sup2] by (auto simp: restored_def)
  ultimately show ?case unfolding eq restored_def by simp
qed

subsection \<open>What a restart has to bring back\<close>

text \<open>
  The shape of a layout: everything but the ids of workspaces and tabs, which are generated anew,
  and the tab titles, which the daemon never sets.
\<close>

type_synonym tab_shape = "pane_tree \<times> pane_id option"
type_synonym ws_shape = "string \<times> string option \<times> nat \<times> tab_shape list"

definition shape_of_tab :: "session_tab \<Rightarrow> tab_shape" where
  "shape_of_tab t = (tab_tree t, active_pane_id t)"

definition shape_of_ws :: "session_workspace \<Rightarrow> ws_shape" where
  "shape_of_ws ws = (ws_name ws, ws_color ws, ws_active_tab ws, map shape_of_tab (ws_tabs ws))"

definition shapes :: "session \<Rightarrow> ws_shape list" where
  "shapes s = map shape_of_ws (workspaces (layout s))"

lemma length_shapes [simp]: "length (shapes s) = ws_count s"
  by (simp add: shapes_def ws_count_def)

definition cwds_shown :: "(path \<times> uuid option) list \<Rightarrow> session \<Rightarrow> bool" where
  "cwds_shown lv s \<longleftrightarrow> (\<forall>(c, u) \<in> set lv. cwd_of s (the u) = Some c)"

text \<open>A step of the restore: it may use up the ids \<open>ids\<close>, and brings the panes \<open>lv\<close> back.\<close>

definition grows :: "uuid set \<Rightarrow> (path \<times> uuid option) list \<Rightarrow> session \<Rightarrow> session \<Rightarrow> bool" where
  "grows ids lv s s' \<longleftrightarrow> sinv {} {} s' \<and> later s s' \<and> cwds_shown lv s' \<and>
     (\<forall>q \<in> dom (panes s). cwd_of s' q = cwd_of s q) \<and>
     (\<forall>u. unused_id u s \<longrightarrow> u \<notin> ids \<longrightarrow> unused_id u s')"

lemma dom_cwd: "q \<in> dom (panes s) \<longleftrightarrow> cwd_of s q \<noteq> None"
  by (auto simp: cwd_of_def)

lemma grows_trans:
  assumes "grows I l s t" "grows J m t u"
  shows "grows (I \<union> J) (l @ m) s u"
proof -
  have keep: "cwd_of u q = cwd_of t q" if "cwd_of t q \<noteq> None" for q
    using assms(2) that by (auto simp: grows_def dom_cwd)
  have "cwds_shown l u"
    unfolding cwds_shown_def
  proof clarify
    fix c v assume "(c, v) \<in> set l"
    then have "cwd_of t (the v) = Some c" using assms(1) by (auto simp: grows_def cwds_shown_def)
    then show "cwd_of u (the v) = Some c" using keep[of "the v"] by simp
  qed
  moreover have "\<forall>q \<in> dom (panes s). cwd_of u q = cwd_of s q"
  proof
    fix q assume "q \<in> dom (panes s)"
    then have "cwd_of t q = cwd_of s q" "cwd_of s q \<noteq> None" using assms(1) by (auto simp: grows_def dom_cwd)
    then show "cwd_of u q = cwd_of s q" using keep[of q] by simp
  qed
  ultimately show ?thesis
    using assms by (auto simp: grows_def cwds_shown_def intro: later_trans)
qed

lemma growsI:
  assumes "sinv {} {} s'" "later s s'" "panes s' = panes s"
    "layout_ids (layout s') \<subseteq> layout_ids (layout s) \<union> future_ids s"
  shows "grows {} [] s s'"
proof -
  have "unused_id u s'" if "unused_id u s" for u
    by (rule unused_later[OF that assms(2), where N = "{}"]) (use assms(3,4) in auto)
  then show ?thesis using assms by (simp add: grows_def cwds_shown_def cwd_of_def)
qed

lemma grows_refl: "sinv {} {} s \<Longrightarrow> grows {} [] s s"
  by (rule growsI) (auto simp: later_def)

lemma layout_ids_push:
  assumes "i < length (workspaces l)"
  shows "layout_ids (modify_layout_ws i (push_tab (new_tab_record t p)) l) = layout_ids l \<union> {t, p}"
proof -
  obtain A ws B where AB: "workspaces l = A @ ws # B" "i = length A"
    using assms by (metis nth_split)
  show ?thesis
    unfolding AB(2) modify_layout_ws_def layout_ids_def layout_spec_defs
    by (auto simp: AB(1) push_tab_def new_tab_record_def)
qed

lemma shapes_push:
  assumes "i < length (workspaces l)" "p \<notin> set (layout_leaves l)"
  shows "map shape_of_ws (workspaces (map_trees (graft p u) (modify_layout_ws i (push_tab (new_tab_record tid p)) l))) =
    modify_at i (\<lambda>(n, c, k, ts). (n, c, k, ts @ [(u, None)])) (map shape_of_ws (workspaces l))"
proof -
  have keep: "shape_of_ws (map_ws_trees (graft p u) ws) = shape_of_ws ws" if "ws \<in> set (workspaces l)" for ws
    using that assms(2)
    by (auto simp: shape_of_ws_def map_ws_trees_def shape_of_tab_def layout_leaves_def ws_leaves_def)
  have at: "shape_of_ws (map_ws_trees (graft p u) (push_tab (new_tab_record tid p) (workspaces l ! i))) =
      (case shape_of_ws (workspaces l ! i) of (n, c, k, ts) \<Rightarrow> (n, c, k, ts @ [(u, None)]))"
    using keep[of "workspaces l ! i"] assms(1)
    by (simp add: shape_of_ws_def map_ws_trees_def shape_of_tab_def push_tab_def new_tab_record_def)
  show ?thesis
    using assms(1) keep at
    by (auto simp: map_trees_def modify_layout_ws_def modify_at_def map_update list_eq_iff_nth_eq nth_list_update)
qed

lemma restore_tab_restores:
  assumes i: "sinv {} {} s" and w: "spawn_ok (world s)" and idx: "i < ws_count s"
    and t: "tree_restorable L (st_tree t)" "distinct (saved_ids (st_tree t))"
    and un: "\<forall>u \<in> set (saved_ids (st_tree t)). unused_id u s"
  defines "s' \<equiv> restore_tab L i t s"
  shows "grows (set (saved_ids (st_tree t))) (saved_leaves (st_tree t)) s s' \<and>
    shapes s' = modify_at i (\<lambda>(n, c, k, ts). (n, c, k, ts @ [(live_of (st_tree t), None)])) (shapes s)"
proof -
  obtain p where p: "first_leaf_pane_id (st_tree t) = Some p" "p \<in> set (saved_ids (st_tree t))"
    using first_leaf_restorable[OF t(1)] by blast
  have up: "unused_id p s" using un p(2) by blast
  define c where "c = dir_or_none L (first_leaf_cwd (st_tree t))"
  obtain b s1 where sp: "pty_bridge_spawn default_size c None None True s = (Inr b, s1)" "later s s1"
    using spawns[OF w] by blast
  note f1 = spawn_fields[OF sp(1)]
  define st where "st = new_pane_state p b (case c of Some c \<Rightarrow> c | None \<Rightarrow> home_dir_fallback s1) default_size"
  define s2 where "s2 = push_order p (insert_pane p st s1)"
  obtain tid s3 where nu: "new_uuid s2 = (tid, s3)" by fastforce
  note f3 = new_uuid_fields[OF nu]
  define s5 where "s5 = send_event (TabCreated i tid p) (send_event (PaneCreated p)
      (modify_ws i (push_tab (new_tab_record tid p)) s3))"
  have eq: "create_tab_with_pane_id i c default_size None p s = (Inr (p, tid), spawn_drain_task p s5)"
    using idx sp(1) nu by (simp add: create_tab_with_pane_id_def Let_def s2_def st_def s5_def)
  define s6 where "s6 = spawn_drain_task p s5"
  have inv6: "sinv {} {} s6"
    using inv_exec_op[OF i, of "OCreateTabWithPaneId i c default_size None p"] up eq by (simp add: s6_def)
  have l6: "layout s6 = modify_layout_ws i (push_tab (new_tab_record tid p)) (layout s)"
    using f1 f3 by (simp add: s6_def s5_def s2_def)
  have p5: "panes s5 = (panes s)(p \<mapsto> st)"
    using f1 f3 by (simp add: s5_def s2_def)
  have d6: "dom (panes s6) = insert p (dom (panes s))" by (simp add: s6_def p5)
  have c6: "\<forall>q. q \<noteq> p \<longrightarrow> cwd_of s6 q = cwd_of s q"
    by (simp add: s6_def) (simp add: cwd_of_def p5)
  have "later s1 s2" "future_ids s2 = future_ids s"
    using f1 by (simp_all add: s2_def later_def future_ids_def)
  then have s3w: "later s s3" "tid \<in> future_ids s"
    using later_new_uuid[OF nu] sp(2) later_trans by blast+
  then have w6: "later s s6" by (simp add: s6_def s5_def later_def)
  have ids6: "layout_ids (layout s6) \<subseteq> layout_ids (layout s) \<union> {p} \<union> future_ids s"
    using layout_ids_push[of i "layout s" tid p] idx s3w(2) by (auto simp: l6 ws_count_def)
  have r: "restored (st_tree t) p s6 (restore_subtree L (st_tree t) p s6)"
  proof (rule restore_subtree_restores[OF inv6 _ _ t(1) p(1) t(2)])
    show "spawn_ok (world s6)" using w6 w by (simp add: later_def)
    show "p \<in> dom (panes s6)" using d6 by simp
    show "\<forall>u \<in> set (saved_ids (st_tree t)). u \<noteq> p \<longrightarrow> unused_id u s6"
      using un d6 by (auto intro!: unused_later[OF _ w6 ids6])
  qed
  have s': "s' = restore_subtree L (st_tree t) p s6"
    using p(1) eq by (simp add: s'_def restore_tab_def Let_def c_def s6_def)
  have some: "\<forall>(c, u) \<in> set (saved_leaves (st_tree t)). u \<noteq> None" using t(1) by (auto simp: tree_restorable_def)
  have un': "unused_id u s'" if u: "unused_id u s" "u \<notin> set (saved_ids (st_tree t))" for u
  proof (rule unused_later[OF u(1) later_trans[OF w6], where N = "set (saved_ids (st_tree t))"])
    show "later s6 s'" "dom (panes s') \<subseteq> dom (panes s) \<union> set (saved_ids (st_tree t))"
      using r d6 p(2) by (auto simp: restored_def s')
    show "layout_ids (layout s') \<subseteq> layout_ids (layout s) \<union> set (saved_ids (st_tree t)) \<union> future_ids s"
      using r ids6 layout_ids_graft[of p "live_of (st_tree t)" "layout s6"] live_of_leaves[OF some] p(2)
      by (auto simp: restored_def s')
  qed (rule u(2))
  have keep: "cwd_of s' q = cwd_of s q" if "q \<in> dom (panes s)" for q
  proof -
    have "q \<notin> set (saved_ids (st_tree t))" using un that by (auto simp: unused_id_def)
    then show ?thesis using r c6 p(2) by (auto simp: restored_def s')
  qed
  have "grows (set (saved_ids (st_tree t))) (saved_leaves (st_tree t)) s s'"
    using r w6 un' keep by (auto simp: grows_def restored_def s' cwds_shown_def intro: later_trans)
  moreover have "shapes s' = modify_at i (\<lambda>(n, c, k, ts). (n, c, k, ts @ [(live_of (st_tree t), None)])) (shapes s)"
  proof -
    have "p \<notin> set (layout_leaves (layout s))" using up by (auto simp: unused_id_def layout_ids_def)
    then show ?thesis
      using shapes_push[of i "layout s" p "live_of (st_tree t)" tid] idx r l6
      by (simp add: shapes_def restored_def s' ws_count_def)
  qed
  ultimately show ?thesis by blast
qed

subsection \<open>All tabs, all workspaces\<close>

definition saved_ws_ids :: "saved_workspace \<Rightarrow> uuid list" where
  "saved_ws_ids ws = concat (map (\<lambda>t. saved_ids (st_tree t)) (sw_tabs ws))"

definition saved_ws_leaves :: "saved_workspace \<Rightarrow> (path \<times> uuid option) list" where
  "saved_ws_leaves ws = concat (map (\<lambda>t. saved_leaves (st_tree t)) (sw_tabs ws))"

definition tab_back :: "tab_state \<Rightarrow> tab_shape" where
  "tab_back t = (live_of (st_tree t), None)"

lemma modify_at_comp: "modify_at i g (modify_at i f xs) = modify_at i (g \<circ> f) xs"
  by (simp add: modify_at_def)

lemma fold_restore_tab:
  assumes "sinv {} {} s" "spawn_ok (world s)" "i < ws_count s" "\<forall>t \<in> set ts. tree_restorable L (st_tree t)"
    "distinct (concat (map (\<lambda>t. saved_ids (st_tree t)) ts))"
    "\<forall>t \<in> set ts. \<forall>u \<in> set (saved_ids (st_tree t)). unused_id u s"
  shows "grows (\<Union>t \<in> set ts. set (saved_ids (st_tree t))) (concat (map (\<lambda>t. saved_leaves (st_tree t)) ts))
      s (fold (restore_tab L i) ts s) \<and>
    shapes (fold (restore_tab L i) ts s) = modify_at i (\<lambda>(n, c, k, us). (n, c, k, us @ map tab_back ts)) (shapes s)"
  using assms
proof (induction ts arbitrary: s)
  case Nil
  have "(\<lambda>(n, c, k, us). (n, c, k, us @ [])) = (id :: ws_shape \<Rightarrow> ws_shape)" by auto
  then show ?case using Nil by (simp add: grows_refl modify_at_def)
next
  case (Cons t ts)
  define s1 where "s1 = restore_tab L i t s"
  have one: "grows (set (saved_ids (st_tree t))) (saved_leaves (st_tree t)) s s1"
    "shapes s1 = modify_at i (\<lambda>(n, c, k, us). (n, c, k, us @ [(live_of (st_tree t), None)])) (shapes s)"
    unfolding s1_def using restore_tab_restores[of s i L t] Cons.prems by simp_all
  have pre: "sinv {} {} s1" "spawn_ok (world s1)" using one(1) Cons.prems(2) by (auto simp: grows_def later_def)
  have idx: "i < ws_count s1"
    using arg_cong[OF one(2), of length] Cons.prems(3) by simp
  have un: "\<forall>t' \<in> set ts. \<forall>u \<in> set (saved_ids (st_tree t')). unused_id u s1"
  proof (intro ballI)
    fix t' u assume h: "t' \<in> set ts" "u \<in> set (saved_ids (st_tree t'))"
    then have "u \<notin> set (saved_ids (st_tree t))" using Cons.prems(5) by auto
    then show "unused_id u s1" using one(1) Cons.prems(6) h by (auto simp: grows_def)
  qed
  note ih = Cons.IH[OF pre idx _ _ un]
  show ?case
    using grows_trans[OF one(1) conjunct1[OF ih]] conjunct2[OF ih] one(2) Cons.prems(4,5)
    by (auto simp: s1_def[symmetric] modify_at_comp comp_def tab_back_def case_prod_unfold Un_commute)
qed

lemma quiet_grows:
  assumes "sinv {} {} s"
  shows "grows {} [] s (snd (set_active_tab i k s))" "grows {} [] s (snd (set_active_workspace i s))"
    "grows {} [] s (snd (set_active_pane i t p s))" "grows {} [] s (snd (rename_workspace i n s))"
    "grows {} [] s (snd (set_workspace_color i c s))"
proof -
  have ids: "layout_ids (modify_layout_ws i f l) = layout_ids l"
    if "\<And>ws. ws_leaves (f ws) = ws_leaves ws" "\<And>ws. map tab_id (ws_tabs (f ws)) = map tab_id (ws_tabs ws)"
      "\<And>ws. ws_id (f ws) = ws_id ws" for i f l
  proof (cases "i < length (workspaces l)")
    case True
    obtain A ws B where "workspaces l = A @ ws # B" "i = length A" using True by (metis nth_split)
    then show ?thesis
      using that by (simp add: modify_layout_ws_def layout_ids_def layout_leaves_def layout_tab_ids_def layout_ws_ids_def)
  qed (simp add: modify_layout_ws_def modify_at_def)
  note inv = inv_exec_op[OF assms]
  show "grows {} [] s (snd (set_active_tab i k s))"
    using inv[of "OSetActiveTab i k"] by (intro growsI)
      (auto simp: set_active_tab_def Let_def later_def ids ws_leaves_def split: if_splits)
  show "grows {} [] s (snd (set_active_workspace i s))"
    using inv[of "OSetActiveWorkspace i"] by (intro growsI)
      (auto simp: set_active_workspace_def Let_def later_def layout_ids_def layout_spec_defs split: if_splits)
  show "grows {} [] s (snd (rename_workspace i n s))"
    using inv[of "ORenameWorkspace i n"] by (intro growsI)
      (auto simp: rename_workspace_def Let_def later_def ids ws_leaves_def split: if_splits)
  show "grows {} [] s (snd (set_workspace_color i c s))"
    using inv[of "OSetWorkspaceColor i c"] by (intro growsI)
      (auto simp: set_workspace_color_def Let_def later_def ids ws_leaves_def split: if_splits)
  have tabs: "map (\<lambda>u. leaves (tab_tree u)) (modify_at j (\<lambda>u. u\<lparr>active_pane_id := p\<rparr>) ts) = map (\<lambda>u. leaves (tab_tree u)) ts"
    "map tab_id (modify_at j (\<lambda>u. u\<lparr>active_pane_id := p\<rparr>) ts) = map tab_id ts" for j ts
    by (simp_all add: modify_at_def map_update list_update_same_conv)
  show "grows {} [] s (snd (set_active_pane i t p s))"
    using inv[of "OSetActivePane i t p"] by (intro growsI)
      (auto simp: set_active_pane_def Let_def later_def ids ws_leaves_def tabs split: if_splits option.splits)
qed

definition ws_restorable :: "libs \<Rightarrow> saved_workspace \<Rightarrow> bool" where
  "ws_restorable L ws \<longleftrightarrow> sw_tabs ws \<noteq> [] \<and> sw_active_tab ws < length (sw_tabs ws) \<and>
     (\<forall>t \<in> set (sw_tabs ws). tree_restorable L (st_tree t)) \<and> distinct (saved_ws_ids ws)"

definition slot_shape :: "saved_workspace \<Rightarrow> ws_shape" where
  "slot_shape ws = (sw_name ws, sw_color ws, 0, [])"

definition tabs_shape :: "saved_workspace \<Rightarrow> ws_shape" where
  "tabs_shape ws = (sw_name ws, sw_color ws, sw_active_tab ws, map tab_back (sw_tabs ws))"

lemma shapes_set_active_tab:
  assumes "i < ws_count s" "shapes s ! i = (n, c, k, ts)" "j < length ts"
  shows "shapes (snd (set_active_tab i j s)) = (shapes s)[i := (n, c, j, ts)]"
proof -
  have len: "length (ws_tabs (workspaces (layout s) ! i)) = length ts"
    using assms(1,2) by (auto simp: shapes_def shape_of_ws_def ws_count_def)
  then have "layout (snd (set_active_tab i j s)) = modify_layout_ws i (\<lambda>ws. ws\<lparr>ws_active_tab := j\<rparr>) (layout s)"
    using assms by (simp add: set_active_tab_def Let_def)
  then show ?thesis
    using assms(1,2) by (auto simp: shapes_def modify_layout_ws_def modify_at_def map_update shape_of_ws_def ws_count_def)
qed

lemma restore_tabs_restores:
  assumes i: "sinv {} {} s" and w: "spawn_ok (world s)" and idx: "i < ws_count s"
    and ok: "ws_restorable L ws" and un: "\<forall>u \<in> set (saved_ws_ids ws). unused_id u s"
    and slot: "shapes s ! i = slot_shape ws"
  shows "grows (set (saved_ws_ids ws)) (saved_ws_leaves ws) s (restore_tabs L i ws s) \<and>
    shapes (restore_tabs L i ws s) = (shapes s)[i := tabs_shape ws]"
proof -
  define s1 where "s1 = fold (restore_tab L i) (sw_tabs ws) s"
  have f: "grows (\<Union>t \<in> set (sw_tabs ws). set (saved_ids (st_tree t)))
        (concat (map (\<lambda>t. saved_leaves (st_tree t)) (sw_tabs ws))) s s1 \<and>
      shapes s1 = modify_at i (\<lambda>(n, c, k, us). (n, c, k, us @ map tab_back (sw_tabs ws))) (shapes s)"
    unfolding s1_def
    by (rule fold_restore_tab[OF i w idx])
      (use ok un in \<open>auto simp: ws_restorable_def saved_ws_ids_def\<close>)
  then have g: "grows (set (saved_ws_ids ws)) (saved_ws_leaves ws) s s1"
    by (simp add: saved_ws_ids_def saved_ws_leaves_def)
  have sh: "shapes s1 = (shapes s)[i := (sw_name ws, sw_color ws, 0, map tab_back (sw_tabs ws))]"
    using f slot idx by (simp add: modify_at_def slot_shape_def)
  have idx1: "i < ws_count s1" using arg_cong[OF sh, of length] idx by simp
  have at: "shapes s1 ! i = (sw_name ws, sw_color ws, 0, map tab_back (sw_tabs ws))" using sh idx by simp
  have eq: "restore_tabs L i ws s = snd (set_active_tab i (sw_active_tab ws) s1)"
    using ok by (simp add: restore_tabs_def s1_def[symmetric] ws_restorable_def)
  have "sinv {} {} s1" using g by (simp add: grows_def)
  from grows_trans[OF g quiet_grows(1)[OF this]]
  have "grows (set (saved_ws_ids ws)) (saved_ws_leaves ws) s (restore_tabs L i ws s)"
    unfolding eq by simp
  moreover have "shapes (restore_tabs L i ws s) = (shapes s)[i := tabs_shape ws]"
    using shapes_set_active_tab[OF idx1 at, of "sw_active_tab ws"] ok
    unfolding eq by (simp add: sh tabs_shape_def ws_restorable_def)
  ultimately show ?thesis by blast
qed

lemma restore_all_tabs_restores:
  assumes "sinv {} {} s" "spawn_ok (world s)" "\<forall>ws \<in> set wss. ws_restorable L ws"
    "distinct (concat (map saved_ws_ids wss))" "\<forall>ws \<in> set wss. \<forall>u \<in> set (saved_ws_ids ws). unused_id u s"
    "shapes s = done @ map slot_shape wss"
  shows "grows (\<Union>ws \<in> set wss. set (saved_ws_ids ws)) (concat (map saved_ws_leaves wss)) s
      (restore_all_tabs L (length done) wss s) \<and>
    shapes (restore_all_tabs L (length done) wss s) = done @ map tabs_shape wss"
  using assms
proof (induction wss arbitrary: s "done")
  case Nil
  then show ?case by (simp add: grows_refl)
next
  case (Cons ws wss)
  let ?i = "length done"
  define s1 where "s1 = restore_tabs L ?i ws s"
  have idx: "?i < ws_count s" using arg_cong[OF Cons.prems(6), of length] by simp
  have slot: "shapes s ! ?i = slot_shape ws" using Cons.prems(6) by simp
  have one: "grows (set (saved_ws_ids ws)) (saved_ws_leaves ws) s s1" "shapes s1 = (shapes s)[?i := tabs_shape ws]"
    unfolding s1_def
    using restore_tabs_restores[OF Cons.prems(1,2) idx, of L ws] Cons.prems(3,5) slot by simp_all
  have pre: "sinv {} {} s1" "spawn_ok (world s1)" using one(1) Cons.prems(2) by (auto simp: grows_def later_def)
  have un: "\<forall>v \<in> set wss. \<forall>u \<in> set (saved_ws_ids v). unused_id u s1"
  proof (intro ballI)
    fix v u assume h: "v \<in> set wss" "u \<in> set (saved_ws_ids v)"
    then have "u \<notin> set (saved_ws_ids ws)" using Cons.prems(4) by auto
    then show "unused_id u s1" using one(1) Cons.prems(5) h by (auto simp: grows_def)
  qed
  have sh: "shapes s1 = (done @ [tabs_shape ws]) @ map slot_shape wss"
    using one(2) Cons.prems(6) by simp
  note ih = Cons.IH[OF pre _ _ un sh]
  show ?case
    using grows_trans[OF one(1) conjunct1[OF ih]] conjunct2[OF ih] Cons.prems(3,4)
    by (simp add: s1_def[symmetric])
qed

text \<open>The slots.\<close>

lemma create_workspace_grows:
  assumes i: "sinv {} {} s"
  shows "grows {} [] s (snd (create_workspace n s)) \<and>
    shapes (snd (create_workspace n s)) = shapes s @ [(n, None, 0, [])]"
proof -
  obtain u s1 where nu: "new_uuid s = (u, s1)" by fastforce
  note f = new_uuid_fields[OF nu] and l = later_new_uuid[OF nu]
  define s' where "s' = snd (create_workspace n s)"
  have lay: "layout s' = (layout s)\<lparr>workspaces := workspaces (layout s) @
      [\<lparr>ws_id = u, ws_name = n, ws_tabs = [], ws_active_tab = 0, ws_color = None\<rparr>]\<rparr>"
    using nu f(3) by (simp add: s'_def create_workspace_def Let_def)
  have "grows {} [] s s'"
  proof (rule growsI)
    show "sinv {} {} s'" using inv_exec_op[OF i, of "OCreateWorkspace n"] by (simp add: s'_def)
    show "later s s'" "panes s' = panes s"
      using nu f l by (auto simp: s'_def create_workspace_def Let_def later_def)
    show "layout_ids (layout s') \<subseteq> layout_ids (layout s) \<union> future_ids s"
      using l unfolding lay by (auto simp: layout_ids_def layout_spec_defs)
  qed
  then show ?thesis
    by (simp add: s'_def[symmetric]) (simp add: shapes_def lay shape_of_ws_def)
qed

lemma shapes_rename:
  "i < ws_count s \<Longrightarrow> shapes s ! i = (m, c, k, ts) \<Longrightarrow>
     shapes (snd (rename_workspace i n s)) = (shapes s)[i := (n, c, k, ts)]"
  by (auto simp: rename_workspace_def Let_def shapes_def modify_layout_ws_def modify_at_def map_update
      shape_of_ws_def ws_count_def list_eq_iff_nth_eq nth_list_update)

lemma shapes_color:
  "i < ws_count s \<Longrightarrow> shapes s ! i = (m, c, k, ts) \<Longrightarrow>
     shapes (snd (set_workspace_color i d s)) = (shapes s)[i := (m, d, k, ts)]"
  by (auto simp: set_workspace_color_def Let_def shapes_def modify_layout_ws_def modify_at_def map_update
      shape_of_ws_def ws_count_def list_eq_iff_nth_eq nth_list_update)

lemma restore_slot_restores:
  assumes i: "sinv {} {} s" and sh: "if k = 0 then shapes s = [(m, None, 0, [])] else length (shapes s) = k"
  shows "grows {} [] s (restore_slot k ws s) \<and>
    shapes (restore_slot k ws s) = (if k = 0 then [] else shapes s) @ [slot_shape ws]"
proof -
  define s1 where "s1 = (if k = 0 then snd (rename_workspace 0 (sw_name ws) s) else snd (create_workspace (sw_name ws) s))"
  have cnt: "0 < ws_count s" if "k = 0"
  proof -
    have "length (shapes s) = 1" using sh that by simp
    then show ?thesis by simp
  qed
  have one: "grows {} [] s s1 \<and> shapes s1 = (if k = 0 then [] else shapes s) @ [(sw_name ws, None, 0, [])]"
    using quiet_grows(4)[OF i] create_workspace_grows[OF i] shapes_rename[of 0 s m None 0 "[]"] sh cnt
    by (auto simp: s1_def)
  have idx: "k < ws_count s1" "shapes s1 ! k = (sw_name ws, None, 0, [])"
  proof -
    have "length (shapes s1) = Suc k" using one sh by (cases "k = 0") auto
    then show "k < ws_count s1" by simp
    show "shapes s1 ! k = (sw_name ws, None, 0, [])" using one sh by (cases "k = 0") (auto simp: nth_append)
  qed
  have inv1: "sinv {} {} s1" using one by (simp add: grows_def)
  show ?thesis
  proof (cases "sw_color ws")
    case None
    then show ?thesis using one by (simp add: restore_slot_def s1_def[symmetric] slot_shape_def)
  next
    case (Some c)
    have "restore_slot k ws s = snd (set_workspace_color k (Some c) s1)"
      using Some by (simp add: restore_slot_def s1_def[symmetric])
    moreover have "(shapes s1)[k := slot_shape ws] = (if k = 0 then [] else shapes s) @ [slot_shape ws]"
      using one sh by (cases "k = 0") (auto simp: list_update_append)
    ultimately show ?thesis
      using shapes_color[OF idx, of "Some c"] Some grows_trans[OF conjunct1[OF one] quiet_grows(5)[OF inv1]]
      by (simp add: slot_shape_def)
  qed
qed

lemma restore_slots_restores:
  assumes "sinv {} {} s" "shapes s = done" "done \<noteq> []"
  shows "grows {} [] s (restore_slots (length done) wss s) \<and>
    shapes (restore_slots (length done) wss s) = done @ map slot_shape wss"
  using assms
proof (induction wss arbitrary: s "done")
  case Nil
  then show ?case by (simp add: grows_refl)
next
  case (Cons ws wss)
  have one: "grows {} [] s (restore_slot (length done) ws s)"
    "shapes (restore_slot (length done) ws s) = done @ [slot_shape ws]"
    using restore_slot_restores[OF Cons.prems(1), of "length done" _ ws] Cons.prems(2,3) by auto
  have inv: "sinv {} {} (restore_slot (length done) ws s)" using one(1) by (simp add: grows_def)
  show ?case
    using Cons.IH[OF inv one(2)] grows_trans[OF one(1)] by fastforce
qed

subsection \<open>The focused panes\<close>

definition ws_back :: "saved_workspace \<Rightarrow> ws_shape" where
  "ws_back ws = (sw_name ws, sw_color ws, sw_active_tab ws,
     map (\<lambda>t. (live_of (st_tree t), st_active_pane_id t)) (sw_tabs ws))"

lemma live_id_self:
  assumes "tree_restorable L t" "u \<in> set (saved_ids t)"
  shows "live_pane_id_for_saved t (live_of t) u = Some u"
  using assms
proof (induction t)
  case (SSplit d r a b)
  have miss: "u \<notin> set (saved_ids t) \<Longrightarrow> live_pane_id_for_saved t (live_of t) u = None" for t
    by (induction t) (auto split: option.splits elim: option.exhaust)
  show ?case
  proof (cases "u \<in> set (saved_ids a)")
    case True
    then show ?thesis using SSplit by (simp add: tree_restorable_def)
  next
    case False
    then show ?thesis using SSplit miss[of a] by (simp add: tree_restorable_def)
  qed
qed (auto simp: tree_restorable_def)

type_synonym focus = "nat \<times> nat \<times> pane_id"

definition table :: "session \<Rightarrow> (uuid \<times> pane_tree) list list" where
  "table s = map (\<lambda>ws. map (\<lambda>t. (tab_id t, tab_tree t)) (ws_tabs ws)) (workspaces (layout s))"

definition focus_shape :: "focus \<Rightarrow> ws_shape list \<Rightarrow> ws_shape list" where
  "focus_shape = (\<lambda>(i, j, p). modify_at i (\<lambda>(n, c, k, ts). (n, c, k, modify_at j (\<lambda>(t, a). (t, Some p)) ts)))"

definition focus_ok :: "(uuid \<times> pane_tree) list list \<Rightarrow> focus \<Rightarrow> bool" where
  "focus_ok tb = (\<lambda>(i, j, p). i < length tb \<and> j < length (tb ! i) \<and> p \<in> set (leaves (snd (tb ! i ! j))))"

definition named :: "(uuid \<times> pane_tree) list list \<Rightarrow> focus \<Rightarrow> nat \<times> uuid \<times> pane_id" where
  "named tb = (\<lambda>(i, j, p). (i, fst (tb ! i ! j), p))"

lemma focus_one:
  assumes i: "sinv {} {} s" and ok: "focus_ok (table s) x"
  shows "grows {} [] s (focus_target (named (table s) x) s) \<and>
    shapes (focus_target (named (table s) x) s) = focus_shape x (shapes s) \<and>
    table (focus_target (named (table s) x) s) = table s"
proof -
  obtain i j p where x: "x = (i, j, p)" by (cases x) auto
  define ws where "ws = workspaces (layout s) ! i"
  have idx: "i < length (workspaces (layout s))" "j < length (ws_tabs ws)" "p \<in> set (leaves (tab_tree (ws_tabs ws ! j)))"
    using ok by (auto simp: focus_ok_def table_def x ws_def)
  have d: "distinct (map tab_id (ws_tabs ws))"
    using layout_ok_ws(3)[OF invD(1)[OF i] idx(1)] by (simp add: ws_def)
  have name: "named (table s) x = (i, tab_id (ws_tabs ws ! j), p)"
    using idx by (simp add: named_def table_def x ws_def)
  define s' where "s' = snd (set_active_pane i (tab_id (ws_tabs ws ! j)) (Some p) s)"
  have lay: "layout s' = modify_layout_ws i (\<lambda>ws. ws\<lparr>ws_tabs :=
      modify_at j (\<lambda>t. t\<lparr>active_pane_id := Some p\<rparr>) (ws_tabs ws)\<rparr>) (layout s) \<or>
      layout s' = layout s \<and> active_pane_id (ws_tabs ws ! j) = Some p"
    using idx position_of_id[OF d idx(2)]
    by (auto simp: s'_def set_active_pane_def ws_count_def Let_def ws_def)
  have "shapes s' = focus_shape x (shapes s) \<and> table s' = table s"
    using lay idx
    by (auto simp: shapes_def table_def modify_layout_ws_def modify_at_def map_update x focus_shape_def shape_of_ws_def
        shape_of_tab_def ws_def list_eq_iff_nth_eq nth_list_update)
  then show ?thesis
    using quiet_grows(3)[OF i] by (simp add: name focus_target_def s'_def)
qed

lemma focus_all:
  assumes "sinv {} {} s" "\<forall>x \<in> set xs. focus_ok (table s) x"
  shows "grows {} [] s (fold focus_target (map (named (table s)) xs) s) \<and>
    shapes (fold focus_target (map (named (table s)) xs) s) = fold focus_shape xs (shapes s)"
  using assms
proof (induction xs arbitrary: s)
  case Nil
  then show ?case by (simp add: grows_refl)
next
  case (Cons x xs)
  define s1 where "s1 = focus_target (named (table s) x) s"
  have one: "grows {} [] s s1" "shapes s1 = focus_shape x (shapes s)" "table s1 = table s"
    using focus_one[OF Cons.prems(1), of x] Cons.prems(2) by (simp_all add: s1_def)
  have "sinv {} {} s1" using one(1) by (simp add: grows_def)
  from Cons.IH[OF this] Cons.prems(2) one grows_trans[OF one(1)] show ?case
    by (fastforce simp: s1_def[symmetric])
qed

fun tab_focuses :: "nat \<Rightarrow> nat \<Rightarrow> tab_state list \<Rightarrow> focus list" where
  "tab_focuses i j [] = []"
| "tab_focuses i j (t # ts) =
     (case st_active_pane_id t of None \<Rightarrow> [] | Some u \<Rightarrow> [(i, j, u)]) @ tab_focuses i (Suc j) ts"

fun ws_focuses :: "nat \<Rightarrow> saved_workspace list \<Rightarrow> focus list" where
  "ws_focuses i [] = []"
| "ws_focuses i (ws # wss) = tab_focuses i 0 (sw_tabs ws) @ ws_focuses (Suc i) wss"

definition focus_saved :: "tab_state \<Rightarrow> bool" where
  "focus_saved t \<longleftrightarrow> (\<forall>u. st_active_pane_id t = Some u \<longrightarrow> u \<in> set (saved_ids (st_tree t)))"

definition tab_full :: "tab_state \<Rightarrow> tab_shape" where
  "tab_full t = (live_of (st_tree t), st_active_pane_id t)"

lemma modify_at_middle: "length A = i \<Longrightarrow> modify_at i f (A @ x # B) = A @ f x # B"
  using modify_at_append by metis

lemma fold_tab_focuses:
  "length S = i \<Longrightarrow> length pre = j \<Longrightarrow>
   fold focus_shape (tab_focuses i j ts) (S @ (n, c, k, pre @ map tab_back ts) # R) =
     S @ (n, c, k, pre @ map tab_full ts) # R"
proof (induction ts arbitrary: pre j)
  case (Cons t ts)
  have "focus_shape (i, j, u) (S @ (n, c, k, pre @ tab_back t # map tab_back ts) # R) =
      S @ (n, c, k, (pre @ [(live_of (st_tree t), Some u)]) @ map tab_back ts) # R" for u
    using Cons.prems by (simp add: focus_shape_def modify_at_middle tab_back_def[of t])
  then show ?case
    using Cons.IH[of "pre @ [tab_full t]" "Suc j"] Cons.prems
    by (auto simp: tab_full_def[of t] tab_back_def[of t] split: option.split)
qed simp

lemma fold_ws_focuses:
  "length S = i \<Longrightarrow> fold focus_shape (ws_focuses i wss) (S @ map tabs_shape wss) = S @ map ws_back wss"
proof (induction wss arbitrary: S i)
  case (Cons ws wss)
  have "fold focus_shape (tab_focuses i 0 (sw_tabs ws)) (S @ tabs_shape ws # map tabs_shape wss) =
      (S @ [ws_back ws]) @ map tabs_shape wss"
    using fold_tab_focuses[OF Cons.prems, of "[]" 0] by (simp add: tabs_shape_def ws_back_def tab_full_def[abs_def])
  then show ?case using Cons.IH[of "S @ [ws_back ws]" "Suc i"] Cons.prems by simp
qed simp

lemma workspace_targets:
  assumes "map tab_tree us = map (\<lambda>t. live_of (st_tree t)) ts"
    "\<forall>t \<in> set ts. tree_restorable L (st_tree t) \<and> focus_saved t"
    "i < length tb" "tb ! i = pre @ map (\<lambda>u. (tab_id u, tab_tree u)) us" "length pre = j"
  shows "List.map_filter (\<lambda>(t, u). target_of_tab i t u) (zip ts us) = map (named tb) (tab_focuses i j ts) \<and>
    (\<forall>x \<in> set (tab_focuses i j ts). focus_ok tb x)"
  using assms
proof (induction ts arbitrary: us pre j)
  case (Cons t ts)
  obtain u vs where us: "us = u # vs" "tab_tree u = live_of (st_tree t)"
    "map tab_tree vs = map (\<lambda>t. live_of (st_tree t)) ts"
    using Cons.prems(1) by (auto simp: Cons_eq_map_conv)
  have ih: "List.map_filter (\<lambda>(t, u). target_of_tab i t u) (zip ts vs) = map (named tb) (tab_focuses i (Suc j) ts) \<and>
    (\<forall>x \<in> set (tab_focuses i (Suc j) ts). focus_ok tb x)"
    by (rule Cons.IH[OF us(3), where pre = "pre @ [(tab_id u, tab_tree u)]"]) (use Cons.prems us in simp_all)
  have at: "tb ! i ! j = (tab_id u, tab_tree u)" "j < length (tb ! i)"
    using Cons.prems(4,5) us(1) by (simp_all add: nth_append)
  show ?case
  proof (cases "st_active_pane_id t")
    case None
    then show ?thesis using ih us(1) by (simp add: List.map_filter_def target_of_tab_def)
  next
    case (Some v)
    then have v: "v \<in> set (saved_ids (st_tree t))" "tree_restorable L (st_tree t)"
      using Cons.prems(2) by (auto simp: focus_saved_def)
    have some: "\<forall>(c, u) \<in> set (saved_leaves (st_tree t)). u \<noteq> None" using v(2) by (auto simp: tree_restorable_def)
    show ?thesis
      using ih us Some live_id_self[OF v(2,1)] at v(1) live_of_leaves[OF some] Cons.prems(3)
      by (simp add: List.map_filter_def target_of_tab_def named_def focus_ok_def)
  qed
qed (simp add: List.map_filter_def)

lemma session_targets:
  assumes "map shape_of_ws lives = map tabs_shape wss" "\<forall>ws \<in> set wss. ws_restorable L ws \<and> (\<forall>t \<in> set (sw_tabs ws). focus_saved t)"
    "tb = pre @ map (\<lambda>ws. map (\<lambda>t. (tab_id t, tab_tree t)) (ws_tabs ws)) lives" "length pre = i"
  shows "restore_targets i wss lives = map (named tb) (ws_focuses i wss) \<and>
    (\<forall>x \<in> set (ws_focuses i wss). focus_ok tb x)"
  using assms
proof (induction wss arbitrary: lives pre i)
  case (Cons ws wss)
  obtain live lives' where l: "lives = live # lives'" "shape_of_ws live = tabs_shape ws"
    "map shape_of_ws lives' = map tabs_shape wss"
    using Cons.prems(1) by (auto simp: Cons_eq_map_conv)
  have trees: "map tab_tree (ws_tabs live) = map (\<lambda>t. live_of (st_tree t)) (sw_tabs ws)"
  proof -
    have "map shape_of_tab (ws_tabs live) = map tab_back (sw_tabs ws)"
      using l(2) by (simp add: shape_of_ws_def tabs_shape_def)
    from arg_cong[OF this, of "map fst"] show ?thesis
      by (simp add: shape_of_tab_def tab_back_def comp_def)
  qed
  have one: "List.map_filter (\<lambda>(t, u). target_of_tab i t u) (zip (sw_tabs ws) (ws_tabs live)) =
      map (named tb) (tab_focuses i 0 (sw_tabs ws)) \<and> (\<forall>x \<in> set (tab_focuses i 0 (sw_tabs ws)). focus_ok tb x)"
    by (rule workspace_targets[OF trees, where pre = "[]" and L = L])
      (use Cons.prems l(1) in \<open>auto simp: ws_restorable_def nth_append\<close>)
  have "restore_targets (Suc i) wss lives' = map (named tb) (ws_focuses (Suc i) wss) \<and>
      (\<forall>x \<in> set (ws_focuses (Suc i) wss). focus_ok tb x)"
    by (rule Cons.IH[OF l(3), where pre = "pre @ [map (\<lambda>t. (tab_id t, tab_tree t)) (ws_tabs live)]"])
      (use Cons.prems l(1) in auto)
  with one show ?case by (auto simp: l(1) targets_of_workspace_def)
qed simp

subsection \<open>The whole restore\<close>

definition state_leaves :: "workspace_state \<Rightarrow> (path \<times> uuid option) list" where
  "state_leaves st = concat (map saved_ws_leaves (ss_workspaces st))"

definition state_ids :: "workspace_state \<Rightarrow> uuid list" where
  "state_ids st = concat (map saved_ws_ids (ss_workspaces st))"

text \<open>
  A saved state that can come back: no workspace without tabs, indices in range, the focused pane
  of a tab in its tree, every leaf with an id, no id twice, every directory still there.
\<close>

definition restorable :: "libs \<Rightarrow> workspace_state \<Rightarrow> bool" where
  "restorable L st \<longleftrightarrow> ss_active_workspace st < length (ss_workspaces st) \<and> distinct (state_ids st) \<and>
     (\<forall>ws \<in> set (ss_workspaces st). ws_restorable L ws \<and> (\<forall>t \<in> set (sw_tabs ws). focus_saved t))"

lemma shapes_active_workspace [simp]: "shapes (snd (set_active_workspace i s)) = shapes s"
  by (auto simp: shapes_def set_active_workspace_def Let_def)

lemma active_focus [simp]:
  "active_workspace (layout (fold focus_target xs s)) = active_workspace (layout s)"
proof (induction xs arbitrary: s)
  case (Cons x xs)
  have "active_workspace (layout (focus_target x s)) = active_workspace (layout s)"
    by (auto simp: focus_target_def set_active_pane_def Let_def modify_layout_ws_def split: prod.split option.split)
  then show ?case using Cons by simp
qed simp

lemma restore_session_restores:
  assumes i: "sinv {} {} s" and w: "spawn_ok (world s)" and s: "shapes s = [(m, None, 0, [])]"
    and ok: "restorable L st" and un: "\<forall>u \<in> set (state_ids st). unused_id u s" and pin: "\<not> pinned s"
  shows "shapes (restore_session L st s) = map ws_back (ss_workspaces st) \<and>
    active_workspace (layout (restore_session L st s)) = ss_active_workspace st \<and>
    pinned (restore_session L st s) = ss_pinned st \<and> sinv {} {} (restore_session L st s) \<and>
    cwds_shown (state_leaves st) (restore_session L st s)"
proof -
  obtain ws wss where wss: "ss_workspaces st = ws # wss"
    using ok by (cases "ss_workspaces st") (auto simp: restorable_def)
  define s1 where "s1 = (if ss_pinned st then set_pinned True s else s)"
  have s1: "sinv {} {} s1" "spawn_ok (world s1)" "shapes s1 = [(m, None, 0, [])]" "pinned s1 = ss_pinned st"
    "unused_id u s1 = unused_id u s" for u
    using i w s pin by (auto simp: s1_def inv_set_pinned) (auto simp: set_pinned_def shapes_def unused_id_def)
  define s2 where "s2 = restore_slots 0 (ws # wss) s1"
  have slot: "grows {} [] s1 (restore_slot 0 ws s1)" "shapes (restore_slot 0 ws s1) = [slot_shape ws]"
    using restore_slot_restores[OF s1(1), of 0 m ws] s1(3) by simp_all
  have "sinv {} {} (restore_slot 0 ws s1)" using slot(1) by (simp add: grows_def)
  from restore_slots_restores[OF this slot(2), of wss]
  have s2: "grows {} [] s1 s2" "shapes s2 = [] @ map slot_shape (ws # wss)"
    using grows_trans[OF slot(1)] by (fastforce simp: s2_def)+
  have pre2: "sinv {} {} s2" "spawn_ok (world s2)" using s2(1) s1(2) by (auto simp: grows_def later_def)
  have un2: "\<forall>v \<in> set (ws # wss). \<forall>u \<in> set (saved_ws_ids v). unused_id u s2"
    using un s2(1) s1(5) wss by (auto simp: grows_def state_ids_def)
  define s3 where "s3 = restore_all_tabs L 0 (ws # wss) s2"
  have s3: "grows (\<Union>ws \<in> set (ws # wss). set (saved_ws_ids ws)) (state_leaves st) s2 s3" "shapes s3 = map tabs_shape (ws # wss)"
    using restore_all_tabs_restores[OF pre2 _ _ un2 s2(2), of L] ok wss
    by (simp_all add: restorable_def state_ids_def state_leaves_def s3_def)
  define s4 where "s4 = snd (set_active_workspace (ss_active_workspace st) s3)"
  have inv3: "sinv {} {} s3" using s3(1) by (simp add: grows_def)
  have s4: "grows {} [] s3 s4" "shapes s4 = map tabs_shape (ws # wss)"
    using quiet_grows(2)[OF inv3] s3(2) by (simp_all add: s4_def)
  have act: "active_workspace (layout s4) = ss_active_workspace st"
    using arg_cong[OF s3(2), of length] ok wss by (auto simp: s4_def set_active_workspace_def restorable_def)
  have inv4: "sinv {} {} s4" using s4(1) by (simp add: grows_def)
  have tg: "restore_targets 0 (ws # wss) (workspaces (layout s4)) = map (named (table s4)) (ws_focuses 0 (ws # wss)) \<and>
      (\<forall>x \<in> set (ws_focuses 0 (ws # wss)). focus_ok (table s4) x)"
    by (rule session_targets[where pre = "[]" and L = L])
      (use s4(2) ok wss in \<open>auto simp: shapes_def restorable_def table_def\<close>)
  define s5 where "s5 = fold focus_target (restore_targets 0 (ws # wss) (workspaces (layout s4))) s4"
  have s5: "grows {} [] s4 s5" "shapes s5 = map ws_back (ws # wss)"
    using focus_all[OF inv4, of "ws_focuses 0 (ws # wss)"] tg fold_ws_focuses[of "[]" 0 "ws # wss"] s4(2)
    by (simp_all add: s5_def del: ws_focuses.simps)
  have eq: "restore_session L st s = s5"
    by (simp add: restore_session_def wss s1_def[symmetric] s2_def[symmetric] s3_def[symmetric]
        s4_def[symmetric] s5_def[symmetric] del: restore_slots.simps restore_all_tabs.simps restore_targets.simps)
  have "grows (\<Union>ws \<in> set (ws # wss). set (saved_ws_ids ws)) (state_leaves st) s1 s5"
    using grows_trans[OF s2(1) grows_trans[OF s3(1) grows_trans[OF s4(1) s5(1)]]] by simp
  then show ?thesis
    using s5 act s1(4) unfolding eq by (auto simp: wss s5_def grows_def later_def)
qed

end
