(* ===== verification/Restart.thy ===== *)
theory Restart
  imports DaemonProps
begin

section \<open>From the exit of one daemon to the start of the next\<close>

text \<open>
  The snapshot of a session is restorable, the exit leaves it on disk, and the next daemon with
  the same session id rebuilds the session from it. The last part is about the revocation of a
  device from the command line while the daemon runs.
\<close>

subsection \<open>A snapshot describes the session\<close>

lemma live_of_convert [simp]: "live_of (convert_pane_tree_layout t s) = t"
  by (induction t) auto

lemma saved_leaves_convert [simp]:
  "saved_leaves (convert_pane_tree_layout t s) = map (\<lambda>p. (pane_cwd_or_home s p, Some p)) (leaves t)"
  by (induction t) auto

lemma saved_ids_convert [simp]: "saved_ids (convert_pane_tree_layout t s) = leaves t"
  by (induction t) auto

lemma ws_back_snapshot [simp]: "ws_back (snapshot_ws s ws) = shape_of_ws ws"
  by (simp add: ws_back_def snapshot_ws_def shape_of_ws_def snapshot_tab_def shape_of_tab_def comp_def)

lemma saved_ws_snapshot [simp]:
  "saved_ws_ids (snapshot_ws s ws) = ws_leaves ws"
  "saved_ws_leaves (snapshot_ws s ws) = map (\<lambda>p. (pane_cwd_or_home s p, Some p)) (ws_leaves ws)"
  by (simp_all add: saved_ws_ids_def saved_ws_leaves_def snapshot_ws_def snapshot_tab_def ws_leaves_def
      comp_def map_concat)

definition snapshot_of :: "session \<Rightarrow> workspace_state" where
  "snapshot_of s = fst (snapshot_to_workspace_state s)"

lemma snapshot_of_sel [simp]:
  "ss_workspaces (snapshot_of s) = map (snapshot_ws (refresh_pane_cwds s)) (workspaces (layout s))"
  "ss_active_workspace (snapshot_of s) = active_workspace (layout s)"
  "ss_pinned (snapshot_of s) = pinned s"
  by (simp_all add: snapshot_of_def snapshot_to_workspace_state_def Let_def refresh_pane_cwds_def)

lemma state_ids_snapshot [simp]: "state_ids (snapshot_of s) = layout_leaves (layout s)"
  by (simp add: state_ids_def layout_leaves_def comp_def)

lemma state_leaves_snapshot:
  "state_leaves (snapshot_of s) =
     map (\<lambda>p. (pane_cwd_or_home (refresh_pane_cwds s) p, Some p)) (layout_leaves (layout s))"
  by (simp add: state_leaves_def layout_leaves_def comp_def map_concat)

text \<open>
  A session that can be restored: a tab in every workspace, and the working directories still
  there.
\<close>

definition can_restart :: "libs \<Rightarrow> session \<Rightarrow> bool" where
  "can_restart L s \<longleftrightarrow> (\<forall>ws \<in> set (workspaces (layout s)). ws_tabs ws \<noteq> []) \<and>
     (\<forall>p \<in> set (layout_leaves (layout s)). is_dir L (pane_cwd_or_home (refresh_pane_cwds s) p))"

lemma snapshot_restorable:
  assumes "sinv {} D s" "can_restart L s"
  shows "restorable L (snapshot_of s)"
proof -
  have l: "layout_ok (layout s)" using invD(1)[OF assms(1)] .
  have tree: "tree_restorable L (convert_pane_tree_layout (tab_tree t) (refresh_pane_cwds s))"
    if "ws \<in> set (workspaces (layout s))" "t \<in> set (ws_tabs ws)" for ws t
    using that assms(2) by (auto simp: tree_restorable_def can_restart_def layout_leaves_def ws_leaves_def)
  have one: "ws_restorable L (snapshot_ws (refresh_pane_cwds s) ws)"
    if "ws \<in> set (workspaces (layout s))" for ws
  proof -
    obtain i where "i < length (workspaces (layout s))" "workspaces (layout s) ! i = ws"
      using \<open>ws \<in> _\<close> by (auto simp: in_set_conv_nth)
    then have "ws_ok ws" "distinct (ws_leaves ws)" using layout_ok_ws[OF l] by auto
    moreover have "ws_tabs ws \<noteq> []" using assms(2) that by (simp add: can_restart_def)
    ultimately show ?thesis
      using tree[OF that] unfolding ws_restorable_def saved_ws_snapshot
      by (cases "ws_tabs ws") (auto simp: ws_ok_def snapshot_ws_def snapshot_tab_def)
  qed
  have foc: "focus_saved t'" if "ws \<in> set (workspaces (layout s))"
      "t' \<in> set (sw_tabs (snapshot_ws (refresh_pane_cwds s) ws))" for ws t'
    using l that by (auto simp: layout_ok_def ws_ok_def focus_saved_def snapshot_ws_def snapshot_tab_def)
  show ?thesis
    using l one foc unfolding restorable_def state_ids_snapshot by (auto simp: layout_ok_def)
qed

subsection \<open>The files between the two daemons\<close>

lemma exit_leaves_file:
  assumes h: "healthy w" and st: "storable_state cd (snapshot_of s)"
    and e: "signal_exit cd sid contended order s w = (s1, w1)"
  shows "healthy w1"
    "load_from_path cd (SessionJson (if pinned s then Sessions else Trash) sid) w1 = Inr (Some (snapshot_of s))"
    "fs_get w1 (SessionJson Active sid) = None"
    "\<forall>u. fs_get w1 (LogFile u) = fs_get w (LogFile u)"
proof -
  obtain j where j: "to_json cd (snapshot_of s) = Inr j" "from_json cd j = Inr (snapshot_of s)"
    using st by (auto simp: storable_state_def split: sum.splits)
  define a where "a = snd (move_to_active cd sid (snapshot_of s) w)"
  have a: "healthy a" "\<And>q. fs_get a q = (if q = TmpOf (SessionJson Active sid) then None
      else if q = SessionJson Active sid then Some j else fs_get w q)"
    using save_to_path_healthy[OF h j(1)] by (simp_all add: a_def move_to_active_def)
  let ?b = "if pinned s then Sessions else Trash"
  have "w1 = pinned_aware_exit_move sid (pinned s) a"
    using e by (auto simp: signal_exit_def save_session_from_layout_def a_def snapshot_of_def
        snapshot_to_workspace_state_def refresh_pane_cwds_def Let_def is_pinned_def)
  then have "w1 = snd (rename_with_fallback (SessionJson Active sid) (SessionJson ?b sid) a)"
    by (simp add: pinned_aware_exit_move_def move_active_to_sessions_def move_active_to_trash_def
        path_exists_def Let_def a(2))
  then have w1: "healthy w1" "\<And>q. fs_get w1 q = (if q = SessionJson Active sid then None
      else if q = SessionJson ?b sid then Some j else fs_get a q)"
    using rename_healthy[OF a(1), of "SessionJson Active sid" j "SessionJson ?b sid"] a(2) by auto
  show "healthy w1" "fs_get w1 (SessionJson Active sid) = None"
    "\<forall>u. fs_get w1 (LogFile u) = fs_get w (LogFile u)" using w1 a(2) by auto
  show "load_from_path cd (SessionJson ?b sid) w1 = Inr (Some (snapshot_of s))"
    using w1 j(2) by (simp add: load_from_path_def path_exists_def healthy_calls)
qed

lemma prune_keeps_listed:
  "healthy w \<Longrightarrow> u \<in> live \<Longrightarrow> fs_get (prune_orphan_logs live w) (LogFile u) = fs_get w (LogFile u)"
  by (auto simp: prune_orphan_logs_def fold_prune)

lemma prune_healthy: "healthy w \<Longrightarrow> healthy (prune_orphan_logs live w)"
proof -
  have "healthy w \<Longrightarrow> healthy (fold (prune_one live) ps w)" for ps
    by (induction ps arbitrary: w) (auto simp: prune_one_healthy)
  then show "healthy w \<Longrightarrow> healthy (prune_orphan_logs live w)" by (simp add: prune_orphan_logs_def)
qed

lemma save_other:
  "q \<noteq> p \<Longrightarrow> q \<noteq> TmpOf p \<Longrightarrow> fs_get (snd (save_to_path cd p st w)) q = fs_get w q"
  by (auto simp: save_to_path_def io_bind_def fs_mkdir_for_def fs_write_def fs_rename_def fs_remove_def
      split: sum.splits prod.splits if_splits option.splits)

subsection \<open>The new daemon\<close>

definition blank_session :: "nat \<Rightarrow> nat \<Rightarrow> world \<Rightarrow> session" where
  "blank_session ring_kb max_mb wd = set_byte_log_config ring_kb max_mb (session_new wd)"

text \<open>The world of the new daemon does not hand out an id of the old session again.\<close>

definition ids_fresh :: "session \<Rightarrow> world \<Rightarrow> bool" where
  "ids_fresh s wd \<longleftrightarrow> w_fresh wd ` {w_next_id wd..} \<inter> set (layout_leaves (layout s)) = {}"

lemma blank_session_ok:
  assumes "world_ok wd"
  shows "sinv {} {} (blank_session ring_kb max_mb wd)"
    "shapes (blank_session ring_kb max_mb wd) = [(''Default'', None, 0, [])]"
    "\<not> pinned (blank_session ring_kb max_mb wd)"
    "spawn_ok wd \<Longrightarrow> spawn_ok (world (blank_session ring_kb max_mb wd))"
    "ids_fresh s wd \<Longrightarrow> u \<in> set (layout_leaves (layout s)) \<Longrightarrow> unused_id u (blank_session ring_kb max_mb wd)"
proof -
  have "sinv {} {} (set_byte_log_config ring_kb max_mb (session_new wd)) = sinv {} {} (session_new wd)"
    by (rule inv_cong) (simp_all add: set_byte_log_config_def)
  then show "sinv {} {} (blank_session ring_kb max_mb wd)"
    using inv_session_new[OF assms] by (simp add: blank_session_def)
  show "shapes (blank_session ring_kb max_mb wd) = [(''Default'', None, 0, [])]"
    "\<not> pinned (blank_session ring_kb max_mb wd)"
    "spawn_ok wd \<Longrightarrow> spawn_ok (world (blank_session ring_kb max_mb wd))"
    by (simp_all add: blank_session_def set_byte_log_config_def session_new_def new_default_layout_def
        shapes_def shape_of_ws_def)
  assume "ids_fresh s wd" "u \<in> set (layout_leaves (layout s))"
  then have "\<forall>n \<ge> w_next_id wd. w_fresh wd n \<noteq> u" by (auto simp: ids_fresh_def)
  then show "unused_id u (blank_session ring_kb max_mb wd)"
    by (auto simp: blank_session_def set_byte_log_config_def session_new_def new_default_layout_def
        unused_id_def layout_ids_def layout_spec_defs)
qed

lemma refresh_same [simp]:
  "layout (refresh_pane_cwds s) = layout s" "pinned (refresh_pane_cwds s) = pinned s"
  "dom (panes (refresh_pane_cwds s)) = dom (panes s)" "world (refresh_pane_cwds s) = world s"
  "pane_order (refresh_pane_cwds s) = pane_order s"
  by (auto simp: refresh_pane_cwds_def)

lemma shapes_leaves: "shapes s = shapes s' \<Longrightarrow> layout_leaves (layout s) = layout_leaves (layout s')"
proof -
  have "layout_leaves (layout s) = concat (map (\<lambda>(n, c, a, ts). concat (map (leaves \<circ> fst) ts)) (shapes s))" for s
    by (simp add: shapes_def layout_leaves_def ws_leaves_def[abs_def] shape_of_ws_def shape_of_tab_def comp_def)
  then show "shapes s = shapes s' \<Longrightarrow> layout_leaves (layout s) = layout_leaves (layout s')" by simp
qed

lemma daemon_start_loads:
  assumes "load_session_for cd sid w = Inr (Some st)"
    and "daemon_start L cd sid ring_kb max_mb wd w = (s2, w2)"
  shows "s2 = refresh_pane_cwds (restore_session L st (blank_session ring_kb max_mb wd))"
    "w2 = snd (move_to_active cd sid (snapshot_of (restore_session L st (blank_session ring_kb max_mb wd)))
      (prune_at_start cd (restore_session L st (blank_session ring_kb max_mb wd)) w))"
  using assms by (auto simp: daemon_start_def blank_session_def[symmetric] save_session_from_layout_def
      snapshot_of_def snapshot_to_workspace_state_def Let_def)


definition kept_session :: session where
  "kept_session = demo_session
     \<lparr>panes := [102 \<mapsto> \<lparr>ps_id = 102, ps_bridge = \<lparr>pb_pty = 0, pb_rx = False\<rparr>,
                        ps_cwd = ''/home/u'', ps_title = [], ps_rows = 24, ps_cols = 80\<rparr>,
               104 \<mapsto> \<lparr>ps_id = 104, ps_bridge = \<lparr>pb_pty = 1, pb_rx = False\<rparr>,
                        ps_cwd = ''/tmp'', ps_title = [], ps_rows = 24, ps_cols = 80\<rparr>],
      pane_order := [102, 104], pinned := True,
      layout := \<lparr>workspaces =
         [\<lparr>ws_id = 100, ws_name = ''main'', ws_tabs = [\<lparr>tab_id = 103, tab_title = [],
             tab_tree = Split ''horizontal'' (Finite (1/3)) (Leaf 102) (Leaf 104),
             active_pane_id = Some 104\<rparr>], ws_active_tab = 0, ws_color = Some ''red''\<rparr>],
         active_workspace = 0\<rparr>,
      byte_logs := Map.empty, world := demo_world\<lparr>w_next_id := 5, w_next_spawn := 2\<rparr>\<rparr>"

lemma kept_inv: "sinv {} {} kept_session"
  by (auto simp: kept_session_def demo_session_def sinv_def layout_ok_def ws_ok_def layout_spec_defs
      supply_ok_def logs_ok_def layout_ids_def demo_world_inj)

text \<open>A codec that knows the snapshot of that session only.\<close>

definition kept_codec :: codec where
  "kept_codec =
     \<lparr>to_json = (\<lambda>st. Inr ''S''), from_json = (\<lambda>c. Inr (snapshot_of kept_session)),
      probe_pinned = (\<lambda>c. Inr True)\<rparr>"

definition later_world :: world where
  "later_world = demo_world\<lparr>w_fresh := (\<lambda>n. n + 500)\<rparr>"


subsection \<open>A restore in which the shells do not start\<close>

text \<open>Attempts \<open>k\<close> to start a shell that all failed and changed nothing else that counts here.\<close>

definition tried :: "nat \<Rightarrow> session \<Rightarrow> session \<Rightarrow> bool" where
  "tried k s s' \<longleftrightarrow> layout s' = layout s \<and> w_spawn (world s') = w_spawn (world s) \<and>
     w_next_spawn (world s') = w_next_spawn (world s) + k"

definition next_spawns_fail :: "nat \<Rightarrow> session \<Rightarrow> bool" where
  "next_spawns_fail k s \<longleftrightarrow> (\<forall>m < k. \<forall>sz c cmd l.
     \<exists>e. w_spawn (world s) (w_next_spawn (world s) + m) sz c cmd l = Inl e)"

lemma tried_trans: "tried j s t \<Longrightarrow> tried k t u \<Longrightarrow> tried (j + k) s u"
  by (simp add: tried_def)

lemma fail_later: "next_spawns_fail (j + k) s \<Longrightarrow> tried j s t \<Longrightarrow> next_spawns_fail k t"
  unfolding next_spawns_fail_def tried_def by (metis add.assoc nat_add_left_cancel_less)

lemma failing_create:
  assumes "next_spawns_fail (Suc k) s" "i < ws_count s"
  shows "\<exists>e s1. create_tab_with_pane_id i c sz cmd p s = (Inl e, s1) \<and> tried 1 s s1"
proof -
  obtain cm lg where e: "effective_command cmd None True = (cm, lg)" by fastforce
  obtain e' where "w_spawn (world s) (w_next_spawn (world s)) sz c cm lg = Inl e'"
    using assms(1) unfolding next_spawns_fail_def by (metis add_0_right zero_less_Suc)
  then show ?thesis
    using assms(2) e by (auto simp: create_tab_with_pane_id_def pty_bridge_spawn_def tried_def Let_def)
qed

lemma failing_tab:
  assumes "next_spawns_fail (Suc k) s" "i < ws_count s"
  shows "tried 1 s (restore_tab L i t s)"
proof (cases "first_leaf_pane_id (st_tree t)")
  case (Some p)
  then show ?thesis
    using failing_create[OF assms, of "dir_or_none L (first_leaf_cwd (st_tree t))" default_size None p]
    by (auto simp: restore_tab_def)
next
  case None
  obtain u s0 where u: "new_uuid s = (u, s0)" by fastforce
  then have s0: "tried 0 s s0" "ws_count s0 = ws_count s"
    by (auto simp: new_uuid_def tried_def ws_count_def)
  then have "next_spawns_fail (Suc k) s0" using fail_later[of 0 "Suc k" s s0] assms(1) by simp
  then obtain e s1 where s1: "create_tab_with_pane_id i (dir_or_none L (first_leaf_cwd (st_tree t))) default_size None u s0 = (Inl e, s1)"
      "tried 1 s0 s1"
    using failing_create s0(2) assms(2) by metis
  have "tried (0 + 1) s s1" by (rule tried_trans[OF s0(1) s1(2)])
  then show ?thesis using None u s1(1) by (simp add: restore_tab_def create_tab_def)
qed

lemma failing_fold:
  "next_spawns_fail (length ts) s \<Longrightarrow> i < ws_count s \<Longrightarrow> tried (length ts) s (fold (restore_tab L i) ts s)"
proof (induction ts arbitrary: s)
  case (Cons t ts)
  have one: "tried 1 s (restore_tab L i t s)" using failing_tab Cons.prems by simp
  then have "tried (length ts) (restore_tab L i t s) (fold (restore_tab L i) ts (restore_tab L i t s))"
    using Cons fail_later[of 1 "length ts" s] by (simp add: tried_def ws_count_def)
  then show ?case using tried_trans[OF one] by simp
qed (simp add: tried_def)

lemma failing_all:
  assumes "next_spawns_fail (sum_list (map (length \<circ> sw_tabs) wss)) s" "i + length wss \<le> ws_count s"
    "\<forall>ws \<in> set wss. sw_tabs ws \<noteq> []" "\<forall>ws \<in> set (workspaces (layout s)). ws_tabs ws = []"
  shows "tried (sum_list (map (length \<circ> sw_tabs) wss)) s (restore_all_tabs L i wss s)"
  using assms
proof (induction wss arbitrary: i s)
  case (Cons ws wss)
  let ?k = "length (sw_tabs ws)" and ?r = "sum_list (map (length \<circ> sw_tabs) wss)"
  define s1 where "s1 = fold (restore_tab L i) (sw_tabs ws) s"
  have "next_spawns_fail ?k s" using Cons.prems(1) by (auto simp: next_spawns_fail_def)
  then have s1: "tried ?k s s1" using failing_fold Cons.prems(2) by (simp add: s1_def)
  have "ws_tabs (workspaces (layout s1) ! i) = []"
    using s1 Cons.prems(2,4) by (simp add: tried_def ws_count_def)
  then have t: "restore_tabs L i ws s = s1"
    using Cons.prems(3) by (simp add: restore_tabs_def s1_def[symmetric] set_active_tab_def)
  have "tried ?r s1 (restore_all_tabs L (Suc i) wss s1)"
    using Cons.IH[of s1 "Suc i"] fail_later[of ?k ?r s s1] s1 Cons.prems by (simp add: tried_def ws_count_def comp_def)
  then show ?case using tried_trans[OF s1] by (simp add: t comp_def)
qed (simp add: tried_def)

lemma slots_same_world:
  "w_spawn (world (restore_slots i wss s)) = w_spawn (world s) \<and>
   w_next_spawn (world (restore_slots i wss s)) = w_next_spawn (world s)"
proof (induction wss arbitrary: i s)
  case (Cons ws wss)
  have "w_spawn (world (restore_slot i ws s)) = w_spawn (world s) \<and>
      w_next_spawn (world (restore_slot i ws s)) = w_next_spawn (world s)"
    by (auto simp: restore_slot_def rename_workspace_def create_workspace_def set_workspace_color_def
        new_uuid_def Let_def modify_ws_def split: prod.split)
  then show ?case using Cons by simp
qed simp

text \<open>
  When no saved tab can be started again, no workspace is given a shell: the restore tries
  each saved tab once, every workspace comes back without tabs, and although the next attempt
  may well succeed none is made, because the repair looks at the tabs that were saved and not
  at those that came back.
\<close>

theorem failed_restore_not_repaired:
  assumes "sinv {} {} s" "shapes s = [(m, None, 0, [])]" "ss_workspaces st \<noteq> []"
    and "\<forall>ws \<in> set (ss_workspaces st). sw_tabs ws \<noteq> []"
    and "next_spawns_fail (sum_list (map (length \<circ> sw_tabs) (ss_workspaces st))) s"
  shows "shapes (restore_session L st s) = map slot_shape (ss_workspaces st) \<and>
    w_next_spawn (world (restore_session L st s)) =
      w_next_spawn (world s) + sum_list (map (length \<circ> sw_tabs) (ss_workspaces st))"
proof -
  let ?k = "sum_list (map (length \<circ> sw_tabs) (ss_workspaces st))"
  obtain ws wss where wss: "ss_workspaces st = ws # wss" using assms(3) by (cases "ss_workspaces st") auto
  define s1 where "s1 = (if ss_pinned st then set_pinned True s else s)"
  have s1: "sinv {} {} s1" "shapes s1 = [(m, None, 0, [])]" "world s1 = world s"
    using assms(1,2) by (auto simp: s1_def inv_set_pinned) (auto simp: set_pinned_def shapes_def)
  define s2 where "s2 = restore_slots 0 (ws # wss) s1"
  have slot: "grows {} [] s1 (restore_slot 0 ws s1)" "shapes (restore_slot 0 ws s1) = [slot_shape ws]"
    using restore_slot_restores[OF s1(1), of 0 m ws] s1(2) by simp_all
  have "sinv {} {} (restore_slot 0 ws s1)" using slot(1) by (simp add: grows_def)
  from restore_slots_restores[OF this slot(2), of wss]
  have s2: "shapes s2 = map slot_shape (ws # wss)" by (simp add: s2_def)
  have w2: "w_spawn (world s2) = w_spawn (world s)" "w_next_spawn (world s2) = w_next_spawn (world s)"
    using slots_same_world[of 0 "ws # wss" s1] s1(3) by (simp_all add: s2_def del: restore_slots.simps)
  have none: "\<forall>v \<in> set (workspaces (layout s2)). ws_tabs v = []"
  proof
    fix v assume "v \<in> set (workspaces (layout s2))"
    then have "shape_of_ws v \<in> set (map slot_shape (ws # wss))" using s2 by (metis image_eqI set_map shapes_def)
    then show "ws_tabs v = []" by (auto simp: shape_of_ws_def slot_shape_def)
  qed
  define s3 where "s3 = restore_all_tabs L 0 (ws # wss) s2"
  have "ws_count s2 = length (ws # wss)" using arg_cong[OF s2, of length] by simp
  then have s3: "tried ?k s2 s3"
    unfolding s3_def wss by (intro failing_all) (use assms(4,5) none w2 wss in \<open>auto simp: next_spawns_fail_def\<close>)
  define s4 where "s4 = snd (set_active_workspace (ss_active_workspace st) s3)"
  have s4: "shapes s4 = map slot_shape (ws # wss)" "world s4 = world s3"
    "workspaces (layout s4) = workspaces (layout s2)"
    using s3 s2 by (auto simp: s4_def tried_def shapes_def set_active_workspace_def Let_def)
  have "restore_targets 0 (ws # wss) (workspaces (layout s4)) = []"
  proof -
    have "\<forall>v \<in> set lives. ws_tabs v = [] \<Longrightarrow> restore_targets i sv lives = []" for i sv lives
      by (induction i sv lives rule: restore_targets.induct)
        (auto simp: targets_of_workspace_def List.map_filter_def)
    then show ?thesis using none s4(3) by simp
  qed
  then have "restore_session L st s = s4"
    by (simp add: restore_session_def wss s1_def[symmetric] s2_def[symmetric] s3_def[symmetric]
        s4_def[symmetric] del: restore_slots.simps restore_all_tabs.simps restore_targets.simps)
  then show ?thesis using s4 s3 w2 by (simp add: wss tried_def)
qed

text \<open>The first shell does not start, any later one would.\<close>

definition stumbling_world :: world where
  "stumbling_world = demo_world\<lparr>w_spawn := (\<lambda>n sz c cmd l. if n = 0 then Inl (Pty (Msg ''fork'' [])) else Inr n)\<rparr>"

theorem failed_restore_not_repaired_witness:
  "let s = restore_session unary_libs (snapshot_of kept_session) (blank_session 1024 10 stumbling_world)
   in shapes s = [(''main'', Some ''red'', 0, [])] \<and> w_next_spawn (world s) = 1"
proof -
  let ?b = "blank_session 1024 10 stumbling_world"
  have w: "world_ok stumbling_world" using demo_world_ok by (simp add: world_ok_def stumbling_world_def)
  have k: "ss_workspaces (snapshot_of kept_session) \<noteq> []"
    "\<forall>ws \<in> set (ss_workspaces (snapshot_of kept_session)). sw_tabs ws \<noteq> []"
    "sum_list (map (length \<circ> sw_tabs) (ss_workspaces (snapshot_of kept_session))) = 1"
    "map slot_shape (ss_workspaces (snapshot_of kept_session)) = [(''main'', Some ''red'', 0, [])]"
    by (simp_all add: kept_session_def snapshot_ws_def slot_shape_def)
  have b: "world ?b = stumbling_world\<lparr>w_next_id := 1\<rparr>"
    by (simp add: blank_session_def set_byte_log_config_def session_new_def stumbling_world_def)
  have "next_spawns_fail (sum_list (map (length \<circ> sw_tabs) (ss_workspaces (snapshot_of kept_session)))) ?b"
    unfolding k(3) by (simp add: next_spawns_fail_def b) (simp add: stumbling_world_def)
  from failed_restore_not_repaired[OF blank_session_ok(1,2)[OF w] k(1,2) this]
  show ?thesis unfolding k(3,4) Let_def b by (simp add: stumbling_world_def)
qed

subsection \<open>Revoking from the command line\<close>

definition device_dropped :: "string \<Rightarrow> device_registry \<Rightarrow> device_registry" where
  "device_dropped i r = r\<lparr>dr_devices := [d \<leftarrow> dr_devices r. de_device_id d \<noteq> i]\<rparr>"

lemma registry_load_healthy: "healthy w \<Longrightarrow> healthy (snd (registry_load dc w))"
  by (auto simp: registry_load_def path_exists_def healthy_calls Let_def split: option.split sum.split)

lemma cli_revokes_on_disk:
  assumes "healthy w" "registry_synced dc r w" "is_authorized r i" "device_storable dc (dr_devices (device_dropped i r))"
    and "revoke_and_exit dc i w = (res, w1)"
  shows "res = Inr True" "healthy w1" "registry_synced dc (device_dropped i r) w1"
proof -
  obtain w0 where ld: "registry_load dc w = (Inr r, w0)" "healthy w0"
    using assms(2) registry_load_healthy[OF assms(1), of dc] by (cases "registry_load dc w") (auto simp: registry_synced_def)
  have p: "dr_path (device_dropped i r) = registry_path" using assms(2) by (simp add: registry_synced_def device_dropped_def)
  obtain d where "d \<in> set (dr_devices r)" "de_device_id d = i" using assms(3) by (auto simp: is_authorized_def)
  then have less: "length [d \<leftarrow> dr_devices r. de_device_id d \<noteq> i] < length (dr_devices r)"
    by (intro length_filter_less) auto
  have "fst (registry_save dc (device_dropped i r) w0) = Inr ()"
    using registry_save_healthy(1)[OF ld(2) assms(4)] registry_eta[OF p] by metis
  then have rm: "registry_remove dc i r w0 = (Inr True, device_dropped i r, snd (registry_save dc (device_dropped i r) w0))"
    using less by (cases "registry_save dc (device_dropped i r) w0")
      (simp add: registry_remove_def Let_def device_dropped_def)
  then have "(res, w1) = (Inr True, snd (registry_save dc (device_dropped i r) w0))"
    using assms(5) ld(1) by (simp add: revoke_and_exit_def)
  then show "res = Inr True" "healthy w1" "registry_synced dc (device_dropped i r) w1"
    using saved_registry_synced[OF ld(2) p assms(4)] by simp_all
qed

text \<open>
  A revocation from the command line does not reach a daemon that is running: the command
  reports success and the file no longer lists the device, but the daemon decides from the
  registry it loaded, so it accepts the next connection of the device, and noting the time of
  that connection writes the device back into the file.
\<close>

theorem cli_revoke_undone:
  assumes "healthy w" "registry_synced dc (sy_registry y) w" "is_authorized (sy_registry y) (pc_id c)"
    and "device_storable dc (dr_devices (device_dropped (pc_id c) (sy_registry y)))"
    and "device_storable dc (set_last_seen (pc_id c) (iso8601 now) (dr_devices (sy_registry y)))"
    and "revoke_and_exit dc (pc_id c) w = (res, w1)"
    and "handle_connection L dc now pairing c y w1 = (out, y2, w2)"
  shows "res = Inr True \<and> fst (registry_load dc w1) = Inr (device_dropped (pc_id c) (sy_registry y)) \<and>
    \<not> is_authorized (device_dropped (pc_id c) (sy_registry y)) (pc_id c) \<and>
    cr_close out = (0, ''connected-ok'') \<and> fst (registry_load dc w2) = Inr (sy_registry y2) \<and>
    is_authorized (sy_registry y2) (pc_id c)"
proof -
  note cli = cli_revokes_on_disk[OF assms(1-4,6)]
  define r2 where "r2 = (sy_registry y)\<lparr>dr_devices := set_last_seen (pc_id c) (iso8601 now) (dr_devices (sy_registry y))\<rparr>"
  have out: "cr_close out = (0, ''connected-ok'')" "sy_registry y2 = r2" "w2 = snd (registry_save dc r2 w1)"
    using assms(3,7) by (auto simp: handle_connection_def update_last_seen_def r2_def emit_sync_def Let_def
        split: prod.splits)
  have "registry_synced dc r2 w2"
    using saved_registry_synced[OF cli(2), of r2] assms(2,5) out(3) by (simp add: r2_def registry_synced_def)
  moreover have "is_authorized r2 (pc_id c)" using assms(3) by (simp add: r2_def)
  ultimately show ?thesis
    using cli(1,3) out by (auto simp: registry_synced_def is_authorized_def device_dropped_def)
qed

text \<open>A codec that tells apart the empty list, the device as paired and as seen at time 5.\<close>

definition three_devices :: device_codec where
  "three_devices =
     \<lparr>devices_to_json = (\<lambda>ds. Inr (if ds = [] then ''[]'' else if ds = [phone] then ''[phone]'' else ''[seen]'')),
      devices_from_json = (\<lambda>t. Inr (if t = ''[]'' then [] else if t = ''[phone]'' then [phone]
                                     else [phone\<lparr>de_last_seen := Some (iso8601 5)\<rparr>]))\<rparr>"

theorem cli_revoke_undone_witness:
  "let w = put_file registry_path ''[phone]'' demo_fs;
       (res, w1) = revoke_and_exit three_devices ''n1'' w;
       (out, y2, w2) = handle_connection demo_libs three_devices 5 False visitor demo_sync w1
   in res = Inr True \<and> cr_close out = (0, ''connected-ok'') \<and> is_authorized (sy_registry y2) ''n1''"
proof -
  let ?w = "put_file registry_path ''[phone]'' demo_fs"
  obtain res w1 where cli: "revoke_and_exit three_devices (pc_id visitor) ?w = (res, w1)" by fastforce
  obtain out y2 w2 where con: "handle_connection demo_libs three_devices 5 False visitor demo_sync w1 = (out, y2, w2)"
    by (metis prod.exhaust)
  have r: "sy_registry demo_sync = registry_of [phone]" "pc_id visitor = ''n1''" "de_device_id phone = ''n1''"
    by (simp_all add: demo_sync_def visitor_def phone_def)
  have "registry_synced three_devices (sy_registry demo_sync) ?w"
    by (simp add: r registry_synced_def registry_load_def path_exists_def registry_of_def three_devices_def
        registry_path_def fs_read_def Let_def demo_fs_def put_file_def fs_get_def)
  moreover have "is_authorized (sy_registry demo_sync) (pc_id visitor)"
    by (simp add: r is_authorized_def registry_of_def)
  moreover have "device_storable three_devices (dr_devices (device_dropped (pc_id visitor) (sy_registry demo_sync)))"
    "device_storable three_devices (set_last_seen (pc_id visitor) (iso8601 5) (dr_devices (sy_registry demo_sync)))"
    by (simp_all add: r device_storable_def three_devices_def device_dropped_def registry_of_def)
  ultimately show ?thesis
    using cli_revoke_undone[OF _ _ _ _ _ cli con] cli con r(2) by (simp add: healthy_keep Let_def)
qed

end
