(* ===== verification/Configuration.thy ===== *)
theory Configuration
  imports Theme
begin

section \<open>The configuration file\<close>

text \<open>
  \<open>crates/forgetty-config/src/schema.rs\<close>, \<open>defaults.rs\<close> and \<open>loader.rs\<close>: the configuration, its
  hand-written serialisation and deserialisation over TOML values, and loading and saving the
  file. \<open>usize\<close> and \<open>u32\<close> fields are natural numbers; a hash map is an association list.
\<close>

subsection \<open>The schema\<close>

record profile_config =
  pr_name :: string
  pr_command :: string
  pr_directory :: "string option"
  pr_icon :: "string option"

datatype bell_mode = BellVisual | BellAudio | BellBoth | BellNone
datatype cursor_style = CursorBlock | CursorBar | CursorUnderline | CursorBlockHollow
datatype notification_mode = NotifyAll | NotifyRingOnly | NotifyNone
datatype on_launch = Restore | New

record app_config =
  cf_font_family :: string
  cf_font_size :: f32
  cf_theme :: theme
  cf_theme_name :: "string option"
  cf_shell :: "string option"
  cf_scrollback_lines :: nat
  cf_cursor_style :: cursor_style
  cf_bell_mode :: bell_mode
  cf_notification_mode :: notification_mode
  cf_keybindings :: "(string \<times> string) list"
  cf_on_launch :: on_launch
  cf_profiles :: "profile_config list"
  cf_default_profile :: "string option"
  cf_paste_warn_size :: nat
  cf_paste_warn_newline :: bool
  cf_session_trash_days :: nat
  cf_byte_log_ring_kb :: nat
  cf_byte_log_max_mb :: nat

text \<open>\<open>default_config\<close>.\<close>

definition default_config :: "theme_env \<Rightarrow> app_config de" where
  "default_config E = de_bind (load_theme_by_name E ''0x96f'') (\<lambda>t.
     Inr \<lparr>cf_font_family = ''monospace'', cf_font_size = Finite 12,
          cf_theme = (case t of Some t \<Rightarrow> t | None \<Rightarrow> theme_default),
          cf_theme_name = Some ''0x96f'', cf_shell = None, cf_scrollback_lines = 10000,
          cf_cursor_style = CursorBlock, cf_bell_mode = BellVisual, cf_notification_mode = NotifyAll,
          cf_keybindings = [], cf_on_launch = Restore, cf_profiles = [], cf_default_profile = None,
          cf_paste_warn_size = 5120, cf_paste_warn_newline = True, cf_session_trash_days = 7,
          cf_byte_log_ring_kb = 1024, cf_byte_log_max_mb = 10\<rparr>)"

subsection \<open>Writing\<close>

definition ser_cursor :: "cursor_style \<Rightarrow> toml" where
  "ser_cursor c = TStr (case c of CursorBlock \<Rightarrow> ''block'' | CursorBar \<Rightarrow> ''bar''
     | CursorUnderline \<Rightarrow> ''underline'' | CursorBlockHollow \<Rightarrow> ''blockhollow'')"

definition ser_bell :: "bell_mode \<Rightarrow> toml" where
  "ser_bell b = TStr (case b of BellVisual \<Rightarrow> ''visual'' | BellAudio \<Rightarrow> ''audio'' | BellBoth \<Rightarrow> ''both''
     | BellNone \<Rightarrow> ''none'')"

definition ser_notification :: "notification_mode \<Rightarrow> toml" where
  "ser_notification m = TStr (case m of NotifyAll \<Rightarrow> ''all'' | NotifyRingOnly \<Rightarrow> ''ringonly''
     | NotifyNone \<Rightarrow> ''none'')"

definition ser_on_launch :: "on_launch \<Rightarrow> toml" where
  "ser_on_launch l = TStr (case l of Restore \<Rightarrow> ''restore'' | New \<Rightarrow> ''new'')"

definition ser_opt :: "string \<Rightarrow> string option \<Rightarrow> toml_table" where
  "ser_opt k v = (case v of None \<Rightarrow> [] | Some s \<Rightarrow> [(k, TStr s)])"

definition ser_profile :: "profile_config \<Rightarrow> toml" where
  "ser_profile p = TTable ([(''name'', TStr (pr_name p)), (''command'', TStr (pr_command p))] @
     ser_opt ''directory'' (pr_directory p) @ ser_opt ''icon'' (pr_icon p))"

text \<open>The entries of the map, in the order of the code.\<close>

definition ser_config :: "app_config \<Rightarrow> toml_table" where
  "ser_config c =
     [(''font_family'', TStr (cf_font_family c)), (''font_size'', TFloat (cf_font_size c)),
      (''theme'', case cf_theme_name c of Some n \<Rightarrow> TStr n | None \<Rightarrow> ser_theme (cf_theme c))] @
     ser_opt ''shell'' (cf_shell c) @
     [(''scrollback_lines'', TInt (int (cf_scrollback_lines c))),
      (''cursor_style'', ser_cursor (cf_cursor_style c)), (''bell_mode'', ser_bell (cf_bell_mode c)),
      (''notification_mode'', ser_notification (cf_notification_mode c)),
      (''on_launch'', ser_on_launch (cf_on_launch c))] @
     (if cf_keybindings c = [] then []
      else [(''keybindings'', TTable (map (\<lambda>(k, v). (k, TStr v)) (cf_keybindings c)))]) @
     (if cf_profiles c = [] then [] else [(''profiles'', TArr (map ser_profile (cf_profiles c)))]) @
     ser_opt ''default_profile'' (cf_default_profile c) @
     [(''paste_warn_size'', TInt (int (cf_paste_warn_size c))),
      (''paste_warn_newline'', TBool (cf_paste_warn_newline c))] @
     (if cf_session_trash_days c = 7 then []
      else [(''session_trash_days'', TInt (int (cf_session_trash_days c)))]) @
     (if cf_byte_log_ring_kb c = 1024 then []
      else [(''byte_log_ring_kb'', TInt (int (cf_byte_log_ring_kb c)))]) @
     (if cf_byte_log_max_mb c = 10 then []
      else [(''byte_log_max_mb'', TInt (int (cf_byte_log_max_mb c)))])"

subsection \<open>Reading\<close>

text \<open>A derived enum reads its lower-case names (and the alias \<open>block_hollow\<close>).\<close>

definition de_enum :: "(string \<times> 'a) list \<Rightarrow> toml \<Rightarrow> 'a de" where
  "de_enum names v = (case v of
     TStr s \<Rightarrow> (case map_of names s of Some x \<Rightarrow> Inr x | None \<Rightarrow> Inl Invalid) | _ \<Rightarrow> Inl Invalid)"

definition de_cursor :: "toml \<Rightarrow> cursor_style de" where
  "de_cursor = de_enum [(''block'', CursorBlock), (''bar'', CursorBar), (''underline'', CursorUnderline),
     (''blockhollow'', CursorBlockHollow), (''block_hollow'', CursorBlockHollow)]"

definition de_bell :: "toml \<Rightarrow> bell_mode de" where
  "de_bell = de_enum [(''visual'', BellVisual), (''audio'', BellAudio), (''both'', BellBoth), (''none'', BellNone)]"

definition de_notification :: "toml \<Rightarrow> notification_mode de" where
  "de_notification = de_enum [(''all'', NotifyAll), (''ringonly'', NotifyRingOnly), (''none'', NotifyNone)]"

text \<open>An \<open>f32\<close> is read from a float, rounded, or from an integer.\<close>

fun de_f32 :: "toml \<Rightarrow> f32 de" where
  "de_f32 (TFloat (Finite x)) = Inr (f32_of_f64 x)"
| "de_f32 (TFloat x) = Inr x"
| "de_f32 (TInt i) = Inr (f32_of_f64 (of_int i))"
| "de_f32 _ = Inl Invalid"

fun de_profile :: "toml \<Rightarrow> profile_config de" where
  "de_profile (TTable kvs) =
     de_bind (required de_str ''name'' kvs) (\<lambda>n. de_bind (required de_str ''command'' kvs) (\<lambda>c.
     de_bind (optional de_str ''directory'' kvs) (\<lambda>d. de_bind (optional de_str ''icon'' kvs) (\<lambda>i.
       Inr \<lparr>pr_name = n, pr_command = c, pr_directory = d, pr_icon = i\<rparr>))))"
| "de_profile _ = Inl Invalid"

fun de_keybindings :: "toml \<Rightarrow> (string \<times> string) list de" where
  "de_keybindings (TTable kvs) = de_list (\<lambda>(k, v). de_bind (de_str v) (\<lambda>s. Inr (k, s))) kvs"
| "de_keybindings _ = Inl Invalid"

record raw_config =
  rw_font_family :: string
  rw_font_size :: f32
  rw_theme :: "toml option"
  rw_shell :: "string option"
  rw_scrollback_lines :: nat
  rw_cursor_style :: cursor_style
  rw_bell_mode :: bell_mode
  rw_notification_mode :: notification_mode
  rw_keybindings :: "(string \<times> string) list"
  rw_on_launch :: "string option"
  rw_profiles :: "profile_config list"
  rw_default_profile :: "string option"
  rw_paste_warn_size :: nat
  rw_paste_warn_newline :: bool
  rw_session_trash_days :: nat
  rw_byte_log_ring_kb :: nat
  rw_byte_log_max_mb :: nat

definition de_raw_config :: "toml_table \<Rightarrow> raw_config de" where
  "de_raw_config t =
     de_bind (defaulted ''monospace'' de_str ''font_family'' t) (\<lambda>ff.
     de_bind (defaulted (Finite 12) de_f32 ''font_size'' t) (\<lambda>fs.
     de_bind (optional Inr ''theme'' t) (\<lambda>th.
     de_bind (optional de_str ''shell'' t) (\<lambda>sh.
     de_bind (defaulted 10000 (de_uint 64) ''scrollback_lines'' t) (\<lambda>sb.
     de_bind (defaulted CursorBlock de_cursor ''cursor_style'' t) (\<lambda>cs.
     de_bind (defaulted BellVisual de_bell ''bell_mode'' t) (\<lambda>bm.
     de_bind (defaulted NotifyAll de_notification ''notification_mode'' t) (\<lambda>nm.
     de_bind (defaulted [] de_keybindings ''keybindings'' t) (\<lambda>kb.
     de_bind (optional de_str ''on_launch'' t) (\<lambda>ol.
     de_bind (defaulted [] (de_arr de_profile) ''profiles'' t) (\<lambda>ps.
     de_bind (optional de_str ''default_profile'' t) (\<lambda>dp.
     de_bind (defaulted 5120 (de_uint 64) ''paste_warn_size'' t) (\<lambda>pw.
     de_bind (defaulted True de_bool ''paste_warn_newline'' t) (\<lambda>pn.
     de_bind (defaulted 7 (de_uint 32) ''session_trash_days'' t) (\<lambda>td.
     de_bind (defaulted 1024 (de_uint 32) ''byte_log_ring_kb'' t) (\<lambda>rk.
     de_bind (defaulted 10 (de_uint 32) ''byte_log_max_mb'' t) (\<lambda>mm.
       Inr \<lparr>rw_font_family = ff, rw_font_size = fs, rw_theme = th, rw_shell = sh,
            rw_scrollback_lines = sb, rw_cursor_style = cs, rw_bell_mode = bm,
            rw_notification_mode = nm, rw_keybindings = kb, rw_on_launch = ol, rw_profiles = ps,
            rw_default_profile = dp, rw_paste_warn_size = pw, rw_paste_warn_newline = pn,
            rw_session_trash_days = td, rw_byte_log_ring_kb = rk, rw_byte_log_max_mb = mm\<rparr>)))))))))))))))))"

definition resolve_theme :: "theme_env \<Rightarrow> toml option \<Rightarrow> (theme \<times> string option) de" where
  "resolve_theme E t =
     (case t of
        Some (TStr name) \<Rightarrow> de_bind (load_theme_by_name E name) (\<lambda>r.
          Inr (case r of Some th \<Rightarrow> th | None \<Rightarrow> theme_default, Some name))
      | Some (TTable kvs) \<Rightarrow> de_bind (de_ok (de_theme (TTable kvs))) (\<lambda>r.
          Inr (case r of Some th \<Rightarrow> th | None \<Rightarrow> theme_default, None))
      | _ \<Rightarrow> Inr (theme_default, None))"

definition on_launch_of :: "string option \<Rightarrow> on_launch" where
  "on_launch_of s = (if s = Some ''new'' then New else Restore)"

definition usable_profile :: "profile_config \<Rightarrow> bool" where
  "usable_profile p \<longleftrightarrow> pr_name p \<noteq> [] \<and> pr_command p \<noteq> []"

definition de_config :: "theme_env \<Rightarrow> toml_table \<Rightarrow> app_config de" where
  "de_config E t =
     de_bind (de_raw_config t) (\<lambda>raw. de_bind (resolve_theme E (rw_theme raw)) (\<lambda>(th, name).
       Inr \<lparr>cf_font_family = rw_font_family raw, cf_font_size = rw_font_size raw, cf_theme = th,
            cf_theme_name = name, cf_shell = rw_shell raw,
            cf_scrollback_lines = rw_scrollback_lines raw, cf_cursor_style = rw_cursor_style raw,
            cf_bell_mode = rw_bell_mode raw, cf_notification_mode = rw_notification_mode raw,
            cf_keybindings = rw_keybindings raw, cf_on_launch = on_launch_of (rw_on_launch raw),
            cf_profiles = filter usable_profile (rw_profiles raw),
            cf_default_profile = rw_default_profile raw, cf_paste_warn_size = rw_paste_warn_size raw,
            cf_paste_warn_newline = rw_paste_warn_newline raw,
            cf_session_trash_days = rw_session_trash_days raw,
            cf_byte_log_ring_kb = rw_byte_log_ring_kb raw, cf_byte_log_max_mb = rw_byte_log_max_mb raw\<rparr>))"

subsection \<open>The file\<close>

definition config_toml :: fpath where "config_toml = OtherFile ''config.toml''"
definition config_toml_tmp :: fpath where "config_toml_tmp = OtherFile ''config.toml.tmp''"

definition parse_config :: "theme_env \<Rightarrow> string \<Rightarrow> app_config de" where
  "parse_config E text =
     (case toml_parse (te_toml E) text of None \<Rightarrow> Inl Invalid | Some t \<Rightarrow> de_config E t)"

definition load_config :: "theme_env \<Rightarrow> fpath option \<Rightarrow> fs \<Rightarrow> app_config de" where
  "load_config E path w =
     (let p = (case path of Some p \<Rightarrow> p | None \<Rightarrow> config_toml)
      in if \<not> path_exists p w then (if path = None then default_config E else Inl Invalid)
         else case fs_read p w of Inl e \<Rightarrow> Inl Invalid | Inr text \<Rightarrow> parse_config E text)"

definition load_config_as_text :: "fs \<Rightarrow> string" where
  "load_config_as_text w = (case fs_read config_toml w of Inl e \<Rightarrow> [] | Inr text \<Rightarrow> text)"

definition save_config :: "theme_env \<Rightarrow> app_config \<Rightarrow> fs \<Rightarrow> unit io" where
  "save_config E c w =
     io_bind (fs_mkdir_for config_toml w) (\<lambda>_ w1.
       case toml_print (te_toml E) (ser_config c) of
         None \<Rightarrow> (Inl (Msg ''Failed to serialize config'' []), w1)
       | Some text \<Rightarrow> io_bind (fs_write config_toml_tmp text w1) (\<lambda>_. fs_rename config_toml_tmp config_toml))"

definition parse_and_save_config :: "theme_env \<Rightarrow> string \<Rightarrow> fs \<Rightarrow> app_config de \<times> fs" where
  "parse_and_save_config E text w =
     (case parse_config E text of
        Inl e \<Rightarrow> (Inl e, w)
      | Inr c \<Rightarrow> (case save_config E c w of
                    (Inl e, w1) \<Rightarrow> (Inl Invalid, w1) | (Inr _, w1) \<Rightarrow> (Inr c, w1)))"

end
