(* ===== verification/ConfigProps.thy ===== *)
theory ConfigProps
  imports Configuration
begin

section \<open>What the configuration promises\<close>

subsection \<open>Saving and loading\<close>

lemma de_bind_simps [simp]:
  "de_bind (Inr x) f = f x" "de_bind (Inl e) f = Inl e"
  by (simp_all add: de_bind_def)

lemma de_list_map:
  "(\<And>x. x \<in> set xs \<Longrightarrow> f (g x) = Inr (h x)) \<Longrightarrow> de_list f (map g xs) = Inr (map h xs)"
  by (induction xs) auto

text \<open>Every part of the schema is read back as it was written.\<close>

lemma de_u8_ser: "de_u8 (TInt (uint (b :: byte))) = Inr b"
  using uint_lt2p[of b] by (simp add: de_u8_def)

lemma de_rgba_ser [simp]: "de_rgba (ser_rgba c) = Inr c"
  by (cases c) (simp add: ser_rgba_def required_def de_u8_ser rgba_new_def)

lemma de_ansi_ser: "length cs = 16 \<Longrightarrow> de_ansi (TArr (map ser_rgba cs)) = Inr cs"
  using de_list_map[of cs de_rgba ser_rgba id] by (simp add: de_ansi_def)

lemma de_theme_ser: "length (th_ansi t) = 16 \<Longrightarrow> de_theme (ser_theme t) = Inr t"
  by (cases t) (simp add: ser_theme_def defaulted_def de_ansi_ser)

lemma de_modes_ser [simp]:
  shows "de_cursor (ser_cursor c) = Inr c" and "de_bell (ser_bell b) = Inr b"
    and "de_notification (ser_notification m) = Inr m"
proof -
  show "de_cursor (ser_cursor c) = Inr c" by (cases c) (simp_all add: de_cursor_def de_enum_def ser_cursor_def)
  show "de_bell (ser_bell b) = Inr b" by (cases b) (simp_all add: de_bell_def de_enum_def ser_bell_def)
  show "de_notification (ser_notification m) = Inr m"
    by (cases m) (simp_all add: de_notification_def de_enum_def ser_notification_def)
qed

lemma de_profile_ser [simp]: "de_profile (ser_profile p) = Inr p"
  by (cases p) (auto simp: ser_profile_def ser_opt_def required_def optional_def split: option.split)

lemma de_profiles_ser: "de_arr de_profile (TArr (map ser_profile ps)) = Inr ps"
  using de_list_map[of ps de_profile ser_profile id] by simp

lemma de_keybindings_ser: "de_keybindings (TTable (map (\<lambda>(k, v). (k, TStr v)) kb)) = Inr kb"
proof -
  have "de_list (\<lambda>(k, v). de_bind (de_str v) (\<lambda>s. Inr (k, s))) (map (\<lambda>(k, v). (k, TStr v)) kb) = Inr (map id kb)"
    by (rule de_list_map) auto
  then show ?thesis by simp
qed

lemma on_launch_of_ser: "ser_on_launch l = TStr s \<Longrightarrow> on_launch_of (Some s) = l"
  by (cases l) (auto simp: ser_on_launch_def on_launch_of_def)

text \<open>A configuration the file can hold: numbers in range, profiles usable, a theme that is what its name says.\<close>

definition storable_config :: "theme_env \<Rightarrow> app_config \<Rightarrow> bool" where
  "storable_config E c \<longleftrightarrow>
     (\<forall>x. cf_font_size c = Finite x \<longrightarrow> f32_of_f64 x = Finite x) \<and>
     cf_scrollback_lines c < 2 ^ 64 \<and> cf_paste_warn_size c < 2 ^ 64 \<and>
     cf_session_trash_days c < 2 ^ 32 \<and> cf_byte_log_ring_kb c < 2 ^ 32 \<and> cf_byte_log_max_mb c < 2 ^ 32 \<and>
     (\<forall>p \<in> set (cf_profiles c). usable_profile p) \<and>
     (case cf_theme_name c of
        Some n \<Rightarrow> load_theme_by_name E n = Inr (Some (cf_theme c)) \<or>
                  (load_theme_by_name E n = Inr None \<and> cf_theme c = theme_default)
      | None \<Rightarrow> length (th_ansi (cf_theme c)) = 16)"

text \<open>The table that is read has the entries that were written, in whatever order.\<close>

definition same_table :: "toml_table \<Rightarrow> toml_table \<Rightarrow> bool" where
  "same_table t u \<longleftrightarrow> map_of t = map_of u"

lemma map_of_ser_opt [simp]: "map_of (ser_opt k v) j = (if j = k then map_option TStr v else None)"
  by (auto simp: ser_opt_def split: option.split)

lemma map_of_if: "map_of (if b then [] else kvs) j = (if b then None else map_of kvs j)"
  by simp

lemmas look = defaulted_def optional_def required_def ser_config_def map_add_def map_of_if

lemma raw_of_ser:
  assumes "storable_config E c"
  shows "de_raw_config (ser_config c) = Inr
    \<lparr>rw_font_family = cf_font_family c, rw_font_size = cf_font_size c,
     rw_theme = Some (case cf_theme_name c of Some n \<Rightarrow> TStr n | None \<Rightarrow> ser_theme (cf_theme c)),
     rw_shell = cf_shell c, rw_scrollback_lines = cf_scrollback_lines c,
     rw_cursor_style = cf_cursor_style c, rw_bell_mode = cf_bell_mode c,
     rw_notification_mode = cf_notification_mode c, rw_keybindings = cf_keybindings c,
     rw_on_launch = Some (case cf_on_launch c of Restore \<Rightarrow> ''restore'' | New \<Rightarrow> ''new''),
     rw_profiles = cf_profiles c, rw_default_profile = cf_default_profile c,
     rw_paste_warn_size = cf_paste_warn_size c, rw_paste_warn_newline = cf_paste_warn_newline c,
     rw_session_trash_days = cf_session_trash_days c, rw_byte_log_ring_kb = cf_byte_log_ring_kb c,
     rw_byte_log_max_mb = cf_byte_log_max_mb c\<rparr>"
proof -
  let ?t = "ser_config c"
  have sz: "de_f32 (TFloat (cf_font_size c)) = Inr (cf_font_size c)"
    using assms by (cases "cf_font_size c") (auto simp: storable_config_def)
  have n: "cf_scrollback_lines c < 2 ^ 64" "cf_paste_warn_size c < 2 ^ 64" "cf_session_trash_days c < 2 ^ 32"
    "cf_byte_log_ring_kb c < 2 ^ 32" "cf_byte_log_max_mb c < 2 ^ 32"
    using assms by (simp_all add: storable_config_def)
  have uint: "de_uint w (TInt (int k)) = Inr k" if "k < 2 ^ w" for w k
    using that by (simp add: zless_nat_eq_int_zless[symmetric] nat_power_eq)
  have f: "defaulted ''monospace'' de_str ''font_family'' ?t = Inr (cf_font_family c)"
    "defaulted (Finite 12) de_f32 ''font_size'' ?t = Inr (cf_font_size c)"
    "optional Inr ''theme'' ?t = Inr (Some (case cf_theme_name c of Some n \<Rightarrow> TStr n | None \<Rightarrow> ser_theme (cf_theme c)))"
    "optional de_str ''shell'' ?t = Inr (cf_shell c)"
    "defaulted 10000 (de_uint 64) ''scrollback_lines'' ?t = Inr (cf_scrollback_lines c)"
    "defaulted CursorBlock de_cursor ''cursor_style'' ?t = Inr (cf_cursor_style c)"
    "defaulted BellVisual de_bell ''bell_mode'' ?t = Inr (cf_bell_mode c)"
    "defaulted NotifyAll de_notification ''notification_mode'' ?t = Inr (cf_notification_mode c)"
    "optional de_str ''on_launch'' ?t = Inr (Some (case cf_on_launch c of Restore \<Rightarrow> ''restore'' | New \<Rightarrow> ''new''))"
    "optional de_str ''default_profile'' ?t = Inr (cf_default_profile c)"
    "defaulted 5120 (de_uint 64) ''paste_warn_size'' ?t = Inr (cf_paste_warn_size c)"
    "defaulted True de_bool ''paste_warn_newline'' ?t = Inr (cf_paste_warn_newline c)"
    using sz uint n by (auto simp: look ser_on_launch_def split: option.split)
  have g: "defaulted [] de_keybindings ''keybindings'' ?t = Inr (cf_keybindings c)"
    "defaulted [] (de_arr de_profile) ''profiles'' ?t = Inr (cf_profiles c)"
    "defaulted 7 (de_uint 32) ''session_trash_days'' ?t = Inr (cf_session_trash_days c)"
    "defaulted 1024 (de_uint 32) ''byte_log_ring_kb'' ?t = Inr (cf_byte_log_ring_kb c)"
    "defaulted 10 (de_uint 32) ''byte_log_max_mb'' ?t = Inr (cf_byte_log_max_mb c)"
    using uint n de_keybindings_ser[of "cf_keybindings c"] de_profiles_ser[of "cf_profiles c"]
    by (auto simp: look simp del: de_keybindings.simps de_arr.simps split: option.split)
  show ?thesis unfolding de_raw_config_def f g by simp
qed

lemma de_config_ser:
  assumes "storable_config E c"
  shows "de_config E (ser_config c) = Inr c"
proof -
  have th: "resolve_theme E (Some (case cf_theme_name c of Some n \<Rightarrow> TStr n | None \<Rightarrow> ser_theme (cf_theme c))) =
      Inr (cf_theme c, cf_theme_name c)"
    using assms de_theme_ser[of "cf_theme c"]
    by (cases "cf_theme_name c")
      (auto simp: storable_config_def resolve_theme_def de_ok_def ser_theme_def[of "cf_theme c"])
  have ps: "filter usable_profile (cf_profiles c) = cf_profiles c"
    using assms by (simp add: storable_config_def)
  have ol: "on_launch_of (Some (case cf_on_launch c of Restore \<Rightarrow> ''restore'' | New \<Rightarrow> ''new'')) = cf_on_launch c"
    by (cases "cf_on_launch c") (simp_all add: on_launch_of_def)
  show ?thesis
    unfolding de_config_def raw_of_ser[OF assms] using th ps ol by simp
qed

lemma de_config_same: "same_table t u \<Longrightarrow> de_config E t = de_config E u"
  by (simp add: same_table_def de_config_def de_raw_config_def defaulted_def optional_def)

lemma save_config_healthy:
  assumes "healthy w" "toml_print (te_toml E) (ser_config c) = Some text"
  shows "fst (save_config E c w) = Inr ()" "healthy (snd (save_config E c w))"
    "fs_get (snd (save_config E c w)) q =
      (if q = config_toml_tmp then None else if q = config_toml then Some text else fs_get w q)"
proof -
  have ne: "config_toml \<noteq> config_toml_tmp" by (simp add: config_toml_def config_toml_tmp_def)
  show "fst (save_config E c w) = Inr ()" "healthy (snd (save_config E c w))"
    "fs_get (snd (save_config E c w)) q =
      (if q = config_toml_tmp then None else if q = config_toml then Some text else fs_get w q)"
    using assms ne by (auto simp: save_config_def io_bind_def healthy_calls)
qed

text \<open>
  C40: the configuration survives saving and loading: when the disk works and the TOML library
  reads back the table it printed, in whatever order, loading the file that was saved gives the
  same configuration, each of its fields included.
\<close>

theorem config_round_trip:
  assumes "healthy w" "storable_config E c" "toml_print (te_toml E) (ser_config c) = Some text"
    and "toml_parse (te_toml E) text = Some t" "same_table t (ser_config c)"
  shows "fst (save_config E c w) = Inr () \<and> load_config E None (snd (save_config E c w)) = Inr c \<and>
    fst (parse_and_save_config E text w) = Inr c"
proof -
  have p: "parse_config E text = Inr c"
    using assms(4) de_config_same[OF assms(5)] de_config_ser[OF assms(2)] by (simp add: parse_config_def)
  note sv = save_config_healthy[OF assms(1,3)]
  have ne: "config_toml \<noteq> config_toml_tmp" by (simp add: config_toml_def config_toml_tmp_def)
  then have "fs_get (snd (save_config E c w)) config_toml = Some text" using sv(3) by simp
  then have "load_config E None (snd (save_config E c w)) = Inr c"
    using p sv(2) by (simp add: load_config_def path_exists_def healthy_calls)
  then show ?thesis
    using sv(1) p by (cases "save_config E c w") (simp add: parse_and_save_config_def)
qed

definition plain_config :: app_config where
  "plain_config =
     \<lparr>cf_font_family = ''Hack'', cf_font_size = Finite 14, cf_theme = theme_default\<lparr>th_background := rgb 1 2 3\<rparr>,
      cf_theme_name = None, cf_shell = Some ''/bin/zsh'', cf_scrollback_lines = 500,
      cf_cursor_style = CursorBlockHollow, cf_bell_mode = BellBoth, cf_notification_mode = NotifyRingOnly,
      cf_keybindings = [(''copy'', ''ctrl+c'')], cf_on_launch = New,
      cf_profiles = [\<lparr>pr_name = ''ssh'', pr_command = ''ssh h'', pr_directory = None, pr_icon = Some ''net''\<rparr>],
      cf_default_profile = Some ''ssh'', cf_paste_warn_size = 0, cf_paste_warn_newline = False,
      cf_session_trash_days = 0, cf_byte_log_ring_kb = 1024, cf_byte_log_max_mb = 20\<rparr>"

text \<open>A TOML library that knows the table of that configuration.\<close>

definition plain_env :: theme_env where
  "plain_env = \<lparr>te_toml = \<lparr>toml_parse = (\<lambda>s. Some (rev (ser_config plain_config))), toml_print = (\<lambda>t. Some ''C'')\<rparr>,
     te_bundled = [], te_custom = [], te_lower = map ascii_lower\<rparr>"

theorem config_round_trip_witness:
  "load_config plain_env None (snd (save_config plain_env plain_config demo_fs)) = Inr plain_config"
proof -
  have "f32_of_f64 14 = Finite 14" by code_simp
  then have "storable_config plain_env plain_config"
    by (simp add: storable_config_def plain_config_def usable_profile_def theme_default_def default_ansi_colors_def)
  moreover have "same_table (rev (ser_config plain_config)) (ser_config plain_config)"
    by (simp add: same_table_def ser_config_def plain_config_def ser_opt_def fun_eq_iff)
  ultimately show ?thesis
    using config_round_trip[OF demo_healthy, of plain_env plain_config "''C''" "rev (ser_config plain_config)"]
    by (simp add: plain_env_def)
qed

subsection \<open>A profile that is not complete\<close>

lemma de_list_fails: "v \<in> set vs \<Longrightarrow> f v = Inl Invalid \<Longrightarrow> (\<And>v. f v \<noteq> Inl Panicked) \<Longrightarrow> de_list f vs = Inl Invalid"
proof (induction vs)
  case (Cons u vs)
  consider "f u = Inl Invalid" | x where "f u = Inr x" using Cons.prems(3) by (metis failure.exhaust sum.exhaust)
  then show ?case using Cons by cases auto
qed simp

lemma chain_invalid:
  "m \<noteq> Inl Panicked \<Longrightarrow> (\<And>x. f x = Inl Invalid) \<Longrightarrow> de_bind m f = Inl Invalid"
  by (cases m) (auto simp: de_bind_def, metis failure.exhaust)

lemma no_panic_field:
  "(\<And>v. f v \<noteq> Inl Panicked) \<Longrightarrow> defaulted d f k t \<noteq> Inl Panicked"
  "(\<And>v. f v \<noteq> Inl Panicked) \<Longrightarrow> required f k t \<noteq> Inl Panicked"
  by (auto simp: defaulted_def required_def split: option.split)

lemma no_panic_optional:
  assumes "\<And>v. f v \<noteq> Inl Panicked"
  shows "optional f k t \<noteq> Inl Panicked"
proof (cases "map_of t k")
  case (Some v)
  then show ?thesis using assms[of v] by (cases "f v") (auto simp: optional_def)
qed (simp add: optional_def)

lemma no_panic_list: "(\<And>v. f v \<noteq> Inl Panicked) \<Longrightarrow> de_list f vs \<noteq> Inl Panicked"
proof (induction vs)
  case (Cons v vs)
  then show ?case by (cases "f v"; cases "de_list f vs") auto
qed simp

lemma no_panic_parts:
  shows "de_str v \<noteq> Inl Panicked" "de_bool v \<noteq> Inl Panicked" "de_uint n v \<noteq> Inl Panicked"
    "de_enum ns v \<noteq> Inl Panicked" "de_f32 v \<noteq> Inl Panicked" "de_keybindings v \<noteq> Inl Panicked"
    "de_profile v \<noteq> Inl Panicked"
proof -
  have str: "de_str v \<noteq> Inl Panicked" for v by (cases v) simp_all
  show "de_str v \<noteq> Inl Panicked" by (rule str)
  show "de_bool v \<noteq> Inl Panicked" by (cases v) simp_all
  show "de_uint n v \<noteq> Inl Panicked" by (cases v) simp_all
  show "de_enum ns v \<noteq> Inl Panicked" by (auto simp: de_enum_def split: toml.split option.split)
  show "de_f32 v \<noteq> Inl Panicked" by (cases v rule: de_f32.cases) simp_all
  have "de_list (\<lambda>(k, v). de_bind (de_str v) (\<lambda>s. Inr (k, s))) (kvs :: toml_table) \<noteq> Inl Panicked" for kvs
  proof (rule no_panic_list)
    fix kv :: "string \<times> toml"
    show "(case kv of (k, v) \<Rightarrow> de_bind (de_str v) (\<lambda>s. Inr (k, s))) \<noteq> Inl Panicked"
      using str[of "snd kv"] by (cases kv; cases "de_str (snd kv)") auto
  qed
  then show "de_keybindings v \<noteq> Inl Panicked" by (cases v) simp_all
  show "de_profile v \<noteq> Inl Panicked"
  proof (cases v)
    case (TTable kvs)
    then show ?thesis
      using no_panic_field(2)[of de_str, OF str] no_panic_optional[of de_str, OF str]
      by (auto simp: de_bind_def split: sum.split)
  qed simp_all
qed

text \<open>The cases in which a profile is not complete.\<close>

definition incomplete_profile :: "toml \<Rightarrow> bool" where
  "incomplete_profile v \<longleftrightarrow> (\<exists>p. v = TTable p \<and> (map_of p ''name'' = None \<or> map_of p ''command'' = None))"

lemma incomplete_invalid: "incomplete_profile v \<Longrightarrow> de_profile v = Inl Invalid"
proof -
  assume "incomplete_profile v"
  then obtain p where p: "v = TTable p" "map_of p ''name'' = None \<or> map_of p ''command'' = None"
    by (auto simp: incomplete_profile_def)
  have n: "required de_str ''name'' p \<noteq> Inl Panicked" by (rule no_panic_field(2)) (rule no_panic_parts(1))
  have c: "map_of p k = None \<Longrightarrow> required de_str k p = Inl Invalid" for k by (simp add: required_def)
  show ?thesis
  proof (cases "map_of p ''name''")
    case (Some x)
    then have "map_of p ''command'' = None" using p(2) by simp
    then show ?thesis unfolding p(1) de_profile.simps by (intro chain_invalid[OF n]) (simp add: c)
  qed (simp add: p(1) c)
qed

text \<open>
  One profile without a command (or a name) makes the whole file unreadable, although the
  comment of the schema says that such entries are skipped with a warning: no configuration is
  loaded, whatever else the file says. Only a profile whose command is there and empty is
  skipped.
\<close>

theorem incomplete_profile_drops_config:
  assumes "healthy w" "fs_get w config_toml = Some text" "toml_parse (te_toml E) text = Some t"
    and "map_of t ''profiles'' = Some (TArr vs)" "v \<in> set vs" "incomplete_profile v"
  shows "load_config E None w = Inl Invalid"
proof -
  have "de_arr de_profile (TArr vs) = Inl Invalid"
    using de_list_fails[of v vs de_profile, OF assms(5) incomplete_invalid[OF assms(6)]] no_panic_parts(7) by simp
  then have bad: "defaulted [] (de_arr de_profile) ''profiles'' t = Inl Invalid"
    using assms(4) by (simp add: defaulted_def)
  have "de_raw_config t = Inl Invalid"
    unfolding de_raw_config_def bad de_cursor_def de_bell_def de_notification_def
    by (rule de_bind_simps(2) | rule chain_invalid no_panic_field no_panic_optional no_panic_parts | simp)+
  then have "parse_config E text = Inl Invalid" using assms(3) by (simp add: parse_config_def de_config_def)
  then show ?thesis using assms(1,2) by (simp add: load_config_def path_exists_def healthy_calls)
qed

text \<open>A file with a good and an incomplete profile.\<close>

definition profiles_table :: toml_table where
  "profiles_table = [(''font_family'', TStr ''Hack''),
     (''profiles'', TArr [TTable [(''name'', TStr ''sh''), (''command'', TStr ''sh'')], TTable [(''name'', TStr ''x'')]])]"

theorem incomplete_profile_drops_config_witness:
  "load_config (plain_env\<lparr>te_toml := \<lparr>toml_parse = (\<lambda>s. Some profiles_table), toml_print = (\<lambda>t. None)\<rparr>\<rparr>) None
     (put_file config_toml ''C'' demo_fs) = Inl Invalid"
proof -
  have "incomplete_profile (TTable [(''name'', TStr ''x'')])" by (simp add: incomplete_profile_def)
  then show ?thesis
    by (intro incomplete_profile_drops_config[of _ "''C''" _ profiles_table
        "[TTable [(''name'', TStr ''sh''), (''command'', TStr ''sh'')], TTable [(''name'', TStr ''x'')]]"
        "TTable [(''name'', TStr ''x'')]"]) (simp_all add: profiles_table_def)
qed

end
