(* ===== verification/ThemeProps.thy ===== *)
theory ThemeProps
  imports ConfigProps
begin

section \<open>What the themes promise\<close>

subsection \<open>A colour that is cut inside a character\<close>

lemma bad_slice_panics: "length s = 6 \<or> length s = 8 \<Longrightarrow> \<not> is_char_boundary s 2 \<Longrightarrow> from_hex (CHR ''#'' # s) = Inl Panicked"
  by (auto simp: from_hex_def hex_byte_def slice2_def and_then_def numeral_2_eq_2)

text \<open>The text of a theme file whose foreground is such a colour.\<close>

definition cut_color :: "toml_lib \<Rightarrow> string \<Rightarrow> bool" where
  "cut_color T text \<longleftrightarrow> (\<exists>kvs cs s. toml_parse T text = Some kvs \<and> map_of kvs ''colors'' = Some (TTable cs) \<and>
     map_of cs ''foreground'' = Some (TStr (CHR ''#'' # s)) \<and> (length s = 6 \<or> length s = 8) \<and>
     \<not> is_char_boundary s 2)"

lemma cut_color_panics: "cut_color T text \<Longrightarrow> parse_theme_file T text = Inl Panicked"
  by (auto simp: cut_color_def parse_theme_file_def required_def bad_slice_panics)

lemma de_ok_valid: "de_ok m \<noteq> Inl Invalid"
  by (simp add: de_ok_def split: sum.split failure.split)

lemma de_filter_valid: "(\<And>x. f x \<noteq> Inl Invalid) \<Longrightarrow> de_filter f xs \<noteq> Inl Invalid"
proof (induction xs)
  case (Cons x xs)
  then have "f x \<noteq> Inl Invalid" "de_filter f xs \<noteq> Inl Invalid" by blast+
  then show ?case by (cases "f x"; cases "de_filter f xs") auto
qed simp

lemma de_filter_panics: "x \<in> set xs \<Longrightarrow> f x = Inl Panicked \<Longrightarrow> (\<And>x. f x \<noteq> Inl Invalid) \<Longrightarrow> de_filter f xs = Inl Panicked"
proof (induction xs)
  case (Cons y xs)
  show ?case
  proof (cases "f y")
    case (Inl e)
    then show ?thesis using Cons.prems(3)[of y] by (cases e) auto
  next
    case (Inr v)
    then show ?thesis using Cons by auto
  qed
qed simp

lemma de_bindE: "de_bind m f = Inr y \<Longrightarrow> (\<And>x. m = Inr x \<Longrightarrow> f x = Inr y \<Longrightarrow> P) \<Longrightarrow> P"
  by (cases m) auto

lemma raw_theme: "de_raw_config t = Inr raw \<Longrightarrow> rw_theme raw = map_of t ''theme''"
  unfolding de_raw_config_def by (elim de_bindE) (auto simp: optional_def split: option.splits)

lemma preview_valid: "preview_from_toml T s \<noteq> Inl Invalid"
  by (simp add: preview_from_toml_def de_ok_valid)

lemma entries_valid: "bundled_entry T b \<noteq> Inl Invalid" "custom_entry T f \<noteq> Inl Invalid"
  using preview_valid by (auto simp: bundled_entry_def custom_entry_def de_bind_def split: prod.split sum.split option.split)

text \<open>
  One theme file with a colour such as \<open>#\<close> followed by six bytes that cut a character
  in two brings the program down: listing the themes panics, and so does loading the
  configuration when it names that theme, because the panic of the slice is not an error that
  the callers turn into a warning.
\<close>

theorem cut_color_panics_catalog:
  assumes "f \<in> set (te_custom E)" "tf_contents f = Some text" "cut_color (te_toml E) text"
  shows "load_theme_catalog E = Inl Panicked \<and>
    (first_some (custom_match name) (te_custom E) = Some text \<and> name \<noteq> ''Default Dark'' \<and>
     map_of t ''theme'' = Some (TStr name) \<and> de_raw_config t = Inr raw \<longrightarrow> de_config E t = Inl Panicked)"
proof -
  note p = cut_color_panics[OF assms(3)]
  have "custom_entry (te_toml E) f = Inl Panicked"
    using assms(2) p by (simp add: custom_entry_def preview_from_toml_def de_ok_def)
  then have c: "de_filter (custom_entry (te_toml E)) (te_custom E) = Inl Panicked"
    using de_filter_panics[OF assms(1)] entries_valid(2) by blast
  have "de_filter (bundled_entry (te_toml E)) (te_bundled E) \<noteq> Inl Invalid"
    by (rule de_filter_valid) (rule entries_valid(1))
  then have cat: "load_theme_catalog E = Inl Panicked"
    using c by (cases "de_filter (bundled_entry (te_toml E)) (te_bundled E)"; cases "projl (de_filter (bundled_entry (te_toml E)) (te_bundled E))")
      (auto simp: load_theme_catalog_def)
  have cfg: "de_config E t = Inl Panicked" if "first_some (custom_match name) (te_custom E) = Some text"
      "name \<noteq> ''Default Dark''" "map_of t ''theme'' = Some (TStr name)" "de_raw_config t = Inr raw"
  proof -
    have "rw_theme raw = map_of t ''theme''" by (rule raw_theme[OF that(4)])
    moreover have "load_theme_by_name E name = Inl Panicked"
      using that(1,2) p by (simp add: load_theme_by_name_def de_ok_def)
    ultimately show ?thesis using that(3,4) by (simp add: de_config_def resolve_theme_def)
  qed
  show ?thesis using cat cfg by blast
qed

text \<open>The colour is two euro signs.\<close>

definition euro_env :: theme_env where
  "euro_env = \<lparr>te_toml = \<lparr>toml_parse = (\<lambda>s. Some [(''colors'', TTable [(''foreground'',
       TStr [CHR ''#'', CHR 0xE2, CHR 0x82, CHR 0xAC, CHR 0xE2, CHR 0x82, CHR 0xAC])])]), toml_print = (\<lambda>t. None)\<rparr>,
     te_bundled = [], te_custom = [\<lparr>tf_stem = ''euro'', tf_path = ''euro.toml'', tf_contents = Some ''x''\<rparr>],
     te_lower = map ascii_lower\<rparr>"

theorem cut_color_panics_catalog_witness: "load_theme_catalog euro_env = Inl Panicked"
proof -
  have "cut_color (te_toml euro_env) ''x''"
    by (simp add: cut_color_def euro_env_def is_char_boundary_def Let_def)
  then show ?thesis
    using cut_color_panics_catalog[of "\<lparr>tf_stem = ''euro'', tf_path = ''euro.toml'', tf_contents = Some ''x''\<rparr>" euro_env "''x''"]
    by (simp add: euro_env_def)
qed

subsection \<open>The catalogue and the lookup agree\<close>

definition entry_loads :: "theme_env \<Rightarrow> catalog_entry \<Rightarrow> bool" where
  "entry_loads E e \<longleftrightarrow> (\<exists>t. load_theme_by_name E (ce_name e) = Inr (Some t) \<and> preview_of t = ce_preview e)"

text \<open>
  A theme directory without accidents: every file and every bundled theme parses, the names of the
  files are distinct and are neither aliases nor that of the built-in theme, the bundled themes
  have distinct names that are neither.
\<close>

definition file_names :: "theme_env \<Rightarrow> string list" where
  "file_names E = List.map_filter (\<lambda>f. map_option (display_name f) (tf_contents f)) (te_custom E)"

definition tidy :: "theme_env \<Rightarrow> bool" where
  "tidy E \<longleftrightarrow>
     (\<forall>f \<in> set (te_custom E). \<forall>s. tf_contents f = Some s \<longrightarrow> (\<exists>t. parse_theme_file (te_toml E) s = Inr t)) \<and>
     (\<forall>(n, s) \<in> set (te_bundled E). \<exists>t. parse_theme_file (te_toml E) s = Inr t) \<and>
     distinct (file_names E) \<and> distinct (map fst (te_bundled E)) \<and>
     (\<forall>n \<in> set (file_names E) \<union> fst ` set (te_bundled E). n \<notin> fst ` set THEME_ALIASES \<and> n \<noteq> ''Default Dark'')"

lemma tidyD:
  assumes "tidy E"
  shows "f \<in> set (te_custom E) \<Longrightarrow> tf_contents f = Some s \<Longrightarrow> \<exists>t. parse_theme_file (te_toml E) s = Inr t"
    and "(n, s) \<in> set (te_bundled E) \<Longrightarrow> \<exists>t. parse_theme_file (te_toml E) s = Inr t"
    and "distinct (file_names E)" "distinct (map fst (te_bundled E))"
    and "n \<in> set (file_names E) \<Longrightarrow> n \<notin> fst ` set THEME_ALIASES" "n \<in> set (file_names E) \<Longrightarrow> n \<noteq> ''Default Dark''"
    and "(n, s) \<in> set (te_bundled E) \<Longrightarrow> n \<notin> fst ` set THEME_ALIASES" "(n, s) \<in> set (te_bundled E) \<Longrightarrow> n \<noteq> ''Default Dark''"
proof -
  note a = assms[unfolded tidy_def]
  note b = conjunct2[OF a] note c = conjunct2[OF b] note d = conjunct2[OF c] note e = conjunct2[OF d]
  have n: "n \<notin> fst ` set THEME_ALIASES \<and> n \<noteq> ''Default Dark''"
    if "n \<in> set (file_names E) \<union> fst ` set (te_bundled E)"
    using e that by (rule bspec)
  show "f \<in> set (te_custom E) \<Longrightarrow> tf_contents f = Some s \<Longrightarrow> \<exists>t. parse_theme_file (te_toml E) s = Inr t"
    using conjunct1[OF a] by blast
  show "(n, s) \<in> set (te_bundled E) \<Longrightarrow> \<exists>t. parse_theme_file (te_toml E) s = Inr t"
    using bspec[OF conjunct1[OF b], of "(n, s)"] by simp
  show "distinct (file_names E)" "distinct (map fst (te_bundled E))" using conjunct1[OF c] conjunct1[OF d] .
  have "(n, s) \<in> set (te_bundled E) \<Longrightarrow> n \<in> fst ` set (te_bundled E)" by force
  then show "(n, s) \<in> set (te_bundled E) \<Longrightarrow> n \<notin> fst ` set THEME_ALIASES"
    "(n, s) \<in> set (te_bundled E) \<Longrightarrow> n \<noteq> ''Default Dark''" using n by (metis UnI2)+
  show "n \<in> set (file_names E) \<Longrightarrow> n \<notin> fst ` set THEME_ALIASES"
    "n \<in> set (file_names E) \<Longrightarrow> n \<noteq> ''Default Dark''" using n by (metis UnI1)+
qed

lemma resolve_other: "n \<notin> fst ` set THEME_ALIASES \<Longrightarrow> resolve_alias n = n"
proof -
  assume "n \<notin> fst ` set THEME_ALIASES"
  then have "map_of THEME_ALIASES n = None" by (simp add: map_of_eq_None_iff)
  then show ?thesis by (simp add: resolve_alias_def)
qed

lemma first_some_unique:
  "x \<in> set xs \<Longrightarrow> f x = Some y \<Longrightarrow> (\<And>z. z \<in> set xs \<Longrightarrow> f z \<noteq> None \<Longrightarrow> f z = Some y) \<Longrightarrow> first_some f xs = Some y"
proof (induction xs)
  case (Cons z zs)
  show ?case
  proof (cases "f z")
    case None
    then have x: "x \<in> set zs" using Cons.prems(1,2) by auto
    have "first_some f zs = Some y"
    proof (rule Cons.IH[OF x Cons.prems(2)])
      fix w assume "w \<in> set zs" "f w \<noteq> None"
      then show "f w = Some y" by (intro Cons.prems(3)) simp_all
    qed
    then show ?thesis using None by simp
  next
    case (Some v)
    then show ?thesis using Cons.prems(3)[of z] by simp
  qed
qed simp

lemma first_some_None: "first_some f xs = None \<longleftrightarrow> (\<forall>x \<in> set xs. f x = None)"
  by (induction xs) (auto split: option.split)

lemma file_names_in: "f \<in> set (te_custom E) \<Longrightarrow> tf_contents f = Some s \<Longrightarrow> display_name f s \<in> set (file_names E)"
  by (force simp: file_names_def map_filter_def)

lemma distinct_files:
  assumes "distinct (List.map_filter g xs)" "x \<in> set xs" "y \<in> set xs" "g x = Some v" "g y = Some v"
  shows "x = y"
  using assms
proof (induction xs)
  case (Cons z zs)
  have inn: "g w = Some v \<Longrightarrow> w \<in> set zs \<Longrightarrow> v \<in> set (List.map_filter g zs)" for w
    by (auto simp: in_map_filter)
  have d: "g z = Some u \<Longrightarrow> u \<notin> set (List.map_filter g zs)" "distinct (List.map_filter g zs)" for u
    using Cons.prems(1) by (auto simp: map_filter_simps split: option.splits)
  show ?case using Cons inn d by auto
qed simp

lemma file_loads:
  assumes "tidy E" "f \<in> set (te_custom E)" "tf_contents f = Some s"
  shows "\<exists>t. parse_theme_file (te_toml E) s = Inr t \<and> load_theme_by_name E (display_name f s) = Inr (Some t)"
proof -
  let ?n = "display_name f s"
  obtain t where t: "parse_theme_file (te_toml E) s = Inr t" using tidyD(1)[OF assms] by blast
  note inn = file_names_in[OF assms(2,3)]
  have n: "?n \<noteq> ''Default Dark''" "resolve_alias ?n = ?n"
    using tidyD(5,6)[OF assms(1) inn] resolve_other by blast+
  have "first_some (custom_match ?n) (te_custom E) = Some s"
  proof (rule first_some_unique[OF assms(2)])
    show "custom_match ?n f = Some s" using assms(3) by (simp add: custom_match_def)
    fix g assume g: "g \<in> set (te_custom E)" "custom_match ?n g \<noteq> None"
    then obtain s' where s': "tf_contents g = Some s'" "display_name g s' = ?n"
      using n(2) by (auto simp: custom_match_def split: option.splits if_splits)
    have "g = f"
      by (rule distinct_files[where g = "\<lambda>f. map_option (display_name f) (tf_contents f)" and v = ?n])
        (use tidyD(3)[OF assms(1)] assms(2,3) g s' in \<open>simp_all add: file_names_def\<close>)
    then show "custom_match ?n g = Some s" using s' assms(3) by (simp add: custom_match_def)
  qed
  then show ?thesis using t n(1) by (simp add: load_theme_by_name_def de_ok_def)
qed

lemma bundled_loads:
  assumes "tidy E" "(n, s) \<in> set (te_bundled E)" "n \<notin> set (file_names E)"
  shows "\<exists>t. parse_theme_file (te_toml E) s = Inr t \<and> load_theme_by_name E n = Inr (Some t)"
proof -
  obtain t where t: "parse_theme_file (te_toml E) s = Inr t" using tidyD(2)[OF assms(1,2)] by blast
  note nn = tidyD(7,8)[OF assms(1,2)]
  note r = resolve_other[OF nn(1)]
  have "first_some (custom_match n) (te_custom E) = None"
    unfolding first_some_None
  proof
    fix f assume "f \<in> set (te_custom E)"
    then show "custom_match n f = None"
      using assms(3) r file_names_in[of f E] by (auto simp: custom_match_def split: option.split)
  qed
  moreover have "first_some (bundled_match n) (te_bundled E) = Some s"
  proof (rule first_some_unique[OF assms(2)])
    show "bundled_match n (n, s) = Some s" by (simp add: bundled_match_def)
    fix b assume b: "b \<in> set (te_bundled E)" "bundled_match n b \<noteq> None"
    then have "fst b = n" using r by (auto simp: bundled_match_def split: prod.splits if_splits)
    then have "b = (n, s)"
      using eq_key_imp_eq_value[OF tidyD(4)[OF assms(1)] assms(2), of "snd b"] b(1) by (cases b) auto
    then show "bundled_match n b = Some s" by (simp add: bundled_match_def)
  qed
  ultimately show ?thesis using t nn(2) by (simp add: load_theme_by_name_def de_ok_def)
qed

lemma de_filter_in: "de_filter f xs = Inr ys \<Longrightarrow> y \<in> set ys \<longleftrightarrow> (\<exists>x \<in> set xs. f x = Inr (Some y))"
proof (induction xs arbitrary: ys)
  case (Cons x xs)
  obtain v ys' where v: "f x = Inr v" "de_filter f xs = Inr ys'" "ys = (case v of Some w \<Rightarrow> w # ys' | None \<Rightarrow> ys')"
    using Cons.prems by (auto elim!: de_bindE)
  show ?case using Cons.IH[OF v(2)] v(1,3) by (auto split: option.splits)
qed simp

lemma de_filter_total: "(\<And>x. x \<in> set xs \<Longrightarrow> \<exists>v. f x = Inr v) \<Longrightarrow> \<exists>ys. de_filter f xs = Inr ys"
proof (induction xs)
  case (Cons x xs)
  then obtain v ys where "f x = Inr v" "de_filter f xs = Inr ys" by (metis list.set_intros(1,2))
  then show ?case by simp
qed simp

lemma tidy_preview: "parse_theme_file T s = Inr t \<Longrightarrow> preview_from_toml T s = Inr (Some (preview_of t))"
  by (simp add: preview_from_toml_def de_ok_def)

lemma custom_entry_tidy:
  assumes "tidy E" "f \<in> set (te_custom E)"
  shows "case tf_contents f of
     None \<Rightarrow> custom_entry (te_toml E) f = Inr None
   | Some s \<Rightarrow> \<exists>e. custom_entry (te_toml E) f = Inr (Some e) \<and> ce_name e = display_name f s \<and> entry_loads E e"
proof (cases "tf_contents f")
  case (Some s)
  obtain t where "parse_theme_file (te_toml E) s = Inr t" "load_theme_by_name E (display_name f s) = Inr (Some t)"
    using file_loads[OF assms Some] by blast
  then show ?thesis using Some by (simp add: custom_entry_def tidy_preview entry_loads_def)
qed (simp add: custom_entry_def)

lemma bundled_entry_tidy:
  assumes "tidy E" "(n, s) \<in> set (te_bundled E)"
  shows "\<exists>e. bundled_entry (te_toml E) (n, s) = Inr (Some e) \<and> ce_name e = n \<and> (n \<notin> set (file_names E) \<longrightarrow> entry_loads E e)"
proof -
  obtain t where "parse_theme_file (te_toml E) s = Inr t" using tidyD(2)[OF assms] by blast
  then show ?thesis
    using bundled_loads[OF assms] by (auto simp: bundled_entry_def tidy_preview entry_loads_def)
qed

lemma first_some_cong: "(\<And>x. x \<in> set xs \<Longrightarrow> f x = g x) \<Longrightarrow> first_some f xs = first_some g xs"
proof (induction xs)
  case (Cons x xs)
  then have "f x = g x" "first_some f xs = first_some g xs" by simp_all
  then show ?case by (simp split: option.split)
qed simp

lemma aliases: "(a, u) \<in> set THEME_ALIASES \<Longrightarrow>
    resolve_alias a = u \<and> resolve_alias u = u \<and> a \<noteq> ''Default Dark'' \<and> u \<noteq> ''Default Dark''"
proof -
  have "list_all (\<lambda>(a, u). resolve_alias a = u \<and> resolve_alias u = u \<and> a \<noteq> ''Default Dark'' \<and> u \<noteq> ''Default Dark'')
      THEME_ALIASES" by code_simp
  then show "(a, u) \<in> set THEME_ALIASES \<Longrightarrow> ?thesis" by (auto simp: list_all_iff)
qed

lemma alias_loads:
  assumes "tidy E" "(a, u) \<in> set THEME_ALIASES" "a \<notin> set (file_names E)"
  shows "load_theme_by_name E a = load_theme_by_name E u"
proof -
  note al = aliases[OF assms(2)]
  have "first_some (custom_match a) (te_custom E) = first_some (custom_match u) (te_custom E)"
    using al assms(3) file_names_in[of _ E] by (intro first_some_cong) (auto simp: custom_match_def split: option.split)
  moreover have "first_some (bundled_match a) (te_bundled E) = first_some (bundled_match u) (te_bundled E)"
  proof (rule first_some_cong)
    fix b assume "b \<in> set (te_bundled E)"
    then have "fst b \<notin> fst ` set THEME_ALIASES" using tidyD(7)[OF assms(1), of "fst b" "snd b"] by simp
    moreover have "a \<in> fst ` set THEME_ALIASES" using assms(2) by force
    ultimately have "fst b \<noteq> a" by blast
    then show "bundled_match a b = bundled_match u b" using al by (auto simp: bundled_match_def split: prod.split)
  qed
  ultimately show ?thesis using al by (simp add: load_theme_by_name_def cong: option.case_cong)
qed

lemma add_aliases_load:
  assumes "tidy E" "set al \<subseteq> set THEME_ALIASES" "\<forall>n \<in> set (file_names E). lower n \<in> set names"
    "\<forall>e \<in> set es. entry_loads E e"
  shows "\<forall>e \<in> set (fold (add_alias lower names) al es). entry_loads E e"
  using assms(2,4)
proof (induction al arbitrary: es)
  case (Cons x al)
  obtain a u where x: "x = (a, u)" by fastforce
  have "\<forall>e \<in> set (add_alias lower names (a, u) es). entry_loads E e"
  proof (cases "lower a \<in> set names \<or> (\<exists>e \<in> set es. eq_ignore_ascii_case (ce_name e) a)")
    case True
    then show ?thesis using Cons.prems(2) by auto
  next
    case False
    show ?thesis
    proof (cases "List.find (\<lambda>e. ce_name e = u) es")
      case None
      then show ?thesis using Cons.prems(2) False by auto
    next
      case (Some e)
      then have e: "e \<in> set es" "ce_name e = u" by (auto simp: find_Some_iff)
      have "a \<notin> set (file_names E)" using False assms(3) by blast
      then have "load_theme_by_name E a = load_theme_by_name E u"
        using alias_loads[OF assms(1)] Cons.prems(1) x by simp
      then have "entry_loads E (e\<lparr>ce_name := a\<rparr>)"
        using Cons.prems(2) e by (auto simp: entry_loads_def)
      then show ?thesis using Cons.prems(2) False Some by auto
    qed
  qed
  then show ?case using Cons.IH Cons.prems(1) x by simp
qed simp

text \<open>
  What the theme list shows is what is applied: in a theme directory without accidents the
  list is built, is sorted by name, and for every entry of it, the aliases included, loading
  the theme by the name of the entry succeeds and gives the colours of its preview.
\<close>

theorem catalog_entries_load:
  assumes "tidy E"
  shows "\<exists>es. load_theme_catalog E = Inr es \<and> sorted (map (\<lambda>e. te_lower E (ce_name e)) es) \<and>
    (\<forall>e \<in> set es. \<exists>t. load_theme_by_name E (ce_name e) = Inr (Some t) \<and> preview_of t = ce_preview e)"
proof -
  let ?lower = "te_lower E"
  have "\<exists>v. bundled_entry (te_toml E) b = Inr v" if "b \<in> set (te_bundled E)" for b
    using bundled_entry_tidy[OF assms, of "fst b" "snd b"] that by auto
  then obtain bs where bs: "de_filter (bundled_entry (te_toml E)) (te_bundled E) = Inr bs"
    using de_filter_total by blast
  have "\<exists>v. custom_entry (te_toml E) f = Inr v" if "f \<in> set (te_custom E)" for f
    using custom_entry_tidy[OF assms that] by (cases "tf_contents f") auto
  then obtain cs where cs: "de_filter (custom_entry (te_toml E)) (te_custom E) = Inr cs"
    using de_filter_total by blast
  define names where "names = map (\<lambda>e. ?lower (ce_name e)) (sort_by_name ?lower cs)"
  have cgood: "entry_loads E e" if inn: "e \<in> set cs" for e
  proof -
    obtain f where f: "f \<in> set (te_custom E)" "custom_entry (te_toml E) f = Inr (Some e)"
      using iffD1[OF de_filter_in[OF cs] inn] by (rule bexE)
    then show ?thesis using custom_entry_tidy[OF assms f(1)] by (cases "tf_contents f") auto
  qed
  have names: "\<forall>n \<in> set (file_names E). ?lower n \<in> set names"
  proof
    fix n assume "n \<in> set (file_names E)"
    then obtain f s where f: "f \<in> set (te_custom E)" "tf_contents f = Some s" "n = display_name f s"
      by (auto simp: file_names_def in_map_filter)
    then obtain e where "custom_entry (te_toml E) f = Inr (Some e)" "ce_name e = n"
      using custom_entry_tidy[OF assms f(1)] by auto
    then have "e \<in> set cs" using iffD2[OF de_filter_in[OF cs]] f(1) by metis
    then show "?lower n \<in> set names"
      using \<open>ce_name e = n\<close> by (auto simp: names_def sort_by_name_def)
  qed
  have bgood: "entry_loads E e" if inn: "e \<in> set bs" and new: "?lower (ce_name e) \<notin> set names" for e
  proof -
    obtain n s where b: "(n, s) \<in> set (te_bundled E)" "bundled_entry (te_toml E) (n, s) = Inr (Some e)"
      using iffD1[OF de_filter_in[OF bs] inn] by (metis surj_pair)
    then have "ce_name e = n" "n \<notin> set (file_names E) \<longrightarrow> entry_loads E e"
      using bundled_entry_tidy[OF assms b(1)] by auto
    then show ?thesis using names new by auto
  qed
  have dark: "entry_loads E default_dark"
    by (simp add: entry_loads_def default_dark_def load_theme_by_name_def)
  define es where "es = default_dark # [e \<leftarrow> sort_by_name ?lower bs. ?lower (ce_name e) \<notin> set names] @ sort_by_name ?lower cs"
  have "\<forall>e \<in> set es. entry_loads E e"
    using dark bgood cgood by (auto simp: es_def sort_by_name_def)
  then have "\<forall>e \<in> set (fold (add_alias ?lower names) THEME_ALIASES es). entry_loads E e"
    using add_aliases_load[OF assms subset_refl names] by blast
  moreover have "load_theme_catalog E = Inr (sort_by_name ?lower (fold (add_alias ?lower names) THEME_ALIASES es))"
    by (simp add: load_theme_catalog_def bs cs Let_def names_def es_def)
  ultimately show ?thesis by (auto simp: sort_by_name_def entry_loads_def)
qed

text \<open>One bundled theme that has an alias, and a file of the user.\<close>

definition tidy_env :: theme_env where
  "tidy_env = \<lparr>te_toml = \<lparr>toml_parse = (\<lambda>s. Some [(''colors'', TTable [(''foreground'', TStr ''#0a0b0c''),
       (''background'', TStr ''#101112'')])]), toml_print = (\<lambda>t. None)\<rparr>,
     te_bundled = [(''Ayu'', ''x'')],
     te_custom = [\<lparr>tf_stem = ''mine'', tf_path = ''mine.toml'', tf_contents = Some ''y''\<rparr>], te_lower = map ascii_lower\<rparr>"

theorem catalog_entries_load_witness:
  "\<exists>es. load_theme_catalog tidy_env = Inr es \<and>
    (\<forall>e \<in> set es. \<exists>t. load_theme_by_name tidy_env (ce_name e) = Inr (Some t) \<and> preview_of t = ce_preview e)"
proof -
  have bytes: "u8_from_hex ''0a'' = Some 10" "u8_from_hex ''0b'' = Some 11" "u8_from_hex ''0c'' = Some 12"
    "u8_from_hex ''10'' = Some 16" "u8_from_hex ''11'' = Some 17" "u8_from_hex ''12'' = Some 18"
    by (simp_all add: u8_from_hex_def hex_digit_def)
  have p: "\<exists>t. parse_theme_file (te_toml tidy_env) s = Inr t" for s
    by (simp add: tidy_env_def parse_theme_file_def required_def optional_def from_hex_def hex_byte_def
        slice2_def is_char_boundary_def and_then_def bytes)
  have "extract_name_field ''y'' = None" by (simp add: extract_name_field_def name_on_line_def rust_trim_def is_whitespace_def)
  then have "file_names tidy_env = [''mine'']" by (simp add: file_names_def tidy_env_def map_filter_simps display_name_def)
  then have "tidy tidy_env"
    using p by (simp add: tidy_def) (simp add: tidy_env_def THEME_ALIASES_def)
  from catalog_entries_load[OF this] show ?thesis by blast
qed

end
