(* ===== verification/Launch.thy ===== *)
theory Launch
  imports Configuration Daemon
begin

section \<open>Starting the program\<close>

text \<open>
  \<open>src/main.rs\<close> with the arguments of \<open>src/cli.rs\<close>, and the part of
  \<open>crates/forgetty-gtk/src/app.rs\<close> that runs before a window is built: the migration and the
  recovery of files left in \<open>active/\<close>, finding and starting the daemon, the default profile.
  What the environment answers (canonical paths, the probe of a daemon's socket, whether a child
  process starts) is the record \<open>launch_env\<close>.
\<close>

subsection \<open>Arguments and environment\<close>

record args =
  a_config_file :: "path option"
  a_working_directory :: "path option"
  a_class :: "string option"
  a_execute :: "string list"
  a_no_restore :: bool
  a_session_id :: "uuid option"
  a_restore_all :: bool
  a_restore_session :: "uuid option"

record launch_options =
  lo_working_directory :: "path option"
  lo_command :: "string list option"
  lo_class :: "string option"
  lo_no_restore :: bool
  lo_session_id :: "uuid option"
  lo_restore_all :: bool

definition launch_options_default :: launch_options where
  "launch_options_default =
     \<lparr>lo_working_directory = None, lo_command = None, lo_class = None, lo_no_restore = False,
      lo_session_id = None, lo_restore_all = False\<rparr>"

record launch_env =
  le_libs :: libs
  le_themes :: theme_env
  le_canonicalize :: "path \<Rightarrow> path option"
  le_probe :: "uuid \<Rightarrow> string option"      \<comment> \<open>the line a daemon answers to \<open>is_attached\<close>\<close>
  le_current_exe :: "path option"
  le_spawn_fails :: "uuid \<Rightarrow> bool"
  le_runtime_dir :: "path option"          \<comment> \<open>\<open>$XDG_RUNTIME_DIR\<close>\<close>
  le_home :: "path option"

definition path_join :: "path \<Rightarrow> string \<Rightarrow> path" where
  "path_join dir name = (if dir = [] then name else if last dir = CHR ''/'' then dir @ name
                         else dir @ ''/'' @ name)"

text \<open>The binary and the client derive the socket path alike.\<close>

definition daemon_socket_path :: "launch_env \<Rightarrow> uuid \<Rightarrow> path" where
  "daemon_socket_path E u =
     (let name = ''forgetty-'' @ uuid_str (le_libs E) u @ ''.sock''
      in case le_runtime_dir E of Some d \<Rightarrow> path_join d name | None \<Rightarrow> ''/tmp/'' @ name)"

definition is_session_in_use :: "launch_env \<Rightarrow> uuid \<Rightarrow> bool" where
  "is_session_in_use E u =
     (case le_probe E u of
        None \<Rightarrow> False
      | Some line \<Rightarrow>
          if line = [] then False
          else case parse_value (le_libs E) (rust_trim line) of
                 None \<Rightarrow> False
               | Some v \<Rightarrow>
                   (case Option.bind (json_get v ''result'') (\<lambda>r. Option.bind (json_get r ''attached'') as_bool) of
                      Some b \<Rightarrow> b | None \<Rightarrow> False))"

subsection \<open>\<open>main\<close>\<close>

datatype launch =
  Crashes                                  \<comment> \<open>a panic\<close>
| Exits nat                                \<comment> \<open>an error exit\<close>
| Spawned "uuid list"                      \<comment> \<open>one process per session, and done\<close>
| Opens app_config launch_options              \<comment> \<open>\<open>forgetty_gtk::app::run\<close>\<close>

definition validate_working_directory :: "launch_env \<Rightarrow> path option \<Rightarrow> path option" where
  "validate_working_directory E d =
     (case d of
        None \<Rightarrow> None
      | Some p \<Rightarrow> (case le_canonicalize E p of
                    Some c \<Rightarrow> if is_dir (le_libs E) c then Some c else None | None \<Rightarrow> None))"

definition main_config :: "launch_env \<Rightarrow> args \<Rightarrow> fs \<Rightarrow> app_config de" where
  "main_config E a w =
     (let path = map_option (\<lambda>p. case le_canonicalize E p of Some c \<Rightarrow> c | None \<Rightarrow> p) (a_config_file a)
      in case load_config (le_themes E) (map_option OtherFile path) w of
           Inr c \<Rightarrow> Inr c
         | Inl Panicked \<Rightarrow> Inl Panicked
         | Inl Invalid \<Rightarrow> default_config (le_themes E))"

definition spawn_sessions :: "launch_env \<Rightarrow> uuid list \<Rightarrow> launch" where
  "spawn_sessions E us =
     (if le_current_exe E = None then Exits 1 else Spawned (filter (\<lambda>u. \<not> le_spawn_fails E u) us))"

definition restore_all_sessions :: "launch_env \<Rightarrow> app_config \<Rightarrow> fs \<Rightarrow> launch \<times> fs" where
  "restore_all_sessions E c w =
     (let w1 = purge_old_trash (cf_session_trash_days c) w;
          sessions = list_sessions w1
      in (if sessions = [] then Spawned []
          else spawn_sessions E (filter (\<lambda>u. \<not> is_session_in_use E u) sessions), w1))"

definition is_bare_launch :: "args \<Rightarrow> path option \<Rightarrow> bool" where
  "is_bare_launch a working_directory \<longleftrightarrow>
     \<not> a_no_restore a \<and> a_session_id a = None \<and> working_directory = None \<and> a_execute a = []"

definition main_launch :: "launch_env \<Rightarrow> args \<Rightarrow> fs \<Rightarrow> launch \<times> fs" where
  "main_launch E a w =
     (case main_config E a w of
        Inl e \<Rightarrow> (Crashes, w)
      | Inr c \<Rightarrow>
          let wd = validate_working_directory E (a_working_directory a);
              options = \<lparr>lo_working_directory = wd,
                         lo_command = (if a_execute a = [] then None else Some (a_execute a)),
                         lo_class = a_class a, lo_no_restore = a_no_restore a,
                         lo_session_id = a_session_id a, lo_restore_all = a_restore_all a\<rparr>
          in case a_restore_session a of
               Some u \<Rightarrow> (Opens c (launch_options_default\<lparr>lo_session_id := Some u\<rparr>),
                          snd (restore_from_trash_to_active u w))
             | None \<Rightarrow>
                 if a_restore_all a then restore_all_sessions E c w
                 else if is_bare_launch a wd \<and> cf_on_launch c = Restore
                 then (let w1 = purge_old_trash (cf_session_trash_days c) w;
                           to_restore = filter (\<lambda>u. \<not> is_session_in_use E u) (list_sessions w1)
                       in (if to_restore = [] then Opens c options else spawn_sessions E to_restore, w1))
                 else (Opens c options, w))"

subsection \<open>Before the window: \<open>app::run\<close>\<close>

definition recover_orphan :: "uuid \<times> bool \<Rightarrow> fs \<Rightarrow> fs" where
  "recover_orphan = (\<lambda>(u, is_pinned) w.
     if is_pinned then snd (move_active_to_sessions u w) else snd (delete_active_for u w))"

definition gtk_startup :: "codec \<Rightarrow> fs \<Rightarrow> fs" where
  "gtk_startup cd w =
     (let w1 = snd (run_migration_p018 cd w)
      in fold recover_orphan (recover_orphans_in_active cd w1) w1)"

text \<open>The daemon binary: beside the executable, else the first directory of \<open>$PATH\<close> that has it.\<close>

fun split_on :: "char \<Rightarrow> string \<Rightarrow> string \<Rightarrow> string list" where
  "split_on sep acc [] = [rev acc]"
| "split_on sep acc (c # cs) = (if c = sep then rev acc # split_on sep [] cs else split_on sep (c # acc) cs)"

definition daemon_binary :: "(path \<Rightarrow> bool) \<Rightarrow> path option \<Rightarrow> string option \<Rightarrow> path option" where
  "daemon_binary path_ok exe_dir path_var =
     (case map_option (\<lambda>d. path_join d ''forgetty-daemon'') exe_dir of
        Some p \<Rightarrow> if path_ok p then Some p
                  else Option.bind path_var (\<lambda>v. List.find path_ok
                         (map (\<lambda>d. path_join d ''forgetty-daemon'') (split_on CHR '':'' [] v)))
      | None \<Rightarrow> Option.bind path_var (\<lambda>v. List.find path_ok
                         (map (\<lambda>d. path_join d ''forgetty-daemon'') (split_on CHR '':'' [] v))))"

text \<open>
  \<open>connects n\<close> says whether the n-th attempt to connect succeeds; the result carries the
  milliseconds slept. The failures are the exits with status 1.
\<close>

datatype ensured = Connected nat | NoBinary | NoSpawn | NotReady nat

fun retry_connect :: "(nat \<Rightarrow> bool) \<Rightarrow> nat list \<Rightarrow> nat \<Rightarrow> ensured" where
  "retry_connect connects [] slept = NotReady slept"
| "retry_connect connects (attempt # rest) slept =
     (let slept' = slept + (if attempt < 5 then 25 else 50)
      in if connects (attempt + 1) then Connected slept' else retry_connect connects rest slept')"

definition ensure_daemon :: "(nat \<Rightarrow> bool) \<Rightarrow> path option \<Rightarrow> bool \<Rightarrow> ensured" where
  "ensure_daemon connects binary spawns =
     (if connects 0 then Connected 0
      else if binary = None then NoBinary
      else if \<not> spawns then NoSpawn
      else retry_connect connects [0..<20] 0)"

subsection \<open>Profiles\<close>

fun split_whitespace :: "string \<Rightarrow> string \<Rightarrow> string list" where
  "split_whitespace acc [] = (if acc = [] then [] else [rev acc])"
| "split_whitespace acc (c # cs) =
     (if is_whitespace c then (if acc = [] then [] else [rev acc]) @ split_whitespace [] cs
      else split_whitespace (c # acc) cs)"

definition resolve_profile_dir :: "launch_env \<Rightarrow> string option \<Rightarrow> path option" where
  "resolve_profile_dir E directory =
     (case directory of
        None \<Rightarrow> None
      | Some raw \<Rightarrow>
          let home = (case le_home E of Some h \<Rightarrow> h | None \<Rightarrow> ''/'');
              expanded = (if raw = ''~'' then home
                          else if take 2 raw = ''~/'' then home @ tl raw else raw)
          in if is_dir (le_libs E) expanded then Some expanded else None)"

definition resolve_default_profile_args :: "launch_env \<Rightarrow> app_config \<Rightarrow> string list option \<times> path option" where
  "resolve_default_profile_args E cfg =
     (if cf_profiles cfg = [] then (None, None)
      else let profile =
                 (case cf_default_profile cfg of
                    Some n \<Rightarrow> (case List.find (\<lambda>p. pr_name p = n) (cf_profiles cfg) of
                                 Some p \<Rightarrow> p | None \<Rightarrow> hd (cf_profiles cfg))
                  | None \<Rightarrow> hd (cf_profiles cfg))
           in (if pr_command profile = [] then None else Some (split_whitespace [] (pr_command profile)),
               resolve_profile_dir E (pr_directory profile)))"

end
