(* ===== verification/LaunchProps.thy ===== *)
theory LaunchProps
  imports Launch Restart ConfigProps
begin

section \<open>What a launch does to the sessions\<close>

subsection \<open>The recovery of left-over files\<close>

lemma recover_orphan_healthy:
  assumes "healthy w"
  shows "healthy (recover_orphan (u, b) w)"
    "fs_get (recover_orphan (u, b) w) q =
      (case fs_get w (SessionJson Active u) of
         None \<Rightarrow> fs_get w q
       | Some c \<Rightarrow> if q = SessionJson Active u then None
                   else if b \<and> q = SessionJson Sessions u then Some c else fs_get w q)"
proof -
  have "healthy (recover_orphan (u, b) w) \<and> fs_get (recover_orphan (u, b) w) q =
      (case fs_get w (SessionJson Active u) of
         None \<Rightarrow> fs_get w q
       | Some c \<Rightarrow> if q = SessionJson Active u then None
                   else if b \<and> q = SessionJson Sessions u then Some c else fs_get w q)"
  proof (cases "fs_get w (SessionJson Active u)")
    case None
    then show ?thesis
      using assms by (auto simp: recover_orphan_def move_active_to_sessions_def delete_active_for_def
          remove_if_exists_def path_exists_def Let_def)
  next
    case (Some c)
    then show ?thesis
      using assms rename_healthy(2,3)[OF assms Some, of "SessionJson Sessions u"]
      by (cases b) (simp_all add: recover_orphan_def move_active_to_sessions_def delete_active_for_def
          remove_if_exists_def path_exists_def healthy_calls Let_def)
  qed
  then show "healthy (recover_orphan (u, b) w)"
    "fs_get (recover_orphan (u, b) w) q =
      (case fs_get w (SessionJson Active u) of
         None \<Rightarrow> fs_get w q
       | Some c \<Rightarrow> if q = SessionJson Active u then None
                   else if b \<and> q = SessionJson Sessions u then Some c else fs_get w q)" by simp_all
qed

text \<open>The file a launch finds for a session in \<open>active/\<close>: its pinned flag, when it can be read.\<close>

definition orphan :: "codec \<Rightarrow> fs \<Rightarrow> uuid \<Rightarrow> bool option" where
  "orphan cd w u =
     (case fs_get w (SessionJson Active u) of
        None \<Rightarrow> None
      | Some c \<Rightarrow> (case probe_pinned cd c of Inr b \<Rightarrow> Some b | Inl _ \<Rightarrow> None))"

lemma recover_orphans_iff:
  "healthy w \<Longrightarrow> (u, b) \<in> set (recover_orphans_in_active cd w) \<longleftrightarrow> orphan cd w u = Some b"
proof -
  assume h: "healthy w"
  have pick: "(case m of Inr b \<Rightarrow> Some (v, b) | Inl e \<Rightarrow> None) = Some (u, b) \<longleftrightarrow> v = u \<and> m = Inr b"
    for m :: "msg + bool" and v by (cases m) auto
  from h have "(u, b) \<in> set (recover_orphans_in_active cd w) \<longleftrightarrow>
      u \<in> set (bucket_ids Active w) \<and> read_pinned_field cd (SessionJson Active u) w = Inr b"
    by (auto simp: recover_orphans_in_active_def in_map_filter pick)
  also have "\<dots> \<longleftrightarrow> orphan cd w u = Some b"
    using h by (auto simp: bucket_ids_iff orphan_def read_pinned_field_def healthy_calls split: option.splits sum.splits)
  finally show ?thesis .
qed

lemma fold_recover:
  assumes "healthy w" "\<forall>(u, b) \<in> set xs. flag u = b"
  shows "healthy (fold recover_orphan xs w) \<and>
    (\<forall>q. fs_get (fold recover_orphan xs w) q =
      (case q of
         SessionJson Active u \<Rightarrow> if u \<in> fst ` set xs then None else fs_get w q
       | SessionJson Sessions u \<Rightarrow>
           if u \<in> fst ` set xs \<and> flag u \<and> fs_get w (SessionJson Active u) \<noteq> None
           then fs_get w (SessionJson Active u) else fs_get w q
       | _ \<Rightarrow> fs_get w q))"
  using assms
proof (induction xs arbitrary: w)
  case Nil
  then show ?case by (auto split: fpath.split bucket.split)
next
  case (Cons x xs)
  obtain u b where x: "x = (u, b)" "flag u = b" using Cons.prems(2) by (cases x) auto
  note one = recover_orphan_healthy[OF Cons.prems(1), of u b]
  note rest = Cons.IH[OF one(1)]
  show ?case
    using rest Cons.prems(2) unfolding x(1) fold_simps comp_apply
    by (auto simp: one(2) x(2) split: fpath.splits bucket.splits option.splits)
qed

text \<open>The files after a launch, as a function of those before it.\<close>

fun started :: "codec \<Rightarrow> fs \<Rightarrow> fpath \<Rightarrow> string option" where
  "started cd w (SessionJson Active u) =
     (if orphan cd w u = None then fs_get w (SessionJson Active u) else None)"
| "started cd w (SessionJson Sessions u) =
     (if orphan cd w u = Some True then fs_get w (SessionJson Active u) else fs_get w (SessionJson Sessions u))"
| "started cd w q = fs_get w q"

lemma startup_files:
  assumes "healthy w" "fs_get w MigrationMarker \<noteq> None"
  shows "healthy (gtk_startup cd w)" "fs_get (gtk_startup cd w) q = started cd w q"
proof -
  have m: "snd (run_migration_p018 cd w) = w"
    using assms(2) by (simp add: run_migration_p018_def path_exists_def)
  let ?xs = "recover_orphans_in_active cd w"
  have flag: "\<forall>(u, b) \<in> set ?xs. (orphan cd w u = Some True) = b"
    using recover_orphans_iff[OF assms(1)] by auto
  have ids: "u \<in> fst ` set ?xs \<longleftrightarrow> orphan cd w u \<noteq> None" for u
    using recover_orphans_iff[OF assms(1), of u] by force
  note f = fold_recover[OF assms(1) flag]
  have "gtk_startup cd w = fold recover_orphan ?xs w" by (simp add: gtk_startup_def m)
  then show "healthy (gtk_startup cd w)" "fs_get (gtk_startup cd w) q = started cd w q"
    using f ids by (auto simp: orphan_def split: fpath.splits bucket.splits option.splits sum.splits)
qed

text \<open>
  Every launch that opens a window empties \<open>active/\<close> of every session it can read, those
  of running daemons included, because it does not ask whether a daemon owns the file: a pinned
  one is moved over the saved one, an unpinned one is deleted without passing through the trash.
  No other file changes.
\<close>

theorem launch_clears_active:
  assumes "healthy w" "fs_get w MigrationMarker \<noteq> None"
  shows "fs_get (gtk_startup cd w) q = started cd w q \<and>
    (\<forall>u c. fs_get w (SessionJson Active u) = Some c \<and> probe_pinned cd c = Inr False \<longrightarrow>
       fs_get (gtk_startup cd w) (SessionJson Active u) = None \<and>
       (\<forall>b. b \<noteq> Active \<longrightarrow> fs_get (gtk_startup cd w) (SessionJson b u) = fs_get w (SessionJson b u)))"
proof -
  have "started cd w (SessionJson b u) = fs_get w (SessionJson b u)"
    if "fs_get w (SessionJson Active u) = Some c" "probe_pinned cd c = Inr False" "b \<noteq> Active" for u c b
    using that by (cases b) (auto simp: orphan_def)
  then show ?thesis using startup_files(2)[OF assms] by (auto simp: orphan_def)
qed

theorem launch_clears_active_witness:
  "fs_get (gtk_startup demo_codec (put_file (SessionJson Active 7) ''U'' (put_file MigrationMarker ''m'' demo_fs)))
     (SessionJson Active 7) = None"
  using launch_clears_active[of "put_file (SessionJson Active 7) ''U'' (put_file MigrationMarker ''m'' demo_fs)"
      demo_codec "SessionJson Active 7"]
  by (simp add: orphan_def demo_codec_def)

subsection \<open>Undoing a close\<close>

lemma restore_to_active_healthy:
  assumes "healthy w" "fs_get w (SessionJson Trash u) = Some c"
  shows "healthy (snd (restore_from_trash_to_active u w))"
    "fs_get (snd (restore_from_trash_to_active u w)) q =
      (if q = SessionJson Trash u then None else if q = SessionJson Active u then Some c else fs_get w q)"
  using rename_healthy(2,3)[OF assms, of "SessionJson Active u"] assms(2)
  by (simp_all add: restore_from_trash_to_active_def path_exists_def Let_def)

text \<open>
  C39: undoing the close of a session that is not pinned destroys it: \<open>--restore-session\<close> moves
  the file from the trash to \<open>active/\<close>, the same process then takes it for a left-over and
  deletes it before it starts the daemon; no file of the session is left in any directory, and
  the daemon that is started for it begins with an empty session.
\<close>

theorem undo_close_loses_session:
  assumes "healthy w" "fs_get w MigrationMarker \<noteq> None"
    and "fs_get w (SessionJson Trash u) = Some c" "probe_pinned cd c = Inr False"
    and "fs_get w (SessionJson Sessions u) = None"
    and "a_restore_session a = Some u" "main_config E a w = Inr cfg" "main_launch E a w = (out, w1)"
  shows "out = Opens cfg (launch_options_default\<lparr>lo_session_id := Some u\<rparr>) \<and>
    (\<forall>b. fs_get (gtk_startup cd w1) (SessionJson b u) = None) \<and>
    shapes (fst (daemon_start L cd u ring_kb max_mb wd (gtk_startup cd w1))) = [(''Default'', None, 0, [])]"
proof -
  have m: "out = Opens cfg (launch_options_default\<lparr>lo_session_id := Some u\<rparr>)"
    "w1 = snd (restore_from_trash_to_active u w)"
    using assms(6-8) by (simp_all add: main_launch_def Let_def)
  have w1: "healthy w1" "fs_get w1 MigrationMarker \<noteq> None" "fs_get w1 (SessionJson Active u) = Some c"
    "fs_get w1 (SessionJson Trash u) = None" "fs_get w1 (SessionJson Sessions u) = None"
    using restore_to_active_healthy[OF assms(1,3)] assms(2,5) by (simp_all add: m(2))
  have gone: "fs_get (gtk_startup cd w1) (SessionJson b u) = None" for b
    using startup_files(2)[OF w1(1,2)] w1(3-5) assms(4) by (cases b) (simp_all add: orphan_def)
  then have "load_session_for cd u (gtk_startup cd w1) = Inr None"
    by (simp add: load_session_for_def load_from_path_def path_exists_def)
  then have "fst (daemon_start L cd u ring_kb max_mb wd (gtk_startup cd w1)) =
      refresh_pane_cwds (blank_session ring_kb max_mb wd)"
    by (simp add: daemon_start_def blank_session_def save_session_from_layout_def
        snapshot_to_workspace_state_def Let_def)
  then have "shapes (fst (daemon_start L cd u ring_kb max_mb wd (gtk_startup cd w1))) = [(''Default'', None, 0, [])]"
    by (simp add: shapes_def blank_session_def set_byte_log_config_def session_new_def
        new_default_layout_def shape_of_ws_def)
  then show ?thesis using m(1) gone by simp
qed

definition quiet_args :: args where
  "quiet_args = \<lparr>a_config_file = None, a_working_directory = None, a_class = None, a_execute = [],
     a_no_restore = False, a_session_id = None, a_restore_all = False, a_restore_session = None\<rparr>"

definition quiet_env :: launch_env where
  "quiet_env = \<lparr>le_libs = unary_libs, le_themes = plain_env, le_canonicalize = Some, le_probe = (\<lambda>u. None),
     le_current_exe = Some ''/usr/bin/forgetty'', le_spawn_fails = (\<lambda>u. False), le_runtime_dir = None, le_home = None\<rparr>"

lemma quiet_config: "fs_get w config_toml = None \<Longrightarrow> \<exists>c. main_config quiet_env (quiet_args\<lparr>a_restore_session := r, a_session_id := i\<rparr>) w = Inr c \<and>
    cf_on_launch c = Restore \<and> cf_session_trash_days c = 7"
  by (simp add: main_config_def quiet_args_def quiet_env_def load_config_def path_exists_def default_config_def
      load_theme_by_name_def plain_env_def resolve_alias_def THEME_ALIASES_def)

theorem undo_close_loses_session_witness:
  "let w = put_file (SessionJson Trash 7) ''U'' (put_file MigrationMarker ''m'' demo_fs);
       (out, w1) = main_launch quiet_env (quiet_args\<lparr>a_restore_session := Some 7\<rparr>) w
   in \<forall>b. fs_get (gtk_startup demo_codec w1) (SessionJson b 7) = None"
proof -
  let ?w = "put_file (SessionJson Trash 7) ''U'' (put_file MigrationMarker ''m'' demo_fs)"
  let ?a = "quiet_args\<lparr>a_restore_session := Some 7\<rparr>"
  have a: "?a = quiet_args\<lparr>a_restore_session := Some 7, a_session_id := None\<rparr>" by (simp add: quiet_args_def)
  obtain cfg where cfg: "main_config quiet_env ?a ?w = Inr cfg"
    using quiet_config[of ?w, where r = "Some 7" and i = None] by (auto simp: config_toml_def a[symmetric])
  obtain out w1 where m: "main_launch quiet_env ?a ?w = (out, w1)" by fastforce
  have "\<forall>b. fs_get (gtk_startup demo_codec w1) (SessionJson b 7) = None"
    using undo_close_loses_session[OF _ _ _ _ _ _ cfg m, of 7 "''U''" demo_codec]
    by (simp add: demo_codec_def quiet_args_def)
  then show ?thesis by (simp add: m)
qed

subsection \<open>A bare launch\<close>

lemma purge_keeps_sessions: "fs_get (purge_old_trash d w) (SessionJson Sessions u) = fs_get w (SessionJson Sessions u)"
proof -
  have one: "fs_get (purge_one c p v) (SessionJson Sessions u) = fs_get v (SessionJson Sessions u)" if "in_trash p" for c p v
    using that by (auto simp: purge_one_def fs_remove_def split: option.splits)
  have "fs_get (fold (purge_one c) ps v) (SessionJson Sessions u) = fs_get v (SessionJson Sessions u)"
    if "\<forall>p \<in> set ps. in_trash p" for c ps v
    using that one by (induction ps arbitrary: v) auto
  then show ?thesis by (simp add: purge_old_trash_def Let_def)
qed

lemma purge_healthy: "healthy w \<Longrightarrow> healthy (purge_old_trash d w)"
proof -
  have one: "healthy v \<Longrightarrow> healthy (purge_one c p v)" for c p v
    by (auto simp: purge_one_def fs_remove_def split: option.split)
  have "healthy v \<Longrightarrow> healthy (fold (purge_one c) ps v)" for c ps v
    by (induction ps arbitrary: v) (simp_all add: one)
  then show "healthy w \<Longrightarrow> healthy (purge_old_trash d w)" by (simp add: purge_old_trash_def Let_def)
qed

lemma sessions_after_purge:
  "healthy w \<Longrightarrow> u \<in> set (list_sessions (purge_old_trash d w)) \<longleftrightarrow> fs_get w (SessionJson Sessions u) \<noteq> None"
  using purge_healthy[of w d] by (simp add: list_sessions_def bucket_ids_iff purge_keeps_sessions)

text \<open>The sessions a bare launch has to reopen, and the arguments of the process for one of them.\<close>

definition pending :: "launch_env \<Rightarrow> fs \<Rightarrow> uuid set" where
  "pending E w = {u. fs_get w (SessionJson Sessions u) \<noteq> None \<and> \<not> is_session_in_use E u}"

definition child_args :: "uuid \<Rightarrow> args" where
  "child_args u = \<lparr>a_config_file = None, a_working_directory = None, a_class = None, a_execute = [],
     a_no_restore = False, a_session_id = Some u, a_restore_all = False, a_restore_session = None\<rparr>"

lemma child_opens:
  "main_config E (child_args u) w = Inr cfg \<Longrightarrow>
   main_launch E (child_args u) w = (Opens cfg (launch_options_default\<lparr>lo_session_id := Some u\<rparr>), w)"
  by (simp add: main_launch_def child_args_def validate_working_directory_def is_bare_launch_def
      launch_options_default_def Let_def)

text \<open>
  A bare launch reopens what was saved and nothing else: when no saved session waits for a
  window, it opens one with a new session; otherwise it starts one process for each session of
  \<open>sessions/\<close> that no window shows, and each of these opens a window on its session, starts no
  further process and changes no file.
\<close>

theorem bare_launch_reopens_sessions:
  assumes "healthy w" "a_restore_session a = None" "\<not> a_restore_all a"
    and "is_bare_launch a (validate_working_directory E (a_working_directory a))"
    and "main_config E a w = Inr cfg" "cf_on_launch cfg = Restore" "main_launch E a w = (out, w1)"
  shows "(pending E w = {} \<longrightarrow> (\<exists>opts. out = Opens cfg opts \<and> lo_session_id opts = None)) \<and>
    (pending E w \<noteq> {} \<and> le_current_exe E \<noteq> None \<longrightarrow>
       (\<exists>us. out = Spawned us \<and> set us = {u \<in> pending E w. \<not> le_spawn_fails E u} \<and>
         (\<forall>u \<in> set us. \<forall>v cfg'. main_config E (child_args u) v = Inr cfg' \<longrightarrow>
            main_launch E (child_args u) v = (Opens cfg' (launch_options_default\<lparr>lo_session_id := Some u\<rparr>), v))))"
proof -
  define todo where "todo = filter (\<lambda>u. \<not> is_session_in_use E u) (list_sessions (purge_old_trash (cf_session_trash_days cfg) w))"
  have todo: "set todo = pending E w"
    using sessions_after_purge[OF assms(1)] by (auto simp: todo_def pending_def)
  have "\<exists>opts. out = (if todo = [] then Opens cfg opts else spawn_sessions E todo) \<and> lo_session_id opts = None"
    using assms(2-7) by (auto simp: main_launch_def todo_def is_bare_launch_def Let_def)
  then obtain opts where out: "out = (if todo = [] then Opens cfg opts else spawn_sessions E todo)"
    "lo_session_id opts = None" by blast
  show ?thesis
  proof (intro conjI impI)
    assume "pending E w = {}"
    then have "todo = []" using todo by simp
    then show "\<exists>opts. out = Opens cfg opts \<and> lo_session_id opts = None" using out by auto
  next
    assume "pending E w \<noteq> {} \<and> le_current_exe E \<noteq> None"
    then have "out = Spawned (filter (\<lambda>u. \<not> le_spawn_fails E u) todo)"
      using todo out(1) by (auto simp: spawn_sessions_def)
    then show "\<exists>us. out = Spawned us \<and> set us = {u \<in> pending E w. \<not> le_spawn_fails E u} \<and>
         (\<forall>u \<in> set us. \<forall>v cfg'. main_config E (child_args u) v = Inr cfg' \<longrightarrow>
            main_launch E (child_args u) v = (Opens cfg' (launch_options_default\<lparr>lo_session_id := Some u\<rparr>), v))"
      using todo child_opens by auto
  qed
qed

theorem bare_launch_reopens_sessions_witness:
  "\<exists>us. fst (main_launch quiet_env quiet_args (put_file (SessionJson Sessions 7) ''P'' demo_fs)) = Spawned us \<and>
     set us = {7}"
proof -
  let ?w = "put_file (SessionJson Sessions 7) ''P'' demo_fs"
  have a: "quiet_args = quiet_args\<lparr>a_restore_session := None, a_session_id := None\<rparr>" by (simp add: quiet_args_def)
  obtain cfg where cfg: "main_config quiet_env quiet_args ?w = Inr cfg" "cf_on_launch cfg = Restore"
    using quiet_config[of ?w, where r = None and i = None] by (auto simp: config_toml_def a[symmetric])
  obtain out w1 where m: "main_launch quiet_env quiet_args ?w = (out, w1)" by fastforce
  have "pending quiet_env ?w = {7}"
    by (auto simp: pending_def quiet_env_def is_session_in_use_def)
  moreover have "is_bare_launch quiet_args (validate_working_directory quiet_env (a_working_directory quiet_args))"
    by (simp add: is_bare_launch_def quiet_args_def validate_working_directory_def)
  moreover have "le_current_exe quiet_env = Some ''/usr/bin/forgetty''" "le_spawn_fails quiet_env = (\<lambda>u. False)"
    "a_restore_session quiet_args = None" "\<not> a_restore_all quiet_args"
    by (simp_all add: quiet_env_def quiet_args_def)
  moreover have "{u \<in> {7}. \<not> False} = {7 :: uuid}" by simp
  ultimately show ?thesis
    using bare_launch_reopens_sessions[OF _ _ _ _ cfg m] unfolding m fst_conv by (auto simp del: mem_Collect_eq)
qed

subsection \<open>Waiting for the daemon\<close>

definition pause :: "nat \<Rightarrow> nat" where
  "pause attempt = (if attempt < 5 then 25 else 50)"

lemma retry_result:
  "case retry_connect connects as slept of
     Connected ms \<Rightarrow> ms \<le> slept + sum_list (map pause as) \<and> (\<exists>a \<in> set as. connects (a + 1))
   | NotReady ms \<Rightarrow> ms = slept + sum_list (map pause as) \<and> (\<forall>a \<in> set as. \<not> connects (a + 1))
   | _ \<Rightarrow> False"
proof (induction as arbitrary: slept)
  case (Cons a as)
  have step: "retry_connect connects (a # as) slept = (if connects (a + 1) then Connected (slept + pause a)
      else retry_connect connects as (slept + pause a))" by (simp add: pause_def Let_def)
  show ?case
  proof (cases "connects (a + 1)")
    case True
    then show ?thesis unfolding step by auto
  next
    case False
    then show ?thesis unfolding step using Cons[of "slept + pause a"] by (auto split: ensured.splits)
  qed
qed simp

text \<open>
  The start waits for the daemon for a bounded time: it connects when one of at most
  twenty-one attempts succeeds, after at most 875 milliseconds of sleep, and gives up after
  exactly that when none does; a daemon that was not running and cannot be started is reported
  without waiting.
\<close>

theorem ensure_daemon_bounded:
  "case ensure_daemon connects binary spawns of
     Connected ms \<Rightarrow> ms \<le> 875 \<and> (\<exists>n \<le> 20. connects n)
   | NotReady ms \<Rightarrow> ms = 875 \<and> (\<forall>n \<le> 20. \<not> connects n)
   | NoBinary \<Rightarrow> binary = None
   | NoSpawn \<Rightarrow> \<not> spawns"
proof -
  have total: "sum_list (map pause [0..<20]) = 875"
    by (simp add: upt_rec pause_def)
  have n: "(\<forall>a \<in> set [0..<20]. \<not> connects (a + 1)) \<and> \<not> connects 0 \<longleftrightarrow> (\<forall>n \<le> 20. \<not> connects n)"
  proof -
    have "n \<le> 20 \<longleftrightarrow> n = 0 \<or> (\<exists>a \<in> set [0..<20]. n = a + 1)" for n :: nat
      by (cases n) auto
    then show ?thesis by auto
  qed
  show ?thesis
    using retry_result[where connects = connects and as = "[0..<20]" and slept = 0] total n
    by (auto simp: ensure_daemon_def split: ensured.splits)
qed

end
