(* ===== verification/Spec2Isabelle.thy ===== *)
theory Spec2Isabelle
  imports HandlerProps ServerProps ClientStreams LayoutEvents WindowFocus WindowStale WindowTabs KeysProps SearchProps IrohProps ByteLog Persistence SyncProps Framing Restart ConfigProps ThemeProps LaunchProps
begin

text \<open>
  Forgetty is a terminal emulator in two processes: a daemon per session that owns the shells
  (\<open>src/daemon.rs\<close>), and a GTK window that talks to it over a Unix socket. This library models
  the daemon, the files it keeps, the protocols it speaks, the start of the program, and of the
  window its state, its client of the daemon, the input it sends and what it does with the screen
  and the history of a terminal, and proves what a user of the program relies on.

  \<^bold>\<open>Parts and theories.\<close> \<open>Prelude\<close> has the shared types (\<open>uuid\<close>, \<open>byte\<close>, \<open>f32\<close>, messages), the
  operations of \<open>Vec\<close> with their panics, the rule collections and the locale \<open>invariant_system\<close>
  of a labelled transition system with an invariant.

  \<^item> \<open>Layout\<close>: the types of \<open>forgetty-session/src/layout.rs\<close> and \<open>workspace.rs\<close> and the walks over
    a pane tree in \<open>manager.rs\<close>, against their specification by the list of leaves.
  \<^item> \<open>ByteLog\<close>: \<open>byte_log.rs\<close>, the replay ring, the cursor and the appender task with its file.
    Locale \<open>replay_ring\<close>, interpreted by \<open>rl\<close>.
  \<^item> \<open>SavedState\<close>: the persisted types of \<open>forgetty-workspace/src/workspace.rs\<close>.
  \<^item> \<open>SessionState\<close>, \<open>SessionOps\<close>: \<open>SessionManager\<close> (\<open>manager.rs\<close>, \<open>pane.rs\<close>, \<open>events.rs\<close>,
    \<open>pty_bridge.rs\<close>). The record of the manager holds the pane registry, the creation order, the
    layout, the byte logs, the pinned flag and the list of events sent; every public method is one
    definition. \<open>SessionInv\<close>, \<open>SessionSafe\<close>, \<open>SessionClose\<close> and \<open>SessionBulk\<close> show that each keeps
    the invariant, \<open>SessionMachine\<close> is the step relation over them (\<open>sm\<close>), \<open>SessionFrame\<close> says
    what a step can do to one pane (\<open>sk\<close>), \<open>SessionProps\<close> has the properties.
  \<^item> \<open>Persistence\<close>: \<open>forgetty-workspace/src/persistence.rs\<close> over a map of files with failing system
    calls: saving, the buckets \<open>active\<close>, \<open>sessions\<close> and \<open>trash\<close>, the migration, the trash, the
    pruning of logs. Locale \<open>session_store\<close>, interpreted here (\<open>store\<close>) and for the registry of
    devices (\<open>registry_store\<close>).
  \<^item> \<open>Framing\<close>: \<open>forgetty-socket/src/framing.rs\<close>, the length-prefixed frames.
  \<^item> \<open>Protocol\<close>, \<open>Handlers\<close>, \<open>HandlerProps\<close>: JSON values with their numbers, \<open>protocol.rs\<close>, and
    each handler of \<open>handlers.rs\<close> with its checks of the parameters, as functions on the daemon.
    A request is a short run of the session machine.
  \<^item> \<open>Server\<close>, \<open>ServerProps\<close>, \<open>LayoutEvents\<close>: \<open>server.rs\<close>, the control connection, the output and
    the layout stream over a broadcast channel of bounded length; what a streaming client holds,
    and that the forwarded events rebuild the layout.
  \<^item> \<open>Sync\<close>, \<open>SyncProps\<close>: \<open>forgetty-sync\<close>: the registry of devices and its file, pairing, the
    dispatch of connections, the calendar of the time stamps.
  \<^item> \<open>IrohTerminal\<close>, \<open>IrohProps\<close>: \<open>src/iroh_terminal.rs\<close>, the streams of remote devices.
  \<^item> \<open>Daemon\<close>, \<open>DaemonProps\<close>, \<open>Restart\<close>: \<open>src/daemon.rs\<close>: restoring a saved session, the saves,
    the exit, the registry commands; the way of a session through exit and restart.
  \<^item> \<open>Theme\<close>, \<open>Configuration\<close>, \<open>ConfigProps\<close>, \<open>ThemeProps\<close>: \<open>forgetty-config\<close> and the colours of
    \<open>forgetty-core\<close>: theme files, the catalogue, the configuration and its file.
  \<^item> \<open>Launch\<close>, \<open>LaunchProps\<close>: \<open>src/main.rs\<close>, \<open>cli.rs\<close> and the start of \<open>forgetty-gtk/src/app.rs\<close>:
    which sessions are opened, the recovery of \<open>active\<close>, the wait for the daemon.

  \<^item> \<open>Wire\<close>, \<open>Client\<close>, \<open>ClientProps\<close>, \<open>ClientStreams\<close>: \<open>daemon_client.rs\<close>, the calls of the window,
    the layout it reads and the two streams it listens to. A call, sent as a line to the handlers of
    the daemon and answered, is the operation of the session it stands for; what a terminal of the
    window is fed is the history of its pane.
  \<^item> \<open>Floats\<close>, \<open>Panes\<close>, \<open>PanesProps\<close>: the tree of split panes of a tab in \<open>app.rs\<close>, in single
    precision: splitting, closing, moving the focus by geometry, saving and restoring the dividers.
  \<^item> \<open>Window\<close>: the rest of the state of the window in \<open>app.rs\<close>, a record of its workspaces with their
    pages, the maps from tab ids, the active indices and the queues of own actions whose events it
    expects; one definition per action of the user and per layout event. \<open>WindowProps\<close> has the
    locale \<open>echo_queue\<close> of such a queue, \<open>WindowRuns\<close> a step relation of window and daemon and the
    order of the workspaces in all its runs, \<open>WindowStart\<close> the start from a layout, and
    \<open>WindowFocus\<close>, \<open>WindowStale\<close> and \<open>WindowTabs\<close> the runs in which window and daemon disagree.
  \<^item> \<open>Keys\<close>, \<open>KeysProps\<close>: \<open>input.rs\<close>. The tables from GDK keys to the enumeration of \<open>ffi.rs\<close>, the key
    and mouse events handed to the encoders, and runs of calls: repeats, held buttons.
  \<^item> \<open>Grid\<close>, \<open>GridProps\<close>: \<open>screen.rs\<close>, \<open>selection.rs\<close> and \<open>sync_screen\<close> of \<open>forgetty-vt\<close>: the grid of
    cells keeps its size and its generations, and shows the render state.
  \<^item> \<open>Scrollback\<close>: the search, the copy of a selection and the selection of words and lines in
    \<open>terminal.rs\<close>, \<open>app.rs\<close> and \<open>clipboard.rs\<close>. \<open>CopyProps\<close> says which copies return and what they
    give, \<open>SearchProps\<close> which searches return, what they find, and that moving between the matches
    shows them. Both rest on \<open>shows_history\<close>: the terminal shows a window of its history, and
    scrolling moves that window.

  \<^bold>\<open>How the model corresponds to the code.\<close> A struct is a record, an enum a datatype, an
  operation that changes state a function that returns the new state, an error a value (a \<open>Msg\<close>,
  an error code, or \<open>failure\<close>, which tells a panic from an error). Tasks that run concurrently
  (the drain task of a pane, the disk appender, the three save tasks, the streams) are steps,
  and the properties hold for every interleaving of them; a method of the manager runs under its
  mutex and is one step. Machine integers are words or have their bound written out (\<open>as u16\<close>
  truncates, \<open>saturating_add\<close> stops); an \<open>f32\<close> is a rational, an infinity or NaN. A clock, fresh
  UUIDs, the answers of spawning a shell and of the disk come from the \<open>world\<close>, \<open>fs\<close> and
  \<open>launch_env\<close> records, so that every property holds for all their answers.

  \<^bold>\<open>Parameters.\<close> What is not in the repository is an argument: \<open>serde_json\<close>, \<open>toml\<close>, \<open>uuid\<close>,
  \<open>base64\<close> (\<open>libs\<close>, \<open>codec\<close>, \<open>toml_lib\<close>), MessagePack (\<open>msgpack\<close>), Unicode lower-casing and the
  generated table of bundled themes (\<open>theme_env\<close>), the encoders of libghostty (\<open>libghostty\<close>), its
  render state and its scrolling (\<open>render_state\<close>, \<open>viewport\<close>), what GDK answers for a key
  (\<open>gdk_key\<close>) and which panes the window manages to render (\<open>renderer\<close>). Properties that need their documented
  behaviour (what was printed parses back) say so, and their witnesses instantiate them.

  \<^bold>\<open>Bounds.\<close> The loops of the code are structural recursions over lists and trees, or recursions
  with a measure: the search for a year counts down the days, the search in a line moves on by a
  byte, the retries of the launcher are the twenty of the code. The two loops over the pages of the
  history end only if the terminal scrolls as it says, so they are partial functions with \<open>None\<close>
  for a loop that does not return, and the properties say when it does. There is no fuel.

  \<^bold>\<open>Not modelled.\<close> The parser and the render state of the terminal are a C library behind
  \<open>ffi.rs\<close>; the pty processes (\<open>forgetty-pty\<close>) are system calls. Of the window the drawing, the
  dialogs, menus and settings pages, the event controllers that only pass their events on, links,
  code blocks and the scan for notifications are left out, as are the file watcher, QR codes, the
  identity key and the discovery of projects. Logging, metrics and the text of error messages are
  left out where nothing depends on them.
\<close>

end
